(* ===== verification/Prelude.thy ===== *)
theory Prelude
  imports Complex_Main "HOL-Library.Word" "HOL-Library.Char_ord" "HOL-Library.List_Lexorder"
begin

text \<open>
  Shared vocabulary of the development: the Rust integer types as words, byte strings,
  \<open>Result\<close> as a sum with the error on the left, the ordered map of the Rust standard
  library (\<open>BTreeMap\<close>) as a strictly sorted association list together with the
  interface the components use, and the generic facts on lists, prefixes and words that
  the component theories share.
\<close>

section \<open>Integers, strings, results\<close>

type_synonym u8 = "8 word"
type_synonym u16 = "16 word"
type_synonym u32 = "32 word"
type_synonym u64 = "64 word"
type_synonym i64 = "64 word"
type_synonym usize = "64 word"
type_synonym bytes = "8 word list"

text \<open>
  A Rust \<open>String\<close> is modelled by the list of its UTF-8 bytes, as a HOL \<open>string\<close>; Rust
  orders strings bytewise, which is the lexicographic order of \<open>List_Lexorder\<close> over the
  byte order of \<open>Char_ord\<close>. \<open>as_bytes\<close> gives the bytes of a string.
\<close>

definition as_bytes :: "string \<Rightarrow> bytes" where
  "as_bytes s = map (\<lambda>c. word_of_nat (of_char c)) s"

definition checked_add :: "'a::len word \<Rightarrow> 'a word \<Rightarrow> 'a word option" where
  "checked_add a b = (if unat a + unat b < 2 ^ LENGTH('a) then Some (a + b) else None)"

named_theorems result_simps \<open>rewriting of result-valued combinators\<close>

definition ok_or :: "'e \<Rightarrow> 'a option \<Rightarrow> 'e + 'a" where
  "ok_or e x = (case x of None \<Rightarrow> Inl e | Some y \<Rightarrow> Inr y)"

definition bind_res :: "'e + 'a \<Rightarrow> ('a \<Rightarrow> 'e + 'b) \<Rightarrow> 'e + 'b" where
  "bind_res r f = (case r of Inl e \<Rightarrow> Inl e | Inr x \<Rightarrow> f x)"

lemma ok_or_simps [simp, result_simps]:
  "ok_or e None = Inl e"
  "ok_or e (Some y) = Inr y"
  by (simp_all add: ok_or_def)

lemma bind_res_simps [simp, result_simps]:
  "bind_res (Inl e) f = Inl e"
  "bind_res (Inr x) f = f x"
  by (simp_all add: bind_res_def)

lemma bind_res_Inr_iff: "bind_res r f = Inr y \<longleftrightarrow> (\<exists>x. r = Inr x \<and> f x = Inr y)"
  by (cases r) auto

lemma bind_res_Inl_iff:
  "bind_res r f = Inl e \<longleftrightarrow> r = Inl e \<or> (\<exists>x. r = Inr x \<and> f x = Inl e)"
  by (cases r) auto

lemma ok_or_Inr_iff: "ok_or e x = Inr y \<longleftrightarrow> x = Some y"
  by (cases x) auto

fun is_err :: "'e + 'a \<Rightarrow> bool" where
  "is_err (Inl _) = True"
| "is_err (Inr _) = False"

lemma unat_lt2p: "unat (w :: 'a::len word) < 2 ^ LENGTH('a)"
  by (rule unsigned_less)

lemma checked_add_Some:
  "checked_add a b = Some c \<Longrightarrow> unat c = unat a + unat b"
  by (auto simp: checked_add_def unat_word_ariths split: if_splits)

lemma checked_add_ge: "checked_add a b = Some c \<Longrightarrow> a \<le> c"
  by (drule checked_add_Some) (simp add: word_le_nat_alt)

lemma checked_add_gt: "checked_add a b = Some c \<Longrightarrow> b \<noteq> 0 \<Longrightarrow> a < c"
  by (drule checked_add_Some) (simp add: word_less_nat_alt unat_gt_0)

section \<open>Prefixes of byte strings\<close>

text \<open>\<open>str::starts_with\<close>.\<close>

fun starts_with :: "'a list \<Rightarrow> 'a list \<Rightarrow> bool" where
  "starts_with s [] = True"
| "starts_with [] (p # ps) = False"
| "starts_with (c # s) (p # ps) = (c = p \<and> starts_with s ps)"

lemma starts_with_take: "starts_with s p \<longleftrightarrow> (length p \<le> length s \<and> take (length p) s = p)"
  by (induction s p rule: starts_with.induct) auto

lemma starts_with_append [simp]: "starts_with (p @ s) p"
  by (simp add: starts_with_take)

lemma starts_with_le_length: "starts_with s p \<Longrightarrow> length p \<le> length s"
  by (simp add: starts_with_take)

lemma starts_with_same_length:
  "starts_with s p \<Longrightarrow> starts_with s q \<Longrightarrow> length p = length q \<Longrightarrow> p = q"
  by (auto simp: starts_with_take)

text \<open>
  Among the prefixes of one string the lexicographic order and the order by length agree.
\<close>

lemma starts_with_less_length:
  fixes p q :: "'a::linorder list"
  assumes "starts_with s p" and "starts_with s q" and "length p < length q"
  shows "p < q"
  using assms
proof (induction s p arbitrary: q rule: starts_with.induct)
  case (1 s)
  then show ?case by (cases q) auto
next
  case (2 p ps)
  then show ?case by simp
next
  case (3 c s p ps)
  then show ?case by (cases q) auto
qed

lemma starts_with_le_iff:
  fixes p q :: "'a::linorder list"
  assumes "starts_with s p" and "starts_with s q"
  shows "p \<le> q \<longleftrightarrow> length p \<le> length q"
  using assms starts_with_less_length [of s p q] starts_with_less_length [of s q p]
    starts_with_same_length [of s p q]
  by (metis leD le_less linorder_le_less_linear)

section \<open>BTreeMap\<close>

text \<open>
  The standard library's \<open>BTreeMap<K, V>\<close> iterates in the order of its keys: it is modelled
  by the list it iterates, strictly sorted by key. \<open>collect()\<close> from an iterator inserts the
  items in turn, a later item replacing an earlier one with the same key.
\<close>

type_synonym ('k, 'v) BTreeMap = "('k \<times> 'v) list"

fun bt_insert :: "'k::linorder \<Rightarrow> 'v \<Rightarrow> ('k, 'v) BTreeMap \<Rightarrow> ('k, 'v) BTreeMap" where
  "bt_insert k v [] = [(k, v)]"
| "bt_insert k v ((k', v') # m) =
     (if k < k' then (k, v) # (k', v') # m
      else if k = k' then (k, v) # m
      else (k', v') # bt_insert k v m)"

definition bt_get :: "('k, 'v) BTreeMap \<Rightarrow> 'k \<Rightarrow> 'v option" where
  "bt_get m k = map_of m k"

definition bt_remove :: "'k \<Rightarrow> ('k, 'v) BTreeMap \<Rightarrow> ('k, 'v) BTreeMap" where
  "bt_remove k m = filter (\<lambda>(k', _). k' \<noteq> k) m"

definition bt_collect :: "('k::linorder \<times> 'v) list \<Rightarrow> ('k, 'v) BTreeMap" where
  "bt_collect xs = fold (\<lambda>(k, v) m. bt_insert k v m) xs []"

definition bt_contains_key :: "('k, 'v) BTreeMap \<Rightarrow> 'k \<Rightarrow> bool" where
  "bt_contains_key m k \<longleftrightarrow> bt_get m k \<noteq> None"

definition bt_wf :: "('k::linorder, 'v) BTreeMap \<Rightarrow> bool" where
  "bt_wf m \<longleftrightarrow> sorted_wrt (<) (map fst m)"

text \<open>The contract a client of an ordered map relies on.\<close>

locale ordered_map =
  fixes empty :: "'m"
    and insert :: "'k::linorder \<Rightarrow> 'v \<Rightarrow> 'm \<Rightarrow> 'm"
    and remove :: "'k \<Rightarrow> 'm \<Rightarrow> 'm"
    and get :: "'m \<Rightarrow> 'k \<Rightarrow> 'v option"
    and entries :: "'m \<Rightarrow> ('k \<times> 'v) list"
    and invar :: "'m \<Rightarrow> bool"
  assumes get_empty: "get empty k = None"
    and get_insert: "invar m \<Longrightarrow> get (insert k v m) k' = (if k' = k then Some v else get m k')"
    and get_remove: "invar m \<Longrightarrow> get (remove k m) k' = (if k' = k then None else get m k')"
    and entries_sorted: "invar m \<Longrightarrow> sorted_wrt (<) (map fst (entries m))"
    and entries_get: "invar m \<Longrightarrow> (k, v) \<in> set (entries m) \<longleftrightarrow> get m k = Some v"
    and invar_empty: "invar empty"
    and invar_insert: "invar m \<Longrightarrow> invar (insert k v m)"
    and invar_remove: "invar m \<Longrightarrow> invar (remove k m)"
begin

definition collect :: "('k \<times> 'v) list \<Rightarrow> 'm" where
  "collect xs = fold (\<lambda>(k, v) m. insert k v m) xs empty"

lemma invar_fold_insert: "invar m \<Longrightarrow> invar (fold (\<lambda>(k, v) m. insert k v m) xs m)"
  by (induction xs arbitrary: m) (auto simp: invar_insert)

lemma get_fold_insert:
  "invar m \<Longrightarrow> get (fold (\<lambda>(k, v) m. insert k v m) xs m) k =
     (case map_of (rev xs) k of Some v \<Rightarrow> Some v | None \<Rightarrow> get m k)"
proof (induction xs arbitrary: m)
  case Nil
  then show ?case by simp
next
  case (Cons x xs)
  obtain k' v' where x: "x = (k', v')" by (cases x)
  from Cons.prems have "invar (insert k' v' m)" by (rule invar_insert)
  from Cons.IH [OF this] Cons.prems show ?case
    by (auto simp: x get_insert map_add_def split: option.splits)
qed

lemma invar_collect: "invar (collect xs)"
  unfolding collect_def by (rule invar_fold_insert) (rule invar_empty)

lemma get_collect: "get (collect xs) k = map_of (rev xs) k"
  unfolding collect_def
  by (simp add: get_fold_insert [OF invar_empty] get_empty split: option.splits)

lemma entries_distinct: "invar m \<Longrightarrow> distinct (map fst (entries m))"
  using entries_sorted strict_sorted_iff by blast

lemma get_Some_key: "invar m \<Longrightarrow> get m k = Some v \<Longrightarrow> k \<in> fst ` set (entries m)"
  by (force simp flip: entries_get)

lemma get_None_key:
  assumes m: "invar m"
  shows "get m k = None \<longleftrightarrow> k \<notin> fst ` set (entries m)"
proof
  assume "get m k = None"
  then show "k \<notin> fst ` set (entries m)"
    using entries_get [OF m] by fastforce
next
  assume "k \<notin> fst ` set (entries m)"
  then show "get m k = None"
    using get_Some_key [OF m] by (cases "get m k") auto
qed

end

lemma bt_wf_Nil [simp]: "bt_wf []"
  by (simp add: bt_wf_def)

lemma bt_wf_Cons [simp]:
  "bt_wf ((k, v) # m) \<longleftrightarrow> (\<forall>k' \<in> fst ` set m. k < k') \<and> bt_wf m"
  by (auto simp: bt_wf_def)

lemma bt_get_insert: "bt_get (bt_insert k v m) k' = (if k' = k then Some v else bt_get m k')"
  by (induction k v m rule: bt_insert.induct) (auto simp: bt_get_def)

lemma keys_bt_insert: "fst ` set (bt_insert k v m) = insert k (fst ` set m)"
  by (induction k v m rule: bt_insert.induct) auto

lemma bt_wf_insert: "bt_wf m \<Longrightarrow> bt_wf (bt_insert k v m)"
  by (induction k v m rule: bt_insert.induct) (auto simp: keys_bt_insert)

lemma bt_wf_remove: "bt_wf m \<Longrightarrow> bt_wf (bt_remove k m)"
  by (induction m) (auto simp: bt_remove_def)

lemma bt_get_remove: "bt_get (bt_remove k m) k' = (if k' = k then None else bt_get m k')"
  by (induction m) (auto simp: bt_remove_def bt_get_def)

lemma bt_get_mem: "bt_wf m \<Longrightarrow> (k, v) \<in> set m \<longleftrightarrow> bt_get m k = Some v"
  by (induction m) (fastforce simp: bt_get_def split: if_splits)+

interpretation bt: ordered_map "[]" bt_insert bt_remove bt_get "\<lambda>m. m" bt_wf
  by unfold_locales
    (simp_all add: bt_get_insert bt_get_remove bt_wf_insert bt_wf_remove bt_get_mem,
     simp_all add: bt_get_def bt_wf_def)

lemma bt_collect_alt: "bt_collect = bt.collect"
  by (simp add: fun_eq_iff bt_collect_def bt.collect_def)

lemma bt_wf_collect [simp]: "bt_wf (bt_collect xs)"
  by (simp add: bt_collect_alt bt.invar_collect)

lemma bt_get_collect: "bt_get (bt_collect xs) k = map_of (rev xs) k"
  by (simp add: bt_collect_alt bt.get_collect)

lemma bt_get_fold_remove:
  "bt_get (fold bt_remove ks m) k = (if k \<in> set ks then None else bt_get m k)"
  by (induction ks arbitrary: m) (auto simp: bt_get_remove)

lemma bt_wf_fold_remove: "bt_wf m \<Longrightarrow> bt_wf (fold bt_remove ks m)"
  by (induction ks arbitrary: m) (auto simp: bt_wf_remove)

section \<open>Lists\<close>

lemma find_Some_mem: "find P xs = Some x \<Longrightarrow> x \<in> set xs \<and> P x"
  by (auto simp: find_Some_iff)

lemma map_of_rev_distinct: "distinct (map fst xs) \<Longrightarrow> map_of (rev xs) = map_of xs"
proof
  fix k
  assume d: "distinct (map fst xs)"
  then have d': "distinct (map fst (rev xs))" by (simp add: rev_map [symmetric])
  have "map_of (rev xs) k = Some v \<longleftrightarrow> map_of xs k = Some v" for v
    by (simp add: map_of_eq_Some_iff [OF d] map_of_eq_Some_iff [OF d'])
  then show "map_of (rev xs) k = map_of xs k"
    by (metis not_Some_eq)
qed

lemma map_of_map_snd: "map_of (map (\<lambda>(k, v). (k, f v)) xs) k = map_option f (map_of xs k)"
  by (induction xs) auto

lemma length_filter_update:
  "i < length xs \<Longrightarrow> length (filter P (xs[i := y])) + (if P (xs ! i) then 1 else 0) =
     length (filter P xs) + (if P y then 1 else 0)"
proof (induction xs arbitrary: i)
  case (Cons x xs)
  then show ?case by (cases i) auto
qed simp

end
