(* ===== verification/Types.thy ===== *)
theory Types
  imports Prelude
begin

text \<open>
  The shared crate \<open>rusty-workers\<close>: the data that the proxy, the runtime and the command
  line tools exchange (\<open>src/rusty-workers/src/types.rs\<close>, \<open>app.rs\<close>), the identifiers
  with their derived order, and the utilities of \<open>util.rs\<close>. The random number generator,
  the hexadecimal and the base64 codecs are third-party crates: they are parameters.
\<close>

section \<open>Identifiers\<close>

text \<open>
  The identifier types derive \<open>Ord\<close> from the string they wrap, so that they can be keys of
  a \<open>BTreeMap\<close>.
\<close>

datatype AppId = AppId (appid_str: string)

datatype RuntimeId = RuntimeId (rtid_str: string)

datatype WorkerHandle = WorkerHandle (handle_id: string)

instantiation AppId :: linorder
begin

definition less_eq_AppId :: "AppId \<Rightarrow> AppId \<Rightarrow> bool" where
  "less_eq_AppId a b = (appid_str a \<le> appid_str b)"

definition less_AppId :: "AppId \<Rightarrow> AppId \<Rightarrow> bool" where
  "less_AppId a b = (appid_str a < appid_str b)"

instance
  by standard (auto simp: less_eq_AppId_def less_AppId_def AppId.expand)

end

instantiation RuntimeId :: linorder
begin

definition less_eq_RuntimeId :: "RuntimeId \<Rightarrow> RuntimeId \<Rightarrow> bool" where
  "less_eq_RuntimeId a b = (rtid_str a \<le> rtid_str b)"

definition less_RuntimeId :: "RuntimeId \<Rightarrow> RuntimeId \<Rightarrow> bool" where
  "less_RuntimeId a b = (rtid_str a < rtid_str b)"

instance
  by standard (auto simp: less_eq_RuntimeId_def less_RuntimeId_def RuntimeId.expand)

end

instantiation WorkerHandle :: linorder
begin

definition less_eq_WorkerHandle :: "WorkerHandle \<Rightarrow> WorkerHandle \<Rightarrow> bool" where
  "less_eq_WorkerHandle a b = (handle_id a \<le> handle_id b)"

definition less_WorkerHandle :: "WorkerHandle \<Rightarrow> WorkerHandle \<Rightarrow> bool" where
  "less_WorkerHandle a b = (handle_id a < handle_id b)"

instance
  by standard (auto simp: less_eq_WorkerHandle_def less_WorkerHandle_def WorkerHandle.expand)

end

section \<open>Configuration\<close>

text \<open>A socket address is opaque to the code: it is only stored and passed on.\<close>

type_synonym SocketAddr = string

record ExecutorConfiguration =
  max_ab_memory_mb :: u32
  max_time_ms :: u32
  max_io_concurrency :: u32
  max_io_per_request :: u32

record WorkerConfiguration =
  executor :: ExecutorConfiguration
  fetch_service :: SocketAddr
  wc_env :: "(string, string) BTreeMap"
  wc_kv_namespaces :: "(string, string) BTreeMap"

record KvNamespaceConfig =
  kvn_name :: string
  kvn_id :: string

record AppConfig =
  ac_id :: AppId
  ac_bundle_id :: string
  ac_env :: "(string, string) BTreeMap"
  ac_kv_namespaces :: "KvNamespaceConfig list"

record AppRoute =
  ar_domain :: string
  ar_path_prefix :: string

section \<open>Requests and responses\<close>

datatype HttpBody = Binary bytes

definition HttpBody_default :: HttpBody where
  "HttpBody_default = Binary []"

record RequestObject =
  req_headers :: "(string, string list) BTreeMap"
  req_method :: string
  req_url :: string
  req_body :: HttpBody

record ResponseObject =
  res_headers :: "(string, string list) BTreeMap"
  res_status :: u16
  res_body :: HttpBody

definition RequestObject_default :: RequestObject where
  "RequestObject_default =
     \<lparr>req_headers = [], req_method = [], req_url = [], req_body = HttpBody_default\<rparr>"

definition ResponseObject_default :: ResponseObject where
  "ResponseObject_default = \<lparr>res_headers = [], res_status = 0, res_body = HttpBody_default\<rparr>"

section \<open>Errors\<close>

datatype ExecutionError =
    NoSuchWorker
  | RuntimeThrowsException
  | TimeLimitExceeded
  | MemoryLimitExceeded
  | IoTimeout
  | ScriptThrowsException string

type_synonym 'a ExecutionResult = "ExecutionError + 'a"

fun terminates_worker :: "ExecutionError \<Rightarrow> bool" where
  "terminates_worker NoSuchWorker = True"
| "terminates_worker RuntimeThrowsException = True"
| "terminates_worker TimeLimitExceeded = True"
| "terminates_worker MemoryLimitExceeded = True"
| "terminates_worker IoTimeout = True"
| "terminates_worker (ScriptThrowsException _) = False"

datatype GenericError =
    Io string
  | Database string
  | Executor string
  | V8Unknown
  | Execution ExecutionError
  | ScriptInitException string
  | IoLimitExceeded
  | TryAgain
  | Conversion
  | Typeck string
  | Other string

type_synonym 'a GenericResult = "GenericError + 'a"

text \<open>
  The \<open>From\<close> conversions that the \<open>?\<close> operator applies, on the \<open>Debug\<close> text of the
  foreign error.
\<close>

definition from_io_error :: "string \<Rightarrow> GenericError" where
  "from_io_error dbg = Io dbg"

definition from_mysql_error :: "string \<Rightarrow> GenericError" where
  "from_mysql_error dbg = Database dbg"

definition from_json_error :: "string \<Rightarrow> GenericError" where
  "from_json_error dbg = Database dbg"

section \<open>Utilities\<close>

text \<open>\<open>rng i\<close> is the \<open>i\<close>-th byte the generator yields.\<close>

definition rand_bytes :: "(nat \<Rightarrow> u8) \<Rightarrow> nat \<Rightarrow> bytes" where
  "rand_bytes rng num_bytes = map rng [0..<num_bytes]"

definition rand_hex :: "(bytes \<Rightarrow> string) \<Rightarrow> (nat \<Rightarrow> u8) \<Rightarrow> nat \<Rightarrow> string" where
  "rand_hex hex_encode rng num_bytes = hex_encode (rand_bytes rng num_bytes)"

definition WorkerHandle_generate :: "(bytes \<Rightarrow> string) \<Rightarrow> (nat \<Rightarrow> u8) \<Rightarrow> WorkerHandle" where
  "WorkerHandle_generate hex_encode rng = WorkerHandle (rand_hex hex_encode rng 16)"

definition RuntimeId_generate :: "(bytes \<Rightarrow> string) \<Rightarrow> (nat \<Rightarrow> u8) \<Rightarrow> RuntimeId" where
  "RuntimeId_generate hex_encode rng = RuntimeId (rand_hex hex_encode rng 16)"

text \<open>
  The system clock is the number of nanoseconds since the epoch, negative before it.
  \<open>as u64\<close> keeps the low 64 bits.
\<close>

definition millis_since_epoch :: "int \<Rightarrow> u64" where
  "millis_since_epoch t = (if t < 0 then 0 else word_of_int (t div 1000000))"

definition current_millis :: "int \<Rightarrow> u64" where
  "current_millis now = millis_since_epoch now"

definition decode_id128 :: "(string \<Rightarrow> bytes option) \<Rightarrow> string \<Rightarrow> bytes option" where
  "decode_id128 base64_decode raw =
     (case base64_decode raw of
        None \<Rightarrow> None
      | Some x \<Rightarrow> if length x = 16 then Some x else None)"

definition encode_id128 :: "(bytes \<Rightarrow> string) \<Rightarrow> bytes \<Rightarrow> string" where
  "encode_id128 base64_encode raw = base64_encode raw"

lemma length_rand_bytes [simp]: "length (rand_bytes rng n) = n"
  by (simp add: rand_bytes_def)

text \<open>Distinct random draws give distinct handles when the hexadecimal codec is injective.\<close>

lemma WorkerHandle_generate_inj:
  assumes "inj hex" and "WorkerHandle_generate hex r1 = WorkerHandle_generate hex r2"
    and "i < 16"
  shows "r1 i = r2 i"
proof -
  from assms(1,2) have "map r1 [0..<16] = map r2 [0..<16]"
    by (auto simp: WorkerHandle_generate_def rand_hex_def rand_bytes_def dest: injD)
  with assms(3) show ?thesis by (simp add: map_eq_conv)
qed

lemma decode_encode_id128:
  assumes "\<And>x. base64_decode (base64_encode x) = Some x" and "length raw = 16"
  shows "decode_id128 base64_decode (encode_id128 base64_encode raw) = Some raw"
  using assms by (simp add: decode_id128_def encode_id128_def)

lemma decode_id128_length: "decode_id128 dec raw = Some x \<Longrightarrow> length x = 16"
  by (auto simp: decode_id128_def split: option.splits if_splits)

end
