(* ===== verification/Db.thy ===== *)
theory Db
  imports Types
begin

text \<open>
  \<open>DataClient\<close> of \<open>src/rusty-workers/src/db.rs\<close> over the tables of
  \<open>src/sql/migration_000001\<close>. A table is the list of its rows with a primary key; each SQL
  statement of the source is a function on the tables. The database is remote: every call
  that the source awaits consumes one entry of \<open>outcomes\<close>, which is \<open>Some text\<close> where the
  server or the connection fails with that error text, so that every \<open>?\<close> of the source has
  its failing branch. A failing statement changes no table, and a transaction that is not
  committed is rolled back. String columns compare bytewise (the \<open>utf8mb4_bin\<close> collation,
  which \<open>appkv.nsid\<close> takes from the server's default), and a \<open>select\<close> without \<open>order by\<close> returns rows in table order; no theorem relies on
  that order. Serialisation of JSON columns is \<open>serde_json\<close>: a parameter.
\<close>

named_theorems db_simps \<open>unfolding of the database monad and its statements\<close>

section \<open>Tables with a primary key\<close>

definition tbl_wf :: "('r \<Rightarrow> 'k) \<Rightarrow> 'r list \<Rightarrow> bool" where
  "tbl_wf key rows \<longleftrightarrow> distinct (map key rows)"

definition tbl_find :: "('r \<Rightarrow> 'k) \<Rightarrow> 'k \<Rightarrow> 'r list \<Rightarrow> 'r option" where
  "tbl_find key k rows = find (\<lambda>r. key r = k) rows"

text \<open>\<open>insert \<dots> on duplicate key update\<close>.\<close>

definition tbl_upsert :: "('r \<Rightarrow> 'k) \<Rightarrow> ('r \<Rightarrow> 'r) \<Rightarrow> 'r \<Rightarrow> 'r list \<Rightarrow> 'r list" where
  "tbl_upsert key upd row rows =
     (if \<exists>r \<in> set rows. key r = key row
      then map (\<lambda>r. if key r = key row then upd r else r) rows
      else rows @ [row])"

text \<open>\<open>replace into\<close>.\<close>

definition tbl_replace :: "('r \<Rightarrow> 'k) \<Rightarrow> 'r \<Rightarrow> 'r list \<Rightarrow> 'r list" where
  "tbl_replace key row rows = filter (\<lambda>r. key r \<noteq> key row) rows @ [row]"

text \<open>A plain \<open>insert\<close> fails on a duplicate key.\<close>

definition tbl_insert :: "('r \<Rightarrow> 'k) \<Rightarrow> 'r \<Rightarrow> 'r list \<Rightarrow> 'r list option" where
  "tbl_insert key row rows = (if \<exists>r \<in> set rows. key r = key row then None else Some (rows @ [row]))"

definition tbl_delete :: "('r \<Rightarrow> bool) \<Rightarrow> 'r list \<Rightarrow> 'r list" where
  "tbl_delete P rows = filter (\<lambda>r. \<not> P r) rows"

lemma tbl_find_Nil [simp]: "tbl_find key k [] = None"
  by (simp add: tbl_find_def)

lemma tbl_find_Cons [simp]:
  "tbl_find key k (r # rows) = (if key r = k then Some r else tbl_find key k rows)"
  by (simp add: tbl_find_def)

lemma tbl_find_append:
  "tbl_find key k (xs @ ys) = (case tbl_find key k xs of None \<Rightarrow> tbl_find key k ys | Some r \<Rightarrow> Some r)"
  by (induction xs) auto

lemma tbl_find_None_iff: "tbl_find key k rows = None \<longleftrightarrow> k \<notin> key ` set rows"
  by (induction rows) auto

lemma tbl_find_Some: "tbl_find key k rows = Some r \<Longrightarrow> r \<in> set rows \<and> key r = k"
  by (induction rows) (auto split: if_splits)

lemma tbl_find_mem:
  "tbl_wf key rows \<Longrightarrow> r \<in> set rows \<Longrightarrow> tbl_find key (key r) rows = Some r"
  by (induction rows) (auto simp: tbl_wf_def)

lemma tbl_find_map_same:
  "tbl_find key k (map (\<lambda>r. if key r = k' then f r else r) rows) =
     (if k = k' then map_option f (tbl_find key k rows) else tbl_find key k rows)"
  if "\<And>r. key (f r) = key r"
  using that by (induction rows) auto

lemma tbl_find_upsert:
  assumes "\<And>r. key (upd r) = key r"
  shows "tbl_find key k (tbl_upsert key upd row rows) =
    (if k = key row then (case tbl_find key k rows of None \<Rightarrow> Some row | Some r \<Rightarrow> Some (upd r))
     else tbl_find key k rows)"
proof (cases "\<exists>r \<in> set rows. key r = key row")
  case True
  then have "key row \<in> key ` set rows"
    by (metis image_eqI)
  then have "tbl_find key (key row) rows \<noteq> None"
    by (simp add: tbl_find_None_iff)
  with True show ?thesis
    by (auto simp: tbl_upsert_def tbl_find_map_same [where key = key and f = upd, OF assms] split: option.splits)
next
  case False
  then have "tbl_find key (key row) rows = None"
    by (auto simp: tbl_find_None_iff)
  with False show ?thesis
    by (auto simp: tbl_upsert_def tbl_find_append split: option.splits)
qed

lemma tbl_find_filter_neq:
  "tbl_find key k (filter (\<lambda>r. key r \<noteq> k') rows) = (if k = k' then None else tbl_find key k rows)"
  by (induction rows) auto

lemma tbl_find_replace:
  "tbl_find key k (tbl_replace key row rows) =
    (if k = key row then Some row else tbl_find key k rows)"
  by (auto simp: tbl_replace_def tbl_find_append tbl_find_filter_neq split: option.splits)

lemma tbl_wf_upsert:
  assumes "\<And>r. key (upd r) = key r" and "tbl_wf key rows"
  shows "tbl_wf key (tbl_upsert key upd row rows)"
proof -
  have "map key (map (\<lambda>r. if key r = key row then upd r else r) rows) = map key rows"
    using assms(1) by simp
  then show ?thesis
    using assms(2) by (auto simp: tbl_wf_def tbl_upsert_def simp del: map_map)
qed

lemma tbl_wf_filter: "tbl_wf key rows \<Longrightarrow> tbl_wf key (filter P rows)"
  by (simp add: tbl_wf_def distinct_map_filter)

lemma tbl_wf_replace: "tbl_wf key rows \<Longrightarrow> tbl_wf key (tbl_replace key row rows)"
  by (auto simp: tbl_replace_def tbl_wf_def distinct_map_filter)

lemma tbl_wf_insert: "tbl_wf key rows \<Longrightarrow> tbl_insert key row rows = Some rows' \<Longrightarrow> tbl_wf key rows'"
  by (force simp: tbl_insert_def tbl_wf_def split: if_splits)

lemma tbl_wf_delete: "tbl_wf key rows \<Longrightarrow> tbl_wf key (tbl_delete P rows)"
  by (simp add: tbl_delete_def tbl_wf_filter)

lemmas tbl_wf_intros [intro] =
  tbl_wf_upsert tbl_wf_filter tbl_wf_replace tbl_wf_insert tbl_wf_delete

section \<open>Schema\<close>

record appkv_row =
  kv_nsid :: string
  kv_appkey :: bytes
  kv_appvalue :: bytes
  kv_appmetadata :: bytes
  kv_appexpiration :: u64

record route_row =
  rt_domain :: string
  rt_path :: string
  rt_appid :: string
  rt_createtime :: u64

record app_row =
  ap_id :: string
  ap_bundle_id :: string
  ap_env :: string
  ap_kv_namespaces :: string
  ap_createtime :: u64

record bundle_row =
  bu_id :: string
  bu_bundle :: bytes
  bu_createtime :: u64

record applog_row =
  lg_appid :: string
  lg_logtime :: u64
  lg_subid :: u32
  lg_logcontent :: string

record tables =
  appkv :: "appkv_row list"
  routes :: "route_row list"
  apps_tbl :: "app_row list"
  bundles :: "bundle_row list"
  applog :: "applog_row list"
  dup_text :: string \<comment> \<open>the server's text for a duplicate key\<close>

definition kv_key :: "appkv_row \<Rightarrow> string \<times> bytes" where
  "kv_key r = (kv_nsid r, kv_appkey r)"

definition rt_key :: "route_row \<Rightarrow> string \<times> string" where
  "rt_key r = (rt_domain r, rt_path r)"

definition lg_key :: "applog_row \<Rightarrow> string \<times> u64 \<times> u32" where
  "lg_key r = (lg_appid r, lg_logtime r, lg_subid r)"

definition tables_wf :: "tables \<Rightarrow> bool" where
  "tables_wf t \<longleftrightarrow> tbl_wf kv_key (appkv t) \<and> tbl_wf rt_key (routes t) \<and>
     tbl_wf ap_id (apps_tbl t) \<and> tbl_wf bu_id (bundles t) \<and> tbl_wf lg_key (applog t)"

section \<open>Calls to the server\<close>

record db =
  tbl :: tables
  outcomes :: "string option list"

type_synonym 'a dbm = "db \<Rightarrow> 'a GenericResult \<times> db"

definition db_return :: "'a \<Rightarrow> 'a dbm" where
  "db_return x d = (Inr x, d)"

definition db_fail :: "GenericError \<Rightarrow> 'a dbm" where
  "db_fail e d = (Inl e, d)"

definition db_bind :: "'a dbm \<Rightarrow> ('a \<Rightarrow> 'b dbm) \<Rightarrow> 'b dbm" where
  "db_bind m f d = (case m d of (Inl e, d') \<Rightarrow> (Inl e, d') | (Inr x, d') \<Rightarrow> f x d')"

text \<open>One awaited call: a statement yields a value and new tables, or an error text.\<close>

definition db_call :: "(tables \<Rightarrow> string + 'a \<times> tables) \<Rightarrow> 'a dbm" where
  "db_call stmt d =
     (case outcomes d of
        Some dbg # os \<Rightarrow> (Inl (from_mysql_error dbg), d\<lparr>outcomes := os\<rparr>)
      | os \<Rightarrow>
         (case stmt (tbl d) of
            Inl dbg \<Rightarrow> (Inl (from_mysql_error dbg), d\<lparr>outcomes := tl os\<rparr>)
          | Inr (x, t) \<Rightarrow> (Inr x, d\<lparr>tbl := t, outcomes := tl os\<rparr>)))"

definition get_conn :: "unit dbm" where
  "get_conn = db_call (\<lambda>t. Inr ((), t))"

definition db_select :: "(tables \<Rightarrow> 'a) \<Rightarrow> 'a dbm" where
  "db_select q = db_call (\<lambda>t. Inr (q t, t))"

definition db_exec :: "(tables \<Rightarrow> tables) \<Rightarrow> unit dbm" where
  "db_exec u = db_call (\<lambda>t. Inr ((), u t))"

text \<open>
  A transaction works on the tables and restores them when the body fails or returns
  without a commit (\<open>Transaction\<close> is rolled back when dropped).
\<close>

definition db_transaction :: "(bool \<times> 'a) dbm \<Rightarrow> 'a dbm" where
  "db_transaction body d =
     (case body d of
        (Inl e, d') \<Rightarrow> (Inl e, d'\<lparr>tbl := tbl d\<rparr>)
      | (Inr (committed, x), d') \<Rightarrow> (Inr x, if committed then d' else d'\<lparr>tbl := tbl d\<rparr>))"

section \<open>Worker data\<close>

definition kv_live :: "u64 \<Rightarrow> appkv_row \<Rightarrow> bool" where
  "kv_live now r \<longleftrightarrow> kv_appexpiration r = 0 \<or> kv_appexpiration r > now"

definition worker_data_get :: "u64 \<Rightarrow> string \<Rightarrow> bytes \<Rightarrow> bytes option dbm" where
  "worker_data_get now namespace_id key =
     db_bind get_conn (\<lambda>_.
     db_select (\<lambda>t. map_option kv_appvalue
       (find (\<lambda>r. kv_nsid r = namespace_id \<and> kv_appkey r = key \<and> kv_live now r) (appkv t))))"

definition expiration_of :: "u64 \<Rightarrow> u64 \<Rightarrow> u64 GenericResult" where
  "expiration_of now ttl_ms =
     (if ttl_ms \<noteq> 0 then ok_or (Other ''expiration time overflow'') (checked_add now ttl_ms)
      else Inr 0)"

definition kv_row :: "string \<Rightarrow> bytes \<Rightarrow> bytes \<Rightarrow> u64 \<Rightarrow> appkv_row" where
  "kv_row ns k v ex =
     \<lparr>kv_nsid = ns, kv_appkey = k, kv_appvalue = v, kv_appmetadata = [], kv_appexpiration = ex\<rparr>"

definition kv_upsert :: "string \<Rightarrow> bytes \<Rightarrow> bytes \<Rightarrow> u64 \<Rightarrow> tables \<Rightarrow> tables" where
  "kv_upsert ns k v ex t =
     t\<lparr>appkv := tbl_upsert kv_key (\<lambda>r. r\<lparr>kv_appvalue := v, kv_appexpiration := ex\<rparr>)
                 (kv_row ns k v ex) (appkv t)\<rparr>"

text \<open>
  The source reads the clock once for the expiration and once for \<open>:currenttime\<close>.
\<close>

definition worker_data_put ::
  "u64 \<Rightarrow> u64 \<Rightarrow> string \<Rightarrow> bytes \<Rightarrow> bytes \<Rightarrow> bool \<Rightarrow> u64 \<Rightarrow> unit dbm" where
  "worker_data_put now now2 namespace_id key value if_not_exists ttl_ms =
     db_bind get_conn (\<lambda>_.
     (case expiration_of now ttl_ms of
        Inl e \<Rightarrow> db_fail e
      | Inr expiration \<Rightarrow>
          if if_not_exists then
            db_exec (\<lambda>t.
              if \<exists>r \<in> set (appkv t). kv_key r = (namespace_id, key) \<and> kv_live now2 r then t
              else t\<lparr>appkv := tbl_replace kv_key (kv_row namespace_id key value expiration) (appkv t)\<rparr>)
          else db_exec (kv_upsert namespace_id key value expiration)))"

definition worker_data_scan_keys ::
  "u64 \<Rightarrow> string \<Rightarrow> bytes \<Rightarrow> bytes option \<Rightarrow> u32 \<Rightarrow> bytes list dbm" where
  "worker_data_scan_keys now namespace_id start end_key limit =
     db_bind get_conn (\<lambda>_.
     (case end_key of
        Some e \<Rightarrow>
          db_select (\<lambda>t. take (unat limit) (map kv_appkey
            (filter (\<lambda>r. kv_nsid r = namespace_id \<and> start \<le> kv_appkey r \<and> kv_appkey r \<le> e \<and>
                         kv_live now r) (appkv t))))
      | None \<Rightarrow>
          db_select (\<lambda>t. take (unat limit) (map kv_appkey
            (filter (\<lambda>r. kv_nsid r = namespace_id \<and> start \<le> kv_appkey r \<and> kv_live now r)
               (appkv t))))))"

definition worker_data_delete :: "string \<Rightarrow> bytes \<Rightarrow> unit dbm" where
  "worker_data_delete namespace_id key =
     db_bind get_conn (\<lambda>_.
     db_exec (\<lambda>t. t\<lparr>appkv := tbl_delete (\<lambda>r. kv_key r = (namespace_id, key)) (appkv t)\<rparr>))"

text \<open>The loop over the assertions: the first one that does not hold ends the call.\<close>

fun check_assertions :: "u64 \<Rightarrow> string \<Rightarrow> (bytes \<times> bytes) list \<Rightarrow> bool dbm" where
  "check_assertions now ns [] = db_return True"
| "check_assertions now ns ((k, v) # rest) =
     db_bind (db_select (\<lambda>t. find (\<lambda>r. kv_nsid r = ns \<and> kv_appkey r = k \<and> kv_appvalue r = v \<and>
                                     kv_live now r) (appkv t)))
       (\<lambda>existence. if existence = None then db_return False else check_assertions now ns rest)"

text \<open>\<open>exec_batch\<close>: one execution of the statement per item.\<close>

fun exec_writes :: "string \<Rightarrow> u64 \<Rightarrow> (bytes \<times> bytes) list \<Rightarrow> unit dbm" where
  "exec_writes ns ex [] = db_return ()"
| "exec_writes ns ex ((k, v) # rest) =
     db_bind (db_exec (kv_upsert ns k v ex)) (\<lambda>_. exec_writes ns ex rest)"

definition worker_data_cmpupdate ::
  "u64 \<Rightarrow> string \<Rightarrow> (bytes \<times> bytes) list \<Rightarrow> (bytes \<times> bytes) list \<Rightarrow> u64 \<Rightarrow> bool dbm" where
  "worker_data_cmpupdate current_time namespace_id assertions writes ttl_ms =
     (case expiration_of current_time ttl_ms of
        Inl e \<Rightarrow> db_fail e
      | Inr expiration \<Rightarrow>
          db_bind get_conn (\<lambda>_. \<comment> \<open>\<open>start_transaction\<close>\<close>
          db_transaction (
            db_bind get_conn (\<lambda>_. \<comment> \<open>\<open>prep\<close>\<close>
            db_bind (check_assertions current_time namespace_id assertions) (\<lambda>holds.
            if \<not> holds then db_return (False, False)
            else db_bind (exec_writes namespace_id expiration writes) (\<lambda>_.
                 db_bind get_conn (\<lambda>_. \<comment> \<open>\<open>commit\<close>\<close>
                 db_return (True, True))))))))"

section \<open>Routes\<close>

definition route_mapping_delete_domain :: "string \<Rightarrow> unit dbm" where
  "route_mapping_delete_domain domain =
     db_bind get_conn (\<lambda>_.
     db_exec (\<lambda>t. t\<lparr>routes := tbl_delete (\<lambda>r. rt_domain r = domain) (routes t)\<rparr>))"

definition route_mapping_list_for_domain :: "string \<Rightarrow> (string, string) BTreeMap dbm" where
  "route_mapping_list_for_domain domain =
     db_bind get_conn (\<lambda>_.
     db_select (\<lambda>t. bt_collect (map (\<lambda>r. (rt_path r, rt_appid r))
                      (filter (\<lambda>r. rt_domain r = domain) (routes t)))))"

text \<open>
  SQL \<open>LIKE\<close>: \<open>%\<close> stands for any sequence, \<open>_\<close> for one character, a backslash makes the
  next character literal. (A character is a byte here: on ASCII text the two agree.)
\<close>

fun sql_like :: "string \<Rightarrow> string \<Rightarrow> bool" where
  "sql_like s [] = (s = [])"
| "sql_like [] (p # ps) = (p = CHR ''%'' \<and> sql_like [] ps)"
| "sql_like (c # s) (p # ps) =
     (if p = CHR ''%'' then sql_like (c # s) ps \<or> sql_like s (p # ps)
      else if p = CHR ''_'' then sql_like s ps
      else if p = CHR 0x5C \<and> ps \<noteq> [] then c = hd ps \<and> sql_like s (tl ps)
      else c = p \<and> sql_like s ps)"

text \<open>\<open>order by length(path) desc limit 1\<close>, the first row in table order among the longest.\<close>

fun longest_path :: "route_row list \<Rightarrow> route_row option" where
  "longest_path [] = None"
| "longest_path (r # rs) =
     (case longest_path rs of
        None \<Rightarrow> Some r
      | Some r' \<Rightarrow> if length (rt_path r') > length (rt_path r) then Some r' else Some r)"

definition route_mapping_lookup :: "string \<Rightarrow> string \<Rightarrow> string option dbm" where
  "route_mapping_lookup domain path =
     db_bind get_conn (\<lambda>_.
     db_select (\<lambda>t. map_option rt_appid (longest_path
       (filter (\<lambda>r. rt_domain r = domain \<and> sql_like path (rt_path r @ ''%'')) (routes t)))))"

definition route_mapping_insert :: "u64 \<Rightarrow> string \<Rightarrow> string \<Rightarrow> string \<Rightarrow> unit dbm" where
  "route_mapping_insert now domain path appid =
     db_bind get_conn (\<lambda>_.
     db_exec (\<lambda>t. t\<lparr>routes := tbl_replace rt_key
       \<lparr>rt_domain = domain, rt_path = path, rt_appid = appid, rt_createtime = now\<rparr> (routes t)\<rparr>))"

definition route_mapping_delete :: "string \<Rightarrow> string \<Rightarrow> unit dbm" where
  "route_mapping_delete domain path =
     db_bind get_conn (\<lambda>_.
     db_exec (\<lambda>t. t\<lparr>routes := tbl_delete (\<lambda>r. rt_key r = (domain, path)) (routes t)\<rparr>))"

section \<open>Apps, bundles, logs\<close>

text \<open>\<open>serde_json\<close> on the two JSON columns: an error carries its \<open>Debug\<close> text.\<close>

record json_ops =
  env_to_string :: "(string, string) BTreeMap \<Rightarrow> string + string"
  env_from_str :: "string \<Rightarrow> string + (string, string) BTreeMap"
  kvns_to_string :: "KvNamespaceConfig list \<Rightarrow> string + string"
  kvns_from_str :: "string \<Rightarrow> string + KvNamespaceConfig list"

text \<open>What the code relies on: reading back what was written.\<close>

definition json_roundtrip :: "json_ops \<Rightarrow> bool" where
  "json_roundtrip js \<longleftrightarrow>
     (\<forall>e s. env_to_string js e = Inr s \<longrightarrow> env_from_str js s = Inr e) \<and>
     (\<forall>n s. kvns_to_string js n = Inr s \<longrightarrow> kvns_from_str js s = Inr n)"

definition json_res :: "string + 'a \<Rightarrow> 'a GenericResult" where
  "json_res r = (case r of Inl dbg \<Rightarrow> Inl (from_json_error dbg) | Inr x \<Rightarrow> Inr x)"

definition db_lift :: "'a GenericResult \<Rightarrow> 'a dbm" where
  "db_lift r d = (r, d)"

definition app_metadata_get :: "json_ops \<Rightarrow> string \<Rightarrow> AppConfig option dbm" where
  "app_metadata_get js appid =
     db_bind get_conn (\<lambda>_.
     db_bind (db_select (\<lambda>t. find (\<lambda>r. ap_id r = appid) (apps_tbl t))) (\<lambda>row.
     (case row of
        None \<Rightarrow> db_return None
      | Some r \<Rightarrow>
          db_bind (db_lift (json_res (env_from_str js (ap_env r)))) (\<lambda>env.
          db_bind (db_lift (json_res (kvns_from_str js (ap_kv_namespaces r)))) (\<lambda>kvns.
          db_return (Some \<lparr>ac_id = AppId appid, ac_bundle_id = ap_bundle_id r, ac_env = env,
                           ac_kv_namespaces = kvns\<rparr>))))))"

definition app_metadata_put :: "json_ops \<Rightarrow> u64 \<Rightarrow> AppConfig \<Rightarrow> unit dbm" where
  "app_metadata_put js now config =
     db_bind get_conn (\<lambda>_.
     db_bind (db_lift (json_res (env_to_string js (ac_env config)))) (\<lambda>env.
     db_bind (db_lift (json_res (kvns_to_string js (ac_kv_namespaces config)))) (\<lambda>kvns.
     db_exec (\<lambda>t. t\<lparr>apps_tbl := tbl_upsert ap_id
         (\<lambda>r. r\<lparr>ap_bundle_id := ac_bundle_id config, ap_env := env, ap_kv_namespaces := kvns\<rparr>)
         \<lparr>ap_id = appid_str (ac_id config), ap_bundle_id = ac_bundle_id config, ap_env = env,
          ap_kv_namespaces = kvns, ap_createtime = now\<rparr> (apps_tbl t)\<rparr>))))"

definition app_metadata_delete :: "string \<Rightarrow> unit dbm" where
  "app_metadata_delete appid =
     db_bind get_conn (\<lambda>_.
     db_exec (\<lambda>t. t\<lparr>apps_tbl := tbl_delete (\<lambda>r. ap_id r = appid) (apps_tbl t)\<rparr>))"

definition app_bundle_get :: "string \<Rightarrow> bytes option dbm" where
  "app_bundle_get i =
     db_bind get_conn (\<lambda>_.
     db_select (\<lambda>t. map_option bu_bundle (find (\<lambda>r. bu_id r = i) (bundles t))))"

definition app_bundle_put :: "u64 \<Rightarrow> string \<Rightarrow> bytes \<Rightarrow> unit dbm" where
  "app_bundle_put now i value =
     db_bind get_conn (\<lambda>_.
     db_call (\<lambda>t.
       (case tbl_insert bu_id \<lparr>bu_id = i, bu_bundle = value, bu_createtime = now\<rparr> (bundles t) of
          None \<Rightarrow> Inl (dup_text t)
        | Some rows \<Rightarrow> Inr ((), t\<lparr>bundles := rows\<rparr>))))"

definition applog_write :: "u32 \<Rightarrow> string \<Rightarrow> int \<Rightarrow> string \<Rightarrow> unit dbm" where
  "applog_write subid appid logtime logcontent =
     db_bind get_conn (\<lambda>_.
     db_call (\<lambda>t.
       (case tbl_insert lg_key \<lparr>lg_appid = appid, lg_logtime = millis_since_epoch logtime,
                lg_subid = subid, lg_logcontent = logcontent\<rparr> (applog t) of
          None \<Rightarrow> Inl (dup_text t)
        | Some rows \<Rightarrow> Inr ((), t\<lparr>applog := rows\<rparr>))))"

end
