(* ===== verification/Db_Spec.thy ===== *)
theory Db_Spec
  imports Db
begin

text \<open>
  What \<open>DataClient\<close> promises. A small calculus (which calls are read-only, which keep an
  invariant of the tables, which change nothing when they fail) carries the proofs; the
  locale \<open>kv_store\<close> states the contract of the worker key-value store against an abstract
  map with expiry and is interpreted on the definitions of \<open>Db\<close>.
\<close>

section \<open>A calculus for database calls\<close>

named_theorems keeps_intros \<open>calls that keep an invariant of the tables\<close>
named_theorems readonly_intros \<open>calls that do not change the tables\<close>
named_theorems atomic_intros \<open>calls that change nothing when they fail\<close>

definition db_keeps :: "(tables \<Rightarrow> bool) \<Rightarrow> 'a dbm \<Rightarrow> bool" where
  "db_keeps P m \<longleftrightarrow> (\<forall>d. P (tbl d) \<longrightarrow> P (tbl (snd (m d))))"

definition db_readonly :: "'a dbm \<Rightarrow> bool" where
  "db_readonly m \<longleftrightarrow> (\<forall>d. tbl (snd (m d)) = tbl d)"

definition db_atomic :: "'a dbm \<Rightarrow> bool" where
  "db_atomic m \<longleftrightarrow> (\<forall>d. is_err (fst (m d)) \<longrightarrow> tbl (snd (m d)) = tbl d)"

lemma db_keeps_call [keeps_intros]:
  "(\<And>t x t'. P t \<Longrightarrow> stmt t = Inr (x, t') \<Longrightarrow> P t') \<Longrightarrow> db_keeps P (db_call stmt)"
  by (auto simp: db_keeps_def db_call_def split: list.splits option.splits sum.splits prod.splits)

lemma db_keeps_exec [keeps_intros]: "(\<And>t. P t \<Longrightarrow> P (u t)) \<Longrightarrow> db_keeps P (db_exec u)"
  unfolding db_exec_def by (rule db_keeps_call) auto

lemma db_keeps_readonly: "db_readonly m \<Longrightarrow> db_keeps P m"
  by (simp add: db_keeps_def db_readonly_def)

lemma db_keeps_bind [keeps_intros]:
  assumes "db_keeps P m" and "\<And>x. db_keeps P (f x)"
  shows "db_keeps P (db_bind m f)"
  unfolding db_keeps_def
proof (intro allI impI)
  fix d :: db
  assume "P (tbl d)"
  with assms(1) have "P (tbl (snd (m d)))" by (simp add: db_keeps_def)
  with assms(2) show "P (tbl (snd (db_bind m f d)))"
    by (auto simp: db_bind_def db_keeps_def split: prod.splits sum.splits)
qed

lemma db_keeps_transaction [keeps_intros]:
  assumes "db_keeps P m"
  shows "db_keeps P (db_transaction m)"
  unfolding db_keeps_def
proof (intro allI impI)
  fix d :: db
  assume "P (tbl d)"
  with assms have "P (tbl (snd (m d)))" by (simp add: db_keeps_def)
  with \<open>P (tbl d)\<close> show "P (tbl (snd (db_transaction m d)))"
    by (auto simp: db_transaction_def split: prod.splits sum.splits)
qed

lemma db_readonly_basic [readonly_intros]:
  "db_readonly (db_return x)"
  "db_readonly (db_fail e)"
  "db_readonly (db_lift r)"
  "db_readonly (db_select q)"
  "db_readonly get_conn"
  by (auto simp: db_readonly_def db_return_def db_fail_def db_lift_def db_select_def get_conn_def
      db_call_def split: list.splits option.splits)

lemma db_readonly_bind [readonly_intros]:
  assumes "db_readonly m" and "\<And>x. db_readonly (f x)"
  shows "db_readonly (db_bind m f)"
  unfolding db_readonly_def
proof
  fix d :: db
  obtain r d' where m: "m d = (r, d')" by (cases "m d")
  with assms(1) have "tbl d' = tbl d" by (metis db_readonly_def snd_conv)
  with m assms(2) show "tbl (snd (db_bind m f d)) = tbl d"
    by (cases r) (auto simp: db_bind_def db_readonly_def)
qed

lemma db_atomic_readonly: "db_readonly m \<Longrightarrow> db_atomic m"
  by (simp add: db_readonly_def db_atomic_def)

lemmas db_keeps_basic [keeps_intros] = db_readonly_basic [THEN db_keeps_readonly]

lemmas db_atomic_basic [atomic_intros] = db_readonly_basic [THEN db_atomic_readonly]

lemma db_atomic_call [atomic_intros]: "db_atomic (db_call stmt)"
  by (auto simp: db_atomic_def db_call_def split: list.splits option.splits sum.splits prod.splits)

lemma db_atomic_exec [atomic_intros]: "db_atomic (db_exec u)"
  by (simp add: db_exec_def db_atomic_call)

lemma db_atomic_bind [atomic_intros]:
  assumes "db_readonly m" and "\<And>x. db_atomic (f x)"
  shows "db_atomic (db_bind m f)"
  unfolding db_atomic_def
proof (intro allI impI)
  fix d :: db
  assume err: "is_err (fst (db_bind m f d))"
  obtain r d' where m: "m d = (r, d')" by (cases "m d")
  with assms(1) have "tbl d' = tbl d" by (metis db_readonly_def snd_conv)
  with m err assms(2) show "tbl (snd (db_bind m f d)) = tbl d"
    by (cases r) (auto simp: db_bind_def db_atomic_def)
qed

lemma db_atomic_transaction [atomic_intros]: "db_atomic (db_transaction m)"
  by (auto simp: db_atomic_def db_transaction_def split: prod.splits sum.splits if_splits)

lemma db_transaction_uncommitted:
  "m d = (Inr (False, x), d') \<Longrightarrow> db_transaction m d = (Inr x, d'\<lparr>tbl := tbl d\<rparr>)"
  by (simp add: db_transaction_def)

lemma db_readonly_tbl: "db_readonly m \<Longrightarrow> m d = (r, d') \<Longrightarrow> tbl d' = tbl d"
  by (metis db_readonly_def snd_conv)

lemma db_bind_Inr:
  assumes "db_bind m f d = (Inr y, d'')"
  obtains x d' where "m d = (Inr x, d')" and "f x d' = (Inr y, d'')"
  using assms by (auto simp: db_bind_def split: prod.splits sum.splits)

lemma db_select_Inr: "db_select q d = (Inr x, d') \<Longrightarrow> x = q (tbl d) \<and> tbl d' = tbl d"
  by (auto simp: db_select_def db_call_def split: list.splits option.splits)

lemma db_exec_Inr: "db_exec u d = (Inr x, d') \<Longrightarrow> tbl d' = u (tbl d)"
  by (auto simp: db_exec_def db_call_def split: list.splits option.splits)

lemma get_conn_Inr: "get_conn d = (Inr x, d') \<Longrightarrow> tbl d' = tbl d"
  using db_readonly_tbl [OF db_readonly_basic(5)] .

lemma db_return_Inr: "db_return x d = (Inr y, d') \<longleftrightarrow> y = x \<and> d' = d"
  by (auto simp: db_return_def)

lemma db_fail_Inr [simp]: "db_fail e d = (Inr y, d') \<longleftrightarrow> False"
  by (simp add: db_fail_def)

lemma db_lift_Inr: "db_lift r d = (Inr y, d') \<longleftrightarrow> r = Inr y \<and> d' = d"
  by (auto simp: db_lift_def)

lemmas db_Inr_dests = db_select_Inr db_exec_Inr get_conn_Inr

section \<open>Primary keys stay unique, failures change nothing\<close>

lemma kv_key_upd [simp]:
  "kv_key (r\<lparr>kv_appvalue := v, kv_appexpiration := ex\<rparr>) = kv_key r"
  "kv_key (kv_row ns k v ex) = (ns, k)"
  by (simp_all add: kv_key_def kv_row_def)

lemma tables_wf_kv_upsert: "tables_wf t \<Longrightarrow> tables_wf (kv_upsert ns k v ex t)"
  by (simp add: tables_wf_def kv_upsert_def tbl_wf_upsert)

lemma tables_wf_updates:
  "tables_wf t \<Longrightarrow> tbl_wf kv_key rows \<Longrightarrow> tables_wf (t\<lparr>appkv := rows\<rparr>)"
  "tables_wf t \<Longrightarrow> tbl_wf rt_key rs \<Longrightarrow> tables_wf (t\<lparr>routes := rs\<rparr>)"
  "tables_wf t \<Longrightarrow> tbl_wf ap_id as \<Longrightarrow> tables_wf (t\<lparr>apps_tbl := as\<rparr>)"
  "tables_wf t \<Longrightarrow> tbl_wf bu_id bs \<Longrightarrow> tables_wf (t\<lparr>bundles := bs\<rparr>)"
  "tables_wf t \<Longrightarrow> tbl_wf lg_key ls \<Longrightarrow> tables_wf (t\<lparr>applog := ls\<rparr>)"
  by (simp_all add: tables_wf_def)

lemma tables_wf_dests:
  "tables_wf t \<Longrightarrow> tbl_wf kv_key (appkv t)"
  "tables_wf t \<Longrightarrow> tbl_wf rt_key (routes t)"
  "tables_wf t \<Longrightarrow> tbl_wf ap_id (apps_tbl t)"
  "tables_wf t \<Longrightarrow> tbl_wf bu_id (bundles t)"
  "tables_wf t \<Longrightarrow> tbl_wf lg_key (applog t)"
  by (simp_all add: tables_wf_def)

lemma check_assertions_readonly [readonly_intros]: "db_readonly (check_assertions now ns as)"
  by (induction now ns as rule: check_assertions.induct)
     (simp_all add: readonly_intros)

lemma exec_writes_keeps [keeps_intros]: "db_keeps tables_wf (exec_writes ns ex ws)"
  by (induction ns ex ws rule: exec_writes.induct)
     (simp_all add: keeps_intros tables_wf_kv_upsert db_keeps_readonly readonly_intros)

lemma worker_data_keeps [keeps_intros]:
  "db_keeps tables_wf (worker_data_put n1 n2 ns k v ine ttl)"
  "db_keeps tables_wf (worker_data_delete ns k)"
  "db_keeps tables_wf (worker_data_cmpupdate n1 ns as ws ttl)"
proof -
  show "db_keeps tables_wf (worker_data_put n1 n2 ns k v ine ttl)"
    unfolding worker_data_put_def
    by (auto intro!: keeps_intros tables_wf_kv_upsert tables_wf_updates tbl_wf_replace
          dest: tables_wf_dests split: sum.splits)
  show "db_keeps tables_wf (worker_data_delete ns k)"
    unfolding worker_data_delete_def
    by (auto intro!: keeps_intros tables_wf_updates tbl_wf_delete dest: tables_wf_dests)
  show "db_keeps tables_wf (worker_data_cmpupdate n1 ns as ws ttl)"
    unfolding worker_data_cmpupdate_def
    by (auto intro!: keeps_intros db_keeps_readonly [OF check_assertions_readonly]
        split: sum.splits)
qed

lemma worker_data_atomic [atomic_intros]:
  "db_atomic (worker_data_put n1 n2 ns k v ine ttl)"
  "db_atomic (worker_data_delete ns k)"
  "db_atomic (worker_data_cmpupdate n1 ns as ws ttl)"
proof -
  show "db_atomic (worker_data_put n1 n2 ns k v ine ttl)"
    unfolding worker_data_put_def
    by (auto intro!: atomic_intros readonly_intros split: sum.splits)
  show "db_atomic (worker_data_delete ns k)"
    unfolding worker_data_delete_def by (intro atomic_intros readonly_intros)
  show "db_atomic (worker_data_cmpupdate n1 ns as ws ttl)"
    unfolding worker_data_cmpupdate_def
    by (auto intro!: atomic_intros readonly_intros split: sum.splits)
qed

lemma worker_data_readonly [readonly_intros]:
  "db_readonly (worker_data_get now ns k)"
  "db_readonly (worker_data_scan_keys now ns start e limit)"
  by (auto simp: worker_data_get_def worker_data_scan_keys_def intro!: readonly_intros
      split: option.splits)

lemma routes_keeps [keeps_intros]:
  "db_keeps tables_wf (route_mapping_insert now domain p a)"
  "db_keeps tables_wf (route_mapping_delete domain p)"
  "db_keeps tables_wf (route_mapping_delete_domain domain)"
  unfolding route_mapping_insert_def route_mapping_delete_def route_mapping_delete_domain_def
  by (auto intro!: keeps_intros tables_wf_updates tbl_wf_replace tbl_wf_delete
      dest: tables_wf_dests)

lemma apps_keeps [keeps_intros]:
  "db_keeps tables_wf (app_metadata_put js now cfg)"
  "db_keeps tables_wf (app_metadata_delete a)"
  "db_keeps tables_wf (app_bundle_put now i v)"
  "db_keeps tables_wf (applog_write sub a lt c)"
proof -
  show "db_keeps tables_wf (app_metadata_put js now cfg)"
    unfolding app_metadata_put_def
    by (auto intro!: keeps_intros tables_wf_updates tbl_wf_upsert dest: tables_wf_dests)
  show "db_keeps tables_wf (app_metadata_delete a)"
    unfolding app_metadata_delete_def
    by (auto intro!: keeps_intros tables_wf_updates tbl_wf_delete dest: tables_wf_dests)
  show "db_keeps tables_wf (app_bundle_put now i v)"
    unfolding app_bundle_put_def
    by (auto intro!: keeps_intros tables_wf_updates
        intro: tbl_wf_insert [OF tables_wf_dests(4)] tbl_wf_insert [OF tables_wf_dests(5)]
        split: option.splits)
  show "db_keeps tables_wf (applog_write sub a lt c)"
    unfolding applog_write_def
    by (auto intro!: keeps_intros tables_wf_updates
        intro: tbl_wf_insert [OF tables_wf_dests(4)] tbl_wf_insert [OF tables_wf_dests(5)]
        split: option.splits)
qed

lemma app_metadata_get_readonly [readonly_intros]: "db_readonly (app_metadata_get js a)"
  unfolding app_metadata_get_def
  by (auto intro!: readonly_intros split: option.splits)

lemma select_ops_readonly [readonly_intros]:
  "db_readonly (route_mapping_list_for_domain domain)"
  "db_readonly (route_mapping_lookup domain p)"
  "db_readonly (app_bundle_get i)"
  by (auto simp: route_mapping_list_for_domain_def route_mapping_lookup_def app_bundle_get_def
      intro!: readonly_intros)

section \<open>The key-value store as a map with expiry\<close>

text \<open>What a reader at time \<open>now\<close> can see.\<close>

definition kv_view :: "u64 \<Rightarrow> tables \<Rightarrow> string \<times> bytes \<Rightarrow> bytes option" where
  "kv_view now t nk =
     (case tbl_find kv_key nk (appkv t) of
        None \<Rightarrow> None
      | Some r \<Rightarrow> if kv_live now r then Some (kv_appvalue r) else None)"

definition live_at :: "u64 \<Rightarrow> u64 \<Rightarrow> bool" where
  "live_at now ex \<longleftrightarrow> ex = 0 \<or> ex > now"

lemma kv_live_live_at [simp]:
  "kv_live now (r\<lparr>kv_appvalue := v, kv_appexpiration := ex\<rparr>) = live_at now ex"
  "kv_live now (kv_row ns k v ex) = live_at now ex"
  by (simp_all add: kv_live_def live_at_def kv_row_def)

lemma kv_row_value [simp]: "kv_appvalue (kv_row ns k v ex) = v"
  by (simp add: kv_row_def)

lemma kv_key_eq: "kv_key r = (ns, k) \<longleftrightarrow> kv_nsid r = ns \<and> kv_appkey r = k"
  by (auto simp: kv_key_def)

lemma kv_find_live:
  assumes "tbl_wf kv_key rows"
  shows "find (\<lambda>r. kv_nsid r = ns \<and> kv_appkey r = k \<and> Q r) rows =
    (case tbl_find kv_key (ns, k) rows of None \<Rightarrow> None | Some r \<Rightarrow> if Q r then Some r else None)"
  using assms
proof (induction rows)
  case Nil
  then show ?case by simp
next
  case (Cons r rows)
  show ?case
  proof (cases "kv_key r = (ns, k)")
    case True
    with Cons.prems have "(ns, k) \<notin> kv_key ` set rows"
      by (auto simp: tbl_wf_def)
    then have "tbl_find kv_key (ns, k) rows = None"
      by (simp add: tbl_find_None_iff)
    with Cons True show ?thesis by (auto simp: kv_key_eq tbl_wf_def)
  next
    case False
    with Cons show ?thesis by (auto simp: kv_key_eq tbl_wf_def)
  qed
qed

lemma kv_view_upsert:
  "kv_view now (kv_upsert ns k v ex t) =
     (kv_view now t)((ns, k) := if live_at now ex then Some v else None)"
  by (rule ext)
     (auto simp: kv_view_def kv_upsert_def tbl_find_upsert split: option.splits)

lemma kv_view_replace:
  "kv_view now (t\<lparr>appkv := tbl_replace kv_key (kv_row ns k v ex) (appkv t)\<rparr>) =
     (kv_view now t)((ns, k) := if live_at now ex then Some v else None)"
  by (rule ext) (auto simp: kv_view_def tbl_find_replace split: option.splits)

lemma kv_view_delete:
  "kv_view now (t\<lparr>appkv := tbl_delete (\<lambda>r. kv_key r = nk) (appkv t)\<rparr>) = (kv_view now t)(nk := None)"
  by (rule ext)
     (simp add: kv_view_def tbl_delete_def tbl_find_filter_neq split: option.splits)

lemma kv_exists_live:
  assumes "tbl_wf kv_key (appkv t)"
  shows "(\<exists>r \<in> set (appkv t). kv_key r = nk \<and> kv_live now r) \<longleftrightarrow> kv_view now t nk \<noteq> None"
proof
  assume "\<exists>r \<in> set (appkv t). kv_key r = nk \<and> kv_live now r"
  then obtain r where "r \<in> set (appkv t)" "kv_key r = nk" "kv_live now r" by blast
  with tbl_find_mem [OF assms] show "kv_view now t nk \<noteq> None"
    by (auto simp: kv_view_def)
next
  assume "kv_view now t nk \<noteq> None"
  then obtain r where "tbl_find kv_key nk (appkv t) = Some r" "kv_live now r"
    by (auto simp: kv_view_def split: option.splits if_splits)
  then show "\<exists>r \<in> set (appkv t). kv_key r = nk \<and> kv_live now r"
    using tbl_find_Some by metis
qed

lemma worker_data_get_view:
  assumes "tables_wf (tbl d)" and "worker_data_get now ns k d = (Inr v, d')"
  shows "v = kv_view now (tbl d) (ns, k) \<and> tbl d' = tbl d"
proof -
  from assms(2) obtain x d1 where c: "get_conn d = (Inr x, d1)" and
    s: "db_select (\<lambda>t. map_option kv_appvalue
      (find (\<lambda>r. kv_nsid r = ns \<and> kv_appkey r = k \<and> kv_live now r) (appkv t))) d1 = (Inr v, d')"
    unfolding worker_data_get_def by (rule db_bind_Inr)
  from get_conn_Inr [OF c] db_select_Inr [OF s] show ?thesis
    using kv_find_live [OF tables_wf_dests(1) [OF assms(1)]]
    by (auto simp: kv_view_def split: option.splits)
qed

lemma worker_data_put_Inr:
  assumes "worker_data_put n1 n2 ns k v ine ttl d = (Inr x, d')"
  obtains ex where "expiration_of n1 ttl = Inr ex" and
    "tbl d' = (if ine then
        (if \<exists>r \<in> set (appkv (tbl d)). kv_key r = (ns, k) \<and> kv_live n2 r then tbl d
         else (tbl d)\<lparr>appkv := tbl_replace kv_key (kv_row ns k v ex) (appkv (tbl d))\<rparr>)
      else kv_upsert ns k v ex (tbl d))"
proof -
  from assms obtain y d1 where c: "get_conn d = (Inr y, d1)" and
    s: "(case expiration_of n1 ttl of Inl e \<Rightarrow> db_fail e
      | Inr expiration \<Rightarrow>
          if ine then
            db_exec (\<lambda>t.
              if \<exists>r \<in> set (appkv t). kv_key r = (ns, k) \<and> kv_live n2 r then t
              else t\<lparr>appkv := tbl_replace kv_key (kv_row ns k v expiration) (appkv t)\<rparr>)
          else db_exec (kv_upsert ns k v expiration)) d1 = (Inr x, d')"
    unfolding worker_data_put_def by (rule db_bind_Inr)
  from s obtain ex where ex: "expiration_of n1 ttl = Inr ex"
    by (auto split: sum.splits)
  have "tbl d1 = tbl d" by (rule get_conn_Inr [OF c])
  with s ex show thesis
    by (intro that [of ex]) (auto split: if_splits dest!: db_exec_Inr)
qed

lemma worker_data_put_view:
  assumes "tables_wf (tbl d)" and "worker_data_put n1 n2 ns k v ine ttl d = (Inr x, d')"
  shows "\<exists>ex. expiration_of n1 ttl = Inr ex \<and>
    (\<forall>now. kv_view now (tbl d') =
       (if ine \<and> kv_view n2 (tbl d) (ns, k) \<noteq> None then kv_view now (tbl d)
        else (kv_view now (tbl d))((ns, k) := if live_at now ex then Some v else None)))"
proof -
  from assms(2) obtain ex where ex: "expiration_of n1 ttl = Inr ex" and
    t: "tbl d' = (if ine then
        (if \<exists>r \<in> set (appkv (tbl d)). kv_key r = (ns, k) \<and> kv_live n2 r then tbl d
         else (tbl d)\<lparr>appkv := tbl_replace kv_key (kv_row ns k v ex) (appkv (tbl d))\<rparr>)
      else kv_upsert ns k v ex (tbl d))"
    by (rule worker_data_put_Inr)
  have live: "(\<exists>r \<in> set (appkv (tbl d)). kv_key r = (ns, k) \<and> kv_live n2 r) \<longleftrightarrow>
      kv_view n2 (tbl d) (ns, k) \<noteq> None"
    by (rule kv_exists_live [OF tables_wf_dests(1) [OF assms(1)]])
  show ?thesis
    unfolding t live using ex by (auto simp: kv_view_upsert kv_view_replace)
qed

lemma worker_data_delete_view:
  assumes "worker_data_delete ns k d = (Inr x, d')"
  shows "kv_view now (tbl d') = (kv_view now (tbl d))((ns, k) := None)"
  using assms unfolding worker_data_delete_def
  by (elim db_bind_Inr) (simp add: kv_view_delete db_exec_Inr get_conn_Inr)

section \<open>Compare-and-update\<close>

definition assertions_hold :: "u64 \<Rightarrow> tables \<Rightarrow> string \<Rightarrow> (bytes \<times> bytes) list \<Rightarrow> bool" where
  "assertions_hold now t ns as \<longleftrightarrow> (\<forall>(k, v) \<in> set as. kv_view now t (ns, k) = Some v)"

lemma check_assertions_Inr:
  assumes "tables_wf (tbl d)" and "check_assertions now ns as d = (Inr b, d')"
  shows "b \<longleftrightarrow> assertions_hold now (tbl d) ns as"
  using assms
proof (induction now ns as arbitrary: d rule: check_assertions.induct)
  case (1 now ns)
  then show ?case by (simp add: db_return_Inr assertions_hold_def)
next
  case (2 now ns k v rest)
  let ?q = "\<lambda>t. find (\<lambda>r. kv_nsid r = ns \<and> kv_appkey r = k \<and> kv_appvalue r = v \<and>
      kv_live now r) (appkv t)"
  from 2(3) obtain x d1 where s: "db_select ?q d = (Inr x, d1)" and
    r: "(if x = None then db_return False else check_assertions now ns rest) d1 = (Inr b, d')"
    unfolding check_assertions.simps by (rule db_bind_Inr)
  from db_select_Inr [OF s] have x: "x = ?q (tbl d)" and t: "tbl d1 = tbl d" by simp_all
  have "?q (tbl d) = (case tbl_find kv_key (ns, k) (appkv (tbl d)) of None \<Rightarrow> None
      | Some r \<Rightarrow> if kv_appvalue r = v \<and> kv_live now r then Some r else None)"
    by (rule kv_find_live [OF tables_wf_dests(1) [OF 2(2)]])
  then have "x = None \<longleftrightarrow> kv_view now (tbl d) (ns, k) \<noteq> Some v"
    unfolding x by (auto simp: kv_view_def split: option.splits if_splits)
  with r 2(1) [of x d1] 2(2) t show ?case
    by (auto simp: assertions_hold_def db_return_Inr split: if_splits)
qed

lemma exec_writes_Inr:
  "exec_writes ns ex ws d = (Inr x, d') \<Longrightarrow>
     tbl d' = fold (\<lambda>(k, v). kv_upsert ns k v ex) ws (tbl d)"
  by (induction ns ex ws arbitrary: d rule: exec_writes.induct)
     (auto simp: db_return_Inr elim!: db_bind_Inr dest: db_exec_Inr)

lemma worker_data_cmpupdate_Inr:
  assumes wf: "tables_wf (tbl d)"
    and run: "worker_data_cmpupdate now ns as ws ttl d = (Inr b, d')"
  shows "\<exists>ex. expiration_of now ttl = Inr ex \<and> b = assertions_hold now (tbl d) ns as \<and>
    tbl d' = (if b then fold (\<lambda>(k, v). kv_upsert ns k v ex) ws (tbl d) else tbl d)"
proof -
  from run obtain ex where ex: "expiration_of now ttl = Inr ex"
    by (auto simp: worker_data_cmpupdate_def split: sum.splits)
  let ?body = "db_bind get_conn (\<lambda>_. db_bind (check_assertions now ns as) (\<lambda>holds.
      if \<not> holds then db_return (False, False)
      else db_bind (exec_writes ns ex ws) (\<lambda>_. db_bind get_conn (\<lambda>_. db_return (True, True)))))"
  from run ex obtain x d1 where c1: "get_conn d = (Inr x, d1)" and
    tr: "db_transaction ?body d1 = (Inr b, d')"
    by (auto simp: worker_data_cmpupdate_def elim: db_bind_Inr)
  have t1: "tbl d1 = tbl d" by (rule get_conn_Inr [OF c1])
  from tr obtain com d2 where body: "?body d1 = (Inr (com, b), d2)" and
    d': "d' = (if com then d2 else d2\<lparr>tbl := tbl d1\<rparr>)"
    by (auto simp: db_transaction_def split: prod.splits sum.splits)
  from body obtain y d3 where c2: "get_conn d1 = (Inr y, d3)" and
    rest: "db_bind (check_assertions now ns as) (\<lambda>holds.
      if \<not> holds then db_return (False, False)
      else db_bind (exec_writes ns ex ws) (\<lambda>_. db_bind get_conn (\<lambda>_. db_return (True, True)))) d3
      = (Inr (com, b), d2)"
    by (rule db_bind_Inr)
  have t3: "tbl d3 = tbl d" using get_conn_Inr [OF c2] t1 by simp
  from rest obtain holds d4 where ca: "check_assertions now ns as d3 = (Inr holds, d4)" and
    fin: "(if \<not> holds then db_return (False, False)
      else db_bind (exec_writes ns ex ws) (\<lambda>_. db_bind get_conn (\<lambda>_. db_return (True, True)))) d4
      = (Inr (com, b), d2)"
    by (rule db_bind_Inr)
  have t4: "tbl d4 = tbl d"
    using db_readonly_tbl [OF check_assertions_readonly ca] t3 by simp
  have h: "holds \<longleftrightarrow> assertions_hold now (tbl d) ns as"
    using check_assertions_Inr [OF _ ca] wf t3 by simp
  show ?thesis
  proof (cases holds)
    case True
    with fin have "com \<and> b \<and> tbl d2 = fold (\<lambda>(k, v). kv_upsert ns k v ex) ws (tbl d)"
      by (auto simp: db_return_Inr t4 elim!: db_bind_Inr dest!: exec_writes_Inr get_conn_Inr)
    with True h d' ex show ?thesis by simp
  next
    case False
    with fin h d' ex t1 show ?thesis by (simp add: db_return_Inr)
  qed
qed

lemma kv_view_fold_upsert:
  "kv_view now (fold (\<lambda>(k, v). kv_upsert ns k v ex) ws t) =
     (if live_at now ex then kv_view now t ++ map_of (map (\<lambda>(k, v). ((ns, k), v)) (rev ws))
      else (\<lambda>nk. if nk \<in> (\<lambda>(k, v). (ns, k)) ` set ws then None else kv_view now t nk))"
proof (induction ws arbitrary: t)
  case Nil
  then show ?case by simp
next
  case (Cons w ws)
  obtain k v where w: "w = (k, v)" by (cases w)
  show ?case
    by (auto simp: Cons.IH w kv_view_upsert fun_eq_iff map_add_def split: option.splits)
qed

section \<open>The contract of the store\<close>

text \<open>
  \<open>view now s\<close> is the map a reader at time \<open>now\<close> sees. Every law speaks of calls that
  succeeded; \<open>err_unchanged\<close> says that a call that failed had no effect.
\<close>

locale kv_store =
  fixes get :: "u64 \<Rightarrow> string \<Rightarrow> bytes \<Rightarrow> 's \<Rightarrow> bytes option GenericResult \<times> 's"
    and put :: "u64 \<Rightarrow> u64 \<Rightarrow> string \<Rightarrow> bytes \<Rightarrow> bytes \<Rightarrow> bool \<Rightarrow> u64 \<Rightarrow> 's \<Rightarrow> unit GenericResult \<times> 's"
    and delete :: "string \<Rightarrow> bytes \<Rightarrow> 's \<Rightarrow> unit GenericResult \<times> 's"
    and cmpupdate :: "u64 \<Rightarrow> string \<Rightarrow> (bytes \<times> bytes) list \<Rightarrow> (bytes \<times> bytes) list \<Rightarrow> u64 \<Rightarrow> 's
      \<Rightarrow> bool GenericResult \<times> 's"
    and view :: "u64 \<Rightarrow> 's \<Rightarrow> string \<times> bytes \<Rightarrow> bytes option"
    and invar :: "'s \<Rightarrow> bool"
  assumes get_view: "invar s \<Longrightarrow> get now ns k s = (Inr r, s') \<Longrightarrow> r = view now s (ns, k)"
    and get_frame: "get now ns k s = (res, s') \<Longrightarrow> view t s' = view t s"
    and put_view: "invar s \<Longrightarrow> put n1 n2 ns k v ine ttl s = (Inr u, s') \<Longrightarrow>
      \<exists>ex. expiration_of n1 ttl = Inr ex \<and> (\<forall>now. view now s' =
         (if ine \<and> view n2 s (ns, k) \<noteq> None then view now s
          else (view now s)((ns, k) := if live_at now ex then Some v else None)))"
    and put_err: "put n1 n2 ns k v ine ttl s = (Inl e, s') \<Longrightarrow> view now s' = view now s"
    and delete_view: "invar s \<Longrightarrow> delete ns k s = (Inr u, s') \<Longrightarrow>
      view now s' = (view now s)((ns, k) := None)"
    and cmpupdate_view: "invar s \<Longrightarrow> cmpupdate n1 ns as ws ttl s = (Inr b, s') \<Longrightarrow>
      \<exists>ex. expiration_of n1 ttl = Inr ex \<and>
        b = (\<forall>(k, v) \<in> set as. view n1 s (ns, k) = Some v) \<and>
        (\<forall>now. view now s' =
          (if \<not> b then view now s
           else if live_at now ex then view now s ++ map_of (map (\<lambda>(k, v). ((ns, k), v)) (rev ws))
           else (\<lambda>nk. if nk \<in> (\<lambda>(k, v). (ns, k)) ` set ws then None else view now s nk)))"
    and cmpupdate_err: "cmpupdate n1 ns as ws ttl s = (Inl e, s') \<Longrightarrow> view now s' = view now s"
    and put_invar: "invar s \<Longrightarrow> invar (snd (put n1 n2 ns k v ine ttl s))"
    and delete_invar: "invar s \<Longrightarrow> invar (snd (delete ns k s))"
    and cmpupdate_invar: "invar s \<Longrightarrow> invar (snd (cmpupdate n1 ns as ws ttl s))"
begin

lemma read_your_write:
  assumes "invar s" and "put n1 n2 ns k v False ttl s = (Inr u, s1)"
    and "get now ns k s1 = (Inr r, s2)"
    and "ttl = 0 \<or> unat now < unat n1 + unat ttl"
  shows "r = Some v"
proof -
  from put_invar [OF assms(1)] assms(2) have "invar s1" by (metis snd_conv)
  with assms(3) have r: "r = view now s1 (ns, k)" by (rule get_view [rotated])
  from put_view [OF assms(1,2)] obtain ex where ex: "expiration_of n1 ttl = Inr ex" and
    v: "view now s1 (ns, k) = (if live_at now ex then Some v else None)"
    by auto
  from ex assms(4) have "live_at now ex"
    by (auto simp: expiration_of_def live_at_def ok_or_Inr_iff word_less_nat_alt
        dest: checked_add_Some split: if_splits)
  with r v show ?thesis by simp
qed

lemma write_expires:
  assumes "invar s" and "put n1 n2 ns k v False ttl s = (Inr u, s1)"
    and "get now ns k s1 = (Inr r, s2)"
    and "ttl \<noteq> 0" and "unat n1 + unat ttl \<le> unat now"
  shows "r = None"
proof -
  from put_invar [OF assms(1)] assms(2) have "invar s1" by (metis snd_conv)
  with assms(3) have r: "r = view now s1 (ns, k)" by (rule get_view [rotated])
  from put_view [OF assms(1,2)] obtain ex where ex: "expiration_of n1 ttl = Inr ex" and
    v: "view now s1 (ns, k) = (if live_at now ex then Some v else None)"
    by auto
  from ex assms(4,5) have "\<not> live_at now ex"
    by (auto simp: expiration_of_def live_at_def ok_or_Inr_iff word_less_nat_alt unat_eq_0 [symmetric]
        dest: checked_add_Some split: if_splits)
  with r v show ?thesis by simp
qed

text \<open>Of two \<open>if_not_exists\<close> writers the first wins, as long as its value lives.\<close>

lemma first_writer_wins:
  assumes "invar s" and "view n2 s (ns, k) = None"
    and "put n1 n2 ns k v True 0 s = (Inr u, s1)"
    and "put n3 n4 ns k w True ttl s1 = (Inr u', s2)"
    and "get now ns k s2 = (Inr r, s3)"
  shows "r = Some v"
proof -
  from put_invar [OF assms(1)] assms(3) have i1: "invar s1" by (metis snd_conv)
  from put_invar [OF i1] assms(4) have i2: "invar s2" by (metis snd_conv)
  from put_view [OF assms(1,3)] assms(2) have v1: "view t s1 (ns, k) = Some v" for t
    by (auto simp: expiration_of_def live_at_def)
  from put_view [OF i1 assms(4)] v1 have "view now s2 = view now s1"
    by auto
  with get_view [OF i2 assms(5)] v1 show ?thesis by simp
qed

end

lemma db_atomic_err: "db_atomic m \<Longrightarrow> m d = (Inl e, d') \<Longrightarrow> tbl d' = tbl d"
  by (metis db_atomic_def fst_conv is_err.simps(1) snd_conv)

lemma db_keeps_run: "db_keeps P m \<Longrightarrow> P (tbl d) \<Longrightarrow> P (tbl (snd (m d)))"
  by (simp add: db_keeps_def)

interpretation store: kv_store worker_data_get worker_data_put worker_data_delete
  worker_data_cmpupdate "\<lambda>now d. kv_view now (tbl d)" "\<lambda>d. tables_wf (tbl d)"
proof unfold_locales
  fix s s' now ns k and t :: u64 and res
  show "worker_data_get now ns k s = (res, s') \<Longrightarrow> kv_view t (tbl s') = kv_view t (tbl s)"
    using db_readonly_tbl [OF worker_data_readonly(1)] by metis
next
  fix s s' n1 ns as ws ttl b
  assume "tables_wf (tbl s)" and "worker_data_cmpupdate n1 ns as ws ttl s = (Inr b, s')"
  then obtain ex where ex: "expiration_of n1 ttl = Inr ex"
    and b: "b = assertions_hold n1 (tbl s) ns as"
    and t: "tbl s' = (if b then fold (\<lambda>(k, v). kv_upsert ns k v ex) ws (tbl s) else tbl s)"
    using worker_data_cmpupdate_Inr by blast
  show "\<exists>ex. expiration_of n1 ttl = Inr ex \<and>
        b = (\<forall>(k, v) \<in> set as. kv_view n1 (tbl s) (ns, k) = Some v) \<and>
        (\<forall>now. kv_view now (tbl s') =
          (if \<not> b then kv_view now (tbl s)
           else if live_at now ex
             then kv_view now (tbl s) ++ map_of (map (\<lambda>(k, v). ((ns, k), v)) (rev ws))
           else (\<lambda>nk. if nk \<in> (\<lambda>(k, v). (ns, k)) ` set ws then None
                  else kv_view now (tbl s) nk)))"
  proof (intro exI [of _ ex] conjI allI)
    show "b = (\<forall>(k, v) \<in> set as. kv_view n1 (tbl s) (ns, k) = Some v)"
      using b by (simp add: assertions_hold_def)
  qed (simp_all add: ex t kv_view_fold_upsert)
qed (erule (1) worker_data_put_view |
     simp add: worker_data_get_view worker_data_delete_view
       db_atomic_err [OF worker_data_atomic(1)] db_atomic_err [OF worker_data_atomic(3)]
       db_keeps_run worker_data_keeps)+

section \<open>Range scans\<close>

lemma worker_data_scan_keys_Inr:
  assumes "worker_data_scan_keys now ns start e limit d = (Inr ks, d')"
  shows "ks = take (unat limit) (map kv_appkey
    (filter (\<lambda>r. kv_nsid r = ns \<and> start \<le> kv_appkey r \<and>
       (case e of None \<Rightarrow> True | Some x \<Rightarrow> kv_appkey r \<le> x) \<and> kv_live now r) (appkv (tbl d))))"
  using assms unfolding worker_data_scan_keys_def
  by (auto elim!: db_bind_Inr dest!: db_select_Inr get_conn_Inr split: option.splits)

lemma distinct_ns_keys:
  "tbl_wf kv_key rows \<Longrightarrow> (\<And>r. P r \<Longrightarrow> kv_nsid r = ns) \<Longrightarrow>
     distinct (map kv_appkey (filter P rows))"
  by (induction rows) (auto simp: tbl_wf_def kv_key_def image_iff)

section \<open>Apps and bundles\<close>

lemma app_metadata_get_Inr:
  assumes "app_metadata_get js a d = (Inr c, d')"
  shows "(case tbl_find ap_id a (apps_tbl (tbl d)) of
     None \<Rightarrow> c = None
   | Some r \<Rightarrow> \<exists>env kvns. env_from_str js (ap_env r) = Inr env \<and>
       kvns_from_str js (ap_kv_namespaces r) = Inr kvns \<and>
       c = Some \<lparr>ac_id = AppId a, ac_bundle_id = ap_bundle_id r, ac_env = env,
                 ac_kv_namespaces = kvns\<rparr>)"
  using assms unfolding app_metadata_get_def
  by (elim db_bind_Inr)
     (auto simp: tbl_find_def db_return_Inr db_lift_Inr json_res_def
        elim!: db_bind_Inr dest!: db_select_Inr get_conn_Inr split: option.splits sum.splits)

lemma app_metadata_put_Inr:
  assumes "app_metadata_put js now c d = (Inr u, d')"
  obtains env kvns where "env_to_string js (ac_env c) = Inr env"
    and "kvns_to_string js (ac_kv_namespaces c) = Inr kvns"
    and "tbl d' = (tbl d)\<lparr>apps_tbl := tbl_upsert ap_id
         (\<lambda>r. r\<lparr>ap_bundle_id := ac_bundle_id c, ap_env := env, ap_kv_namespaces := kvns\<rparr>)
         \<lparr>ap_id = appid_str (ac_id c), ap_bundle_id = ac_bundle_id c, ap_env = env,
          ap_kv_namespaces = kvns, ap_createtime = now\<rparr> (apps_tbl (tbl d))\<rparr>"
  using assms unfolding app_metadata_put_def
  by (elim db_bind_Inr)
     (auto simp: db_lift_Inr json_res_def dest!: db_exec_Inr get_conn_Inr split: sum.splits)

lemma app_metadata_roundtrip_aux:
  assumes js: "json_roundtrip js" and put: "app_metadata_put js now c d = (Inr u, d1)"
    and get: "app_metadata_get js (appid_str (ac_id c)) d1 = (Inr r, d2)"
  shows "r = Some c"
proof -
  from put obtain env kvns where e: "env_to_string js (ac_env c) = Inr env"
    and k: "kvns_to_string js (ac_kv_namespaces c) = Inr kvns"
    and t: "tbl d1 = (tbl d)\<lparr>apps_tbl := tbl_upsert ap_id
         (\<lambda>r. r\<lparr>ap_bundle_id := ac_bundle_id c, ap_env := env, ap_kv_namespaces := kvns\<rparr>)
         \<lparr>ap_id = appid_str (ac_id c), ap_bundle_id = ac_bundle_id c, ap_env = env,
          ap_kv_namespaces = kvns, ap_createtime = now\<rparr> (apps_tbl (tbl d))\<rparr>"
    by (rule app_metadata_put_Inr)
  from js e k have "env_from_str js env = Inr (ac_env c)"
    and "kvns_from_str js kvns = Inr (ac_kv_namespaces c)"
    by (simp_all add: json_roundtrip_def)
  with app_metadata_get_Inr [OF get] show ?thesis
    by (auto simp: t tbl_find_upsert split: option.splits)
qed

lemma app_bundle_put_Inr:
  "app_bundle_put now i v d = (Inr u, d') \<Longrightarrow>
     tbl_find bu_id i (bundles (tbl d)) = None \<and>
     tbl d' = (tbl d)\<lparr>bundles := bundles (tbl d) @ [\<lparr>bu_id = i, bu_bundle = v, bu_createtime = now\<rparr>]\<rparr>"
  unfolding app_bundle_put_def
  by (elim db_bind_Inr)
     (auto simp: db_call_def tbl_insert_def tbl_find_None_iff dest!: get_conn_Inr
       split: list.splits option.splits if_splits)

lemma app_bundle_get_Inr:
  "app_bundle_get i d = (Inr b, d') \<Longrightarrow> b = map_option bu_bundle (tbl_find bu_id i (bundles (tbl d)))"
  unfolding app_bundle_get_def
  by (elim db_bind_Inr) (auto simp: tbl_find_def dest!: db_select_Inr get_conn_Inr)

end
