(* ===== verification/Routing.thy ===== *)
theory Routing
  imports Db_Spec
begin

text \<open>
  Routing of a request path to an application: the proxy's \<open>lookup_submappings\<close>
  (\<open>src/rusty-workers-proxy/src/sched.rs\<close>) over the cached routes of a domain, and its
  relation to the query \<open>route_mapping_lookup\<close> that the command line tool runs in the
  database.
\<close>

section \<open>Definitions\<close>

text \<open>
  \<open>for (k, v) in submappings.iter().rev()\<close>: the first key, in reverse order, that the path
  starts with.
\<close>

fun first_match :: "string \<Rightarrow> (string \<times> 'v) list \<Rightarrow> 'v option" where
  "first_match path [] = None"
| "first_match path ((k, v) # rest) = (if starts_with path k then Some v else first_match path rest)"

definition lookup_submappings :: "string \<Rightarrow> (string, 'v) BTreeMap \<Rightarrow> 'v option" where
  "lookup_submappings path submappings = first_match path (rev submappings)"

definition wildcard_free :: "string \<Rightarrow> bool" where
  "wildcard_free p \<longleftrightarrow> CHR ''%'' \<notin> set p \<and> CHR ''_'' \<notin> set p \<and> CHR 0x5C \<notin> set p"

section \<open>Longest prefix\<close>

lemma first_match_append:
  "first_match path (xs @ ys) =
     (case first_match path xs of None \<Rightarrow> first_match path ys | Some v \<Rightarrow> Some v)"
  by (induction path xs rule: first_match.induct) auto

lemma first_match_None: "first_match path xs = None \<longleftrightarrow> (\<forall>(k, v) \<in> set xs. \<not> starts_with path k)"
  by (induction path xs rule: first_match.induct) auto

lemma lookup_submappings_None_iff:
  "lookup_submappings path m = None \<longleftrightarrow> (\<forall>(k, v) \<in> set m. \<not> starts_with path k)"
  by (simp add: lookup_submappings_def first_match_None)

lemma lookup_submappings_Cons:
  "lookup_submappings path ((k, v) # m) =
     (case lookup_submappings path m of
        None \<Rightarrow> if starts_with path k then Some v else None
      | Some w \<Rightarrow> Some w)"
  by (simp add: lookup_submappings_def first_match_append split: option.splits)

lemma lookup_submappings_greatest:
  assumes "bt_wf m" and "lookup_submappings path m = Some v"
  shows "\<exists>k. (k, v) \<in> set m \<and> starts_with path k \<and>
    (\<forall>(k', v') \<in> set m. starts_with path k' \<longrightarrow> k' \<le> k)"
  using assms
proof (induction m)
  case Nil
  then show ?case by (simp add: lookup_submappings_def)
next
  case (Cons x m)
  obtain k0 v0 where x: "x = (k0, v0)" by (cases x)
  show ?case
  proof (cases "lookup_submappings path m")
    case None
    with Cons.prems x have "starts_with path k0" "v = v0"
      by (auto simp: lookup_submappings_Cons split: if_splits)
    with None x show ?thesis
      by (auto simp: lookup_submappings_None_iff)
  next
    case (Some w)
    with Cons.prems x have wf: "bt_wf m" and less: "\<forall>k' \<in> fst ` set m. k0 < k'"
      and w: "lookup_submappings path m = Some v"
      by (auto simp: lookup_submappings_Cons)
    from Cons.IH [OF wf w] obtain k where k: "(k, v) \<in> set m" "starts_with path k"
      "\<forall>(k', v') \<in> set m. starts_with path k' \<longrightarrow> k' \<le> k"
      by auto
    from less k(1) have "k0 < k" by (metis fst_conv image_eqI)
    with k x show ?thesis by (intro exI [of _ k]) auto
  qed
qed

lemma lookup_submappings_longest_aux:
  assumes wf: "bt_wf m"
  shows "lookup_submappings path m = Some v \<longleftrightarrow>
    (\<exists>k. bt_get m k = Some v \<and> starts_with path k \<and>
       (\<forall>k' v'. bt_get m k' = Some v' \<longrightarrow> starts_with path k' \<longrightarrow> length k' \<le> length k))"
    (is "?l \<longleftrightarrow> (\<exists>k. ?P k v)")
proof
  assume ?l
  from lookup_submappings_greatest [OF wf this]
  obtain k where k: "(k, v) \<in> set m" "starts_with path k"
    and max: "\<forall>(k', v') \<in> set m. starts_with path k' \<longrightarrow> k' \<le> k"
    by auto
  with max show "\<exists>k. ?P k v"
    by (intro exI [of _ k]) (auto simp: bt_get_mem [OF wf, symmetric] starts_with_le_iff)
next
  assume "\<exists>k. ?P k v"
  then obtain k where k: "?P k v" by blast
  then have "(k, v) \<in> set m" by (simp add: bt_get_mem [OF wf])
  with k have "lookup_submappings path m \<noteq> None"
    by (auto simp: lookup_submappings_None_iff)
  then obtain w where w: "lookup_submappings path m = Some w" by blast
  from lookup_submappings_greatest [OF wf w]
  obtain k2 where k2: "(k2, w) \<in> set m" "starts_with path k2"
    and max: "\<forall>(k', v') \<in> set m. starts_with path k' \<longrightarrow> k' \<le> k2"
    by auto
  from k2 k have "length k2 \<le> length k"
    by (auto simp: bt_get_mem [OF wf])
  moreover from max k \<open>(k, v) \<in> set m\<close> have "k \<le> k2" by blast
  with k k2 have "length k \<le> length k2" using starts_with_le_iff [of path k k2] by blast
  ultimately have "k2 = k"
    using k k2 starts_with_same_length by (metis order_antisym)
  with k2 k w show ?l by (simp add: bt_get_mem [OF wf])
qed

section \<open>Agreement with the database query\<close>

lemma sql_like_percent: "sql_like s ''%''"
  by (induction s) auto

lemma sql_like_prefix: "wildcard_free p \<Longrightarrow> sql_like s (p @ ''%'') \<longleftrightarrow> starts_with s p"
proof (induction s p rule: starts_with.induct)
  case (1 s)
  then show ?case by (simp add: sql_like_percent)
next
  case (2 p ps)
  then show ?case by (auto simp: wildcard_free_def)
next
  case (3 c s p ps)
  then show ?case by (auto simp: wildcard_free_def)
qed

lemma longest_path_Some:
  "longest_path rs = Some r \<Longrightarrow>
     r \<in> set rs \<and> (\<forall>r' \<in> set rs. length (rt_path r') \<le> length (rt_path r))"
proof (induction rs arbitrary: r)
  case Nil
  then show ?case by simp
next
  case (Cons a rs)
  show ?case
  proof (cases "longest_path rs")
    case None
    with Cons.prems show ?thesis by (cases rs) (auto split: option.splits if_splits)
  next
    case (Some r')
    with Cons show ?thesis by (force split: if_splits)
  qed
qed

lemma longest_path_None: "longest_path rs = None \<longleftrightarrow> rs = []"
  by (cases rs) (auto split: option.splits)

lemma route_list_Inr:
  assumes "route_mapping_list_for_domain domain d = (Inr m, d')"
  shows "m = bt_collect (map (\<lambda>r. (rt_path r, rt_appid r))
    (filter (\<lambda>r. rt_domain r = domain) (routes (tbl d))))"
  using assms unfolding route_mapping_list_for_domain_def
  by (elim db_bind_Inr) (auto dest!: db_select_Inr get_conn_Inr)

lemma route_lookup_Inr:
  assumes "route_mapping_lookup domain path d = (Inr a, d')"
  shows "a = map_option rt_appid (longest_path
     (filter (\<lambda>r. rt_domain r = domain \<and> sql_like path (rt_path r @ ''%'')) (routes (tbl d))))"
  using assms unfolding route_mapping_lookup_def
  by (elim db_bind_Inr) (auto dest!: db_select_Inr get_conn_Inr)

lemma bt_get_routes:
  assumes "tbl_wf rt_key rows"
  shows "bt_get (bt_collect (map (\<lambda>r. (rt_path r, rt_appid r))
      (filter (\<lambda>r. rt_domain r = domain) rows))) p = map_option rt_appid (tbl_find rt_key (domain, p) rows)"
proof -
  have "map_of (rev (map (\<lambda>r. (rt_path r, rt_appid r)) (filter (\<lambda>r. rt_domain r = domain) rows))) =
      map_of (map (\<lambda>r. (rt_path r, rt_appid r)) (filter (\<lambda>r. rt_domain r = domain) rows))"
    using assms
    by (intro map_of_rev_distinct) (induction rows; auto simp: tbl_wf_def rt_key_def image_iff)
  moreover have "map_of (map (\<lambda>r. (rt_path r, rt_appid r)) (filter (\<lambda>r. rt_domain r = domain) rows)) p =
      map_option rt_appid (tbl_find rt_key (domain, p) rows)"
    by (induction rows) (auto simp: rt_key_def)
  ultimately show ?thesis by (simp add: bt_get_collect)
qed

text \<open>
  C1. On the routes of a domain whose stored paths contain none of the \<open>LIKE\<close> metacharacters
  \<open>%\<close>, \<open>_\<close> and backslash, the application that the proxy picks from the routes it has
  fetched (\<open>lookup_submappings\<close>, reverse key order) is the one that the database query
  \<open>route_mapping_lookup\<close> (longest matching path) returns.
\<close>

theorem proxy_routing_agrees_with_database:
  assumes wf: "tables_wf (tbl d)"
    and plain: "\<forall>r \<in> set (routes (tbl d)). rt_domain r = domain \<longrightarrow> wildcard_free (rt_path r)"
    and list: "route_mapping_list_for_domain domain d = (Inr m, d1)"
    and look: "route_mapping_lookup domain path d = (Inr a, d2)"
  shows "lookup_submappings path m = a"
proof -
  let ?rows = "routes (tbl d)"
  let ?hits = "filter (\<lambda>r. rt_domain r = domain \<and> sql_like path (rt_path r @ ''%'')) ?rows"
  note kwf = tables_wf_dests(2) [OF wf]
  have m: "bt_wf m" and get: "bt_get m p = map_option rt_appid (tbl_find rt_key (domain, p) ?rows)" for p
    by (simp_all add: route_list_Inr [OF list] bt_get_routes [OF kwf])
  have hit: "r \<in> set ?hits \<longleftrightarrow> r \<in> set ?rows \<and> rt_domain r = domain \<and> starts_with path (rt_path r)" for r
    using plain by (auto simp: sql_like_prefix)
  have row: "tbl_find rt_key (domain, p) ?rows = Some r \<longleftrightarrow>
      r \<in> set ?rows \<and> rt_domain r = domain \<and> rt_path r = p" for p r
    using tbl_find_mem [OF kwf, of r] by (auto simp: rt_key_def dest!: tbl_find_Some)
  show ?thesis
  proof (cases "longest_path ?hits")
    case None
    then have "?hits = []" by (simp only: longest_path_None)
    then have "\<not> starts_with path p" if "bt_get m p = Some v" for p v
      using that hit row by (auto simp: get)
    then have "lookup_submappings path m = None"
      by (auto simp: lookup_submappings_None_iff bt_get_mem [OF m])
    with None route_lookup_Inr [OF look] show ?thesis by simp
  next
    case (Some r)
    from longest_path_Some [OF Some] have r: "r \<in> set ?hits"
      and max: "\<forall>r' \<in> set ?hits. length (rt_path r') \<le> length (rt_path r)" by blast+
    from r have "bt_get m (rt_path r) = Some (rt_appid r)" "starts_with path (rt_path r)"
      using hit row [of "rt_path r" r] by (auto simp: get)
    moreover have "length p \<le> length (rt_path r)"
      if "bt_get m p = Some v" and "starts_with path p" for p v
      using that max hit row by (auto simp: get)
    ultimately have "lookup_submappings path m = Some (rt_appid r)"
      unfolding lookup_submappings_longest_aux [OF m] by blast
    with Some route_lookup_Inr [OF look] show ?thesis by simp
  qed
qed

text \<open>Concrete tables for the witnesses: three routes of one domain, one of another.\<close>

definition example_tables :: tables where
  "example_tables = \<lparr>appkv = [], routes =
     [\<lparr>rt_domain = ''a.com'', rt_path = ''/'', rt_appid = ''root'', rt_createtime = 1\<rparr>,
      \<lparr>rt_domain = ''a.com'', rt_path = ''/api/v2'', rt_appid = ''v2'', rt_createtime = 2\<rparr>,
      \<lparr>rt_domain = ''b.com'', rt_path = ''/api'', rt_appid = ''other'', rt_createtime = 3\<rparr>,
      \<lparr>rt_domain = ''a.com'', rt_path = ''/api'', rt_appid = ''api'', rt_createtime = 4\<rparr>],
     apps_tbl = [], bundles = [], applog = [], dup_text = []\<rparr>"

definition example_db :: db where
  "example_db = \<lparr>tbl = example_tables, outcomes = []\<rparr>"

lemmas example_db_simps = example_db_def example_tables_def tables_wf_def tbl_wf_def kv_key_def
  rt_key_def lg_key_def db_bind_def get_conn_def db_select_def db_exec_def db_call_def
  db_return_def

theorem proxy_routing_agrees_with_database_witness:
  "lookup_submappings ''/api/v1/x''
     [(''/'', ''root''), (''/api'', ''api''), (''/api/v2'', ''v2'')] = Some ''api''"
proof -
  let ?m = "[(''/'', ''root''), (''/api'', ''api''), (''/api/v2'', ''v2'')]"
  have wf: "tables_wf (tbl example_db)"
    by (simp add: example_db_simps)
  have pl: "\<forall>r \<in> set (routes (tbl example_db)). rt_domain r = ''a.com'' \<longrightarrow> wildcard_free (rt_path r)"
    by (simp add: example_db_simps wildcard_free_def)
  have l: "route_mapping_list_for_domain ''a.com'' example_db = (Inr ?m, example_db)"
    by (simp add: route_mapping_list_for_domain_def example_db_simps bt_collect_def
        less_list_code)
  have q: "route_mapping_lookup ''a.com'' ''/api/v1/x'' example_db = (Inr (Some ''api''), example_db)"
    by (simp add: route_mapping_lookup_def example_db_simps)
  show ?thesis by (rule proxy_routing_agrees_with_database [OF wf pl l q])
qed

text \<open>
  C2. \<open>lookup_submappings\<close> returns the application of the longest stored prefix of the request
  path: its key is a prefix of the path, and every stored prefix of the path is at most as
  long. It returns nothing exactly when no stored path is a prefix.
\<close>

theorem lookup_submappings_longest_prefix:
  assumes "bt_wf m"
  shows "(lookup_submappings path m = Some v \<longleftrightarrow>
      (\<exists>k. bt_get m k = Some v \<and> starts_with path k \<and>
         (\<forall>k' v'. bt_get m k' = Some v' \<longrightarrow> starts_with path k' \<longrightarrow> length k' \<le> length k))) \<and>
    (lookup_submappings path m = None \<longleftrightarrow>
      (\<forall>k v. bt_get m k = Some v \<longrightarrow> \<not> starts_with path k))"
proof
  show "lookup_submappings path m = None \<longleftrightarrow> (\<forall>k v. bt_get m k = Some v \<longrightarrow> \<not> starts_with path k)"
    by (auto simp: lookup_submappings_None_iff bt_get_mem [OF assms, symmetric])
qed (rule lookup_submappings_longest_aux [OF assms])

theorem lookup_submappings_longest_prefix_witness:
  "bt_wf [(''/'', ''root''), (''/api'', ''api'')] \<and>
   lookup_submappings ''/app'' [(''/'', ''root''), (''/api'', ''api'')] = Some ''root''"
proof -
  let ?m = "[(''/'', ''root''), (''/api'', ''api'')]"
  have wf: "bt_wf ?m" by (simp add: less_list_code)
  have "\<exists>k. bt_get ?m k = Some ''root'' \<and> starts_with ''/app'' k \<and>
     (\<forall>k' v'. bt_get ?m k' = Some v' \<longrightarrow> starts_with ''/app'' k' \<longrightarrow> length k' \<le> length k)"
    by (intro exI [of _ "''/''"]) (auto simp: bt_get_def split: if_splits)
  with wf lookup_submappings_longest_prefix [OF wf, of "''/app''" "''root''"] show ?thesis
    by blast
qed

text \<open>
  With a metacharacter in a stored path the two disagree: a route stored for \<open>/a_b\<close> is
  found by the database query for the request path \<open>/axb\<close>, while the proxy, which compares
  prefixes literally, has no route for it.
\<close>

theorem like_metacharacter_divergence:
  "\<exists>d m a. tables_wf (tbl d) \<and>
     route_mapping_list_for_domain ''a.com'' d = (Inr m, d) \<and>
     route_mapping_lookup ''a.com'' ''/axb'' d = (Inr (Some a), d) \<and>
     lookup_submappings ''/axb'' m = None"
proof -
  let ?d = "\<lparr>tbl = example_tables\<lparr>routes :=
     [\<lparr>rt_domain = ''a.com'', rt_path = ''/a_b'', rt_appid = ''x'', rt_createtime = 1\<rparr>]\<rparr>,
     outcomes = []\<rparr> :: db"
  have "tables_wf (tbl ?d)" by (simp add: example_db_simps)
  moreover have "route_mapping_list_for_domain ''a.com'' ?d = (Inr [(''/a_b'', ''x'')], ?d)"
    by (simp add: route_mapping_list_for_domain_def example_db_simps bt_collect_def)
  moreover have "route_mapping_lookup ''a.com'' ''/axb'' ?d = (Inr (Some ''x''), ?d)"
    by (simp add: route_mapping_lookup_def example_db_simps)
  moreover have "lookup_submappings ''/axb'' [(''/a_b'', ''x'')] = None"
    by (simp add: lookup_submappings_def)
  ultimately show ?thesis by blast
qed

end
