(* ===== verification/F64.thy ===== *)
theory F64
  imports Prelude "HOL-Library.Log_Nat"
begin

text \<open>
  The floating-point numbers the code computes with: IEEE 754 \<open>binary64\<close> (\<open>f64\<close>) with
  rounding to nearest, ties to even, gradual underflow and overflow to infinity, over exact
  rationals. The sign of zero is not represented: the code never divides by a negative zero, and
  the only definition that prints numbers (\<open>Metric_Text\<close>) prints every zero as \<open>0\<close>. \<open>f32\<close> values (only compared, never computed with) use the
  same type.
\<close>

datatype f64 = NaN | PInf | NInf | Fin rat

section \<open>Rounding\<close>

text \<open>The exponent of a positive rational: \<open>2 powi e \<le> x < 2 powi (e + 1)\<close>.\<close>

definition ilog2 :: "rat \<Rightarrow> int" where
  "ilog2 x =
     (case quotient_of x of (p, q) \<Rightarrow>
        let e = bitlen p - bitlen q in if 2 powi e \<le> x then e else e - 1)"

definition round_even :: "rat \<Rightarrow> int" where
  "round_even y =
     (let f = \<lfloor>y\<rfloor>; d = y - of_int f
      in if d < 1 / 2 \<or> (d = 1 / 2 \<and> even f) then f else f + 1)"

definition ulp_exp :: "rat \<Rightarrow> int" where
  "ulp_exp x = max (ilog2 x - 52) (- 1074)"

definition rnd_pos :: "rat \<Rightarrow> rat" where
  "rnd_pos x = of_int (round_even (x / 2 powi ulp_exp x)) * 2 powi ulp_exp x"

definition overflow_limit :: rat where
  "overflow_limit = 2 ^ 1024"

definition rnd :: "rat \<Rightarrow> f64" where
  "rnd x =
     (if x = 0 then Fin 0
      else if x > 0 then (if rnd_pos x < overflow_limit then Fin (rnd_pos x) else PInf)
      else (if rnd_pos (- x) < overflow_limit then Fin (- rnd_pos (- x)) else NInf))"

section \<open>Operations\<close>

fun f64_le :: "f64 \<Rightarrow> f64 \<Rightarrow> bool" where
  "f64_le NaN _ = False"
| "f64_le _ NaN = False"
| "f64_le NInf _ = True"
| "f64_le _ PInf = True"
| "f64_le (Fin a) (Fin b) = (a \<le> b)"
| "f64_le _ _ = False"

definition f64_lt :: "f64 \<Rightarrow> f64 \<Rightarrow> bool" where
  "f64_lt a b \<longleftrightarrow> f64_le a b \<and> \<not> f64_le b a"

fun f64_add :: "f64 \<Rightarrow> f64 \<Rightarrow> f64" where
  "f64_add (Fin a) (Fin b) = rnd (a + b)"
| "f64_add NaN _ = NaN"
| "f64_add _ NaN = NaN"
| "f64_add PInf NInf = NaN"
| "f64_add NInf PInf = NaN"
| "f64_add PInf _ = PInf"
| "f64_add _ PInf = PInf"
| "f64_add NInf _ = NInf"
| "f64_add _ NInf = NInf"

fun f64_neg :: "f64 \<Rightarrow> f64" where
  "f64_neg NaN = NaN"
| "f64_neg PInf = NInf"
| "f64_neg NInf = PInf"
| "f64_neg (Fin a) = Fin (- a)"

definition f64_signed_inf :: "rat \<Rightarrow> f64" where
  "f64_signed_inf s = (if s > 0 then PInf else if s < 0 then NInf else NaN)"

fun f64_mul :: "f64 \<Rightarrow> f64 \<Rightarrow> f64" where
  "f64_mul (Fin a) (Fin b) = rnd (a * b)"
| "f64_mul NaN _ = NaN"
| "f64_mul _ NaN = NaN"
| "f64_mul (Fin a) PInf = f64_signed_inf a"
| "f64_mul (Fin a) NInf = f64_signed_inf (- a)"
| "f64_mul PInf (Fin b) = f64_signed_inf b"
| "f64_mul NInf (Fin b) = f64_signed_inf (- b)"
| "f64_mul PInf PInf = PInf"
| "f64_mul PInf NInf = NInf"
| "f64_mul NInf PInf = NInf"
| "f64_mul NInf NInf = PInf"

text \<open>A zero divisor counts as positive zero: the code only divides by converted integers.\<close>

fun f64_div :: "f64 \<Rightarrow> f64 \<Rightarrow> f64" where
  "f64_div (Fin a) (Fin b) = (if b = 0 then f64_signed_inf a else rnd (a / b))"
| "f64_div NaN _ = NaN"
| "f64_div _ NaN = NaN"
| "f64_div (Fin a) PInf = Fin 0"
| "f64_div (Fin a) NInf = Fin 0"
| "f64_div PInf (Fin b) = (if b < 0 then NInf else PInf)"
| "f64_div NInf (Fin b) = (if b < 0 then PInf else NInf)"
| "f64_div _ _ = NaN"

fun f64_is_finite :: "f64 \<Rightarrow> bool" where
  "f64_is_finite (Fin _) = True"
| "f64_is_finite _ = False"

text \<open>\<open>n as f64\<close> for an unsigned integer.\<close>

definition f64_of_nat :: "nat \<Rightarrow> f64" where
  "f64_of_nat n = rnd (of_nat n)"

definition f64_of_int :: "int \<Rightarrow> f64" where
  "f64_of_int n = rnd (of_int n)"

text \<open>\<open>x as u16\<close>: truncation towards zero, saturating, NaN to 0.\<close>

fun f64_to_u16 :: "f64 \<Rightarrow> u16" where
  "f64_to_u16 NaN = 0"
| "f64_to_u16 PInf = 65535"
| "f64_to_u16 NInf = 0"
| "f64_to_u16 (Fin a) = (if a \<le> 0 then 0 else if a \<ge> 65535 then 65535 else word_of_int \<lfloor>a\<rfloor>)"

section \<open>Properties of rounding\<close>

lemma ilog2_bounds:
  assumes "x > 0"
  shows "2 powi ilog2 x \<le> x" and "x < 2 powi (ilog2 x + 1)"
proof -
  obtain p q where pq: "quotient_of x = (p, q)" by (cases "quotient_of x")
  then have q: "q > 0" and x: "x = of_int p / of_int q"
    by (simp_all add: quotient_of_denom_pos quotient_of_div)
  with assms have p: "p > 0" by (simp add: zero_less_divide_iff)
  let ?bp = "bitlen p" and ?bq = "bitlen q"
  have bp: "?bp \<ge> 1" and bq: "?bq \<ge> 1"
    using p q bitlen_eq_zero_iff [of p] bitlen_eq_zero_iff [of q] bitlen_nonneg [of p] bitlen_nonneg [of q]
    by linarith+
  have pw: "(2::rat) powi (b - 1) = of_int (2 ^ nat (b - 1))" "(2::rat) powi b = of_int (2 ^ nat b)"
    if "b \<ge> 1" for b :: int
    using that by (simp_all add: power_int_nonneg_exp)
  have p1: "(2::rat) powi (?bp - 1) \<le> of_int p" and p2: "of_int p < (2::rat) powi ?bp"
    using bitlen_bounds [OF p] unfolding pw [OF bp] of_int_le_iff of_int_less_iff by simp_all
  have q1: "(2::rat) powi (?bq - 1) \<le> of_int q" and q2: "of_int q < (2::rat) powi ?bq"
    using bitlen_bounds [OF q] unfolding pw [OF bq] of_int_le_iff of_int_less_iff by simp_all
  let ?e = "?bp - ?bq"
  have "x < 2 powi ?bp / 2 powi (?bq - 1)"
    unfolding x using p2 q1 q by (intro frac_less) (simp_all add: p less_imp_le)
  also have "\<dots> = 2 powi (?e + 1)"
    by (simp add: power_int_diff [symmetric] algebra_simps)
  finally have hi: "x < 2 powi (?e + 1)" .
  have "(2::rat) powi (?e - 1) = 2 powi (?bp - 1) / 2 powi ?bq"
    by (simp add: power_int_diff [symmetric] algebra_simps)
  also have "\<dots> \<le> x"
    unfolding x using p1 q2 q p by (intro frac_le) (simp_all add: less_imp_le)
  finally have lo: "2 powi (?e - 1) \<le> x" .
  from lo hi show "2 powi ilog2 x \<le> x" and "x < 2 powi (ilog2 x + 1)"
    by (auto simp: ilog2_def pq Let_def)
qed

lemma ilog2_mono:
  assumes "0 < x" and "x \<le> y"
  shows "ilog2 x \<le> ilog2 y"
proof (rule ccontr)
  assume "\<not> ilog2 x \<le> ilog2 y"
  then have "(2::rat) powi (ilog2 y + 1) \<le> 2 powi ilog2 x"
    by (intro power_int_increasing) auto
  with ilog2_bounds(1) [of x] ilog2_bounds(2) [of y] assms show False by linarith
qed

lemma round_even_mono: "x \<le> y \<Longrightarrow> round_even x \<le> round_even y"
proof -
  assume xy: "x \<le> y"
  then have f: "\<lfloor>x\<rfloor> \<le> \<lfloor>y\<rfloor>" by (rule floor_mono)
  show ?thesis
  proof (cases "\<lfloor>x\<rfloor> = \<lfloor>y\<rfloor>")
    case True
    with xy show ?thesis by (auto simp: round_even_def Let_def)
  next
    case False
    with f show ?thesis by (auto simp: round_even_def Let_def)
  qed
qed

lemma round_even_of_int [simp]: "round_even (of_int n) = n"
  by (simp add: round_even_def)

lemma round_even_le_int: "y \<le> of_int n \<Longrightarrow> round_even y \<le> n"
  using round_even_mono [of y "of_int n"] by simp

lemma round_even_ge_int: "of_int n \<le> y \<Longrightarrow> n \<le> round_even y"
  using round_even_mono [of "of_int n" y] by simp

lemma pow2_multiple:
  assumes "k \<le> m"
  shows "(2::rat) powi m / 2 powi k = of_int (2 ^ nat (m - k))"
  using assms by (simp add: power_int_diff [symmetric] power_int_nonneg_exp)

lemma rnd_pos_le_pow2:
  assumes "0 < x" and "x \<le> 2 powi m" and "ulp_exp x \<le> m"
  shows "rnd_pos x \<le> 2 powi m"
proof -
  let ?k = "ulp_exp x"
  have "x / 2 powi ?k \<le> 2 powi m / 2 powi ?k"
    using assms by (simp add: divide_right_mono)
  then have "round_even (x / 2 powi ?k) \<le> 2 ^ nat (m - ?k)"
    unfolding pow2_multiple [OF assms(3)] by (rule round_even_le_int)
  then have "of_int (round_even (x / 2 powi ?k)) \<le> (2::rat) powi m / 2 powi ?k"
    unfolding pow2_multiple [OF assms(3)] of_int_le_iff .
  then show ?thesis by (simp add: rnd_pos_def field_simps)
qed

lemma rnd_pos_ge_pow2:
  assumes "0 < x" and "2 powi m \<le> x" and "ulp_exp x \<le> m"
  shows "2 powi m \<le> rnd_pos x"
proof -
  let ?k = "ulp_exp x"
  have "2 powi m / 2 powi ?k \<le> x / 2 powi ?k"
    using assms by (simp add: divide_right_mono)
  then have "2 ^ nat (m - ?k) \<le> round_even (x / 2 powi ?k)"
    unfolding pow2_multiple [OF assms(3)] by (rule round_even_ge_int)
  then have "(2::rat) powi m / 2 powi ?k \<le> of_int (round_even (x / 2 powi ?k))"
    unfolding pow2_multiple [OF assms(3)] of_int_le_iff .
  then show ?thesis by (simp add: rnd_pos_def field_simps)
qed

lemma rnd_pos_nonneg: "0 < x \<Longrightarrow> 0 \<le> rnd_pos x"
  by (simp add: rnd_pos_def round_even_ge_int)

lemma rnd_pos_mono:
  assumes "0 < x" and "x \<le> y"
  shows "rnd_pos x \<le> rnd_pos y"
proof (cases "ulp_exp x = ulp_exp y")
  case True
  have "round_even (x / 2 powi ulp_exp x) \<le> round_even (y / 2 powi ulp_exp y)"
    unfolding True using assms by (intro round_even_mono divide_right_mono) simp_all
  then show ?thesis
    unfolding rnd_pos_def True by (intro mult_right_mono) simp_all
next
  case False
  with ilog2_mono [OF assms] have e: "ilog2 x < ilog2 y" "- 1074 \<le> ilog2 y - 52"
    by (auto simp: ulp_exp_def)
  let ?m = "max (ilog2 x + 1) (- 1074)"
  have "x \<le> 2 powi (ilog2 x + 1)" using ilog2_bounds(2) [OF assms(1)] by simp
  also have "\<dots> \<le> 2 powi ?m" by (intro power_int_increasing) auto
  finally have "rnd_pos x \<le> 2 powi ?m"
    using assms(1) by (intro rnd_pos_le_pow2) (auto simp: ulp_exp_def)
  also have "\<dots> \<le> 2 powi ilog2 y" using e by (intro power_int_increasing) auto
  also have "\<dots> \<le> rnd_pos y"
    using assms e ilog2_bounds(1) [of y] by (intro rnd_pos_ge_pow2) (auto simp: ulp_exp_def)
  finally show ?thesis .
qed

lemma rnd_cases:
  "0 < x \<Longrightarrow> rnd x = (if rnd_pos x < overflow_limit then Fin (rnd_pos x) else PInf)"
  "x < 0 \<Longrightarrow> rnd x = (if rnd_pos (- x) < overflow_limit then Fin (- rnd_pos (- x)) else NInf)"
  by (simp_all add: rnd_def)

lemma rnd_mono:
  assumes "x \<le> y"
  shows "f64_le (rnd x) (rnd y)"
proof -
  consider "0 < x" | "y < 0" | "x \<le> 0" "0 \<le> y" by linarith
  then show ?thesis
  proof cases
    case 1
    with assms rnd_pos_mono [of x y] show ?thesis by (auto simp: rnd_cases)
  next
    case 2
    with assms rnd_pos_mono [of "- y" "- x"] show ?thesis by (auto simp: rnd_cases)
  next
    case 3
    then have "f64_le (rnd x) (Fin 0)" "f64_le (Fin 0) (rnd y)"
      using rnd_pos_nonneg [of "- x"] rnd_pos_nonneg [of y] by (auto simp: rnd_def)
    then show ?thesis by (cases "rnd x"; cases "rnd y") auto
  qed
qed

text \<open>Integers up to \<open>2 ^ 53\<close> are exact.\<close>

lemma rnd_pos_of_nat:
  assumes "0 < n" and "n \<le> 2 ^ 53"
  shows "rnd_pos (of_nat n) = of_nat n"
proof -
  let ?x = "of_nat n :: rat"
  have x: "0 < ?x" using assms by simp
  have le: "?x \<le> 2 ^ 53" using assms(2) by (metis of_nat_le_iff of_nat_numeral of_nat_power)
  have lo: "0 \<le> ilog2 ?x"
  proof (rule ccontr)
    assume "\<not> 0 \<le> ilog2 ?x"
    then have "(2::rat) powi (ilog2 ?x + 1) \<le> 2 powi 0" by (intro power_int_increasing) auto
    with ilog2_bounds(2) [OF x] have "?x < 1" by simp
    with assms show False by (simp add: of_nat_less_1_iff)
  qed
  have hi: "ilog2 ?x \<le> 53"
  proof (rule ccontr)
    assume "\<not> ilog2 ?x \<le> 53"
    then have "(2::rat) powi 54 \<le> 2 powi ilog2 ?x" by (intro power_int_increasing) auto
    with ilog2_bounds(1) [OF x] have "(2::rat) ^ 54 \<le> ?x" by simp
    with le show False by simp
  qed
  have int: "\<exists>m. ?x / 2 powi ulp_exp ?x = of_int m"
  proof (cases "ilog2 ?x = 53")
    case True
    with ilog2_bounds(1) [OF x] le have "?x = 2 ^ 53" by simp
    moreover have "ulp_exp ?x = 1" using True by (simp add: ulp_exp_def)
    ultimately show ?thesis by (intro exI [of _ "2 ^ 52"]) simp
  next
    case False
    with hi lo have u: "ulp_exp ?x = ilog2 ?x - 52" and le0: "ilog2 ?x - 52 \<le> 0"
      by (auto simp: ulp_exp_def)
    have "?x / 2 powi (ilog2 ?x - 52) = ?x * 2 powi (52 - ilog2 ?x)"
      by (simp add: power_int_diff)
    also have "\<dots> = of_int (int n * 2 ^ nat (52 - ilog2 ?x))"
      using le0 by (simp add: power_int_nonneg_exp)
    finally show ?thesis unfolding u by blast
  qed
  then obtain m where "?x / 2 powi ulp_exp ?x = of_int m" ..
  then show ?thesis by (simp add: rnd_pos_def) (simp add: field_simps)
qed

lemma rnd_of_nat: "n \<le> 2 ^ 53 \<Longrightarrow> rnd (of_nat n) = Fin (of_nat n)"
proof (cases "n = 0")
  case True
  then show ?thesis by (simp add: rnd_def)
next
  case False
  assume le: "n \<le> 2 ^ 53"
  then have "(of_nat n :: rat) \<le> 2 ^ 53" by (metis of_nat_le_iff of_nat_numeral of_nat_power)
  then have "(of_nat n :: rat) < overflow_limit" by (rule le_less_trans) (simp add: overflow_limit_def)
  with False le show ?thesis by (simp add: rnd_def rnd_pos_of_nat)
qed

lemma rnd_numeral: "numeral k \<le> (2::nat) ^ 53 \<Longrightarrow> rnd (numeral k) = Fin (numeral k)"
  using rnd_of_nat [of "numeral k"] by simp

lemma rnd_one [simp]: "rnd 1 = Fin 1"
  using rnd_of_nat [of 1] by simp

lemma rnd_zero [simp]: "rnd 0 = Fin 0"
  by (simp add: rnd_def)

lemma rnd_nonneg: "0 \<le> x \<Longrightarrow> rnd x = Fin y \<Longrightarrow> 0 \<le> y"
  using rnd_mono [of 0 x] by simp

lemma rnd_le_one: "0 \<le> x \<Longrightarrow> x \<le> 1 \<Longrightarrow> \<exists>y. rnd x = Fin y \<and> 0 \<le> y \<and> y \<le> 1"
  using rnd_mono [of 0 x] rnd_mono [of x 1] by (cases "rnd x") auto

lemma rnd_pow2_64: "rnd (2 ^ 64) = Fin (2 ^ 64)"
  by code_simp

lemma f64_of_nat_finite:
  assumes "n \<le> 2 ^ 64"
  obtains y where "f64_of_nat n = Fin y" and "0 \<le> y"
proof -
  from assms have "(of_nat n :: rat) \<le> 2 ^ 64" by (metis of_nat_le_iff of_nat_numeral of_nat_power)
  from rnd_mono [OF this] rnd_mono [of 0 "of_nat n"] rnd_pow2_64 show thesis
    by (cases "rnd (of_nat n)") (auto simp: f64_of_nat_def intro: that)
qed

lemma f64_of_nat_mono: "m \<le> n \<Longrightarrow> f64_le (f64_of_nat m) (f64_of_nat n)"
  unfolding f64_of_nat_def by (rule rnd_mono) simp

lemma f64_to_u16_le:
  assumes "f64_le x (Fin (of_nat n))" and "n \<le> 65535"
  shows "unat (f64_to_u16 x) \<le> n"
proof (cases x)
  case (Fin a)
  show ?thesis
  proof (cases "0 < a \<and> a < 65535")
    case True
    have fl: "0 \<le> \<lfloor>a\<rfloor>" "\<lfloor>a\<rfloor> \<le> int n"
      using assms Fin True by (auto simp: floor_le_iff zero_le_floor)
    have "\<lfloor>a\<rfloor> mod 65536 = \<lfloor>a\<rfloor>"
      using fl assms(2) by (intro mod_pos_pos_trivial) linarith+
    then have "unat (word_of_int \<lfloor>a\<rfloor> :: u16) = nat \<lfloor>a\<rfloor>"
      by (simp add: unat_eq_nat_uint uint_word_of_int_eq take_bit_eq_mod)
    with Fin True fl show ?thesis by simp
  next
    case False
    with Fin assms show ?thesis by auto
  qed
qed (use assms in auto)

lemma f64_le_trans: "f64_le a b \<Longrightarrow> f64_le b c \<Longrightarrow> f64_le a c"
  by (cases a; cases b; cases c) auto

end
