(* ===== verification/Sched.thy ===== *)
theory Sched
  imports Routing F64
begin

text \<open>
  The frontend proxy's scheduler, \<open>src/rusty-workers-proxy/src/sched.rs\<close>. An \<open>Arc<AppState>\<close>
  is an address in \<open>app_heap\<close>, so that a request that holds an application still reaches it
  after the cache dropped it. The caches (\<open>lru_time_cache\<close>), the remote procedure calls to the
  runtimes, \<open>rand\<close>'s weighted sampling, \<open>hyper\<close>'s header and status conversions and the clock
  are parameters. A background lookup that a request waits for runs to its end before the
  request goes on. Log output is not modelled.
\<close>

section \<open>Interfaces that the scheduler calls\<close>

text \<open>\<open>lru_time_cache::LruCache\<close>, without expiry as the proxy creates it.\<close>

record ('c, 'k, 'v) lru_ops =
  lru_get :: "'c \<Rightarrow> 'k \<Rightarrow> 'v option \<times> 'c"
  lru_peek :: "'c \<Rightarrow> 'k \<Rightarrow> 'v option"
  lru_insert :: "'c \<Rightarrow> 'k \<Rightarrow> 'v \<Rightarrow> 'c"
  lru_remove :: "'c \<Rightarrow> 'k \<Rightarrow> 'v option \<times> 'c"
  lru_entries :: "'c \<Rightarrow> ('k \<times> 'v) list" \<comment> \<open>\<open>peek_iter\<close>\<close>
  lru_iter :: "'c \<Rightarrow> ('k \<times> 'v) list \<times> 'c" \<comment> \<open>also refreshes the entries\<close>

text \<open>Its documented behaviour, as far as the code relies on it.\<close>

definition lru_laws :: "('c, 'k, 'v) lru_ops \<Rightarrow> bool" where
  "lru_laws ops \<longleftrightarrow>
     (\<forall>c k v. fst (lru_get ops c k) = Some v \<longleftrightarrow> (k, v) \<in> set (lru_entries ops c)) \<and>
     (\<forall>c k. set (lru_entries ops (snd (lru_get ops c k))) = set (lru_entries ops c)) \<and>
     (\<forall>c k v. lru_peek ops c k = Some v \<longleftrightarrow> (k, v) \<in> set (lru_entries ops c)) \<and>
     (\<forall>c. set (fst (lru_iter ops c)) = set (lru_entries ops c)) \<and>
     (\<forall>c. set (lru_entries ops (snd (lru_iter ops c))) = set (lru_entries ops c)) \<and>
     (\<forall>c k v. (k, v) \<in> set (lru_entries ops (lru_insert ops c k v))) \<and>
     (\<forall>c k v. set (lru_entries ops (lru_insert ops c k v)) \<subseteq>
        insert (k, v) {e \<in> set (lru_entries ops c). fst e \<noteq> k}) \<and>
     (\<forall>c k. set (lru_entries ops (snd (lru_remove ops c k))) =
        {e \<in> set (lru_entries ops c). fst e \<noteq> k})"

section \<open>State\<close>

datatype SchedError =
    NoAvailableInstance
  | NoRouteMapping
  | RequestBodyTooLarge
  | RequestFailedAfterRetries

text \<open>
  \<open>anyhow::Error\<close>: a scheduler error, or any other error by its text. A panic aborts the
  process (\<open>panic = "abort"\<close>).
\<close>

datatype ProxyError =
    ESched SchedError
  | EGeneric GenericError
  | EOther string
  | EPanic string

record LocalConfig =
  runtime_cluster :: "SocketAddr list"
  max_ready_instances_per_app :: usize
  ready_instance_expiration_ms :: u64
  request_timeout_ms :: u64
  max_request_body_size_bytes :: u64
  dropout_rate :: f64 \<comment> \<open>an \<open>f32\<close>, which is only compared\<close>
  route_cache_size :: usize
  app_cache_size :: usize

text \<open>A client is known by the connection it owns; an \<open>Instant\<close> counts nanoseconds.\<close>

type_synonym RuntimeServiceClient = nat
type_synonym Instant = nat

record RtState =
  rs_client :: RuntimeServiceClient
  rs_load :: u16

record ReadyInstance =
  ri_rtid :: RuntimeId
  ri_last_active :: Instant
  ri_handle :: WorkerHandle
  ri_client :: RuntimeServiceClient

record AppState =
  as_id :: AppId
  as_config :: WorkerConfiguration
  as_bundle_id :: string
  as_bundle :: bytes
  ready_instances :: "ReadyInstance list"
  as_start_time :: Instant

record ('ac, 'rc) Scheduler =
  sc_local_config :: LocalConfig
  sc_worker_config :: WorkerConfiguration
  sc_clients :: "(RuntimeId, RtState) BTreeMap"
  sc_apps :: 'ac
  sc_route_cache :: 'rc
  sc_app_heap :: "AppState list"
  sc_terminate_queue :: "ReadyInstance list"
  sc_kv_client :: db

definition Scheduler_new ::
  "(usize \<Rightarrow> 'ac) \<Rightarrow> (usize \<Rightarrow> 'rc) \<Rightarrow> WorkerConfiguration \<Rightarrow> LocalConfig \<Rightarrow> db \<Rightarrow> ('ac, 'rc) Scheduler"
  where
  "Scheduler_new apps_with_capacity routes_with_capacity worker_config local_config kv_client =
     \<lparr>sc_local_config = local_config, sc_worker_config = worker_config, sc_clients = [],
      sc_apps = apps_with_capacity (app_cache_size local_config),
      sc_route_cache = routes_with_capacity (route_cache_size local_config),
      sc_app_heap = [], sc_terminate_queue = [], sc_kv_client = kv_client\<rparr>"

section \<open>Ready instances\<close>

definition is_usable :: "LocalConfig \<Rightarrow> Instant \<Rightarrow> ReadyInstance \<Rightarrow> bool" where
  "is_usable cfg current inst =
     (if current - ri_last_active inst > unat (ready_instance_expiration_ms cfg) * 1000000
      then False else True)"

definition update_last_active :: "Instant \<Rightarrow> ReadyInstance \<Rightarrow> ReadyInstance" where
  "update_last_active now inst = inst\<lparr>ri_last_active := now\<rparr>"

text \<open>\<open>terminate_queue\<close> is a channel of 1000 items; \<open>try_send\<close> on a full one loses the item.\<close>

definition terminate_capacity :: nat where
  "terminate_capacity = 1000"

definition terminate_try_send :: "ReadyInstance \<Rightarrow> ReadyInstance list \<Rightarrow> ReadyInstance list" where
  "terminate_try_send inst q = (if length q < terminate_capacity then q @ [inst] else q)"

fun gc_overflow ::
  "nat \<Rightarrow> ReadyInstance list \<Rightarrow> ReadyInstance list \<Rightarrow> ReadyInstance list \<times> ReadyInstance list" where
  "gc_overflow mx [] q = ([], q)"
| "gc_overflow mx (x # ready) q =
     (if length (x # ready) > mx then gc_overflow mx ready (terminate_try_send x q)
      else (x # ready, q))"

text \<open>Each turn of the second loop reads the clock again: \<open>clock i\<close> is the \<open>i\<close>-th reading.\<close>

fun gc_expired ::
  "LocalConfig \<Rightarrow> (nat \<Rightarrow> Instant) \<Rightarrow> nat \<Rightarrow> ReadyInstance list \<Rightarrow> ReadyInstance list
    \<Rightarrow> ReadyInstance list \<times> ReadyInstance list" where
  "gc_expired cfg clock i [] q = ([], q)"
| "gc_expired cfg clock i (x # ready) q =
     (if \<not> is_usable cfg (clock i) x
      then gc_expired cfg clock (Suc i) ready (terminate_try_send x q)
      else (x # ready, q))"

definition gc_ready_instances ::
  "LocalConfig \<Rightarrow> (nat \<Rightarrow> Instant) \<Rightarrow> ReadyInstance list \<Rightarrow> ReadyInstance list
    \<Rightarrow> ReadyInstance list \<times> ReadyInstance list" where
  "gc_ready_instances cfg clock ready q =
     (case gc_overflow (unat (max_ready_instances_per_app cfg)) ready q of
        (ready1, q1) \<Rightarrow> gc_expired cfg clock 0 ready1 q1)"

text \<open>\<open>sample\<close> is the draw from \<open>Open01\<close>.\<close>

definition pool_instance ::
  "LocalConfig \<Rightarrow> (nat \<Rightarrow> Instant) \<Rightarrow> f64 \<Rightarrow> ReadyInstance \<Rightarrow> ReadyInstance list \<Rightarrow> ReadyInstance list
    \<Rightarrow> ReadyInstance list \<times> ReadyInstance list" where
  "pool_instance cfg clock sample inst ready q =
     (if f64_lt (dropout_rate cfg) sample
      then gc_ready_instances cfg clock (ready @ [inst]) q
      else gc_ready_instances cfg clock ready (terminate_try_send inst q))"

section \<open>Choosing a runtime\<close>

text \<open>\<open>(u16::MAX - load) as u32 + 10000\<close>.\<close>

definition runtime_weight :: "RtState \<Rightarrow> u32" where
  "runtime_weight rt = ucast (0xFFFF - rs_load rt :: u16) + 10000"

text \<open>
  What one call of \<open>get_instance\<close> meets: clock readings, the index that the weighted
  distribution yields (\<open>None\<close> where \<open>WeightedIndex::new\<close> fails) and the outcome of the
  \<open>spawn_worker\<close> call (an error text of the transport, or the runtime's result).
\<close>

record spawn_env =
  se_gc_clock :: "nat \<Rightarrow> Instant"
  se_now :: Instant
  se_weighted_index :: "u32 list \<Rightarrow> nat option"
  se_spawn_worker :: "RuntimeServiceClient \<Rightarrow> string \<Rightarrow> WorkerConfiguration \<Rightarrow> bytes
    \<Rightarrow> string + WorkerHandle GenericResult"

text \<open>\<open>WeightedIndex\<close> as documented: positive weights with a sum that fits give a valid index.\<close>

definition weighted_index_laws :: "(u32 list \<Rightarrow> nat option) \<Rightarrow> bool" where
  "weighted_index_laws f \<longleftrightarrow>
     (\<forall>ws. ws \<noteq> [] \<longrightarrow> (\<forall>w \<in> set ws. w \<noteq> 0) \<longrightarrow> sum_list (map unat ws) < 2 ^ 32 \<longrightarrow>
        (\<exists>i < length ws. f ws = Some i))"

definition spawn_on_runtime ::
  "spawn_env \<Rightarrow> (RuntimeId, RtState) BTreeMap \<Rightarrow> AppState \<Rightarrow> ProxyError + ReadyInstance" where
  "spawn_on_runtime env clients app =
     (if length clients = 0 then Inl (ESched NoAvailableInstance)
      else
        (case se_weighted_index env (map (\<lambda>x. runtime_weight (snd x)) clients) of
           None \<Rightarrow> Inl (EPanic ''WeightedIndex::new failed'')
         | Some index \<Rightarrow>
             if index \<ge> length clients then Inl (EPanic ''index out of bounds'')
             else
               (case clients ! index of (rtid, rt) \<Rightarrow>
                  (case se_spawn_worker env (rs_client rt) (appid_str (as_id app)) (as_config app)
                          (as_bundle app) of
                     Inl e \<Rightarrow> Inl (EOther e)
                   | Inr (Inl e) \<Rightarrow> Inl (EGeneric e)
                   | Inr (Inr handle) \<Rightarrow>
                       Inr \<lparr>ri_rtid = rtid, ri_last_active = se_now env, ri_handle = handle,
                            ri_client = rs_client rt\<rparr>))))"

definition get_instance ::
  "spawn_env \<Rightarrow> LocalConfig \<Rightarrow> (RuntimeId, RtState) BTreeMap \<Rightarrow> AppState \<Rightarrow> ReadyInstance list
    \<Rightarrow> (ProxyError + ReadyInstance) \<times> AppState \<times> ReadyInstance list" where
  "get_instance env cfg clients app q =
     (case gc_ready_instances cfg (se_gc_clock env) (ready_instances app) q of
        (inst # rest, q') \<Rightarrow>
          (Inr (update_last_active (se_now env) inst), app\<lparr>ready_instances := rest\<rparr>, q')
      | ([], q') \<Rightarrow>
          (spawn_on_runtime env clients app, app\<lparr>ready_instances := []\<rparr>, q'))"

section \<open>Runtime discovery and health\<close>

text \<open>The loads the runtimes report: \<open>None\<close> where the call or the runtime fails.\<close>

fun query_loop ::
  "(RuntimeId \<Rightarrow> RtState \<Rightarrow> u16 option) \<Rightarrow> (RuntimeId, RtState) BTreeMap
    \<Rightarrow> (RuntimeId, RtState) BTreeMap \<times> RuntimeId list" where
  "query_loop load [] = ([], [])"
| "query_loop load ((rtid, rt) # rest) =
     (case query_loop load rest of (rest', to_drop) \<Rightarrow>
        (case load rtid rt of
           Some l \<Rightarrow> ((rtid, rt\<lparr>rs_load := l\<rparr>) # rest', to_drop)
         | None \<Rightarrow> ((rtid, rt) # rest', rtid # to_drop)))"

definition query_runtimes ::
  "(RuntimeId \<Rightarrow> RtState \<Rightarrow> u16 option) \<Rightarrow> ('ac, 'rc) Scheduler \<Rightarrow> ('ac, 'rc) Scheduler" where
  "query_runtimes load s =
     (case query_loop load (sc_clients s) of (clients, to_drop) \<Rightarrow>
        s\<lparr>sc_clients := fold bt_remove to_drop clients\<rparr>)"

text \<open>\<open>connect addr\<close>: the identifier and client of the runtime behind an address, if it answers.\<close>

fun add_discovered ::
  "(RuntimeId \<times> RuntimeServiceClient) option list \<Rightarrow> (RuntimeId, RtState) BTreeMap
    \<Rightarrow> (RuntimeId, RtState) BTreeMap" where
  "add_discovered [] clients = clients"
| "add_discovered (None # items) clients = add_discovered items clients"
| "add_discovered (Some (i, client) # items) clients =
     add_discovered items
       (if \<not> bt_contains_key clients i
        then bt_insert i \<lparr>rs_client = client, rs_load = 0\<rparr> clients else clients)"

definition discover_runtimes ::
  "(SocketAddr \<Rightarrow> (RuntimeId \<times> RuntimeServiceClient) option) \<Rightarrow> ('ac, 'rc) Scheduler
    \<Rightarrow> ('ac, 'rc) Scheduler" where
  "discover_runtimes connect s =
     s\<lparr>sc_clients := add_discovered (map connect (runtime_cluster (sc_local_config s))) (sc_clients s)\<rparr>"

section \<open>Background lookups\<close>

type_synonym ('ac, 'rc) sched_ops =
  "('ac, AppId, nat) lru_ops \<times> ('rc, string, (string, AppId) BTreeMap) lru_ops"

definition to_appids :: "(string, string) BTreeMap \<Rightarrow> (string, AppId) BTreeMap" where
  "to_appids m = bt_collect (map (\<lambda>(k, v). (k, AppId v)) m)"

definition do_lookup_route_background ::
  "('ac, 'rc) sched_ops \<Rightarrow> string \<Rightarrow> string \<Rightarrow> ('ac, 'rc) Scheduler \<Rightarrow> ('ac, 'rc) Scheduler" where
  "do_lookup_route_background ops domain path s =
     (case lru_get (snd ops) (sc_route_cache s) domain of
        (Some _, rc) \<Rightarrow> s\<lparr>sc_route_cache := rc\<rparr>
      | (None, rc) \<Rightarrow>
          (case route_mapping_list_for_domain domain (sc_kv_client s) of
             (Inr m, kv) \<Rightarrow>
               s\<lparr>sc_route_cache := lru_insert (snd ops) rc domain (to_appids m), sc_kv_client := kv\<rparr>
           | (Inl _, kv) \<Rightarrow> s\<lparr>sc_route_cache := rc, sc_kv_client := kv\<rparr>))"

definition route_gc_domain ::
  "('ac, 'rc) sched_ops \<Rightarrow> string \<Rightarrow> ('ac, 'rc) Scheduler \<Rightarrow> ('ac, 'rc) Scheduler" where
  "route_gc_domain ops domain s =
     (case route_mapping_list_for_domain domain (sc_kv_client s) of
        (Inr m, kv) \<Rightarrow>
          (case lru_peek (snd ops) (sc_route_cache s) domain of
             Some entry \<Rightarrow>
               if entry \<noteq> to_appids m
               then s\<lparr>sc_route_cache := snd (lru_remove (snd ops) (sc_route_cache s) domain),
                      sc_kv_client := kv\<rparr>
               else s\<lparr>sc_kv_client := kv\<rparr>
           | None \<Rightarrow> s\<lparr>sc_kv_client := kv\<rparr>)
      | (Inl _, kv) \<Rightarrow> s\<lparr>sc_kv_client := kv\<rparr>)"

text \<open>One turn of the loop of \<open>route_cache_gc_task\<close>.\<close>

definition route_cache_gc_round ::
  "('ac, 'rc) sched_ops \<Rightarrow> ('ac, 'rc) Scheduler \<Rightarrow> ('ac, 'rc) Scheduler" where
  "route_cache_gc_round ops s =
     fold (route_gc_domain ops) (map fst (lru_entries (snd ops) (sc_route_cache s))) s"

definition decode_kv_namespaces :: "KvNamespaceConfig list \<Rightarrow> (string, string) BTreeMap" where
  "decode_kv_namespaces namespaces = bt_collect (map (\<lambda>x. (kvn_name x, kvn_id x)) namespaces)"

definition app_changed :: "AppConfig \<Rightarrow> string \<Rightarrow> WorkerConfiguration \<Rightarrow> bool" where
  "app_changed config bundle_id worker_config \<longleftrightarrow>
     ac_bundle_id config \<noteq> bundle_id \<or> ac_env config \<noteq> wc_env worker_config \<or>
     decode_kv_namespaces (ac_kv_namespaces config) \<noteq> wc_kv_namespaces worker_config"

definition app_gc_one ::
  "json_ops \<Rightarrow> ('ac, 'rc) sched_ops \<Rightarrow> AppId \<times> string \<times> WorkerConfiguration
    \<Rightarrow> ('ac, 'rc) Scheduler \<Rightarrow> ('ac, 'rc) Scheduler" where
  "app_gc_one js ops item s =
     (case item of (i, bundle_id, worker_config) \<Rightarrow>
        (case app_metadata_get js (appid_str i) (sc_kv_client s) of
           (Inr (Some config), kv) \<Rightarrow>
             if app_changed config bundle_id worker_config
             then s\<lparr>sc_apps := snd (lru_remove (fst ops) (sc_apps s) i), sc_kv_client := kv\<rparr>
             else s\<lparr>sc_kv_client := kv\<rparr>
         | (Inr None, kv) \<Rightarrow>
             s\<lparr>sc_apps := snd (lru_remove (fst ops) (sc_apps s) i), sc_kv_client := kv\<rparr>
         | (Inl _, kv) \<Rightarrow> s\<lparr>sc_kv_client := kv\<rparr>))"

text \<open>One turn of the loop of \<open>apps_gc_task\<close>.\<close>

definition apps_gc_round ::
  "json_ops \<Rightarrow> ('ac, 'rc) sched_ops \<Rightarrow> ('ac, 'rc) Scheduler \<Rightarrow> ('ac, 'rc) Scheduler" where
  "apps_gc_round js ops s =
     (case lru_iter (fst ops) (sc_apps s) of (entries, ac) \<Rightarrow>
        fold (app_gc_one js ops)
          (map (\<lambda>(k, a). (k, as_bundle_id (sc_app_heap s ! a), as_config (sc_app_heap s ! a))) entries)
          (s\<lparr>sc_apps := ac\<rparr>))"

definition do_lookup_app_background ::
  "json_ops \<Rightarrow> ('ac, 'rc) sched_ops \<Rightarrow> Instant \<Rightarrow> AppId \<Rightarrow> ('ac, 'rc) Scheduler \<Rightarrow> ('ac, 'rc) Scheduler"
  where
  "do_lookup_app_background js ops now i s =
     (case lru_get (fst ops) (sc_apps s) i of
        (Some _, ac) \<Rightarrow> s\<lparr>sc_apps := ac\<rparr>
      | (None, ac) \<Rightarrow>
          (case app_metadata_get js (appid_str i) (sc_kv_client s) of
             (Inl _, kv) \<Rightarrow> s\<lparr>sc_apps := ac, sc_kv_client := kv\<rparr>
           | (Inr None, kv) \<Rightarrow> s\<lparr>sc_apps := ac, sc_kv_client := kv\<rparr>
           | (Inr (Some config), kv) \<Rightarrow>
               (case app_bundle_get (ac_bundle_id config) kv of
                  (Inl _, kv2) \<Rightarrow> s\<lparr>sc_apps := ac, sc_kv_client := kv2\<rparr>
                | (Inr None, kv2) \<Rightarrow> s\<lparr>sc_apps := ac, sc_kv_client := kv2\<rparr>
                | (Inr (Some bundle), kv2) \<Rightarrow>
                    let target_config =
                          (sc_worker_config s)
                            \<lparr>wc_env := ac_env config,
                             wc_kv_namespaces := decode_kv_namespaces (ac_kv_namespaces config)\<rparr>;
                        state = \<lparr>as_id = i, as_config = target_config,
                                 as_bundle_id = ac_bundle_id config, as_bundle = bundle,
                                 ready_instances = [], as_start_time = now\<rparr>
                    in s\<lparr>sc_apps := lru_insert (fst ops) ac i (length (sc_app_heap s)),
                         sc_app_heap := sc_app_heap s @ [state], sc_kv_client := kv2\<rparr>)))"

end
