(* ===== verification/Proxy.thy ===== *)
theory Proxy
  imports Sched
begin

text \<open>
  The request path of the frontend proxy: \<open>Scheduler::handle_request\<close> and
  \<open>SchedError::build_response\<close> of \<open>src/rusty-workers-proxy/src/sched.rs\<close>, and the service of
  \<open>src/rusty-workers-proxy/src/main.rs\<close> around it. The conversions of the \<open>http\<close> crate are
  parameters (\<open>http_ops\<close>); a request meets an environment that fixes, per attempt, what the
  runtimes answer. The steps of one request are taken without steps of other requests in
  between; \<open>Proxy_Concurrent\<close> has the interleavings of the attempts.
\<close>

section \<open>HTTP messages\<close>

text \<open>A \<open>HeaderMap\<close> is the sequence of its names and values; names are lower case.\<close>

type_synonym HeaderMap = "(string \<times> bytes) list"

record http_ops =
  hv_to_str :: "bytes \<Rightarrow> string option"
  hv_from_bytes :: "bytes \<Rightarrow> bytes option"
  hn_from_bytes :: "bytes \<Rightarrow> string option"
  status_from_u16 :: "u16 \<Rightarrow> u16 option"
  canonical_reason :: "u16 \<Rightarrow> string option"

record Request =
  hq_method :: string
  hq_uri :: string
  hq_path :: string
  hq_headers :: HeaderMap
  hq_body :: "(string + bytes) list"

record Response =
  hr_status :: u16
  hr_headers :: HeaderMap
  hr_body :: bytes

definition Response_new :: "bytes \<Rightarrow> Response" where
  "Response_new body = \<lparr>hr_status = 200, hr_headers = [], hr_body = body\<rparr>"

definition header_get :: "HeaderMap \<Rightarrow> string \<Rightarrow> bytes option" where
  "header_get hs k = map_of hs k"

definition header_insert :: "string \<Rightarrow> bytes \<Rightarrow> HeaderMap \<Rightarrow> HeaderMap" where
  "header_insert k v hs = filter (\<lambda>h. fst h \<noteq> k) hs @ [(k, v)]"

definition header_append :: "string \<Rightarrow> bytes \<Rightarrow> HeaderMap \<Rightarrow> HeaderMap" where
  "header_append k v hs = hs @ [(k, v)]"

section \<open>Reading the request\<close>

definition split_first :: "char \<Rightarrow> string \<Rightarrow> string" where
  "split_first c s = takeWhile (\<lambda>x. x \<noteq> c) s"

definition request_host :: "http_ops \<Rightarrow> Request \<Rightarrow> string" where
  "request_host http req =
     split_first (CHR '':'')
       (case header_get (hq_headers req) ''host'' of
          None \<Rightarrow> []
        | Some x \<Rightarrow> (case hv_to_str http x of None \<Rightarrow> [] | Some s \<Rightarrow> s))"

fun collect_headers ::
  "http_ops \<Rightarrow> HeaderMap \<Rightarrow> (string, string list) BTreeMap
    \<Rightarrow> ProxyError + (string, string list) BTreeMap" where
  "collect_headers http [] acc = Inr acc"
| "collect_headers http ((k, v) # hs) acc =
     (case hv_to_str http v of
        None \<Rightarrow> Inl (EOther ''failed to convert header to a str'')
      | Some s \<Rightarrow>
          collect_headers http hs
            (bt_insert k ((case bt_get acc k of None \<Rightarrow> [] | Some vs \<Rightarrow> vs) @ [s]) acc))"

text \<open>The body stream is read to its end; an error stays unless a later one replaces it.\<close>

fun read_body ::
  "u64 \<Rightarrow> (string + bytes) list \<Rightarrow> bytes \<Rightarrow> ProxyError option \<Rightarrow> ProxyError + bytes" where
  "read_body mx [] full_body body_error =
     (case body_error of None \<Rightarrow> Inr full_body | Some e \<Rightarrow> Inl e)"
| "read_body mx (Inr x # chunks) full_body body_error =
     (if length full_body + length x > unat mx
      then read_body mx chunks full_body (Some (ESched RequestBodyTooLarge))
      else read_body mx chunks (full_body @ x) body_error)"
| "read_body mx (Inl e # chunks) full_body body_error =
     read_body mx chunks full_body (Some (EOther e))"

section \<open>Routing to an application\<close>

definition cached_appid ::
  "('ac, 'rc) sched_ops \<Rightarrow> string \<Rightarrow> string \<Rightarrow> ('ac, 'rc) Scheduler
    \<Rightarrow> AppId option \<times> ('ac, 'rc) Scheduler" where
  "cached_appid ops host path s =
     (case lru_get (snd ops) (sc_route_cache s) host of (m, rc) \<Rightarrow>
        ((case m of None \<Rightarrow> None | Some submappings \<Rightarrow> lookup_submappings path submappings),
         s\<lparr>sc_route_cache := rc\<rparr>))"

text \<open>\<open>queue_free\<close>: whether \<open>lookup_route_tx\<close> takes the query.\<close>

definition resolve_route ::
  "('ac, 'rc) sched_ops \<Rightarrow> bool \<Rightarrow> string \<Rightarrow> string \<Rightarrow> ('ac, 'rc) Scheduler
    \<Rightarrow> AppId option \<times> ('ac, 'rc) Scheduler" where
  "resolve_route ops queue_free host path s =
     (case cached_appid ops host path s of
        (Some a, s1) \<Rightarrow> (Some a, s1)
      | (None, s1) \<Rightarrow>
          if queue_free
          then cached_appid ops host path (do_lookup_route_background ops host path s1)
          else (None, s1))"

definition cached_app ::
  "('ac, 'rc) sched_ops \<Rightarrow> AppId \<Rightarrow> ('ac, 'rc) Scheduler \<Rightarrow> nat option \<times> ('ac, 'rc) Scheduler" where
  "cached_app ops appid s =
     (case lru_get (fst ops) (sc_apps s) appid of (a, ac) \<Rightarrow> (a, s\<lparr>sc_apps := ac\<rparr>))"

definition resolve_app ::
  "json_ops \<Rightarrow> ('ac, 'rc) sched_ops \<Rightarrow> bool \<Rightarrow> Instant \<Rightarrow> AppId \<Rightarrow> ('ac, 'rc) Scheduler
    \<Rightarrow> nat option \<times> ('ac, 'rc) Scheduler" where
  "resolve_app js ops queue_free now appid s =
     (case cached_app ops appid s of
        (Some a, s1) \<Rightarrow> (Some a, s1)
      | (None, s1) \<Rightarrow>
          if queue_free
          then cached_app ops appid (do_lookup_app_background js ops now appid s1)
          else (None, s1))"

section \<open>Attempts\<close>

record attempt_env =
  at_spawn :: spawn_env
  at_fetch :: "RuntimeServiceClient \<Rightarrow> WorkerHandle \<Rightarrow> RequestObject
    \<Rightarrow> string + ResponseObject ExecutionResult"
  at_pool_clock :: "nat \<Rightarrow> Instant"
  at_sample :: f64

fun append_values ::
  "http_ops \<Rightarrow> string \<Rightarrow> string list \<Rightarrow> HeaderMap \<Rightarrow> ProxyError + HeaderMap" where
  "append_values http k [] hs = Inr hs"
| "append_values http k (v # vs) hs =
     (case hn_from_bytes http (as_bytes k) of
        None \<Rightarrow> Inl (EOther ''invalid HTTP header name'')
      | Some name \<Rightarrow>
          (case hv_from_bytes http (as_bytes v) of
             None \<Rightarrow> Inl (EOther ''failed to parse header value'')
           | Some val \<Rightarrow> append_values http k vs (header_append name val hs)))"

fun append_headers ::
  "http_ops \<Rightarrow> (string, string list) BTreeMap \<Rightarrow> HeaderMap \<Rightarrow> ProxyError + HeaderMap" where
  "append_headers http [] hs = Inr hs"
| "append_headers http ((k, values) # m) hs =
     bind_res (append_values http k values hs) (append_headers http m)"

definition build_fetch_response :: "http_ops \<Rightarrow> ResponseObject \<Rightarrow> ProxyError + Response" where
  "build_fetch_response http fetch_res =
     (case res_body fetch_res of Binary body \<Rightarrow>
        (case status_from_u16 http (res_status fetch_res) of
           None \<Rightarrow> Inl (EOther ''invalid status code'')
         | Some st \<Rightarrow>
             bind_res (append_headers http (res_headers fetch_res) []) (\<lambda>hs.
               Inr \<lparr>hr_status = st,
                    hr_headers = header_insert ''server'' (as_bytes ''rworkers'') hs,
                    hr_body = body\<rparr>)))"

text \<open>\<open>AppState::pool_instance\<close> and \<open>get_instance\<close> on the application at an address.\<close>

definition pool_back ::
  "attempt_env \<Rightarrow> nat \<Rightarrow> ReadyInstance \<Rightarrow> ('ac, 'rc) Scheduler \<Rightarrow> ('ac, 'rc) Scheduler" where
  "pool_back env a inst s =
     (case pool_instance (sc_local_config s) (at_pool_clock env) (at_sample env) inst
             (ready_instances (sc_app_heap s ! a)) (sc_terminate_queue s) of
        (ready, q) \<Rightarrow>
          s\<lparr>sc_app_heap := (sc_app_heap s)[a := (sc_app_heap s ! a)\<lparr>ready_instances := ready\<rparr>],
            sc_terminate_queue := q\<rparr>)"

definition take_instance ::
  "attempt_env \<Rightarrow> nat \<Rightarrow> ('ac, 'rc) Scheduler
    \<Rightarrow> (ProxyError + ReadyInstance) \<times> ('ac, 'rc) Scheduler" where
  "take_instance env a s =
     (case get_instance (at_spawn env) (sc_local_config s) (sc_clients s) (sc_app_heap s ! a)
             (sc_terminate_queue s) of
        (r, app, q) \<Rightarrow>
          (r, s\<lparr>sc_app_heap := (sc_app_heap s)[a := app], sc_terminate_queue := q\<rparr>))"

text \<open>\<open>for _ in 0..3usize\<close>: \<open>n\<close> attempts are left, \<open>env i\<close> is what attempt \<open>i\<close> meets.\<close>

fun attempts ::
  "http_ops \<Rightarrow> (nat \<Rightarrow> attempt_env) \<Rightarrow> RequestObject \<Rightarrow> nat \<Rightarrow> nat \<Rightarrow> nat \<Rightarrow> ('ac, 'rc) Scheduler
    \<Rightarrow> (ProxyError + Response) \<times> ('ac, 'rc) Scheduler" where
  "attempts http env target_req a 0 i s = (Inl (ESched RequestFailedAfterRetries), s)"
| "attempts http env target_req a (Suc n) i s =
     (case take_instance (env i) a s of
        (Inl e, s1) \<Rightarrow> (Inl e, s1)
      | (Inr inst, s1) \<Rightarrow>
          (case at_fetch (env i) (ri_client inst) (ri_handle inst) target_req of
             Inl e \<Rightarrow>
               attempts http env target_req a n (Suc i)
                 (s1\<lparr>sc_clients := bt_remove (ri_rtid inst) (sc_clients s1)\<rparr>)
           | Inr (Inl NoSuchWorker) \<Rightarrow> attempts http env target_req a n (Suc i) s1
           | Inr (Inl e) \<Rightarrow>
               (Inl (ESched RequestFailedAfterRetries),
                if \<not> terminates_worker e then pool_back (env i) a inst s1 else s1)
           | Inr (Inr fetch_res) \<Rightarrow>
               (build_fetch_response http fetch_res, pool_back (env i) a inst s1)))"

section \<open>handle_request\<close>

record request_env =
  rq_route_queue_free :: bool
  rq_app_queue_free :: bool
  rq_now :: Instant
  rq_attempt :: "nat \<Rightarrow> attempt_env"

definition handle_request ::
  "http_ops \<Rightarrow> json_ops \<Rightarrow> ('ac, 'rc) sched_ops \<Rightarrow> request_env \<Rightarrow> Request \<Rightarrow> ('ac, 'rc) Scheduler
    \<Rightarrow> (ProxyError + Response) \<times> ('ac, 'rc) Scheduler" where
  "handle_request http js ops env req s =
     (let host = request_host http req in
      case hv_from_bytes http (as_bytes host) of
        None \<Rightarrow> (Inl (EOther ''failed to parse header value''), s)
      | Some hv \<Rightarrow>
          (let headers1 = header_insert ''host'' hv (hq_headers req) in
           case resolve_route ops (rq_route_queue_free env) host (hq_path req) s of
             (None, s1) \<Rightarrow> (Inl (ESched NoRouteMapping), s1)
           | (Some appid, s1) \<Rightarrow>
               (case collect_headers http headers1 [] of
                  Inl e \<Rightarrow> (Inl e, s1)
                | Inr headers \<Rightarrow>
                    (case read_body (max_request_body_size_bytes (sc_local_config s1))
                            (hq_body req) [] None of
                       Inl e \<Rightarrow> (Inl e, s1)
                     | Inr full_body \<Rightarrow>
                         (let target_req =
                            \<lparr>req_headers = headers, req_method = hq_method req,
                             req_url = ''https://'' @ split_first (CHR '':'') host @ hq_uri req,
                             req_body = Binary full_body\<rparr> in
                          case resolve_app js ops (rq_app_queue_free env) (rq_now env) appid s1 of
                            (None, s2) \<Rightarrow> (Inl (ESched NoRouteMapping), s2)
                          | (Some a, s2) \<Rightarrow> attempts http (rq_attempt env) target_req a 3 0 s2)))))"

section \<open>Responses to errors\<close>

definition error_status :: "SchedError \<Rightarrow> u16" where
  "error_status e =
     (case e of
        NoAvailableInstance \<Rightarrow> 503
      | NoRouteMapping \<Rightarrow> 502
      | RequestBodyTooLarge \<Rightarrow> 413
      | RequestFailedAfterRetries \<Rightarrow> 503)"

definition build_response :: "http_ops \<Rightarrow> SchedError \<Rightarrow> Response" where
  "build_response http e =
     (let status = error_status e;
          res = Response_new (as_bytes (case canonical_reason http status of
                  None \<Rightarrow> ''unknown error'' | Some r \<Rightarrow> r))
      in res\<lparr>hr_status := status,
             hr_headers := header_insert ''server'' (as_bytes ''rworkers'') (hr_headers res)\<rparr>)"

text \<open>The closure that \<open>main\<close> serves requests with; a panic ends the process (\<open>None\<close>).\<close>

definition serve_request ::
  "http_ops \<Rightarrow> json_ops \<Rightarrow> ('ac, 'rc) sched_ops \<Rightarrow> request_env \<Rightarrow> Request \<Rightarrow> ('ac, 'rc) Scheduler
    \<Rightarrow> (Response \<times> ('ac, 'rc) Scheduler) option" where
  "serve_request http js ops env req s =
     (case handle_request http js ops env req s of
        (Inr x, s') \<Rightarrow> Some (x, s')
      | (Inl (EPanic _), s') \<Rightarrow> None
      | (Inl (ESched e), s') \<Rightarrow> Some (build_response http e, s')
      | (Inl _, s') \<Rightarrow>
          Some ((Response_new (as_bytes ''internal server error''))\<lparr>hr_status := 500\<rparr>, s'))"

section \<open>Start of the process\<close>

record ProxyOpt =
  po_fetch_service :: string
  po_runtimes :: string
  po_max_ab_memory_mb :: u32
  po_max_time_ms :: u32
  po_max_io_concurrency :: u32
  po_max_io_per_request :: u32
  po_max_ready_instances_per_app :: usize
  po_ready_instance_expiration_ms :: u64
  po_request_timeout_ms :: u64
  po_max_request_body_size_bytes :: u64
  po_dropout_rate :: f64
  po_route_cache_size :: usize
  po_app_cache_size :: usize

fun split_on :: "char \<Rightarrow> string \<Rightarrow> string list" where
  "split_on c [] = [[]]"
| "split_on c (x # xs) =
     (if x = c then [] # split_on c xs
      else (case split_on c xs of [] \<Rightarrow> [[x]] | w # ws \<Rightarrow> (x # w) # ws))"

text \<open>\<open>lookup_host\<close>: an error, or the addresses of the host.\<close>

fun resolve_cluster ::
  "(string \<Rightarrow> string + SocketAddr list) \<Rightarrow> string list \<Rightarrow> ProxyError + SocketAddr list" where
  "resolve_cluster lookup_host [] = Inr []"
| "resolve_cluster lookup_host (elem # elems) =
     (case lookup_host elem of
        Inl e \<Rightarrow> Inl (EOther e)
      | Inr [] \<Rightarrow> Inl (EPanic (''runtime address lookup failed: '' @ elem))
      | Inr (a # _) \<Rightarrow> bind_res (resolve_cluster lookup_host elems) (\<lambda>as. Inr (a # as)))"

definition proxy_main ::
  "(string \<Rightarrow> string + SocketAddr list) \<Rightarrow> (usize \<Rightarrow> 'ac) \<Rightarrow> (usize \<Rightarrow> 'rc)
    \<Rightarrow> GenericError + db \<Rightarrow> ProxyOpt \<Rightarrow> ProxyError + ('ac, 'rc) Scheduler" where
  "proxy_main lookup_host apps_cap routes_cap connect_db opt =
     bind_res (resolve_cluster lookup_host (split_on (CHR '','') (po_runtimes opt))) (\<lambda>cluster.
     (case connect_db of
        Inl e \<Rightarrow> Inl (EGeneric e)
      | Inr kv_client \<Rightarrow>
          (case lookup_host (po_fetch_service opt) of
             Inl e \<Rightarrow> Inl (EOther e)
           | Inr [] \<Rightarrow> Inl (EPanic ''fetch service unresolved'')
           | Inr (fetch # _) \<Rightarrow>
               Inr (Scheduler_new apps_cap routes_cap
                 \<lparr>executor =
                    \<lparr>max_ab_memory_mb = po_max_ab_memory_mb opt, max_time_ms = po_max_time_ms opt,
                     max_io_concurrency = po_max_io_concurrency opt,
                     max_io_per_request = po_max_io_per_request opt\<rparr>,
                  fetch_service = fetch, wc_env = [], wc_kv_namespaces = []\<rparr>
                 \<lparr>runtime_cluster = cluster,
                  max_ready_instances_per_app = po_max_ready_instances_per_app opt,
                  ready_instance_expiration_ms = po_ready_instance_expiration_ms opt,
                  request_timeout_ms = po_request_timeout_ms opt,
                  max_request_body_size_bytes = po_max_request_body_size_bytes opt,
                  dropout_rate = po_dropout_rate opt, route_cache_size = po_route_cache_size opt,
                  app_cache_size = po_app_cache_size opt\<rparr>
                 kv_client))))"

text \<open>One turn of the loop that keeps the set of runtimes current.\<close>

definition runtimes_round ::
  "(SocketAddr \<Rightarrow> (RuntimeId \<times> RuntimeServiceClient) option)
    \<Rightarrow> (RuntimeId \<Rightarrow> RtState \<Rightarrow> u16 option) \<Rightarrow> ('ac, 'rc) Scheduler \<Rightarrow> ('ac, 'rc) Scheduler" where
  "runtimes_round connect load s = query_runtimes load (discover_runtimes connect s)"

end
