(* ===== verification/Sched_Spec.thy ===== *)
theory Sched_Spec
  imports Proxy "HOL-Library.Multiset"
begin

text \<open>
  Lemmas on the scheduler: what garbage collection of ready instances keeps and drops, the
  weights of the runtimes, the set of known runtimes, and the two caches against the
  database.
\<close>

section \<open>The pool of ready instances\<close>

lemma terminate_try_send_room:
  "length q < terminate_capacity \<Longrightarrow> terminate_try_send x q = q @ [x]"
  by (simp add: terminate_try_send_def)

lemma gc_overflow_correct:
  "gc_overflow mx ready q = (ready', q') \<Longrightarrow>
     length ready' \<le> mx \<and> (\<exists>dropped. ready = dropped @ ready' \<and>
       (length q + length dropped \<le> terminate_capacity \<longrightarrow> q' = q @ dropped))"
proof (induction mx ready q rule: gc_overflow.induct)
  case (2 mx x ready q)
  show ?case
  proof (cases "length (x # ready) > mx")
    case True
    with 2 obtain dropped where "length ready' \<le> mx" "ready = dropped @ ready'"
      and q: "length (terminate_try_send x q) + length dropped \<le> terminate_capacity \<longrightarrow>
        q' = terminate_try_send x q @ dropped"
      by (auto split: if_splits)
    then show ?thesis
      by (auto intro!: exI [of _ "x # dropped"] simp: terminate_try_send_def)
  qed (use 2 in auto)
qed simp

lemma gc_expired_correct:
  "gc_expired cfg clock i ready q = (ready', q') \<Longrightarrow>
     (\<exists>dropped. ready = dropped @ ready' \<and>
       (\<forall>j < length dropped. \<not> is_usable cfg (clock (i + j)) (dropped ! j)) \<and>
       (ready' \<noteq> [] \<longrightarrow> is_usable cfg (clock (i + length dropped)) (hd ready')) \<and>
       (length q + length dropped \<le> terminate_capacity \<longrightarrow> q' = q @ dropped))"
proof (induction cfg clock i ready q rule: gc_expired.induct)
  case (2 cfg clock i x ready q)
  show ?case
  proof (cases "is_usable cfg (clock i) x")
    case False
    with 2 obtain dropped where "ready = dropped @ ready'"
      and u: "\<forall>j < length dropped. \<not> is_usable cfg (clock (Suc i + j)) (dropped ! j)"
      and f: "ready' \<noteq> [] \<longrightarrow> is_usable cfg (clock (Suc i + length dropped)) (hd ready')"
      and q: "length (terminate_try_send x q) + length dropped \<le> terminate_capacity \<longrightarrow>
        q' = terminate_try_send x q @ dropped"
      by (auto split: if_splits)
    with False show ?thesis
      by (intro exI [of _ "x # dropped"])
         (auto simp: nth_Cons terminate_try_send_def split: nat.splits)
  qed (use 2 in auto)
qed simp

lemma gc_ready_instances_correct:
  assumes "gc_ready_instances cfg clock ready q = (ready', q')"
  shows "length ready' \<le> unat (max_ready_instances_per_app cfg)"
    and "\<exists>dropped. ready = dropped @ ready' \<and>
      (length q + length dropped \<le> terminate_capacity \<longrightarrow> q' = q @ dropped)"
    and "ready' \<noteq> [] \<longrightarrow> (\<exists>i \<le> length ready. is_usable cfg (clock i) (hd ready'))"
proof -
  obtain r1 q1 where o: "gc_overflow (unat (max_ready_instances_per_app cfg)) ready q = (r1, q1)"
    by (cases "gc_overflow (unat (max_ready_instances_per_app cfg)) ready q")
  with assms have e: "gc_expired cfg clock 0 r1 q1 = (ready', q')"
    by (simp add: gc_ready_instances_def)
  from gc_overflow_correct [OF o] obtain d1 where l1: "length r1 \<le> unat (max_ready_instances_per_app cfg)"
    and d1: "ready = d1 @ r1" "length q + length d1 \<le> terminate_capacity \<longrightarrow> q1 = q @ d1" by auto
  from gc_expired_correct [OF e] obtain d2 where d2: "r1 = d2 @ ready'"
    "length q1 + length d2 \<le> terminate_capacity \<longrightarrow> q' = q1 @ d2"
    "ready' \<noteq> [] \<longrightarrow> is_usable cfg (clock (length d2)) (hd ready')" by auto
  from l1 d2 show "length ready' \<le> unat (max_ready_instances_per_app cfg)" by simp
  from d1 d2 show "\<exists>dropped. ready = dropped @ ready' \<and>
      (length q + length dropped \<le> terminate_capacity \<longrightarrow> q' = q @ dropped)"
    by (intro exI [of _ "d1 @ d2"]) auto
  from d1 d2 show "ready' \<noteq> [] \<longrightarrow> (\<exists>i \<le> length ready. is_usable cfg (clock i) (hd ready'))"
    by (auto intro!: exI [of _ "length d2"])
qed

lemma gc_ready_instances_mset:
  assumes "gc_ready_instances cfg clock ready q = (ready', q')"
    and "length q + length ready \<le> terminate_capacity"
  shows "mset ready' + mset q' = mset ready + mset q"
  using gc_ready_instances_correct(2) [OF assms(1)] assms(2) by auto

lemma gc_ready_instances_subset:
  "gc_ready_instances cfg clock ready q = (ready', q') \<Longrightarrow> set ready' \<subseteq> set ready"
  using gc_ready_instances_correct(2) by fastforce

lemma pool_instance_subset:
  "pool_instance cfg clock smp inst ready q = (ready', q') \<Longrightarrow> set ready' \<subseteq> insert inst (set ready)"
  by (auto simp: pool_instance_def split: if_splits dest!: gc_ready_instances_subset)

section \<open>Weights of the runtimes\<close>

lemma runtime_weight_unat: "unat (runtime_weight rt) = 75535 - unat (rs_load rt)"
proof -
  have le: "unat (rs_load rt) \<le> 65535"
    using unat_lt2p [of "rs_load rt"] by simp
  have "unat (0xFFFF - rs_load rt) = 65535 - unat (rs_load rt)"
    using le by (simp add: unat_sub word_le_nat_alt)
  then have "unat (ucast (0xFFFF - rs_load rt) :: u32) = 65535 - unat (rs_load rt)"
    by (simp add: unsigned_ucast_eq take_bit_nat_eq_self_iff)
  with le show ?thesis
    by (simp add: runtime_weight_def unat_word_ariths)
qed

lemma runtime_weight_bounds:
  "10000 \<le> unat (runtime_weight rt)" "unat (runtime_weight rt) \<le> 75535" "runtime_weight rt \<noteq> 0"
proof -
  have "unat (rs_load rt) \<le> 65535" using unat_lt2p [of "rs_load rt"] by simp
  then show *: "10000 \<le> unat (runtime_weight rt)" "unat (runtime_weight rt) \<le> 75535"
    by (simp_all add: runtime_weight_unat)
  then show "runtime_weight rt \<noteq> 0" by (metis not_numeral_le_zero unat_0)
qed

lemma sum_weights_le:
  "sum_list (map (\<lambda>x. unat (runtime_weight (snd x))) clients) \<le> 75535 * length clients"
proof (induction clients)
  case (Cons x clients)
  with runtime_weight_bounds(2) [of "snd x"] show ?case by simp
qed simp

text \<open>56860 runtimes: the largest number whose weights cannot exceed \<open>u32\<close>.\<close>

definition max_runtimes :: nat where
  "max_runtimes = 56860"

lemma weighted_index_valid:
  assumes "weighted_index_laws f" and "clients \<noteq> []" and "length clients \<le> max_runtimes"
  shows "\<exists>i < length clients. f (map (\<lambda>x. runtime_weight (snd x)) clients) = Some i"
proof -
  let ?ws = "map (\<lambda>x. runtime_weight (snd x)) clients"
  have "sum_list (map unat ?ws) \<le> 75535 * length clients"
    using sum_weights_le by (simp add: comp_def)
  also have "\<dots> \<le> 75535 * 56860"
    using assms(3) by (simp add: max_runtimes_def)
  finally have "sum_list (map unat ?ws) < 2 ^ 32" by simp
  moreover have "\<forall>w \<in> set ?ws. w \<noteq> 0" using runtime_weight_bounds(3) by auto
  ultimately have "\<exists>i < length ?ws. f ?ws = Some i"
    using assms(1,2) unfolding weighted_index_laws_def by blast
  then show ?thesis by simp
qed

lemma spawn_on_runtime_cases:
  assumes "weighted_index_laws (se_weighted_index env)" and "length clients \<le> max_runtimes"
  shows "spawn_on_runtime env clients app = Inl (ESched NoAvailableInstance) \<and> clients = [] \<or>
    (\<exists>rtid rt. (rtid, rt) \<in> set clients \<and>
       (case se_spawn_worker env (rs_client rt) (appid_str (as_id app)) (as_config app) (as_bundle app) of
          Inl e \<Rightarrow> spawn_on_runtime env clients app = Inl (EOther e)
        | Inr (Inl e) \<Rightarrow> spawn_on_runtime env clients app = Inl (EGeneric e)
        | Inr (Inr handle) \<Rightarrow> spawn_on_runtime env clients app =
            Inr \<lparr>ri_rtid = rtid, ri_last_active = se_now env, ri_handle = handle,
                 ri_client = rs_client rt\<rparr>))"
proof (cases "clients = []")
  case False
  from weighted_index_valid [OF assms(1) False assms(2)]
  obtain i where i: "i < length clients"
    and s: "se_weighted_index env (map (\<lambda>x. runtime_weight (snd x)) clients) = Some i" by blast
  obtain rtid rt where c: "clients ! i = (rtid, rt)" by (cases "clients ! i")
  with i have "(rtid, rt) \<in> set clients" by (metis nth_mem)
  with i s c False show ?thesis
    by (intro disjI2 exI [of _ rtid] exI [of _ rt])
       (simp add: spawn_on_runtime_def split: sum.splits)
qed (simp add: spawn_on_runtime_def)

section \<open>The set of known runtimes\<close>

lemma bt_wf_fst: "map fst m = map fst m' \<Longrightarrow> bt_wf m = bt_wf m'"
  by (simp add: bt_wf_def)

lemma query_loop_keys: "query_loop load m = (m', ds) \<Longrightarrow> map fst m' = map fst m"
  by (induction load m arbitrary: m' ds rule: query_loop.induct)
     (auto split: prod.splits option.splits)

lemma query_loop_get:
  "query_loop load m = (m', ds) \<Longrightarrow>
     bt_get m' k = map_option (\<lambda>rt. case load k rt of None \<Rightarrow> rt | Some l \<Rightarrow> rt\<lparr>rs_load := l\<rparr>) (bt_get m k)"
  by (induction load m arbitrary: m' ds rule: query_loop.induct)
     (auto simp: bt_get_def split: prod.splits option.splits if_splits)

lemma query_loop_drop:
  "query_loop load m = (m', ds) \<Longrightarrow> bt_wf m \<Longrightarrow>
     k \<in> set ds \<longleftrightarrow> (\<exists>rt. bt_get m k = Some rt \<and> load k rt = None)"
proof (induction load m arbitrary: m' ds rule: query_loop.induct)
  case (2 load rtid rt rest)
  obtain m1 d1 where q: "query_loop load rest = (m1, d1)" by (cases "query_loop load rest")
  from 2 have wf: "bt_wf rest" and lt: "\<forall>k' \<in> fst ` set rest. rtid < k'" by simp_all
  have "bt_get rest rtid = None"
    using lt by (auto simp: bt_get_def map_of_eq_None_iff)
  with 2(1) [OF q wf] 2(2) q show ?case
    by (auto simp: bt_get_def split: option.splits if_splits)
qed (simp add: bt_get_def)

lemma length_bt_remove: "length (bt_remove k m) \<le> length m"
  by (simp add: bt_remove_def)

lemma query_runtimes_get:
  assumes "bt_wf (sc_clients s)"
  shows "bt_get (sc_clients (query_runtimes load s)) k =
    (case bt_get (sc_clients s) k of
       None \<Rightarrow> None
     | Some rt \<Rightarrow> (case load k rt of None \<Rightarrow> None | Some l \<Rightarrow> Some (rt\<lparr>rs_load := l\<rparr>)))"
proof -
  obtain m ds where q: "query_loop load (sc_clients s) = (m, ds)"
    by (cases "query_loop load (sc_clients s)")
  show ?thesis
    using query_loop_get [OF q, of k] query_loop_drop [OF q assms, of k]
    by (auto simp: query_runtimes_def q bt_get_fold_remove split: option.splits)
qed

lemma query_runtimes_wf: "bt_wf (sc_clients s) \<Longrightarrow> bt_wf (sc_clients (query_runtimes load s))"
  by (auto simp: query_runtimes_def bt_wf_fold_remove bt_wf_fst [OF query_loop_keys]
      split: prod.splits)

text \<open>The first address that reports an identifier provides its client.\<close>

definition first_discovered ::
  "(RuntimeId \<times> RuntimeServiceClient) option list \<Rightarrow> RuntimeId \<Rightarrow> RuntimeServiceClient option" where
  "first_discovered items k = map_of (List.map_filter (\<lambda>x. x) items) k"

lemma add_discovered_get:
  "bt_get (add_discovered items m) k =
     (case bt_get m k of
        Some rt \<Rightarrow> Some rt
      | None \<Rightarrow> map_option (\<lambda>c. \<lparr>rs_client = c, rs_load = 0\<rparr>) (first_discovered items k))"
  by (induction items m rule: add_discovered.induct)
     (auto simp: first_discovered_def List.map_filter_simps bt_get_insert bt_contains_key_def
       split: option.splits)

lemma add_discovered_wf: "bt_wf m \<Longrightarrow> bt_wf (add_discovered items m)"
  by (induction items m rule: add_discovered.induct) (auto simp: bt_wf_insert)

end
