(* ===== verification/Db_Props.thy ===== *)
theory Db_Props
  imports Routing
begin

text \<open>
  The properties of \<open>DataClient\<close>: the worker key-value store is a map with expiry, a
  compare-and-update is one atomic step, no failing call changes a table, and application
  metadata is read back as it was written. They rest on the interpretation \<open>store\<close> of the
  locale \<open>kv_store\<close> and on the calculus of \<open>Db_Spec\<close>.
\<close>

section \<open>Definitions\<close>



section \<open>Lemmas\<close>






section \<open>Properties\<close>



text \<open>
  C4. \<open>worker_data_cmpupdate\<close> is one atomic step on the store as a reader sees it. When it
  succeeds it answers whether every asserted key holds its asserted value; if so, all writes
  take effect (a later write to the same key wins) with the requested expiry, for readers of
  every time; if not, no reader sees any change.
\<close>

theorem cmpupdate_is_atomic_compare_and_set:
  assumes "tables_wf (tbl d)"
    and "worker_data_cmpupdate n1 ns as ws ttl d = (Inr b, d')"
  shows "\<exists>ex. expiration_of n1 ttl = Inr ex \<and>
    (b \<longleftrightarrow> (\<forall>(k, v) \<in> set as. kv_view n1 (tbl d) (ns, k) = Some v)) \<and>
    (\<forall>now. kv_view now (tbl d') =
       (if \<not> b then kv_view now (tbl d)
        else if live_at now ex
          then kv_view now (tbl d) ++ map_of (map (\<lambda>(k, v). ((ns, k), v)) (rev ws))
        else (\<lambda>nk. if nk \<in> (\<lambda>(k, v). (ns, k)) ` set ws then None
               else kv_view now (tbl d) nk)))"
  by (rule store.cmpupdate_view [OF assms])

text \<open>A store with one live entry, for the witnesses.\<close>

definition example_kv :: db where
  "example_kv = example_db\<lparr>tbl := example_tables\<lparr>appkv := [kv_row ''ns'' [1] [7] 0]\<rparr>\<rparr>"

lemmas example_kv_simps = example_kv_def example_db_simps kv_row_def kv_live_def

lemma example_kv_wf: "tables_wf (tbl example_kv)"
  by (simp add: example_kv_simps)

theorem cmpupdate_is_atomic_compare_and_set_witness:
  "\<exists>d'. worker_data_cmpupdate 10 ''ns'' [([1], [7])] [([1], [8]), ([2], [9])] 0 example_kv =
     (Inr True, d') \<and> kv_view 11 (tbl d') (''ns'', [1]) = Some [8]"
proof -
  have run: "worker_data_cmpupdate 10 ''ns'' [([1], [7])] [([1], [8]), ([2], [9])] 0 example_kv =
      (Inr True, snd (worker_data_cmpupdate 10 ''ns'' [([1], [7])] [([1], [8]), ([2], [9])] 0 example_kv))"
    by (simp add: worker_data_cmpupdate_def expiration_of_def db_transaction_def kv_upsert_def
        tbl_upsert_def example_kv_simps)
  from cmpupdate_is_atomic_compare_and_set [OF example_kv_wf run]
  have "kv_view 11 (tbl (snd (worker_data_cmpupdate 10 ''ns'' [([1], [7])]
      [([1], [8]), ([2], [9])] 0 example_kv))) (''ns'', [1]) = Some [8]"
    by (auto simp: expiration_of_def live_at_def)
  with run show ?thesis by blast
qed

text \<open>
  C5. A value written without \<open>if_not_exists\<close> is read back by every later reader until its
  time to live has passed, and by none after that; \<open>ttl_ms = 0\<close> never expires. The end of
  the time to live is computed without wrap-around: a sum beyond \<open>u64\<close> is refused.
\<close>

theorem worker_data_put_get:
  assumes "tables_wf (tbl d)"
    and "worker_data_put n1 n2 ns k v False ttl d = (Inr u, d1)"
    and "worker_data_get now ns k d1 = (Inr r, d2)"
  shows "r = (if ttl = 0 \<or> unat now < unat n1 + unat ttl then Some v else None)"
proof (cases "ttl = 0 \<or> unat now < unat n1 + unat ttl")
  case True
  with store.read_your_write [OF assms] show ?thesis by simp
next
  case False
  with store.write_expires [OF assms] show ?thesis by simp
qed

theorem worker_data_put_get_witness:
  "\<exists>d1 d2. worker_data_put 100 100 ''ns'' [1] [5] False 50 example_kv = (Inr (), d1) \<and>
     worker_data_get 149 ''ns'' [1] d1 = (Inr (Some [5]), d2)"
proof -
  let ?d1 = "snd (worker_data_put 100 100 ''ns'' [1] [5] False 50 example_kv)"
  let ?d2 = "snd (worker_data_get 149 ''ns'' [1] ?d1)"
  have p: "worker_data_put 100 100 ''ns'' [1] [5] False 50 example_kv = (Inr (), ?d1)"
    by (simp add: worker_data_put_def expiration_of_def checked_add_def example_kv_simps)
  obtain r where g: "worker_data_get 149 ''ns'' [1] ?d1 = (Inr r, ?d2)"
    by (simp add: worker_data_put_def worker_data_get_def expiration_of_def checked_add_def
        example_kv_simps)
  from worker_data_put_get [OF example_kv_wf p g] have "r = Some [5]" by simp
  with p g show ?thesis by blast
qed

text \<open>
  C12. A range scan of a namespace returns only keys in the range that are live, each once, at
  most \<open>limit\<close> of them, and all of them when there are fewer than \<open>limit\<close>.
\<close>

theorem worker_data_scan_keys_correct:
  assumes "tables_wf (tbl d)"
    and "worker_data_scan_keys now ns start e limit d = (Inr ks, d')"
  shows "distinct ks \<and> length ks \<le> unat limit \<and>
    set ks \<subseteq> {k. start \<le> k \<and> (\<forall>x. e = Some x \<longrightarrow> k \<le> x) \<and> kv_view now (tbl d) (ns, k) \<noteq> None} \<and>
    (length ks < unat limit \<longrightarrow>
      set ks = {k. start \<le> k \<and> (\<forall>x. e = Some x \<longrightarrow> k \<le> x) \<and> kv_view now (tbl d) (ns, k) \<noteq> None})"
proof -
  let ?P = "\<lambda>r. kv_nsid r = ns \<and> start \<le> kv_appkey r \<and>
    (case e of None \<Rightarrow> True | Some x \<Rightarrow> kv_appkey r \<le> x) \<and> kv_live now r"
  let ?all = "map kv_appkey (filter ?P (appkv (tbl d)))"
  have ks: "ks = take (unat limit) ?all" by (rule worker_data_scan_keys_Inr [OF assms(2)])
  have view: "kv_view now (tbl d) (ns, k) \<noteq> None \<longleftrightarrow>
      (\<exists>r \<in> set (appkv (tbl d)). kv_key r = (ns, k) \<and> kv_live now r)" for k
    using kv_exists_live [OF tables_wf_dests(1) [OF assms(1)]] by simp
  have all: "set ?all =
      {k. start \<le> k \<and> (\<forall>x. e = Some x \<longrightarrow> k \<le> x) \<and> kv_view now (tbl d) (ns, k) \<noteq> None}"
    unfolding view by (auto simp: kv_key_eq image_iff split: option.splits)
  have "distinct ?all"
    by (rule distinct_ns_keys [OF tables_wf_dests(1) [OF assms(1)]]) simp
  then show ?thesis
    unfolding ks all [symmetric]
    by (auto simp del: set_map set_filter dest: in_set_takeD)
qed

theorem worker_data_scan_keys_correct_witness:
  "\<exists>d'. worker_data_scan_keys 10 ''ns'' [] None 5 example_kv = (Inr [[1]], d') \<and>
     {k. [] \<le> k \<and> kv_view 10 (tbl example_kv) (''ns'', k) \<noteq> None} = {[1]}"
proof -
  have run: "worker_data_scan_keys 10 ''ns'' [] None 5 example_kv = (Inr [[1]], example_kv)"
    by (simp add: worker_data_scan_keys_def example_kv_simps)
  from worker_data_scan_keys_correct [OF example_kv_wf run]
  have "set [[1]] = {k. [] \<le> k \<and> kv_view 10 (tbl example_kv) (''ns'', k) \<noteq> None}"
    by simp
  with run show ?thesis by auto
qed

text \<open>
  Application metadata that was stored is read back unchanged, provided the JSON codec
  reads back what it wrote.
\<close>

theorem app_metadata_roundtrip:
  assumes "json_roundtrip js" and "app_metadata_put js now c d = (Inr u, d1)"
    and "app_metadata_get js (appid_str (ac_id c)) d1 = (Inr r, d2)"
  shows "r = Some c"
  by (rule app_metadata_roundtrip_aux [OF assms])

definition example_json :: json_ops where
  "example_json =
     \<lparr>env_to_string = (\<lambda>e. if e = [] then Inr ''{}'' else Inl ''unsupported''),
      env_from_str = (\<lambda>s. if s = ''{}'' then Inr [] else Inl ''syntax''),
      kvns_to_string = (\<lambda>n. if n = [] then Inr ''[]'' else Inl ''unsupported''),
      kvns_from_str = (\<lambda>s. if s = ''[]'' then Inr [] else Inl ''syntax'')\<rparr>"

lemma example_json_roundtrip: "json_roundtrip example_json"
  by (simp add: json_roundtrip_def example_json_def)

theorem app_metadata_roundtrip_witness:
  "\<exists>d1 d2. app_metadata_put example_json 3
      \<lparr>ac_id = AppId ''x'', ac_bundle_id = ''b'', ac_env = [], ac_kv_namespaces = []\<rparr> example_db
      = (Inr (), d1) \<and>
    app_metadata_get example_json ''x'' d1 =
      (Inr (Some \<lparr>ac_id = AppId ''x'', ac_bundle_id = ''b'', ac_env = [], ac_kv_namespaces = []\<rparr>), d2)"
proof -
  let ?c = "\<lparr>ac_id = AppId ''x'', ac_bundle_id = ''b'', ac_env = [], ac_kv_namespaces = []\<rparr>"
  let ?d1 = "snd (app_metadata_put example_json 3 ?c example_db)"
  let ?d2 = "snd (app_metadata_get example_json ''x'' ?d1)"
  have p: "app_metadata_put example_json 3 ?c example_db = (Inr (), ?d1)"
    by (simp add: app_metadata_put_def json_res_def db_lift_def example_json_def example_db_simps)
  obtain r where g: "app_metadata_get example_json (appid_str (ac_id ?c)) ?d1 = (Inr r, ?d2)"
    by (simp add: app_metadata_put_def app_metadata_get_def json_res_def db_lift_def
        example_json_def tbl_upsert_def example_db_simps)
  from app_metadata_roundtrip [OF example_json_roundtrip p g] have "r = Some ?c" .
  with p g show ?thesis by auto
qed

end
