(* ===== verification/Proxy_Spec.thy ===== *)
theory Proxy_Spec
  imports Sched_Spec Db_Props "HOL-Library.AList"
begin

text \<open>
  Lemmas on the request path of the proxy: the caches against the database, the request body,
  and the loop of attempts.
\<close>

section \<open>Caches\<close>

lemma lru_laws_dests:
  assumes "lru_laws ops"
  shows "fst (lru_get ops c k) = Some v \<longleftrightarrow> (k, v) \<in> set (lru_entries ops c)"
    and "set (lru_entries ops (snd (lru_get ops c k))) = set (lru_entries ops c)"
    and "lru_peek ops c k = Some v \<longleftrightarrow> (k, v) \<in> set (lru_entries ops c)"
    and "set (fst (lru_iter ops c)) = set (lru_entries ops c)"
    and "set (lru_entries ops (snd (lru_iter ops c))) = set (lru_entries ops c)"
    and "(k, v) \<in> set (lru_entries ops (lru_insert ops c k v))"
    and "set (lru_entries ops (lru_insert ops c k v)) \<subseteq>
        insert (k, v) {e \<in> set (lru_entries ops c). fst e \<noteq> k}"
    and "set (lru_entries ops (snd (lru_remove ops c k))) = {e \<in> set (lru_entries ops c). fst e \<noteq> k}"
  using assms unfolding lru_laws_def by simp_all

lemma lru_get_insert:
  assumes "lru_laws ops"
  shows "fst (lru_get ops (lru_insert ops c k v) k) = Some v"
  using lru_laws_dests(1) [OF assms] lru_laws_dests(6) [OF assms] by blast

text \<open>A cache of unlimited size, for the witnesses.\<close>

definition list_lru :: "(('k \<times> 'v) list, 'k, 'v) lru_ops" where
  "list_lru = \<lparr>lru_get = \<lambda>c k. (map_of c k, c), lru_peek = \<lambda>c k. map_of c k,
     lru_insert = \<lambda>c k v. (k, v) # c, lru_remove = \<lambda>c k. (map_of c k, AList.delete k c),
     lru_entries = AList.clearjunk, lru_iter = \<lambda>c. (AList.clearjunk c, c)\<rparr>"

lemma clearjunk_mem: "(k, v) \<in> set (AList.clearjunk c) \<longleftrightarrow> map_of c k = Some v"
  by (metis distinct_clearjunk map_of_clearjunk map_of_eq_Some_iff)

lemma list_lru_laws: "lru_laws list_lru"
  by (auto simp: lru_laws_def list_lru_def clearjunk_mem delete_conv' split: if_splits)

section \<open>A database that answers\<close>

definition db_up :: "db \<Rightarrow> bool" where
  "db_up d \<longleftrightarrow> (\<forall>oc \<in> set (outcomes d). oc = None)"

lemma db_call_up:
  assumes "db_up d" and "stmt (tbl d) = Inr (x, t)"
  shows "\<exists>d'. db_call stmt d = (Inr x, d') \<and> tbl d' = t \<and> db_up d'"
  using assms by (cases "outcomes d") (auto simp: db_call_def db_up_def)

lemma db_bind_up:
  assumes "\<exists>d1. m d = (Inr x, d1) \<and> tbl d1 = t \<and> db_up d1"
    and "\<And>d1. tbl d1 = t \<Longrightarrow> db_up d1 \<Longrightarrow> \<exists>d2. f x d1 = (r, d2) \<and> tbl d2 = t' \<and> db_up d2"
  shows "\<exists>d2. db_bind m f d = (r, d2) \<and> tbl d2 = t' \<and> db_up d2"
proof -
  from assms(1) obtain d1 where "m d = (Inr x, d1)" "tbl d1 = t" "db_up d1" by blast
  with assms(2) [of d1] show ?thesis by (auto simp: db_bind_def)
qed

lemma db_select_up: "db_up d \<Longrightarrow> \<exists>d'. db_select q d = (Inr (q (tbl d)), d') \<and> tbl d' = tbl d \<and> db_up d'"
  unfolding db_select_def by (rule db_call_up) simp_all

lemma get_conn_up: "db_up d \<Longrightarrow> \<exists>d'. get_conn d = (Inr (), d') \<and> tbl d' = tbl d \<and> db_up d'"
  unfolding get_conn_def by (rule db_call_up) simp_all

definition db_routes :: "tables \<Rightarrow> string \<Rightarrow> (string, string) BTreeMap" where
  "db_routes t domain = bt_collect (map (\<lambda>r. (rt_path r, rt_appid r))
     (filter (\<lambda>r. rt_domain r = domain) (routes t)))"

lemma bt_get_db_routes:
  assumes "tables_wf t"
  shows "bt_get (db_routes t host) p = Some a \<longleftrightarrow>
      (\<exists>r \<in> set (routes t). rt_domain r = host \<and> rt_path r = p \<and> rt_appid r = a)"
proof -
  note kwf = tables_wf_dests(2) [OF assms]
  have "tbl_find rt_key (host, p) (routes t) = Some r \<longleftrightarrow>
      r \<in> set (routes t) \<and> rt_domain r = host \<and> rt_path r = p" for r
    using tbl_find_mem [OF kwf, of r] by (auto simp: rt_key_def dest!: tbl_find_Some)
  then show ?thesis
    by (auto simp: db_routes_def bt_get_routes [OF kwf])
qed

lemma route_list_up:
  assumes "db_up d"
  shows "\<exists>d'. route_mapping_list_for_domain domain d = (Inr (db_routes (tbl d) domain), d') \<and>
    tbl d' = tbl d \<and> db_up d'"
  unfolding route_mapping_list_for_domain_def
proof (rule db_bind_up [where m = get_conn and d = d and x = "()" and t = "tbl d"])
  show "\<exists>d1. get_conn d = (Inr (), d1) \<and> tbl d1 = tbl d \<and> db_up d1"
    by (rule get_conn_up [OF assms])
next
  fix d1 :: db
  assume t: "tbl d1 = tbl d" and u: "db_up d1"
  show "\<exists>d2. db_select (\<lambda>t. bt_collect (map (\<lambda>r. (rt_path r, rt_appid r))
       (filter (\<lambda>r. rt_domain r = domain) (routes t)))) d1 = (Inr (db_routes (tbl d) domain), d2) \<and>
     tbl d2 = tbl d \<and> db_up d2"
    using db_select_up [OF u] unfolding db_routes_def t [symmetric] by blast
qed

lemma app_get_up:
  assumes "db_up d"
  shows "\<exists>d'. app_metadata_get js a d =
      (fst (app_metadata_get js a \<lparr>tbl = tbl d, outcomes = []\<rparr>), d') \<and> tbl d' = tbl d \<and> db_up d'"
proof -
  obtain d1 where d1: "get_conn d = (Inr (), d1)" "tbl d1 = tbl d" "db_up d1"
    using get_conn_up [OF assms] by blast
  obtain d2 where d2: "db_select (\<lambda>t. find (\<lambda>r. ap_id r = a) (apps_tbl t)) d1 =
      (Inr (find (\<lambda>r. ap_id r = a) (apps_tbl (tbl d))), d2)" "tbl d2 = tbl d" "db_up d2"
    using db_select_up [OF d1(3)] d1(2) by metis
  show ?thesis
  proof (cases "find (\<lambda>r. ap_id r = a) (apps_tbl (tbl d))")
    case None
    with d1 d2 show ?thesis
      by (simp add: app_metadata_get_def db_bind_def db_return_def get_conn_def db_select_def db_call_def)
  next
    case (Some r)
    with d1 d2 show ?thesis
      by (cases "json_res (env_from_str js (ap_env r))";
          cases "json_res (kvns_from_str js (ap_kv_namespaces r))")
         (simp_all add: app_metadata_get_def db_bind_def db_return_def db_lift_def get_conn_def
           db_select_def db_call_def)
  qed
qed

section \<open>Routes\<close>

lemma to_appids_get: "bt_wf m \<Longrightarrow> bt_get (to_appids m) k = map_option AppId (bt_get m k)"
  using map_of_rev_distinct [OF bt.entries_distinct, of m] map_of_map_snd [of AppId "rev m" k]
  unfolding to_appids_def bt_get_collect by (simp add: bt_get_def rev_map)

lemma lookup_to_appids:
  assumes "bt_wf m"
  shows "lookup_submappings path (to_appids m) = map_option AppId (lookup_submappings path m)"
proof (cases "lookup_submappings path m")
  case None
  have wf: "bt_wf (to_appids m)" by (simp add: to_appids_def)
  from None have "lookup_submappings path (to_appids m) = None"
    by (auto simp: lookup_submappings_None_iff bt_get_mem [OF wf] to_appids_get [OF assms]
        simp flip: bt_get_mem [OF assms])
  with None show ?thesis by simp
next
  case (Some v)
  have wf: "bt_wf (to_appids m)" by (simp add: to_appids_def)
  from Some have "\<exists>k. bt_get m k = Some v \<and> starts_with path k \<and>
       (\<forall>k' v'. bt_get m k' = Some v' \<longrightarrow> starts_with path k' \<longrightarrow> length k' \<le> length k)"
    using lookup_submappings_longest_aux [OF assms] by blast
  then have "lookup_submappings path (to_appids m) = Some (AppId v)"
    unfolding lookup_submappings_longest_aux [OF wf] to_appids_get [OF assms] by auto
  with Some show ?thesis by simp
qed

lemma resolve_route_miss:
  assumes "lru_laws (snd ops)" and "db_up (sc_kv_client s)"
    and "\<forall>m. (host, m) \<notin> set (lru_entries (snd ops) (sc_route_cache s))"
  shows "\<exists>rc kv. resolve_route ops True host path s =
      (lookup_submappings path (to_appids (db_routes (tbl (sc_kv_client s)) host)),
       s\<lparr>sc_route_cache := rc, sc_kv_client := kv\<rparr>) \<and>
    tbl kv = tbl (sc_kv_client s) \<and> db_up kv \<and>
    (host, to_appids (db_routes (tbl (sc_kv_client s)) host)) \<in> set (lru_entries (snd ops) rc)"
proof -
  let ?ops = "snd ops" and ?m = "to_appids (db_routes (tbl (sc_kv_client s)) host)"
  define rc1 where "rc1 = snd (lru_get ?ops (sc_route_cache s) host)"
  define rc2 where "rc2 = snd (lru_get ?ops rc1 host)"
  define rc3 where "rc3 = lru_insert ?ops rc2 host ?m"
  note laws = lru_laws_dests [OF assms(1)]
  have g0: "lru_get ?ops (sc_route_cache s) host = (None, rc1)"
    using assms(3) laws(1) by (metis not_None_eq prod.collapse rc1_def)
  have g1: "lru_get ?ops rc1 host = (None, rc2)"
    using assms(3) laws(1,2) by (metis not_None_eq prod.collapse rc1_def rc2_def)
  define rc4 where "rc4 = snd (lru_get ?ops rc3 host)"
  have g3: "lru_get ?ops rc3 host = (Some ?m, rc4)"
    using lru_get_insert [OF assms(1), of rc2 host ?m] by (simp add: rc3_def rc4_def prod_eq_iff)
  obtain kv where kv: "route_mapping_list_for_domain host (sc_kv_client s) =
      (Inr (db_routes (tbl (sc_kv_client s)) host), kv)" "tbl kv = tbl (sc_kv_client s)" "db_up kv"
    using route_list_up [OF assms(2)] by blast
  have "(host, ?m) \<in> set (lru_entries ?ops rc4)"
    using laws(2,6) by (simp add: rc3_def rc4_def)
  with g0 g1 g3 kv show ?thesis
    by (intro exI [of _ rc4] exI [of _ kv])
       (simp add: resolve_route_def cached_appid_def do_lookup_route_background_def
          rc3_def [symmetric])
qed

lemma route_gc_domain_entries:
  assumes "lru_laws (snd ops)" and "db_up (sc_kv_client s)"
  shows "\<exists>rc kv. route_gc_domain ops k s = s\<lparr>sc_route_cache := rc, sc_kv_client := kv\<rparr> \<and>
    tbl kv = tbl (sc_kv_client s) \<and> db_up kv \<and>
    set (lru_entries (snd ops) rc) = {e \<in> set (lru_entries (snd ops) (sc_route_cache s)).
      fst e = k \<longrightarrow> snd e = to_appids (db_routes (tbl (sc_kv_client s)) k)}"
proof -
  let ?ops = "snd ops" and ?m = "to_appids (db_routes (tbl (sc_kv_client s)) k)"
  note laws = lru_laws_dests [OF assms(1)]
  obtain kv where kv: "route_mapping_list_for_domain k (sc_kv_client s) =
      (Inr (db_routes (tbl (sc_kv_client s)) k), kv)" "tbl kv = tbl (sc_kv_client s)" "db_up kv"
    using route_list_up [OF assms(2)] by blast
  let ?rc = "if \<exists>e. lru_peek ?ops (sc_route_cache s) k = Some e \<and> e \<noteq> ?m
    then snd (lru_remove ?ops (sc_route_cache s) k) else sc_route_cache s"
  have func: "m = m'" if "(k, m) \<in> set (lru_entries ?ops (sc_route_cache s))"
    and "(k, m') \<in> set (lru_entries ?ops (sc_route_cache s))" for m m'
    using that laws(3) by (metis option.inject)
  have "route_gc_domain ops k s = s\<lparr>sc_route_cache := ?rc, sc_kv_client := kv\<rparr>"
    by (auto simp: route_gc_domain_def kv split: option.splits)
  moreover have "set (lru_entries ?ops ?rc) = {e \<in> set (lru_entries ?ops (sc_route_cache s)).
      fst e = k \<longrightarrow> snd e = ?m}"
    using func laws(3,8) by auto
  ultimately show ?thesis using kv by blast
qed

lemma route_gc_fold:
  assumes "lru_laws (snd ops)" and "db_up (sc_kv_client s)"
  shows "\<exists>rc kv. fold (route_gc_domain ops) ks s = s\<lparr>sc_route_cache := rc, sc_kv_client := kv\<rparr> \<and>
    tbl kv = tbl (sc_kv_client s) \<and> db_up kv \<and>
    set (lru_entries (snd ops) rc) = {e \<in> set (lru_entries (snd ops) (sc_route_cache s)).
      fst e \<in> set ks \<longrightarrow> snd e = to_appids (db_routes (tbl (sc_kv_client s)) (fst e))}"
  using assms(2)
proof (induction ks arbitrary: s)
  case Nil
  then show ?case by (intro exI [of _ "sc_route_cache s"] exI [of _ "sc_kv_client s"]) auto
next
  case (Cons k ks)
  from route_gc_domain_entries [OF assms(1) Cons.prems] obtain rc kv
    where s1: "route_gc_domain ops k s = s\<lparr>sc_route_cache := rc, sc_kv_client := kv\<rparr>"
      and kv: "tbl kv = tbl (sc_kv_client s)" "db_up kv"
      and e1: "set (lru_entries (snd ops) rc) = {e \<in> set (lru_entries (snd ops) (sc_route_cache s)).
        fst e = k \<longrightarrow> snd e = to_appids (db_routes (tbl (sc_kv_client s)) k)}"
    by blast
  from Cons.IH [of "s\<lparr>sc_route_cache := rc, sc_kv_client := kv\<rparr>"] kv obtain rc2 kv2
    where "fold (route_gc_domain ops) ks (s\<lparr>sc_route_cache := rc, sc_kv_client := kv\<rparr>) =
        s\<lparr>sc_route_cache := rc2, sc_kv_client := kv2\<rparr>"
      and "tbl kv2 = tbl (sc_kv_client s)" "db_up kv2"
      and "set (lru_entries (snd ops) rc2) = {e \<in> set (lru_entries (snd ops) rc).
        fst e \<in> set ks \<longrightarrow> snd e = to_appids (db_routes (tbl (sc_kv_client s)) (fst e))}"
    by auto
  with s1 e1 show ?case by (intro exI [of _ rc2] exI [of _ kv2]) auto
qed

section \<open>Applications\<close>

text \<open>What \<open>apps_gc_task\<close> removes: an application that is gone or differs from the database.\<close>

definition app_stale :: "json_ops \<Rightarrow> tables \<Rightarrow> AppId \<Rightarrow> string \<Rightarrow> WorkerConfiguration \<Rightarrow> bool" where
  "app_stale js t i bundle_id cfg =
     (case fst (app_metadata_get js (appid_str i) \<lparr>tbl = t, outcomes = []\<rparr>) of
        Inr (Some c) \<Rightarrow> app_changed c bundle_id cfg
      | Inr None \<Rightarrow> True
      | Inl _ \<Rightarrow> False)"

lemma app_gc_one_entries:
  assumes "lru_laws (fst ops)" and "db_up (sc_kv_client s)"
  shows "\<exists>ac kv. app_gc_one js ops (i, b, c) s = s\<lparr>sc_apps := ac, sc_kv_client := kv\<rparr> \<and>
    tbl kv = tbl (sc_kv_client s) \<and> db_up kv \<and>
    set (lru_entries (fst ops) ac) = {e \<in> set (lru_entries (fst ops) (sc_apps s)).
      fst e = i \<longrightarrow> \<not> app_stale js (tbl (sc_kv_client s)) i b c}"
proof -
  obtain kv where kv: "app_metadata_get js (appid_str i) (sc_kv_client s) =
      (fst (app_metadata_get js (appid_str i) \<lparr>tbl = tbl (sc_kv_client s), outcomes = []\<rparr>), kv)"
    "tbl kv = tbl (sc_kv_client s)" "db_up kv"
    using app_get_up [OF assms(2)] by blast
  let ?ac = "if app_stale js (tbl (sc_kv_client s)) i b c
    then snd (lru_remove (fst ops) (sc_apps s) i) else sc_apps s"
  have "app_gc_one js ops (i, b, c) s = s\<lparr>sc_apps := ?ac, sc_kv_client := kv\<rparr>"
    by (auto simp: app_gc_one_def app_stale_def kv(1) split: sum.splits option.splits)
  moreover have "set (lru_entries (fst ops) ?ac) = {e \<in> set (lru_entries (fst ops) (sc_apps s)).
      fst e = i \<longrightarrow> \<not> app_stale js (tbl (sc_kv_client s)) i b c}"
    using lru_laws_dests(8) [OF assms(1)] by auto
  ultimately show ?thesis using kv by blast
qed

lemma app_gc_fold:
  assumes "lru_laws (fst ops)" and "db_up (sc_kv_client s)"
  shows "\<exists>ac kv. fold (app_gc_one js ops) items s = s\<lparr>sc_apps := ac, sc_kv_client := kv\<rparr> \<and>
    tbl kv = tbl (sc_kv_client s) \<and> db_up kv \<and>
    set (lru_entries (fst ops) ac) = {e \<in> set (lru_entries (fst ops) (sc_apps s)).
      \<forall>x \<in> set items. fst x = fst e \<longrightarrow>
        \<not> app_stale js (tbl (sc_kv_client s)) (fst x) (fst (snd x)) (snd (snd x))}"
  using assms(2)
proof (induction items arbitrary: s)
  case Nil
  then show ?case by (intro exI [of _ "sc_apps s"] exI [of _ "sc_kv_client s"]) auto
next
  case (Cons x items)
  obtain i b c where x: "x = (i, b, c)" by (cases x) auto
  from app_gc_one_entries [OF assms(1) Cons.prems] obtain ac kv
    where s1: "app_gc_one js ops x s = s\<lparr>sc_apps := ac, sc_kv_client := kv\<rparr>"
      and kv: "tbl kv = tbl (sc_kv_client s)" "db_up kv"
      and e1: "set (lru_entries (fst ops) ac) = {e \<in> set (lru_entries (fst ops) (sc_apps s)).
        fst e = i \<longrightarrow> \<not> app_stale js (tbl (sc_kv_client s)) i b c}"
    unfolding x by blast
  from Cons.IH [of "s\<lparr>sc_apps := ac, sc_kv_client := kv\<rparr>"] kv obtain ac2 kv2
    where "fold (app_gc_one js ops) items (s\<lparr>sc_apps := ac, sc_kv_client := kv\<rparr>) =
        s\<lparr>sc_apps := ac2, sc_kv_client := kv2\<rparr>"
      and "tbl kv2 = tbl (sc_kv_client s)" "db_up kv2"
      and "set (lru_entries (fst ops) ac2) = {e \<in> set (lru_entries (fst ops) ac).
        \<forall>x \<in> set items. fst x = fst e \<longrightarrow>
          \<not> app_stale js (tbl (sc_kv_client s)) (fst x) (fst (snd x)) (snd (snd x))}"
    by auto
  with s1 e1 x show ?case by (intro exI [of _ ac2] exI [of _ kv2]) auto
qed

section \<open>The request body\<close>

lemma read_body_sticky: "is_err (read_body mx chunks full (Some e))"
  by (induction mx chunks full "Some e" arbitrary: e rule: read_body.induct) auto

definition chunks_bytes :: "(string + bytes) list \<Rightarrow> bytes" where
  "chunks_bytes chunks = concat (map (\<lambda>c. case c of Inl _ \<Rightarrow> [] | Inr x \<Rightarrow> x) chunks)"

lemma chunks_bytes_simps [simp]:
  "chunks_bytes [] = []"
  "chunks_bytes (Inr x # cs) = x @ chunks_bytes cs"
  "chunks_bytes (Inl e # cs) = chunks_bytes cs"
  by (simp_all add: chunks_bytes_def)

lemma read_body_ok:
  "read_body mx chunks full None = Inr b \<longleftrightarrow>
     (\<forall>c \<in> set chunks. \<not> is_err c) \<and> b = full @ chunks_bytes chunks \<and>
     (chunks = [] \<or> length full + length (chunks_bytes chunks) \<le> unat mx)"
proof (induction mx chunks full "None :: ProxyError option" rule: read_body.induct)
  case (1 mx full)
  then show ?case by auto
next
  case (2 mx x chunks full)
  show ?case
  proof (cases "length full + length x > unat mx")
    case True
    with read_body_sticky [of mx chunks full] show ?thesis
      by (metis add_leD1 append_assoc chunks_bytes_simps(2) is_err.simps(2) leD length_append
          list.distinct(1) read_body.simps(2) add.assoc)
  next
    case False
    with 2 show ?thesis by (cases chunks) auto
  qed
next
  case (3 mx e chunks full)
  with read_body_sticky [of mx chunks full] show ?case
    by (metis is_err.simps list.set_intros(1) read_body.simps(3))
qed

lemma read_body_too_large_aux:
  "(\<forall>c \<in> set chunks. \<not> is_err c) \<Longrightarrow>
     read_body mx chunks full (Some (ESched RequestBodyTooLarge)) = Inl (ESched RequestBodyTooLarge)"
  by (induction mx chunks full "Some (ESched RequestBodyTooLarge)" rule: read_body.induct) auto

lemma read_body_too_large:
  "(\<forall>c \<in> set chunks. \<not> is_err c) \<Longrightarrow> chunks \<noteq> [] \<Longrightarrow>
   length full + length (chunks_bytes chunks) > unat mx \<Longrightarrow>
     read_body mx chunks full None = Inl (ESched RequestBodyTooLarge)"
proof (induction mx chunks full "None :: ProxyError option" rule: read_body.induct)
  case (2 mx x chunks full)
  then show ?case
    by (cases "chunks = []") (auto simp: read_body_too_large_aux)
qed auto

section \<open>The loop of attempts\<close>

lemma take_instance_ready:
  assumes "take_instance env a s = (r, s')" and "a < length (sc_app_heap s)"
  shows "set (ready_instances (sc_app_heap s' ! a)) \<subseteq> set (ready_instances (sc_app_heap s ! a))"
    and "length (sc_app_heap s') = length (sc_app_heap s)"
    and "sc_clients s' = sc_clients s"
  using assms gc_ready_instances_subset
    [of "sc_local_config s" "se_gc_clock (at_spawn env)" "ready_instances (sc_app_heap s ! a)"
        "sc_terminate_queue s"]
  by (fastforce simp: take_instance_def get_instance_def split: prod.splits list.splits)+

lemma pool_back_ready:
  assumes "a < length (sc_app_heap s)"
  shows "set (ready_instances (sc_app_heap (pool_back env a inst s) ! a)) \<subseteq>
      insert inst (set (ready_instances (sc_app_heap s ! a)))"
    and "sc_clients (pool_back env a inst s) = sc_clients s"
  using assms pool_instance_subset
    [of "sc_local_config s" "at_pool_clock env" "at_sample env" inst
        "ready_instances (sc_app_heap s ! a)" "sc_terminate_queue s"]
  by (auto simp: pool_back_def split: prod.splits)

text \<open>The worker answered, and not with an error that ends it.\<close>

definition survives :: "attempt_env \<Rightarrow> RequestObject \<Rightarrow> ReadyInstance \<Rightarrow> bool" where
  "survives env req x =
     (case at_fetch env (ri_client x) (ri_handle x) req of
        Inl _ \<Rightarrow> False | Inr (Inl e) \<Rightarrow> \<not> terminates_worker e | Inr (Inr _) \<Rightarrow> True)"

lemma attempts_ready:
  assumes "attempts http env req a n i s = (r, s')" and "a < length (sc_app_heap s)"
    and "x \<in> set (ready_instances (sc_app_heap s' ! a))"
  shows "x \<in> set (ready_instances (sc_app_heap s ! a)) \<or> (\<exists>j \<in> {i..<i + n}. survives (env j) req x)"
  using assms
proof (induction n arbitrary: i s)
  case 0
  then show ?case by simp
next
  case (Suc n)
  obtain t s1 where t: "take_instance (env i) a s = (t, s1)" by (cases "take_instance (env i) a s")
  note ti = take_instance_ready [OF t Suc.prems(2)]
  have IH: "attempts http env req a n (Suc i) s2 = (r, s') \<Longrightarrow> sc_app_heap s2 = sc_app_heap s1 \<Longrightarrow> ?case"
    for s2
  proof -
    assume *: "attempts http env req a n (Suc i) s2 = (r, s')" "sc_app_heap s2 = sc_app_heap s1"
    with Suc.IH [OF *(1)] ti Suc.prems
    have "x \<in> set (ready_instances (sc_app_heap s1 ! a)) \<or>
        (\<exists>j \<in> {Suc i..<Suc i + n}. survives (env j) req x)" by auto
    with ti show ?case by fastforce
  qed
  show ?case
  proof (cases t)
    case (Inl e)
    with Suc.prems t ti show ?thesis by auto
  next
    case (Inr inst)
    note step = Suc.prems(1) [unfolded attempts.simps t Inr, simplified]
    have i: "i \<in> {i..<i + Suc n}" by simp
    show ?thesis
    proof (cases "at_fetch (env i) (ri_client inst) (ri_handle inst) req")
      case (Inl e)
      with step show ?thesis
        by (intro IH [of "s1\<lparr>sc_clients := bt_remove (ri_rtid inst) (sc_clients s1)\<rparr>"]) auto
    next
      case f: (Inr res)
      show ?thesis
      proof (cases "\<exists>e. res = Inl e \<and> terminates_worker e")
        case True
        then obtain e where e: "res = Inl e" "terminates_worker e" by blast
        show ?thesis
        proof (cases "e = NoSuchWorker")
          case True
          with step f e show ?thesis by (intro IH [of s1]) auto
        next
          case False
          with step f e have "s' = s1" by (cases e) auto
          with Suc.prems(3) ti show ?thesis by auto
        qed
      next
        case False
        then have sv: "survives (env i) req inst" and s': "s' = pool_back (env i) a inst s1"
          using step f by (auto simp: survives_def split: sum.splits ExecutionError.splits)
        with Suc.prems ti pool_back_ready(1) [of a s1 "env i" inst] i show ?thesis by auto
      qed
    qed
  qed
qed

lemma spawn_on_runtime_no_panic:
  assumes "weighted_index_laws (se_weighted_index env)" and "length clients \<le> max_runtimes"
  shows "spawn_on_runtime env clients app \<noteq> Inl (EPanic m)"
  using spawn_on_runtime_cases [OF assms, of app]
proof (elim disjE exE conjE)
  fix rtid rt
  assume "case se_spawn_worker env (rs_client rt) (appid_str (as_id app)) (as_config app) (as_bundle app) of
          Inl e \<Rightarrow> spawn_on_runtime env clients app = Inl (EOther e)
        | Inr (Inl e) \<Rightarrow> spawn_on_runtime env clients app = Inl (EGeneric e)
        | Inr (Inr handle) \<Rightarrow> spawn_on_runtime env clients app =
            Inr \<lparr>ri_rtid = rtid, ri_last_active = se_now env, ri_handle = handle,
                 ri_client = rs_client rt\<rparr>"
  then show ?thesis by (auto split: sum.splits)
qed simp

lemma take_instance_no_panic:
  assumes "weighted_index_laws (se_weighted_index (at_spawn env))"
    and "length (sc_clients s) \<le> max_runtimes" and "take_instance env a s = (Inl e, s')"
  shows "e \<noteq> EPanic m"
  using assms(3) spawn_on_runtime_no_panic [OF assms(1,2), of "sc_app_heap s ! a" m]
  by (auto simp: take_instance_def get_instance_def split: prod.splits list.splits)

lemma append_values_no_panic: "append_values http k vs hs \<noteq> Inl (EPanic m)"
  by (induction http k vs hs rule: append_values.induct) (auto split: option.splits)

lemma append_headers_no_panic: "append_headers http hm hs \<noteq> Inl (EPanic m)"
  by (induction http hm hs rule: append_headers.induct)
     (auto simp: bind_res_Inl_iff append_values_no_panic)

lemma build_fetch_response_no_panic: "build_fetch_response http r \<noteq> Inl (EPanic m)"
  by (auto simp: build_fetch_response_def bind_res_Inl_iff append_headers_no_panic
      split: HttpBody.splits option.splits)

lemma attempts_no_panic:
  assumes "\<forall>j. weighted_index_laws (se_weighted_index (at_spawn (env j)))"
    and "length (sc_clients s) \<le> max_runtimes" and "a < length (sc_app_heap s)"
    and "attempts http env req a n i s = (Inl e, s')"
  shows "e \<noteq> EPanic m"
  using assms(2,3,4)
proof (induction n arbitrary: i s)
  case 0
  then show ?case by auto
next
  case (Suc n)
  obtain t s1 where t: "take_instance (env i) a s = (t, s1)" by (cases "take_instance (env i) a s")
  note ti = take_instance_ready [OF t Suc.prems(2)]
  from Suc.prems(1) ti have l: "length (bt_remove k (sc_clients s1)) \<le> max_runtimes" for k
    using length_bt_remove [of k "sc_clients s1"] by simp
  show ?case
  proof (cases t)
    case (Inl e')
    with Suc.prems t take_instance_no_panic [of "env i" s a] assms(1) show ?thesis by auto
  next
    case (Inr inst)
    note step = Suc.prems(3) [unfolded attempts.simps t Inr, simplified]
    show ?thesis
    proof (cases "at_fetch (env i) (ri_client inst) (ri_handle inst) req")
      case (Inl e')
      with step Suc.IH [of "s1\<lparr>sc_clients := bt_remove (ri_rtid inst) (sc_clients s1)\<rparr>"] l ti Suc.prems
      show ?thesis by simp
    next
      case (Inr res)
      with step Suc.IH [of s1] ti Suc.prems show ?thesis
        by (cases res rule: sum.exhaust)
           (auto simp: build_fetch_response_no_panic split: ExecutionError.splits)
    qed
  qed
qed

section \<open>The state between requests\<close>

text \<open>
  The application cache refers to applications of the heap, and the runtimes are few enough
  for their weights.
\<close>

definition proxy_wf :: "('ac, 'rc) sched_ops \<Rightarrow> ('ac, 'rc) Scheduler \<Rightarrow> bool" where
  "proxy_wf ops s \<longleftrightarrow>
     (\<forall>e \<in> set (lru_entries (fst ops) (sc_apps s)). snd e < length (sc_app_heap s)) \<and>
     length (sc_clients s) \<le> max_runtimes"

lemma proxy_wf_route [simp]:
  "proxy_wf ops (s\<lparr>sc_route_cache := rc\<rparr>) = proxy_wf ops s"
  "proxy_wf ops (s\<lparr>sc_kv_client := kv\<rparr>) = proxy_wf ops s"
  by (simp_all add: proxy_wf_def)

lemma resolve_route_wf: "proxy_wf ops s \<Longrightarrow> proxy_wf ops (snd (resolve_route ops free host path s))"
  by (auto simp: resolve_route_def cached_appid_def do_lookup_route_background_def
      split: prod.splits option.splits sum.splits)

lemma cached_app_wf:
  assumes "lru_laws (fst ops)" and "proxy_wf ops s" and "cached_app ops i s = (a, s')"
  shows "proxy_wf ops s'" and "a = Some x \<Longrightarrow> x < length (sc_app_heap s')"
proof -
  note laws = lru_laws_dests [OF assms(1)]
  from assms(3) have a: "a = fst (lru_get (fst ops) (sc_apps s) i)"
    and s': "s' = s\<lparr>sc_apps := snd (lru_get (fst ops) (sc_apps s) i)\<rparr>"
    by (auto simp: cached_app_def split: prod.splits)
  from assms(2) s' laws(2) show "proxy_wf ops s'" by (simp add: proxy_wf_def)
  show "x < length (sc_app_heap s')" if "a = Some x"
    using that assms(2) s' laws(1) a by (fastforce simp: proxy_wf_def)
qed

lemma lookup_app_wf:
  assumes "lru_laws (fst ops)" and "proxy_wf ops s"
  shows "proxy_wf ops (do_lookup_app_background js ops now i s)"
proof -
  note laws = lru_laws_dests [OF assms(1)]
  define ac where "ac = snd (lru_get (fst ops) (sc_apps s) i)"
  have ac: "\<forall>e \<in> set (lru_entries (fst ops) ac). snd e < length (sc_app_heap s)"
    using assms(2) laws(2) by (simp add: ac_def proxy_wf_def)
  then have ins: "\<forall>e \<in> set (lru_entries (fst ops) (lru_insert (fst ops) ac i (length (sc_app_heap s)))).
      snd e < Suc (length (sc_app_heap s))"
    using laws(7) [of ac i "length (sc_app_heap s)"] by fastforce
  have "lru_get (fst ops) (sc_apps s) i = (fst (lru_get (fst ops) (sc_apps s) i), ac)"
    by (simp add: ac_def)
  with ac ins assms(2) show ?thesis
    by (auto simp: do_lookup_app_background_def proxy_wf_def Let_def
        split: prod.splits option.splits sum.splits)
qed

lemma resolve_app_wf:
  assumes "lru_laws (fst ops)" and "proxy_wf ops s"
    and "resolve_app js ops free now i s = (a, s')"
  shows "proxy_wf ops s' \<and> (\<forall>x. a = Some x \<longrightarrow> x < length (sc_app_heap s'))"
proof -
  obtain a1 s1 where c1: "cached_app ops i s = (a1, s1)" by (cases "cached_app ops i s")
  note w1 = cached_app_wf [OF assms(1,2) c1]
  have "(a, s') = (a1, s1) \<or> cached_app ops i (do_lookup_app_background js ops now i s1) = (a, s')"
    using assms(3) unfolding resolve_app_def c1 by (cases a1; cases free; simp)
  then consider "a = a1" "s' = s1"
    | "cached_app ops i (do_lookup_app_background js ops now i s1) = (a, s')"
    by blast
  then show ?thesis
  proof cases
    case 1
    with w1 show ?thesis by blast
  next
    case 2
    from cached_app_wf [OF assms(1) lookup_app_wf [OF assms(1) w1(1)] 2] show ?thesis by blast
  qed
qed

lemma proxy_wf_heap:
  "length h = length (sc_app_heap s) \<Longrightarrow>
     proxy_wf ops (s\<lparr>sc_app_heap := h, sc_terminate_queue := q\<rparr>) = proxy_wf ops s"
  by (simp add: proxy_wf_def)

lemma take_instance_wf:
  assumes "take_instance env a s = (r, s')" and "proxy_wf ops s"
  shows "proxy_wf ops s'"
  using assms by (auto simp: take_instance_def proxy_wf_heap split: prod.splits)

lemma pool_back_wf: "proxy_wf ops s \<Longrightarrow> proxy_wf ops (pool_back env a inst s)"
  by (auto simp: pool_back_def proxy_wf_heap split: prod.splits)

lemma attempts_wf:
  "attempts http env req a n i s = (r, s') \<Longrightarrow> proxy_wf ops s \<Longrightarrow> proxy_wf ops s'"
proof (induction n arbitrary: i s)
  case 0
  then show ?case by simp
next
  case (Suc n)
  obtain t s1 where t: "take_instance (env i) a s = (t, s1)" by (cases "take_instance (env i) a s")
  have w1: "proxy_wf ops s1" by (rule take_instance_wf [OF t Suc.prems(2)])
  then have w2: "proxy_wf ops (s1\<lparr>sc_clients := bt_remove k (sc_clients s1)\<rparr>)" for k
    using length_bt_remove [of k "sc_clients s1"] by (simp add: proxy_wf_def)
  show ?case
  proof (cases t)
    case (Inl e)
    with Suc.prems t w1 show ?thesis by auto
  next
    case (Inr inst)
    with Suc.prems(1) t w1 w2 Suc.IH [OF _ w2] Suc.IH [OF _ w1] show ?thesis
      by (auto simp: pool_back_wf split: sum.splits ExecutionError.splits if_splits)
  qed
qed

lemma collect_headers_no_panic: "collect_headers http hs acc \<noteq> Inl (EPanic m)"
  by (induction http hs acc rule: collect_headers.induct) (auto split: option.splits)

lemma read_body_no_panic:
  "(\<forall>m. err \<noteq> Some (EPanic m)) \<Longrightarrow> read_body mx chunks full err \<noteq> Inl (EPanic m)"
  by (induction mx chunks full err rule: read_body.induct) (auto split: option.splits)

lemma handle_request_wf:
  assumes "lru_laws (fst ops)" and "proxy_wf ops s"
    and "\<forall>j. weighted_index_laws (se_weighted_index (at_spawn (rq_attempt env j)))"
    and "handle_request http js ops env req s = (r, s')"
  shows "proxy_wf ops s' \<and> (\<forall>m. r \<noteq> Inl (EPanic m))"
proof -
  let ?host = "request_host http req"
  obtain a1 s1 where rr: "resolve_route ops (rq_route_queue_free env) ?host (hq_path req) s = (a1, s1)"
    by (cases "resolve_route ops (rq_route_queue_free env) ?host (hq_path req) s")
  with resolve_route_wf [OF assms(2), of "rq_route_queue_free env" ?host "hq_path req"]
  have w1: "proxy_wf ops s1" by simp
  have att: "proxy_wf ops s' \<and> (\<forall>m. r \<noteq> Inl (EPanic m))"
    if "resolve_app js ops (rq_app_queue_free env) (rq_now env) i s1 = (Some a, s2)"
      and "attempts http (rq_attempt env) tr a 3 0 s2 = (r, s')" for i a s2 tr
  proof -
    from resolve_app_wf [OF assms(1) w1 that(1)] have w2: "proxy_wf ops s2" "a < length (sc_app_heap s2)"
      by auto
    then have "length (sc_clients s2) \<le> max_runtimes" by (simp add: proxy_wf_def)
    with attempts_no_panic [OF assms(3) _ w2(2)] that(2) have "\<forall>m. r \<noteq> Inl (EPanic m)" by blast
    with attempts_wf [OF that(2) w2(1)] show ?thesis by simp
  qed
  show ?thesis
  proof (cases "resolve_app js ops (rq_app_queue_free env) (rq_now env) (the a1) s1")
    case (Pair a2 s2)
    with resolve_app_wf [OF assms(1) w1 Pair] have "proxy_wf ops s2" by simp
    with assms(2,4) rr w1 Pair att show ?thesis
      by (auto simp: handle_request_def Let_def collect_headers_no_panic read_body_no_panic
          split: option.splits sum.splits)
  qed
qed

end
