(* ===== verification/Proxy_Fidelity.thy ===== *)
theory Proxy_Fidelity
  imports Proxy_Spec
begin

text \<open>
  What passes through the proxy: the request a runtime is given compared with the one received,
  the response sent compared with the runtime's answer, and which attempts are made before.
\<close>

section \<open>Request headers\<close>

text \<open>The values of a header as text, in the order received.\<close>

definition header_values :: "http_ops \<Rightarrow> HeaderMap \<Rightarrow> string \<Rightarrow> string list" where
  "header_values http hs k = map (\<lambda>(_, v). case hv_to_str http v of None \<Rightarrow> [] | Some s \<Rightarrow> s)
     (filter (\<lambda>(k', _). k' = k) hs)"

definition map_values :: "(string, string list) BTreeMap \<Rightarrow> string \<Rightarrow> string list" where
  "map_values m k = (case bt_get m k of None \<Rightarrow> [] | Some vs \<Rightarrow> vs)"

lemma header_values_Nil [simp]: "header_values http [] k = []"
  by (simp add: header_values_def)

lemma header_values_Cons:
  "header_values http ((k', v) # hs) k =
     (if k' = k then (case hv_to_str http v of None \<Rightarrow> [] | Some s \<Rightarrow> s) # header_values http hs k
      else header_values http hs k)"
  by (simp add: header_values_def)

lemma map_values_insert: "map_values (bt_insert k v m) k' = (if k' = k then v else map_values m k')"
  by (simp add: map_values_def bt_get_insert)

lemma collect_headers_Cons:
  "collect_headers http ((k, v) # hs) acc =
     (case hv_to_str http v of
        None \<Rightarrow> Inl (EOther ''failed to convert header to a str'')
      | Some s \<Rightarrow> collect_headers http hs (bt_insert k (map_values acc k @ [s]) acc))"
  by (cases "hv_to_str http v") (simp_all add: map_values_def)

lemma collect_headers_values:
  "collect_headers http hs acc = Inr m \<Longrightarrow>
     map_values m k = map_values acc k @ header_values http hs k"
proof (induction hs arbitrary: acc)
  case (Cons h hs)
  obtain k' v where h: "h = (k', v)" by (cases h)
  with Cons.prems obtain s where s: "hv_to_str http v = Some s"
    and rest: "collect_headers http hs (bt_insert k' (map_values acc k' @ [s]) acc) = Inr m"
    by (auto simp: collect_headers_Cons simp del: collect_headers.simps split: option.splits)
  from Cons.IH [OF rest] h s show ?case
    by (simp add: map_values_insert header_values_Cons)
qed simp

lemma collect_headers_text:
  "collect_headers http hs acc = Inr m \<Longrightarrow> (k, v) \<in> set hs \<Longrightarrow> hv_to_str http v \<noteq> None"
  by (induction hs arbitrary: acc) (auto split: option.splits)

lemma header_values_insert:
  "header_values http (header_insert k v hs) k' =
     (if k' = k then [case hv_to_str http v of None \<Rightarrow> [] | Some s \<Rightarrow> s] else header_values http hs k')"
  by (auto simp: header_values_def header_insert_def filter_empty_conv intro!: arg_cong [where f = "map _"] filter_cong)

section \<open>Response headers\<close>

text \<open>The pairs of a worker's headers as the proxy's HTTP library keeps them.\<close>

definition answer_headers :: "http_ops \<Rightarrow> (string, string list) BTreeMap \<Rightarrow> HeaderMap" where
  "answer_headers http m = concat (map (\<lambda>(k, vs). map (\<lambda>v.
     (the (hn_from_bytes http (as_bytes k)), the (hv_from_bytes http (as_bytes v)))) vs) m)"

lemma append_values_eq:
  "append_values http k vs hs = Inr hs' \<Longrightarrow>
     hs' = hs @ map (\<lambda>v. (the (hn_from_bytes http (as_bytes k)), the (hv_from_bytes http (as_bytes v)))) vs"
  by (induction vs arbitrary: hs) (fastforce simp: header_append_def split: option.splits)+

lemma append_headers_eq: "append_headers http m hs = Inr hs' \<Longrightarrow> hs' = hs @ answer_headers http m"
proof (induction m arbitrary: hs)
  case (Cons e m)
  obtain k vs where "e = (k, vs)" by (cases e)
  with Cons append_values_eq [of http k vs hs] show ?case
    by (fastforce simp: answer_headers_def bind_res_Inr_iff)
qed (simp add: answer_headers_def)

text \<open>\<open>resp\<close> is the response for \<open>fr\<close>: its status, its headers under the server's name, its body.\<close>

definition carries :: "http_ops \<Rightarrow> ResponseObject \<Rightarrow> Response \<Rightarrow> bool" where
  "carries http fr resp \<longleftrightarrow>
     status_from_u16 http (res_status fr) = Some (hr_status resp) \<and>
     hr_headers resp = header_insert ''server'' (as_bytes ''rworkers'') (answer_headers http (res_headers fr)) \<and>
     res_body fr = Binary (hr_body resp)"

lemma build_fetch_response_carries: "build_fetch_response http fr = Inr resp \<Longrightarrow> carries http fr resp"
  by (auto simp: build_fetch_response_def carries_def bind_res_Inr_iff dest!: append_headers_eq
      split: HttpBody.splits option.splits)

section \<open>Attempts\<close>

text \<open>
  The first attempt the worker answers decides: the ones before it did not reach a worker, as
  the runtime was gone or did not know it.
\<close>

definition unanswered :: "attempt_env \<Rightarrow> RequestObject \<Rightarrow> bool" where
  "unanswered env treq \<longleftrightarrow>
     (\<exists>c h. (\<exists>e. at_fetch env c h treq = Inl e) \<or> at_fetch env c h treq = Inr (Inl NoSuchWorker))"

lemma attempts_answer:
  assumes "attempts http env treq a n i s = (Inr resp, s')"
  shows "\<exists>j fr c h. i \<le> j \<and> j < i + n \<and> at_fetch (env j) c h treq = Inr (Inr fr) \<and>
    carries http fr resp \<and> (\<forall>j'. i \<le> j' \<and> j' < j \<longrightarrow> unanswered (env j') treq)"
  using assms
proof (induction n arbitrary: i s)
  case (Suc n)
  obtain r s1 where ti: "take_instance (env i) a s = (r, s1)" by fastforce
  with Suc.prems obtain inst where r: "r = Inr inst" by (cases r) auto
  let ?ans = "at_fetch (env i) (ri_client inst) (ri_handle inst) treq"
  have again: ?case
    if nd: "unanswered (env i) treq" and rest: "attempts http env treq a n (Suc i) s2 = (Inr resp, s')" for s2
  proof -
    from Suc.IH [OF rest] obtain j fr c h where j: "Suc i \<le> j" "j < Suc i + n"
      and f: "at_fetch (env j) c h treq = Inr (Inr fr)" "carries http fr resp"
      and b: "\<forall>j'. Suc i \<le> j' \<and> j' < j \<longrightarrow> unanswered (env j') treq"
      by blast
    from b nd have "\<forall>j'. i \<le> j' \<and> j' < j \<longrightarrow> unanswered (env j') treq"
      by (metis Suc_leI le_neq_implies_less)
    with j f show ?thesis by (intro exI [of _ j] exI [of _ fr] exI [of _ c] exI [of _ h]) auto
  qed
  show ?case
  proof (cases ?ans)
    case (Inl e)
    then have "unanswered (env i) treq" by (auto simp: unanswered_def)
    from again [OF this] Suc.prems ti r Inl show ?thesis by simp
  next
    case (Inr x)
    show ?thesis
    proof (cases x)
      case (Inl e)
      show ?thesis
      proof (cases "e = NoSuchWorker")
        case True
        with Inl Inr have "unanswered (env i) treq" by (auto simp: unanswered_def)
        from again [OF this] Suc.prems ti r Inl Inr True show ?thesis by simp
      next
        case False
        with Suc.prems ti r Inl Inr show ?thesis by (cases e) auto
      qed
    next
      case (Inr fr)
      with Suc.prems ti r \<open>?ans = Inr x\<close> have "carries http fr resp"
        by (auto dest: build_fetch_response_carries)
      with Inr \<open>?ans = Inr x\<close> show ?thesis
        by (intro exI [of _ i] exI [of _ fr] exI [of _ "ri_client inst"] exI [of _ "ri_handle inst"]) auto
    qed
  qed
qed simp

section \<open>The request a worker gets\<close>

definition delivers :: "http_ops \<Rightarrow> Request \<Rightarrow> RequestObject \<Rightarrow> bool" where
  "delivers http req treq \<longleftrightarrow>
     req_method treq = hq_method req \<and>
     req_url treq = ''https://'' @ request_host http req @ hq_uri req \<and>
     (\<exists>chunks. hq_body req = map Inr chunks \<and> req_body treq = Binary (concat chunks)) \<and>
     (\<forall>k. k \<noteq> ''host'' \<longrightarrow> map_values (req_headers treq) k = header_values http (hq_headers req) k) \<and>
     (\<exists>b s. hv_from_bytes http (as_bytes (request_host http req)) = Some b \<and> hv_to_str http b = Some s \<and>
        map_values (req_headers treq) ''host'' = [s])"

lemma split_first_idem: "split_first c (split_first c s) = split_first c s"
  by (simp add: split_first_def takeWhile_idem)

lemma split_request_host: "split_first (CHR '':'') (request_host http req) = request_host http req"
  unfolding request_host_def by (rule split_first_idem)

lemma chunks_all_ok:
  "\<forall>c \<in> set chunks. \<not> is_err c \<Longrightarrow> \<exists>bs. chunks = map Inr bs \<and> chunks_bytes chunks = concat bs"
proof (induction chunks)
  case (Cons c cs)
  then obtain bs where "cs = map Inr bs" "chunks_bytes cs = concat bs" by auto
  moreover from Cons.prems obtain b where "c = Inr b" by (cases c) auto
  ultimately show ?case by (intro exI [of _ "b # bs"]) simp
qed simp

lemma handle_request_delivers:
  assumes "handle_request http js ops env req s = (Inr resp, s')"
  shows "\<exists>treq a s2. delivers http req treq \<and>
    attempts http (rq_attempt env) treq a 3 0 s2 = (Inr resp, s')"
proof -
  let ?host = "request_host http req"
  obtain hv where hv: "hv_from_bytes http (as_bytes ?host) = Some hv"
    using assms by (auto simp: handle_request_def Let_def split: option.splits)
  let ?hs = "header_insert ''host'' hv (hq_headers req)"
  obtain appid s1 where route: "resolve_route ops (rq_route_queue_free env) ?host (hq_path req) s = (Some appid, s1)"
    using assms hv by (auto simp: handle_request_def Let_def split: option.splits prod.splits)
  obtain headers where headers: "collect_headers http ?hs [] = Inr headers"
    using assms hv route by (auto simp: handle_request_def Let_def split: sum.splits)
  obtain body where body:
    "read_body (max_request_body_size_bytes (sc_local_config s1)) (hq_body req) [] None = Inr body"
    using assms hv route headers by (auto simp: handle_request_def Let_def split: sum.splits)
  let ?treq = "\<lparr>req_headers = headers, req_method = hq_method req,
     req_url = ''https://'' @ ?host @ hq_uri req, req_body = Binary body\<rparr>"
  obtain a s2 where "attempts http (rq_attempt env) ?treq a 3 0 s2 = (Inr resp, s')"
    using assms hv route headers body
    by (auto simp: handle_request_def Let_def split_request_host split: option.splits prod.splits)
  moreover have "delivers http req ?treq"
  proof -
    from body have "\<forall>c \<in> set (hq_body req). \<not> is_err c" "body = chunks_bytes (hq_body req)"
      by (simp_all add: read_body_ok)
    with chunks_all_ok [of "hq_body req"] have "\<exists>chunks. hq_body req = map Inr chunks \<and> body = concat chunks"
      by simp
    moreover have "map_values headers k = header_values http ?hs k" for k
      using collect_headers_values [OF headers, of k] by (simp add: map_values_def bt_get_def)
    moreover have "hv_to_str http hv \<noteq> None"
      by (rule collect_headers_text [OF headers, of "''host''"]) (simp add: header_insert_def)
    ultimately show ?thesis
      using hv by (auto simp: delivers_def header_values_insert)
  qed
  ultimately show ?thesis by blast
qed

end
