(* ===== verification/Proxy_Concurrent.thy ===== *)
theory Proxy_Concurrent
  imports Proxy_Fidelity
begin

text \<open>
  Requests that run at the same time in the proxy
  (\<open>src/rusty-workers-proxy/src/sched.rs\<close>): the loop of attempts of \<open>handle_request\<close> with
  \<open>get_instance\<close>, \<open>pool_instance\<close> and \<open>gc_ready_instances\<close> as a step relation. A step ends where
  other tasks can come in between: at a lock, at a call of a runtime, and at each use of the
  termination queue, which is not protected by the lock of the pool. The other tasks are the one
  that terminates instances, the discovery of runtimes and their health queries. What runtimes
  answer and what the clock shows is arbitrary.
\<close>

section \<open>State\<close>

text \<open>
  What tasks share: the pool \<open>ready_instances\<close> of each application and whether its lock is taken,
  the termination queue, the runtimes with the number of tasks that hold their lock for reading;
  and, to state properties, the instances whose termination was requested and the handles that
  runtimes have given out.
\<close>

record pshared =
  ps_pools :: "ReadyInstance list list"
  ps_locked :: "bool list"
  ps_queue :: "ReadyInstance list"
  ps_clients :: "(RuntimeId, RtState) BTreeMap"
  ps_readers :: nat
  ps_terminated :: "ReadyInstance list"
  ps_issued :: "WorkerHandle list"

datatype outcome = Answered ResponseObject | Failed ProxyError | Cancelled

text \<open>What follows \<open>gc_ready_instances\<close>: the rest of \<open>get_instance\<close>, or the end of the request.\<close>

datatype gc_then = ThenGet | ThenReturn outcome

datatype rq_pc =
    NextAttempt
  | GcLock gc_then
  | GcOverflow gc_then
  | GcExpired gc_then
  | Pop
  | Choose
  | Spawning RuntimeId RuntimeServiceClient
  | Fetching ReadyInstance
  | NetError RuntimeId
  | Pooling ReadyInstance outcome
  | Finished outcome

record rq =
  cr_app :: nat
  cr_left :: nat
  cr_pc :: rq_pc

section \<open>Steps of a request\<close>

abbreviation pool_of :: "pshared \<Rightarrow> rq \<Rightarrow> ReadyInstance list" where
  "pool_of s r \<equiv> ps_pools s ! cr_app r"

abbreviation set_pool :: "rq \<Rightarrow> ReadyInstance list \<Rightarrow> pshared \<Rightarrow> pshared" where
  "set_pool r p s \<equiv> s\<lparr>ps_pools := (ps_pools s)[cr_app r := p]\<rparr>"

abbreviation set_locked :: "rq \<Rightarrow> bool \<Rightarrow> pshared \<Rightarrow> pshared" where
  "set_locked r b s \<equiv> s\<lparr>ps_locked := (ps_locked s)[cr_app r := b]\<rparr>"

fun after_gc :: "gc_then \<Rightarrow> rq_pc" where
  "after_gc ThenGet = Pop"
| "after_gc (ThenReturn out) = Finished out"

text \<open>The instance that \<open>get_instance\<close> makes of the handle a runtime gave out.\<close>

definition spawned :: "RuntimeId \<Rightarrow> RuntimeServiceClient \<Rightarrow> Instant \<Rightarrow> WorkerHandle \<Rightarrow> ReadyInstance" where
  "spawned rtid client now h =
     \<lparr>ri_rtid = rtid, ri_last_active = now, ri_handle = h, ri_client = client\<rparr>"

text \<open>
  \<open>rq_lock\<close> to \<open>rq_expired_end\<close> are \<open>gc_ready_instances\<close>, \<open>rq_pop\<close> to \<open>rq_spawned\<close> the rest of
  \<open>get_instance\<close>, \<open>rq_push\<close> and \<open>rq_dropout\<close> the rest of \<open>pool_instance\<close>, and the others the
  loop of \<open>handle_request\<close>.
\<close>

inductive rq_step :: "LocalConfig \<Rightarrow> rq \<Rightarrow> pshared \<Rightarrow> rq \<Rightarrow> pshared \<Rightarrow> bool" for cfg where
  rq_attempt: "cr_pc r = NextAttempt \<Longrightarrow> cr_left r = Suc n \<Longrightarrow>
    rq_step cfg r s (r\<lparr>cr_left := n, cr_pc := GcLock ThenGet\<rparr>) s"
| rq_give_up: "cr_pc r = NextAttempt \<Longrightarrow> cr_left r = 0 \<Longrightarrow>
    rq_step cfg r s (r\<lparr>cr_pc := Finished (Failed (ESched RequestFailedAfterRetries))\<rparr>) s"
| rq_lock: "cr_pc r = GcLock k \<Longrightarrow> \<not> ps_locked s ! cr_app r \<Longrightarrow>
    rq_step cfg r s (r\<lparr>cr_pc := GcOverflow k\<rparr>) (set_locked r True s)"
| rq_overflow: "cr_pc r = GcOverflow k \<Longrightarrow> pool_of s r = x # ready \<Longrightarrow>
    length (x # ready) > unat (max_ready_instances_per_app cfg) \<Longrightarrow>
    rq_step cfg r s r (set_pool r ready (s\<lparr>ps_queue := terminate_try_send x (ps_queue s)\<rparr>))"
| rq_overflow_end: "cr_pc r = GcOverflow k \<Longrightarrow>
    \<not> length (pool_of s r) > unat (max_ready_instances_per_app cfg) \<Longrightarrow>
    rq_step cfg r s (r\<lparr>cr_pc := GcExpired k\<rparr>) s"
| rq_expired: "cr_pc r = GcExpired k \<Longrightarrow> pool_of s r = x # ready \<Longrightarrow> \<not> is_usable cfg now x \<Longrightarrow>
    rq_step cfg r s r (set_pool r ready (s\<lparr>ps_queue := terminate_try_send x (ps_queue s)\<rparr>))"
| rq_expired_end: "cr_pc r = GcExpired k \<Longrightarrow> pool_of s r = [] \<or> is_usable cfg now (hd (pool_of s r)) \<Longrightarrow>
    rq_step cfg r s (r\<lparr>cr_pc := after_gc k\<rparr>) (set_locked r False s)"
| rq_pop: "cr_pc r = Pop \<Longrightarrow> \<not> ps_locked s ! cr_app r \<Longrightarrow> pool_of s r = x # rest \<Longrightarrow>
    rq_step cfg r s (r\<lparr>cr_pc := Fetching (update_last_active now x)\<rparr>) (set_pool r rest s)"
| rq_pop_empty: "cr_pc r = Pop \<Longrightarrow> \<not> ps_locked s ! cr_app r \<Longrightarrow> pool_of s r = [] \<Longrightarrow>
    rq_step cfg r s (r\<lparr>cr_pc := Choose\<rparr>) s"
| rq_no_runtime: "cr_pc r = Choose \<Longrightarrow> ps_clients s = [] \<Longrightarrow>
    rq_step cfg r s (r\<lparr>cr_pc := Finished (Failed (ESched NoAvailableInstance))\<rparr>) s"
| rq_choose: "cr_pc r = Choose \<Longrightarrow> (rtid, rt) \<in> set (ps_clients s) \<Longrightarrow>
    rq_step cfg r s (r\<lparr>cr_pc := Spawning rtid (rs_client rt)\<rparr>) (s\<lparr>ps_readers := Suc (ps_readers s)\<rparr>)"
| rq_spawn_fails: "cr_pc r = Spawning rtid client \<Longrightarrow> e \<in> range EOther \<union> range EGeneric \<Longrightarrow>
    rq_step cfg r s (r\<lparr>cr_pc := Finished (Failed e)\<rparr>) (s\<lparr>ps_readers := ps_readers s - 1\<rparr>)"
| rq_spawned: "cr_pc r = Spawning rtid client \<Longrightarrow>
    rq_step cfg r s (r\<lparr>cr_pc := Fetching (spawned rtid client now h)\<rparr>)
      (s\<lparr>ps_readers := ps_readers s - 1, ps_issued := ps_issued s @ [h]\<rparr>)"
| rq_net_error: "cr_pc r = Fetching inst \<Longrightarrow>
    rq_step cfg r s (r\<lparr>cr_pc := NetError (ri_rtid inst)\<rparr>) s"
| rq_drop_runtime: "cr_pc r = NetError rtid \<Longrightarrow> ps_readers s = 0 \<Longrightarrow>
    rq_step cfg r s (r\<lparr>cr_pc := NextAttempt\<rparr>) (s\<lparr>ps_clients := bt_remove rtid (ps_clients s)\<rparr>)"
| rq_no_such_worker: "cr_pc r = Fetching inst \<Longrightarrow>
    rq_step cfg r s (r\<lparr>cr_pc := NextAttempt\<rparr>) s"
| rq_error: "cr_pc r = Fetching inst \<Longrightarrow> e \<noteq> NoSuchWorker \<Longrightarrow>
    rq_step cfg r s
      (r\<lparr>cr_pc := (if \<not> terminates_worker e
          then Pooling inst (Failed (ESched RequestFailedAfterRetries))
          else Finished (Failed (ESched RequestFailedAfterRetries)))\<rparr>) s"
| rq_answer: "cr_pc r = Fetching inst \<Longrightarrow>
    rq_step cfg r s (r\<lparr>cr_pc := Pooling inst (Answered fetch_res)\<rparr>) s"
| rq_push: "cr_pc r = Pooling inst out \<Longrightarrow> \<not> ps_locked s ! cr_app r \<Longrightarrow>
    f64_lt (dropout_rate cfg) sample \<Longrightarrow>
    rq_step cfg r s (r\<lparr>cr_pc := GcLock (ThenReturn out)\<rparr>) (set_pool r (pool_of s r @ [inst]) s)"
| rq_dropout: "cr_pc r = Pooling inst out \<Longrightarrow> \<not> f64_lt (dropout_rate cfg) sample \<Longrightarrow>
    rq_step cfg r s (r\<lparr>cr_pc := GcLock (ThenReturn out)\<rparr>)
      (s\<lparr>ps_queue := terminate_try_send inst (ps_queue s)\<rparr>)"


text \<open>A client that closes its connection: the request's task is dropped where it awaits something.\<close>

inductive rq_cancelled :: "rq \<Rightarrow> pshared \<Rightarrow> rq \<Rightarrow> pshared \<Rightarrow> bool" where
  rq_cancel: "cr_pc r \<in> {Pop, Choose} \<union> range GcLock \<union> range Fetching \<union> range NetError \<union> range (case_prod Pooling) \<Longrightarrow>
    rq_cancelled r s (r\<lparr>cr_pc := Finished Cancelled\<rparr>) s"
| rq_cancel_spawn: "cr_pc r = Spawning rtid client \<Longrightarrow>
    rq_cancelled r s (r\<lparr>cr_pc := Finished Cancelled\<rparr>) (s\<lparr>ps_readers := ps_readers s - 1\<rparr>)"

section \<open>Steps of the process\<close>

definition ps_start :: "pshared \<times> rq list" where
  "ps_start = (\<lparr>ps_pools = [], ps_locked = [], ps_queue = [], ps_clients = [], ps_readers = 0,
     ps_terminated = [], ps_issued = []\<rparr>, [])"

definition arrive :: "nat \<Rightarrow> rq" where
  "arrive a = \<lparr>cr_app = a, cr_left = 3, cr_pc = NextAttempt\<rparr>"

text \<open>
  A looked-up application starts with an empty pool. Its address stays, also when the cache drops
  it: a request may still hold it.
\<close>

inductive proxy_step :: "LocalConfig \<Rightarrow> pshared \<times> rq list \<Rightarrow> pshared \<times> rq list \<Rightarrow> bool" for cfg where
  ps_request: "i < length rs \<Longrightarrow> rq_step cfg (rs ! i) s r s' \<Longrightarrow> proxy_step cfg (s, rs) (s', rs[i := r])"
| ps_cancel: "i < length rs \<Longrightarrow> rq_cancelled (rs ! i) s r s' \<Longrightarrow> proxy_step cfg (s, rs) (s', rs[i := r])"
| ps_arrive: "a < length (ps_pools s) \<Longrightarrow> proxy_step cfg (s, rs) (s, rs @ [arrive a])"
| ps_new_app: "proxy_step cfg (s, rs)
    (s\<lparr>ps_pools := ps_pools s @ [[]], ps_locked := ps_locked s @ [False]\<rparr>, rs)"
| ps_terminate: "ps_queue s = inst # q \<Longrightarrow>
    proxy_step cfg (s, rs) (s\<lparr>ps_queue := q, ps_terminated := ps_terminated s @ [inst]\<rparr>, rs)"
| ps_discover: "ps_readers s = 0 \<Longrightarrow>
    proxy_step cfg (s, rs) (s\<lparr>ps_clients := add_discovered items (ps_clients s)\<rparr>, rs)"
| ps_query: "proxy_step cfg (s, rs) (s\<lparr>ps_clients := fst (query_loop load (ps_clients s))\<rparr>, rs)"
| ps_drop: "ps_readers s = 0 \<Longrightarrow>
    proxy_step cfg (s, rs) (s\<lparr>ps_clients := fold bt_remove to_drop (ps_clients s)\<rparr>, rs)"

inductive ps_reachable :: "LocalConfig \<Rightarrow> pshared \<times> rq list \<Rightarrow> bool" for cfg where
  ps_reach_start: "ps_reachable cfg ps_start"
| ps_reach_step: "ps_reachable cfg x \<Longrightarrow> proxy_step cfg x y \<Longrightarrow> ps_reachable cfg y"

inductive_cases rq_stepE: "rq_step cfg r s r' s'"
inductive_cases proxy_stepE: "proxy_step cfg x y"

end
