(* ===== verification/Proxy_Concurrent_Spec.thy ===== *)
theory Proxy_Concurrent_Spec
  imports Proxy_Concurrent
begin

text \<open>
  The facts on requests that run at the same time: where instances can be, who holds the locks,
  that requests end, and that the attempts of \<open>Proxy\<close> are the run of one request without others
  in between.
\<close>

section \<open>Where the instances are\<close>

fun held_pc :: "rq_pc \<Rightarrow> ReadyInstance list" where
  "held_pc (Fetching inst) = [inst]"
| "held_pc (Pooling inst _) = [inst]"
| "held_pc _ = []"

definition held :: "rq \<Rightarrow> ReadyInstance list" where
  "held r = held_pc (cr_pc r)"

lemma held_after_gc [simp]: "held_pc (after_gc k) = []"
  by (cases k) simp_all

text \<open>All instances: pooled, held by a request, to be terminated, terminated.\<close>

definition everywhere :: "pshared \<times> rq list \<Rightarrow> ReadyInstance list" where
  "everywhere = (\<lambda>(s, rs).
     concat (ps_pools s) @ concat (map held rs) @ ps_queue s @ ps_terminated s)"

definition handles :: "ReadyInstance list \<Rightarrow> WorkerHandle multiset" where
  "handles xs = mset (map ri_handle xs)"

lemma handles_simps [simp]:
  "handles [] = {#}"
  "handles (x # xs) = add_mset (ri_handle x) (handles xs)"
  "handles (xs @ ys) = handles xs + handles ys"
  by (simp_all add: handles_def)

lemma handles_update_last_active [simp]: "ri_handle (update_last_active now x) = ri_handle x"
  by (simp add: update_last_active_def)

lemma handle_spawned [simp]: "ri_handle (spawned rtid client now h) = h"
  by (simp add: spawned_def)

lemma handles_try_send: "handles (terminate_try_send x q) \<subseteq># add_mset (ri_handle x) (handles q)"
  by (simp add: terminate_try_send_def)

lemma handles_concat_update:
  "i < length xs \<Longrightarrow> handles (concat (xs[i := y])) + handles (xs ! i) = handles (concat xs) + handles y"
proof (induction xs arbitrary: i)
  case (Cons x xs)
  then show ?case by (cases i) (simp_all add: ac_simps)
qed simp

definition rq_handles :: "rq \<Rightarrow> pshared \<Rightarrow> WorkerHandle multiset" where
  "rq_handles r s =
     handles (concat (ps_pools s)) + handles (held r) + handles (ps_queue s) + handles (ps_terminated s)"

lemma handles_pool_head:
  assumes "cr_app r < length (ps_pools s)" and "pool_of s r = x # ready"
  shows "handles (concat (ps_pools s)) =
    add_mset (ri_handle x) (handles (concat ((ps_pools s)[cr_app r := ready])))"
  using handles_concat_update [OF assms(1), of ready] assms(2) by simp

lemma handles_pool_push:
  assumes "cr_app r < length (ps_pools s)"
  shows "handles (concat ((ps_pools s)[cr_app r := pool_of s r @ [x]])) =
    add_mset (ri_handle x) (handles (concat (ps_pools s)))"
  using handles_concat_update [OF assms, of "pool_of s r @ [x]"] by simp

lemma rq_step_handles:
  assumes "rq_step cfg r s r' s'" and "cr_app r < length (ps_pools s)"
  shows "rq_handles r' s' + mset (ps_issued s) \<subseteq># rq_handles r s + mset (ps_issued s')"
  using assms(1)
  by (cases rule: rq_step.cases)
    (use assms(2) in \<open>auto simp: rq_handles_def held_def handles_pool_head handles_pool_push
      terminate_try_send_def\<close>)

lemma rq_cancelled_handles:
  assumes "rq_cancelled r s r' s'"
  shows "rq_handles r' s' + mset (ps_issued s) \<subseteq># rq_handles r s + mset (ps_issued s')"
  using assms by cases (auto simp: rq_handles_def held_def)

lemma rq_step_shape:
  assumes "rq_step cfg r s r' s'"
  shows "cr_app r' = cr_app r" and "length (ps_pools s') = length (ps_pools s)"
    and "length (ps_locked s') = length (ps_locked s)"
  using assms by (cases rule: rq_step.cases; simp)+

lemma rq_cancelled_shape:
  assumes "rq_cancelled r s r' s'"
  shows "cr_app r' = cr_app r" and "ps_pools s' = ps_pools s" and "ps_locked s' = ps_locked s"
  using assms by (cases; simp)+

definition issued_only :: "pshared \<times> rq list \<Rightarrow> bool" where
  "issued_only x \<longleftrightarrow> handles (everywhere x) \<subseteq># mset (ps_issued (fst x))"

text \<open>What one request does to the instances carries over to all.\<close>

lemma issued_only_update:
  assumes "rq_handles r s' + mset (ps_issued s) \<subseteq># rq_handles (rs ! i) s + mset (ps_issued s')"
    and "i < length rs" and "issued_only (s, rs)"
  shows "issued_only (s', rs[i := r])"
  unfolding issued_only_def
proof (rule mset_subset_eqI)
  fix h
  have "handles (concat (map held (rs[i := r]))) + handles (held (rs ! i)) =
      handles (concat (map held rs)) + handles (held r)"
    using handles_concat_update [of i "map held rs" "held r"] assms(2) by (simp add: map_update)
  note arg_cong [OF this, of "\<lambda>m. count m h"] mset_subset_eq_count [OF assms(1), of h]
  moreover have "count (handles (everywhere (s, rs))) h \<le> count (mset (ps_issued s)) h"
    using assms(3) by (simp add: issued_only_def mset_subset_eq_count)
  ultimately show "count (handles (everywhere (s', rs[i := r]))) h \<le> count (mset (ps_issued (fst (s', rs[i := r])))) h"
    by (simp add: everywhere_def rq_handles_def)
qed

definition ps_wf :: "pshared \<times> rq list \<Rightarrow> bool" where
  "ps_wf = (\<lambda>(s, rs). length (ps_locked s) = length (ps_pools s) \<and>
     (\<forall>r \<in> set rs. cr_app r < length (ps_pools s)))"

lemma ps_wf_step:
  assumes "proxy_step cfg x y" and "ps_wf x"
  shows "ps_wf y"
  using assms(1)
proof cases
  case (ps_request i rs s r s')
  note shape = rq_step_shape [OF ps_request(4)]
  from ps_request(1,3) assms(2) have "length (ps_locked s) = length (ps_pools s)"
    and "cr_app (rs ! i) < length (ps_pools s)" and "\<forall>r \<in> set rs. cr_app r < length (ps_pools s)"
    by (simp_all add: ps_wf_def)
  with shape show ?thesis
    unfolding ps_request(2) ps_wf_def by (auto dest: set_update_subset_insert [THEN subsetD])
next
  case (ps_cancel i rs s r s')
  with assms(2) rq_cancelled_shape [OF ps_cancel(4)] show ?thesis
    unfolding ps_cancel(2) ps_wf_def by (auto dest: set_update_subset_insert [THEN subsetD])
qed (use assms(2) in \<open>auto simp: ps_wf_def arrive_def less_SucI\<close>)

lemma issued_only_step:
  assumes "proxy_step cfg x y" and "ps_wf x" and "issued_only x"
  shows "issued_only y"
  using assms(1)
proof cases
  case (ps_request i rs s r s')
  from ps_request assms(2) have "cr_app (rs ! i) < length (ps_pools s)"
    by (simp add: ps_wf_def)
  from issued_only_update [OF rq_step_handles [OF ps_request(4) this] ps_request(3)] assms(3) ps_request(1,2)
  show ?thesis by simp
next
  case (ps_cancel i rs s r s')
  from issued_only_update [OF rq_cancelled_handles [OF ps_cancel(4)] ps_cancel(3)] assms(3) ps_cancel(1,2)
  show ?thesis by simp
next
  case (ps_terminate s inst q rs)
  with assms(3) show ?thesis by (simp add: issued_only_def everywhere_def ac_simps)
qed (use assms(3) in \<open>simp_all add: issued_only_def everywhere_def arrive_def held_def\<close>)

lemma reachable_wf: "ps_reachable cfg x \<Longrightarrow> ps_wf x"
  by (induction rule: ps_reachable.induct) (auto simp: ps_start_def ps_wf_def dest: ps_wf_step [unfolded ps_wf_def])

lemma reachable_issued_only: "ps_reachable cfg x \<Longrightarrow> issued_only x"
  by (induction rule: ps_reachable.induct)
    (auto simp: issued_only_def everywhere_def ps_start_def dest: issued_only_step reachable_wf)

lemma distinct_subset_mset:
  assumes "mset xs \<subseteq># mset ys" and "distinct ys"
  shows "distinct xs"
  unfolding distinct_count_atmost_1
proof
  fix a
  have "count (mset xs) a \<le> count (mset ys) a" using assms(1) by (rule mset_subset_eq_count)
  also have "\<dots> \<le> 1" using assms(2) by (simp add: distinct_count_atmost_1)
  finally show "count (mset xs) a = (if a \<in> set xs then 1 else 0)"
    by (auto simp: count_mset_0_iff le_Suc_eq simp flip: count_greater_eq_one_iff)
qed

section \<open>Who holds a lock\<close>

fun in_gc :: "rq_pc \<Rightarrow> bool" where
  "in_gc (GcOverflow _) = True"
| "in_gc (GcExpired _) = True"
| "in_gc _ = False"

fun spawning :: "rq_pc \<Rightarrow> bool" where
  "spawning (Spawning _ _) = True"
| "spawning _ = False"

lemma after_gc_simps [simp]: "\<not> in_gc (after_gc k)" "\<not> spawning (after_gc k)"
  by (cases k; simp)+

abbreviation holders :: "nat \<Rightarrow> rq list \<Rightarrow> nat" where
  "holders a rs \<equiv> length (filter (\<lambda>r. cr_app r = a \<and> in_gc (cr_pc r)) rs)"

abbreviation spawners :: "rq list \<Rightarrow> nat" where
  "spawners rs \<equiv> length (filter (\<lambda>r. spawning (cr_pc r)) rs)"

text \<open>The lock of a pool is held by one request exactly if it is taken; spawning requests read.\<close>

definition locks_ok :: "pshared \<times> rq list \<Rightarrow> bool" where
  "locks_ok = (\<lambda>(s, rs).
     (\<forall>a < length (ps_pools s). holders a rs = of_bool (ps_locked s ! a)) \<and> ps_readers s = spawners rs)"

lemma length_filter_member: "i < length xs \<Longrightarrow> P (xs ! i) \<Longrightarrow> 0 < length (filter P xs)"
  by (auto simp: filter_empty_conv)

lemma rq_step_locks:
  assumes "rq_step cfg r s r' s'" and "cr_app r < length (ps_locked s)"
    and "in_gc (cr_pc r) \<Longrightarrow> ps_locked s ! cr_app r" and "spawning (cr_pc r) \<Longrightarrow> 0 < ps_readers s"
  shows "of_bool (cr_app r' = a \<and> in_gc (cr_pc r')) + of_bool (ps_locked s ! a) =
      (of_bool (cr_app r = a \<and> in_gc (cr_pc r)) + of_bool (ps_locked s' ! a) :: nat)"
    and "of_bool (spawning (cr_pc r')) + ps_readers s = of_bool (spawning (cr_pc r)) + ps_readers s'"
  using assms(1)
  by (cases rule: rq_step.cases; use assms(2-4) in \<open>auto simp: nth_list_update of_bool_def\<close>)+

lemma rq_cancelled_locks:
  assumes "rq_cancelled r s r' s'" and "spawning (cr_pc r) \<Longrightarrow> 0 < ps_readers s"
  shows "of_bool (cr_app r' = a \<and> in_gc (cr_pc r')) + of_bool (ps_locked s ! a) =
      (of_bool (cr_app r = a \<and> in_gc (cr_pc r)) + of_bool (ps_locked s' ! a) :: nat)"
    and "of_bool (spawning (cr_pc r')) + ps_readers s = of_bool (spawning (cr_pc r)) + ps_readers s'"
  using assms by (cases rule: rq_cancelled.cases; auto)+

lemma locks_ok_update:
  assumes "locks_ok (s, rs)" and "i < length rs" and "length (ps_pools s') = length (ps_pools s)"
    and gc: "\<And>a. of_bool (cr_app r = a \<and> in_gc (cr_pc r)) + of_bool (ps_locked s ! a) =
      (of_bool (cr_app (rs ! i) = a \<and> in_gc (cr_pc (rs ! i))) + of_bool (ps_locked s' ! a) :: nat)"
    and sp: "of_bool (spawning (cr_pc r)) + ps_readers s = of_bool (spawning (cr_pc (rs ! i))) + ps_readers s'"
  shows "locks_ok (s', rs[i := r])"
proof -
  have "holders a (rs[i := r]) = of_bool (ps_locked s' ! a)" if "a < length (ps_pools s)" for a
    using length_filter_update [OF assms(2), of "\<lambda>r. cr_app r = a \<and> in_gc (cr_pc r)" r] gc [of a] that assms(1)
    by (simp add: locks_ok_def of_bool_def)
  moreover have "ps_readers s' = spawners (rs[i := r])"
    using length_filter_update [OF assms(2), of "\<lambda>r. spawning (cr_pc r)" r] sp assms(1)
    by (simp add: locks_ok_def of_bool_def)
  ultimately show ?thesis using assms(3) by (simp add: locks_ok_def)
qed

lemma locks_ok_member:
  assumes "locks_ok (s, rs)" and "ps_wf (s, rs)" and "i < length rs"
  shows "cr_app (rs ! i) < length (ps_locked s)"
    and "in_gc (cr_pc (rs ! i)) \<Longrightarrow> ps_locked s ! cr_app (rs ! i)"
    and "spawning (cr_pc (rs ! i)) \<Longrightarrow> 0 < ps_readers s"
proof -
  show a: "cr_app (rs ! i) < length (ps_locked s)" using assms(2,3) by (simp add: ps_wf_def)
  have "holders (cr_app (rs ! i)) rs = of_bool (ps_locked s ! cr_app (rs ! i))"
    using assms(1,2) a by (simp add: locks_ok_def ps_wf_def)
  moreover have "0 < holders (cr_app (rs ! i)) rs" if "in_gc (cr_pc (rs ! i))"
    by (rule length_filter_member [OF assms(3)]) (simp add: that)
  ultimately show "in_gc (cr_pc (rs ! i)) \<Longrightarrow> ps_locked s ! cr_app (rs ! i)"
    by (cases "ps_locked s ! cr_app (rs ! i)") (simp_all del: length_greater_0_conv)
  show "spawning (cr_pc (rs ! i)) \<Longrightarrow> 0 < ps_readers s"
    using length_filter_member [OF assms(3), of "\<lambda>r. spawning (cr_pc r)"] assms(1) by (simp add: locks_ok_def)
qed

lemma locks_ok_step:
  assumes "proxy_step cfg x y" and "ps_wf x" and "locks_ok x"
  shows "locks_ok y"
  using assms(1)
proof cases
  case (ps_request i rs s r s')
  note member = locks_ok_member [OF assms(3,2) [unfolded ps_request(1)] ps_request(3)]
  show ?thesis
    unfolding ps_request(2) using rq_step_locks [OF ps_request(4) member] rq_step_shape [OF ps_request(4)]
    by (intro locks_ok_update [OF assms(3) [unfolded ps_request(1)] ps_request(3)]) simp_all
next
  case (ps_cancel i rs s r s')
  note member = locks_ok_member [OF assms(3,2) [unfolded ps_cancel(1)] ps_cancel(3)]
  show ?thesis
    unfolding ps_cancel(2) using rq_cancelled_locks [OF ps_cancel(4) member(3)] rq_cancelled_shape [OF ps_cancel(4)]
    by (intro locks_ok_update [OF assms(3) [unfolded ps_cancel(1)] ps_cancel(3)]) simp_all
next
  case (ps_new_app s rs)
  with assms(2,3) show ?thesis
    by (auto simp: locks_ok_def ps_wf_def nth_append less_Suc_eq filter_empty_conv)
qed (use assms(3) in \<open>simp_all add: locks_ok_def arrive_def\<close>)

lemma reachable_locks_ok: "ps_reachable cfg x \<Longrightarrow> locks_ok x"
proof (induction rule: ps_reachable.induct)
  case (ps_reach_step x y)
  then show ?case by (blast intro: locks_ok_step reachable_wf)
qed (simp add: locks_ok_def ps_start_def)

section \<open>Every request ends\<close>

text \<open>
  A measure that each step of a request decreases, also the steps that only shorten a pool: an
  attempt counts 20, a place in the code what is left of the attempt from there, and a pooled
  instance 1.
\<close>

fun pc_rank :: "rq_pc \<Rightarrow> nat" where
  "pc_rank (Finished _) = 0"
| "pc_rank (GcExpired (ThenReturn _)) = 1"
| "pc_rank (GcOverflow (ThenReturn _)) = 2"
| "pc_rank (GcLock (ThenReturn _)) = 3"
| "pc_rank (Pooling _ _) = 5"
| "pc_rank NextAttempt = 6"
| "pc_rank (NetError _) = 7"
| "pc_rank (Fetching _) = 8"
| "pc_rank (Spawning _ _) = 9"
| "pc_rank Choose = 10"
| "pc_rank Pop = 11"
| "pc_rank (GcExpired ThenGet) = 12"
| "pc_rank (GcOverflow ThenGet) = 13"
| "pc_rank (GcLock ThenGet) = 14"

fun unfinished :: "rq_pc \<Rightarrow> bool" where
  "unfinished (Finished _) = False"
| "unfinished _ = True"

definition rq_rank :: "rq \<Rightarrow> nat" where
  "rq_rank r = (if unfinished (cr_pc r) then 20 * cr_left r + pc_rank (cr_pc r) else 0)"

definition pooled :: "pshared \<Rightarrow> nat" where
  "pooled s = sum_list (map length (ps_pools s))"

definition work_left :: "pshared \<times> rq list \<Rightarrow> nat" where
  "work_left = (\<lambda>(s, rs). sum_list (map rq_rank rs) + pooled s)"

lemma sum_list_update_nat:
  "i < length xs \<Longrightarrow> sum_list (map f (xs[i := y])) + f (xs ! i) = sum_list (map f xs) + (f y :: nat)"
proof (induction xs arbitrary: i)
  case (Cons x xs)
  then show ?case by (cases i) simp_all
qed simp

lemma pooled_set_pool:
  "cr_app r < length (ps_pools s) \<Longrightarrow>
     sum_list (map length ((ps_pools s)[cr_app r := p])) + length (pool_of s r) = pooled s + length p"
  unfolding pooled_def by (rule sum_list_update_nat)

lemma rq_rank_after_gc: "rq_rank (r\<lparr>cr_pc := after_gc k\<rparr>) < rq_rank (r\<lparr>cr_pc := GcExpired k\<rparr>)"
  by (cases k) (simp_all add: rq_rank_def)

lemma rq_step_rank:
  assumes "rq_step cfg r s r' s'" and "cr_app r < length (ps_pools s)"
  shows "rq_rank r' + pooled s' < rq_rank r + pooled s"
  using assms(1)
proof cases
  case (rq_overflow k x ready)
  with pooled_set_pool [OF assms(2), of ready] show ?thesis by (simp add: pooled_def)
next
  case (rq_expired k x ready now)
  with pooled_set_pool [OF assms(2), of ready] show ?thesis by (simp add: pooled_def)
next
  case (rq_expired_end k now)
  then show ?thesis by (cases k) (simp_all add: pooled_def rq_rank_def)
next
  case (rq_lock k)
  then show ?thesis by (cases k) (simp_all add: pooled_def rq_rank_def)
next
  case (rq_overflow_end k)
  then show ?thesis by (cases k) (simp_all add: pooled_def rq_rank_def)
next
  case (rq_pop x rest now)
  with pooled_set_pool [OF assms(2), of rest] show ?thesis by (simp add: pooled_def rq_rank_def)
next
  case (rq_push inst out sample)
  with pooled_set_pool [OF assms(2), of "pool_of s r @ [inst]"] show ?thesis
    by (simp add: pooled_def rq_rank_def)
qed (simp_all add: pooled_def rq_rank_def)

inductive request_step :: "LocalConfig \<Rightarrow> pshared \<times> rq list \<Rightarrow> pshared \<times> rq list \<Rightarrow> bool" for cfg where
  request_step: "i < length rs \<Longrightarrow> rq_step cfg (rs ! i) s r s' \<Longrightarrow> request_step cfg (s, rs) (s', rs[i := r])"

lemma request_step_proxy: "request_step cfg x y \<Longrightarrow> proxy_step cfg x y"
  by (cases rule: request_step.cases, assumption) (simp add: ps_request)

lemma request_step_work:
  assumes "request_step cfg x y" and "ps_wf x"
  shows "work_left y < work_left x"
  using assms(1)
proof cases
  case (request_step i rs s r s')
  with assms(2) have "cr_app (rs ! i) < length (ps_pools s)" by (simp add: ps_wf_def)
  from rq_step_rank [OF request_step(4) this] sum_list_update_nat [OF request_step(3), of rq_rank r]
  show ?thesis by (simp add: request_step(1,2) work_left_def)
qed

lemma request_steps_work: "(request_step cfg ^^ n) x y \<Longrightarrow> ps_wf x \<Longrightarrow> n + work_left y \<le> work_left x"
proof (induction n arbitrary: x)
  case (Suc n)
  from relpowp_Suc_D2 [OF Suc.prems(1)] obtain z where "request_step cfg x z" "(request_step cfg ^^ n) z y"
    by blast
  with Suc.IH [of z] Suc.prems(2) request_step_work [of cfg x z] ps_wf_step [OF request_step_proxy, of cfg x z]
  show ?case by fastforce
qed simp

text \<open>A request that does not wait for a lock can go on, whatever the others do.\<close>

lemma rq_step_possible:
  assumes "unfinished (cr_pc r)"
    and "in_gc (cr_pc r) \<or> spawning (cr_pc r) \<or> \<not> ps_locked s ! cr_app r \<and> ps_readers s = 0"
  shows "\<exists>r' s'. rq_step cfg r s r' s'"
proof (cases "cr_pc r")
  case NextAttempt
  then show ?thesis by (cases "cr_left r") (blast intro: rq_attempt rq_give_up)+
next
  case (GcLock k)
  with assms(2) show ?thesis by (auto intro: rq_lock)
next
  case (GcOverflow k)
  show ?thesis
  proof (cases "length (pool_of s r) > unat (max_ready_instances_per_app cfg)")
    case True
    moreover from True obtain x ready where "pool_of s r = x # ready" by (cases "pool_of s r") auto
    ultimately show ?thesis using rq_overflow [OF GcOverflow, of s x ready cfg] by auto
  next
    case False
    with rq_overflow_end [OF GcOverflow] show ?thesis by blast
  qed
next
  case (GcExpired k)
  show ?thesis
  proof (cases "pool_of s r = [] \<or> is_usable cfg 0 (hd (pool_of s r))")
    case True
    with rq_expired_end [OF GcExpired] show ?thesis by blast
  next
    case False
    then obtain x ready where "pool_of s r = x # ready" "\<not> is_usable cfg 0 x" by (cases "pool_of s r") auto
    with rq_expired [OF GcExpired] show ?thesis by blast
  qed
next
  case Pop
  with assms(2) show ?thesis by (cases "pool_of s r") (auto intro: rq_pop rq_pop_empty)
next
  case Choose
  show ?thesis
  proof (cases "ps_clients s")
    case Nil
    with Choose show ?thesis by (blast intro: rq_no_runtime)
  next
    case (Cons c cs)
    then have "(fst c, snd c) \<in> set (ps_clients s)" by simp
    with Choose show ?thesis by (blast intro: rq_choose)
  qed
next
  case (Spawning rtid client)
  then show ?thesis by (blast intro: rq_spawned)
next
  case (Fetching inst)
  then show ?thesis by (blast intro: rq_no_such_worker)
next
  case (NetError rtid)
  with assms(2) show ?thesis by (auto intro: rq_drop_runtime)
next
  case (Pooling inst out)
  with assms(2) show ?thesis
    by (cases "f64_lt (dropout_rate cfg) (Fin 0)") (auto intro: rq_push rq_dropout)
next
  case (Finished out)
  with assms(1) show ?thesis by simp
qed

lemma some_request_goes_on:
  assumes "locks_ok (s, rs)" and "ps_wf (s, rs)" and "r \<in> set rs" and "unfinished (cr_pc r)"
  shows "\<exists>y. request_step cfg (s, rs) y"
proof (cases "\<exists>j < length rs. in_gc (cr_pc (rs ! j)) \<or> spawning (cr_pc (rs ! j))")
  case True
  then obtain j where "j < length rs" and busy: "in_gc (cr_pc (rs ! j)) \<or> spawning (cr_pc (rs ! j))" by blast
  moreover from busy have "unfinished (cr_pc (rs ! j))" by (cases "cr_pc (rs ! j)") simp_all
  ultimately show ?thesis using rq_step_possible [of "rs ! j" s cfg] request_step by blast
next
  case False
  from assms(3) obtain j where j: "j < length rs" "r = rs ! j" by (auto simp: in_set_conv_nth)
  from False have "filter (\<lambda>r. spawning (cr_pc r)) rs = []"
    and "filter (\<lambda>q. cr_app q = cr_app r \<and> in_gc (cr_pc q)) rs = []"
    by (auto simp: filter_empty_conv in_set_conv_nth)
  with assms have "\<not> ps_locked s ! cr_app r" and "ps_readers s = 0"
    by (auto simp: locks_ok_def ps_wf_def)
  with j assms(4) rq_step_possible [of r s cfg] show ?thesis by (blast intro: request_step)
qed

section \<open>A request without others in between\<close>

abbreviation rq_run :: "LocalConfig \<Rightarrow> rq \<times> pshared \<Rightarrow> rq \<times> pshared \<Rightarrow> bool" where
  "rq_run cfg \<equiv> (\<lambda>x y. rq_step cfg (fst x) (snd x) (fst y) (snd y))\<^sup>*\<^sup>*"

lemma rq_run_step:
  "rq_step cfg r s r1 s1 \<Longrightarrow> rq_run cfg (r1, s1) y \<Longrightarrow> rq_run cfg (r, s) y"
  by (rule converse_rtranclp_into_rtranclp [of _ "(r, s)" "(r1, s1)"]) simp_all

lemma rq_run_one: "rq_step cfg r s r1 s1 \<Longrightarrow> rq_run cfg (r, s) (r1, s1)"
  by (rule r_into_rtranclp) simp

lemma run_overflow:
  assumes "gc_overflow (unat (max_ready_instances_per_app cfg)) ready q = (ready', q')"
    and "cr_pc r = GcOverflow k" and "cr_app r < length (ps_pools s)"
  shows "rq_run cfg (r, set_pool r ready (s\<lparr>ps_queue := q\<rparr>))
    (r\<lparr>cr_pc := GcExpired k\<rparr>, set_pool r ready' (s\<lparr>ps_queue := q'\<rparr>))"
  using assms(1)
proof (induction "unat (max_ready_instances_per_app cfg)" ready q rule: gc_overflow.induct)
  case (1 q)
  with assms(2,3) show ?case
    by (auto intro!: rq_run_one rq_overflow_end)
next
  case (2 x ready q)
  let ?s = "\<lambda>ready q. set_pool r ready (s\<lparr>ps_queue := q\<rparr>)"
  show ?case
  proof (cases "length (x # ready) > unat (max_ready_instances_per_app cfg)")
    case True
    have "rq_step cfg r (?s (x # ready) q) r
        (set_pool r ready ((?s (x # ready) q)\<lparr>ps_queue := terminate_try_send x (ps_queue (?s (x # ready) q))\<rparr>))"
      by (rule rq_overflow [OF assms(2)]) (use True assms(3) in simp_all)
    then have "rq_step cfg r (?s (x # ready) q) r (?s ready (terminate_try_send x q))" by simp
    with 2 True show ?thesis by (auto intro: rq_run_step)
  next
    case False
    with 2 assms(2,3) show ?thesis by (auto intro!: rq_run_one rq_overflow_end)
  qed
qed

lemma run_expired:
  assumes "gc_expired cfg clock i ready q = (ready', q')"
    and "cr_pc r = GcExpired k" and "cr_app r < length (ps_pools s)"
  shows "rq_run cfg (r, set_pool r ready (s\<lparr>ps_queue := q\<rparr>))
    (r\<lparr>cr_pc := after_gc k\<rparr>, set_locked r False (set_pool r ready' (s\<lparr>ps_queue := q'\<rparr>)))"
  using assms(1)
proof (induction cfg clock i ready q rule: gc_expired.induct)
  case (1 cfg clock i q)
  have "rq_step cfg r (set_pool r [] (s\<lparr>ps_queue := q\<rparr>)) (r\<lparr>cr_pc := after_gc k\<rparr>)
      (set_locked r False (set_pool r [] (s\<lparr>ps_queue := q\<rparr>)))"
    by (rule rq_expired_end [OF assms(2)]) (use assms(3) in simp)
  with 1 show ?case by (auto intro: rq_run_one)
next
  case (2 cfg clock i x ready q)
  let ?s = "\<lambda>ready q. set_pool r ready (s\<lparr>ps_queue := q\<rparr>)"
  show ?case
  proof (cases "is_usable cfg (clock i) x")
    case True
    have "rq_step cfg r (?s (x # ready) q) (r\<lparr>cr_pc := after_gc k\<rparr>) (set_locked r False (?s (x # ready) q))"
      by (rule rq_expired_end [OF assms(2), of _ _ "clock i"]) (use assms(3) True in simp)
    with 2 True show ?thesis by (auto intro: rq_run_one)
  next
    case False
    have "rq_step cfg r (?s (x # ready) q) r
        (set_pool r ready ((?s (x # ready) q)\<lparr>ps_queue := terminate_try_send x (ps_queue (?s (x # ready) q))\<rparr>))"
      by (rule rq_expired [OF assms(2)]) (use False assms(3) in simp_all)
    then have "rq_step cfg r (?s (x # ready) q) r (?s ready (terminate_try_send x q))" by simp
    with 2 False show ?thesis by (auto intro: rq_run_step)
  qed
qed

lemma run_gc:
  assumes "gc_ready_instances cfg clock ready q = (ready', q')"
    and "cr_pc r = GcLock k" and "cr_app r < length (ps_pools s)" and "length (ps_locked s) = length (ps_pools s)"
    and "\<not> ps_locked s ! cr_app r" and "pool_of s r = ready" and "ps_queue s = q"
  shows "rq_run cfg (r, s) (r\<lparr>cr_pc := after_gc k\<rparr>, set_pool r ready' (s\<lparr>ps_queue := q'\<rparr>))"
proof -
  obtain ready1 q1 where o: "gc_overflow (unat (max_ready_instances_per_app cfg)) ready q = (ready1, q1)"
    by fastforce
  with assms(1) have e: "gc_expired cfg clock 0 ready1 q1 = (ready', q')"
    by (simp add: gc_ready_instances_def)
  let ?r1 = "r\<lparr>cr_pc := GcOverflow k\<rparr>" and ?s1 = "set_locked r True s"
  have same: "set_pool ?r1 ready (?s1\<lparr>ps_queue := q\<rparr>) = ?s1"
    using assms(6,7) by auto
  from run_overflow [OF o, of ?r1 k ?s1] assms(3) same
  have "rq_run cfg (?r1, ?s1) (r\<lparr>cr_pc := GcExpired k\<rparr>, set_pool r ready1 (?s1\<lparr>ps_queue := q1\<rparr>))"
    by simp
  moreover have "rq_run cfg (r\<lparr>cr_pc := GcExpired k\<rparr>, set_pool r ready1 (?s1\<lparr>ps_queue := q1\<rparr>))
      (r\<lparr>cr_pc := after_gc k\<rparr>, set_locked r False (set_pool r ready' (?s1\<lparr>ps_queue := q'\<rparr>)))"
    using run_expired [OF e, of "r\<lparr>cr_pc := GcExpired k\<rparr>" k ?s1] assms(3) by simp
  moreover have "set_locked r False (set_pool r ready' (?s1\<lparr>ps_queue := q'\<rparr>)) =
      set_pool r ready' (s\<lparr>ps_queue := q'\<rparr>)"
    using assms(3-5) by (simp add: list_update_same_conv)
  ultimately have "rq_run cfg (?r1, ?s1) (r\<lparr>cr_pc := after_gc k\<rparr>, set_pool r ready' (s\<lparr>ps_queue := q'\<rparr>))"
    by (simp only: rtranclp_trans)
  with rq_lock [OF assms(2,5)] show ?thesis by (rule rq_run_step)
qed

text \<open>The shared state that a scheduler stands for while no request is under way.\<close>

definition shared_of :: "('ac, 'rc) Scheduler \<Rightarrow> ReadyInstance list \<Rightarrow> WorkerHandle list \<Rightarrow> pshared" where
  "shared_of s terminated issued =
     \<lparr>ps_pools = map ready_instances (sc_app_heap s), ps_locked = replicate (length (sc_app_heap s)) False,
      ps_queue = sc_terminate_queue s, ps_clients = sc_clients s, ps_readers = 0,
      ps_terminated = terminated, ps_issued = issued\<rparr>"

definition with_pool :: "nat \<Rightarrow> ReadyInstance list \<Rightarrow> ReadyInstance list \<Rightarrow> ('ac, 'rc) Scheduler \<Rightarrow> ('ac, 'rc) Scheduler" where
  "with_pool a ready q s =
     s\<lparr>sc_app_heap := (sc_app_heap s)[a := (sc_app_heap s ! a)\<lparr>ready_instances := ready\<rparr>],
       sc_terminate_queue := q\<rparr>"

lemma shared_of_with_pool:
  "shared_of (with_pool a ready q s) t iss =
     (shared_of s t iss)\<lparr>ps_pools := (ps_pools (shared_of s t iss))[a := ready], ps_queue := q\<rparr>"
  by (simp add: shared_of_def with_pool_def map_update)

lemma with_pool_simps [simp]:
  "sc_local_config (with_pool a ready q s) = sc_local_config s"
  "sc_clients (with_pool a ready q s) = sc_clients s"
  "length (sc_app_heap (with_pool a ready q s)) = length (sc_app_heap s)"
  by (simp_all add: with_pool_def)

lemma run_gc_shared:
  assumes "gc_ready_instances (sc_local_config s) clock (ready_instances (sc_app_heap s ! cr_app r))
      (sc_terminate_queue s) = (ready, q)"
    and "cr_pc r = GcLock k" and "cr_app r < length (sc_app_heap s)"
  shows "rq_run (sc_local_config s) (r, shared_of s t iss)
    (r\<lparr>cr_pc := after_gc k\<rparr>, shared_of (with_pool (cr_app r) ready q s) t iss)"
  unfolding shared_of_with_pool
  using run_gc [OF assms(1,2), of "shared_of s t iss"] assms(3) by (simp add: shared_of_def)

lemma run_pool_back:
  assumes "cr_pc r = Pooling inst out" and "cr_app r < length (sc_app_heap s)"
  shows "rq_run (sc_local_config s) (r, shared_of s t iss)
    (r\<lparr>cr_pc := Finished out\<rparr>, shared_of (pool_back env (cr_app r) inst s) t iss)"
proof -
  let ?a = "cr_app r" and ?cfg = "sc_local_config s"
  let ?ready = "ready_instances (sc_app_heap s ! ?a)" and ?q = "sc_terminate_queue s"
  let ?kept = "f64_lt (dropout_rate ?cfg) (at_sample env)"
  define s1 where "s1 = (if ?kept then with_pool ?a (?ready @ [inst]) ?q s
    else with_pool ?a ?ready (terminate_try_send inst ?q) s)"
  obtain ready q where pool: "pool_instance ?cfg (at_pool_clock env) (at_sample env) inst ?ready ?q = (ready, q)"
    by fastforce
  then have gc: "gc_ready_instances ?cfg (at_pool_clock env) (ready_instances (sc_app_heap s1 ! ?a))
      (sc_terminate_queue s1) = (ready, q)"
    using assms(2) by (cases ?kept) (simp_all add: pool_instance_def s1_def with_pool_def)
  have "rq_step ?cfg r (shared_of s t iss) (r\<lparr>cr_pc := GcLock (ThenReturn out)\<rparr>) (shared_of s1 t iss)"
  proof (cases ?kept)
    case True
    with rq_push [OF assms(1), of "shared_of s t iss" ?cfg "at_sample env"] assms(2) show ?thesis
      by (simp add: s1_def shared_of_with_pool) (simp add: shared_of_def)
  next
    case False
    with rq_dropout [OF assms(1), of ?cfg "at_sample env" "shared_of s t iss"] assms(2) show ?thesis
      by (simp add: s1_def shared_of_with_pool) (simp add: shared_of_def flip: map_update)
  qed
  moreover have "rq_run ?cfg (r\<lparr>cr_pc := GcLock (ThenReturn out)\<rparr>, shared_of s1 t iss)
      (r\<lparr>cr_pc := Finished out\<rparr>, shared_of (with_pool ?a ready q s1) t iss)"
    using run_gc_shared [of s1 "at_pool_clock env" "r\<lparr>cr_pc := GcLock (ThenReturn out)\<rparr>" ready q "ThenReturn out" t iss]
      gc assms(2) by (simp add: s1_def split: if_splits)
  moreover have "shared_of (with_pool ?a ready q s1) t iss = shared_of (pool_back env ?a inst s) t iss"
    using pool by (simp add: s1_def pool_back_def shared_of_def with_pool_def map_update)
  ultimately show ?thesis by (simp add: rq_run_step)
qed

text \<open>The part of \<open>get_instance\<close> that spawns an instance.\<close>

lemma run_spawn:
  assumes "spawn_on_runtime env (sc_clients s) app = res" and "\<forall>m. res \<noteq> Inl (EPanic m)"
    and "cr_pc r = Choose"
  shows "\<exists>iss'. rq_run cfg (r, shared_of s t iss)
    (r\<lparr>cr_pc := (case res of Inr inst \<Rightarrow> Fetching inst | Inl e \<Rightarrow> Finished (Failed e))\<rparr>, shared_of s t iss')"
proof (cases "sc_clients s = []")
  case True
  with assms(1) have "res = Inl (ESched NoAvailableInstance)" by (simp add: spawn_on_runtime_def)
  moreover have "rq_step cfg r (shared_of s t iss)
      (r\<lparr>cr_pc := Finished (Failed (ESched NoAvailableInstance))\<rparr>) (shared_of s t iss)"
    by (rule rq_no_runtime) (use assms(3) True in \<open>simp_all add: shared_of_def\<close>)
  ultimately show ?thesis by (auto dest: rq_run_one)
next
  case False
  with assms(1,2) obtain index where "se_weighted_index env (map (\<lambda>x. runtime_weight (snd x)) (sc_clients s)) = Some index"
    and index: "index < length (sc_clients s)"
    by (auto simp: spawn_on_runtime_def split: option.splits if_splits)
  with False assms(1) obtain rtid rt where rt: "sc_clients s ! index = (rtid, rt)"
    and out: "res = (case se_spawn_worker env (rs_client rt) (appid_str (as_id app)) (as_config app) (as_bundle app) of
        Inl e \<Rightarrow> Inl (EOther e)
      | Inr (Inl e) \<Rightarrow> Inl (EGeneric e)
      | Inr (Inr handle) \<Rightarrow> Inr (spawned rtid (rs_client rt) (se_now env) handle))"
    by (cases "sc_clients s ! index") (auto simp: spawn_on_runtime_def spawned_def split: sum.split)
  let ?busy = "(shared_of s t iss)\<lparr>ps_readers := Suc (ps_readers (shared_of s t iss))\<rparr>"
  let ?sp = "r\<lparr>cr_pc := Spawning rtid (rs_client rt)\<rparr>"
  from rt index have "(rtid, rt) \<in> set (ps_clients (shared_of s t iss))"
    by (metis nth_mem pshared.select_convs(4) shared_of_def)
  with assms(3) have chosen: "rq_step cfg r (shared_of s t iss) ?sp ?busy" by (rule rq_choose)
  have fails: ?thesis if "res = Inl e" "e \<in> range EOther \<union> range EGeneric" for e
  proof -
    have "rq_step cfg ?sp ?busy (r\<lparr>cr_pc := Finished (Failed e)\<rparr>) (shared_of s t iss)"
      using rq_spawn_fails [of ?sp rtid "rs_client rt" e cfg ?busy] that(2) by (simp add: shared_of_def)
    from rq_run_step [OF chosen rq_run_one [OF this]] that(1) show ?thesis by auto
  qed
  have works: ?thesis if "res = Inr (spawned rtid (rs_client rt) (se_now env) h)" for h
  proof -
    have "rq_step cfg ?sp ?busy (r\<lparr>cr_pc := Fetching (spawned rtid (rs_client rt) (se_now env) h)\<rparr>)
        (shared_of s t (iss @ [h]))"
      using rq_spawned [of ?sp rtid "rs_client rt" cfg ?busy "se_now env" h] by (simp add: shared_of_def)
    from rq_run_step [OF chosen rq_run_one [OF this]] that show ?thesis by auto
  qed
  show ?thesis using out fails works by (auto split: sum.splits)
qed

lemma run_take_instance:
  assumes "take_instance env (cr_app r) s = (res, s1)" and "\<forall>m. res \<noteq> Inl (EPanic m)"
    and "cr_pc r = NextAttempt" and "cr_left r = Suc n" and "cr_app r < length (sc_app_heap s)"
  shows "\<exists>iss'. rq_run (sc_local_config s) (r, shared_of s t iss)
    (r\<lparr>cr_left := n, cr_pc := (case res of Inr inst \<Rightarrow> Fetching inst | Inl e \<Rightarrow> Finished (Failed e))\<rparr>,
     shared_of s1 t iss')"
proof -
  let ?cfg = "sc_local_config s" and ?a = "cr_app r" and ?e = "at_spawn env"
  let ?r = "\<lambda>pc. r\<lparr>cr_left := n, cr_pc := pc\<rparr>"
  obtain ready q where gc: "gc_ready_instances ?cfg (se_gc_clock ?e) (ready_instances (sc_app_heap s ! ?a))
      (sc_terminate_queue s) = (ready, q)" by fastforce
  let ?s = "\<lambda>ready. shared_of (with_pool ?a ready q s) t"
  have to_pop: "rq_run ?cfg (r, shared_of s t iss) (?r Pop, ?s ready iss)"
  proof (rule rq_run_step)
    show "rq_step ?cfg r (shared_of s t iss) (?r (GcLock ThenGet)) (shared_of s t iss)"
      by (rule rq_attempt [OF assms(3,4)])
    show "rq_run ?cfg (?r (GcLock ThenGet), shared_of s t iss) (?r Pop, ?s ready iss)"
      using run_gc_shared [of s "se_gc_clock ?e" "?r (GcLock ThenGet)" ready q ThenGet t iss] gc assms(5)
      by simp
  qed
  show ?thesis
  proof (cases ready)
    case (Cons x rest)
    have "res = Inr (update_last_active (se_now ?e) x)" and s1: "shared_of s1 t iss = ?s rest iss"
      using assms(1) gc Cons by (auto simp: take_instance_def get_instance_def shared_of_def with_pool_def)
    moreover have "rq_step ?cfg (?r Pop) (?s ready iss) (?r (Fetching (update_last_active (se_now ?e) x))) (?s rest iss)"
      using rq_pop [of "?r Pop" "?s ready iss" x rest ?cfg "se_now ?e"] Cons assms(5)
      by (simp add: shared_of_with_pool) (simp add: shared_of_def)
    ultimately show ?thesis using to_pop
      by (intro exI [of _ iss]) (auto dest: rq_run_one rtranclp_trans)
  next
    case Nil
    let ?s2 = "with_pool ?a [] q s"
    have res: "spawn_on_runtime ?e (sc_clients ?s2) (sc_app_heap s ! ?a) = res"
      and s1: "shared_of s1 t iss' = shared_of ?s2 t iss'" for iss'
      using assms(1) gc Nil by (auto simp: take_instance_def get_instance_def shared_of_def with_pool_def)
    have "rq_step ?cfg (?r Pop) (?s [] iss) (?r Choose) (?s [] iss)"
      using rq_pop_empty [of "?r Pop" "?s [] iss" ?cfg] assms(5)
      by (simp add: shared_of_with_pool) (simp add: shared_of_def)
    with to_pop Nil have "rq_run ?cfg (r, shared_of s t iss) (?r Choose, ?s [] iss)"
      by (auto dest: rq_run_one rtranclp_trans)
    moreover obtain iss' where "rq_run ?cfg (?r Choose, ?s [] iss)
        (?r (case res of Inr inst \<Rightarrow> Fetching inst | Inl e \<Rightarrow> Finished (Failed e)), ?s [] iss')"
      using run_spawn [OF res assms(2), of "?r Choose" ?cfg t iss] by auto
    ultimately show ?thesis unfolding s1 by (meson rtranclp_trans)
  qed
qed

text \<open>What a request's task returns, from how its attempts ended.\<close>

fun returned :: "http_ops \<Rightarrow> outcome \<Rightarrow> (ProxyError + Response) option" where
  "returned http (Answered fr) = Some (build_fetch_response http fr)"
| "returned http (Failed e) = Some (Inl e)"
| "returned http Cancelled = None"

lemma take_instance_keeps:
  "take_instance env a s = (res, s1) \<Longrightarrow>
     sc_local_config s1 = sc_local_config s \<and> length (sc_app_heap s1) = length (sc_app_heap s)"
  by (auto simp: take_instance_def split: prod.splits)

text \<open>An attempt after its instance was taken: the three ways it can go on.\<close>

lemma run_net_error:
  assumes "cr_pc r = Fetching inst"
  shows "rq_run cfg (r, shared_of s t iss) (r\<lparr>cr_pc := NextAttempt\<rparr>,
    shared_of (s\<lparr>sc_clients := bt_remove (ri_rtid inst) (sc_clients s)\<rparr>) t iss)"
proof (rule rq_run_step [OF rq_net_error [OF assms]], rule rq_run_one)
  show "rq_step cfg (r\<lparr>cr_pc := NetError (ri_rtid inst)\<rparr>) (shared_of s t iss) (r\<lparr>cr_pc := NextAttempt\<rparr>)
      (shared_of (s\<lparr>sc_clients := bt_remove (ri_rtid inst) (sc_clients s)\<rparr>) t iss)"
    using rq_drop_runtime [of "r\<lparr>cr_pc := NetError (ri_rtid inst)\<rparr>" "ri_rtid inst" "shared_of s t iss" cfg]
    by (simp add: shared_of_def)
qed

lemma run_answer:
  assumes "cr_pc r = Fetching inst" and "cr_app r < length (sc_app_heap s)"
  shows "rq_run (sc_local_config s) (r, shared_of s t iss)
    (r\<lparr>cr_pc := Finished (Answered fr)\<rparr>, shared_of (pool_back env (cr_app r) inst s) t iss)"
  by (rule rq_run_step [OF rq_answer [OF assms(1)]])
    (use run_pool_back [of "r\<lparr>cr_pc := Pooling inst (Answered fr)\<rparr>" inst "Answered fr" s t iss env] assms(2) in simp)

lemma run_error:
  assumes "cr_pc r = Fetching inst" and "cr_app r < length (sc_app_heap s)" and "e \<noteq> NoSuchWorker"
  shows "rq_run (sc_local_config s) (r, shared_of s t iss)
    (r\<lparr>cr_pc := Finished (Failed (ESched RequestFailedAfterRetries))\<rparr>,
     shared_of (if \<not> terminates_worker e then pool_back env (cr_app r) inst s else s) t iss)"
proof (cases "terminates_worker e")
  case True
  with rq_error [OF assms(1,3), of "sc_local_config s" "shared_of s t iss"] show ?thesis
    by (auto intro: rq_run_one)
next
  case False
  let ?out = "Failed (ESched RequestFailedAfterRetries)"
  from False rq_error [OF assms(1,3), of "sc_local_config s" "shared_of s t iss"]
  have "rq_step (sc_local_config s) r (shared_of s t iss) (r\<lparr>cr_pc := Pooling inst ?out\<rparr>) (shared_of s t iss)"
    by simp
  from rq_run_step [OF this run_pool_back [of "r\<lparr>cr_pc := Pooling inst ?out\<rparr>"]] False assms(2)
  show ?thesis by simp
qed

lemma attempts_run:
  assumes "attempts http env treq a n i s = (res, s')" and "\<forall>m. res \<noteq> Inl (EPanic m)"
    and "a < length (sc_app_heap s)"
  shows "\<exists>left out iss'. returned http out = Some res \<and>
    rq_run (sc_local_config s) (\<lparr>cr_app = a, cr_left = n, cr_pc = NextAttempt\<rparr>, shared_of s t iss)
      (\<lparr>cr_app = a, cr_left = left, cr_pc = Finished out\<rparr>, shared_of s' t iss')"
  using assms
proof (induction n arbitrary: i s iss)
  case 0
  have "rq_run (sc_local_config s) (\<lparr>cr_app = a, cr_left = 0, cr_pc = NextAttempt\<rparr>, shared_of s t iss)
      (\<lparr>cr_app = a, cr_left = 0, cr_pc = Finished (Failed (ESched RequestFailedAfterRetries))\<rparr>, shared_of s t iss)"
    using rq_run_one [OF rq_give_up [of "\<lparr>cr_app = a, cr_left = 0, cr_pc = NextAttempt\<rparr>"]] by simp
  moreover from 0 have "returned http (Failed (ESched RequestFailedAfterRetries)) = Some res" "s' = s" by auto
  ultimately show ?case by blast
next
  case (Suc n)
  let ?r = "\<lambda>pc. \<lparr>cr_app = a, cr_left = n, cr_pc = pc\<rparr>" and ?cfg = "sc_local_config s"
  obtain r s1 where ti: "take_instance (env i) a s = (r, s1)" by fastforce
  note keeps = take_instance_keeps [OF ti]
  have "\<forall>m. r \<noteq> Inl (EPanic m)" using Suc.prems(1,2) ti by auto
  then obtain iss1 where taken: "rq_run ?cfg (\<lparr>cr_app = a, cr_left = Suc n, cr_pc = NextAttempt\<rparr>, shared_of s t iss)
      (?r (case r of Inr inst \<Rightarrow> Fetching inst | Inl e \<Rightarrow> Finished (Failed e)), shared_of s1 t iss1)"
    using run_take_instance [of "env i" "\<lparr>cr_app = a, cr_left = Suc n, cr_pc = NextAttempt\<rparr>" s r s1 n t iss]
      ti Suc.prems(3) by auto
  show ?case
  proof (cases r)
    case (Inl e)
    with Suc.prems(1) ti taken show ?thesis
      by (intro exI [of _ n] exI [of _ "Failed e"] exI [of _ iss1]) auto
  next
    case (Inr inst)
    let ?f = "(?r (Fetching inst), shared_of s1 t iss1)"
    let ?answer = "at_fetch (env i) (ri_client inst) (ri_handle inst) treq"
    have again: ?thesis
      if "attempts http env treq a n (Suc i) s2 = (res, s')" and "rq_run ?cfg ?f (?r NextAttempt, shared_of s2 t iss1)"
        and "sc_local_config s2 = ?cfg" "length (sc_app_heap s2) = length (sc_app_heap s)" for s2
      using Suc.IH [OF that(1) Suc.prems(2), of iss1] that(2-4) Suc.prems(3) taken Inr
      by (simp, metis (no_types, lifting) rtranclp_trans)
    have ends: ?thesis
      if "rq_run ?cfg ?f (?r (Finished out), shared_of s' t iss1)" and "returned http out = Some res" for out
      using that taken Inr by (simp, meson rtranclp_trans)
    consider (net) e where "?answer = Inl e" | (gone) "?answer = Inr (Inl NoSuchWorker)"
      | (error) e where "?answer = Inr (Inl e)" "e \<noteq> NoSuchWorker" | (answer) fr where "?answer = Inr (Inr fr)"
      by (metis sum.exhaust)
    then show ?thesis
    proof cases
      case net
      with run_net_error [of "?r (Fetching inst)" inst ?cfg s1 t iss1] Suc.prems(1) ti Inr keeps show ?thesis
        by (intro again [of "s1\<lparr>sc_clients := bt_remove (ri_rtid inst) (sc_clients s1)\<rparr>"]) simp_all
    next
      case gone
      with rq_run_one [OF rq_no_such_worker [of "?r (Fetching inst)" inst ?cfg "shared_of s1 t iss1"]]
        Suc.prems(1) ti Inr keeps show ?thesis by (intro again [of s1]) simp_all
    next
      case (error e)
      with Suc.prems(1) ti Inr have "res = Inl (ESched RequestFailedAfterRetries)"
        and "s' = (if \<not> terminates_worker e then pool_back (env i) a inst s1 else s1)"
        by (cases e; auto)+
      with run_error [of "?r (Fetching inst)" inst s1 e t iss1 "env i"] error(2) keeps Suc.prems(3)
      show ?thesis by (intro ends [of "Failed (ESched RequestFailedAfterRetries)"]) (simp_all split: if_splits)
    next
      case (answer fr)
      with run_answer [of "?r (Fetching inst)" inst s1 t iss1 fr "env i"] keeps Suc.prems(1,3) ti Inr
      show ?thesis by (intro ends [of "Answered fr"]) auto
    qed
  qed
qed

section \<open>Reachable states\<close>

lemma reachable_request:
  "ps_reachable cfg (s, rs) \<Longrightarrow> i < length rs \<Longrightarrow> rq_step cfg (rs ! i) s r s' \<Longrightarrow> ps_reachable cfg (s', rs[i := r])"
  by (blast intro: ps_reach_step ps_request)

lemma rq_step_left: "rq_step cfg r s r' s' \<Longrightarrow> cr_left r' \<le> cr_left r"
  by (erule rq_step.cases; simp)

lemma proxy_step_left:
  assumes "proxy_step cfg x y" and "\<forall>r \<in> set (snd x). cr_left r \<le> 3"
  shows "\<forall>r \<in> set (snd y). cr_left r \<le> 3"
  using assms(1)
proof cases
  case (ps_request i rs s r s')
  with assms(2) rq_step_left [OF ps_request(4)] have "cr_left r \<le> 3"
    by (auto simp: all_set_conv_all_nth intro: order_trans)
  with ps_request assms(2) show ?thesis by (auto dest: set_update_subset_insert [THEN subsetD])
next
  case (ps_cancel i rs s r s')
  from ps_cancel(4) have "cr_left r = cr_left (rs ! i)" by cases simp_all
  with ps_cancel assms(2) show ?thesis by (auto dest!: set_update_subset_insert [THEN subsetD])
qed (use assms(2) in \<open>auto simp: arrive_def\<close>)

lemma reachable_left: "ps_reachable cfg x \<Longrightarrow> \<forall>r \<in> set (snd x). cr_left r \<le> 3"
proof (induction rule: ps_reachable.induct)
  case (ps_reach_step x y)
  from proxy_step_left [OF this(2,3)] show ?case .
qed (simp add: ps_start_def)

lemma pc_rank_le: "pc_rank pc \<le> 14"
proof -
  have "pc_rank (GcLock k) \<le> 14" "pc_rank (GcOverflow k) \<le> 14" "pc_rank (GcExpired k) \<le> 14" for k
    by (cases k; simp)+
  then show ?thesis by (cases pc) simp_all
qed

lemma rq_rank_le: "cr_left r \<le> 3 \<Longrightarrow> rq_rank r \<le> (if unfinished (cr_pc r) then 74 else 0)"
  using pc_rank_le [of "cr_pc r"] by (simp add: rq_rank_def)

lemma rank_sum_le:
  "\<forall>r \<in> set rs. cr_left r \<le> 3 \<Longrightarrow>
     sum_list (map rq_rank rs) \<le> 74 * length (filter (\<lambda>r. unfinished (cr_pc r)) rs)"
proof (induction rs)
  case (Cons r rs)
  then show ?case using rq_rank_le [of r] by (auto split: if_splits)
qed simp

end
