(* ===== verification/Proxy_Props.thy ===== *)
theory Proxy_Props
  imports Proxy_Concurrent_Spec
begin

text \<open>
  The properties of the frontend proxy: its pool of ready instances, the choice of a runtime,
  the set of runtimes, the two caches, and what a request can end in.
\<close>

section \<open>Concrete states for the witnesses\<close>

definition example_config :: LocalConfig where
  "example_config = \<lparr>runtime_cluster = [''r1'', ''r2''], max_ready_instances_per_app = 2,
     ready_instance_expiration_ms = 1000, request_timeout_ms = 30000,
     max_request_body_size_bytes = 10, dropout_rate = Fin 0, route_cache_size = 10,
     app_cache_size = 10\<rparr>"

definition example_worker_config :: WorkerConfiguration where
  "example_worker_config = \<lparr>executor = \<lparr>max_ab_memory_mb = 16, max_time_ms = 100,
     max_io_concurrency = 10, max_io_per_request = 50\<rparr>, fetch_service = ''f'', wc_env = [],
     wc_kv_namespaces = []\<rparr>"

definition example_instance :: "nat \<Rightarrow> ReadyInstance" where
  "example_instance t = \<lparr>ri_rtid = RuntimeId ''x'', ri_last_active = t,
     ri_handle = WorkerHandle ''w'', ri_client = 7\<rparr>"

definition example_app :: AppState where
  "example_app = \<lparr>as_id = AppId ''api'', as_config = example_worker_config, as_bundle_id = ''b'',
     as_bundle = [1], ready_instances = [], as_start_time = 0\<rparr>"

definition example_sched ::
  "((AppId \<times> nat) list, (string \<times> (string, AppId) BTreeMap) list) Scheduler" where
  "example_sched = \<lparr>sc_local_config = example_config, sc_worker_config = example_worker_config,
     sc_clients = [(RuntimeId ''x'', \<lparr>rs_client = 7, rs_load = 100\<rparr>)],
     sc_apps = [(AppId ''api'', 0)], sc_route_cache = [], sc_app_heap = [example_app],
     sc_terminate_queue = [], sc_kv_client = example_db\<rparr>"

definition example_spawn :: spawn_env where
  "example_spawn = \<lparr>se_gc_clock = \<lambda>i. 5 + i, se_now = 10,
     se_weighted_index = \<lambda>ws. if ws = [] then None else Some 0,
     se_spawn_worker = \<lambda>c a cfg b. Inr (Inr (WorkerHandle ''w''))\<rparr>"

definition example_attempt :: attempt_env where
  "example_attempt = \<lparr>at_spawn = example_spawn,
     at_fetch = \<lambda>c h r. Inr (Inr \<lparr>res_headers = [], res_status = 200, res_body = Binary [4, 2]\<rparr>),
     at_pool_clock = \<lambda>i. 20 + i, at_sample = Fin (1 / 2)\<rparr>"

definition example_http :: http_ops where
  "example_http = \<lparr>hv_to_str = \<lambda>b. Some ''a.com:80'', hv_from_bytes = Some,
     hn_from_bytes = \<lambda>b. Some ''x'', status_from_u16 = Some, canonical_reason = \<lambda>s. None\<rparr>"

definition example_env :: request_env where
  "example_env = \<lparr>rq_route_queue_free = True, rq_app_queue_free = True, rq_now = 3,
     rq_attempt = \<lambda>i. example_attempt\<rparr>"

definition example_request :: "string \<Rightarrow> Request" where
  "example_request path = \<lparr>hq_method = ''GET'', hq_uri = path, hq_path = path,
     hq_headers = [(''host'', [1])], hq_body = []\<rparr>"

lemmas example_proxy_simps = example_config_def example_worker_config_def example_instance_def
  example_app_def example_sched_def example_spawn_def example_attempt_def example_http_def
  example_env_def example_request_def

lemma example_weighted: "weighted_index_laws (se_weighted_index example_spawn)"
  by (auto simp: weighted_index_laws_def example_spawn_def)

lemma example_up: "db_up (sc_kv_client example_sched)"
  by (simp add: db_up_def example_sched_def example_db_def)

section \<open>Ready instances\<close>

text \<open>
  Pooling an instance after a request never loses one: as long as the termination queue
  has room, every instance of the application is afterwards either still pooled or queued for
  termination, exactly once. The pool never exceeds its limit, and its front is an instance
  that had not expired when the pool was examined.
\<close>

theorem pool_instance_conserves:
  assumes "pool_instance cfg clock smp inst ready q = (ready', q')"
    and "length q + length ready < terminate_capacity"
  shows "mset ready' + mset q' = mset ready + mset q + {#inst#} \<and>
    length ready' \<le> unat (max_ready_instances_per_app cfg) \<and>
    (ready' \<noteq> [] \<longrightarrow> (\<exists>i. is_usable cfg (clock i) (hd ready')))"
proof (cases "f64_lt (dropout_rate cfg) smp")
  case True
  with assms(1) have gc: "gc_ready_instances cfg clock (ready @ [inst]) q = (ready', q')"
    by (simp add: pool_instance_def)
  from gc_ready_instances_mset [OF gc] assms(2) gc_ready_instances_correct(1,3) [OF gc]
  show ?thesis by auto
next
  case False
  with assms have gc: "gc_ready_instances cfg clock ready (q @ [inst]) = (ready', q')"
    by (simp add: pool_instance_def terminate_try_send_room)
  from gc_ready_instances_mset [OF gc] assms(2) gc_ready_instances_correct(1,3) [OF gc]
  show ?thesis by auto
qed

theorem pool_instance_conserves_witness:
  "pool_instance example_config (\<lambda>i. 20) (Fin (1 / 2)) (example_instance 3)
     [example_instance 1, example_instance 2] [] =
     ([example_instance 2, example_instance 3], [example_instance 1]) \<and>
   mset [example_instance 2, example_instance 3] + mset [example_instance 1] =
   mset [example_instance 1, example_instance 2] + mset [] + {#example_instance 3#}"
proof -
  have run: "pool_instance example_config (\<lambda>i. 20) (Fin (1 / 2)) (example_instance 3)
     [example_instance 1, example_instance 2] [] =
     ([example_instance 2, example_instance 3], [example_instance 1])"
    by (simp add: pool_instance_def gc_ready_instances_def terminate_try_send_def
        terminate_capacity_def is_usable_def example_config_def example_instance_def f64_lt_def)
  from pool_instance_conserves [OF run] run show ?thesis by (simp add: terminate_capacity_def)
qed

text \<open>
  C32. \<open>get_instance\<close> never fails while a runtime is known and answers: it hands out a pooled
  instance that has not expired, removing it from the pool, or else one spawned on a known
  runtime; with no pooled instance and no runtime it reports \<open>NoAvailableInstance\<close>. The sum
  of the load-derived weights cannot overflow \<open>u32\<close> for up to 56860 runtimes, so the
  weighted choice does not panic.
\<close>

theorem get_instance_correct:
  assumes "weighted_index_laws (se_weighted_index env)" and "length clients \<le> max_runtimes"
    and "get_instance env cfg clients app q = (r, app', q')"
  shows "(\<exists>x. r = Inr (update_last_active (se_now env) x) \<and>
        x \<in> set (ready_instances app) \<and> (\<exists>i. is_usable cfg (se_gc_clock env i) x) \<and>
        (\<exists>dropped. ready_instances app = dropped @ x # ready_instances app')) \<or>
    ready_instances app' = [] \<and>
      (clients = [] \<and> r = Inl (ESched NoAvailableInstance) \<or>
       (\<exists>rtid rt. (rtid, rt) \<in> set clients \<and>
         (case se_spawn_worker env (rs_client rt) (appid_str (as_id app)) (as_config app) (as_bundle app) of
            Inl e \<Rightarrow> r = Inl (EOther e)
          | Inr (Inl e) \<Rightarrow> r = Inl (EGeneric e)
          | Inr (Inr handle) \<Rightarrow> r =
              Inr \<lparr>ri_rtid = rtid, ri_last_active = se_now env, ri_handle = handle,
                   ri_client = rs_client rt\<rparr>)))"
proof -
  obtain ready q1 where gc: "gc_ready_instances cfg (se_gc_clock env) (ready_instances app) q = (ready, q1)"
    by (cases "gc_ready_instances cfg (se_gc_clock env) (ready_instances app) q")
  note gc_facts = gc_ready_instances_correct [OF gc]
  show ?thesis
  proof (cases ready)
    case Nil
    with assms(3) gc have "r = spawn_on_runtime env clients app" "ready_instances app' = []"
      by (auto simp: get_instance_def)
    with spawn_on_runtime_cases [OF assms(1,2), of app] show ?thesis by auto
  next
    case (Cons x rest)
    with assms(3) gc have "r = Inr (update_last_active (se_now env) x)" "ready_instances app' = rest"
      by (auto simp: get_instance_def)
    with Cons gc_facts show ?thesis by fastforce
  qed
qed

theorem get_instance_correct_witness:
  "weighted_index_laws (se_weighted_index example_spawn) \<and>
   (\<exists>rtid rt. (rtid, rt) \<in> set (sc_clients example_sched) \<and>
      fst (get_instance example_spawn example_config (sc_clients example_sched) example_app []) =
      Inr \<lparr>ri_rtid = rtid, ri_last_active = 10, ri_handle = WorkerHandle ''w'', ri_client = rs_client rt\<rparr>)"
proof -
  have len: "length (sc_clients example_sched) \<le> max_runtimes"
    by (simp add: example_sched_def max_runtimes_def)
  obtain r app' q' where run: "get_instance example_spawn example_config (sc_clients example_sched)
      example_app [] = (r, app', q')"
    by (rule prod_cases3)
  have "ready_instances example_app = []" "sc_clients example_sched \<noteq> []"
    by (simp_all add: example_proxy_simps)
  with get_instance_correct [OF example_weighted len run] obtain rtid rt
    where "(rtid, rt) \<in> set (sc_clients example_sched)" and "r =
        Inr \<lparr>ri_rtid = rtid, ri_last_active = 10, ri_handle = WorkerHandle ''w'', ri_client = rs_client rt\<rparr>"
    by (auto simp: example_spawn_def)
  with run example_weighted show ?thesis by auto
qed

section \<open>Runtimes\<close>

text \<open>
  One round of discovery and health queries makes the set of runtimes exactly those
  that answer: a known runtime keeps its client, a runtime first seen gets the client of the
  first configured address that reports it, every one of them has the load it has just
  reported, and every one that does not answer the query is gone.
\<close>

theorem runtimes_round_exact:
  assumes "bt_wf (sc_clients s)"
  shows "bt_wf (sc_clients (runtimes_round connect load s)) \<and>
    bt_get (sc_clients (runtimes_round connect load s)) k =
      (case (case bt_get (sc_clients s) k of
               Some rt \<Rightarrow> Some rt
             | None \<Rightarrow> map_option (\<lambda>c. \<lparr>rs_client = c, rs_load = 0\<rparr>)
                 (first_discovered (map connect (runtime_cluster (sc_local_config s))) k)) of
         None \<Rightarrow> None
       | Some rt \<Rightarrow> (case load k rt of None \<Rightarrow> None | Some l \<Rightarrow> Some (rt\<lparr>rs_load := l\<rparr>)))"
proof -
  let ?s = "discover_runtimes connect s"
  have wf: "bt_wf (sc_clients ?s)"
    using assms by (simp add: discover_runtimes_def add_discovered_wf)
  have "bt_get (sc_clients ?s) k = (case bt_get (sc_clients s) k of
               Some rt \<Rightarrow> Some rt
             | None \<Rightarrow> map_option (\<lambda>c. \<lparr>rs_client = c, rs_load = 0\<rparr>)
                 (first_discovered (map connect (runtime_cluster (sc_local_config s))) k))"
    by (simp add: discover_runtimes_def add_discovered_get)
  with query_runtimes_get [OF wf, of load k] query_runtimes_wf [OF wf] show ?thesis
    by (simp add: runtimes_round_def)
qed

theorem runtimes_round_exact_witness:
  "bt_get (sc_clients (runtimes_round (\<lambda>a. if a = ''r1'' then Some (RuntimeId ''y'', 8) else None)
     (\<lambda>k rt. if k = RuntimeId ''x'' then None else Some 5) example_sched)) (RuntimeId ''y'') =
   Some \<lparr>rs_client = 8, rs_load = 5\<rparr>"
proof -
  have wf: "bt_wf (sc_clients example_sched)" by (simp add: example_sched_def)
  from runtimes_round_exact [OF wf, of "\<lambda>a. if a = ''r1'' then Some (RuntimeId ''y'', 8) else None"
      "\<lambda>k rt. if k = RuntimeId ''x'' then None else Some 5" "RuntimeId ''y''"]
  show ?thesis
    by (simp add: example_sched_def example_config_def bt_get_def first_discovered_def
        List.map_filter_simps)
qed

section \<open>Caches\<close>

text \<open>
  A request for a domain that is not cached is routed by the routes that the database
  holds: the background lookup fills the cache with them, and the application is the one of
  the longest stored prefix of the path (none if there is no such prefix).
\<close>

theorem cold_route_is_database_route:
  assumes "lru_laws (snd ops)" and "db_up (sc_kv_client s)"
    and "\<forall>m. (host, m) \<notin> set (lru_entries (snd ops) (sc_route_cache s))"
    and "tables_wf (tbl (sc_kv_client s))"
  shows "fst (resolve_route ops True host path s) = Some (AppId v) \<longleftrightarrow>
    (\<exists>r \<in> set (routes (tbl (sc_kv_client s))). rt_domain r = host \<and> rt_appid r = v \<and>
       starts_with path (rt_path r) \<and>
       (\<forall>r' \<in> set (routes (tbl (sc_kv_client s))). rt_domain r' = host \<longrightarrow>
          starts_with path (rt_path r') \<longrightarrow> length (rt_path r') \<le> length (rt_path r)))"
proof -
  let ?t = "tbl (sc_kv_client s)"
  have wf: "bt_wf (db_routes ?t host)" by (simp add: db_routes_def)
  note get = bt_get_db_routes [OF assms(4)]
  have "fst (resolve_route ops True host path s) = Some (AppId v) \<longleftrightarrow>
      lookup_submappings path (db_routes ?t host) = Some v"
    using resolve_route_miss [OF assms(1-3), of path] by (auto simp: lookup_to_appids [OF wf])
  also have "\<dots> \<longleftrightarrow> (\<exists>k. bt_get (db_routes ?t host) k = Some v \<and> starts_with path k \<and>
       (\<forall>k' v'. bt_get (db_routes ?t host) k' = Some v' \<longrightarrow> starts_with path k' \<longrightarrow> length k' \<le> length k))"
    by (rule lookup_submappings_longest_aux [OF wf])
  also have "\<dots> \<longleftrightarrow> (\<exists>r \<in> set (routes ?t). rt_domain r = host \<and> rt_appid r = v \<and>
       starts_with path (rt_path r) \<and>
       (\<forall>r' \<in> set (routes ?t). rt_domain r' = host \<longrightarrow>
          starts_with path (rt_path r') \<longrightarrow> length (rt_path r') \<le> length (rt_path r)))"
    unfolding get by auto
  finally show ?thesis .
qed

theorem cold_route_is_database_route_witness:
  "fst (resolve_route (list_lru, list_lru) True ''a.com'' ''/api/v1'' example_sched) =
     Some (AppId ''api'')"
proof -
  have l: "lru_laws (snd (list_lru :: ((AppId \<times> nat) list, AppId, nat) lru_ops,
      list_lru :: ((string \<times> (string, AppId) BTreeMap) list, string, (string, AppId) BTreeMap) lru_ops))"
    by (simp add: list_lru_laws)
  have m: "\<forall>m. (''a.com'', m) \<notin> set (lru_entries (snd (list_lru :: ((AppId \<times> nat) list, AppId, nat) lru_ops,
      list_lru)) (sc_route_cache example_sched))"
    by (simp add: example_sched_def list_lru_def)
  have wf: "tables_wf (tbl (sc_kv_client example_sched))"
    by (simp add: example_sched_def example_db_simps)
  from cold_route_is_database_route [OF l example_up m wf, of "''/api/v1''" "''api''"]
  show ?thesis by (simp add: example_sched_def example_db_simps)
qed

text \<open>
  C33. One round of the two cache collectors, with a database that answers, leaves no stale
  entry: a route cache entry stays exactly if it equals the routes that the database has for
  its domain, and an application stays exactly if it is not deleted and its bundle,
  environment and namespaces are those of the database (or its stored metadata does not
  parse). Neither collector adds an entry or changes the database.
\<close>

theorem cache_rounds_remove_exactly_stale:
  assumes "lru_laws (fst ops)" and "lru_laws (snd ops)" and "db_up (sc_kv_client s)"
  shows "set (lru_entries (snd ops) (sc_route_cache (route_cache_gc_round ops s))) =
      {(k, m) \<in> set (lru_entries (snd ops) (sc_route_cache s)).
         m = to_appids (db_routes (tbl (sc_kv_client s)) k)} \<and>
    set (lru_entries (fst ops) (sc_apps (apps_gc_round js ops s))) =
      {(k, a) \<in> set (lru_entries (fst ops) (sc_apps s)).
         \<not> app_stale js (tbl (sc_kv_client s)) k
            (as_bundle_id (sc_app_heap s ! a)) (as_config (sc_app_heap s ! a))} \<and>
    tbl (sc_kv_client (route_cache_gc_round ops s)) = tbl (sc_kv_client s) \<and>
    tbl (sc_kv_client (apps_gc_round js ops s)) = tbl (sc_kv_client s)"
proof -
  let ?ks = "map fst (lru_entries (snd ops) (sc_route_cache s))"
  from route_gc_fold [OF assms(2,3), of ?ks]
  have r: "set (lru_entries (snd ops) (sc_route_cache (route_cache_gc_round ops s))) =
      {(k, m) \<in> set (lru_entries (snd ops) (sc_route_cache s)).
         m = to_appids (db_routes (tbl (sc_kv_client s)) k)}"
    "tbl (sc_kv_client (route_cache_gc_round ops s)) = tbl (sc_kv_client s)"
    by (force simp: route_cache_gc_round_def)+
  obtain es ac where it: "lru_iter (fst ops) (sc_apps s) = (es, ac)"
    by (cases "lru_iter (fst ops) (sc_apps s)")
  note laws = lru_laws_dests [OF assms(1)]
  have es: "set es = set (lru_entries (fst ops) (sc_apps s))"
    "set (lru_entries (fst ops) ac) = set (lru_entries (fst ops) (sc_apps s))"
    using laws(4,5) [of "sc_apps s"] by (simp_all add: it)
  have func: "a = b" if "(k, a) \<in> set (lru_entries (fst ops) (sc_apps s))"
    and "(k, b) \<in> set (lru_entries (fst ops) (sc_apps s))" for k a b
    using that laws(3) by (metis option.inject)
  from assms(3) have "db_up (sc_kv_client (s\<lparr>sc_apps := ac\<rparr>))" by simp
  from app_gc_fold [OF assms(1) this, of js
    "map (\<lambda>(k, a). (k, as_bundle_id (sc_app_heap s ! a), as_config (sc_app_heap s ! a))) es"]
  obtain ac' kv where f: "apps_gc_round js ops s = s\<lparr>sc_apps := ac', sc_kv_client := kv\<rparr>"
    and kv: "tbl kv = tbl (sc_kv_client s)"
    and ac': "set (lru_entries (fst ops) ac') = {e \<in> set (lru_entries (fst ops) ac).
      \<forall>x \<in> set (map (\<lambda>(k, a). (k, as_bundle_id (sc_app_heap s ! a), as_config (sc_app_heap s ! a))) es).
        fst x = fst e \<longrightarrow> \<not> app_stale js (tbl (sc_kv_client s)) (fst x) (fst (snd x)) (snd (snd x))}"
    by (auto simp: apps_gc_round_def it)
  have "set (lru_entries (fst ops) (sc_apps (apps_gc_round js ops s))) =
      {(k, a) \<in> set (lru_entries (fst ops) (sc_apps s)).
         \<not> app_stale js (tbl (sc_kv_client s)) k
            (as_bundle_id (sc_app_heap s ! a)) (as_config (sc_app_heap s ! a))}"
    using func by (fastforce simp: f ac' es)
  with r f kv show ?thesis by simp
qed

theorem cache_rounds_remove_exactly_stale_witness:
  "lru_entries list_lru (sc_apps (apps_gc_round example_json (list_lru, list_lru) example_sched)) = []"
proof -
  let ?ops = "(list_lru :: ((AppId \<times> nat) list, AppId, nat) lru_ops,
     list_lru :: ((string \<times> (string, AppId) BTreeMap) list, string, (string, AppId) BTreeMap) lru_ops)"
  have l: "lru_laws (fst ?ops)" "lru_laws (snd ?ops)" by (simp_all add: list_lru_laws)
  have "app_stale example_json (tbl (sc_kv_client example_sched)) (AppId ''api'') b c" for b c
    by (simp add: app_stale_def app_metadata_get_def example_sched_def example_db_simps)
  with cache_rounds_remove_exactly_stale [OF l example_up, of example_json]
  have "set (lru_entries list_lru (sc_apps (apps_gc_round example_json ?ops example_sched))) = {}"
    by (auto simp: example_sched_def list_lru_def)
  then show ?thesis by simp
qed

section \<open>Requests\<close>

text \<open>
  The proxy reads the whole request body. It accepts it exactly when every chunk arrived
  and the total does not exceed \<open>max_request_body_size_bytes\<close>, and then passes on the chunks
  in order; a body without transport errors that is too long gives \<open>RequestBodyTooLarge\<close>,
  which is answered with status 413.
\<close>

theorem read_body_correct:
  "(read_body mx chunks [] None = Inr b \<longleftrightarrow>
     (\<forall>c \<in> set chunks. \<not> is_err c) \<and> b = chunks_bytes chunks \<and> length b \<le> unat mx) \<and>
   ((\<forall>c \<in> set chunks. \<not> is_err c) \<longrightarrow> length (chunks_bytes chunks) > unat mx \<longrightarrow>
     read_body mx chunks [] None = Inl (ESched RequestBodyTooLarge)) \<and>
   hr_status (build_response http RequestBodyTooLarge) = 413"
proof (intro conjI impI)
  show "read_body mx chunks [] None = Inr b \<longleftrightarrow>
     (\<forall>c \<in> set chunks. \<not> is_err c) \<and> b = chunks_bytes chunks \<and> length b \<le> unat mx"
    by (auto simp: read_body_ok)
  show "read_body mx chunks [] None = Inl (ESched RequestBodyTooLarge)"
    if "\<forall>c \<in> set chunks. \<not> is_err c" and "length (chunks_bytes chunks) > unat mx"
    using that by (cases "chunks = []") (auto simp: read_body_too_large)
qed (simp add: build_response_def error_status_def Let_def)

theorem read_body_correct_witness:
  "read_body 4 [Inr [1, 2], Inr [3]] [] None = Inr [1, 2, 3] \<and>
   read_body 2 [Inr [1, 2], Inr [3]] [] None = Inl (ESched RequestBodyTooLarge)"
proof
  show "read_body 4 [Inr [1, 2], Inr [3]] [] None = Inr [1, 2, 3]"
    using read_body_correct [of 4 "[Inr [1, 2], Inr [3]]" "[1, 2, 3]" example_http] by simp
  show "read_body 2 [Inr [1, 2], Inr [3]] [] None = Inl (ESched RequestBodyTooLarge)"
    using read_body_correct [of 2 "[Inr [1, 2], Inr [3]]" "[]" example_http] by simp
qed

text \<open>
  No worker that failed goes back to the pool: after the loop of attempts, an instance in
  the application's pool was there before, or one of the attempts called it and got a response
  or an error that leaves the worker running.
\<close>

theorem failed_workers_are_not_pooled:
  assumes "attempts http env req a 3 0 s = (r, s')" and "a < length (sc_app_heap s)"
    and "x \<in> set (ready_instances (sc_app_heap s' ! a))"
  shows "x \<in> set (ready_instances (sc_app_heap s ! a)) \<or> (\<exists>j < 3. survives (env j) req x)"
  using attempts_ready [OF assms] by auto

theorem failed_workers_are_not_pooled_witness:
  "\<exists>x. ready_instances (sc_app_heap (snd (attempts example_http (\<lambda>i. example_attempt)
      RequestObject_default 0 3 0 example_sched)) ! 0) = [x] \<and>
    survives example_attempt RequestObject_default x"
proof -
  let ?run = "attempts example_http (\<lambda>i. example_attempt) RequestObject_default 0 3 0 example_sched"
  obtain x where x: "ready_instances (sc_app_heap (snd ?run) ! 0) = [x]"
    by (simp add: numeral_3_eq_3 take_instance_def get_instance_def gc_ready_instances_def
        spawn_on_runtime_def pool_back_def pool_instance_def is_usable_def f64_lt_def
        example_proxy_simps)
  obtain r s' where run: "?run = (r, s')" by (cases ?run)
  have h: "0 < length (sc_app_heap example_sched)" "ready_instances (sc_app_heap example_sched ! 0) = []"
    by (simp_all add: example_sched_def example_app_def)
  from x run have "x \<in> set (ready_instances (sc_app_heap s' ! 0))" by simp
  from failed_workers_are_not_pooled [OF run h(1) this] h(2) x show ?thesis by auto
qed



text \<open>
  C31. A response that does not stem from an error is the answer of a worker to this request: one
  of the at most three attempts delivered the method, the URL, the whole body and every header
  with all its values in order (\<open>host\<close> without its port), the worker answered, and the response
  has its status, its body and its headers besides \<open>server\<close>. No attempt before this one was
  answered by a worker: the runtime did not answer or did not know the instance.
\<close>

theorem request_and_response_pass_unchanged:
  assumes "handle_request http js ops env req s = (Inr resp, s')"
  shows "\<exists>treq j fr client handle.
     delivers http req treq \<and> j < 3 \<and>
     at_fetch (rq_attempt env j) client handle treq = Inr (Inr fr) \<and>
     carries http fr resp \<and>
     (\<forall>i < j. unanswered (rq_attempt env i) treq)"
proof -
  from handle_request_delivers [OF assms] obtain treq a s2
    where d: "delivers http req treq" and "attempts http (rq_attempt env) treq a 3 0 s2 = (Inr resp, s')"
    by blast
  from attempts_answer [OF this(2)] obtain j fr c h where "j < 3"
    and "at_fetch (rq_attempt env j) c h treq = Inr (Inr fr)" "carries http fr resp"
    and "\<forall>i < j. unanswered (rq_attempt env i) treq"
    by auto
  with d show ?thesis by blast
qed

definition example_routed :: "((AppId \<times> nat) list, (string \<times> (string, AppId) BTreeMap) list) Scheduler" where
  "example_routed = example_sched\<lparr>sc_route_cache := [(''a.com'', [(''/'', AppId ''api'')])]\<rparr>"

theorem request_and_response_pass_unchanged_witness:
  "\<exists>treq j fr client handle.
     delivers example_http (example_request ''/x'') treq \<and> j < 3 \<and>
     at_fetch (rq_attempt example_env j) client handle treq = Inr (Inr fr) \<and>
     carries example_http fr
       \<lparr>hr_status = 200, hr_headers = [(''server'', as_bytes ''rworkers'')], hr_body = [4, 2]\<rparr>"
proof -
  have "handle_request example_http example_json (list_lru, list_lru) example_env
      (example_request ''/x'') example_routed =
    (Inr \<lparr>hr_status = 200, hr_headers = [(''server'', as_bytes ''rworkers'')], hr_body = [4, 2]\<rparr>,
     snd (handle_request example_http example_json (list_lru, list_lru) example_env
      (example_request ''/x'') example_routed))"
    by (simp add: handle_request_def example_routed_def example_proxy_simps request_host_def header_get_def
      split_first_def resolve_route_def cached_appid_def list_lru_def lookup_submappings_def header_insert_def
      resolve_app_def cached_app_def take_instance_def get_instance_def gc_ready_instances_def spawn_on_runtime_def
      build_fetch_response_def eval_nat_numeral)
  from request_and_response_pass_unchanged [OF this] show ?thesis by blast
qed

section \<open>Requests at the same time\<close>

text \<open>
  C28. However requests, lost connections, garbage collection of pools, the task that terminates
  instances and the upkeep of the set of runtimes interleave: as long as the runtimes do not give
  out a handle twice, every instance is at one place. So no instance works on two requests at a
  time, none is terminated or queued for it while it works on a request or waits in a pool, and
  no pool has an instance twice or one of another pool.
\<close>

theorem instances_have_one_place:
  assumes "ps_reachable cfg (s, rs)" and "distinct (ps_issued s)"
  shows "distinct (map ri_handle
    (concat (ps_pools s) @ concat (map held rs) @ ps_queue s @ ps_terminated s))"
proof (rule distinct_subset_mset [OF _ assms(2)])
  from reachable_issued_only [OF assms(1)]
  show "mset (map ri_handle (concat (ps_pools s) @ concat (map held rs) @ ps_queue s @ ps_terminated s))
      \<subseteq># mset (ps_issued s)"
    by (simp add: issued_only_def everywhere_def handles_def)
qed

text \<open>Two requests for an application: one fetches from a new instance, the other has just arrived.\<close>

definition example_shared :: pshared where
  "example_shared = \<lparr>ps_pools = [[]], ps_locked = [False], ps_queue = [],
     ps_clients = [(RuntimeId ''x'', \<lparr>rs_client = 7, rs_load = 0\<rparr>)], ps_readers = 0,
     ps_terminated = [], ps_issued = []\<rparr>"

lemma example_two_requests: "ps_reachable example_config (example_shared, [arrive 0, arrive 0])"
proof -
  note step = ps_reach_step [where cfg = example_config]
  have "ps_reachable example_config (example_shared\<lparr>ps_clients := []\<rparr>, [])"
    using step [OF ps_reach_start [unfolded ps_start_def] ps_new_app] by (simp add: example_shared_def)
  from step [OF this ps_discover [where items = "[Some (RuntimeId ''x'', 7)]"]]
  have "ps_reachable example_config (example_shared, [])"
    by (simp add: example_shared_def bt_contains_key_def bt_get_def)
  from step [OF step [OF this ps_arrive [of 0]] ps_arrive [of 0]] show ?thesis
    by (simp add: example_shared_def)
qed

text \<open>The first of them goes on until a runtime works for it.\<close>

lemma example_fetching:
  "ps_reachable example_config (example_shared\<lparr>ps_issued := [WorkerHandle ''w'']\<rparr>,
     [\<lparr>cr_app = 0, cr_left = 2, cr_pc = Fetching (example_instance 5)\<rparr>, arrive 0])"
proof -
  let ?r = "\<lambda>pc. [\<lparr>cr_app = 0, cr_left = 2, cr_pc = pc\<rparr>, arrive 0]"
  note defs = example_shared_def arrive_def example_config_def
  have "ps_reachable example_config (example_shared, ?r (GcLock ThenGet))"
    using reachable_request [OF example_two_requests, of 0, OF _ rq_attempt] by (simp add: arrive_def)
  from reachable_request [OF this, of 0, OF _ rq_lock]
  have "ps_reachable example_config (example_shared\<lparr>ps_locked := [True]\<rparr>, ?r (GcOverflow ThenGet))"
    by (simp add: defs)
  from reachable_request [OF this, of 0, OF _ rq_overflow_end]
  have "ps_reachable example_config (example_shared\<lparr>ps_locked := [True]\<rparr>, ?r (GcExpired ThenGet))"
    by (simp add: defs)
  from reachable_request [OF this, of 0, OF _ rq_expired_end]
  have "ps_reachable example_config (example_shared, ?r Pop)"
    by (simp add: defs)
  from reachable_request [OF this, of 0, OF _ rq_pop_empty]
  have "ps_reachable example_config (example_shared, ?r Choose)"
    by (simp add: defs)
  from reachable_request [OF this, of 0, OF _ rq_choose [of _ "RuntimeId ''x''" "\<lparr>rs_client = 7, rs_load = 0\<rparr>"]]
  have "ps_reachable example_config (example_shared\<lparr>ps_readers := 1\<rparr>, ?r (Spawning (RuntimeId ''x'') 7))"
    by (simp add: defs)
  from reachable_request [OF this, of 0, OF _ rq_spawned [of _ "RuntimeId ''x''" 7 _ _ 5 "WorkerHandle ''w''"]]
  show ?thesis by (simp add: defs spawned_def example_instance_def)
qed

theorem instances_have_one_place_witness:
  "distinct (map ri_handle
    (concat [[]] @ concat (map held [\<lparr>cr_app = 0, cr_left = 2, cr_pc = Fetching (example_instance 5)\<rparr>, arrive 0]) @
     [] @ []))"
  using instances_have_one_place [OF example_fetching] by (simp add: example_shared_def)

text \<open>
  C29. No request waits for ever for a lock or goes round in circles: in any reachable state the
  requests under way together have only a bounded number of steps left, 74 each and one for each
  pooled instance, and as long as one has not ended, one can take a step. So if runtimes answer
  or time out, every request ends, whatever other requests do.
\<close>

theorem requests_end:
  assumes "ps_reachable cfg (s, rs)"
  shows "(\<forall>n y. (request_step cfg ^^ n) (s, rs) y \<longrightarrow>
      n \<le> 74 * length (filter (\<lambda>r. unfinished (cr_pc r)) rs) + pooled s) \<and>
    ((\<exists>r \<in> set rs. unfinished (cr_pc r)) \<longrightarrow> (\<exists>y. request_step cfg (s, rs) y))"
proof (intro conjI allI impI)
  fix n y assume "(request_step cfg ^^ n) (s, rs) y"
  from request_steps_work [OF this reachable_wf [OF assms]] rank_sum_le [of rs] reachable_left [OF assms]
  show "n \<le> 74 * length (filter (\<lambda>r. unfinished (cr_pc r)) rs) + pooled s"
    by (simp add: work_left_def)
next
  assume "\<exists>r \<in> set rs. unfinished (cr_pc r)"
  with some_request_goes_on [OF reachable_locks_ok [OF assms] reachable_wf [OF assms]]
  show "\<exists>y. request_step cfg (s, rs) y" by blast
qed

theorem requests_end_witness:
  "\<not> (\<exists>y. (request_step example_config ^^ 149) (example_shared, [arrive 0, arrive 0]) y) \<and>
   (\<exists>y. request_step example_config (example_shared, [arrive 0, arrive 0]) y)"
proof -
  have "pooled example_shared = 0" and "length (filter (\<lambda>r. unfinished (cr_pc r)) [arrive 0, arrive 0]) = 2"
    by (simp_all add: arrive_def pooled_def example_shared_def)
  moreover note requests_end [OF example_two_requests]
  ultimately have "(\<forall>n y. (request_step example_config ^^ n) (example_shared, [arrive 0, arrive 0]) y \<longrightarrow> n \<le> 148) \<and>
      (\<exists>y. request_step example_config (example_shared, [arrive 0, arrive 0]) y)"
    by (simp add: arrive_def)
  then show ?thesis by fastforce
qed




text \<open>
  A request for which the database has no route is answered with status 502, contacts no
  runtime and leaves the applications and their pools as they were.
\<close>

theorem unknown_route_is_bad_gateway:
  assumes "lru_laws (snd ops)" and "db_up (sc_kv_client s)" and "tables_wf (tbl (sc_kv_client s))"
    and "rq_route_queue_free env"
    and "hv_from_bytes http (as_bytes (request_host http req)) \<noteq> None"
    and "\<forall>m. (request_host http req, m) \<notin> set (lru_entries (snd ops) (sc_route_cache s))"
    and "\<forall>r \<in> set (routes (tbl (sc_kv_client s))).
      rt_domain r = request_host http req \<longrightarrow> \<not> starts_with (hq_path req) (rt_path r)"
  shows "\<exists>resp s'. serve_request http js ops env req s = Some (resp, s') \<and> hr_status resp = 502 \<and>
    sc_app_heap s' = sc_app_heap s \<and> sc_clients s' = sc_clients s \<and> sc_apps s' = sc_apps s \<and>
    tbl (sc_kv_client s') = tbl (sc_kv_client s)"
proof -
  let ?host = "request_host http req" and ?t = "tbl (sc_kv_client s)"
  have wf: "bt_wf (db_routes ?t ?host)" by (simp add: db_routes_def)
  have "lookup_submappings (hq_path req) (db_routes ?t ?host) = None"
    using assms(7) unfolding lookup_submappings_None_iff
    by (auto simp: bt_get_mem [OF wf] bt_get_db_routes [OF assms(3)])
  with resolve_route_miss [OF assms(1,2,6), of "hq_path req"] lookup_to_appids [OF wf]
  obtain rc kv where "resolve_route ops True ?host (hq_path req) s =
      (None, s\<lparr>sc_route_cache := rc, sc_kv_client := kv\<rparr>)" "tbl kv = ?t"
    by auto
  with assms(4,5) show ?thesis
    by (auto simp: serve_request_def handle_request_def build_response_def error_status_def Let_def)
qed

theorem unknown_route_is_bad_gateway_witness:
  "\<exists>resp s'. serve_request example_http example_json (list_lru, list_lru) example_env
     (example_request ''nowhere'') example_sched = Some (resp, s') \<and> hr_status resp = 502"
proof -
  let ?ops = "(list_lru :: ((AppId \<times> nat) list, AppId, nat) lru_ops,
     list_lru :: ((string \<times> (string, AppId) BTreeMap) list, string, (string, AppId) BTreeMap) lru_ops)"
  let ?req = "example_request ''nowhere''"
  have l: "lru_laws (snd ?ops)" by (simp add: list_lru_laws)
  have t: "tables_wf (tbl (sc_kv_client example_sched))"
    by (simp add: example_sched_def example_db_simps)
  have q: "rq_route_queue_free example_env"
    and h: "hv_from_bytes example_http (as_bytes (request_host example_http ?req)) \<noteq> None"
    by (simp_all add: example_env_def example_http_def)
  have c: "\<forall>m. (request_host example_http ?req, m) \<notin>
      set (lru_entries (snd ?ops) (sc_route_cache example_sched))"
    by (simp add: example_sched_def list_lru_def)
  have r: "\<forall>r \<in> set (routes (tbl (sc_kv_client example_sched))).
      rt_domain r = request_host example_http ?req \<longrightarrow> \<not> starts_with (hq_path ?req) (rt_path r)"
    by (simp add: example_sched_def example_db_simps example_request_def)
  from unknown_route_is_bad_gateway [OF l example_up t q h c r] show ?thesis by blast
qed

end
