(* ===== verification/Memory.thy ===== *)
theory Memory
  imports Types
begin

text \<open>
  Resources of the runtime process: the counting semaphore of
  \<open>src/rusty-workers-runtime/src/semaphore.rs\<close>, the \<open>ArrayBuffer\<close> budget and allocator of
  \<open>mm.rs\<close>, the views of \<open>buffer.rs\<close>, the reader of \<open>interface.rs\<close> and the set of remote
  buffers of \<open>remote_buffer.rs\<close>. Both the semaphore and the budget are instances of one
  contract, the locale \<open>bounded_resource\<close>.
\<close>

section \<open>Semaphore\<close>

text \<open>The semaphore is a channel that holds one unit per free permit.\<close>

record Semaphore =
  sem_queue :: nat

definition Semaphore_new :: "nat \<Rightarrow> Semaphore" where
  "Semaphore_new n = \<lparr>sem_queue = n\<rparr>"

text \<open>
  \<open>recv_timeout\<close>: \<open>Some\<close> if a unit is in the channel before the timeout; the state is the one
  at that moment.
\<close>

definition acquire_timeout :: "Semaphore \<Rightarrow> (unit option) \<times> Semaphore" where
  "acquire_timeout s =
     (if sem_queue s > 0 then (Some (), s\<lparr>sem_queue := sem_queue s - 1\<rparr>) else (None, s))"

text \<open>An owned permit differs only in the lifetime of its sender.\<close>

definition acquire_owned_timeout :: "Semaphore \<Rightarrow> (unit option) \<times> Semaphore" where
  "acquire_owned_timeout s =
     (if sem_queue s > 0 then (Some (), s\<lparr>sem_queue := sem_queue s - 1\<rparr>) else (None, s))"

definition drop_permit :: "Semaphore \<Rightarrow> Semaphore" where
  "drop_permit s = s\<lparr>sem_queue := sem_queue s + 1\<rparr>"

definition drop_owned_permit :: "Semaphore \<Rightarrow> Semaphore" where
  "drop_owned_permit s = s\<lparr>sem_queue := sem_queue s + 1\<rparr>"

section \<open>Memory pool\<close>

record MemoryPool =
  remaining_bytes :: usize

definition MemoryPool_new :: "usize \<Rightarrow> MemoryPool" where
  "MemoryPool_new n = \<lparr>remaining_bytes = n\<rparr>"

definition acquire_precheck :: "usize \<Rightarrow> MemoryPool \<Rightarrow> bool" where
  "acquire_precheck n p = (if remaining_bytes p < n then False else True)"

definition pool_reset :: "usize \<Rightarrow> MemoryPool \<Rightarrow> MemoryPool" where
  "pool_reset n p = p\<lparr>remaining_bytes := n\<rparr>"

text \<open>
  The loop of \<open>acquire_bytes\<close>. Between the load and the \<open>compare_exchange\<close> of a turn other
  threads may change the counter: \<open>others\<close> lists what they do in each turn, and nothing once
  the list is used up, so that the list also bounds the turns.
\<close>

fun acquire_loop :: "(usize \<Rightarrow> usize) list \<Rightarrow> usize \<Rightarrow> MemoryPool \<Rightarrow> bool \<times> MemoryPool" where
  "acquire_loop [] n p =
     (let current = remaining_bytes p in
      if current < n then (False, p) else (True, p\<lparr>remaining_bytes := current - n\<rparr>))"
| "acquire_loop (f # others) n p =
     (let current = remaining_bytes p;
          p' = p\<lparr>remaining_bytes := f (remaining_bytes p)\<rparr>
      in if current < n then (False, p)
         else if remaining_bytes p' = current then (True, p'\<lparr>remaining_bytes := current - n\<rparr>)
         else acquire_loop others n p')"

text \<open>Without other threads: the isolate's own thread is the only one that allocates.\<close>

definition acquire_bytes :: "usize \<Rightarrow> MemoryPool \<Rightarrow> bool \<times> MemoryPool" where
  "acquire_bytes n p = acquire_loop [] n p"

definition release_bytes :: "usize \<Rightarrow> MemoryPool \<Rightarrow> MemoryPool" where
  "release_bytes n p = p\<lparr>remaining_bytes := remaining_bytes p + n\<rparr>"

section \<open>Allocator\<close>

text \<open>
  The native heap maps addresses to blocks; \<open>fresh\<close> is the address the system allocator
  returns. \<open>allocate_uninitialized\<close> leaves the bytes as they are (\<open>junk\<close>).
\<close>

type_synonym heap = "nat \<rightharpoonup> bytes"

definition allocate :: "nat \<Rightarrow> usize \<Rightarrow> MemoryPool \<times> heap \<Rightarrow> nat option \<times> MemoryPool \<times> heap" where
  "allocate fresh n st =
     (case st of (p, h) \<Rightarrow>
        (case acquire_bytes n p of
           (False, p') \<Rightarrow> (None, p', h)
         | (True, p') \<Rightarrow> (Some fresh, p', h(fresh \<mapsto> replicate (unat n) 0))))"

definition allocate_uninitialized ::
  "(nat \<Rightarrow> u8) \<Rightarrow> nat \<Rightarrow> usize \<Rightarrow> MemoryPool \<times> heap \<Rightarrow> nat option \<times> MemoryPool \<times> heap" where
  "allocate_uninitialized junk fresh n st =
     (case st of (p, h) \<Rightarrow>
        (case acquire_bytes n p of
           (False, p') \<Rightarrow> (None, p', h)
         | (True, p') \<Rightarrow> (Some fresh, p', h(fresh \<mapsto> map junk [0..<unat n]))))"

definition free_block :: "nat \<Rightarrow> usize \<Rightarrow> MemoryPool \<times> heap \<Rightarrow> MemoryPool \<times> heap" where
  "free_block data n st = (case st of (p, h) \<Rightarrow> (release_bytes n p, h(data := None)))"

definition reallocate ::
  "nat \<Rightarrow> nat \<Rightarrow> usize \<Rightarrow> usize \<Rightarrow> MemoryPool \<times> heap \<Rightarrow> nat option \<times> MemoryPool \<times> heap" where
  "reallocate fresh prev oldlen newlen st =
     (case st of (p, h) \<Rightarrow>
        (case (if newlen \<le> oldlen then (True, release_bytes (oldlen - newlen) p)
               else acquire_bytes (newlen - oldlen) p) of
           (False, p') \<Rightarrow> (None, p', h)
         | (True, p') \<Rightarrow>
             (case h prev of
                None \<Rightarrow> (None, p', h) \<comment> \<open>not a block: undefined behaviour\<close>
              | Some old_store \<Rightarrow>
                  let copy_len = min (unat oldlen) (unat newlen);
                      new_store = take copy_len old_store @ replicate (unat newlen - copy_len) 0
                  in (Some fresh, p', (h(prev := None))(fresh \<mapsto> new_store)))))"

definition acquire_arraybuffer_precheck :: "usize \<Rightarrow> MemoryPool \<Rightarrow> unit GenericResult" where
  "acquire_arraybuffer_precheck n p =
     (if acquire_precheck n p then Inr () else Inl (Execution MemoryLimitExceeded))"

text \<open>\<open>v8::ArrayBuffer::new\<close> allocates through the pool; its failure is an out-of-memory abort.\<close>

definition slice_to_arraybuffer ::
  "nat \<Rightarrow> bytes \<Rightarrow> MemoryPool \<times> heap \<Rightarrow> nat GenericResult \<times> MemoryPool \<times> heap" where
  "slice_to_arraybuffer fresh data st =
     (case st of (p, h) \<Rightarrow>
        (case acquire_arraybuffer_precheck (of_nat (length data)) p of
           Inl e \<Rightarrow> (Inl e, p, h)
         | Inr _ \<Rightarrow>
             (case allocate fresh (of_nat (length data)) (p, h) of
                (None, st') \<Rightarrow> (Inl (Execution MemoryLimitExceeded), st')
              | (Some buf, p', h') \<Rightarrow> (Inr buf, p', h'(buf \<mapsto> data)))))"

section \<open>Views of array buffers\<close>

datatype JsErrorKind = KError | KTypeError | KReferenceError

record JsError =
  je_kind :: JsErrorKind
  je_message :: "string option"

definition JsError_new :: "JsErrorKind \<Rightarrow> string option \<Rightarrow> JsError" where
  "JsError_new kind message = \<lparr>je_kind = kind, je_message = message\<rparr>"

definition JsError_error :: "string \<Rightarrow> JsError" where
  "JsError_error m = JsError_new KError (Some m)"

text \<open>
  A JavaScript value as the code distinguishes it: a buffer, a view with offset and length
  whose buffer can be obtained or not, or something else.
\<close>

datatype js_value =
    JsArrayBuffer bytes
  | JsArrayBufferView "bytes option" nat nat
  | JsOther

record JsArrayBufferViewRef =
  vr_backing :: bytes
  vr_start :: nat
  vr_end :: nat

definition view_new :: "js_value \<Rightarrow> JsError + JsArrayBufferViewRef" where
  "view_new other =
     (case other of
        JsArrayBuffer backing \<Rightarrow>
          Inr \<lparr>vr_backing = backing, vr_start = 0, vr_end = length backing\<rparr>
      | JsArrayBufferView buf off len \<Rightarrow>
          (case buf of
             None \<Rightarrow> Inl (JsError_new KTypeError (Some ''cannot get backing ArrayBuffer''))
           | Some backing \<Rightarrow>
               Inr \<lparr>vr_backing = backing, vr_start = off, vr_end = off + len\<rparr>)
      | JsOther \<Rightarrow>
          Inl (JsError_new KTypeError (Some ''value cannot be converted to JsArrayBufferViewRef'')))"

text \<open>Slicing out of range panics: \<open>None\<close>.\<close>

definition view_deref :: "JsArrayBufferViewRef \<Rightarrow> bytes option" where
  "view_deref v =
     (if vr_start v \<le> vr_end v \<and> vr_end v \<le> length (vr_backing v)
      then Some (take (vr_end v - vr_start v) (drop (vr_start v) (vr_backing v))) else None)"

definition read_to_vec :: "nat \<Rightarrow> JsArrayBufferViewRef \<Rightarrow> bytes option option" where
  "read_to_vec max_length v =
     (case view_deref v of
        None \<Rightarrow> None
      | Some source \<Rightarrow> if length source > max_length then Some None else Some (Some source))"

text \<open>\<open>ReadableByteCellSlice\<close>: one \<open>read\<close> of at most \<open>n\<close> bytes.\<close>

definition cell_read :: "nat \<Rightarrow> bytes \<Rightarrow> bytes \<times> bytes" where
  "cell_read n s = (let read_len = min n (length s) in (take read_len s, drop read_len s))"

text \<open>Reading until a read returns no byte, as \<open>serde_json::from_reader\<close> does.\<close>

function read_all :: "nat \<Rightarrow> bytes \<Rightarrow> bytes" where
  "read_all n s =
     (case cell_read n s of (b, rest) \<Rightarrow> if b = [] then [] else b @ read_all n rest)"
  by pat_completeness auto
termination
  by (relation "measure (\<lambda>(n, s). length s)") (auto simp: cell_read_def Let_def)

section \<open>Remote buffers\<close>

text \<open>
  \<open>buffers\<close> maps an address to the number of weak references (\<open>Arc::weak_count\<close>) and the
  buffer, \<open>None\<close> once \<open>unwrap_on_v8_thread\<close> took it.
\<close>

type_synonym RemoteBufferSet = "(nat, nat \<times> nat option) BTreeMap"

definition rb_allocate ::
  "nat \<Rightarrow> nat \<Rightarrow> usize \<Rightarrow> RemoteBufferSet \<Rightarrow> MemoryPool \<times> heap
    \<Rightarrow> (nat \<times> nat) option \<times> RemoteBufferSet \<times> MemoryPool \<times> heap" where
  "rb_allocate addr fresh len bs st =
     (case st of (p, h) \<Rightarrow>
        (case acquire_arraybuffer_precheck len p of
           Inl _ \<Rightarrow> (None, bs, p, h)
         | Inr _ \<Rightarrow>
             (case allocate fresh len (p, h) of
                (None, p', h') \<Rightarrow> (None, bs, p', h')
              | (Some buf, p', h') \<Rightarrow> (Some (addr, buf), bt_insert addr (1, Some buf) bs, p', h'))))"

definition rb_gc :: "RemoteBufferSet \<Rightarrow> RemoteBufferSet" where
  "rb_gc bs = fold bt_remove (map fst (filter (\<lambda>(k, w, b). w = 0) bs)) bs"

text \<open>Dropping a \<open>RemoteBuffer\<close> drops its weak reference.\<close>

definition rb_drop_weak :: "nat \<Rightarrow> RemoteBufferSet \<Rightarrow> RemoteBufferSet" where
  "rb_drop_weak addr bs =
     (case bt_get bs addr of None \<Rightarrow> bs | Some (w, b) \<Rightarrow> bt_insert addr (w - 1, b) bs)"

text \<open>The weak reference is consumed; taking the buffer twice would panic (\<open>None\<close>).\<close>

definition unwrap_on_v8_thread ::
  "nat \<Rightarrow> RemoteBufferSet \<Rightarrow> (nat option \<times> RemoteBufferSet) option" where
  "unwrap_on_v8_thread addr bs =
     (case bt_get bs addr of
        None \<Rightarrow> Some (None, bs)
      | Some (w, None) \<Rightarrow> None
      | Some (w, Some buf) \<Rightarrow> Some (Some buf, bt_insert addr (w - 1, None) bs))"

section \<open>Lemmas\<close>

lemma acquire_bytes_cases:
  "acquire_bytes n p =
     (if remaining_bytes p < n then (False, p)
      else (True, p\<lparr>remaining_bytes := remaining_bytes p - n\<rparr>))"
  by (simp add: acquire_bytes_def Let_def)

text \<open>
  The contract of a resource that is taken in amounts and given back: nothing is taken on a
  failure, and giving back restores what was taken.
\<close>

locale bounded_resource =
  fixes take_res :: "'n \<Rightarrow> 's \<Rightarrow> bool \<times> 's"
    and give :: "'n \<Rightarrow> 's \<Rightarrow> 's"
    and free_amount :: "'s \<Rightarrow> nat"
    and amount :: "'n \<Rightarrow> nat"
    and cap :: nat
  assumes take_ok: "take_res n s = (True, s') \<Longrightarrow> amount n \<le> free_amount s \<and>
      free_amount s' = free_amount s - amount n"
    and take_fail: "take_res n s = (False, s') \<Longrightarrow> s' = s \<and> free_amount s < amount n"
    and give_back: "free_amount s + amount n < cap \<Longrightarrow>
      free_amount (give n s) = free_amount s + amount n"
begin

text \<open>
  A history: \<open>Inl n\<close> tries to take \<open>n\<close>; \<open>Inr i\<close> gives back the \<open>i\<close>-th of the amounts held.
  The state holds the amounts that are taken at present.
\<close>

fun history :: "('n + nat) list \<Rightarrow> 'n list \<times> 's \<Rightarrow> 'n list \<times> 's" where
  "history [] st = st"
| "history (Inl n # ops) (held, s) =
     (case take_res n s of (True, s') \<Rightarrow> history ops (held @ [n], s') | (False, s') \<Rightarrow> history ops (held, s'))"
| "history (Inr i # ops) (held, s) =
     (if i < length held
      then history ops (take i held @ drop (Suc i) held, give (held ! i) s)
      else history ops (held, s))"

lemma sum_remove_nth:
  "i < length xs \<Longrightarrow> sum_list (map f (take i xs @ drop (Suc i) xs)) + f (xs ! i) = sum_list (map f xs)"
  for f :: "'a \<Rightarrow> nat"
  by (subst (3) id_take_nth_drop [of i xs]) simp_all

lemma history_conserves:
  assumes "sum_list (map amount held) + free_amount s = tot" and "tot < cap"
    and "history ops (held, s) = (held', s')"
  shows "sum_list (map amount held') + free_amount s' = tot"
  using assms
proof (induction ops arbitrary: held s)
  case Nil
  then show ?case by simp
next
  case (Cons x ops)
  show ?case
  proof (cases x)
    case (Inl n)
    obtain b s1 where t: "take_res n s = (b, s1)" by (cases "take_res n s")
    show ?thesis
    proof (cases b)
      case True
      with t take_ok [of n s s1] Cons.prems(1) have "sum_list (map amount (held @ [n])) + free_amount s1 = tot"
        by simp
      from Cons.IH [OF this Cons.prems(2)] Cons.prems(3) t True Inl show ?thesis by simp
    next
      case False
      with t take_fail [of n s s1] Cons Inl show ?thesis by simp
    qed
  next
    case (Inr i)
    show ?thesis
    proof (cases "i < length held")
      case True
      let ?held = "take i held @ drop (Suc i) held"
      from sum_remove_nth [OF True, of amount] Cons.prems(1,2)
      have le: "free_amount s + amount (held ! i) < cap" by simp
      with sum_remove_nth [OF True, of amount] Cons.prems(1) give_back [OF le]
      have "sum_list (map amount ?held) + free_amount (give (held ! i) s) = tot" by simp
      from Cons.IH [OF this Cons.prems(2)] Cons.prems(3) True Inr show ?thesis by simp
    next
      case False
      with Cons Inr show ?thesis by simp
    qed
  qed
qed

end

definition sem_take :: "unit \<Rightarrow> Semaphore \<Rightarrow> bool \<times> Semaphore" where
  "sem_take u s = (case acquire_timeout s of (None, s') \<Rightarrow> (False, s') | (Some _, s') \<Rightarrow> (True, s'))"

interpretation sem: bounded_resource sem_take "\<lambda>u. drop_permit" sem_queue "\<lambda>u. 1" "Suc (2 ^ 64)"
  by unfold_locales
     (auto simp: sem_take_def acquire_timeout_def drop_permit_def split: if_splits)

interpretation mem: bounded_resource acquire_bytes release_bytes "\<lambda>p. unat (remaining_bytes p)"
  unat "2 ^ 64"
proof unfold_locales
  fix n p p'
  show "acquire_bytes n p = (True, p') \<Longrightarrow> unat n \<le> unat (remaining_bytes p) \<and>
      unat (remaining_bytes p') = unat (remaining_bytes p) - unat n"
    by (auto simp: acquire_bytes_cases unat_sub word_le_nat_alt not_less split: if_splits)
  show "acquire_bytes n p = (False, p') \<Longrightarrow> p' = p \<and> unat (remaining_bytes p) < unat n"
    by (auto simp: acquire_bytes_cases word_less_nat_alt split: if_splits)
  show "unat (remaining_bytes p) + unat n < 2 ^ 64 \<Longrightarrow>
      unat (remaining_bytes (release_bytes n p)) = unat (remaining_bytes p) + unat n"
    by (simp add: release_bytes_def unat_word_ariths)
qed

text \<open>The compare-and-exchange loop takes the amount in one step from the value it last saw.\<close>

lemma acquire_loop_atomic:
  "acquire_loop others n p = (b, p') \<Longrightarrow>
     \<exists>q. (b \<longrightarrow> n \<le> remaining_bytes q \<and> remaining_bytes p' = remaining_bytes q - n) \<and>
         (\<not> b \<longrightarrow> remaining_bytes q < n \<and> p' = q) \<and> acquire_bytes n q = (b, p')"
proof (induction others n p rule: acquire_loop.induct)
  case (1 n p)
  then show ?case
    by (intro exI [of _ p]) (auto simp: acquire_bytes_cases Let_def not_less split: if_splits)
next
  case (2 f others n p)
  let ?p' = "p\<lparr>remaining_bytes := f (remaining_bytes p)\<rparr>"
  show ?case
  proof (cases "remaining_bytes p < n \<or> f (remaining_bytes p) = remaining_bytes p")
    case True
    with 2(2) show ?thesis
      by (intro exI [of _ p]) (auto simp: acquire_bytes_cases Let_def not_less split: if_splits)
  next
    case False
    with 2(2) have "acquire_loop others n ?p' = (b, p')"
      by (simp add: Let_def)
    with 2(1) [OF refl refl] False show ?thesis by simp
  qed
qed

lemma read_all_id: "0 < n \<Longrightarrow> read_all n s = s"
proof (induction n s rule: read_all.induct)
  case (1 n s)
  show ?case
  proof (cases "s = []")
    case True
    then show ?thesis by (subst read_all.simps) (simp add: cell_read_def)
  next
    case False
    with 1(2) have "take (min n (length s)) s \<noteq> []" by auto
    with 1 show ?thesis by (subst read_all.simps) (simp add: cell_read_def Let_def)
  qed
qed

lemma read_to_vec_le: "read_to_vec mx v = Some (Some b) \<Longrightarrow> length b \<le> mx"
  by (auto simp: read_to_vec_def split: option.splits if_splits)

lemma rb_gc_get:
  assumes "bt_wf bs"
  shows "bt_get (rb_gc bs) k = (case bt_get bs k of Some (0, b) \<Rightarrow> None | r \<Rightarrow> r)"
proof -
  have "k \<in> set (map fst (filter (\<lambda>(k, w, b). w = 0) bs)) \<longleftrightarrow> (\<exists>b. bt_get bs k = Some (0, b))"
    by (force simp flip: bt_get_mem [OF assms])
  then show ?thesis
    unfolding rb_gc_def bt_get_fold_remove
    by (auto split: option.splits nat.splits)
qed

end
