(* ===== verification/Isolate.thy ===== *)
theory Isolate
  imports Memory "HOL-Library.Multiset"
begin

text \<open>
  Isolate threads and their reuse: the pool of \<open>src/rusty-workers-runtime/src/isolate.rs\<close>, the
  worker loop with its generation counter, remote termination through an \<open>InstanceHandle\<close>
  (\<open>executor.rs\<close>), and the reading of a V8 exception (\<open>engine.rs\<close>, \<open>error.rs\<close>). V8 itself is
  not modelled: an isolate is what the code stores in its slots, its termination flag, and
  the outcome of a job.
\<close>

section \<open>The pool\<close>

text \<open>
  The stack of idle threads, the permits of the semaphore, and the calls of \<open>run\<close> in the
  phases that \<open>await\<close> separates: waiting for a permit, holding a permit but no thread yet,
  holding a thread, and (guard dropped, permit not yet) about to release the permit.
\<close>

datatype run_phase =
    Waiting
  | HasPermit
  | HasThread nat
  | Returned
  | Finished
  | Panicked

record IsolateThreadPool =
  pool_threads :: "nat list"
  pool_permits :: nat
  pool_calls :: "run_phase list"

definition IsolateThreadPool_new :: "nat \<Rightarrow> IsolateThreadPool" where
  "IsolateThreadPool_new sz =
     \<lparr>pool_threads = [0..<sz], pool_permits = sz, pool_calls = []\<rparr>"

text \<open>\<open>self.threads.lock().unwrap().pop()\<close>, the end of the vector, with its \<open>expect\<close>.\<close>

definition pool_pop :: "nat \<Rightarrow> IsolateThreadPool \<Rightarrow> IsolateThreadPool" where
  "pool_pop i p =
     (if pool_threads p = [] then p\<lparr>pool_calls := (pool_calls p)[i := Panicked]\<rparr>
      else p\<lparr>pool_threads := butlast (pool_threads p),
             pool_calls := (pool_calls p)[i := HasThread (last (pool_threads p))]\<rparr>)"

text \<open>\<open>ThreadGuard::drop\<close>.\<close>

definition guard_drop :: "nat \<Rightarrow> nat \<Rightarrow> IsolateThreadPool \<Rightarrow> IsolateThreadPool" where
  "guard_drop i th p =
     p\<lparr>pool_threads := pool_threads p @ [th], pool_calls := (pool_calls p)[i := Returned]\<rparr>"

text \<open>
  The steps of concurrent calls. A call that is cancelled while it waits just ends; one that
  is cancelled while its job runs drops its guard, as one whose job returned.
\<close>

inductive pool_step :: "IsolateThreadPool \<Rightarrow> IsolateThreadPool \<Rightarrow> bool" where
  call: "pool_step p (p\<lparr>pool_calls := pool_calls p @ [Waiting]\<rparr>)"
| acquire: "i < length (pool_calls p) \<Longrightarrow> pool_calls p ! i = Waiting \<Longrightarrow> pool_permits p > 0 \<Longrightarrow>
    pool_step p (p\<lparr>pool_permits := pool_permits p - 1, pool_calls := (pool_calls p)[i := HasPermit]\<rparr>)"
| cancel_waiting: "i < length (pool_calls p) \<Longrightarrow> pool_calls p ! i = Waiting \<Longrightarrow>
    pool_step p (p\<lparr>pool_calls := (pool_calls p)[i := Finished]\<rparr>)"
| pop: "i < length (pool_calls p) \<Longrightarrow> pool_calls p ! i = HasPermit \<Longrightarrow> pool_step p (pool_pop i p)"
| drop_guard: "i < length (pool_calls p) \<Longrightarrow> pool_calls p ! i = HasThread th \<Longrightarrow>
    pool_step p (guard_drop i th p)"
| release: "i < length (pool_calls p) \<Longrightarrow> pool_calls p ! i = Returned \<Longrightarrow>
    pool_step p (p\<lparr>pool_permits := pool_permits p + 1, pool_calls := (pool_calls p)[i := Finished]\<rparr>)"

inductive pool_reach :: "nat \<Rightarrow> IsolateThreadPool \<Rightarrow> bool" for sz where
  start: "pool_reach sz (IsolateThreadPool_new sz)"
| more: "pool_reach sz p \<Longrightarrow> pool_step p p' \<Longrightarrow> pool_reach sz p'"

section \<open>Termination reasons\<close>

datatype TerminationReason = Unknown | TimeLimit | CachePolicy

text \<open>
  \<open>check_on_task\<close>: the pending exception's description, whether V8 reports a termination, and
  the reason in the isolate's slot.
\<close>

definition check_on_task ::
  "string option \<Rightarrow> bool \<Rightarrow> TerminationReason \<Rightarrow> unit ExecutionResult" where
  "check_on_task description has_terminated reason =
     (case description of
        Some x \<Rightarrow>
          Inl (if has_terminated then
                 (case reason of
                    Unknown \<Rightarrow> RuntimeThrowsException
                  | TimeLimit \<Rightarrow> TimeLimitExceeded
                  | CachePolicy \<Rightarrow> RuntimeThrowsException)
               else ScriptThrowsException x)
      | None \<Rightarrow> Inr ())"

definition check_on_init ::
  "string option \<Rightarrow> bool \<Rightarrow> TerminationReason \<Rightarrow> unit GenericResult" where
  "check_on_init description has_terminated reason =
     (case check_on_task description has_terminated reason of
        Inl e \<Rightarrow> Inl (Execution e) | Inr x \<Rightarrow> Inr x)"

definition opt_check :: "'a option \<Rightarrow> 'a GenericResult" where
  "opt_check x = ok_or (Other ''v8 returns None'') x"

definition js_error_from_generic :: "GenericError \<Rightarrow> JsError" where
  "js_error_from_generic other =
     (case other of
        Conversion \<Rightarrow> JsError_new KTypeError (Some ''conversion error'')
      | Typeck expected \<Rightarrow> JsError_new KTypeError (Some (''typeck error: expected '' @ expected))
      | Execution MemoryLimitExceeded \<Rightarrow> JsError_new KError (Some ''memory limit exceeded'')
      | _ \<Rightarrow> JsError_new KError (Some ''generic error''))"

datatype DataError = BadType string string | NoData string

definition js_error_from_data :: "DataError \<Rightarrow> JsError" where
  "js_error_from_data other =
     (case other of
        BadType actual expected \<Rightarrow>
          JsError_new KTypeError (Some (''expected '' @ expected @ '', got '' @ actual))
      | NoData expected \<Rightarrow> JsError_new KReferenceError (Some (''expected '' @ expected)))"

text \<open>The exception object V8 gets: its class and its message.\<close>

definition JsError_build :: "JsError \<Rightarrow> JsErrorKind \<times> string" where
  "JsError_build e = (je_kind e, (case je_message e of Some x \<Rightarrow> x | None \<Rightarrow> []))"

section \<open>An isolate and its handles\<close>

type_synonym IsolateGeneration = u64

record IsolateConfig =
  max_memory_bytes :: usize
  host_entry_threshold_memory_bytes :: usize

text \<open>
  The reason boxes are shared between the isolate's slot and the handle: \<open>reasons\<close> is their
  store. \<open>terminating\<close> is V8's pending termination.
\<close>

record Isolate =
  iso_generation :: IsolateGeneration
  iso_terminating :: bool
  iso_reason_slot :: "nat option"
  iso_reasons :: "TerminationReason list"
  iso_pool :: MemoryPool
  iso_poisoned :: bool

record InstanceHandle =
  ih_reason :: nat
  ih_creation_generation :: IsolateGeneration

definition isolate_worker_init :: Isolate where
  "isolate_worker_init = \<lparr>iso_generation = 0, iso_terminating = False, iso_reason_slot = None,
     iso_reasons = [], iso_pool = MemoryPool_new 0, iso_poisoned = False\<rparr>"

text \<open>Before a job: the budget for the initialisation of the JavaScript runtime.\<close>

definition isolate_enter :: "Isolate \<Rightarrow> Isolate" where
  "isolate_enter isol = isol\<lparr>iso_pool := pool_reset (1048576 * 16) (iso_pool isol)\<rparr>"

text \<open>
  The part of \<open>Instance::new\<close> that touches the isolate: a new reason box, the budget of the
  configuration, and a handle for the current generation.
\<close>

definition isolate_attach :: "ExecutorConfiguration \<Rightarrow> Isolate \<Rightarrow> InstanceHandle \<times> Isolate" where
  "isolate_attach cfg isol =
     (\<lparr>ih_reason = length (iso_reasons isol), ih_creation_generation = iso_generation isol\<rparr>,
      isol\<lparr>iso_reasons := iso_reasons isol @ [Unknown],
          iso_reason_slot := Some (length (iso_reasons isol)),
          iso_pool := pool_reset (ucast (max_ab_memory_mb cfg) * 1048576) (iso_pool isol)\<rparr>)"

definition do_remote_termination ::
  "InstanceHandle \<Rightarrow> TerminationReason option \<Rightarrow> Isolate \<Rightarrow> Isolate" where
  "do_remote_termination h reason isol =
     (if iso_generation isol = ih_creation_generation h then
        (let isol' = (case reason of
               None \<Rightarrow> isol
             | Some r \<Rightarrow>
                 if iso_reasons isol ! ih_reason h = Unknown
                 then isol\<lparr>iso_reasons := (iso_reasons isol)[ih_reason h := r]\<rparr> else isol)
         in isol'\<lparr>iso_terminating := True\<rparr>)
      else isol)"

definition terminate_for_time_limit :: "InstanceHandle \<Rightarrow> Isolate \<Rightarrow> Isolate" where
  "terminate_for_time_limit h isol = do_remote_termination h (Some TimeLimit) isol"

definition InstanceHandle_drop :: "InstanceHandle \<Rightarrow> Isolate \<Rightarrow> Isolate" where
  "InstanceHandle_drop h isol = do_remote_termination h (Some CachePolicy) isol"

definition iso_get_exception :: "Isolate \<Rightarrow> TerminationReason option" where
  "iso_get_exception isol = map_option (\<lambda>i. iso_reasons isol ! i) (iso_reason_slot isol)"

text \<open>
  The generation counter is a \<open>u64\<close> with \<open>+=\<close>. \<open>cleanup\<close> empties the slots; when it fails or
  the isolate is poisoned, the worker returns and a new isolate is built.
\<close>

definition isolate_recycle :: "bool \<Rightarrow> Isolate \<Rightarrow> Isolate" where
  "isolate_recycle cleanup_ok isol =
     (if iso_poisoned isol then isolate_worker_init
      else if \<not> cleanup_ok then isolate_worker_init
      else isol\<lparr>iso_generation := iso_generation isol + 1, iso_terminating := False,
               iso_reason_slot := None\<rparr>)"

section \<open>Lemmas on the pool\<close>

definition count_phase :: "(run_phase \<Rightarrow> bool) \<Rightarrow> IsolateThreadPool \<Rightarrow> nat" where
  "count_phase P p = length (filter P (pool_calls p))"

fun holds_permit :: "run_phase \<Rightarrow> bool" where
  "holds_permit HasPermit = True"
| "holds_permit (HasThread _) = True"
| "holds_permit Returned = True"
| "holds_permit _ = False"

fun holds_thread :: "run_phase \<Rightarrow> bool" where
  "holds_thread (HasThread _) = True"
| "holds_thread _ = False"

fun thread_of :: "run_phase \<Rightarrow> nat list" where
  "thread_of (HasThread t) = [t]"
| "thread_of _ = []"

definition all_threads :: "IsolateThreadPool \<Rightarrow> nat list" where
  "all_threads p = pool_threads p @ concat (map thread_of (pool_calls p))"

definition pool_inv :: "nat \<Rightarrow> IsolateThreadPool \<Rightarrow> bool" where
  "pool_inv sz p \<longleftrightarrow>
     pool_permits p + count_phase holds_permit p = sz \<and>
     mset (all_threads p) = mset [0..<sz] \<and> Panicked \<notin> set (pool_calls p)"

lemma mset_concat_update:
  "i < length xs \<Longrightarrow> mset (concat (map f (xs[i := y]))) + mset (f (xs ! i)) =
     mset (concat (map f xs)) + mset (f y)"
proof (induction xs arbitrary: i)
  case (Cons x xs)
  then show ?case by (cases i) auto
qed simp

lemma length_concat_threads: "length (concat (map thread_of xs)) = length (filter holds_thread xs)"
proof (induction xs)
  case (Cons x xs)
  then show ?case by (cases x) auto
qed simp

lemma pool_thread_count:
  assumes "pool_inv sz p"
  shows "length (pool_threads p) + count_phase holds_thread p = sz"
proof -
  from assms have "length (all_threads p) = sz"
    by (metis pool_inv_def size_mset length_upt diff_zero)
  then show ?thesis by (simp add: all_threads_def count_phase_def length_concat_threads)
qed

lemma count_phase_less:
  assumes "i < length (pool_calls p)" and "holds_permit (pool_calls p ! i)"
    and "\<not> holds_thread (pool_calls p ! i)"
  shows "count_phase holds_thread p < count_phase holds_permit p"
proof -
  have sub: "holds_thread x \<Longrightarrow> holds_permit x" for x
    by (cases x) auto
  have a: "length (filter holds_permit ((pool_calls p)[i := Finished])) + 1 = count_phase holds_permit p"
    using length_filter_update [OF assms(1), of holds_permit Finished] assms(2)
    by (simp add: count_phase_def)
  have b: "length (filter holds_thread ((pool_calls p)[i := Finished])) = count_phase holds_thread p"
    using length_filter_update [OF assms(1), of holds_thread Finished] assms(3)
    by (simp add: count_phase_def)
  have "length (filter holds_thread xs) \<le> length (filter holds_permit xs)" for xs
    using sub by (induction xs) auto
  from this [of "(pool_calls p)[i := Finished]"] a b show ?thesis by linarith
qed

lemma pool_has_thread:
  assumes "pool_inv sz p" and "i < length (pool_calls p)" and "pool_calls p ! i = HasPermit"
  shows "pool_threads p \<noteq> []"
proof
  assume "pool_threads p = []"
  with pool_thread_count [OF assms(1)] have "count_phase holds_thread p = sz" by simp
  moreover from assms have "count_phase holds_permit p \<le> sz" by (simp add: pool_inv_def)
  ultimately show False
    using count_phase_less [of i p] assms(2,3) by simp
qed

lemma pool_inv_update:
  assumes "pool_inv sz p" and "i < length (pool_calls p)" and "y \<noteq> Panicked"
    and "pool_permits p' + (if holds_permit y then 1 else 0) =
      pool_permits p + (if holds_permit (pool_calls p ! i) then 1 else 0)"
    and "mset (pool_threads p') + mset (thread_of y) =
      mset (pool_threads p) + mset (thread_of (pool_calls p ! i))"
    and "pool_calls p' = (pool_calls p)[i := y]"
  shows "pool_inv sz p'"
proof -
  note inv = assms(1) [unfolded pool_inv_def all_threads_def]
  have "pool_permits p' + count_phase holds_permit p' = sz"
    using inv length_filter_update [OF assms(2), of holds_permit y] assms(4,6)
    by (simp add: count_phase_def split: if_splits)
  moreover have "mset (all_threads p') = mset [0..<sz]"
  proof -
    let ?c = "mset (thread_of y) + mset (thread_of (pool_calls p ! i))"
    have "mset (all_threads p') + ?c = mset (all_threads p) + ?c"
      using arg_cong2 [where f = "(+)", OF assms(5) mset_concat_update [OF assms(2), of thread_of y]]
      unfolding all_threads_def assms(6) mset_append by (simp only: ac_simps)
    then have "mset (all_threads p') = mset (all_threads p)" by (rule add_right_imp_eq)
    with inv show ?thesis by (simp add: all_threads_def)
  qed
  moreover have "Panicked \<notin> set (pool_calls p')"
    using inv assms(3,6) set_update_subset_insert [of "pool_calls p" i y] by auto
  ultimately show ?thesis by (simp add: pool_inv_def)
qed

lemma pool_inv_step:
  assumes "pool_step p p'" and "pool_inv sz p"
  shows "pool_inv sz p'"
  using assms
proof (induction rule: pool_step.induct)
  case (call p)
  then show ?case by (simp add: pool_inv_def count_phase_def all_threads_def)
next
  case (pop i p)
  from pool_has_thread [OF pop(3,1,2)] obtain ts t where "pool_threads p = ts @ [t]"
    by (metis append_butlast_last_id)
  with pop show ?case
    by (intro pool_inv_update [where y = "HasThread t", OF pop(3,1)]) (simp_all add: pool_pop_def)
next
  case (drop_guard i p th)
  then show ?case
    by (intro pool_inv_update [where y = Returned, OF drop_guard(3,1)])
       (simp_all add: guard_drop_def)
next
  case (acquire i p)
  then show ?case
    by (intro pool_inv_update [where y = HasPermit, OF acquire(4,1)]) simp_all
next
  case (cancel_waiting i p)
  then show ?case
    by (intro pool_inv_update [where y = Finished, OF cancel_waiting(3,1)]) simp_all
next
  case (release i p)
  then show ?case
    by (intro pool_inv_update [where y = Finished, OF release(3,1)]) simp_all
qed

lemma pool_inv_reach: "pool_reach sz p \<Longrightarrow> pool_inv sz p"
proof (induction rule: pool_reach.induct)
  case start
  then show ?case by (simp add: pool_inv_def IsolateThreadPool_new_def count_phase_def all_threads_def)
next
  case (more p p')
  then show ?case using pool_inv_step by blast
qed

section \<open>Lemmas on generations\<close>

text \<open>What can happen to an isolate: jobs attach and are recycled, handles terminate.\<close>

datatype iso_event =
    IsoEnter
  | IsoAttach ExecutorConfiguration
  | IsoTerminate InstanceHandle "TerminationReason option"
  | IsoRecycle

fun iso_run :: "iso_event \<Rightarrow> Isolate \<Rightarrow> Isolate" where
  "iso_run IsoEnter isol = isolate_enter isol"
| "iso_run (IsoAttach cfg) isol = snd (isolate_attach cfg isol)"
| "iso_run (IsoTerminate h r) isol = do_remote_termination h r isol"
| "iso_run IsoRecycle isol = isolate_recycle True isol"

definition recycles :: "iso_event list \<Rightarrow> nat" where
  "recycles es = length (filter (\<lambda>e. e = IsoRecycle) es)"

lemma iso_run_simps:
  "iso_generation (do_remote_termination h r isol) = iso_generation isol"
  "iso_poisoned (do_remote_termination h r isol) = iso_poisoned isol"
  by (auto simp: do_remote_termination_def Let_def split: option.splits)

lemma iso_run_generation:
  "\<not> iso_poisoned isol \<Longrightarrow> iso_generation (fold iso_run es isol) =
     iso_generation isol + of_nat (recycles es) \<and> \<not> iso_poisoned (fold iso_run es isol)"
proof (induction es arbitrary: isol)
  case Nil
  then show ?case by (simp add: recycles_def)
next
  case (Cons e es)
  have "iso_generation (iso_run e isol) = iso_generation isol + of_nat (recycles [e])"
    and "\<not> iso_poisoned (iso_run e isol)"
    using Cons.prems
    by (cases e; simp add: isolate_enter_def isolate_attach_def isolate_recycle_def recycles_def
        iso_run_simps)+
  with Cons.IH [of "iso_run e isol"] show ?case by (simp add: recycles_def)
qed

lemma iso_run_reason_other:
  assumes "ih_creation_generation h \<noteq> iso_generation isol"
  shows "do_remote_termination h r isol = isol"
  using assms by (simp add: do_remote_termination_def)

end
