(* ===== verification/Runtime.thy ===== *)
theory Runtime
  imports Isolate F64 Db
begin

text \<open>
  The runtime service, \<open>src/rusty-workers-runtime/src/runtime.rs\<close>, \<open>config.rs\<close> and
  \<open>server.rs\<close>: the table of worker instances, their monitor with its time budget, the load
  figure and the log multiplexer. The expiring cache (\<open>lru_time_cache\<close>) and the outcome of
  work on the isolate threads are parameters. Handles and memory counters are shared objects:
  they live in stores and the table holds their addresses. Instants and durations count
  nanoseconds.
\<close>

section \<open>State\<close>

record Config =
  high_memory_threshold_bytes :: usize
  max_num_of_instances :: usize
  isolate_pool_size :: usize
  max_concurrent_requests :: usize
  max_inactive_time_ms :: u64
  max_isolate_memory_bytes :: usize
  execution_concurrency :: usize
  cpu_wait_timeout_ms :: u64
  db_url :: string

record WorkerState =
  ws_handle :: nat
  ws_memory_bytes :: nat

text \<open>
  The cache of instances: reads at a time do not see what has expired by then; \<open>in_notify_get\<close>
  also returns the entries it drops.
\<close>

record 'c instance_ops =
  in_new :: "u64 \<Rightarrow> usize \<Rightarrow> 'c"
  in_get :: "nat \<Rightarrow> 'c \<Rightarrow> WorkerHandle \<Rightarrow> WorkerState option \<times> 'c"
  in_peek :: "nat \<Rightarrow> 'c \<Rightarrow> WorkerHandle \<Rightarrow> WorkerState option"
  in_insert :: "nat \<Rightarrow> 'c \<Rightarrow> WorkerHandle \<Rightarrow> WorkerState \<Rightarrow> 'c"
  in_remove :: "'c \<Rightarrow> WorkerHandle \<Rightarrow> WorkerState option \<times> 'c"
  in_peek_iter :: "nat \<Rightarrow> 'c \<Rightarrow> (WorkerHandle \<times> WorkerState) list"
  in_len :: "'c \<Rightarrow> nat"
  in_notify_get :: "nat \<Rightarrow> 'c \<Rightarrow> WorkerHandle
    \<Rightarrow> (WorkerState option \<times> (WorkerHandle \<times> WorkerState) list) \<times> 'c"

record LogEntry =
  le_appid :: string
  le_time :: int
  le_text :: string

record InstanceStatistics =
  used_memory_bytes :: usize

record 'c Runtime =
  rt_id :: RuntimeId
  rt_instances :: 'c
  rt_config :: Config
  rt_pool :: IsolateThreadPool
  rt_execution_token :: Semaphore
  rt_isolate_config :: IsolateConfig
  rt_handles :: "InstanceHandle list"
  rt_memory :: "usize list"
  rt_statistics :: "(WorkerHandle \<times> InstanceStatistics) list"
  rt_log :: "LogEntry list"

definition Runtime_new ::
  "'c instance_ops \<Rightarrow> (bytes \<Rightarrow> string) \<Rightarrow> (nat \<Rightarrow> u8) \<Rightarrow> GenericError + 'd \<Rightarrow> Config
    \<Rightarrow> 'c Runtime GenericResult" where
  "Runtime_new ops hex rng data_client config =
     bind_res data_client (\<lambda>_. Inr
       \<lparr>rt_id = RuntimeId_generate hex rng,
        rt_instances = in_new ops (max_inactive_time_ms config) (max_num_of_instances config),
        rt_config = config,
        rt_pool = IsolateThreadPool_new (unat (isolate_pool_size config)),
        rt_execution_token = Semaphore_new (unat (execution_concurrency config)),
        rt_isolate_config = \<lparr>max_memory_bytes = max_isolate_memory_bytes config,
                             host_entry_threshold_memory_bytes = 1048576\<rparr>,
        rt_handles = [], rt_memory = [], rt_statistics = [], rt_log = []\<rparr>)"

definition acquire_execution_token :: "'c Runtime \<Rightarrow> unit GenericResult \<times> 'c Runtime" where
  "acquire_execution_token rt =
     (case acquire_timeout (rt_execution_token rt) of
        (None, s) \<Rightarrow>
          (Inl (Other ''timeout waiting for execution token''), rt\<lparr>rt_execution_token := s\<rparr>)
      | (Some _, s) \<Rightarrow> (Inr (), rt\<lparr>rt_execution_token := s\<rparr>))"

section \<open>The monitor of a worker\<close>

datatype TimerControl = Start | Stop | Reset

record InstanceTimeControl =
  tc_budget :: nat

definition InstanceTimeControl_new :: "ExecutorConfiguration \<Rightarrow> InstanceTimeControl" where
  "InstanceTimeControl_new conf = \<lparr>tc_budget = unat (max_time_ms conf) * 1000000\<rparr>"

record Monitor =
  mon_initial_budget :: nat
  mon_budget :: nat
  mon_deadline :: "nat option"

definition monitor_init :: "InstanceTimeControl \<Rightarrow> Monitor" where
  "monitor_init tc =
     \<lparr>mon_initial_budget = tc_budget tc, mon_budget = tc_budget tc, mon_deadline = None\<rparr>"

definition monitor_timer :: "TimerControl \<Rightarrow> nat \<Rightarrow> Monitor \<Rightarrow> Monitor" where
  "monitor_timer op now m =
     (case op of
        Start \<Rightarrow> m\<lparr>mon_deadline := Some (now + mon_budget m)\<rparr>
      | Stop \<Rightarrow>
          (case mon_deadline m of
             Some deadline \<Rightarrow>
               m\<lparr>mon_budget := (if now > deadline then 0 else deadline - now),
                 mon_deadline := None\<rparr>
           | None \<Rightarrow> m\<lparr>mon_deadline := None\<rparr>)
      | Reset \<Rightarrow> m\<lparr>mon_budget := mon_initial_budget m\<rparr>)"

text \<open>\<open>wait_until\<close> is ready from the deadline on, and never without one.\<close>

definition wait_until_ready :: "nat option \<Rightarrow> nat \<Rightarrow> bool" where
  "wait_until_ready deadline now = (case deadline of Some d \<Rightarrow> d \<le> now | None \<Rightarrow> False)"

text \<open>
  The two arms of \<open>select!\<close> as steps; a message that is there and a deadline that has passed
  are both enabled. \<open>None\<close> is the end of the task: the worker is out of the table, and in the
  second arm it has been told to stop.
\<close>

datatype monitor_state = Watching Monitor | ThreadStopped | TimedOut

inductive monitor_step :: "nat \<Rightarrow> TimerControl option option \<Rightarrow> monitor_state \<Rightarrow> monitor_state \<Rightarrow> bool" where
  message: "monitor_step now (Some (Some op)) (Watching m) (Watching (monitor_timer op now m))"
| closed: "monitor_step now (Some None) (Watching m) ThreadStopped"
| timeout: "wait_until_ready (mon_deadline m) now \<Longrightarrow> monitor_step now msg (Watching m) TimedOut"

inductive_cases monitor_step_TimedOut: "monitor_step now msg (Watching m) TimedOut"

definition monitor_closed ::
  "'c instance_ops \<Rightarrow> WorkerHandle \<Rightarrow> 'c Runtime \<Rightarrow> 'c Runtime" where
  "monitor_closed ops h rt = rt\<lparr>rt_instances := snd (in_remove ops (rt_instances rt) h)\<rparr>"

text \<open>The effect of the timeout arm on the table and on the worker's isolate.\<close>

definition monitor_timeout ::
  "'c instance_ops \<Rightarrow> WorkerHandle \<Rightarrow> 'c Runtime \<Rightarrow> Isolate \<Rightarrow> 'c Runtime \<times> Isolate" where
  "monitor_timeout ops h rt isol =
     (case in_remove ops (rt_instances rt) h of
        (Some st, c) \<Rightarrow>
          (rt\<lparr>rt_instances := c\<rparr>, terminate_for_time_limit (rt_handles rt ! ws_handle st) isol)
      | (None, c) \<Rightarrow> (rt\<lparr>rt_instances := c\<rparr>, isol))"

section \<open>Operations of the service\<close>

definition runtime_list :: "'c instance_ops \<Rightarrow> nat \<Rightarrow> 'c Runtime \<Rightarrow> WorkerHandle list GenericResult" where
  "runtime_list ops now rt = Inr (map fst (in_peek_iter ops now (rt_instances rt)))"

definition runtime_terminate ::
  "'c instance_ops \<Rightarrow> WorkerHandle \<Rightarrow> 'c Runtime \<Rightarrow> bool \<times> 'c Runtime" where
  "runtime_terminate ops h rt =
     (case in_remove ops (rt_instances rt) h of
        (r, c) \<Rightarrow> (r \<noteq> None, rt\<lparr>rt_instances := c\<rparr>))"

text \<open>
  What becomes of a task that is sent to an instance: its channel is closed, the instance
  drops the answer channel, or it answers.
\<close>

datatype fetch_outcome =
    SendFailed
  | SenderDropped
  | Answered "ResponseObject ExecutionResult"

definition instance_fetch :: "fetch_outcome \<Rightarrow> ResponseObject ExecutionResult" where
  "instance_fetch outcome =
     (case outcome of
        SendFailed \<Rightarrow> Inl NoSuchWorker
      | SenderDropped \<Rightarrow> Inl RuntimeThrowsException
      | Answered res \<Rightarrow> res)"

definition runtime_fetch ::
  "'c instance_ops \<Rightarrow> nat \<Rightarrow> (nat \<Rightarrow> RequestObject \<Rightarrow> fetch_outcome) \<Rightarrow> WorkerHandle \<Rightarrow> RequestObject
    \<Rightarrow> 'c Runtime \<Rightarrow> ResponseObject ExecutionResult \<times> 'c Runtime" where
  "runtime_fetch ops now instances h req rt =
     (case in_get ops now (rt_instances rt) h of
        (None, c) \<Rightarrow> (Inl NoSuchWorker, rt\<lparr>rt_instances := c\<rparr>)
      | (Some st, c) \<Rightarrow>
          (instance_fetch (instances (ws_handle st) req), rt\<lparr>rt_instances := c\<rparr>))"

text \<open>
  What the isolate thread reports for a new instance: \<open>None\<close> if it drops the channel before
  it is ready.
\<close>

type_synonym thread_report = "(InstanceHandle \<times> InstanceTimeControl) GenericResult option"

text \<open>
  \<open>instance_thread\<close>: \<open>Instance::new\<close> may fail; \<open>run\<close> calls \<open>ready_callback\<close>, or returns before.
\<close>

definition instance_thread ::
  "(InstanceHandle \<times> InstanceTimeControl) GenericResult \<Rightarrow> bool \<Rightarrow> thread_report" where
  "instance_thread created became_ready =
     (case created of
        Inr (handle, timectl) \<Rightarrow> if became_ready then Some (Inr (handle, timectl)) else None
      | Inl e \<Rightarrow> Some (Inl e))"

definition runtime_spawn ::
  "'c instance_ops \<Rightarrow> nat \<Rightarrow> (bytes \<Rightarrow> string) \<Rightarrow> (nat \<Rightarrow> u8) \<Rightarrow> thread_report \<Rightarrow> 'c Runtime
    \<Rightarrow> (WorkerHandle \<times> Monitor) GenericResult \<times> 'c Runtime" where
  "runtime_spawn ops now hex rng result rt =
     (let worker_handle = WorkerHandle_generate hex rng in
      case result of
        Some (Inr (handle, timectl)) \<Rightarrow>
          (let st = \<lparr>ws_handle = length (rt_handles rt), ws_memory_bytes = length (rt_memory rt)\<rparr> in
           (Inr (worker_handle, monitor_init timectl),
            rt\<lparr>rt_instances := in_insert ops now (rt_instances rt) worker_handle st,
               rt_handles := rt_handles rt @ [handle], rt_memory := rt_memory rt @ [0]\<rparr>))
      | Some (Inl e) \<Rightarrow> (Inl e, rt)
      | None \<Rightarrow> (Inl (ScriptInitException ''script initialization failed''), rt))"

definition compute_usage_saturating :: "f64 \<Rightarrow> f64 \<Rightarrow> u16 \<Rightarrow> u16" where
  "compute_usage_saturating used tot mul =
     (let usage = f64_div used tot;
          usage' = (if \<not> f64_is_finite usage \<or> f64_lt (Fin 1) usage then Fin 1 else usage)
      in f64_to_u16 (f64_mul usage' (f64_of_nat (unat mul))))"

definition runtime_load :: "'c instance_ops \<Rightarrow> nat \<Rightarrow> 'c Runtime \<Rightarrow> u16 GenericResult" where
  "runtime_load ops now rt =
     (let num_instances = in_len ops (rt_instances rt);
          total_memory = sum_list (map (\<lambda>(_, v). rt_memory rt ! ws_memory_bytes v)
            (in_peek_iter ops now (rt_instances rt)));
          memory_usage = compute_usage_saturating (f64_of_nat (unat total_memory))
            (f64_of_nat (unat (high_memory_threshold_bytes (rt_config rt)))) 30000;
          instance_usage = compute_usage_saturating (f64_of_nat num_instances)
            (f64_of_nat (unat (max_num_of_instances (rt_config rt)))) 30000
      in Inr (memory_usage + instance_usage))"

text \<open>The two channels have 100 and 1000 places; \<open>try_send\<close> on a full one loses the message.\<close>

definition update_stats :: "WorkerHandle \<Rightarrow> InstanceStatistics \<Rightarrow> 'c Runtime \<Rightarrow> 'c Runtime" where
  "update_stats h stats rt =
     (if length (rt_statistics rt) < 100
      then rt\<lparr>rt_statistics := rt_statistics rt @ [(h, stats)]\<rparr> else rt)"

definition write_log :: "int \<Rightarrow> string \<Rightarrow> string \<Rightarrow> 'c Runtime \<Rightarrow> 'c Runtime" where
  "write_log now appid txt rt =
     (if length (rt_log rt) < 1000
      then rt\<lparr>rt_log := rt_log rt @ [\<lparr>le_appid = appid, le_time = now, le_text = txt\<rparr>]\<rparr> else rt)"

text \<open>One message of \<open>statistics_update_worker\<close>.\<close>

definition statistics_update ::
  "'c instance_ops \<Rightarrow> nat \<Rightarrow> 'c Runtime \<Rightarrow> 'c Runtime" where
  "statistics_update ops now rt =
     (case rt_statistics rt of
        [] \<Rightarrow> rt
      | (h, stats) # rest \<Rightarrow>
          (case in_peek ops now (rt_instances rt) h of
             None \<Rightarrow> rt\<lparr>rt_statistics := rest\<rparr>
           | Some st \<Rightarrow>
               rt\<lparr>rt_statistics := rest,
                  rt_memory := (rt_memory rt)[ws_memory_bytes st := used_memory_bytes stats]\<rparr>))"

definition lru_gc :: "'c instance_ops \<Rightarrow> nat \<Rightarrow> 'c Runtime \<Rightarrow> nat \<times> 'c Runtime" where
  "lru_gc ops now rt =
     (case in_notify_get ops now (rt_instances rt) (WorkerHandle []) of
        ((_, removed), c) \<Rightarrow> (length removed, rt\<lparr>rt_instances := c\<rparr>))"

section \<open>The log multiplexer\<close>

text \<open>
  16 channels of 16 entries; \<open>select_all\<close> over the sends lets the first channel with room take
  the entry. \<open>None\<close>: all are full and the worker waits.
\<close>

definition log_channels :: "LogEntry list list" where
  "log_channels = replicate 16 []"

fun log_dispatch :: "LogEntry \<Rightarrow> LogEntry list list \<Rightarrow> LogEntry list list option" where
  "log_dispatch e [] = None"
| "log_dispatch e (ch # chs) =
     (if length ch < 16 then Some ((ch @ [e]) # chs)
      else map_option (\<lambda>chs'. ch # chs') (log_dispatch e chs))"

text \<open>One entry of the task behind a channel, with the random \<open>subid\<close>.\<close>

definition log_write_one :: "u32 \<Rightarrow> LogEntry list \<Rightarrow> db \<Rightarrow> LogEntry list \<times> db" where
  "log_write_one subid ch d =
     (case ch of
        [] \<Rightarrow> ([], d)
      | e # rest \<Rightarrow> (rest, snd (applog_write subid (le_appid e) (le_time e) (le_text e) d)))"

section \<open>The RPC server\<close>

datatype rpc_call =
    RpcId
  | RpcSpawnWorker thread_report "bytes \<Rightarrow> string" "nat \<Rightarrow> u8"
  | RpcTerminateWorker WorkerHandle
  | RpcListWorkers
  | RpcFetch WorkerHandle RequestObject "nat \<Rightarrow> RequestObject \<Rightarrow> fetch_outcome"
  | RpcLoad

datatype rpc_answer =
    AId RuntimeId
  | ASpawn "WorkerHandle GenericResult"
  | ATerminate bool
  | AList "WorkerHandle list GenericResult"
  | AFetch "ResponseObject ExecutionResult"
  | ALoad "u16 GenericResult"

fun serve_call :: "'c instance_ops \<Rightarrow> nat \<Rightarrow> rpc_call \<Rightarrow> 'c Runtime \<Rightarrow> rpc_answer \<times> 'c Runtime" where
  "serve_call ops now RpcId rt = (AId (rt_id rt), rt)"
| "serve_call ops now (RpcSpawnWorker result hex rng) rt =
     (case runtime_spawn ops now hex rng result rt of
        (Inl e, rt') \<Rightarrow> (ASpawn (Inl e), rt')
      | (Inr (h, _), rt') \<Rightarrow> (ASpawn (Inr h), rt'))"
| "serve_call ops now (RpcTerminateWorker h) rt =
     (case runtime_terminate ops h rt of (b, rt') \<Rightarrow> (ATerminate b, rt'))"
| "serve_call ops now RpcListWorkers rt = (AList (runtime_list ops now rt), rt)"
| "serve_call ops now (RpcFetch h req instances) rt =
     (case runtime_fetch ops now instances h req rt of (r, rt') \<Rightarrow> (AFetch r, rt'))"
| "serve_call ops now RpcLoad rt = (ALoad (runtime_load ops now rt), rt)"

section \<open>Lemmas on the monitor\<close>

text \<open>
  A trace of timer messages with their times. It is orderly if \<open>Start\<close> and \<open>Stop\<close> alternate,
  \<open>Reset\<close> comes only while stopped, and time does not run backwards. \<open>run_time\<close> accumulates
  the time between \<open>Start\<close> and \<open>Stop\<close> since the last \<open>Reset\<close>.
\<close>

fun orderly :: "nat option \<Rightarrow> nat \<Rightarrow> (TimerControl \<times> nat) list \<Rightarrow> bool" where
  "orderly started t [] = True"
| "orderly started t ((op, now) # tr) =
     (t \<le> now \<and>
      (case op of
         Start \<Rightarrow> started = None \<and> orderly (Some now) now tr
       | Stop \<Rightarrow> started \<noteq> None \<and> orderly None now tr
       | Reset \<Rightarrow> started = None \<and> orderly None now tr))"

fun run_time :: "nat option \<Rightarrow> nat \<Rightarrow> (TimerControl \<times> nat) list \<Rightarrow> nat option \<times> nat" where
  "run_time started used [] = (started, used)"
| "run_time started used ((op, now) # tr) =
     (case op of
        Start \<Rightarrow> run_time (Some now) used tr
      | Stop \<Rightarrow> run_time None (case started of None \<Rightarrow> used | Some s \<Rightarrow> used + (now - s)) tr
      | Reset \<Rightarrow> run_time started 0 tr)"

definition monitor_run :: "(TimerControl \<times> nat) list \<Rightarrow> Monitor \<Rightarrow> Monitor" where
  "monitor_run tr m = fold (\<lambda>(op, now). monitor_timer op now) tr m"

lemma monitor_run_budget:
  assumes "orderly started t tr" and "run_time started used tr = (started', used')"
    and "mon_budget m = mon_initial_budget m - used"
    and "mon_deadline m = map_option (\<lambda>s. s + mon_budget m) started"
    and "\<forall>s. started = Some s \<longrightarrow> s \<le> t"
  shows "mon_initial_budget (monitor_run tr m) = mon_initial_budget m \<and>
    mon_budget (monitor_run tr m) = mon_initial_budget m - used' \<and>
    mon_deadline (monitor_run tr m) = map_option (\<lambda>s. s + (mon_initial_budget m - used')) started'"
  using assms
proof (induction tr arbitrary: m started t used)
  case Nil
  then show ?case by (simp add: monitor_run_def)
next
  case (Cons x tr)
  obtain op now where x: "x = (op, now)" by (cases x)
  let ?m = "monitor_timer op now m"
  have run: "monitor_run (x # tr) m = monitor_run tr ?m"
    by (simp add: monitor_run_def x)
  have init: "mon_initial_budget ?m = mon_initial_budget m"
    by (simp add: monitor_timer_def split: TimerControl.splits option.splits)
  show ?case
  proof (cases op)
    case Start
    with Cons.prems x have "orderly (Some now) now tr" "run_time (Some now) used tr = (started', used')"
      by simp_all
    from Cons.IH [OF this, of ?m] Start Cons.prems init show ?thesis
      unfolding run by (simp add: monitor_timer_def)
  next
    case Stop
    with Cons.prems x obtain s where s: "started = Some s" by auto
    with Stop Cons.prems x have "orderly None now tr" "run_time None (used + (now - s)) tr = (started', used')"
      by simp_all
    moreover have "mon_budget ?m = mon_initial_budget m - (used + (now - s))" "mon_deadline ?m = None"
      using Stop Cons.prems s x by (auto simp: monitor_timer_def)
    ultimately show ?thesis
      using Cons.IH [of None now "used + (now - s)" ?m] unfolding run by (simp add: init)
  next
    case Reset
    with Cons.prems x have "orderly None now tr" "run_time None 0 tr = (started', used')" "started = None"
      by simp_all
    from Cons.IH [OF this(1,2), of ?m] Reset Cons.prems init this(3) show ?thesis
      unfolding run by (simp add: monitor_timer_def)
  qed
qed

section \<open>Lemmas on the load\<close>

lemma compute_usage_le: "unat (compute_usage_saturating used tot mul) \<le> unat mul"
proof -
  let ?u = "f64_div used tot"
  let ?v = "if \<not> f64_is_finite ?u \<or> f64_lt (Fin 1) ?u then Fin 1 else ?u"
  have "\<exists>q. ?v = Fin q \<and> q \<le> 1"
    by (cases ?u) (auto simp: f64_lt_def)
  then obtain q where v: "?v = Fin q" and q: "q \<le> 1" by blast
  have m: "unat mul \<le> 2 ^ 53"
    using unat_lt2p [of mul] by simp
  have mul: "f64_of_nat (unat mul) = Fin (of_nat (unat mul))"
    unfolding f64_of_nat_def by (rule rnd_of_nat [OF m])
  have "f64_le (f64_mul ?v (f64_of_nat (unat mul))) (Fin (of_nat (unat mul)))"
  proof -
    have "q * of_nat (unat mul) \<le> (of_nat (unat mul) :: rat)"
      using mult_right_mono [OF q of_nat_0_le_iff, of "unat mul"] unfolding mult_1 .
    from rnd_mono [OF this] show ?thesis
      unfolding v mul f64_mul.simps rnd_of_nat [OF m] .
  qed
  then show ?thesis
    unfolding compute_usage_saturating_def Let_def
    by (rule f64_to_u16_le) (use unat_lt2p [of mul] in simp)
qed

lemma log_dispatch_Some:
  "log_dispatch e chs = Some chs' \<Longrightarrow>
     \<exists>i < length chs. length (chs ! i) < 16 \<and> chs' = chs[i := chs ! i @ [e]] \<and>
       (\<forall>j < i. length (chs ! j) \<ge> 16)"
proof (induction e chs arbitrary: chs' rule: log_dispatch.induct)
  case (2 e ch chs)
  show ?case
  proof (cases "length ch < 16")
    case True
    with 2(2) show ?thesis by auto
  next
    case False
    with 2 obtain chs1 where c: "log_dispatch e chs = Some chs1" "chs' = ch # chs1"
      by auto
    from 2(1) [OF False c(1)] obtain i where "i < length chs" "length (chs ! i) < 16"
      "chs1 = chs[i := chs ! i @ [e]]" "\<forall>j < i. length (chs ! j) \<ge> 16" by blast
    with c False show ?thesis
      by (intro exI [of _ "Suc i"]) (auto simp: less_Suc_eq_0_disj nth_Cons split: nat.splits)
  qed
qed simp

lemma log_dispatch_None: "log_dispatch e chs = None \<longleftrightarrow> (\<forall>ch \<in> set chs. length ch \<ge> 16)"
  by (induction e chs rule: log_dispatch.induct) auto

end
