(* ===== verification/Io.thy ===== *)
theory Io
  imports Memory Db "HOL-Library.Multiset"
begin

text \<open>
  Asynchronous operations of a worker: the messages of
  \<open>src/rusty-workers-runtime/src/interface.rs\<close> and the I/O service of \<open>io.rs\<close>. Callbacks are
  numbers, remote buffers are the bytes they hold. JSON text, the fetch service, the time and
  the answers of the executor thread to buffer requests are parameters. The pipeline from
  \<open>issue\<close> to \<open>wait\<close> is a step relation on its queues.
\<close>

section \<open>Messages\<close>

datatype DigestAlgorithm = Sha1 | Sha256 | Sha384 | Sha512

datatype CryptoCall = Digest DigestAlgorithm

datatype SyncCall =
    Log string
  | Done
  | SendFetchResponse ResponseObject
  | GetRandomValues
  | GetFile string
  | Crypto CryptoCall

datatype AsyncCallV =
    SetTimeout u64
  | Fetch RequestObject
  | KvGet string
  | KvPut string bool u64
  | KvDelete string
  | KvScan string u32
  | KvCmpUpdate string u32 u32 u64

datatype ServiceCall = SyncSC SyncCall | AsyncSC AsyncCallV

record AsyncCall =
  ac_v :: AsyncCallV
  ac_buffers :: "JsArrayBufferViewRef list"

record FetchEvent =
  fe_request :: RequestObject

datatype ServiceEvent = FetchSE FetchEvent

definition MAX_KV_KEY_SIZE :: nat where "MAX_KV_KEY_SIZE = 2048"

definition MAX_KV_VALUE_SIZE :: nat where "MAX_KV_VALUE_SIZE = 4 * 1024 * 1024"

definition MAX_FETCH_REQUEST_BODY_SIZE :: nat where
  "MAX_FETCH_REQUEST_BODY_SIZE = 2 * 1024 * 1024"

definition MAX_KV_SCAN_LIMIT :: u32 where "MAX_KV_SCAN_LIMIT = 100"

section \<open>One operation\<close>

text \<open>\<open>anyhow::Error\<close>, which is only logged, and a panic of the task.\<close>

datatype task_error =
    TGeneric GenericError
  | TOther string
  | TPanic

text \<open>The values that the code serialises.\<close>

datatype reply_value =
    RNull
  | RUserErr string
  | RUserOkUnit
  | RUserOkBool bool
  | RFetch "string + ResponseObject"

datatype alloc_answer = AllocOk | AllocNoMemory | AllocGone

text \<open>
  The surroundings of one operation: \<open>io_alloc i\<close> answers its \<open>i\<close>-th buffer request, the clock
  is read at most twice.
\<close>

record io_env =
  io_json :: "reply_value \<Rightarrow> string + string"
  io_connect :: "SocketAddr \<Rightarrow> GenericError + nat"
  io_fetch :: "nat \<Rightarrow> RequestObject \<Rightarrow> string + (string + ResponseObject) GenericResult"
  io_alloc :: "nat \<Rightarrow> alloc_answer"
  io_now :: u64
  io_now2 :: u64
  io_conf :: WorkerConfiguration

text \<open>The shared state of the operations: the cached fetch client and the database.\<close>

record io_state =
  ios_client :: "nat option"
  ios_db :: db

type_synonym io_reply = "string \<times> bytes list"

type_synonym 'a iom = "io_state \<Rightarrow> (task_error + 'a) \<times> io_state"

definition mk_user_ok_with_buffers ::
  "io_env \<Rightarrow> reply_value \<Rightarrow> bytes list \<Rightarrow> task_error + io_reply" where
  "mk_user_ok_with_buffers env v buffers =
     (case io_json env v of Inl e \<Rightarrow> Inl (TOther e) | Inr s \<Rightarrow> Inr (s, buffers))"

definition mk_user_ok :: "io_env \<Rightarrow> reply_value \<Rightarrow> task_error + io_reply" where
  "mk_user_ok env v = mk_user_ok_with_buffers env v []"

definition mk_user_error :: "io_env \<Rightarrow> string \<Rightarrow> task_error + io_reply" where
  "mk_user_error env v =
     (case io_json env (RUserErr v) of Inl e \<Rightarrow> Inl (TOther e) | Inr s \<Rightarrow> Inr (s, []))"

definition allocate_arraybuffer :: "io_env \<Rightarrow> nat \<Rightarrow> unit GenericResult" where
  "allocate_arraybuffer env i =
     (case io_alloc env i of
        AllocOk \<Rightarrow> Inr ()
      | AllocNoMemory \<Rightarrow> Inl (Execution MemoryLimitExceeded)
      | AllocGone \<Rightarrow> Inl (Execution IoTimeout))"

definition allocate_arraybuffer_with_data ::
  "io_env \<Rightarrow> nat \<Rightarrow> bytes \<Rightarrow> bytes GenericResult" where
  "allocate_arraybuffer_with_data env i data =
     bind_res (allocate_arraybuffer env i) (\<lambda>_. Inr data)"

text \<open>\<open>try_join_all\<close> over the keys.\<close>

fun allocate_all :: "io_env \<Rightarrow> nat \<Rightarrow> bytes list \<Rightarrow> bytes list GenericResult" where
  "allocate_all env i [] = Inr []"
| "allocate_all env i (k # ks) =
     bind_res (allocate_arraybuffer_with_data env i k) (\<lambda>b.
     bind_res (allocate_all env (Suc i) ks) (\<lambda>bs. Inr (b # bs)))"

text \<open>
  The pattern \<open>match task.buffers.get(i).ok_or_else(..)?.read_to_vec(max)\<close> with its three exits.
\<close>

definition with_buffer ::
  "io_env \<Rightarrow> JsArrayBufferViewRef list \<Rightarrow> nat \<Rightarrow> string \<Rightarrow> nat \<Rightarrow> string \<Rightarrow> (bytes \<Rightarrow> io_reply iom)
    \<Rightarrow> io_reply iom" where
  "with_buffer env buffers i missing mx too_large k st =
     (if i \<ge> length buffers then (Inl (TGeneric (Other missing)), st)
      else
        (case read_to_vec mx (buffers ! i) of
           None \<Rightarrow> (Inl TPanic, st)
         | Some None \<Rightarrow> (mk_user_error env too_large, st)
         | Some (Some x) \<Rightarrow> k x st))"

definition with_namespace :: "io_env \<Rightarrow> string \<Rightarrow> (string \<Rightarrow> io_reply iom) \<Rightarrow> io_reply iom" where
  "with_namespace env namespace k st =
     (case bt_get (wc_kv_namespaces (io_conf env)) namespace of
        None \<Rightarrow> (mk_user_error env ''namespace does not exist'', st)
      | Some nsid \<Rightarrow> k nsid st)"

definition with_db :: "'a dbm \<Rightarrow> ('a \<Rightarrow> io_reply iom) \<Rightarrow> io_reply iom" where
  "with_db m k st =
     (case m (ios_db st) of
        (Inl e, d) \<Rightarrow> (Inl (TGeneric e), st\<lparr>ios_db := d\<rparr>)
      | (Inr x, d) \<Rightarrow> k x (st\<lparr>ios_db := d\<rparr>))"

definition reply :: "(task_error + io_reply) \<Rightarrow> io_reply iom" where
  "reply r st = (r, st)"

definition lift_generic :: "'a GenericResult \<Rightarrow> ('a \<Rightarrow> io_reply iom) \<Rightarrow> io_reply iom" where
  "lift_generic r k st = (case r of Inl e \<Rightarrow> (Inl (TGeneric e), st) | Inr x \<Rightarrow> k x st)"

text \<open>
  The loop of \<open>KvCmpUpdate\<close>: \<open>n\<close> turns are left, \<open>i\<close> is the loop variable, \<open>index\<close> the next
  buffer.
\<close>

fun cmpupdate_loop ::
  "io_env \<Rightarrow> JsArrayBufferViewRef list \<Rightarrow> u32 \<Rightarrow> nat \<Rightarrow> nat \<Rightarrow> nat \<Rightarrow> (bytes \<times> bytes) list
    \<Rightarrow> (bytes \<times> bytes) list
    \<Rightarrow> ((bytes \<times> bytes) list \<Rightarrow> (bytes \<times> bytes) list \<Rightarrow> io_reply iom) \<Rightarrow> io_reply iom" where
  "cmpupdate_loop env buffers num_assertions 0 i index assertions writes k = k assertions writes"
| "cmpupdate_loop env buffers num_assertions (Suc n) i index assertions writes k =
     with_buffer env buffers index ''missing key'' MAX_KV_KEY_SIZE ''key too large'' (\<lambda>key.
     with_buffer env buffers (index + 1) ''missing value'' MAX_KV_VALUE_SIZE ''value too large'' (\<lambda>val.
       if i < unat num_assertions
       then cmpupdate_loop env buffers num_assertions n (Suc i) (index + 2)
              (assertions @ [(key, val)]) writes k
       else cmpupdate_loop env buffers num_assertions n (Suc i) (index + 2)
              assertions (writes @ [(key, val)]) k))"

definition fetch_with_client :: "io_env \<Rightarrow> (nat \<Rightarrow> io_reply iom) \<Rightarrow> io_reply iom" where
  "fetch_with_client env k st =
     (case ios_client st of
        Some inner \<Rightarrow> k inner st
      | None \<Rightarrow>
          (case io_connect env (fetch_service (io_conf env)) of
             Inl e \<Rightarrow> (Inl (TGeneric e), st)
           | Inr client \<Rightarrow> k client (st\<lparr>ios_client := Some client\<rparr>)))"

definition handle_fetch ::
  "io_env \<Rightarrow> JsArrayBufferViewRef list \<Rightarrow> RequestObject \<Rightarrow> io_reply iom" where
  "handle_fetch env buffers req =
     with_buffer env buffers 0 ''missing body'' MAX_FETCH_REQUEST_BODY_SIZE
       ''fetch request body too large'' (\<lambda>body.
     fetch_with_client env (\<lambda>client.
       (case io_fetch env client (req\<lparr>req_body := Binary body\<rparr>) of
          Inl e \<Rightarrow> reply (Inl (TOther e))
        | Inr (Inl e) \<Rightarrow> reply (Inl (TGeneric e))
        | Inr (Inr (Inl msg)) \<Rightarrow> reply (mk_user_ok_with_buffers env (RFetch (Inl msg)) [])
        | Inr (Inr (Inr res)) \<Rightarrow>
            (case res_body res of Binary data \<Rightarrow>
               lift_generic (allocate_arraybuffer_with_data env 0 data) (\<lambda>buf.
               reply (mk_user_ok_with_buffers env
                 (RFetch (Inr (res\<lparr>res_body := Binary []\<rparr>))) [buf]))))))"

definition handle_task :: "io_env \<Rightarrow> AsyncCall \<Rightarrow> io_reply iom" where
  "handle_task env task =
     (let buffers = ac_buffers task in
      case ac_v task of
        SetTimeout n \<Rightarrow> reply (Inr (''null'', []))
      | Fetch req \<Rightarrow> handle_fetch env buffers req
      | KvGet namespace \<Rightarrow>
          with_buffer env buffers 0 ''missing key'' MAX_KV_KEY_SIZE ''key too large'' (\<lambda>key.
          with_namespace env namespace (\<lambda>nsid.
          with_db (worker_data_get (io_now env) nsid key) (\<lambda>result.
            (case result of
               Some r \<Rightarrow>
                 lift_generic (allocate_arraybuffer_with_data env 0 r) (\<lambda>buf.
                 reply (mk_user_ok_with_buffers env (RUserOkBool True) [buf]))
             | None \<Rightarrow> reply (mk_user_ok env (RUserOkBool False))))))
      | KvPut namespace if_not_exists ttl_ms \<Rightarrow>
          with_buffer env buffers 0 ''missing key'' MAX_KV_KEY_SIZE ''key too large'' (\<lambda>key.
          with_buffer env buffers 1 ''missing value'' MAX_KV_VALUE_SIZE ''value too large'' (\<lambda>val.
          with_namespace env namespace (\<lambda>nsid.
          with_db (worker_data_put (io_now env) (io_now2 env) nsid key val if_not_exists ttl_ms) (\<lambda>_.
          reply (mk_user_ok env RUserOkUnit)))))
      | KvDelete namespace \<Rightarrow>
          with_buffer env buffers 0 ''missing key'' MAX_KV_KEY_SIZE ''key too large'' (\<lambda>key.
          with_namespace env namespace (\<lambda>nsid.
          with_db (worker_data_delete nsid key) (\<lambda>_.
          reply (mk_user_ok env RUserOkUnit))))
      | KvScan namespace limit \<Rightarrow>
          with_buffer env buffers 0 ''missing start key'' MAX_KV_KEY_SIZE ''start_key too large'' (\<lambda>start.
            (let rest = (\<lambda>end_key.
                   with_namespace env namespace (\<lambda>nsid.
                     if limit > MAX_KV_SCAN_LIMIT
                     then reply (mk_user_error env ''limit is greater than MAX_KV_SCAN_LIMIT'')
                     else
                       with_db (worker_data_scan_keys (io_now env) nsid start end_key limit) (\<lambda>keys.
                       lift_generic (allocate_all env 0 keys) (\<lambda>bufs.
                       reply (mk_user_ok_with_buffers env RUserOkUnit bufs)))))
             in if length buffers > 1
                then with_buffer env buffers 1 '''' MAX_KV_KEY_SIZE ''end_key too large''
                       (\<lambda>end_key. rest (Some end_key))
                else rest None))
      | KvCmpUpdate namespace num_assertions num_writes ttl_ms \<Rightarrow>
          with_namespace env namespace (\<lambda>nsid.
          cmpupdate_loop env buffers num_assertions (unat (num_assertions + num_writes)) 0 0 [] []
            (\<lambda>assertions writes.
               with_db (worker_data_cmpupdate (io_now env) nsid assertions writes ttl_ms) (\<lambda>success.
               reply (mk_user_ok env (RUserOkBool success))))))"

text \<open>What the processor sends back for an operation.\<close>

definition task_response :: "(task_error + io_reply) \<Rightarrow> io_reply option" where
  "task_response ret =
     (case ret of
        Inr (x, buffers) \<Rightarrow> Some (''{\"Ok\":'' @ x @ ''}'', buffers)
      | Inl TPanic \<Rightarrow> None
      | Inl _ \<Rightarrow> Some (''{\"Err\":\"io error\"}'', []))"

section \<open>The pipeline\<close>

text \<open>
  \<open>inflight\<close> is the slab of callbacks. An operation carries, beside its call, the callback it
  was issued with, so that the theorems can say who gets the answer.
\<close>

record op =
  op_cb :: nat
  op_call :: AsyncCall

record IoPipeline =
  remaining_budget :: u32
  inflight :: "nat \<rightharpoonup> nat"
  task_queue :: "(nat \<times> op) list"
  pending :: "(nat \<times> op) option"
  running :: "(nat \<times> op) list"
  results :: "(nat \<times> op \<times> io_reply) list"
  killed :: bool

definition IoWaiter_new :: "WorkerConfiguration \<Rightarrow> IoPipeline" where
  "IoWaiter_new conf =
     \<lparr>remaining_budget = max_io_per_request (executor conf), inflight = Map.empty,
      task_queue = [], pending = None, running = [], results = [], killed = False\<rparr>"

definition task_capacity :: "WorkerConfiguration \<Rightarrow> nat" where
  "task_capacity conf = unat (max_io_per_request (executor conf)) + 200"

text \<open>
  \<open>issue\<close>: \<open>slab_key\<close> is the key that the slab chooses, vacant as documented (\<open>slab_law\<close>). \<open>None\<close>:
  the channel is full and the call blocks.
\<close>

definition slab_law :: "((nat \<rightharpoonup> nat) \<Rightarrow> nat) \<Rightarrow> bool" where
  "slab_law slab_key \<longleftrightarrow> (\<forall>m. finite (dom m) \<longrightarrow> m (slab_key m) = None)"

definition issue ::
  "((nat \<rightharpoonup> nat) \<Rightarrow> nat) \<Rightarrow> WorkerConfiguration \<Rightarrow> bool \<Rightarrow> AsyncCall \<Rightarrow> nat \<Rightarrow> IoPipeline
    \<Rightarrow> (unit GenericResult \<times> IoPipeline) option" where
  "issue slab_key conf count_budget task cb s =
     (if count_budget \<and> remaining_budget s = 0 then Some (Inl IoLimitExceeded, s)
      else
        (let s1 = (if count_budget then s\<lparr>remaining_budget := remaining_budget s - 1\<rparr> else s);
             index = slab_key (inflight s1);
             s2 = s1\<lparr>inflight := (inflight s1)(index \<mapsto> cb)\<rparr>
         in if killed s2
            then Some (Inl (Other ''io worker exited''), s2\<lparr>inflight := (inflight s2)(index := None)\<rparr>)
            else if length (task_queue s2) \<ge> task_capacity conf then None
            else Some (Inr (), s2\<lparr>task_queue := task_queue s2 @ [(index, \<lparr>op_cb = cb, op_call = task\<rparr>)]\<rparr>)))"

text \<open>
  \<open>wait\<close>, once a result is there: the slab's \<open>remove\<close> panics on a vacant key (\<open>None\<close>).
\<close>

definition wait_result :: "IoPipeline \<Rightarrow> ((nat \<times> op \<times> io_reply) \<times> IoPipeline) option" where
  "wait_result s =
     (case results s of
        [] \<Rightarrow> None
      | (index, oper, r) # rest \<Rightarrow>
          (case inflight s index of
             None \<Rightarrow> None
           | Some req \<Rightarrow>
               Some ((req, oper, r), s\<lparr>results := rest, inflight := (inflight s)(index := None)\<rparr>)))"

inductive io_step ::
  "((nat \<rightharpoonup> nat) \<Rightarrow> nat) \<Rightarrow> WorkerConfiguration \<Rightarrow> IoPipeline \<Rightarrow> IoPipeline \<Rightarrow> bool"
  for slab_key conf where
  issued: "issue slab_key conf b task cb s = Some (r, s') \<Longrightarrow> io_step slab_key conf s s'"
| received: "\<not> killed s \<Longrightarrow> pending s = None \<Longrightarrow> task_queue s = x # xs \<Longrightarrow>
    io_step slab_key conf s (s\<lparr>task_queue := xs, pending := Some x\<rparr>)"
| spawned: "pending s = Some x \<Longrightarrow>
    length (running s) < unat (max_io_concurrency (executor conf)) \<Longrightarrow>
    io_step slab_key conf s (s\<lparr>pending := None, running := running s @ [x]\<rparr>)"
| finished: "running s = xs @ (i, oper) # ys \<Longrightarrow> task_response ret = Some r \<Longrightarrow>
    io_step slab_key conf s (s\<lparr>running := xs @ ys, results := results s @ [(i, oper, r)]\<rparr>)"
| waited: "wait_result s = Some (d, s') \<Longrightarrow> io_step slab_key conf s s'"
| scope_dropped: "io_step slab_key conf s (s\<lparr>killed := True, running := [], pending := None\<rparr>)"

inductive io_reach :: "((nat \<rightharpoonup> nat) \<Rightarrow> nat) \<Rightarrow> WorkerConfiguration \<Rightarrow> IoPipeline \<Rightarrow> bool"
  for slab_key conf where
  start: "io_reach slab_key conf (IoWaiter_new conf)"
| more: "io_reach slab_key conf s \<Longrightarrow> io_step slab_key conf s s' \<Longrightarrow> io_reach slab_key conf s'"

section \<open>Lemmas on the pipeline\<close>

definition ops_of :: "IoPipeline \<Rightarrow> (nat \<times> op) list" where
  "ops_of s = task_queue s @ (case pending s of None \<Rightarrow> [] | Some x \<Rightarrow> [x]) @ running s @
     map (\<lambda>(i, oper, r). (i, oper)) (results s)"

definition io_inv :: "WorkerConfiguration \<Rightarrow> IoPipeline \<Rightarrow> bool" where
  "io_inv conf s \<longleftrightarrow>
     finite (dom (inflight s)) \<and> distinct (map fst (ops_of s)) \<and>
     (\<forall>x \<in> set (ops_of s). inflight s (fst x) = Some (op_cb (snd x))) \<and>
     length (running s) \<le> unat (max_io_concurrency (executor conf))"

lemma io_inv_issue:
  assumes "slab_law slab_key" and "io_inv conf s"
    and "issue slab_key conf b task cb s = Some (r, s')"
  shows "io_inv conf s'"
proof -
  let ?k = "slab_key (inflight s)"
  have vac: "inflight s ?k = None"
    using assms(1,2) by (simp add: slab_law_def io_inv_def)
  then have fresh: "?k \<notin> fst ` set (ops_of s)"
    using assms(2) unfolding io_inv_def by fastforce
  have upd: "\<forall>x \<in> set (ops_of s). ((inflight s)(?k := v)) (fst x) = Some (op_cb (snd x))" for v
  proof
    fix x
    assume x: "x \<in> set (ops_of s)"
    with fresh have "fst x \<noteq> ?k" by (metis image_eqI)
    with x assms(2) show "((inflight s)(?k := v)) (fst x) = Some (op_cb (snd x))"
      by (simp add: io_inv_def)
  qed
  from assms(3) consider "s' = s"
    | "inflight s' = (inflight s)(?k := None)" "task_queue s' = task_queue s"
      "running s' = running s" "pending s' = pending s" "results s' = results s"
    | "inflight s' = (inflight s)(?k \<mapsto> cb)" "running s' = running s" "pending s' = pending s"
      "results s' = results s"
      "task_queue s' = task_queue s @ [(?k, \<lparr>op_cb = cb, op_call = task\<rparr>)]"
    by (cases b) (auto simp: issue_def Let_def split: if_splits)
  then show ?thesis
  proof cases
    case 1
    with assms(2) show ?thesis by simp
  next
    case 2
    then have "ops_of s' = ops_of s" by (simp add: ops_of_def)
    with 2 upd [of None] assms(2) show ?thesis by (simp add: io_inv_def)
  next
    case 3
    let ?x = "(?k, \<lparr>op_cb = cb, op_call = task\<rparr>)"
    from 3 have m: "mset (ops_of s') = mset (?x # ops_of s)"
      by (simp add: ops_of_def)
    then have o: "set (ops_of s') = insert ?x (set (ops_of s))"
      by (metis set_mset_mset list.simps(15))
    have "distinct (map fst (?x # ops_of s))"
      using assms(2) fresh by (simp add: io_inv_def)
    with m have "distinct (map fst (ops_of s'))"
      by (metis mset_eq_imp_distinct_iff mset_map)
    with 3 o upd [of "Some cb"] assms(2) show ?thesis by (simp add: io_inv_def)
  qed
qed

lemma distinct_remove_mid:
  "distinct (map f (xs @ a # ys)) \<Longrightarrow> f a \<notin> f ` set (xs @ ys) \<and> distinct (map f (xs @ ys))"
  by auto

lemma io_inv_remove:
  assumes "io_inv conf s" and "results s = (i, oper, r) # rest"
  shows "io_inv conf (s\<lparr>results := rest, inflight := (inflight s)(i := None)\<rparr>)"
proof -
  let ?s = "s\<lparr>results := rest, inflight := (inflight s)(i := None)\<rparr>"
  have d: "distinct (map fst (ops_of s))" using assms(1) by (simp add: io_inv_def)
  let ?pre = "task_queue s @ (case pending s of None \<Rightarrow> [] | Some x \<Rightarrow> [x]) @ running s"
  let ?post = "map (\<lambda>(i, oper, r). (i, oper)) rest"
  have o: "ops_of s = ?pre @ (i, oper) # ?post" and o': "ops_of ?s = ?pre @ ?post"
    using assms(2) by (simp_all add: ops_of_def)
  from d have i: "i \<notin> fst ` set (ops_of ?s)" and d': "distinct (map fst (ops_of ?s))"
    using distinct_remove_mid [of fst ?pre "(i, oper)" ?post] unfolding o o' by simp_all
  have "\<forall>x \<in> set (ops_of ?s). ((inflight s)(i := None)) (fst x) = Some (op_cb (snd x))"
  proof
    fix x
    assume x: "x \<in> set (ops_of ?s)"
    with i have "fst x \<noteq> i" by (metis image_eqI)
    moreover from x have "x \<in> set (ops_of s)" unfolding o o' by auto
    ultimately show "((inflight s)(i := None)) (fst x) = Some (op_cb (snd x))"
      using assms(1) by (simp add: io_inv_def)
  qed
  with d' assms(1) show ?thesis by (simp add: io_inv_def)
qed

lemma io_inv_permute:
  assumes "io_inv conf s" and "mset (ops_of s') \<subseteq># mset (ops_of s)"
    and "inflight s' = inflight s" and "length (running s') \<le> unat (max_io_concurrency (executor conf))"
  shows "io_inv conf s'"
proof -
  from assms(2) obtain zs where "mset (ops_of s) = mset (ops_of s' @ zs)"
    by (metis ex_mset mset_append mset_subset_eq_exists_conv)
  then have "distinct (map fst (ops_of s' @ zs))" "set (ops_of s') \<subseteq> set (ops_of s)"
    using assms(1) mset_eq_imp_distinct_iff [of "map fst (ops_of s)" "map fst (ops_of s' @ zs)"]
      mset_eq_setD [of "ops_of s" "ops_of s' @ zs"] by (auto simp: io_inv_def)
  with assms show ?thesis unfolding io_inv_def by auto
qed

lemma io_inv_step:
  assumes "slab_law slab_key" and "io_step slab_key conf s s'" and "io_inv conf s"
  shows "io_inv conf s'"
  using assms(2,3)
proof (induction rule: io_step.induct)
  case (issued b task cb s r s')
  then show ?case using io_inv_issue [OF assms(1)] by blast
next
  case (received s x xs)
  then show ?case
    by (intro io_inv_permute [OF received(4)]) (auto simp: ops_of_def io_inv_def)
next
  case (spawned s x)
  then show ?case
    by (intro io_inv_permute [OF spawned(3)]) (auto simp: ops_of_def io_inv_def)
next
  case (finished s xs i oper ys ret r)
  then show ?case
    by (intro io_inv_permute [OF finished(3)]) (auto simp: ops_of_def io_inv_def)
next
  case (waited s d s')
  then show ?case
    using io_inv_remove [OF waited(2)]
    by (auto simp: wait_result_def split: list.splits option.splits)
next
  case (scope_dropped s)
  then show ?case
    by (intro io_inv_permute [OF scope_dropped]) (auto simp: ops_of_def io_inv_def)
qed

lemma io_inv_reach:
  assumes "slab_law slab_key" and "io_reach slab_key conf s"
  shows "io_inv conf s"
  using assms(2)
proof (induction rule: io_reach.induct)
  case start
  then show ?case by (simp add: io_inv_def ops_of_def IoWaiter_new_def)
next
  case (more s s')
  then show ?case using io_inv_step [OF assms(1)] by blast
qed

end
