(* ===== verification/Executor.thy ===== *)
theory Executor
  imports Runtime Io
begin

text \<open>
  A worker instance, \<open>src/rusty-workers-runtime/src/executor.rs\<close> (with \<open>crypto.rs\<close>): unpacking
  of the bundle, the protection against out-of-memory jumps, the host functions that scripts
  call, and the loop that runs tasks. V8 is not modelled: what a stretch of JavaScript did is
  input (\<open>js_turn\<close>): the host calls it made, the heap statistics and the exception that is
  pending after it, and whether it ran out of memory. The tar reader, the JSON parser, the
  digests and the random generator are parameters.
\<close>

section \<open>Bundles\<close>

text \<open>An entry of the archive: its path if it is text, its declared size, the bytes that follow.\<close>

record tar_entry =
  te_path :: "string option"
  te_size :: u64
  te_data :: bytes

fun unpack_entries ::
  "nat \<Rightarrow> tar_entry option list \<Rightarrow> (string, bytes) BTreeMap \<Rightarrow> (string, bytes) BTreeMap GenericResult"
  where
  "unpack_entries bundle_size [] files = Inr files"
| "unpack_entries bundle_size (None # entries) files = Inl (Other ''bad entry in bundle'')"
| "unpack_entries bundle_size (Some entry # entries) files =
     (case te_path entry of
        None \<Rightarrow> Inl (Other ''bad path in bundle'')
      | Some path \<Rightarrow>
          if unat (te_size entry) > bundle_size then Inl (Other ''entry size > bundle size'')
          else if length (te_data entry) < unat (te_size entry)
          then Inl (Other ''cannot read bundle'')
          else unpack_entries bundle_size entries
                 (bt_insert path (take (unat (te_size entry)) (te_data entry)) files))"

definition find_script :: "(string, bytes) BTreeMap \<Rightarrow> bytes GenericResult" where
  "find_script files =
     ok_or (Other ''cannot find index.js in bundle'')
       (case bt_get files ''./index.js'' of Some s \<Rightarrow> Some s | None \<Rightarrow> bt_get files ''index.js'')"

text \<open>\<open>tar::Archive::entries\<close>: \<open>None\<close> if the archive cannot be read.\<close>

definition unpack_bundle ::
  "(bytes \<Rightarrow> tar_entry option list option) \<Rightarrow> bytes
    \<Rightarrow> ((string, bytes) BTreeMap \<times> bytes) GenericResult" where
  "unpack_bundle tar_entries bundle =
     (case tar_entries bundle of
        None \<Rightarrow> Inl (Other ''bad bundle'')
      | Some entries \<Rightarrow>
          bind_res (unpack_entries (length bundle) entries []) (\<lambda>files.
          bind_res (find_script files) (\<lambda>script. Inr (files, script))))"

section \<open>Instance state\<close>

text \<open>
  \<open>is_channel\<close> tells whether \<open>fetch_response_channel\<close> holds a sender; \<open>is_sent\<close> are the
  answers sent for the current task and \<open>is_timer\<close> the messages to the monitor, in order.
  \<open>is_permit\<close>: an execution permit is held.
\<close>

record InstanceState =
  is_files :: "(string, bytes) BTreeMap"
  is_script :: bytes
  is_conf :: WorkerConfiguration
  is_appid :: string
  is_io_waiter :: "IoPipeline option"
  is_done :: bool
  is_channel :: bool
  is_sent :: "ResponseObject ExecutionResult list"
  is_timer :: "TimerControl list"
  is_permit :: bool
  is_memory :: "MemoryPool \<times> heap"
  is_logs :: "(string \<times> string) list"

definition Instance_new ::
  "(bytes \<Rightarrow> tar_entry option list option) \<Rightarrow> heap \<Rightarrow> string \<Rightarrow> bytes \<Rightarrow> WorkerConfiguration \<Rightarrow> Isolate
    \<Rightarrow> (InstanceState \<times> InstanceHandle \<times> InstanceTimeControl) GenericResult \<times> Isolate" where
  "Instance_new tar_entries h appid bundle conf isol =
     (case unpack_bundle tar_entries bundle of
        Inl e \<Rightarrow> (Inl e, isol)
      | Inr (files, script) \<Rightarrow>
          (case isolate_attach (executor conf) isol of
             (handle, isol') \<Rightarrow>
               (Inr (\<lparr>is_files = files, is_script = script, is_conf = conf, is_appid = appid,
                      is_io_waiter = None, is_done = False, is_channel = False, is_sent = [],
                      is_timer = [], is_permit = False, is_memory = (iso_pool isol', h),
                      is_logs = []\<rparr>,
                     handle, InstanceTimeControl_new (executor conf)),
                isol')))"

definition start_timer :: "InstanceState \<Rightarrow> InstanceState" where
  "start_timer st = st\<lparr>is_timer := is_timer st @ [Start]\<rparr>"

definition stop_timer :: "InstanceState \<Rightarrow> InstanceState" where
  "stop_timer st = st\<lparr>is_timer := is_timer st @ [Stop]\<rparr>"

definition reset_timer :: "InstanceState \<Rightarrow> InstanceState" where
  "reset_timer st = st\<lparr>is_timer := is_timer st @ [Reset]\<rparr>"

definition try_send_fetch_response ::
  "ResponseObject ExecutionResult \<Rightarrow> InstanceState \<Rightarrow> InstanceState" where
  "try_send_fetch_response res st =
     (if is_channel st then st\<lparr>is_channel := False, is_sent := is_sent st @ [res]\<rparr> else st)"

definition check_host_entry_memory :: "usize \<Rightarrow> IsolateConfig \<Rightarrow> unit GenericResult" where
  "check_host_entry_memory total_heap_size cfg =
     (if total_heap_size > max_memory_bytes cfg \<or>
         max_memory_bytes cfg - total_heap_size < host_entry_threshold_memory_bytes cfg
      then Inl (Execution MemoryLimitExceeded) else Inr ())"

section \<open>Out-of-memory jumps\<close>

text \<open>
  \<open>JMP_ENV\<close> is set (\<open>True\<close>) inside a protected call and taken away while a host function runs.
  V8's out-of-memory handler jumps if it is set and panics otherwise. A stretch of JavaScript
  is the list of what can matter here: an allocation that fails, or a call of a host function
  in which an allocation may fail.
\<close>

datatype jmp_action = AllocFails | HostCall bool

datatype jmp_outcome = Ran | Jumped | PanickedUnprotected | PanickedReentering

definition oom_protected_callback :: "bool \<Rightarrow> jmp_outcome" where
  "oom_protected_callback env = (if env then Jumped else PanickedUnprotected)"

fun run_js :: "jmp_action list \<Rightarrow> bool \<Rightarrow> jmp_outcome" where
  "run_js [] env = Ran"
| "run_js (AllocFails # js) env = oom_protected_callback env"
| "run_js (HostCall fails # js) env =
     (if \<not> env then PanickedUnprotected \<comment> \<open>\<open>wrap_callback: not in protected call\<close>\<close>
      else if fails then oom_protected_callback False
      else run_js js env)"

text \<open>The outcome and the value of \<open>JMP_ENV\<close> afterwards.\<close>

definition do_protected_call :: "jmp_action list \<Rightarrow> bool \<Rightarrow> jmp_outcome \<times> bool" where
  "do_protected_call js env =
     (if env then (PanickedReentering, env) else (run_js js True, False))"

section \<open>Host functions\<close>

definition MAX_RESPONSE_BODY_SIZE :: nat where "MAX_RESPONSE_BODY_SIZE = 8 * 1024 * 1024"

text \<open>
  The arguments of \<open>_rt_callService\<close> as the code inspects them: the length of the call string
  if it is one and what it parses to, the array of buffers with the elements that can be read,
  the callback if it is a function.
\<close>

record service_args =
  sa_call_len :: "nat option"
  sa_call :: "ServiceCall option"
  sa_buffers :: "js_value option list option"
  sa_callback :: "nat option"

datatype js_return = RetUndefined | RetNull | RetBuffer bytes

record host_env =
  he_digest :: "DigestAlgorithm \<Rightarrow> bytes \<Rightarrow> bytes"
  he_random :: "nat \<Rightarrow> u8"
  he_fresh :: nat
  he_slab_key :: "(nat \<rightharpoonup> nat) \<Rightarrow> nat"
  he_type_error :: DataError

fun collect_buffers :: "js_value option list \<Rightarrow> JsError + JsArrayBufferViewRef list" where
  "collect_buffers [] = Inr []"
| "collect_buffers (None # vs) = Inl (JsError_new KError None)"
| "collect_buffers (Some v # vs) =
     bind_res (view_new v) (\<lambda>b. bind_res (collect_buffers vs) (\<lambda>bs. Inr (b # bs)))"

text \<open>A panic (slice out of range) is an error of its own.\<close>

datatype host_error = HJs JsError | HPanic

definition js_err :: "string \<Rightarrow> host_error" where
  "js_err m = HJs (JsError_new KError (Some m))"

definition return_bytes ::
  "nat \<Rightarrow> bytes \<Rightarrow> InstanceState \<Rightarrow> (host_error + js_return) \<times> InstanceState" where
  "return_bytes fresh data st =
     (case slice_to_arraybuffer fresh data (is_memory st) of
        (Inl e, m) \<Rightarrow> (Inl (HJs (js_error_from_generic e)), st\<lparr>is_memory := m\<rparr>)
      | (Inr b, m) \<Rightarrow> (Inr (RetBuffer data), st\<lparr>is_memory := m\<rparr>))"

text \<open>The digest is fed byte by byte and finished; that is the digest of the bytes.\<close>

definition crypto_run ::
  "host_env \<Rightarrow> CryptoCall \<Rightarrow> JsArrayBufferViewRef list \<Rightarrow> InstanceState
    \<Rightarrow> (host_error + js_return) \<times> InstanceState" where
  "crypto_run env call buffers st =
     (case call of Digest alg \<Rightarrow>
        (case buffers of
           [] \<Rightarrow> (Inl (HJs (JsError_error ''crypto: missing buffer'')), st)
         | buf # _ \<Rightarrow>
             (case view_deref buf of
                None \<Rightarrow> (Inl HPanic, st)
              | Some input \<Rightarrow> return_bytes (he_fresh env) (he_digest env alg input) st)))"

definition sync_call ::
  "host_env \<Rightarrow> SyncCall \<Rightarrow> JsArrayBufferViewRef list \<Rightarrow> InstanceState
    \<Rightarrow> (host_error + js_return \<times> bytes option) \<times> InstanceState" where
  "sync_call env call buffers st =
     (case call of
        Log s \<Rightarrow> (Inr (RetUndefined, None), st\<lparr>is_logs := is_logs st @ [(is_appid st, s)]\<rparr>)
      | Done \<Rightarrow> (Inr (RetUndefined, None), st\<lparr>is_done := True\<rparr>)
      | SendFetchResponse res \<Rightarrow>
          (case buffers of
             [] \<Rightarrow> (Inl (js_err ''SendFetchResponse: missing buffer''), st)
           | buf # _ \<Rightarrow>
               (case read_to_vec MAX_RESPONSE_BODY_SIZE buf of
                  None \<Rightarrow> (Inl HPanic, st)
                | Some None \<Rightarrow> (Inl (js_err ''SendFetchResponse: body too large''), st)
                | Some (Some body) \<Rightarrow>
                    (Inr (RetUndefined, None),
                     try_send_fetch_response (Inr (res\<lparr>res_body := Binary body\<rparr>)) st)))
      | GetRandomValues \<Rightarrow>
          (case buffers of
             [] \<Rightarrow> (Inl (js_err ''GetRandomValues: missing buffer''), st)
           | buf # _ \<Rightarrow>
               (case view_deref buf of
                  None \<Rightarrow> (Inl HPanic, st)
                | Some output \<Rightarrow>
                    if length output > 65536
                    then (Inl (js_err ''SyncCall::GetRandomValues invoked with length greater than 65536''), st)
                    else (Inr (RetUndefined, Some (map (he_random env) [0..<length output])), st)))
      | GetFile name \<Rightarrow>
          (case bt_get (is_files st) name of
             Some file \<Rightarrow>
               (case return_bytes (he_fresh env) file st of
                  (Inl e, st') \<Rightarrow> (Inl e, st') | (Inr r, st') \<Rightarrow> (Inr (r, None), st'))
           | None \<Rightarrow> (Inr (RetNull, None), st))
      | Crypto inner \<Rightarrow>
          (case crypto_run env inner buffers st of
             (Inl e, st') \<Rightarrow> (Inl e, st') | (Inr r, st') \<Rightarrow> (Inr (r, None), st')))"

text \<open>\<open>state.io_waiter()?.issue(false, ..)\<close>; \<open>None\<close> is a call that blocks.\<close>

definition async_call ::
  "host_env \<Rightarrow> AsyncCallV \<Rightarrow> JsArrayBufferViewRef list \<Rightarrow> nat \<Rightarrow> InstanceState
    \<Rightarrow> ((host_error + js_return) \<times> InstanceState) option" where
  "async_call env call buffers cb st =
     (case is_io_waiter st of
        None \<Rightarrow> Some (Inl (js_err ''io service not available''), st)
      | Some io \<Rightarrow>
          (case issue (he_slab_key env) (is_conf st) False \<lparr>ac_v = call, ac_buffers = buffers\<rparr> cb io of
             None \<Rightarrow> None
           | Some (Inl e, io') \<Rightarrow>
               Some (Inl (HJs (js_error_from_generic e)), st\<lparr>is_io_waiter := Some io'\<rparr>)
           | Some (Inr _, io') \<Rightarrow> Some (Inr RetUndefined, st\<lparr>is_io_waiter := Some io'\<rparr>)))"

definition data_err :: "host_env \<Rightarrow> host_error" where
  "data_err env = HJs (js_error_from_data (he_type_error env))"

text \<open>The body of \<open>call_service_callback\<close>.\<close>

definition call_service ::
  "host_env \<Rightarrow> service_args \<Rightarrow> InstanceState
    \<Rightarrow> ((host_error + js_return \<times> bytes option) \<times> InstanceState) option" where
  "call_service env args st =
     (case sa_call_len args of
        None \<Rightarrow> Some (Inl (data_err env), st)
      | Some call_buf_len \<Rightarrow>
          if call_buf_len > 65536 then Some (Inl (js_err ''call string too large''), st)
          else
            (case acquire_arraybuffer_precheck (of_nat call_buf_len) (fst (is_memory st)) of
               Inl e \<Rightarrow> Some (Inl (HJs (js_error_from_generic e)), st)
             | Inr _ \<Rightarrow>
                 (case sa_call args of
                    None \<Rightarrow> Some (Inl (HJs (js_error_from_generic Conversion)), st)
                  | Some call \<Rightarrow>
                      (case sa_buffers args of
                         None \<Rightarrow> Some (Inl (data_err env), st)
                       | Some vals \<Rightarrow>
                           if length vals > 256 then Some (Inl (js_err ''too many buffers''), st)
                           else
                             (case collect_buffers vals of
                                Inl e \<Rightarrow> Some (Inl (HJs e), st)
                              | Inr local_buffers \<Rightarrow>
                                  (case call of
                                     SyncSC c \<Rightarrow> Some (sync_call env c local_buffers st)
                                   | AsyncSC c \<Rightarrow>
                                       (case sa_callback args of
                                          None \<Rightarrow> Some (Inl (data_err env), st)
                                        | Some cb \<Rightarrow>
                                            (case async_call env c local_buffers cb st of
                                               None \<Rightarrow> None
                                             | Some (Inl e, st') \<Rightarrow> Some (Inl e, st')
                                             | Some (Inr r, st') \<Rightarrow> Some (Inr (r, None), st')))))))))"

text \<open>\<open>wrap_callback\<close>: without memory for the host the script gets a \<open>RangeError\<close>.\<close>

datatype js_result = JsReturns js_return "bytes option" | JsThrows JsErrorKind string | JsRangeError

definition call_service_callback ::
  "IsolateConfig \<Rightarrow> usize \<Rightarrow> host_env \<Rightarrow> service_args \<Rightarrow> InstanceState
    \<Rightarrow> (js_result option \<times> InstanceState) option" where
  "call_service_callback cfg heap_size env args st =
     (case check_host_entry_memory heap_size cfg of
        Inl _ \<Rightarrow> Some (Some JsRangeError, st)
      | Inr _ \<Rightarrow>
          (case call_service env args st of
             None \<Rightarrow> None
           | Some (Inr (r, out), st') \<Rightarrow> Some (Some (JsReturns r out), st')
           | Some (Inl (HJs e), st') \<Rightarrow>
               Some (Some (case JsError_build e of (k, m) \<Rightarrow> JsThrows k m), st')
           | Some (Inl HPanic, st') \<Rightarrow> Some (None, st')))"

section \<open>Turns of JavaScript\<close>

record js_turn =
  jt_calls :: "(usize \<times> host_env \<times> service_args) list"
  jt_oom :: bool
  jt_heap :: usize
  jt_exception :: "string option"
  jt_terminated :: bool
  jt_reason :: TerminationReason

fun host_calls ::
  "IsolateConfig \<Rightarrow> (usize \<times> host_env \<times> service_args) list \<Rightarrow> InstanceState \<Rightarrow> InstanceState" where
  "host_calls cfg [] st = st"
| "host_calls cfg ((hs, env, args) # calls) st =
     (case call_service_callback cfg hs env args st of
        None \<Rightarrow> st \<comment> \<open>blocked: the turn goes no further\<close>
      | Some (_, st') \<Rightarrow> host_calls cfg calls st')"

definition protected_js ::
  "IsolateConfig \<Rightarrow> js_turn \<Rightarrow> InstanceState \<Rightarrow> unit GenericResult \<times> InstanceState" where
  "protected_js cfg turn st =
     (let st' = host_calls cfg (jt_calls turn) st in
      if jt_oom turn then (Inl (Execution MemoryLimitExceeded), st')
      else (check_host_entry_memory (jt_heap turn) cfg, st'))"

definition turn_check :: "js_turn \<Rightarrow> unit ExecutionResult" where
  "turn_check turn = check_on_task (jt_exception turn) (jt_terminated turn) (jt_reason turn)"

section \<open>Running a task\<close>

text \<open>
  What the loop meets between two turns: the length of the answer of \<open>io_waiter.wait\<close> (\<open>None\<close>
  when the I/O scope is gone) and the pipeline after it, whether the execution token comes in time, and the next turn.
\<close>

record io_turn =
  it_wait :: "nat option"
  it_io :: IoPipeline
  it_token :: bool
  it_turn :: js_turn

datatype task_end = TaskBreak | ExitWith GenericError

definition take_permit :: "bool \<Rightarrow> InstanceState \<Rightarrow> unit GenericResult \<times> InstanceState" where
  "take_permit available st =
     (if available then (Inr (), st\<lparr>is_permit := True\<rparr>)
      else (Inl (Other ''timeout waiting for execution token''), st))"

definition release_permit :: "InstanceState \<Rightarrow> InstanceState" where
  "release_permit st = st\<lparr>is_permit := False\<rparr>"

text \<open>
  The inner loop, after \<open>turn\<close>. Leaving the function drops the permit. \<open>None\<close>: the task still
  runs when the given turns are used up.
\<close>

fun drive ::
  "IsolateConfig \<Rightarrow> js_turn \<Rightarrow> io_turn list \<Rightarrow> InstanceState \<Rightarrow> (task_end \<times> InstanceState) option" where
  "drive cfg turn rest st =
     (case turn_check turn of
        Inl e \<Rightarrow>
          if terminates_worker e
          then Some (ExitWith (Execution e), release_permit (try_send_fetch_response (Inl e) st))
          else Some (TaskBreak, try_send_fetch_response (Inl e) st)
      | Inr _ \<Rightarrow>
          if is_done st then Some (TaskBreak, st)
          else
            (let st1 = release_permit (stop_timer st) in
             case rest of
               [] \<Rightarrow> None
             | next # rest' \<Rightarrow>
                 (case it_wait next of
                    None \<Rightarrow>
                      Some (ExitWith (Execution IoTimeout), try_send_fetch_response (Inl IoTimeout) st1)
                  | Some data_len \<Rightarrow>
                      (case take_permit (it_token next) (st1\<lparr>is_io_waiter := Some (it_io next)\<rparr>) of
                         (Inl e, st2) \<Rightarrow> Some (ExitWith e, st2)
                       | (Inr _, st2) \<Rightarrow>
                           (let st3 = start_timer st2 in
                            case acquire_arraybuffer_precheck (of_nat data_len) (fst (is_memory st3)) of
                              Inl e \<Rightarrow> Some (ExitWith e, release_permit st3)
                            | Inr _ \<Rightarrow>
                                (case protected_js cfg (it_turn next) st3 of
                                   (Inl e, st4) \<Rightarrow> Some (ExitWith e, release_permit st4)
                                 | (Inr _, st4) \<Rightarrow> drive cfg (it_turn next) rest' st4))))))"

text \<open>
  One task: the token after its arrival, the preparation of the event (which can fail in V8),
  the dispatching turn, and the later turns.
\<close>

record task_run =
  tr_token :: bool
  tr_event :: "unit GenericResult"
  tr_dispatch :: js_turn
  tr_turns :: "io_turn list"

definition run_task ::
  "IsolateConfig \<Rightarrow> task_run \<Rightarrow> InstanceState \<Rightarrow> (task_end \<times> InstanceState) option" where
  "run_task cfg task st =
     (case take_permit (tr_token task) (st\<lparr>is_sent := []\<rparr>) of
        (Inl e, st1) \<Rightarrow> Some (ExitWith e, st1)
      | (Inr _, st1) \<Rightarrow>
          (let st2 = start_timer (st1\<lparr>is_channel := True\<rparr>);
               st3 = st2\<lparr>is_io_waiter := Some (IoWaiter_new (is_conf st2))\<rparr>
           in case tr_event task of
                Inl e \<Rightarrow> Some (ExitWith e, release_permit st3)
              | Inr _ \<Rightarrow>
                  (case protected_js cfg (tr_dispatch task) st3 of
                     (Inl e, st4) \<Rightarrow> Some (ExitWith e, release_permit st4)
                   | (Inr _, st4) \<Rightarrow>
                       (case drive cfg (tr_dispatch task) (tr_turns task) st4 of
                          Some (TaskBreak, st5) \<Rightarrow>
                            Some (TaskBreak,
                              try_send_fetch_response (Inr (ResponseObject_default\<lparr>res_status := 500\<rparr>)) st5)
                        | r \<Rightarrow> r))))"

text \<open>The top of the outer loop, before the next task is received.\<close>

definition before_task :: "InstanceState \<Rightarrow> InstanceState" where
  "before_task st =
     release_permit ((reset_timer (stop_timer st))\<lparr>is_io_waiter := None, is_done := False\<rparr>)"

fun run_tasks ::
  "IsolateConfig \<Rightarrow> task_run list \<Rightarrow> InstanceState
    \<Rightarrow> (unit GenericResult \<times> InstanceState \<times> ResponseObject ExecutionResult list list) option" where
  "run_tasks cfg [] st = Some (Inr (), before_task st, [])" \<comment> \<open>channel closed\<close>
| "run_tasks cfg (task # tasks) st =
     (case run_task cfg task (before_task st) of
        None \<Rightarrow> None
      | Some (ExitWith e, st') \<Rightarrow> Some (Inl e, st', [is_sent st'])
      | Some (TaskBreak, st') \<Rightarrow>
          map_option (\<lambda>(r, st'', sent). (r, st'', is_sent st' # sent)) (run_tasks cfg tasks st'))"

section \<open>Running an instance\<close>

text \<open>
  The start: the token, the global environment, decoding and compilation of the script, then
  \<open>ready_callback\<close>, then the first turn.
\<close>

record init_run =
  ir_token :: bool
  ir_env :: "unit GenericResult"
  ir_utf8 :: bool
  ir_compiles :: bool
  ir_pre :: "unit GenericResult" \<comment> \<open>\<open>check_on_init\<close> before the script runs\<close>
  ir_turn :: js_turn

definition init_instance ::
  "IsolateConfig \<Rightarrow> init_run \<Rightarrow> InstanceState \<Rightarrow> bool \<times> unit GenericResult \<times> InstanceState" where
  "init_instance cfg ini st =
     (case take_permit (ir_token ini) st of
        (Inl e, st1) \<Rightarrow> (False, Inl e, st1)
      | (Inr _, st1) \<Rightarrow>
          (case ir_env ini of
             Inl e \<Rightarrow> (False, Inl e, release_permit st1)
           | Inr _ \<Rightarrow>
               if \<not> ir_utf8 ini
               then (False, Inl (ScriptInitException ''cannot decode script as utf-8 text''), release_permit st1)
               else if \<not> ir_compiles ini
               then (False, Inl (ScriptInitException ''script compilation failed''), release_permit st1)
               else
                 (case ir_pre ini of
                    Inl e \<Rightarrow> (True, Inl e, release_permit st1)
                  | Inr _ \<Rightarrow>
                      (case protected_js cfg (ir_turn ini) (start_timer st1) of
                         (Inl e, st2) \<Rightarrow> (True, Inl e, release_permit st2)
                       | (Inr _, st2) \<Rightarrow>
                           (case turn_check (ir_turn ini) of
                              Inl e \<Rightarrow> (True, Inl (Execution e), release_permit st2)
                            | Inr _ \<Rightarrow> (True, Inr (), st2))))))"

definition instance_run ::
  "IsolateConfig \<Rightarrow> init_run \<Rightarrow> task_run list \<Rightarrow> InstanceState
    \<Rightarrow> (bool \<times> unit GenericResult \<times> InstanceState \<times> ResponseObject ExecutionResult list list) option" where
  "instance_run cfg ini tasks st =
     (case init_instance cfg ini st of
        (ready, Inl e, st') \<Rightarrow> Some (ready, Inl e, st', [])
      | (ready, Inr _, st') \<Rightarrow>
          map_option (\<lambda>(r, st'', sent). (ready, r, st'', sent)) (run_tasks cfg tasks st'))"

text \<open>What the sender of a task sees: the answer, or that the channel was dropped.\<close>

definition outcome_of :: "ResponseObject ExecutionResult list \<Rightarrow> fetch_outcome" where
  "outcome_of sent = (case sent of [] \<Rightarrow> SenderDropped | r # _ \<Rightarrow> Answered r)"

end
