(* ===== verification/Io_Spec.thy ===== *)
theory Io_Spec
  imports Io Proxy_Spec
begin

text \<open>
  What an asynchronous operation can do to the database: a small calculus of operations that
  keep an invariant of the tables, the isolation of namespaces, and the bounds on keys and
  values.
\<close>

section \<open>Operations that keep an invariant\<close>

named_theorems io_keeps_intros \<open>operations that keep an invariant of the tables\<close>

definition io_keeps :: "(tables \<Rightarrow> bool) \<Rightarrow> io_reply iom \<Rightarrow> bool" where
  "io_keeps P m \<longleftrightarrow> (\<forall>st. P (tbl (ios_db st)) \<longrightarrow> P (tbl (ios_db (snd (m st)))))"

lemma io_keeps_basic [io_keeps_intros]:
  "io_keeps P (reply r)"
  "(\<And>x. gr = Inr x \<Longrightarrow> io_keeps P (k x)) \<Longrightarrow> io_keeps P (lift_generic gr k)"
  "(\<And>x. bt_get (wc_kv_namespaces (io_conf env)) ns = Some x \<Longrightarrow> io_keeps P (nk x)) \<Longrightarrow>
     io_keeps P (with_namespace env ns nk)"
  by (auto simp: io_keeps_def reply_def lift_generic_def with_namespace_def
      split: sum.splits option.splits)

lemma io_keeps_buffer [io_keeps_intros]:
  "(\<And>x. length x \<le> mx \<Longrightarrow> io_keeps P (k x)) \<Longrightarrow>
     io_keeps P (with_buffer env bufs i missing mx too_large k)"
  by (auto simp: io_keeps_def with_buffer_def dest: read_to_vec_le split: option.splits)

lemma io_keeps_db [io_keeps_intros]:
  "db_keeps P m \<Longrightarrow> (\<And>x. io_keeps P (k x)) \<Longrightarrow> io_keeps P (with_db m k)"
  by (fastforce simp: io_keeps_def with_db_def db_keeps_def split: prod.splits sum.splits)

lemma io_keeps_client [io_keeps_intros]:
  "(\<And>c. io_keeps P (k c)) \<Longrightarrow> io_keeps P (fetch_with_client env k)"
  by (auto simp: io_keeps_def fetch_with_client_def split: option.splits sum.splits)

definition items_bounded :: "(bytes \<times> bytes) list \<Rightarrow> bool" where
  "items_bounded ws \<longleftrightarrow>
     (\<forall>(k, v) \<in> set ws. length k \<le> MAX_KV_KEY_SIZE \<and> length v \<le> MAX_KV_VALUE_SIZE)"

lemma io_keeps_loop [io_keeps_intros]:
  assumes "\<And>as ws. items_bounded ws \<Longrightarrow> io_keeps P (k as ws)" and "items_bounded ws0"
  shows "io_keeps P (cmpupdate_loop env bufs na n i index as0 ws0 k)"
  using assms(2)
proof (induction n arbitrary: i index as0 ws0)
  case 0
  with assms(1) show ?case by simp
next
  case (Suc n)
  show ?case
    unfolding cmpupdate_loop.simps
    by (intro io_keeps_buffer) (use Suc in \<open>auto simp: items_bounded_def\<close>)
qed

lemma io_keeps_fetch [io_keeps_intros]: "io_keeps P (handle_fetch env bufs req)"
  unfolding handle_fetch_def
  by (auto intro!: io_keeps_intros split: sum.splits HttpBody.splits)

lemma io_keeps_task:
  assumes "\<And>n k. db_keeps P (worker_data_get (io_now env) n k)"
    and "\<And>n s e l. db_keeps P (worker_data_scan_keys (io_now env) n s e l)"
    and "\<And>ns n k v b t. bt_get (wc_kv_namespaces (io_conf env)) ns = Some n \<Longrightarrow>
      length k \<le> MAX_KV_KEY_SIZE \<Longrightarrow> length v \<le> MAX_KV_VALUE_SIZE \<Longrightarrow>
      db_keeps P (worker_data_put (io_now env) (io_now2 env) n k v b t)"
    and "\<And>ns n k. bt_get (wc_kv_namespaces (io_conf env)) ns = Some n \<Longrightarrow>
      db_keeps P (worker_data_delete n k)"
    and "\<And>ns n as ws t. bt_get (wc_kv_namespaces (io_conf env)) ns = Some n \<Longrightarrow>
      items_bounded ws \<Longrightarrow> db_keeps P (worker_data_cmpupdate (io_now env) n as ws t)"
  shows "io_keeps P (handle_task env task)"
proof (cases "ac_v task")
  case (KvScan ns limit)
  then show ?thesis
    by (auto simp: handle_task_def Let_def intro!: io_keeps_intros assms)
next
  case (KvCmpUpdate ns na nw ttl)
  then show ?thesis
    by (auto simp: handle_task_def Let_def items_bounded_def [of "[]"]
        intro!: io_keeps_intros assms)
qed (auto simp: handle_task_def Let_def intro!: io_keeps_intros assms split: option.splits)

section \<open>Namespaces\<close>

text \<open>Everything in the database outside the namespaces \<open>N\<close>.\<close>

definition outside :: "string set \<Rightarrow> tables \<Rightarrow> appkv_row list \<times> route_row list \<times> app_row list
    \<times> bundle_row list \<times> applog_row list" where
  "outside N t = (filter (\<lambda>r. kv_nsid r \<notin> N) (appkv t), routes t, apps_tbl t, bundles t, applog t)"

lemma filter_upsert:
  assumes "\<And>r. key (upd r) = key r" and "\<And>r. key r = key row \<Longrightarrow> \<not> Q r"
    and "\<And>r. key r = key row \<Longrightarrow> \<not> Q (upd r)"
  shows "filter Q (tbl_upsert key upd row rows) = filter Q rows"
proof -
  have "filter Q (map (\<lambda>r. if key r = key row then upd r else r) rows) = filter Q rows"
    using assms by (induction rows) auto
  with assms(2) [of row] show ?thesis by (simp add: tbl_upsert_def)
qed

lemma filter_replace:
  assumes "\<And>r. key r = key row \<Longrightarrow> \<not> Q r"
  shows "filter Q (tbl_replace key row rows) = filter Q rows"
proof -
  have "filter Q (filter (\<lambda>r. key r \<noteq> key row) rows) = filter Q rows"
    using assms by (induction rows) auto
  with assms [of row] show ?thesis by (simp add: tbl_replace_def)
qed

lemma outside_upsert: "n \<in> N \<Longrightarrow> outside N (kv_upsert n k v ex t) = outside N t"
  unfolding outside_def kv_upsert_def
  by (simp, rule filter_upsert) (auto simp: kv_key_eq kv_key_def kv_row_def)

lemma outside_replace:
  "n \<in> N \<Longrightarrow> outside N (t\<lparr>appkv := tbl_replace kv_key (kv_row n k v ex) (appkv t)\<rparr>) = outside N t"
  unfolding outside_def by (simp, rule filter_replace) (auto simp: kv_key_eq)

lemma outside_delete:
  "n \<in> N \<Longrightarrow> outside N (t\<lparr>appkv := tbl_delete (\<lambda>r. kv_key r = (n, k)) (appkv t)\<rparr>) = outside N t"
  unfolding outside_def tbl_delete_def
  by (simp add: conj_commute) (rule filter_cong; auto simp: kv_key_eq)

lemma exec_writes_keeps_P:
  "(\<And>t k v ex. P t \<Longrightarrow> (k, v) \<in> set ws \<Longrightarrow> P (kv_upsert n k v ex t)) \<Longrightarrow> db_keeps P (exec_writes n ex ws)"
proof (induction n ex ws rule: exec_writes.induct)
  case (1 n ex)
  then show ?case by (simp add: db_keeps_readonly readonly_intros)
next
  case (2 n ex k v rest)
  then show ?case by (auto intro!: keeps_intros)
qed

lemma cmpupdate_keeps_P:
  assumes "\<And>t k v ex. P t \<Longrightarrow> (k, v) \<in> set ws \<Longrightarrow> P (kv_upsert n k v ex t)"
  shows "db_keeps P (worker_data_cmpupdate now n as ws ttl)"
  unfolding worker_data_cmpupdate_def
  by (auto intro!: keeps_intros db_keeps_readonly [OF check_assertions_readonly]
      exec_writes_keeps_P assms split: sum.splits)

lemma put_keeps_P:
  assumes "\<And>t ex. P t \<Longrightarrow> P (kv_upsert n k v ex t)"
    and "\<And>t ex. P t \<Longrightarrow> P (t\<lparr>appkv := tbl_replace kv_key (kv_row n k v ex) (appkv t)\<rparr>)"
  shows "db_keeps P (worker_data_put n1 n2 n k v ine ttl)"
  unfolding worker_data_put_def
  by (auto intro!: keeps_intros assms split: sum.splits)

definition configured :: "io_env \<Rightarrow> string set" where
  "configured env = {n. \<exists>ns. bt_get (wc_kv_namespaces (io_conf env)) ns = Some n}"

lemma handle_task_outside: "io_keeps (\<lambda>t. outside (configured env) t = w) (handle_task env task)"
proof (rule io_keeps_task)
  fix ns n k v b t as ws
  assume "bt_get (wc_kv_namespaces (io_conf env)) ns = Some n"
  then have n: "n \<in> configured env" by (auto simp: configured_def)
  show "db_keeps (\<lambda>t. outside (configured env) t = w)
      (worker_data_put (io_now env) (io_now2 env) n k v b t)"
    by (rule put_keeps_P) (simp_all add: outside_upsert [OF n] outside_replace [OF n])
  show "db_keeps (\<lambda>t. outside (configured env) t = w) (worker_data_delete n k)"
    unfolding worker_data_delete_def
    by (auto intro!: keeps_intros simp: outside_delete [OF n])
  show "db_keeps (\<lambda>t. outside (configured env) t = w)
      (worker_data_cmpupdate (io_now env) n as ws t)"
    by (rule cmpupdate_keeps_P) (simp add: outside_upsert [OF n])
qed (simp_all add: db_keeps_readonly worker_data_readonly)

section \<open>Bounds\<close>

definition rows_bounded :: "tables \<Rightarrow> bool" where
  "rows_bounded t \<longleftrightarrow>
     (\<forall>r \<in> set (appkv t). length (kv_appkey r) \<le> MAX_KV_KEY_SIZE \<and>
        length (kv_appvalue r) \<le> MAX_KV_VALUE_SIZE)"

lemma set_tbl_upsert: "set (tbl_upsert key upd row rows) \<subseteq> insert row (set rows \<union> upd ` set rows)"
  by (auto simp: tbl_upsert_def)

lemma rows_bounded_upsert:
  assumes "rows_bounded t" and "length k \<le> MAX_KV_KEY_SIZE" and "length v \<le> MAX_KV_VALUE_SIZE"
  shows "rows_bounded (kv_upsert n k v ex t)"
  unfolding rows_bounded_def
proof
  fix r
  assume "r \<in> set (appkv (kv_upsert n k v ex t))"
  then consider "r = kv_row n k v ex" | "r \<in> set (appkv t)"
    | r0 where "r0 \<in> set (appkv t)" "r = r0\<lparr>kv_appvalue := v, kv_appexpiration := ex\<rparr>"
    using set_tbl_upsert [of kv_key "\<lambda>r. r\<lparr>kv_appvalue := v, kv_appexpiration := ex\<rparr>"
        "kv_row n k v ex" "appkv t"]
    by (auto simp: kv_upsert_def)
  then show "length (kv_appkey r) \<le> MAX_KV_KEY_SIZE \<and> length (kv_appvalue r) \<le> MAX_KV_VALUE_SIZE"
    using assms by cases (auto simp: rows_bounded_def kv_row_def)
qed

lemma handle_task_bounded: "io_keeps rows_bounded (handle_task env task)"
proof (rule io_keeps_task)
  fix ns n k v b t as ws
  show "db_keeps rows_bounded (worker_data_put (io_now env) (io_now2 env) n k v b t)"
    if "length k \<le> MAX_KV_KEY_SIZE" and "length v \<le> MAX_KV_VALUE_SIZE"
    by (rule put_keeps_P) (use that in \<open>auto simp: rows_bounded_upsert\<close>,
        auto simp: rows_bounded_def tbl_replace_def kv_row_def)
  show "db_keeps rows_bounded (worker_data_delete n k)"
    unfolding worker_data_delete_def
    by (auto intro!: keeps_intros simp: rows_bounded_def tbl_delete_def)
  show "db_keeps rows_bounded (worker_data_cmpupdate (io_now env) n as ws t)" if "items_bounded ws"
    by (rule cmpupdate_keeps_P) (use that in \<open>auto simp: rows_bounded_upsert items_bounded_def\<close>)
qed (simp_all add: db_keeps_readonly worker_data_readonly)

section \<open>Counting the pairs of a compare-and-update\<close>

lemma db_exec_up: "db_up d \<Longrightarrow> \<exists>d'. db_exec u d = (Inr (), d') \<and> tbl d' = u (tbl d) \<and> db_up d'"
  unfolding db_exec_def by (rule db_call_up) simp_all

lemma cmpupdate_empty_up:
  assumes "db_up d"
  shows "\<exists>d'. worker_data_cmpupdate now n [] [] 0 d = (Inr True, d') \<and> tbl d' = tbl d \<and> db_up d'"
proof -
  obtain d1 where 1: "get_conn d = (Inr (), d1)" "tbl d1 = tbl d" "db_up d1"
    using get_conn_up [OF assms] by blast
  obtain d2 where 2: "get_conn d1 = (Inr (), d2)" "tbl d2 = tbl d" "db_up d2"
    using get_conn_up [OF 1(3)] 1(2) by auto
  obtain d3 where 3: "get_conn d2 = (Inr (), d3)" "tbl d3 = tbl d" "db_up d3"
    using get_conn_up [OF 2(3)] 2(2) by auto
  from 1 2 3 show ?thesis
    by (simp add: worker_data_cmpupdate_def expiration_of_def db_bind_def db_return_def
        db_transaction_def)
qed

lemma handle_task_count_wraps:
  assumes "db_up (ios_db st)" and "bt_get (wc_kv_namespaces (io_conf env)) ns = Some n"
    and "na + nw = 0"
  shows "\<exists>st'. handle_task env \<lparr>ac_v = KvCmpUpdate ns na nw 0, ac_buffers = bufs\<rparr> st =
      (mk_user_ok env (RUserOkBool True), st') \<and> tbl (ios_db st') = tbl (ios_db st)"
proof -
  from cmpupdate_empty_up [OF assms(1), of "io_now env" n] obtain d'
    where "worker_data_cmpupdate (io_now env) n [] [] 0 (ios_db st) = (Inr True, d')"
      and "tbl d' = tbl (ios_db st)" by blast
  with assms(2,3) show ?thesis
    by (simp add: handle_task_def with_namespace_def with_db_def reply_def)
qed

end
