(* ===== verification/Executor_Spec.thy ===== *)
theory Executor_Spec
  imports Executor Io_Spec
begin

text \<open>
  Lemmas on worker instances: host functions answer a task at most once and leave the timer and
  the permit alone; each task is answered once; the messages to the monitor alternate.
\<close>

section \<open>What host functions keep\<close>

text \<open>The relation between the state before and after a host function.\<close>

definition host_ok :: "InstanceState \<Rightarrow> InstanceState \<Rightarrow> bool" where
  "host_ok st st' \<longleftrightarrow>
     is_timer st' = is_timer st \<and> is_permit st' = is_permit st \<and>
     length (is_sent st') + of_bool (is_channel st') = length (is_sent st) + of_bool (is_channel st) \<and>
     is_conf st' = is_conf st \<and> is_files st' = is_files st"

lemma host_ok_refl [simp]: "host_ok st st"
  by (simp add: host_ok_def)

lemma host_ok_trans: "host_ok a b \<Longrightarrow> host_ok b c \<Longrightarrow> host_ok a c"
  by (simp add: host_ok_def)

lemma host_ok_updates [simp]:
  "host_ok st (st\<lparr>is_memory := m\<rparr>)"
  "host_ok st (st\<lparr>is_done := b\<rparr>)"
  "host_ok st (st\<lparr>is_logs := l\<rparr>)"
  "host_ok st (st\<lparr>is_io_waiter := w\<rparr>)"
  by (simp_all add: host_ok_def)

lemma host_ok_send: "host_ok st (try_send_fetch_response r st)"
  by (simp add: host_ok_def try_send_fetch_response_def)

lemma host_ok_return: "return_bytes fresh data st = (r, st') \<Longrightarrow> host_ok st st'"
  by (auto simp: return_bytes_def split: prod.splits sum.splits)

lemma host_ok_crypto: "crypto_run env c bufs st = (r, st') \<Longrightarrow> host_ok st st'"
  by (auto simp: crypto_run_def host_ok_return split: CryptoCall.splits list.splits option.splits)

lemma host_ok_sync: "sync_call env c bufs st = (r, st') \<Longrightarrow> host_ok st st'"
  by (cases c)
     (auto simp: sync_call_def host_ok_send host_ok_return host_ok_crypto
       split: list.splits option.splits prod.splits sum.splits if_splits)

lemma host_ok_async: "async_call env c bufs cb st = Some (r, st') \<Longrightarrow> host_ok st st'"
  by (auto simp: async_call_def split: option.splits prod.splits sum.splits)

lemma host_ok_service: "call_service env args st = Some (r, st') \<Longrightarrow> host_ok st st'"
  by (auto simp: call_service_def dest: host_ok_sync host_ok_async
      split: option.splits sum.splits if_splits ServiceCall.splits prod.splits)

lemma host_ok_callback: "call_service_callback cfg hs env args st = Some (r, st') \<Longrightarrow> host_ok st st'"
  by (auto simp: call_service_callback_def dest: host_ok_service
      split: option.splits sum.splits prod.splits host_error.splits)

lemma host_ok_calls: "host_ok st (host_calls cfg calls st)"
proof (induction cfg calls st rule: host_calls.induct)
  case (2 cfg hs env args calls st)
  then show ?case
    by (auto split: option.splits dest: host_ok_callback intro: host_ok_trans)
qed simp

lemma host_ok_protected: "protected_js cfg turn st = (r, st') \<Longrightarrow> host_ok st st'"
  by (auto simp: protected_js_def Let_def host_ok_calls split: if_splits)

section \<open>One task\<close>

text \<open>The sender of the task is either still in its place or has been answered, once.\<close>

definition answer_inv :: "InstanceState \<Rightarrow> bool" where
  "answer_inv st \<longleftrightarrow> length (is_sent st) + of_bool (is_channel st) = 1"

lemma answer_inv_host: "host_ok st st' \<Longrightarrow> answer_inv st \<Longrightarrow> answer_inv st'"
  by (simp add: host_ok_def answer_inv_def)

text \<open>Started timers and stopped ones alternate; the argument says whether one is running.\<close>

fun alternates :: "bool \<Rightarrow> TimerControl list \<Rightarrow> bool option" where
  "alternates on [] = Some on"
| "alternates on (Start # ops) = (if on then None else alternates True ops)"
| "alternates on (Stop # ops) = (if on then alternates False ops else None)"
| "alternates on (Reset # ops) = (if on then None else alternates False ops)"

lemma alternates_append:
  "alternates b (xs @ ys) = (case alternates b xs of None \<Rightarrow> None | Some b' \<Rightarrow> alternates b' ys)"
  by (induction b xs rule: alternates.induct) auto

text \<open>While JavaScript runs, the timer is running and the permit is held.\<close>

definition in_turn :: "InstanceState \<Rightarrow> bool" where
  "in_turn st \<longleftrightarrow> alternates False (is_timer st) = Some True \<and> is_permit st"

definition timer_ok :: "InstanceState \<Rightarrow> bool" where
  "timer_ok st \<longleftrightarrow> alternates False (is_timer st) \<noteq> None"

lemma in_turn_host: "host_ok st st' \<Longrightarrow> in_turn st \<Longrightarrow> in_turn st'"
  by (simp add: host_ok_def in_turn_def)

lemma is_fields_simps [simp]:
  "is_timer (release_permit st) = is_timer st" "is_permit (release_permit st) = False"
  "is_sent (release_permit st) = is_sent st" "is_channel (release_permit st) = is_channel st"
  "is_timer (try_send_fetch_response r st) = is_timer st"
  "is_permit (try_send_fetch_response r st) = is_permit st"
  "\<not> is_channel (try_send_fetch_response r st)"
  by (simp_all add: release_permit_def try_send_fetch_response_def)

lemma answer_inv_send: "answer_inv st \<Longrightarrow> answer_inv (try_send_fetch_response r st)"
  by (rule answer_inv_host [OF host_ok_send])

lemma answer_inv_release: "answer_inv (release_permit st) = answer_inv st"
  by (simp add: answer_inv_def)

text \<open>What is left behind by a task: an exit has released the permit.\<close>

definition end_ok :: "task_end \<Rightarrow> InstanceState \<Rightarrow> bool" where
  "end_ok te st \<longleftrightarrow>
     (case te of TaskBreak \<Rightarrow> in_turn st | ExitWith _ \<Rightarrow> timer_ok st \<and> \<not> is_permit st)"

lemma in_turn_timer_ok: "in_turn st \<Longrightarrow> timer_ok st"
  by (simp add: in_turn_def timer_ok_def)

text \<open>While the instance waits, the timer is stopped and the permit is free.\<close>

definition idle :: "InstanceState \<Rightarrow> bool" where
  "idle st \<longleftrightarrow> alternates False (is_timer st) = Some False \<and> \<not> is_permit st"

lemma idle_stop: "in_turn st \<Longrightarrow> idle (release_permit (stop_timer st))"
  by (simp add: in_turn_def idle_def stop_timer_def alternates_append)

lemma idle_start: "idle st \<Longrightarrow> in_turn (start_timer (st\<lparr>is_permit := True\<rparr>))"
  by (simp add: in_turn_def idle_def start_timer_def alternates_append)

lemma idle_io [simp]:
  "idle (st\<lparr>is_io_waiter := w\<rparr>) = idle st"
  "answer_inv (st\<lparr>is_io_waiter := w\<rparr>) = answer_inv st"
  "idle (try_send_fetch_response r st) = idle st"
  "in_turn (try_send_fetch_response r st) = in_turn st"
  by (simp_all add: idle_def answer_inv_def in_turn_def)

lemma answer_inv_timer [simp]:
  "answer_inv (stop_timer st) = answer_inv st" "answer_inv (start_timer st) = answer_inv st"
  "answer_inv (st\<lparr>is_permit := b\<rparr>) = answer_inv st" "answer_inv (release_permit st) = answer_inv st"
  by (simp_all add: answer_inv_def stop_timer_def start_timer_def)

lemma end_ok_exit: "in_turn st \<Longrightarrow> end_ok (ExitWith e) (release_permit st)"
  "idle st \<Longrightarrow> end_ok (ExitWith e) st"
  by (auto simp: end_ok_def in_turn_def idle_def timer_ok_def)

lemma end_ok_break: "in_turn st \<Longrightarrow> end_ok TaskBreak st"
  by (simp add: end_ok_def)

text \<open>The part of a turn after the answer of \<open>wait\<close>.\<close>

lemma resume_ok:
  assumes "take_permit b st = (Inr u, st2)" and "idle st" and "answer_inv st"
  shows "in_turn (start_timer st2)" and "answer_inv (start_timer st2)"
  using assms idle_start by (auto simp: take_permit_def split: if_splits)

lemma drive_ok:
  "drive cfg turn rest st = Some (te, st') \<Longrightarrow> answer_inv st \<Longrightarrow> in_turn st \<Longrightarrow>
     answer_inv st' \<and> end_ok te st'"
proof (induction rest arbitrary: turn st)
  case Nil
  then show ?case
    by (auto simp: answer_inv_send end_ok_exit end_ok_break Let_def split: sum.splits if_splits)
next
  case (Cons nxt rest)
  let ?st1 = "(release_permit (stop_timer st))\<lparr>is_io_waiter := Some (it_io nxt)\<rparr>"
  have st1: "idle ?st1" "answer_inv ?st1" "idle (release_permit (stop_timer st))"
    using Cons.prems idle_stop by simp_all
  consider "turn_check turn \<noteq> Inr () \<or> is_done st \<or> it_wait nxt = None"
    | n where "turn_check turn = Inr ()" "\<not> is_done st" "it_wait nxt = Some n"
    by auto
  then show ?case
  proof cases
    case 1
    with Cons.prems st1 show ?thesis
      by (auto simp: answer_inv_send end_ok_exit end_ok_break Let_def split: sum.splits if_splits)
  next
    case 2
    obtain r2 st2 where tp: "take_permit (it_token nxt) ?st1 = (r2, st2)"
      by (cases "take_permit (it_token nxt) ?st1")
    show ?thesis
    proof (cases r2)
      case (Inl e)
      with tp st1 have "idle st2" "answer_inv st2" by (auto simp: take_permit_def split: if_splits)
      with Inl 2 tp Cons.prems(1) show ?thesis by (auto simp: Let_def end_ok_exit)
    next
      case (Inr u)
      note st3 = resume_ok [OF tp [unfolded Inr] st1(1,2)]
      obtain r4 st4 where pj: "protected_js cfg (it_turn nxt) (start_timer st2) = (r4, st4)"
        by (cases "protected_js cfg (it_turn nxt) (start_timer st2)")
      from host_ok_protected [OF pj] st3 have st4: "in_turn st4" "answer_inv st4"
        using answer_inv_host in_turn_host by blast+
      from 2 tp Inr pj Cons.prems(1) st3 st4 Cons.IH [of "it_turn nxt" st4] show ?thesis
        by (auto simp: Let_def end_ok_exit split: sum.splits)
    qed
  qed
qed

lemma run_task_ok:
  assumes "run_task cfg task st = Some (te, st')" and "idle st" and "\<not> is_channel st"
  shows "length (is_sent st') \<le> 1 \<and> end_ok te st' \<and>
    (te = TaskBreak \<longrightarrow> length (is_sent st') = 1 \<and> \<not> is_channel st')"
proof -
  let ?st = "st\<lparr>is_sent := []\<rparr>"
  have idl: "idle ?st" using assms(2) by (simp add: idle_def)
  obtain r1 st1 where tp: "take_permit (tr_token task) ?st = (r1, st1)"
    by (cases "take_permit (tr_token task) ?st")
  show ?thesis
  proof (cases r1)
    case (Inl e)
    with tp idl have "idle st1" "is_sent st1 = []" by (auto simp: take_permit_def split: if_splits)
    with Inl tp assms(1) show ?thesis by (auto simp: run_task_def end_ok_exit)
  next
    case (Inr u)
    let ?st3 = "(start_timer (st1\<lparr>is_channel := True\<rparr>))
      \<lparr>is_io_waiter := Some (IoWaiter_new (is_conf (start_timer (st1\<lparr>is_channel := True\<rparr>))))\<rparr>"
    from tp Inr idl have s1: "st1 = ?st\<lparr>is_permit := True\<rparr>"
      by (auto simp: take_permit_def split: if_splits)
    have st3: "in_turn ?st3" "answer_inv ?st3"
      using assms(2) by (simp_all add: s1 in_turn_def idle_def answer_inv_def start_timer_def alternates_append)
    obtain r4 st4 where pj: "protected_js cfg (tr_dispatch task) ?st3 = (r4, st4)"
      by (cases "protected_js cfg (tr_dispatch task) ?st3")
    from host_ok_protected [OF pj] st3 have st4: "in_turn st4" "answer_inv st4"
      using answer_inv_host in_turn_host by blast+
    have le: "answer_inv x \<Longrightarrow> length (is_sent x) \<le> Suc 0" for x
      by (simp add: answer_inv_def)
    show ?thesis
    proof (cases "tr_event task = Inr () \<and> r4 = Inr ()")
      case False
      with assms(1) tp Inr pj st3 st4 show ?thesis
        by (auto simp: run_task_def Let_def end_ok_exit le split: sum.splits)
    next
      case True
      with assms(1) tp Inr pj obtain te5 st5
        where dr: "drive cfg (tr_dispatch task) (tr_turns task) st4 = Some (te5, st5)"
          and fin: "te = te5" "te5 = TaskBreak \<Longrightarrow>
            st' = try_send_fetch_response (Inr (ResponseObject_default\<lparr>res_status := 500\<rparr>)) st5"
            "te5 \<noteq> TaskBreak \<Longrightarrow> st' = st5"
        by (auto simp: run_task_def Let_def split: option.splits task_end.splits prod.splits)
      from drive_ok [OF dr st4(2,1)] have st5: "answer_inv st5" "end_ok te5 st5" by auto
      show ?thesis
      proof (cases te5)
        case TaskBreak
        with fin st5 answer_inv_send [OF st5(1)] show ?thesis
          by (auto simp: end_ok_def answer_inv_def [of "try_send_fetch_response _ _"])
      next
        case (ExitWith e)
        with fin st5 le show ?thesis by auto
      qed
    qed
  qed
qed

lemma before_task_idle: "in_turn st \<Longrightarrow> idle (before_task st)"
  by (simp add: before_task_def in_turn_def idle_def stop_timer_def reset_timer_def
      alternates_append)

lemma run_tasks_ok:
  assumes "run_tasks cfg tasks st = Some (r, st', sent)" and "in_turn st" and "\<not> is_channel st"
  shows "timer_ok st' \<and> \<not> is_permit st' \<and> length sent \<le> length tasks \<and>
    (\<forall>s \<in> set sent. length s \<le> 1) \<and>
    (\<forall>i < length sent. r = Inr () \<or> Suc i < length sent \<longrightarrow> length (sent ! i) = 1) \<and>
    (r = Inr () \<longrightarrow> length sent = length tasks)"
  using assms
proof (induction tasks arbitrary: st sent)
  case Nil
  with before_task_idle [of st] show ?case by (auto simp: timer_ok_def idle_def)
next
  case (Cons task tasks)
  have ch: "\<not> is_channel (before_task st)"
    using Cons.prems(3) by (simp add: before_task_def stop_timer_def reset_timer_def)
  from Cons.prems(1) obtain te st1 where rt: "run_task cfg task (before_task st) = Some (te, st1)"
    by (auto split: option.splits)
  note ok = run_task_ok [OF rt before_task_idle [OF Cons.prems(2)] ch]
  show ?case
  proof (cases te)
    case (ExitWith e)
    with Cons.prems(1) rt ok show ?thesis by (auto simp: end_ok_def)
  next
    case TaskBreak
    with Cons.prems(1) rt obtain r2 st2 sent2 where rec: "run_tasks cfg tasks st1 = Some (r2, st2, sent2)"
      and eqs: "r = r2" "st' = st2" "sent = is_sent st1 # sent2"
      by auto
    from ok TaskBreak have "in_turn st1" "\<not> is_channel st1" "length (is_sent st1) = 1"
      by (auto simp: end_ok_def)
    with Cons.IH [OF _ this(1,2)] rec eqs show ?thesis
      by (auto simp: nth_Cons split: nat.splits)
  qed
qed

lemma init_instance_ok:
  assumes "init_instance cfg ini st = (ready, Inr u, st')" and "is_timer st = []" and "\<not> is_channel st"
    and "is_sent st = []" and "\<not> is_permit st"
  shows "ready \<and> in_turn st' \<and> \<not> is_channel st' \<and> is_sent st' = []"
proof -
  from assms(1) obtain st2 where ready: ready and st2: "protected_js cfg (ir_turn ini)
      (start_timer (st\<lparr>is_permit := True\<rparr>)) = (Inr (), st2)" and s: "st' = st2"
    by (auto simp: init_instance_def take_permit_def split: if_splits sum.splits prod.splits)
  have "in_turn (start_timer (st\<lparr>is_permit := True\<rparr>))"
    using assms by (intro idle_start) (simp add: idle_def)
  then have "in_turn st2" by (rule in_turn_host [OF host_ok_protected [OF st2]])
  with host_ok_protected [OF st2] ready s assms show ?thesis
    by (simp add: host_ok_def start_timer_def)
qed

text \<open>With times that do not decrease, alternating messages are an orderly trace.\<close>

lemma alternates_orderly:
  "alternates (started \<noteq> None) (map fst tr) \<noteq> None \<Longrightarrow> sorted (t # map snd tr) \<Longrightarrow> orderly started t tr"
proof (induction tr arbitrary: started t)
  case (Cons x tr)
  obtain op now where x: "x = (op, now)" by (cases x)
  with Cons.prems have s: "t \<le> now" "sorted (now # map snd tr)" by auto
  show ?case
  proof (cases op)
    case Start
    with Cons.IH [of "Some now" now] Cons.prems s x show ?thesis by (cases started) auto
  next
    case Stop
    with Cons.IH [of None now] Cons.prems s x show ?thesis by (cases started) auto
  next
    case Reset
    with Cons.IH [of None now] Cons.prems s x show ?thesis by (cases started) auto
  qed
qed simp

section \<open>Out-of-memory jumps\<close>

lemma run_js_protected:
  "run_js js True = Ran \<or> run_js js True = Jumped \<or>
     (HostCall True \<in> set js \<and> run_js js True = PanickedUnprotected)"
  by (induction js "True" rule: run_js.induct) (auto simp: oom_protected_callback_def)

section \<open>Bundles\<close>

lemma unpack_entries_get:
  "unpack_entries n entries files = Inr files' \<Longrightarrow> bt_wf files \<Longrightarrow>
     bt_wf files' \<and> (\<forall>p d. bt_get files' p = Some d \<longrightarrow>
       (bt_get files p = Some d \<or> (length d \<le> n \<and>
          (\<exists>e. Some e \<in> set entries \<and> te_path e = Some p \<and> d = take (unat (te_size e)) (te_data e)))))"
proof (induction n entries files rule: unpack_entries.induct)
  case (3 n entry entries files)
  then obtain path where p: "te_path entry = Some path" by (auto split: option.splits)
  let ?d = "take (unat (te_size entry)) (te_data entry)"
  from 3(2) p have r: "unpack_entries n entries (bt_insert path ?d files) = Inr files'"
    and le: "length ?d \<le> n"
    by (auto split: if_splits)
  from 3(1) [OF p] 3(2) p r 3(3) have IH: "bt_wf files' \<and> (\<forall>q d. bt_get files' q = Some d \<longrightarrow>
       (bt_get (bt_insert path ?d files) q = Some d \<or> (length d \<le> n \<and>
          (\<exists>e. Some e \<in> set entries \<and> te_path e = Some q \<and> d = take (unat (te_size e)) (te_data e)))))"
    by (auto simp: bt_wf_insert split: if_splits)
  show ?case
  proof (intro conjI allI impI)
    fix q d
    assume "bt_get files' q = Some d"
    with IH consider "bt_get (bt_insert path ?d files) q = Some d"
      | "length d \<le> n" "\<exists>e. Some e \<in> set entries \<and> te_path e = Some q \<and> d = take (unat (te_size e)) (te_data e)"
      by blast
    then show "bt_get files q = Some d \<or> (length d \<le> n \<and>
          (\<exists>e. Some e \<in> set (Some entry # entries) \<and> te_path e = Some q \<and> d = take (unat (te_size e)) (te_data e)))"
    proof cases
      case 1
      with p le show ?thesis by (auto simp: bt_get_insert split: if_splits)
    next
      case 2
      then show ?thesis by auto
    qed
  qed (use IH in blast)
qed auto

end
