(* ===== verification/Engine.thy ===== *)
theory Engine
  imports Executor
begin

text \<open>
  The helpers around V8 of \<open>src/rusty-workers-runtime/src/engine.rs\<close> and what
  \<open>executor.rs\<close> does with them: the global object that a script finds, the statistics sent after
  a task, the microtask callback and the cleanup of an isolate for its next instance. V8 is a
  parameter: whether it can make a string, a function or a value (\<open>None\<close> is V8's empty handle),
  and how it sets a property of an object.
\<close>

section \<open>Helpers\<close>

datatype host_function = CallServiceCallback | QueueMicrotaskCallback

record ('v, 'obj) v8 =
  v8_string :: "string \<Rightarrow> 'v option"
  v8_function :: "host_function \<Rightarrow> 'v option"
  v8_json_parse :: "'v \<Rightarrow> 'v option"
  v8_set :: "string \<Rightarrow> 'v \<Rightarrow> 'obj \<Rightarrow> 'obj"

definition make_function :: "('v, 'obj) v8 \<Rightarrow> host_function \<Rightarrow> 'v GenericResult" where
  "make_function V native = opt_check (v8_function V native)"

definition make_string :: "('v, 'obj) v8 \<Rightarrow> string \<Rightarrow> 'v GenericResult" where
  "make_string V s = opt_check (v8_string V s)"

text \<open>The properties set before an error stay set.\<close>

fun add_props_to_object ::
  "('v, 'obj) v8 \<Rightarrow> (string \<times> 'v) list \<Rightarrow> 'obj \<Rightarrow> unit GenericResult \<times> 'obj" where
  "add_props_to_object V [] obj = (Inr (), obj)"
| "add_props_to_object V ((k, v) # elements) obj =
     (case opt_check (v8_string V k) of
        Inl e \<Rightarrow> (Inl e, obj)
      | Inr _ \<Rightarrow> add_props_to_object V elements (v8_set V k v obj))"

text \<open>\<open>native_to_js\<close>: \<open>json\<close> is the result of \<open>serde_json::to_string\<close>.\<close>

definition native_to_js :: "('v, 'obj) v8 \<Rightarrow> string option \<Rightarrow> 'v GenericResult" where
  "native_to_js V json =
     bind_res (ok_or Conversion json) (\<lambda>text.
     bind_res (opt_check (v8_string V text)) (\<lambda>json_text.
     opt_check (v8_json_parse V json_text)))"

section \<open>The global object\<close>

fun collect_props :: "('v, 'obj) v8 \<Rightarrow> (string, string) BTreeMap \<Rightarrow> (string \<times> 'v) list GenericResult" where
  "collect_props V [] = Inr []"
| "collect_props V ((k, v) # env) =
     bind_res (make_string V v) (\<lambda>s. bind_res (collect_props V env) (\<lambda>props. Inr ((k, s) # props)))"

definition init_global_env ::
  "('v, 'obj) v8 \<Rightarrow> InstanceState \<Rightarrow> 'obj \<Rightarrow> unit GenericResult \<times> 'obj" where
  "init_global_env V st global =
     (case make_function V CallServiceCallback of
        Inl e \<Rightarrow> (Inl e, global)
      | Inr call_service_fn \<Rightarrow>
          (case make_function V QueueMicrotaskCallback of
             Inl e \<Rightarrow> (Inl e, global)
           | Inr queue_microtask_fn \<Rightarrow>
               (case collect_props V (wc_env (is_conf st)) of
                  Inl e \<Rightarrow> (Inl e, global)
                | Inr user_props \<Rightarrow>
                    (case add_props_to_object V user_props global of
                       (Inl e, global) \<Rightarrow> (Inl e, global)
                     | (Inr _, global) \<Rightarrow>
                         add_props_to_object V
                           [(''_rt_callService'', call_service_fn), (''queueMicrotask'', queue_microtask_fn)] global))))"

section \<open>Callbacks and instance state\<close>

text \<open>
  \<open>queue_microtask_callback\<close>, inside \<open>wrap_callback\<close>: the argument, if it is a function, joins
  the microtasks.
\<close>

definition queue_microtask_callback ::
  "IsolateConfig \<Rightarrow> usize \<Rightarrow> DataError \<Rightarrow> 'f option \<Rightarrow> 'f list \<Rightarrow> js_result option \<times> 'f list" where
  "queue_microtask_callback cfg heap_size type_error arg microtasks =
     (case check_host_entry_memory heap_size cfg of
        Inl _ \<Rightarrow> (Some JsRangeError, microtasks)
      | Inr _ \<Rightarrow>
          (case arg of
             None \<Rightarrow> (Some (case JsError_build (js_error_from_data type_error) of (k, m) \<Rightarrow> JsThrows k m), microtasks)
           | Some cb \<Rightarrow> (Some (JsReturns RetUndefined None), microtasks @ [cb])))"

definition state_io_waiter :: "InstanceState \<Rightarrow> JsError + IoPipeline" where
  "state_io_waiter st = ok_or (JsError_new KError (Some ''io service not available'')) (is_io_waiter st)"

text \<open>\<open>update_stats\<close>: the memory of heap and array buffers, sent to the runtime.\<close>

definition executor_update_stats ::
  "WorkerHandle \<Rightarrow> usize \<Rightarrow> usize \<Rightarrow> 'c Runtime \<Rightarrow> 'c Runtime" where
  "executor_update_stats h total_heap_size external_memory rt =
     update_stats h \<lparr>used_memory_bytes = total_heap_size + external_memory\<rparr> rt"

text \<open>
  A task: a request, the channel its answer goes to, and the scope of its I/O. The event is what
  the script is given; the channel becomes the state's, and the scope goes to the I/O processor.
\<close>

datatype 'scope Task = FetchTask RequestObject 'scope

fun Task_make_event :: "'scope Task \<Rightarrow> ServiceEvent" where
  "Task_make_event (FetchTask req io_scope) = FetchSE \<lparr>fe_request = req\<rparr>"

fun populate_with_task :: "'scope Task \<Rightarrow> InstanceState \<Rightarrow> 'scope GenericResult \<times> InstanceState" where
  "populate_with_task (FetchTask req io_scope) st = (Inr io_scope, st\<lparr>is_channel := True\<rparr>)"

text \<open>\<open>Instance::compile\<close>: V8's string and V8's compiler may each refuse the text.\<close>

definition instance_compile :: "('v, 'obj) v8 \<Rightarrow> ('v \<Rightarrow> 's option) \<Rightarrow> string \<Rightarrow> 's GenericResult" where
  "instance_compile V compiler script =
     bind_res (ok_or (ScriptInitException ''script compilation failed'') (v8_string V script)) (\<lambda>text.
     ok_or (ScriptInitException ''script compilation failed'') (compiler text))"

text \<open>
  \<open>Instance::cleanup\<close> on the slots of an isolate, the one for the reason of a termination and the
  one for the instance's state, which is empty if the job never made an instance. The garbage
  collection runs under \<open>protected_js\<close>; if it fails the slots stay.
\<close>

definition instance_cleanup ::
  "IsolateConfig \<Rightarrow> js_turn \<Rightarrow> TerminationReason option \<Rightarrow> InstanceState option
    \<Rightarrow> unit GenericResult \<times> TerminationReason option \<times> InstanceState option" where
  "instance_cleanup cfg gc reason state =
     (case state of
        None \<Rightarrow> (Inr (), None, None)
      | Some st \<Rightarrow>
          (case protected_js cfg gc (st\<lparr>is_io_waiter := None\<rparr>) of
             (Inl e, st') \<Rightarrow> (Inl e, reason, Some st')
           | (Inr _, _) \<Rightarrow> (Inr (), None, None)))"

section \<open>Lemmas\<close>

lemma add_props_keeps:
  assumes "add_props_to_object V props obj = (res, obj')"
    and "\<And>k v g. k \<noteq> n \<Longrightarrow> get n (v8_set V k v g) = get n g"
    and "n \<notin> fst ` set props"
  shows "get n obj' = get n obj"
  using assms
proof (induction props arbitrary: obj)
  case (Cons kv elements)
  then show ?case by (cases kv) (auto split: sum.splits)
qed simp

lemma add_props_get:
  assumes "add_props_to_object V props obj = (Inr (), obj')"
    and "distinct (map fst props)" and "(n, v) \<in> set props"
    and set: "\<And>n v g. get n (v8_set V n v g) = Some v"
      "\<And>n k v g. k \<noteq> n \<Longrightarrow> get n (v8_set V k v g) = get n g"
  shows "get n obj' = Some v"
  using assms(1-3)
proof (induction props arbitrary: obj)
  case (Cons kw elements)
  obtain k w where kw: "kw = (k, w)" by (cases kw)
  from Cons.prems(1) obtain s where step: "v8_string V k = Some s"
    and rest: "add_props_to_object V elements (v8_set V k w obj) = (Inr (), obj')"
    by (auto simp: kw opt_check_def ok_or_def split: option.splits)
  show ?case
  proof (cases "n \<in> fst ` set elements")
    case True
    then obtain v' where "(n, v') \<in> set elements" by auto
    moreover from this Cons.prems(2,3) have "v' = v"
      by (auto simp: rev_image_eqI dest: eq_key_imp_eq_value)
    ultimately show ?thesis using Cons.IH [OF rest] Cons.prems(2) by simp
  next
    case False
    with Cons.prems(3) kw have "n = k" "v = w" by (auto simp: rev_image_eqI)
    moreover have "get n obj' = get n (v8_set V k w obj)"
      by (rule add_props_keeps [OF rest _ False]) (rule set(2))
    ultimately show ?thesis using set(1) by simp
  qed
qed simp

lemma collect_props_Inr:
  "collect_props V env = Inr props \<Longrightarrow>
     map fst props = map fst env \<and> (\<forall>(k, v) \<in> set env. \<exists>s. v8_string V v = Some s \<and> (k, s) \<in> set props)"
  by (induction env arbitrary: props)
    (fastforce simp: bind_res_Inr_iff make_string_def opt_check_def ok_or_Inr_iff)+

text \<open>
  The host functions are what the script finds under their names, whatever the environment
  variables of the worker are called, and every other variable is there as a string.
\<close>

lemma init_global_env_spec:
  assumes run: "init_global_env V st global = (Inr (), global')"
    and set: "\<And>n v g. get n (v8_set V n v g) = Some v"
      "\<And>n k v g. k \<noteq> n \<Longrightarrow> get n (v8_set V k v g) = get n g"
    and env: "bt_wf (wc_env (is_conf st))"
  shows "get ''_rt_callService'' global' = v8_function V CallServiceCallback \<and>
    get ''queueMicrotask'' global' = v8_function V QueueMicrotaskCallback \<and>
    (\<forall>(k, v) \<in> set (wc_env (is_conf st)). k \<notin> {''_rt_callService'', ''queueMicrotask''} \<longrightarrow>
       get k global' = v8_string V v)"
proof -
  let ?user = "wc_env (is_conf st)"
  from run obtain cs qm props g1 where fns: "v8_function V CallServiceCallback = Some cs"
      "v8_function V QueueMicrotaskCallback = Some qm"
    and props: "collect_props V ?user = Inr props"
    and user: "add_props_to_object V props global = (Inr (), g1)"
    and own: "add_props_to_object V [(''_rt_callService'', cs), (''queueMicrotask'', qm)] g1 = (Inr (), global')"
    by (auto simp: init_global_env_def make_function_def opt_check_def ok_or_Inr_iff split: sum.splits prod.splits)
  have distinct: "distinct (map fst props)"
    using env collect_props_Inr [OF props] by (simp add: bt_wf_def strict_sorted_iff)
  have "get k global' = v8_string V v"
    if "(k, v) \<in> set ?user" "k \<notin> {''_rt_callService'', ''queueMicrotask''}" for k v
  proof -
    from collect_props_Inr [OF props] that(1) obtain s where s: "v8_string V v = Some s" "(k, s) \<in> set props"
      by auto
    have "get k global' = get k g1" by (rule add_props_keeps [OF own]) (use that(2) set(2) in auto)
    also have "\<dots> = Some s" by (rule add_props_get [OF user distinct s(2)]) (fact set)+
    finally show ?thesis using s(1) by simp
  qed
  moreover have "get ''_rt_callService'' global' = Some cs" "get ''queueMicrotask'' global' = Some qm"
    by (rule add_props_get [OF own]; use set in simp)+
  ultimately show ?thesis using fns by auto
qed

text \<open>Nothing else of the global object changes.\<close>

lemma init_global_env_frame:
  assumes "init_global_env V st global = (Inr (), global')"
    and set: "\<And>n k v g. k \<noteq> n \<Longrightarrow> get n (v8_set V k v g) = get n g"
  shows "\<forall>k. k \<notin> fst ` set (wc_env (is_conf st)) \<union> {''_rt_callService'', ''queueMicrotask''} \<longrightarrow>
    get k global' = get k global"
proof (intro allI impI)
  fix k
  assume k: "k \<notin> fst ` set (wc_env (is_conf st)) \<union> {''_rt_callService'', ''queueMicrotask''}"
  from assms(1) obtain cs qm props g1 where props: "collect_props V (wc_env (is_conf st)) = Inr props"
    and user: "add_props_to_object V props global = (Inr (), g1)"
    and own: "add_props_to_object V [(''_rt_callService'', cs), (''queueMicrotask'', qm)] g1 = (Inr (), global')"
    by (auto simp: init_global_env_def split: sum.splits prod.splits)
  from collect_props_Inr [OF props] have "fst ` set props = fst ` set (wc_env (is_conf st))"
    by (metis list.set_map)
  with k have "get k g1 = get k global" by (intro add_props_keeps [OF user] set) auto
  moreover have "get k global' = get k g1" by (rule add_props_keeps [OF own]) (use k set in auto)
  ultimately show "get k global' = get k global" by simp
qed

end
