(* ===== verification/Worker_Props.thy ===== *)
theory Worker_Props
  imports Executor_Spec Engine
begin

text \<open>
  The properties of the runtime process: memory accounting, the isolate pool and the reuse of
  isolates, the time budget, the answers to tasks, and asynchronous operations.
\<close>

section \<open>Memory\<close>



text \<open>
  \<open>Instance::new\<close> sets the pool to the configured budget although blocks that were
  allocated during the initialisation of the JavaScript runtime may be alive: when such a
  block is freed later, the pool holds more than the worker's limit.
\<close>

theorem reset_overcredits_pool:
  assumes "acquire_bytes a (iso_pool (isolate_enter isol)) = (True, p)" and "a \<noteq> 0"
    and "isolate_attach cfg (isol\<lparr>iso_pool := p\<rparr>) = (h, isol')"
  shows "remaining_bytes (release_bytes a (iso_pool isol')) >
    ucast (max_ab_memory_mb cfg) * 1048576"
proof -
  let ?b = "ucast (max_ab_memory_mb cfg) * 1048576 :: usize"
  from assms(1) have a: "unat a \<le> 16777216"
    by (auto simp: isolate_enter_def pool_reset_def acquire_bytes_cases word_le_nat_alt not_less
        split: if_splits)
  have "unat (ucast (max_ab_memory_mb cfg) :: usize) = take_bit 64 (unat (max_ab_memory_mb cfg))"
    by (simp add: unsigned_ucast_eq)
  also have "\<dots> \<le> unat (max_ab_memory_mb cfg)" by (rule take_bit_nat_less_eq_self)
  also have "\<dots> < 2 ^ 32" using unat_lt2p [of "max_ab_memory_mb cfg"] by simp
  finally have "unat (ucast (max_ab_memory_mb cfg) :: usize) < 2 ^ 32" .
  then have lt: "unat (ucast (max_ab_memory_mb cfg) :: usize) * 1048576 < 2 ^ 52" by simp
  then have b: "unat ?b < 2 ^ 52"
    by (simp add: unat_word_ariths)
  from assms(3) have "iso_pool isol' = pool_reset ?b p"
    by (auto simp: isolate_attach_def)
  then have "remaining_bytes (release_bytes a (iso_pool isol')) = ?b + a"
    by (simp add: release_bytes_def pool_reset_def)
  moreover have "unat (?b + a) = unat ?b + unat a"
    using a b by (simp add: unat_word_ariths(1))
  moreover have "0 < unat a" using assms(2) by (simp add: unat_gt_0)
  ultimately show ?thesis by (simp add: word_less_nat_alt)
qed

theorem reset_overcredits_pool_witness:
  "remaining_bytes (release_bytes 4096 (iso_pool (snd (isolate_attach
     \<lparr>max_ab_memory_mb = 1, max_time_ms = 100, max_io_concurrency = 1, max_io_per_request = 1\<rparr>
     (isolate_worker_init\<lparr>iso_pool := \<lparr>remaining_bytes = 16773120\<rparr>\<rparr>))))) > ucast (1 :: u32) * 1048576"
proof -
  let ?c = "\<lparr>max_ab_memory_mb = 1, max_time_ms = 100, max_io_concurrency = 1, max_io_per_request = 1\<rparr>"
  have a: "acquire_bytes 4096 (iso_pool (isolate_enter isolate_worker_init)) =
      (True, \<lparr>remaining_bytes = 16773120\<rparr>)"
    by (simp add: acquire_bytes_cases isolate_enter_def pool_reset_def isolate_worker_init_def
        MemoryPool_new_def)
  obtain h isol' where t: "isolate_attach ?c
      (isolate_worker_init\<lparr>iso_pool := \<lparr>remaining_bytes = 16773120\<rparr>\<rparr>) = (h, isol')"
    by (rule prod.exhaust)
  from reset_overcredits_pool [OF a _ t] t show ?thesis by simp
qed

section \<open>Isolates\<close>

text \<open>
  C9. In every state that concurrent calls of \<open>IsolateThreadPool::run\<close> can reach, cancelled
  ones included, no call has panicked for want of a thread behind its permit, and every
  thread is either idle in the pool or held by exactly one call.
\<close>

theorem isolate_pool_never_panics:
  assumes "pool_reach sz p"
  shows "Panicked \<notin> set (pool_calls p) \<and> mset (all_threads p) = mset [0..<sz] \<and>
    (\<forall>i < length (pool_calls p). pool_calls p ! i = HasPermit \<longrightarrow> pool_threads p \<noteq> [])"
  using pool_inv_reach [OF assms] pool_has_thread by (auto simp: pool_inv_def)

theorem isolate_pool_never_panics_witness:
  "\<exists>p. pool_reach 1 p \<and> pool_calls p = [HasThread 0, Waiting] \<and> Panicked \<notin> set (pool_calls p)"
proof -
  let ?p0 = "IsolateThreadPool_new 1"
  let ?p1 = "?p0\<lparr>pool_calls := [Waiting]\<rparr>"
  let ?p2 = "?p1\<lparr>pool_permits := 0, pool_calls := [HasPermit]\<rparr>"
  let ?p3 = "\<lparr>pool_threads = [], pool_permits = 0, pool_calls = [HasThread 0]\<rparr>"
  let ?p4 = "?p3\<lparr>pool_calls := [HasThread 0, Waiting]\<rparr>"
  have "pool_step ?p0 ?p1" using pool_step.call [of ?p0] by (simp add: IsolateThreadPool_new_def)
  moreover have "pool_step ?p1 ?p2"
    using pool_step.acquire [of 0 ?p1] by (simp add: IsolateThreadPool_new_def)
  moreover have "pool_step ?p2 ?p3"
    using pool_step.pop [of 0 ?p2] by (simp add: IsolateThreadPool_new_def pool_pop_def)
  moreover have "pool_step ?p3 ?p4" using pool_step.call [of ?p3] by simp
  ultimately have r: "pool_reach 1 ?p4"
    by (meson pool_reach.start pool_reach.more)
  from isolate_pool_never_panics [OF r] r show ?thesis by (intro exI [of _ ?p4]) simp
qed

text \<open>
  C8. A handle cannot stop a later job on the same isolate: once the isolate has been
  recycled after the handle was made (fewer than \<open>2 ^ 64\<close> times), terminating through the
  handle, or dropping it, changes nothing, whatever other handles and jobs did in between.
\<close>

theorem stale_handle_is_harmless:
  assumes "isolate_attach cfg isol = (h, isol1)" and "\<not> iso_poisoned isol"
    and "0 < recycles es" and "recycles es < 2 ^ 64"
  shows "do_remote_termination h r (fold iso_run es isol1) = fold iso_run es isol1 \<and>
    terminate_for_time_limit h (fold iso_run es isol1) = fold iso_run es isol1 \<and>
    InstanceHandle_drop h (fold iso_run es isol1) = fold iso_run es isol1"
proof -
  from assms(1,2) have p: "\<not> iso_poisoned isol1"
    and g: "ih_creation_generation h = iso_generation isol1"
    by (auto simp: isolate_attach_def)
  have "iso_generation (fold iso_run es isol1) = iso_generation isol1 + of_nat (recycles es)"
    using iso_run_generation [OF p] by blast
  moreover have "of_nat (recycles es) \<noteq> (0 :: u64)"
    using assms(3,4) by (simp add: word_of_nat_eq_0_iff nat_dvd_not_less)
  ultimately have "ih_creation_generation h \<noteq> iso_generation (fold iso_run es isol1)"
    using g by simp
  from iso_run_reason_other [OF this] show ?thesis
    by (simp add: terminate_for_time_limit_def InstanceHandle_drop_def)
qed

definition example_executor :: ExecutorConfiguration where
  "example_executor = \<lparr>max_ab_memory_mb = 1, max_time_ms = 100, max_io_concurrency = 2,
     max_io_per_request = 3\<rparr>"

theorem stale_handle_is_harmless_witness:
  "terminate_for_time_limit (fst (isolate_attach example_executor isolate_worker_init))
     (fold iso_run [IsoRecycle, IsoEnter] (snd (isolate_attach example_executor isolate_worker_init))) =
   fold iso_run [IsoRecycle, IsoEnter] (snd (isolate_attach example_executor isolate_worker_init))"
proof -
  obtain h i1 where a: "isolate_attach example_executor isolate_worker_init = (h, i1)"
    by (rule prod.exhaust)
  have "\<not> iso_poisoned isolate_worker_init" by (simp add: isolate_worker_init_def)
  moreover have "0 < recycles [IsoRecycle, IsoEnter]" "recycles [IsoRecycle, IsoEnter] < 2 ^ 64"
    by (simp_all add: recycles_def)
  ultimately have "terminate_for_time_limit h (fold iso_run [IsoRecycle, IsoEnter] i1) =
      fold iso_run [IsoRecycle, IsoEnter] i1"
    using stale_handle_is_harmless [OF a] by blast
  then show ?thesis by (simp only: a fst_conv snd_conv)
qed



section \<open>Time\<close>

text \<open>A new instance, as \<open>Instance::new\<close> leaves it.\<close>

definition fresh_instance :: "InstanceState \<Rightarrow> bool" where
  "fresh_instance st \<longleftrightarrow> is_timer st = [] \<and> \<not> is_channel st \<and> is_sent st = [] \<and> \<not> is_permit st"

lemma run_time_started:
  "run_time started used tr = (started', used') \<Longrightarrow> sorted (map snd tr @ [now]) \<Longrightarrow>
     \<forall>s. started = Some s \<longrightarrow> s \<le> now \<Longrightarrow> \<forall>s. started' = Some s \<longrightarrow> s \<le> now"
  by (induction started used tr rule: run_time.induct)
     (auto simp: sorted_append split: TimerControl.splits)

lemma instance_run_alternates:
  assumes "instance_run cfg ini tasks st = Some (ready, Inr u, st', sent)" and "fresh_instance st"
  shows "alternates False (is_timer st') \<noteq> None"
proof -
  from assms(1) obtain st1 v where i: "init_instance cfg ini st = (ready, Inr v, st1)"
    and t: "run_tasks cfg tasks st1 = Some (Inr u, st', sent)"
    by (auto simp: instance_run_def split: prod.splits sum.splits)
  from init_instance_ok [OF i] assms(2) have "in_turn st1" "\<not> is_channel st1"
    by (auto simp: fresh_instance_def)
  from run_tasks_ok [OF t this] show ?thesis by (simp add: timer_ok_def)
qed

text \<open>
  C7. The monitor enforces the CPU budget of a task: of the messages that an instance sends to
  its timer, take any prefix as the monitor has processed it, at times that do not decrease;
  at a later time the deadline has passed exactly if the instance is running and the time it
  has run since the last reset (that is, for the current task), over all its stretches, has
  reached the configured \<open>max_time_ms\<close>. Waiting for I/O does not count.
\<close>

theorem monitor_enforces_cpu_budget:
  assumes "instance_run cfg ini tasks st = Some (ready, Inr u, st', sent)" and "fresh_instance st"
    and "is_timer st' = map fst tr @ later" and "sorted (map snd tr @ [now])"
    and "run_time None 0 tr = (started, used)"
  shows "wait_until_ready
      (mon_deadline (monitor_run tr (monitor_init (InstanceTimeControl_new conf)))) now \<longleftrightarrow>
    (\<exists>s. started = Some s \<and> unat (max_time_ms conf) * 1000000 \<le> used + (now - s))"
proof -
  let ?m = "monitor_init (InstanceTimeControl_new conf)"
  have "alternates False (map fst tr @ later) \<noteq> None"
    using instance_run_alternates [OF assms(1,2)] unfolding assms(3) .
  then have "alternates False (map fst tr) \<noteq> None"
    by (auto simp: alternates_append split: option.splits)
  moreover have "sorted (0 # map snd tr)" using assms(4) by (simp add: sorted_append)
  ultimately have o: "orderly None 0 tr" using alternates_orderly [of None tr 0] by simp
  have "mon_deadline (monitor_run tr ?m) = map_option (\<lambda>s. s + (mon_initial_budget ?m - used)) started"
    using monitor_run_budget [OF o assms(5), of ?m] by (simp add: monitor_init_def)
  moreover have "\<forall>s. started = Some s \<longrightarrow> s \<le> now"
    using run_time_started [OF assms(5,4)] by simp
  moreover have "mon_initial_budget ?m = unat (max_time_ms conf) * 1000000"
    by (simp add: monitor_init_def InstanceTimeControl_new_def)
  ultimately show ?thesis
    by (cases started) (auto simp: wait_until_ready_def)
qed

definition example_isolate_config :: IsolateConfig where
  "example_isolate_config = \<lparr>max_memory_bytes = 33554432, host_entry_threshold_memory_bytes = 1048576\<rparr>"

definition example_conf :: WorkerConfiguration where
  "example_conf = \<lparr>executor = example_executor, fetch_service = ''f'', wc_env = [],
     wc_kv_namespaces = [(''kv'', ''ns'')]\<rparr>"

definition example_state :: InstanceState where
  "example_state = \<lparr>is_files = [], is_script = [], is_conf = example_conf, is_appid = ''a'',
     is_io_waiter = None, is_done = False, is_channel = False, is_sent = [], is_timer = [],
     is_permit = False, is_memory = (\<lparr>remaining_bytes = 1048576\<rparr>, Map.empty), is_logs = []\<rparr>"

definition example_turn :: js_turn where
  "example_turn = \<lparr>jt_calls = [], jt_oom = False, jt_heap = 1000, jt_exception = None,
     jt_terminated = False, jt_reason = Unknown\<rparr>"

definition example_init :: init_run where
  "example_init = \<lparr>ir_token = True, ir_env = Inr (), ir_utf8 = True, ir_compiles = True,
     ir_pre = Inr (), ir_turn = example_turn\<rparr>"

text \<open>A task that throws an exception in its first turn.\<close>

definition example_task :: task_run where
  "example_task = \<lparr>tr_token = True, tr_event = Inr (),
     tr_dispatch = example_turn\<lparr>jt_exception := Some ''e''\<rparr>, tr_turns = []\<rparr>"

lemmas example_worker_simps = example_isolate_config_def example_conf_def example_state_def
  example_turn_def example_init_def example_task_def example_executor_def

lemma example_run:
  "\<exists>st'. instance_run example_isolate_config example_init [example_task] example_state =
     Some (True, Inr (), st', [[Inl (ScriptThrowsException ''e'')]]) \<and>
     is_timer st' = [Start, Stop, Reset, Start, Stop, Reset]"
  by (simp add: instance_run_def init_instance_def run_task_def take_permit_def protected_js_def
      check_host_entry_memory_def turn_check_def check_on_task_def before_task_def
      release_permit_def start_timer_def stop_timer_def reset_timer_def
      try_send_fetch_response_def example_worker_simps)

lemma example_fresh: "fresh_instance example_state"
  by (simp add: fresh_instance_def example_state_def)

theorem monitor_enforces_cpu_budget_witness:
  "wait_until_ready (mon_deadline (monitor_run [(Start, 0), (Stop, 50), (Reset, 60), (Start, 100)]
     (monitor_init (InstanceTimeControl_new example_executor)))) 100000100"
proof -
  obtain st' where run: "instance_run example_isolate_config example_init [example_task] example_state =
      Some (True, Inr (), st', [[Inl (ScriptThrowsException ''e'')]])"
    and tm: "is_timer st' = [Start, Stop, Reset, Start, Stop, Reset]"
    using example_run by blast
  let ?tr = "[(Start, 0), (Stop, 50), (Reset, 60), (Start, 100)]"
  have pre: "is_timer st' = map fst ?tr @ [Stop, Reset]" using tm by simp
  have "wait_until_ready (mon_deadline (monitor_run ?tr
      (monitor_init (InstanceTimeControl_new example_executor)))) 100000100 \<longleftrightarrow>
    (\<exists>s. Some 100 = Some s \<and> unat (max_time_ms example_executor) * 1000000 \<le> 0 + (100000100 - s))"
    by (rule monitor_enforces_cpu_budget [OF run example_fresh pre]) simp_all
  then show ?thesis by (simp add: example_executor_def)
qed

section \<open>Answers\<close>

text \<open>
  C6. Every task that an instance takes is settled exactly once: while the instance goes on,
  each task has been sent exactly one answer (a response of the script, its first one; an
  error; or status 500 if the script ended without one), and the task at which the instance
  exits got one answer or its sender is told by the closed channel. Whichever way the
  instance ends, it has released the execution permit.
\<close>

theorem every_task_is_answered_once:
  assumes "instance_run cfg ini tasks st = Some (ready, r, st', sent)" and "fresh_instance st"
  shows "(\<forall>s \<in> set sent. length s \<le> 1) \<and>
    (\<forall>i < length sent. r = Inr () \<or> Suc i < length sent \<longrightarrow>
       (\<exists>a. sent ! i = [a] \<and> instance_fetch (outcome_of (sent ! i)) = a)) \<and>
    (r = Inr () \<longrightarrow> length sent = length tasks) \<and> \<not> is_permit st'"
proof -
  obtain rd ri st1 where i: "init_instance cfg ini st = (rd, ri, st1)"
    by (cases "init_instance cfg ini st") auto
  show ?thesis
  proof (cases ri)
    case (Inl e)
    with i assms have "r = Inl e" "st' = st1" "sent = []"
      by (auto simp: instance_run_def)
    with Inl i assms(2) show ?thesis
      by (auto simp: init_instance_def take_permit_def fresh_instance_def
          split: if_splits sum.splits prod.splits)
  next
    case (Inr u)
    with i assms(1) have t: "run_tasks cfg tasks st1 = Some (r, st', sent)"
      by (auto simp: instance_run_def)
    from init_instance_ok [OF i [unfolded Inr]] assms(2) have "in_turn st1" "\<not> is_channel st1"
      by (auto simp: fresh_instance_def)
    from run_tasks_ok [OF t this] show ?thesis
      by (auto simp: length_Suc_conv outcome_of_def instance_fetch_def)
  qed
qed

theorem every_task_is_answered_once_witness:
  "\<exists>st' a. instance_run example_isolate_config example_init [example_task] example_state =
     Some (True, Inr (), st', [[a]]) \<and> \<not> is_permit st'"
proof -
  obtain st' where run: "instance_run example_isolate_config example_init [example_task] example_state =
      Some (True, Inr (), st', [[Inl (ScriptThrowsException ''e'')]])"
    using example_run by blast
  from every_task_is_answered_once [OF run example_fresh] run show ?thesis by blast
qed

text \<open>
  An out-of-memory condition in JavaScript is turned into an error of the call and cannot
  take the process down, unless it happens inside a host function; and protected calls do
  not nest, whatever happened in earlier ones.
\<close>

theorem oom_is_contained:
  "(HostCall True \<notin> set js \<longrightarrow>
     fst (do_protected_call js False) = Ran \<or> fst (do_protected_call js False) = Jumped) \<and>
   snd (do_protected_call js False) = False \<and>
   fst (do_protected_call js' (snd (do_protected_call js False))) \<noteq> PanickedReentering"
proof -
  have "run_js js' True \<noteq> PanickedReentering"
    using run_js_protected [of js'] by auto
  then show ?thesis
    using run_js_protected [of js] by (auto simp: do_protected_call_def)
qed

theorem oom_is_contained_witness:
  "do_protected_call [HostCall False, AllocFails] False = (Jumped, False) \<and>
   (fst (do_protected_call [HostCall False, AllocFails] False) = Ran \<or>
    fst (do_protected_call [HostCall False, AllocFails] False) = Jumped)"
  using oom_is_contained [of "[HostCall False, AllocFails]" "[]"]
  by (simp add: do_protected_call_def oom_protected_callback_def)

section \<open>Asynchronous operations\<close>

text \<open>
  C10. A worker reaches only the namespaces of its own configuration: whatever operation a
  script issues, with whatever buffers, database failures and wrong arguments, every row of
  any other namespace, and every route, application, bundle and log entry, is as before.
\<close>

theorem worker_confined_to_its_namespaces:
  "outside (configured env) (tbl (ios_db (snd (handle_task env task st)))) =
   outside (configured env) (tbl (ios_db st))"
  using handle_task_outside [of env "outside (configured env) (tbl (ios_db st))" task]
  by (simp add: io_keeps_def)

text \<open>
  C35. Asynchronous operations never store a key of more than 2048 bytes or a value of more
  than 4 MiB.
\<close>

theorem stored_sizes_bounded:
  assumes "rows_bounded (tbl (ios_db st))"
  shows "rows_bounded (tbl (ios_db (snd (handle_task env task st))))"
  using handle_task_bounded [of env task] assms by (simp add: io_keeps_def)

definition example_io_env :: io_env where
  "example_io_env = \<lparr>io_json = \<lambda>v. Inr ''ok'', io_connect = \<lambda>a. Inr 0,
     io_fetch = \<lambda>c r. Inl ''down'', io_alloc = \<lambda>i. AllocOk, io_now = 10, io_now2 = 11,
     io_conf = example_conf\<rparr>"

definition example_io :: io_state where
  "example_io = \<lparr>ios_client = None, ios_db = example_db\<rparr>"

theorem stored_sizes_bounded_witness:
  "appkv (tbl (ios_db (snd (handle_task example_io_env
     \<lparr>ac_v = KvPut ''kv'' False 0,
      ac_buffers = [\<lparr>vr_backing = [1, 2, 3], vr_start = 1, vr_end = 2\<rparr>,
                    \<lparr>vr_backing = [7], vr_start = 0, vr_end = 1\<rparr>]\<rparr> example_io)))) =
     [kv_row ''ns'' [2] [7] 0] \<and>
   rows_bounded (tbl (ios_db (snd (handle_task example_io_env
     \<lparr>ac_v = KvPut ''kv'' False 0,
      ac_buffers = [\<lparr>vr_backing = [1, 2, 3], vr_start = 1, vr_end = 2\<rparr>,
                    \<lparr>vr_backing = [7], vr_start = 0, vr_end = 1\<rparr>]\<rparr> example_io))))"
proof
  have "rows_bounded (tbl (ios_db example_io))"
    by (simp add: rows_bounded_def example_io_def example_db_simps)
  then show "rows_bounded (tbl (ios_db (snd (handle_task example_io_env
     \<lparr>ac_v = KvPut ''kv'' False 0,
      ac_buffers = [\<lparr>vr_backing = [1, 2, 3], vr_start = 1, vr_end = 2\<rparr>,
                    \<lparr>vr_backing = [7], vr_start = 0, vr_end = 1\<rparr>]\<rparr> example_io))))"
    by (rule stored_sizes_bounded)
qed (simp add: handle_task_def Let_def with_buffer_def with_namespace_def with_db_def read_to_vec_def
    view_deref_def worker_data_put_def expiration_of_def kv_upsert_def tbl_upsert_def reply_def
    MAX_KV_KEY_SIZE_def MAX_KV_VALUE_SIZE_def bt_get_def example_io_env_def example_io_def
    example_conf_def example_db_simps)

text \<open>
  The loop of \<open>KvCmpUpdate\<close> runs \<open>num_assertions + num_writes\<close> times, a sum of two \<open>u32\<close> values
  that wraps: with a sum of \<open>2 ^ 32\<close> no assertion is checked and nothing is written, and the
  script is told that the update succeeded.
\<close>

theorem cmpupdate_count_wraps:
  assumes "db_up (ios_db st)" and "bt_get (wc_kv_namespaces (io_conf env)) ns = Some n"
    and "num_assertions + num_writes = 0" and "num_writes \<noteq> 0"
  shows "\<exists>st'. handle_task env
      \<lparr>ac_v = KvCmpUpdate ns num_assertions num_writes 0, ac_buffers = bufs\<rparr> st =
      (mk_user_ok env (RUserOkBool True), st') \<and> tbl (ios_db st') = tbl (ios_db st)"
  by (rule handle_task_count_wraps [OF assms(1-3)])

theorem cmpupdate_count_wraps_witness:
  "\<exists>st'. handle_task example_io_env
      \<lparr>ac_v = KvCmpUpdate ''kv'' 0xFFFFFFFE 2 0, ac_buffers = []\<rparr> example_io =
      (Inr (''ok'', []), st') \<and> appkv (tbl (ios_db st')) = []"
proof -
  have u: "db_up (ios_db example_io)" by (simp add: db_up_def example_io_def example_db_def)
  have n: "bt_get (wc_kv_namespaces (io_conf example_io_env)) ''kv'' = Some ''ns''"
    by (simp add: bt_get_def example_io_env_def example_conf_def)
  have "mk_user_ok example_io_env (RUserOkBool True) = Inr (''ok'', [])"
    by (simp add: mk_user_ok_def mk_user_ok_with_buffers_def example_io_env_def)
  moreover have "appkv (tbl (ios_db example_io)) = []"
    by (simp add: example_io_def example_db_simps)
  ultimately show ?thesis
    using cmpupdate_count_wraps [OF u n, where num_assertions = "0xFFFFFFFE" and num_writes = "2" and bufs = "[]"]
    by auto
qed





text \<open>
  The limit \<open>max_io_per_request\<close> is not enforced: the host function that scripts call
  issues operations with \<open>count_budget = false\<close>, so that the budget never decreases and no
  call is refused for it.
\<close>

theorem io_budget_never_used:
  assumes "is_io_waiter st = Some io" and "async_call env call bufs cb st = Some (r, st')"
  shows "\<exists>io'. is_io_waiter st' = Some io' \<and> remaining_budget io' = remaining_budget io \<and>
    issue (he_slab_key env) (is_conf st) False \<lparr>ac_v = call, ac_buffers = bufs\<rparr> cb io \<noteq>
      Some (Inl IoLimitExceeded, io')"
  using assms
  by (auto simp: async_call_def issue_def Let_def split: if_splits)

definition example_host :: host_env where
  "example_host = \<lparr>he_digest = \<lambda>a b. [], he_random = \<lambda>i. 0, he_fresh = 0, he_slab_key = \<lambda>m. 0,
     he_type_error = NoData ''x''\<rparr>"

theorem io_budget_never_used_witness:
  "\<exists>st' io'. async_call example_host (SetTimeout 5) [] 9
      (example_state\<lparr>is_io_waiter := Some (IoWaiter_new example_conf)\<rparr>) = Some (Inr RetUndefined, st') \<and>
    is_io_waiter st' = Some io' \<and> remaining_budget io' = 3"
proof -
  let ?st = "example_state\<lparr>is_io_waiter := Some (IoWaiter_new example_conf)\<rparr>"
  have w: "is_io_waiter ?st = Some (IoWaiter_new example_conf)" by simp
  obtain st' where c: "async_call example_host (SetTimeout 5) [] 9 ?st = Some (Inr RetUndefined, st')"
    by (simp add: async_call_def issue_def IoWaiter_new_def task_capacity_def example_host_def
        example_worker_simps)
  from io_budget_never_used [OF w c] obtain io' where "is_io_waiter st' = Some io'"
    "remaining_budget io' = remaining_budget (IoWaiter_new example_conf)" by blast
  with c show ?thesis by (auto simp: IoWaiter_new_def example_conf_def example_executor_def)
qed

section \<open>Bundles and load\<close>

text \<open>
  Unpacking a bundle allocates no file larger than the bundle, takes every file from an
  entry of that path, and the script it yields is the bundle's \<open>./index.js\<close>, or else its
  \<open>index.js\<close>.
\<close>

theorem unpack_bundle_correct:
  assumes "unpack_bundle tar_entries bundle = Inr (files, script)"
  shows "(\<forall>p d. bt_get files p = Some d \<longrightarrow> length d \<le> length bundle \<and>
      (\<exists>es e. tar_entries bundle = Some es \<and> Some e \<in> set es \<and> te_path e = Some p \<and>
         d = take (unat (te_size e)) (te_data e))) \<and>
    (bt_get files ''./index.js'' = Some script \<or>
     bt_get files ''./index.js'' = None \<and> bt_get files ''index.js'' = Some script)"
proof -
  from assms obtain es where es: "tar_entries bundle = Some es"
    and u: "unpack_entries (length bundle) es [] = Inr files" and f: "find_script files = Inr script"
    by (auto simp: unpack_bundle_def bind_res_Inr_iff split: option.splits)
  from unpack_entries_get [OF u] es f show ?thesis
    by (auto simp: bt_get_def find_script_def ok_or_Inr_iff split: option.splits)
qed

theorem unpack_bundle_correct_witness:
  "unpack_bundle (\<lambda>b. Some [Some \<lparr>te_path = Some ''index.js'', te_size = 2, te_data = [1, 2, 3]\<rparr>])
     [9, 9, 9] = Inr ([(''index.js'', [1, 2])], [1, 2]) \<and> length [1, 2 :: u8] \<le> length [9, 9, 9 :: u8]"
proof -
  have u: "unpack_bundle (\<lambda>b. Some [Some \<lparr>te_path = Some ''index.js'', te_size = 2, te_data = [1, 2, 3]\<rparr>])
     [9, 9, 9] = Inr ([(''index.js'', [1, 2])], [1, 2])"
    by (simp add: unpack_bundle_def find_script_def bt_get_def)
  from unpack_bundle_correct [OF u] u show ?thesis by (auto simp: bt_get_def)
qed

text \<open>
  The load that a runtime reports is the sum of its two parts without wrap-around, at most
  60000, whatever the memory figures, the number of instances and the configured limits are
  (a limit of zero included).
\<close>

theorem runtime_load_bounded:
  "let a = compute_usage_saturating
         (f64_of_nat (unat (sum_list (map (\<lambda>(_, v). rt_memory rt ! ws_memory_bytes v)
            (in_peek_iter ops now (rt_instances rt))))))
         (f64_of_nat (unat (high_memory_threshold_bytes (rt_config rt)))) 30000;
       b = compute_usage_saturating (f64_of_nat (in_len ops (rt_instances rt)))
         (f64_of_nat (unat (max_num_of_instances (rt_config rt)))) 30000
   in runtime_load ops now rt = Inr (a + b) \<and> unat (a + b) = unat a + unat b \<and>
      unat (a + b) \<le> 60000"
proof -
  have le: "unat (compute_usage_saturating u t 30000) \<le> 30000" for u t
    using compute_usage_le [of u t 30000] by simp
  have add: "unat (a + b) = unat a + unat b \<and> unat (a + b) \<le> 60000"
    if "unat a \<le> 30000" and "unat b \<le> 30000" for a b :: u16
    using that by (simp add: unat_word_ariths)
  show ?thesis
    unfolding runtime_load_def Let_def using add [OF le le] by blast
qed

section \<open>The script's global object\<close>




end
