(* ===== verification/Metric_Model.thy ===== *)
theory Metric_Model
  imports F64 Types "HOL-Library.Multiset"
begin

text \<open>
  The data of the metrics library (\<open>src/prometheus\<close>): what a collector hands to the registry
  and the registry to an encoder (\<open>plain_model.rs\<close>, whose structures have the fields and the
  accessors of the generated protocol model), and the error type (\<open>errors.rs\<close>). A record
  gives the getters as its selectors and the setters as its updates; \<open>take_label\<close> and
  \<open>take_metric\<close> read a field and leave it empty.
\<close>

section \<open>Errors\<close>

datatype PromError =
    AlreadyReg
  | InconsistentCardinality nat nat
  | Msg string
  | PromIo string
  | PromProtobuf string

type_synonym 'a PromResult = "PromError + 'a"

section \<open>Samples\<close>

record LabelPair =
  lp_name :: string
  lp_value :: string

record ProtoGauge =
  gauge_value :: f64

record ProtoCounter =
  counter_value :: f64

record ProtoUntyped =
  untyped_value :: f64

record Quantile =
  q_quantile :: f64
  q_value :: f64

record Summary =
  sm_sample_count :: u64
  sm_sample_sum :: f64
  sm_quantile :: "Quantile list"

record Bucket =
  b_cumulative_count :: u64
  b_upper_bound :: f64

record ProtoHistogram =
  ph_sample_count :: u64
  ph_sample_sum :: f64
  ph_bucket :: "Bucket list"

record Metric =
  m_label :: "LabelPair list"
  m_gauge :: ProtoGauge
  m_counter :: ProtoCounter
  m_summary :: Summary
  m_untyped :: ProtoUntyped
  m_histogram :: ProtoHistogram
  m_timestamp_ms :: i64

datatype MetricType = COUNTER | GAUGE | SUMMARY | UNTYPED | HISTOGRAM

record MetricFamily =
  mf_name :: string
  mf_help :: string
  mf_field_type :: MetricType
  mf_metric :: "Metric list"

text \<open>\<open>Default::default()\<close>.\<close>

definition Metric_default :: Metric where
  "Metric_default =
     \<lparr>m_label = [], m_gauge = \<lparr>gauge_value = Fin 0\<rparr>, m_counter = \<lparr>counter_value = Fin 0\<rparr>,
      m_summary = \<lparr>sm_sample_count = 0, sm_sample_sum = Fin 0, sm_quantile = []\<rparr>,
      m_untyped = \<lparr>untyped_value = Fin 0\<rparr>,
      m_histogram = \<lparr>ph_sample_count = 0, ph_sample_sum = Fin 0, ph_bucket = []\<rparr>,
      m_timestamp_ms = 0\<rparr>"

definition MetricFamily_default :: MetricFamily where
  "MetricFamily_default = \<lparr>mf_name = [], mf_help = [], mf_field_type = COUNTER, mf_metric = []\<rparr>"

text \<open>
  \<open>LabelPair\<close> is ordered by its name alone (\<open>metrics.rs\<close>), and \<open>Vec::sort\<close> is stable.
\<close>

definition label_cmp_le :: "LabelPair \<Rightarrow> LabelPair \<Rightarrow> bool" where
  "label_cmp_le a b \<longleftrightarrow> lp_name a \<le> lp_name b"

definition sort_labels :: "LabelPair list \<Rightarrow> LabelPair list" where
  "sort_labels pairs = sort_key lp_name pairs"

lemma sorted_sort_labels: "sorted_wrt label_cmp_le (sort_labels pairs)"
  using sorted_sort_key [of lp_name pairs]
  by (simp add: sort_labels_def sorted_wrt_map label_cmp_le_def [abs_def])

lemma set_sort_labels [simp]: "set (sort_labels pairs) = set pairs"
  by (simp add: sort_labels_def)

lemma mset_sort_labels [simp]: "mset (sort_labels pairs) = mset pairs"
  by (simp add: sort_labels_def)

lemma length_sort_labels [simp]: "length (sort_labels pairs) = length pairs"
  by (simp add: sort_labels_def)

text \<open>Sorting forgets the order the labels came in when their names are distinct.\<close>

lemma sort_labels_perm:
  assumes "mset xs = mset ys" and "distinct (map lp_name xs)"
  shows "sort_labels xs = sort_labels ys"
  unfolding sort_labels_def
  by (rule sort_key_inj_key_eq) (use assms in \<open>simp_all add: distinct_map\<close>)

end
