(* ===== verification/Metric_Atomic.thy ===== *)
theory Metric_Atomic
  imports Metric_Model
begin

text \<open>
  The atomic numbers of the metrics library (\<open>src/prometheus/src/atomic64.rs\<close>). The traits
  \<open>Number\<close> and \<open>Atomic\<close> are records of their functions. The bits of an \<open>AtomicF64\<close> stand for
  the number they encode. \<open>AtomicF64::inc_by\<close> is a compare-and-exchange loop; what happens
  between a turn's load and its exchange is an argument: another thread changes the number, or
  the exchange fails spuriously, as the weak form may.
\<close>

section \<open>Traits\<close>

record 't Number =
  nm_from_i64 :: "i64 \<Rightarrow> 't"
  nm_into_f64 :: "'t \<Rightarrow> f64"
  nm_add :: "'t \<Rightarrow> 't \<Rightarrow> 't"
  nm_le :: "'t \<Rightarrow> 't \<Rightarrow> bool"

definition number_i64 :: "i64 Number" where
  "number_i64 = \<lparr>nm_from_i64 = \<lambda>v. v, nm_into_f64 = \<lambda>v. f64_of_int (sint v), nm_add = (+), nm_le = (\<le>s)\<rparr>"

definition number_u64 :: "u64 Number" where
  "number_u64 = \<lparr>nm_from_i64 = \<lambda>v. v, nm_into_f64 = \<lambda>v. f64_of_nat (unat v), nm_add = (+), nm_le = (\<le>)\<rparr>"

definition number_f64 :: "f64 Number" where
  "number_f64 =
     \<lparr>nm_from_i64 = \<lambda>v. f64_of_int (sint v), nm_into_f64 = \<lambda>v. v, nm_add = f64_add, nm_le = f64_le\<rparr>"

record ('p, 't) Atomic =
  am_new :: "'t \<Rightarrow> 'p"
  am_set :: "'t \<Rightarrow> 'p \<Rightarrow> 'p"
  am_get :: "'p \<Rightarrow> 't"
  am_inc_by :: "'t \<Rightarrow> 'p \<Rightarrow> 'p"
  am_dec_by :: "'t \<Rightarrow> 'p \<Rightarrow> 'p"

section \<open>Floating-point numbers\<close>

datatype AtomicF64 = AtomicF64 (f64_inner: f64)

fun AtomicF64_set :: "f64 \<Rightarrow> AtomicF64 \<Rightarrow> AtomicF64" where
  "AtomicF64_set val (AtomicF64 _) = AtomicF64 val"

fun AtomicF64_get :: "AtomicF64 \<Rightarrow> f64" where
  "AtomicF64_get (AtomicF64 x) = x"

text \<open>What may come between the load and the exchange of a turn.\<close>

datatype meanwhile = Spurious | Others "f64 \<Rightarrow> f64"

fun AtomicF64_inc_loop :: "meanwhile list \<Rightarrow> f64 \<Rightarrow> AtomicF64 \<Rightarrow> AtomicF64" where
  "AtomicF64_inc_loop [] delta (AtomicF64 current) = AtomicF64 (f64_add current delta)"
| "AtomicF64_inc_loop (Spurious # ms) delta p = AtomicF64_inc_loop ms delta p"
| "AtomicF64_inc_loop (Others f # ms) delta (AtomicF64 current) =
     (let new = f64_add current delta in
      if f current = current then AtomicF64 new
      else AtomicF64_inc_loop ms delta (AtomicF64 (f current)))"

definition AtomicF64_inc_by :: "f64 \<Rightarrow> AtomicF64 \<Rightarrow> AtomicF64" where
  "AtomicF64_inc_by delta p = AtomicF64_inc_loop [] delta p"

definition AtomicF64_dec_by :: "f64 \<Rightarrow> AtomicF64 \<Rightarrow> AtomicF64" where
  "AtomicF64_dec_by delta p = AtomicF64_inc_by (f64_neg delta) p"

definition AtomicF64_swap :: "f64 \<Rightarrow> AtomicF64 \<Rightarrow> f64 \<times> AtomicF64" where
  "AtomicF64_swap val p = (AtomicF64_get p, AtomicF64 val)"

definition atomic_f64 :: "(AtomicF64, f64) Atomic" where
  "atomic_f64 =
     \<lparr>am_new = AtomicF64, am_set = AtomicF64_set, am_get = AtomicF64_get,
      am_inc_by = AtomicF64_inc_by, am_dec_by = AtomicF64_dec_by\<rparr>"

section \<open>Integers\<close>

datatype AtomicI64 = AtomicI64 (i64_inner: i64)

definition atomic_i64 :: "(AtomicI64, i64) Atomic" where
  "atomic_i64 =
     \<lparr>am_new = AtomicI64, am_set = (\<lambda>val _. AtomicI64 val), am_get = i64_inner,
      am_inc_by = (\<lambda>delta p. AtomicI64 (i64_inner p + delta)),
      am_dec_by = (\<lambda>delta p. AtomicI64 (i64_inner p - delta))\<rparr>"

datatype AtomicU64 = AtomicU64 (u64_inner: u64)

definition AtomicU64_inc_by :: "u64 \<Rightarrow> AtomicU64 \<Rightarrow> AtomicU64" where
  "AtomicU64_inc_by delta p = AtomicU64 (u64_inner p + delta)"

definition atomic_u64 :: "(AtomicU64, u64) Atomic" where
  "atomic_u64 =
     \<lparr>am_new = AtomicU64, am_set = (\<lambda>val _. AtomicU64 val), am_get = u64_inner,
      am_inc_by = AtomicU64_inc_by,
      am_dec_by = (\<lambda>delta p. AtomicU64 (u64_inner p - delta))\<rparr>"

text \<open>The weak exchange: \<open>spurious\<close> tells that it fails although the comparison succeeds.\<close>

definition AtomicU64_compare_exchange_weak ::
  "bool \<Rightarrow> u64 \<Rightarrow> u64 \<Rightarrow> AtomicU64 \<Rightarrow> (u64 + u64) \<times> AtomicU64" where
  "AtomicU64_compare_exchange_weak spurious current new p =
     (if u64_inner p = current \<and> \<not> spurious then (Inr (u64_inner p), AtomicU64 new)
      else (Inl (u64_inner p), p))"

definition AtomicU64_swap :: "u64 \<Rightarrow> AtomicU64 \<Rightarrow> u64 \<times> AtomicU64" where
  "AtomicU64_swap val p = (u64_inner p, AtomicU64 val)"

section \<open>The contract\<close>

text \<open>
  What the metrics rely on: an atomic keeps what it was set to, and adding goes through the
  number's addition.
\<close>

locale atomic_number =
  fixes num :: "'t Number"
    and ops :: "('p, 't) Atomic"
    and neg :: "'t \<Rightarrow> 't"
  assumes get_new: "am_get ops (am_new ops v) = v"
    and get_set: "am_get ops (am_set ops v p) = v"
    and get_inc: "am_get ops (am_inc_by ops d p) = nm_add num (am_get ops p) d"
    and get_dec: "am_get ops (am_dec_by ops d p) = nm_add num (am_get ops p) (neg d)"
begin

text \<open>The value after a series of increments is the fold of the additions.\<close>

lemma get_fold_inc:
  "am_get ops (fold (am_inc_by ops) ds p) = fold (\<lambda>d v. nm_add num v d) ds (am_get ops p)"
  by (induction ds arbitrary: p) (simp_all add: get_inc)

end

interpretation af64: atomic_number number_f64 atomic_f64 f64_neg
proof
  fix v d :: f64 and p :: AtomicF64
  obtain x where p: "p = AtomicF64 x" by (cases p)
  show "am_get atomic_f64 (am_new atomic_f64 v) = v" by (simp add: atomic_f64_def)
  show "am_get atomic_f64 (am_set atomic_f64 v p) = v" by (simp add: atomic_f64_def p)
  show "am_get atomic_f64 (am_inc_by atomic_f64 d p) = nm_add number_f64 (am_get atomic_f64 p) d"
    by (simp add: atomic_f64_def number_f64_def AtomicF64_inc_by_def p)
  show "am_get atomic_f64 (am_dec_by atomic_f64 d p) =
      nm_add number_f64 (am_get atomic_f64 p) (f64_neg d)"
    by (simp add: atomic_f64_def number_f64_def AtomicF64_inc_by_def AtomicF64_dec_by_def p)
qed

interpretation ai64: atomic_number number_i64 atomic_i64 uminus
  by unfold_locales (simp_all add: atomic_i64_def number_i64_def)

interpretation au64: atomic_number number_u64 atomic_u64 uminus
  by unfold_locales (simp_all add: atomic_u64_def number_u64_def AtomicU64_inc_by_def)

section \<open>The loop is atomic\<close>

text \<open>
  Whatever the other threads do in the turns, the loop has the effect of one addition to the
  number as some of them left it: no update is lost, and the addition happens once.
\<close>

fun run_meanwhile :: "meanwhile list \<Rightarrow> f64 \<Rightarrow> f64" where
  "run_meanwhile [] x = x"
| "run_meanwhile (Spurious # ms) x = run_meanwhile ms x"
| "run_meanwhile (Others f # ms) x = run_meanwhile ms (f x)"

lemma inc_loop_atomic:
  "\<exists>k \<le> length ms. AtomicF64_inc_loop ms delta (AtomicF64 x) =
     AtomicF64_inc_by delta (AtomicF64 (run_meanwhile (take k ms) x))"
proof (induction ms delta "AtomicF64 x" arbitrary: x rule: AtomicF64_inc_loop.induct)
  case (1 delta current)
  then show ?case by (simp add: AtomicF64_inc_by_def)
next
  case (2 ms delta)
  then obtain k where "k \<le> length ms" "AtomicF64_inc_loop ms delta (AtomicF64 x) =
     AtomicF64_inc_by delta (AtomicF64 (run_meanwhile (take k ms) x))" by blast
  then show ?case by (intro exI [of _ "Suc k"]) simp
next
  case (3 f ms delta current)
  show ?case
  proof (cases "f current = current")
    case True
    then show ?thesis by (intro exI [of _ 0]) (simp add: AtomicF64_inc_by_def Let_def)
  next
    case False
    from 3 [OF refl False] obtain k where "k \<le> length ms"
      "AtomicF64_inc_loop ms delta (AtomicF64 (f current)) =
       AtomicF64_inc_by delta (AtomicF64 (run_meanwhile (take k ms) (f current)))" by blast
    with False show ?thesis by (intro exI [of _ "Suc k"]) (simp add: Let_def)
  qed
qed

text \<open>Undisturbed, the loop ends in its first turn.\<close>

lemma inc_loop_undisturbed:
  "AtomicF64_inc_loop (replicate n Spurious) delta p = AtomicF64_inc_by delta p"
  by (induction n) (simp_all add: AtomicF64_inc_by_def)

end
