(* ===== verification/Metric_Desc.thy ===== *)
theory Metric_Desc
  imports Metric_Model "HOL-Library.AList"
begin

text \<open>
  Descriptors of metrics (\<open>src/prometheus/src/desc.rs\<close>) and the options they are made from
  (\<open>metrics.rs\<close>). The hash function (the crate \<open>fnv\<close>) is a parameter: a function of the bytes
  written to the hasher, in one piece or in several. A \<open>HashMap\<close> is the list of its entries in
  the order in which it iterates, with distinct keys.
\<close>

section \<open>Names\<close>

definition is_ascii_alphabetic :: "char \<Rightarrow> bool" where
  "is_ascii_alphabetic c \<longleftrightarrow>
     (let n = of_char c :: nat in 65 \<le> n \<and> n \<le> 90 \<or> 97 \<le> n \<and> n \<le> 122)"

definition is_digit10 :: "char \<Rightarrow> bool" where
  "is_digit10 c \<longleftrightarrow> (let n = of_char c :: nat in 48 \<le> n \<and> n \<le> 57)"

definition matches_charset_without_colon :: "char \<Rightarrow> bool" where
  "matches_charset_without_colon c \<longleftrightarrow> is_ascii_alphabetic c \<or> c = CHR ''_''"

definition matches_charset_with_colon :: "char \<Rightarrow> bool" where
  "matches_charset_with_colon c \<longleftrightarrow> matches_charset_without_colon c \<or> c = CHR '':''"

definition is_valid_ident :: "string \<Rightarrow> (char \<Rightarrow> bool) \<Rightarrow> bool" where
  "is_valid_ident input charset_validator =
     (case input of
        [] \<Rightarrow> False
      | zeroth # chars \<Rightarrow>
          charset_validator zeroth \<and> list_all (\<lambda>c. charset_validator c \<or> is_digit10 c) chars)"

definition is_valid_metric_name :: "string \<Rightarrow> bool" where
  "is_valid_metric_name name = is_valid_ident name matches_charset_with_colon"

definition is_valid_label_name :: "string \<Rightarrow> bool" where
  "is_valid_label_name name = is_valid_ident name matches_charset_without_colon"

section \<open>Descriptors\<close>

record Desc =
  d_fq_name :: string
  d_help :: string
  d_const_label_pairs :: "LabelPair list"
  d_variable_labels :: "string list"
  d_id :: u64
  d_dim_hash :: u64

definition SEPARATOR_BYTE :: u8 where
  "SEPARATOR_BYTE = 0xFF"

text \<open>What \<open>Desc::new\<close> writes to a hasher: each value followed by the separator.\<close>

definition hash_input :: "string list \<Rightarrow> bytes" where
  "hash_input vals = concat (map (\<lambda>v. as_bytes v @ [SEPARATOR_BYTE]) vals)"

definition quoted :: "string \<Rightarrow> string" where
  "quoted s = CHR 0x27 # s @ [CHR 0x27]"

definition invalid_label :: "string \<Rightarrow> PromError" where
  "invalid_label name = Msg (quoted name @ '' is not a valid label name'')"

text \<open>The two loops that fill the \<open>BTreeSet\<close> of label names.\<close>

fun add_const_names :: "string list \<Rightarrow> string list \<Rightarrow> string list PromResult" where
  "add_const_names [] label_names = Inr label_names"
| "add_const_names (name # rest) label_names =
     (if \<not> is_valid_label_name name then Inl (invalid_label name)
      else if name \<in> set label_names then Inl (Msg (''duplicate const label name '' @ name))
      else add_const_names rest (insort name label_names))"

fun add_variable_names :: "string list \<Rightarrow> string list \<Rightarrow> string list PromResult" where
  "add_variable_names [] label_names = Inr label_names"
| "add_variable_names (name # rest) label_names =
     (if \<not> is_valid_label_name name then Inl (invalid_label name)
      else if (CHR ''$'' # name) \<in> set label_names
           then Inl (Msg (''duplicate variable label name '' @ name))
      else add_variable_names rest (insort (CHR ''$'' # name) label_names))"

definition Desc_new ::
  "(bytes \<Rightarrow> u64) \<Rightarrow> string \<Rightarrow> string \<Rightarrow> string list \<Rightarrow> (string \<times> string) list \<Rightarrow> Desc PromResult" where
  "Desc_new fnv fq_name help variable_labels const_labels =
     (if help = [] then Inl (Msg ''empty help string'')
      else if \<not> is_valid_metric_name fq_name
           then Inl (Msg (quoted fq_name @ '' is not a valid metric name''))
      else
        bind_res (add_const_names (map fst const_labels) []) (\<lambda>const_names.
        (let label_values = fq_name # map (\<lambda>name. the (map_of const_labels name)) const_names in
         bind_res (add_variable_names variable_labels const_names) (\<lambda>label_names.
         Inr \<lparr>d_fq_name = fq_name, d_help = help,
              d_const_label_pairs =
                sort_labels (map (\<lambda>(key, value). \<lparr>lp_name = key, lp_value = value\<rparr>) const_labels),
              d_variable_labels = variable_labels,
              d_id = fnv (hash_input label_values),
              d_dim_hash = fnv (hash_input (help # label_names))\<rparr>))))"

section \<open>Options\<close>

definition build_fq_name :: "string \<Rightarrow> string \<Rightarrow> string \<Rightarrow> string" where
  "build_fq_name namespace subsystem name =
     (if name = [] then []
      else if namespace \<noteq> [] \<and> subsystem \<noteq> [] then namespace @ ''_'' @ subsystem @ ''_'' @ name
      else if namespace \<noteq> [] then namespace @ ''_'' @ name
      else if subsystem \<noteq> [] then subsystem @ ''_'' @ name
      else name)"

record Opts =
  o_namespace :: string
  o_subsystem :: string
  o_name :: string
  o_help :: string
  o_const_labels :: "(string \<times> string) list"
  o_variable_labels :: "string list"

definition Opts_new :: "string \<Rightarrow> string \<Rightarrow> Opts" where
  "Opts_new name help =
     \<lparr>o_namespace = [], o_subsystem = [], o_name = name, o_help = help, o_const_labels = [],
      o_variable_labels = []\<rparr>"

definition Opts_namespace :: "string \<Rightarrow> Opts \<Rightarrow> Opts" where
  "Opts_namespace namespace opts = opts\<lparr>o_namespace := namespace\<rparr>"

definition Opts_subsystem :: "string \<Rightarrow> Opts \<Rightarrow> Opts" where
  "Opts_subsystem subsystem opts = opts\<lparr>o_subsystem := subsystem\<rparr>"

definition Opts_const_labels :: "(string \<times> string) list \<Rightarrow> Opts \<Rightarrow> Opts" where
  "Opts_const_labels const_labels opts = opts\<lparr>o_const_labels := const_labels\<rparr>"

definition Opts_const_label :: "string \<Rightarrow> string \<Rightarrow> Opts \<Rightarrow> Opts" where
  "Opts_const_label name value opts = opts\<lparr>o_const_labels := AList.update name value (o_const_labels opts)\<rparr>"

definition Opts_variable_labels :: "string list \<Rightarrow> Opts \<Rightarrow> Opts" where
  "Opts_variable_labels variable_labels opts = opts\<lparr>o_variable_labels := variable_labels\<rparr>"

definition Opts_variable_label :: "string \<Rightarrow> Opts \<Rightarrow> Opts" where
  "Opts_variable_label name opts = opts\<lparr>o_variable_labels := o_variable_labels opts @ [name]\<rparr>"

definition Opts_fq_name :: "Opts \<Rightarrow> string" where
  "Opts_fq_name opts = build_fq_name (o_namespace opts) (o_subsystem opts) (o_name opts)"

definition Opts_describe :: "(bytes \<Rightarrow> u64) \<Rightarrow> Opts \<Rightarrow> Desc PromResult" where
  "Opts_describe fnv opts =
     Desc_new fnv (Opts_fq_name opts) (o_help opts) (o_variable_labels opts) (o_const_labels opts)"

section \<open>Label names\<close>

lemma valid_label_name_not_dollar: "is_valid_label_name name \<Longrightarrow> name \<noteq> CHR ''$'' # rest"
  by (auto simp: is_valid_label_name_def is_valid_ident_def matches_charset_without_colon_def
      is_ascii_alphabetic_def)

lemma add_const_names_Inr:
  "add_const_names names acc = Inr out \<longleftrightarrow>
     list_all is_valid_label_name names \<and> distinct names \<and> set names \<inter> set acc = {} \<and>
     out = fold insort names acc"
  by (induction names acc rule: add_const_names.induct) (auto simp: set_insort_key)

lemma add_variable_names_Inr:
  "add_variable_names names acc = Inr out \<longleftrightarrow>
     list_all is_valid_label_name names \<and> distinct names \<and>
     Cons (CHR ''$'') ` set names \<inter> set acc = {} \<and>
     out = fold insort (map (Cons (CHR ''$'')) names) acc"
  by (induction names acc rule: add_variable_names.induct) (auto simp: set_insort_key)

lemma sorted_fold_insort: "sorted acc \<Longrightarrow> sorted (fold insort xs acc)"
  by (induction xs arbitrary: acc) (auto simp: sorted_insort)

lemma mset_fold_insort: "mset (fold insort xs acc) = mset xs + mset acc"
  by (induction xs arbitrary: acc) auto

lemma fold_insort_perm:
  assumes "mset xs = mset ys" and "sorted acc"
  shows "fold insort xs acc = fold insort ys acc"
  by (rule properties_for_sort [symmetric, THEN trans, OF _ _ sort_key_id_if_sorted])
    (use assms in \<open>simp_all add: mset_fold_insort sorted_fold_insort\<close>)

lemma fold_insort_Nil: "fold insort xs [] = sort xs"
  by (rule properties_for_sort [symmetric]) (simp_all add: mset_fold_insort sorted_fold_insort)

text \<open>The two kinds of names cannot meet: a variable name is stored with a dollar sign.\<close>

lemma const_names_dollar_free:
  assumes "list_all is_valid_label_name names"
  shows "Cons (CHR ''$'') ` A \<inter> set names = {}"
proof -
  have "CHR ''$'' # a \<notin> set names" for a
    using assms valid_label_name_not_dollar by (metis list_all_iff)
  then show ?thesis by auto
qed

section \<open>Construction\<close>

text \<open>When \<open>Desc::new\<close> succeeds, and what it then returns, without the loops.\<close>

definition desc_ok :: "string \<Rightarrow> string \<Rightarrow> string list \<Rightarrow> (string \<times> string) list \<Rightarrow> bool" where
  "desc_ok fq_name help variable_labels const_labels \<longleftrightarrow>
     help \<noteq> [] \<and> is_valid_metric_name fq_name \<and>
     list_all is_valid_label_name (map fst const_labels) \<and> distinct (map fst const_labels) \<and>
     list_all is_valid_label_name variable_labels \<and> distinct variable_labels"

definition desc_key :: "string \<Rightarrow> (string \<times> string) list \<Rightarrow> string list" where
  "desc_key fq_name const_labels =
     fq_name # map (\<lambda>name. the (map_of const_labels name)) (sort (map fst const_labels))"

definition desc_dims :: "string \<Rightarrow> string list \<Rightarrow> (string \<times> string) list \<Rightarrow> string list" where
  "desc_dims help variable_labels const_labels =
     help # fold insort (map (Cons (CHR ''$'')) variable_labels) (sort (map fst const_labels))"

lemma Desc_new_Inr:
  "Desc_new fnv fq_name help variable_labels const_labels = Inr d \<longleftrightarrow>
     desc_ok fq_name help variable_labels const_labels \<and>
     d = \<lparr>d_fq_name = fq_name, d_help = help,
          d_const_label_pairs =
            sort_labels (map (\<lambda>(key, value). \<lparr>lp_name = key, lp_value = value\<rparr>) const_labels),
          d_variable_labels = variable_labels,
          d_id = fnv (hash_input (desc_key fq_name const_labels)),
          d_dim_hash = fnv (hash_input (desc_dims help variable_labels const_labels))\<rparr>"
proof -
  have "Cons (CHR ''$'') ` set variable_labels \<inter> set (sort (map fst const_labels)) = {}"
    if "list_all is_valid_label_name (map fst const_labels)"
    using const_names_dollar_free [OF that] by simp
  then show ?thesis
    by (auto simp: Desc_new_def desc_ok_def bind_res_Inr_iff add_const_names_Inr
        add_variable_names_Inr fold_insort_Nil desc_key_def desc_dims_def Let_def)
qed

lemma Desc_new_fields:
  assumes "Desc_new fnv fq_name help variable_labels const_labels = Inr d"
  shows "d_fq_name d = fq_name" "d_help d = help" "d_variable_labels d = variable_labels"
    "is_valid_metric_name fq_name" "help \<noteq> []"
  using assms by (auto simp: Desc_new_Inr desc_ok_def)

lemma valid_metric_name_nonempty: "is_valid_metric_name name \<Longrightarrow> name \<noteq> []"
  by (auto simp: is_valid_metric_name_def is_valid_ident_def)

text \<open>
  The separator makes the input of the hash function a faithful encoding of the list of
  values, as a Rust string (UTF-8) has no byte \<open>0xFF\<close>.
\<close>

definition utf8_like :: "string \<Rightarrow> bool" where
  "utf8_like s \<longleftrightarrow> CHR 0xFF \<notin> set s"

lemma as_bytes_inj: "as_bytes s = as_bytes t \<longleftrightarrow> s = t"
proof
  have inj: "inj (\<lambda>c :: char. word_of_nat (of_char c) :: u8)"
  proof (rule injI)
    fix c c' :: char
    assume "(word_of_nat (of_char c) :: u8) = word_of_nat (of_char c')"
    then have "take_bit 8 (of_char c :: nat) = take_bit 8 (of_char c')"
      by (simp add: word_of_nat_eq_iff)
    then show "c = c'" by (simp add: take_bit_eq_mod)
  qed
  assume "as_bytes s = as_bytes t"
  then show "s = t" unfolding as_bytes_def by (rule map_injective [OF _ inj])
qed simp

lemma separator_not_in: "utf8_like s \<Longrightarrow> SEPARATOR_BYTE \<notin> set (as_bytes s)"
proof
  assume u: "utf8_like s" and "SEPARATOR_BYTE \<in> set (as_bytes s)"
  then obtain c where c: "c \<in> set s" "as_bytes [c] = as_bytes [CHR 0xFF]"
    by (auto simp: as_bytes_def SEPARATOR_BYTE_def)
  then show False using u by (simp add: as_bytes_inj utf8_like_def)
qed

lemma append_separator_inj:
  assumes "a \<notin> set xs" and "a \<notin> set ys" and "xs @ a # us = ys @ a # vs"
  shows "xs = ys \<and> us = vs"
  using assms
proof (induction xs arbitrary: ys)
  case Nil
  then show ?case by (cases ys) auto
next
  case (Cons x xs)
  then show ?case by (cases ys) auto
qed

lemma hash_input_inj:
  "list_all utf8_like xs \<Longrightarrow> list_all utf8_like ys \<Longrightarrow> hash_input xs = hash_input ys \<Longrightarrow> xs = ys"
proof (induction xs arbitrary: ys)
  case Nil
  then show ?case by (cases ys) (auto simp: hash_input_def)
next
  case (Cons x xs)
  then obtain y ys' where ys: "ys = y # ys'" by (cases ys) (auto simp: hash_input_def)
  with Cons.prems have "as_bytes x @ SEPARATOR_BYTE # hash_input xs =
      as_bytes y @ SEPARATOR_BYTE # hash_input ys'"
    by (simp add: hash_input_def)
  with Cons.prems ys have e: "as_bytes x = as_bytes y" "hash_input xs = hash_input ys'"
    using append_separator_inj [OF separator_not_in [of x] separator_not_in [of y]] by simp_all
  have "list_all utf8_like xs" "list_all utf8_like ys'" using Cons.prems ys by simp_all
  from Cons.IH [OF this e(2)] e(1) show ?case by (simp add: ys as_bytes_inj)
qed

lemma sort_perm: "mset xs = mset ys \<Longrightarrow> sort xs = sort (ys :: string list)"
  by (rule properties_for_sort) simp_all

lemma distinct_perm: "mset xs = mset ys \<Longrightarrow> distinct xs \<longleftrightarrow> distinct ys"
  by (auto simp: distinct_count_atmost_1 dest: mset_eq_setD)

lemma desc_key_perm:
  assumes m: "mset cl = mset cl'" and d: "distinct (map fst cl)"
  shows "desc_key n cl = desc_key n cl'"
proof -
  have mk: "mset (map fst cl) = mset (map fst cl')" using m by simp
  have "map_of cl = map_of cl'"
  proof
    fix k
    have d': "distinct (map fst cl')" using d distinct_perm [OF mk] by blast
    have "map_of cl k = Some v \<longleftrightarrow> map_of cl' k = Some v" for v
      unfolding map_of_eq_Some_iff [OF d] map_of_eq_Some_iff [OF d'] mset_eq_setD [OF m] ..
    then show "map_of cl k = map_of cl' k" by (metis not_Some_eq)
  qed
  then show ?thesis using sort_perm [OF mk] by (simp add: desc_key_def)
qed

text \<open>Whatever order the map of constant labels iterates in, the descriptor is the same.\<close>

lemma Desc_new_order:
  assumes "mset cl = mset cl'" and "Desc_new fnv n h vs cl = Inr d"
  shows "Desc_new fnv n h vs cl' = Inr d"
proof -
  from assms(2) have ok: "desc_ok n h vs cl" and d: "distinct (map fst cl)"
    by (auto simp: Desc_new_Inr desc_ok_def)
  have m: "mset (map fst cl) = mset (map fst cl')" using assms(1) by simp
  have "desc_ok n h vs cl'"
    using ok distinct_perm [OF m] mset_eq_setD [OF assms(1)] by (simp add: desc_ok_def list_all_iff)
  moreover have "sort (map fst cl) = sort (map fst cl')" by (rule sort_perm [OF m])
  moreover have "sort_labels (map (\<lambda>(key, value). \<lparr>lp_name = key, lp_value = value\<rparr>) cl) =
      sort_labels (map (\<lambda>(key, value). \<lparr>lp_name = key, lp_value = value\<rparr>) cl')"
  proof (rule sort_labels_perm)
    have "map lp_name (map (\<lambda>(key, value). \<lparr>lp_name = key, lp_value = value\<rparr>) cl) = map fst cl"
      by auto
    with d show "distinct (map lp_name (map (\<lambda>(key, value). \<lparr>lp_name = key, lp_value = value\<rparr>) cl))"
      by (simp only:)
  qed (use assms(1) in simp)
  ultimately show ?thesis
    using assms(2) desc_key_perm [OF assms(1) d] by (auto simp: Desc_new_Inr desc_dims_def)
qed

end
