(* ===== verification/Metric_Value.thy ===== *)
theory Metric_Value
  imports Metric_Atomic Metric_Desc
begin

text \<open>
  Single-valued metrics of the library: \<open>src/prometheus/src/value.rs\<close>, \<open>counter.rs\<close> and
  \<open>gauge.rs\<close>. They are generic in the atomic number; the shared metric behind an \<open>Arc\<close> is the
  value itself, which the callers thread. An operation of a counter whose argument a debug
  build would refuse has the behaviour of the release build.
\<close>

datatype ValueType = VCounter | VGauge

fun ValueType_metric_type :: "ValueType \<Rightarrow> MetricType" where
  "ValueType_metric_type VCounter = COUNTER"
| "ValueType_metric_type VGauge = GAUGE"

record 'p ValueM =
  v_desc :: Desc
  v_val :: 'p
  v_val_type :: ValueType
  v_label_pairs :: "LabelPair list"

definition make_label_pairs :: "Desc \<Rightarrow> string list \<Rightarrow> LabelPair list PromResult" where
  "make_label_pairs desc label_values =
     (if length (d_variable_labels desc) \<noteq> length label_values
      then Inl (InconsistentCardinality (length (d_variable_labels desc)) (length label_values))
      else if length (d_variable_labels desc) + length (d_const_label_pairs desc) = 0 then Inr []
      else if d_variable_labels desc = [] then Inr (d_const_label_pairs desc)
      else Inr (sort_labels
             (map (\<lambda>(n, v). \<lparr>lp_name = n, lp_value = v\<rparr>) (zip (d_variable_labels desc) label_values) @
              d_const_label_pairs desc)))"

definition Value_new ::
  "('p, 't) Atomic \<Rightarrow> Desc PromResult \<Rightarrow> ValueType \<Rightarrow> 't \<Rightarrow> string list \<Rightarrow> 'p ValueM PromResult" where
  "Value_new ops described val_type val label_values =
     bind_res described (\<lambda>desc.
     bind_res (make_label_pairs desc label_values) (\<lambda>label_pairs.
     Inr \<lparr>v_desc = desc, v_val = am_new ops val, v_val_type = val_type,
          v_label_pairs = label_pairs\<rparr>))"

definition Value_get :: "('p, 't) Atomic \<Rightarrow> 'p ValueM \<Rightarrow> 't" where
  "Value_get ops v = am_get ops (v_val v)"

definition Value_set :: "('p, 't) Atomic \<Rightarrow> 't \<Rightarrow> 'p ValueM \<Rightarrow> 'p ValueM" where
  "Value_set ops val v = v\<lparr>v_val := am_set ops val (v_val v)\<rparr>"

definition Value_inc_by :: "('p, 't) Atomic \<Rightarrow> 't \<Rightarrow> 'p ValueM \<Rightarrow> 'p ValueM" where
  "Value_inc_by ops val v = v\<lparr>v_val := am_inc_by ops val (v_val v)\<rparr>"

definition Value_dec_by :: "('p, 't) Atomic \<Rightarrow> 't \<Rightarrow> 'p ValueM \<Rightarrow> 'p ValueM" where
  "Value_dec_by ops val v = v\<lparr>v_val := am_dec_by ops val (v_val v)\<rparr>"

definition Value_inc :: "'t Number \<Rightarrow> ('p, 't) Atomic \<Rightarrow> 'p ValueM \<Rightarrow> 'p ValueM" where
  "Value_inc num ops v = Value_inc_by ops (nm_from_i64 num 1) v"

definition Value_dec :: "'t Number \<Rightarrow> ('p, 't) Atomic \<Rightarrow> 'p ValueM \<Rightarrow> 'p ValueM" where
  "Value_dec num ops v = Value_dec_by ops (nm_from_i64 num 1) v"

definition Value_metric :: "'t Number \<Rightarrow> ('p, 't) Atomic \<Rightarrow> 'p ValueM \<Rightarrow> Metric" where
  "Value_metric num ops v =
     (let m = Metric_default\<lparr>m_label := v_label_pairs v\<rparr>;
          val = nm_into_f64 num (Value_get ops v)
      in case v_val_type v of
           VCounter \<Rightarrow> m\<lparr>m_counter := \<lparr>counter_value = val\<rparr>\<rparr>
         | VGauge \<Rightarrow> m\<lparr>m_gauge := \<lparr>gauge_value = val\<rparr>\<rparr>)"

definition Value_collect :: "'t Number \<Rightarrow> ('p, 't) Atomic \<Rightarrow> 'p ValueM \<Rightarrow> MetricFamily" where
  "Value_collect num ops v =
     \<lparr>mf_name = d_fq_name (v_desc v), mf_help = d_help (v_desc v),
      mf_field_type = ValueType_metric_type (v_val_type v), mf_metric = [Value_metric num ops v]\<rparr>"

section \<open>Counters and gauges\<close>

definition GenericCounter_with_opts_and_label_values ::
  "(bytes \<Rightarrow> u64) \<Rightarrow> 't Number \<Rightarrow> ('p, 't) Atomic \<Rightarrow> Opts \<Rightarrow> string list \<Rightarrow> 'p ValueM PromResult" where
  "GenericCounter_with_opts_and_label_values fnv num ops opts label_values =
     Value_new ops (Opts_describe fnv opts) VCounter (nm_from_i64 num 0) label_values"

definition GenericCounter_with_opts ::
  "(bytes \<Rightarrow> u64) \<Rightarrow> 't Number \<Rightarrow> ('p, 't) Atomic \<Rightarrow> Opts \<Rightarrow> 'p ValueM PromResult" where
  "GenericCounter_with_opts fnv num ops opts =
     GenericCounter_with_opts_and_label_values fnv num ops opts []"

definition GenericCounter_new ::
  "(bytes \<Rightarrow> u64) \<Rightarrow> 't Number \<Rightarrow> ('p, 't) Atomic \<Rightarrow> string \<Rightarrow> string \<Rightarrow> 'p ValueM PromResult" where
  "GenericCounter_new fnv num ops name help = GenericCounter_with_opts fnv num ops (Opts_new name help)"

definition GenericCounter_inc_by :: "('p, 't) Atomic \<Rightarrow> 't \<Rightarrow> 'p ValueM \<Rightarrow> 'p ValueM" where
  "GenericCounter_inc_by ops v c = Value_inc_by ops v c"

definition GenericCounter_inc :: "'t Number \<Rightarrow> ('p, 't) Atomic \<Rightarrow> 'p ValueM \<Rightarrow> 'p ValueM" where
  "GenericCounter_inc num ops c = Value_inc num ops c"

definition GenericCounter_get :: "('p, 't) Atomic \<Rightarrow> 'p ValueM \<Rightarrow> 't" where
  "GenericCounter_get ops c = Value_get ops c"

definition GenericCounter_reset :: "'t Number \<Rightarrow> ('p, 't) Atomic \<Rightarrow> 'p ValueM \<Rightarrow> 'p ValueM" where
  "GenericCounter_reset num ops c = Value_set ops (nm_from_i64 num 0) c"

definition GenericCounter_set :: "('p, 't) Atomic \<Rightarrow> 't \<Rightarrow> 'p ValueM \<Rightarrow> 'p ValueM" where
  "GenericCounter_set ops v c = Value_set ops v c"

definition GenericGauge_with_opts_and_label_values ::
  "(bytes \<Rightarrow> u64) \<Rightarrow> 't Number \<Rightarrow> ('p, 't) Atomic \<Rightarrow> Opts \<Rightarrow> string list \<Rightarrow> 'p ValueM PromResult" where
  "GenericGauge_with_opts_and_label_values fnv num ops opts label_values =
     Value_new ops (Opts_describe fnv opts) VGauge (nm_from_i64 num 0) label_values"

definition GenericGauge_with_opts ::
  "(bytes \<Rightarrow> u64) \<Rightarrow> 't Number \<Rightarrow> ('p, 't) Atomic \<Rightarrow> Opts \<Rightarrow> 'p ValueM PromResult" where
  "GenericGauge_with_opts fnv num ops opts =
     GenericGauge_with_opts_and_label_values fnv num ops opts []"

definition GenericGauge_new ::
  "(bytes \<Rightarrow> u64) \<Rightarrow> 't Number \<Rightarrow> ('p, 't) Atomic \<Rightarrow> string \<Rightarrow> string \<Rightarrow> 'p ValueM PromResult" where
  "GenericGauge_new fnv num ops name help = GenericGauge_with_opts fnv num ops (Opts_new name help)"

definition GenericGauge_set :: "('p, 't) Atomic \<Rightarrow> 't \<Rightarrow> 'p ValueM \<Rightarrow> 'p ValueM" where
  "GenericGauge_set ops v g = Value_set ops v g"

definition GenericGauge_inc :: "'t Number \<Rightarrow> ('p, 't) Atomic \<Rightarrow> 'p ValueM \<Rightarrow> 'p ValueM" where
  "GenericGauge_inc num ops g = Value_inc num ops g"

definition GenericGauge_dec :: "'t Number \<Rightarrow> ('p, 't) Atomic \<Rightarrow> 'p ValueM \<Rightarrow> 'p ValueM" where
  "GenericGauge_dec num ops g = Value_dec num ops g"

definition GenericGauge_add :: "('p, 't) Atomic \<Rightarrow> 't \<Rightarrow> 'p ValueM \<Rightarrow> 'p ValueM" where
  "GenericGauge_add ops v g = Value_inc_by ops v g"

definition GenericGauge_sub :: "('p, 't) Atomic \<Rightarrow> 't \<Rightarrow> 'p ValueM \<Rightarrow> 'p ValueM" where
  "GenericGauge_sub ops v g = Value_dec_by ops v g"

definition GenericGauge_get :: "('p, 't) Atomic \<Rightarrow> 'p ValueM \<Rightarrow> 't" where
  "GenericGauge_get ops g = Value_get ops g"

text \<open>\<open>Collector\<close>, for both.\<close>

definition Value_describe :: "'p ValueM \<Rightarrow> Desc list" where
  "Value_describe v = [v_desc v]"

definition Value_collector :: "'t Number \<Rightarrow> ('p, 't) Atomic \<Rightarrow> 'p ValueM \<Rightarrow> MetricFamily list" where
  "Value_collector num ops v = [Value_collect num ops v]"

section \<open>Local counters\<close>

text \<open>
  A local counter holds the increments that its thread has not flushed to the shared counter.
  The functions take the shared counter as an argument.
\<close>

datatype 't GenericLocalCounter = LocalCounter (lc_val: 't)

definition GenericLocalCounter_new :: "'t Number \<Rightarrow> 't GenericLocalCounter" where
  "GenericLocalCounter_new num = LocalCounter (nm_from_i64 num 0)"

definition GenericLocalCounter_inc_by ::
  "'t Number \<Rightarrow> 't \<Rightarrow> 't GenericLocalCounter \<Rightarrow> 't GenericLocalCounter" where
  "GenericLocalCounter_inc_by num v l = LocalCounter (nm_add num (lc_val l) v)"

definition GenericLocalCounter_inc :: "'t Number \<Rightarrow> 't GenericLocalCounter \<Rightarrow> 't GenericLocalCounter" where
  "GenericLocalCounter_inc num l = LocalCounter (nm_add num (lc_val l) (nm_from_i64 num 1))"

definition GenericLocalCounter_get :: "'t GenericLocalCounter \<Rightarrow> 't" where
  "GenericLocalCounter_get l = lc_val l"

definition GenericLocalCounter_reset :: "'t Number \<Rightarrow> 't GenericLocalCounter \<Rightarrow> 't GenericLocalCounter" where
  "GenericLocalCounter_reset num l = LocalCounter (nm_from_i64 num 0)"

definition GenericLocalCounter_flush ::
  "'t Number \<Rightarrow> ('p, 't) Atomic \<Rightarrow> 't GenericLocalCounter \<Rightarrow> 'p ValueM \<Rightarrow> 't GenericLocalCounter \<times> 'p ValueM" where
  "GenericLocalCounter_flush num ops l c =
     (if lc_val l = nm_from_i64 num 0 then (l, c)
      else (LocalCounter (nm_from_i64 num 0), GenericCounter_inc_by ops (lc_val l) c))"

section \<open>Lemmas\<close>

lemma make_label_pairs_Inr:
  "make_label_pairs desc vals = Inr pairs \<Longrightarrow>
     length (d_variable_labels desc) = length vals \<and>
     mset pairs = mset (map (\<lambda>(n, v). \<lparr>lp_name = n, lp_value = v\<rparr>) (zip (d_variable_labels desc) vals)) +
       mset (d_const_label_pairs desc)"
  by (auto simp: make_label_pairs_def split: if_splits)

lemma make_label_pairs_card:
  "length (d_variable_labels desc) = length vals \<Longrightarrow> \<exists>pairs. make_label_pairs desc vals = Inr pairs"
  by (auto simp: make_label_pairs_def)

lemma Value_new_Inr:
  "Value_new ops described ty val vals = Inr v \<Longrightarrow>
     described = Inr (v_desc v) \<and> v_val v = am_new ops val \<and> v_val_type v = ty \<and>
     make_label_pairs (v_desc v) vals = Inr (v_label_pairs v)"
  by (auto simp: Value_new_def bind_res_Inr_iff)

lemma Value_desc_simps [simp]:
  "v_desc (Value_set ops x v) = v_desc v"
  "v_desc (Value_inc_by ops x v) = v_desc v"
  "v_desc (Value_dec_by ops x v) = v_desc v"
  by (simp_all add: Value_set_def Value_inc_by_def Value_dec_by_def)

context atomic_number
begin

lemma Value_get_set: "Value_get ops (Value_set ops x v) = x"
  by (simp add: Value_get_def Value_set_def get_set)

lemma Value_get_inc: "Value_get ops (Value_inc_by ops x v) = nm_add num (Value_get ops v) x"
  by (simp add: Value_get_def Value_inc_by_def get_inc)

lemma Value_get_dec: "Value_get ops (Value_dec_by ops x v) = nm_add num (Value_get ops v) (neg x)"
  by (simp add: Value_get_def Value_dec_by_def get_dec)

end

text \<open>
  Many threads count through local counters: each step increments one local counter, flushes
  one, or increments the shared counter. Nothing is lost or counted twice, modulo \<open>2 ^ 64\<close>.
\<close>

datatype local_op = LocalInc nat u64 | LocalFlush nat | SharedInc u64

fun local_step ::
  "local_op \<Rightarrow> u64 GenericLocalCounter list \<times> AtomicU64 ValueM
    \<Rightarrow> u64 GenericLocalCounter list \<times> AtomicU64 ValueM" where
  "local_step (LocalInc i v) (ls, c) =
     (if i < length ls then (ls[i := GenericLocalCounter_inc_by number_u64 v (ls ! i)], c) else (ls, c))"
| "local_step (LocalFlush i) (ls, c) =
     (if i < length ls
      then (case GenericLocalCounter_flush number_u64 atomic_u64 (ls ! i) c of
              (l, c') \<Rightarrow> (ls[i := l], c'))
      else (ls, c))"
| "local_step (SharedInc v) (ls, c) = (ls, GenericCounter_inc_by atomic_u64 v c)"

fun op_amount :: "nat \<Rightarrow> local_op \<Rightarrow> u64" where
  "op_amount n (LocalInc i v) = (if i < n then v else 0)"
| "op_amount n (LocalFlush i) = 0"
| "op_amount n (SharedInc v) = v"

definition counted :: "u64 GenericLocalCounter list \<times> AtomicU64 ValueM \<Rightarrow> u64" where
  "counted s = sum_list (map lc_val (fst s)) + GenericCounter_get atomic_u64 (snd s)"

lemma sum_list_map_update:
  fixes f :: "'a \<Rightarrow> 'b::ab_group_add"
  shows "i < length xs \<Longrightarrow> sum_list (map f (xs[i := x])) = sum_list (map f xs) - f (xs ! i) + f x"
  by (induction xs arbitrary: i) (auto simp: nth_Cons' algebra_simps split: nat.splits)

lemma local_step_counted:
  "counted (local_step op s) = counted s + op_amount (length (fst s)) op \<and>
   length (fst (local_step op s)) = length (fst s)"
  by (cases s; cases op)
    (auto simp: counted_def sum_list_map_update GenericLocalCounter_inc_by_def number_u64_def
      GenericLocalCounter_flush_def GenericCounter_get_def GenericCounter_inc_by_def
      au64.Value_get_inc [unfolded number_u64_def, simplified])

lemma local_run_counted:
  "counted (fold local_step ops s) = counted s + sum_list (map (op_amount (length (fst s))) ops)"
proof (induction ops arbitrary: s)
  case Nil
  then show ?case by simp
next
  case (Cons op ops)
  from Cons [of "local_step op s"] local_step_counted [of op s] show ?case
    by (simp add: algebra_simps)
qed

end
