(* ===== verification/Metric_Histogram.thy ===== *)
theory Metric_Histogram
  imports Metric_Value
begin

text \<open>
  Histograms (\<open>src/prometheus/src/histogram.rs\<close>): buckets, the two shards with the word that
  tells the hot one and counts the observations, the operations as sequences of atomic
  accesses, and the step relation in which observers and one collector at a time (it holds the
  lock) interleave them. Memory is sequentially consistent in the model.
\<close>

section \<open>Buckets\<close>

definition DEFAULT_BUCKETS :: "f64 list" where
  "DEFAULT_BUCKETS = map rnd
     [5 / 1000, 1 / 100, 25 / 1000, 5 / 100, 1 / 10, 25 / 100, 5 / 10, 1, 25 / 10, 5, 10]"

definition BUCKET_LABEL :: string where
  "BUCKET_LABEL = ''le''"

definition check_bucket_label :: "string \<Rightarrow> unit PromResult" where
  "check_bucket_label label =
     (if label = BUCKET_LABEL then Inl (Msg ''`le` is not allowed as label name in histograms'')
      else Inr ())"

text \<open>The text of an error message that shows numbers is given by \<open>show\<close>.\<close>

fun check_increasing :: "(f64 \<Rightarrow> string) \<Rightarrow> f64 list \<Rightarrow> unit PromResult" where
  "check_increasing show (b # c # buckets) =
     (if f64_le c b
      then Inl (Msg (''histogram buckets must be in increasing order: '' @ show b @ '' >= '' @ show c))
      else check_increasing show (c # buckets))"
| "check_increasing show _ = Inr ()"

definition check_and_adjust_buckets :: "(f64 \<Rightarrow> string) \<Rightarrow> f64 list \<Rightarrow> f64 list PromResult" where
  "check_and_adjust_buckets show buckets0 =
     (let buckets = (if buckets0 = [] then DEFAULT_BUCKETS else buckets0) in
      bind_res (check_increasing show buckets) (\<lambda>_.
        Inr (if last buckets = PInf then butlast buckets else buckets)))"

definition linear_buckets :: "(nat \<Rightarrow> string) \<Rightarrow> (f64 \<Rightarrow> string) \<Rightarrow> f64 \<Rightarrow> f64 \<Rightarrow> nat \<Rightarrow> f64 list PromResult" where
  "linear_buckets shown show start width num =
     (if num < 1
      then Inl (Msg (''LinearBuckets needs a positive count, count: '' @ shown num))
      else if f64_le width (Fin 0)
      then Inl (Msg (''LinearBuckets needs a width greater then 0, width: '' @ show width))
      else Inr (map (\<lambda>step. f64_add start (f64_mul width (f64_of_nat step))) [0..<num]))"

fun push_buckets :: "nat \<Rightarrow> f64 \<Rightarrow> f64 \<Rightarrow> f64 list" where
  "push_buckets 0 factor next_bound = []"
| "push_buckets (Suc n) factor next_bound =
     next_bound # push_buckets n factor (f64_mul next_bound factor)"

definition exponential_buckets ::
  "(nat \<Rightarrow> string) \<Rightarrow> (f64 \<Rightarrow> string) \<Rightarrow> f64 \<Rightarrow> f64 \<Rightarrow> nat \<Rightarrow> f64 list PromResult" where
  "exponential_buckets shown show start factor num =
     (if num < 1
      then Inl (Msg (''exponential_buckets needs a positive count, count: '' @ shown num))
      else if f64_le start (Fin 0)
      then Inl (Msg (''exponential_buckets needs a positive start value, start: '' @ show start))
      else if f64_le factor (Fin 1)
      then Inl (Msg (''exponential_buckets needs a factor greater than 1, factor: '' @ show factor))
      else Inr (push_buckets num factor start))"

record HistogramOpts =
  ho_common_opts :: Opts
  ho_buckets :: "f64 list"

definition HistogramOpts_new :: "string \<Rightarrow> string \<Rightarrow> HistogramOpts" where
  "HistogramOpts_new name help =
     \<lparr>ho_common_opts = Opts_new name help, ho_buckets = DEFAULT_BUCKETS\<rparr>"

section \<open>Shards\<close>

record Shard =
  sh_sum :: f64
  sh_count :: u64
  sh_buckets :: "u64 list"

definition Shard_new :: "nat \<Rightarrow> Shard" where
  "Shard_new num_buckets = \<lparr>sh_sum = Fin 0, sh_count = 0, sh_buckets = replicate num_buckets 0\<rparr>"

datatype ShardIndex = First | Second

fun inverse_shard :: "ShardIndex \<Rightarrow> ShardIndex" where
  "inverse_shard First = Second"
| "inverse_shard Second = First"

text \<open>\<open>None\<close> is the panic on another index.\<close>

definition ShardIndex_from :: "u64 \<Rightarrow> ShardIndex option" where
  "ShardIndex_from index = (if index = 0 then Some First else if index = 1 then Some Second else None)"

definition split_shard_index_and_count :: "u64 \<Rightarrow> (ShardIndex \<times> u64) option" where
  "split_shard_index_and_count n =
     (let shard = drop_bit 63 n; count = and n (push_bit 63 1 - 1)
      in map_option (\<lambda>s. (s, count)) (ShardIndex_from shard))"

text \<open>The operations of \<open>ShardAndCount\<close> return the split of the word they found.\<close>

definition sac_flip :: "u64 \<Rightarrow> (ShardIndex \<times> u64) option \<times> u64" where
  "sac_flip n = (split_shard_index_and_count n, n + push_bit 63 1)"

definition sac_get :: "u64 \<Rightarrow> (ShardIndex \<times> u64) option" where
  "sac_get n = split_shard_index_and_count n"

definition sac_inc_by :: "u64 \<Rightarrow> u64 \<Rightarrow> (ShardIndex \<times> u64) option \<times> u64" where
  "sac_inc_by delta n = (split_shard_index_and_count n, n + delta)"

record HistogramCore =
  hc_desc :: Desc
  hc_label_pairs :: "LabelPair list"
  hc_shard_and_count :: u64
  hc_shards :: "ShardIndex \<Rightarrow> Shard"
  hc_upper_bounds :: "f64 list"

fun check_labels :: "string list \<Rightarrow> unit PromResult" where
  "check_labels [] = Inr ()"
| "check_labels (name # names) = bind_res (check_bucket_label name) (\<lambda>_. check_labels names)"

definition HistogramCore_new ::
  "(bytes \<Rightarrow> u64) \<Rightarrow> (f64 \<Rightarrow> string) \<Rightarrow> HistogramOpts \<Rightarrow> string list \<Rightarrow> HistogramCore PromResult" where
  "HistogramCore_new fnv show opts label_values =
     bind_res (Opts_describe fnv (ho_common_opts opts)) (\<lambda>desc.
     bind_res (check_labels (d_variable_labels desc)) (\<lambda>_.
     bind_res (check_labels (map lp_name (d_const_label_pairs desc))) (\<lambda>_.
     bind_res (make_label_pairs desc label_values) (\<lambda>label_pairs.
     bind_res (check_and_adjust_buckets show (ho_buckets opts)) (\<lambda>buckets.
       Inr \<lparr>hc_desc = desc, hc_label_pairs = label_pairs, hc_shard_and_count = 0,
            hc_shards = (\<lambda>_. Shard_new (length buckets)), hc_upper_bounds = buckets\<rparr>)))))"

section \<open>Observing\<close>

text \<open>The first bucket whose upper bound is not below the value.\<close>

fun find_bucket_from :: "nat \<Rightarrow> f64 list \<Rightarrow> f64 \<Rightarrow> nat option" where
  "find_bucket_from i [] v = None"
| "find_bucket_from i (f # bounds) v =
     (if f64_le v f then Some i else find_bucket_from (Suc i) bounds v)"

definition find_bucket :: "f64 list \<Rightarrow> f64 \<Rightarrow> nat option" where
  "find_bucket bounds v = find_bucket_from 0 bounds v"

text \<open>The atomic accesses to a shard.\<close>

datatype shard_action = BucketInc nat u64 | SumInc f64 | CountInc u64

fun shard_apply :: "shard_action \<Rightarrow> Shard \<Rightarrow> Shard" where
  "shard_apply (BucketInc i k) s = s\<lparr>sh_buckets := (sh_buckets s)[i := sh_buckets s ! i + k]\<rparr>"
| "shard_apply (SumInc v) s = s\<lparr>sh_sum := f64_add (sh_sum s) v\<rparr>"
| "shard_apply (CountInc n) s = s\<lparr>sh_count := sh_count s + n\<rparr>"

text \<open>What \<open>observe\<close> does to the shard that its \<open>inc\<close> returned.\<close>

definition observe_actions :: "f64 list \<Rightarrow> f64 \<Rightarrow> shard_action list" where
  "observe_actions bounds v =
     (case find_bucket bounds v of None \<Rightarrow> [] | Some i \<Rightarrow> [BucketInc i 1]) @
     [SumInc v, CountInc 1]"

text \<open>\<open>observe\<close> without interference; \<open>None\<close> is the panic.\<close>

definition run_actions :: "ShardIndex \<Rightarrow> shard_action list \<Rightarrow> HistogramCore \<Rightarrow> HistogramCore" where
  "run_actions idx acts core =
     core\<lparr>hc_shards := (hc_shards core)(idx := fold shard_apply acts (hc_shards core idx))\<rparr>"

definition observe :: "f64 \<Rightarrow> HistogramCore \<Rightarrow> HistogramCore option" where
  "observe v core =
     (case sac_inc_by 1 (hc_shard_and_count core) of (found, n) \<Rightarrow>
        map_option (\<lambda>(idx, _). run_actions idx (observe_actions (hc_upper_bounds core) v)
          (core\<lparr>hc_shard_and_count := n\<rparr>)) found)"

section \<open>Local histograms\<close>

record LocalHistogramCore =
  lh_counts :: "u64 list"
  lh_count :: u64
  lh_sum :: f64

definition LocalHistogramCore_new :: "HistogramCore \<Rightarrow> LocalHistogramCore" where
  "LocalHistogramCore_new core =
     \<lparr>lh_counts = replicate (length (hc_upper_bounds core)) 0, lh_count = 0, lh_sum = Fin 0\<rparr>"

definition local_observe :: "f64 list \<Rightarrow> f64 \<Rightarrow> LocalHistogramCore \<Rightarrow> LocalHistogramCore" where
  "local_observe bounds v l =
     (let l1 = (case find_bucket bounds v of
                  None \<Rightarrow> l
                | Some i \<Rightarrow> l\<lparr>lh_counts := (lh_counts l)[i := lh_counts l ! i + 1]\<rparr>)
      in l1\<lparr>lh_count := lh_count l1 + 1, lh_sum := f64_add (lh_sum l1) v\<rparr>)"

definition local_clear :: "LocalHistogramCore \<Rightarrow> LocalHistogramCore" where
  "local_clear l = l\<lparr>lh_counts := map (\<lambda>_. 0) (lh_counts l), lh_count := 0, lh_sum := Fin 0\<rparr>"

definition local_clone :: "LocalHistogramCore \<Rightarrow> LocalHistogramCore" where
  "local_clone l = local_clear l"

text \<open>What \<open>flush\<close> does to the shard that its \<open>inc_by\<close> returned.\<close>

fun bucket_incs :: "nat \<Rightarrow> u64 list \<Rightarrow> shard_action list" where
  "bucket_incs i [] = []"
| "bucket_incs i (v # counts) =
     (if v > 0 then BucketInc i v # bucket_incs (Suc i) counts else bucket_incs (Suc i) counts)"

definition flush_actions :: "LocalHistogramCore \<Rightarrow> shard_action list" where
  "flush_actions l = bucket_incs 0 (lh_counts l) @ [SumInc (lh_sum l), CountInc (lh_count l)]"

definition local_flush ::
  "LocalHistogramCore \<Rightarrow> HistogramCore \<Rightarrow> (LocalHistogramCore \<times> HistogramCore) option" where
  "local_flush l core =
     (if lh_count l = 0 then Some (l, core)
      else
        (case sac_inc_by (lh_count l) (hc_shard_and_count core) of (found, n) \<Rightarrow>
           map_option (\<lambda>(idx, _). (local_clear l,
               run_actions idx (flush_actions l) (core\<lparr>hc_shard_and_count := n\<rparr>))) found))"

section \<open>Steps\<close>

text \<open>
  The collector's place in \<open>proto\<close>. After the flip it knows the cold shard and the overall
  count; after the swap of the sum, the cold sum. \<open>Buckets\<close> holds the index, the count swapped
  out of the cold bucket and not yet added to the hot one, the cumulative count and the
  buckets so far.
\<close>

datatype collect_phase =
    Idle
  | Locked
  | Waiting ShardIndex u64
  | Drained ShardIndex u64
  | Buckets ShardIndex u64 f64 nat "u64 option" u64 "Bucket list"
  | AddCount ShardIndex u64 f64 "Bucket list"
  | AddSum ShardIndex u64 f64 "Bucket list"
  | Unlocking ProtoHistogram

text \<open>An observer knows its shard and has some accesses left.\<close>

datatype observer = Obs ShardIndex "shard_action list"

text \<open>
  Besides the histogram and the threads, the system remembers what was started, in order, and
  how many operations were started when the shards were last flipped, for the statements.
\<close>

record hist_sys =
  hs_core :: HistogramCore
  hs_threads :: "observer list"
  hs_phase :: collect_phase
  hs_started :: "(u64 \<times> shard_action list) list"
  hs_flip_at :: nat

definition upd_shard :: "ShardIndex \<Rightarrow> (Shard \<Rightarrow> Shard) \<Rightarrow> hist_sys \<Rightarrow> hist_sys" where
  "upd_shard idx f s =
     s\<lparr>hs_core := (hs_core s)\<lparr>hc_shards := (hc_shards (hs_core s))(idx := f (hc_shards (hs_core s) idx))\<rparr>\<rparr>"

definition shard :: "hist_sys \<Rightarrow> ShardIndex \<Rightarrow> Shard" where
  "shard s idx = hc_shards (hs_core s) idx"

definition begin_op :: "u64 \<Rightarrow> shard_action list \<Rightarrow> hist_sys \<Rightarrow> hist_sys option" where
  "begin_op n acts s =
     (case sac_inc_by n (hc_shard_and_count (hs_core s)) of (found, sac) \<Rightarrow>
        map_option (\<lambda>(idx, _).
          s\<lparr>hs_core := (hs_core s)\<lparr>hc_shard_and_count := sac\<rparr>,
            hs_threads := hs_threads s @ [Obs idx acts],
            hs_started := hs_started s @ [(n, acts)]\<rparr>) found)"

definition swap_bucket :: "nat \<Rightarrow> Shard \<Rightarrow> Shard" where
  "swap_bucket i s = s\<lparr>sh_buckets := (sh_buckets s)[i := 0]\<rparr>"

text \<open>
  The next access of the collector; \<open>None\<close> where it waits: for the lock in \<open>Idle\<close>, or in the
  loop on the cold count, whose exchange has failed.
\<close>

definition collect_step :: "hist_sys \<Rightarrow> hist_sys option" where
  "collect_step s =
     (let bounds = hc_upper_bounds (hs_core s) in
      case hs_phase s of
        Idle \<Rightarrow> None
      | Locked \<Rightarrow>
          (case sac_flip (hc_shard_and_count (hs_core s)) of (found, sac) \<Rightarrow>
             map_option (\<lambda>(cold, overall).
               s\<lparr>hs_core := (hs_core s)\<lparr>hc_shard_and_count := sac\<rparr>,
                 hs_phase := Waiting cold overall, hs_flip_at := length (hs_started s)\<rparr>) found)
      | Waiting cold overall \<Rightarrow>
          if sh_count (shard s cold) = overall
          then Some ((upd_shard cold (\<lambda>x. x\<lparr>sh_count := 0\<rparr>) s)\<lparr>hs_phase := Drained cold overall\<rparr>)
          else None
      | Drained cold overall \<Rightarrow>
          Some ((upd_shard cold (\<lambda>x. x\<lparr>sh_sum := Fin 0\<rparr>) s)
            \<lparr>hs_phase := Buckets cold overall (sh_sum (shard s cold)) 0 None 0 []\<rparr>)
      | Buckets cold overall sm i None cum acc \<Rightarrow>
          if i < length bounds
          then Some ((upd_shard cold (swap_bucket i) s)
            \<lparr>hs_phase := Buckets cold overall sm i (Some (sh_buckets (shard s cold) ! i)) cum acc\<rparr>)
          else Some (s\<lparr>hs_phase := AddCount cold overall sm acc\<rparr>)
      | Buckets cold overall sm i (Some k) cum acc \<Rightarrow>
          Some ((upd_shard (inverse_shard cold) (shard_apply (BucketInc i k)) s)
            \<lparr>hs_phase := Buckets cold overall sm (Suc i) None (cum + k)
               (acc @ [\<lparr>b_cumulative_count = cum + k, b_upper_bound = bounds ! i\<rparr>])\<rparr>)
      | AddCount cold overall sm acc \<Rightarrow>
          Some ((upd_shard (inverse_shard cold) (shard_apply (CountInc overall)) s)
            \<lparr>hs_phase := AddSum cold overall sm acc\<rparr>)
      | AddSum cold overall sm acc \<Rightarrow>
          Some ((upd_shard (inverse_shard cold) (shard_apply (SumInc sm)) s)
            \<lparr>hs_phase := Unlocking
               \<lparr>ph_sample_count = overall, ph_sample_sum = sm, ph_bucket = acc\<rparr>\<rparr>)
      | Unlocking h \<Rightarrow> Some (s\<lparr>hs_phase := Idle\<rparr>))"

inductive hist_step :: "hist_sys \<Rightarrow> hist_sys \<Rightarrow> bool" where
  start_observe:
    "begin_op 1 (observe_actions (hc_upper_bounds (hs_core s)) v) s = Some s' \<Longrightarrow> hist_step s s'"
| start_flush:
    "lh_count l \<noteq> 0 \<Longrightarrow> length (lh_counts l) = length (hc_upper_bounds (hs_core s)) \<Longrightarrow>
     begin_op (lh_count l) (flush_actions l) s = Some s' \<Longrightarrow> hist_step s s'"
| access:
    "i < length (hs_threads s) \<Longrightarrow> hs_threads s ! i = Obs idx (a # acts) \<Longrightarrow>
     hist_step s ((upd_shard idx (shard_apply a) s)\<lparr>hs_threads := (hs_threads s)[i := Obs idx acts]\<rparr>)"
| lock: "hs_phase s = Idle \<Longrightarrow> hist_step s (s\<lparr>hs_phase := Locked\<rparr>)"
| collect: "collect_step s = Some s' \<Longrightarrow> hist_step s s'"

definition hist_start :: "HistogramCore \<Rightarrow> hist_sys" where
  "hist_start core =
     \<lparr>hs_core = core, hs_threads = [], hs_phase = Idle, hs_started = [], hs_flip_at = 0\<rparr>"

inductive hist_reach :: "HistogramCore \<Rightarrow> hist_sys \<Rightarrow> bool" for core0 where
  start: "hist_reach core0 (hist_start core0)"
| more: "hist_reach core0 s \<Longrightarrow> hist_step s s' \<Longrightarrow> hist_reach core0 s'"

section \<open>Reading\<close>

text \<open>\<open>sample_sum\<close> holds the lock: it reads when no collect is under way.\<close>

definition sample_sum :: "hist_sys \<Rightarrow> f64 option" where
  "sample_sum s =
     (if hs_phase s = Idle
      then map_option (\<lambda>(idx, _). sh_sum (shard s idx)) (sac_get (hc_shard_and_count (hs_core s)))
      else None)"

definition sample_count :: "hist_sys \<Rightarrow> u64 option" where
  "sample_count s = map_option snd (sac_get (hc_shard_and_count (hs_core s)))"

text \<open>\<open>proto\<close> without interference: the accesses of the collector from the lock to the unlock.\<close>

fun collect_run :: "nat \<Rightarrow> hist_sys \<Rightarrow> (ProtoHistogram \<times> hist_sys) option" where
  "collect_run 0 s = None"
| "collect_run (Suc n) s =
     (case hs_phase s of
        Unlocking h \<Rightarrow> Some (h, s\<lparr>hs_phase := Idle\<rparr>)
      | _ \<Rightarrow> (case collect_step s of None \<Rightarrow> None | Some s' \<Rightarrow> collect_run n s'))"

text \<open>
  \<open>proto\<close> on a histogram that no thread is using. Of the fuel, a step is spent per access: five
  and two for each bucket.
\<close>

definition proto :: "HistogramCore \<Rightarrow> (ProtoHistogram \<times> HistogramCore) option" where
  "proto core =
     map_option (\<lambda>(h, s). (h, hs_core s))
       (collect_run (2 * length (hc_upper_bounds core) + 7) ((hist_start core)\<lparr>hs_phase := Locked\<rparr>))"

definition Histogram_metric :: "HistogramCore \<Rightarrow> (Metric \<times> HistogramCore) option" where
  "Histogram_metric core =
     map_option (\<lambda>(h, core'). (Metric_default\<lparr>m_label := hc_label_pairs core, m_histogram := h\<rparr>, core'))
       (proto core)"

definition Histogram_collect :: "HistogramCore \<Rightarrow> (MetricFamily list \<times> HistogramCore) option" where
  "Histogram_collect core =
     map_option (\<lambda>(m, core').
       ([\<lparr>mf_name = d_fq_name (hc_desc core), mf_help = d_help (hc_desc core),
          mf_field_type = HISTOGRAM, mf_metric = [m]\<rparr>], core')) (Histogram_metric core)"

section \<open>Timers\<close>

text \<open>A timer reports the seconds since its start and observes them at most once.\<close>

definition duration_to_seconds :: "nat \<Rightarrow> f64" where
  "duration_to_seconds nanos =
     f64_add (f64_of_nat (nanos div 1000000000))
       (f64_div (f64_of_nat (nanos mod 1000000000)) (f64_of_nat 1000000000))"

definition elapsed_sec :: "nat \<Rightarrow> nat \<Rightarrow> f64" where
  "elapsed_sec start now = duration_to_seconds (now - start)"

record HistogramTimer =
  ht_observed :: bool
  ht_start :: nat

definition timer_observe ::
  "bool \<Rightarrow> nat \<Rightarrow> HistogramTimer \<Rightarrow> HistogramCore \<Rightarrow> (f64 \<times> HistogramTimer \<times> HistogramCore) option" where
  "timer_observe record_it now t core =
     (let v = elapsed_sec (ht_start t) now; t' = t\<lparr>ht_observed := True\<rparr>
      in if record_it then map_option (\<lambda>core'. (v, t', core')) (observe v core)
         else Some (v, t', core))"

definition timer_drop :: "nat \<Rightarrow> HistogramTimer \<Rightarrow> HistogramCore \<Rightarrow> HistogramCore option" where
  "timer_drop now t core =
     (if \<not> ht_observed t then map_option (\<lambda>(_, _, c). c) (timer_observe True now t core)
      else Some core)"

text \<open>Stopping consumes the timer: the drop follows, at the time \<open>later\<close>.\<close>

definition timer_stop ::
  "bool \<Rightarrow> nat \<Rightarrow> nat \<Rightarrow> HistogramTimer \<Rightarrow> HistogramCore \<Rightarrow> (f64 \<times> HistogramCore) option" where
  "timer_stop record_it now later t core =
     (case timer_observe record_it now t core of
        None \<Rightarrow> None
      | Some (v, t', core') \<Rightarrow> map_option (\<lambda>c. (v, c)) (timer_drop later t' core'))"

end
