(* ===== verification/Metric_Histogram_Spec.thy ===== *)
theory Metric_Histogram_Spec
  imports Metric_Histogram
begin

text \<open>
  What a histogram promises: a collect returns a snapshot that is consistent although
  observers run beside it. The invariant gives, for each shard, the accesses executed on it
  since it was empty, in every phase of the collector.
\<close>

section \<open>Totals of accesses\<close>

fun act_bucket :: "nat \<Rightarrow> shard_action \<Rightarrow> u64" where
  "act_bucket i (BucketInc j k) = (if j = i then k else 0)"
| "act_bucket i _ = 0"

fun act_count :: "shard_action \<Rightarrow> nat" where
  "act_count (CountInc n) = unat n"
| "act_count _ = 0"

fun act_sum :: "shard_action \<Rightarrow> f64 multiset" where
  "act_sum (SumInc v) = {#v#}"
| "act_sum _ = {#}"

definition bsum :: "shard_action multiset \<Rightarrow> nat \<Rightarrow> u64" where
  "bsum M i = (\<Sum>a\<in>#M. act_bucket i a)"

definition csum :: "shard_action multiset \<Rightarrow> nat" where
  "csum M = (\<Sum>a\<in>#M. act_count a)"

definition ssum :: "shard_action multiset \<Rightarrow> f64 multiset" where
  "ssum M = (\<Sum>a\<in>#M. act_sum a)"

lemma total_simps [simp]:
  "bsum {#} i = 0" "bsum (add_mset a M) i = act_bucket i a + bsum M i" "bsum (M + N) i = bsum M i + bsum N i"
  "csum {#} = 0" "csum (add_mset a M) = act_count a + csum M" "csum (M + N) = csum M + csum N"
  "ssum {#} = {#}" "ssum (add_mset a M) = act_sum a + ssum M" "ssum (M + N) = ssum M + ssum N"
  by (simp_all add: bsum_def csum_def ssum_def)

text \<open>
  A floating-point sum of some numbers, in any order and grouping: the sum of a snapshot is
  not determined more closely than that.
\<close>

inductive f64_sum :: "f64 multiset \<Rightarrow> f64 \<Rightarrow> bool" where
  zero: "f64_sum {#} (Fin 0)"
| one: "f64_sum {#v#} v"
| plus: "f64_sum A x \<Longrightarrow> f64_sum B y \<Longrightarrow> f64_sum (A + B) (f64_add x y)"

lemma f64_sum_add1: "f64_sum A x \<Longrightarrow> f64_sum (add_mset v A) (f64_add x v)"
  using f64_sum.plus [OF _ f64_sum.one [of v], of A x] by simp

section \<open>The state of a shard\<close>

definition rep :: "nat \<Rightarrow> Shard \<Rightarrow> (nat \<Rightarrow> u64) \<Rightarrow> nat \<Rightarrow> f64 multiset \<Rightarrow> bool" where
  "rep nb sh B C S \<longleftrightarrow>
     length (sh_buckets sh) = nb \<and> (\<forall>j < nb. sh_buckets sh ! j = B j) \<and> unat (sh_count sh) = C \<and>
     f64_sum S (sh_sum sh)"

fun action_ok :: "nat \<Rightarrow> shard_action \<Rightarrow> bool" where
  "action_ok nb (BucketInc i k) = (i < nb)"
| "action_ok nb _ = True"

lemma rep_apply:
  assumes "rep nb sh (\<lambda>j. bsum M j + X j) (csum M + Y) (ssum M + Z)"
    and "action_ok nb a" and "csum M + Y + act_count a < 2 ^ 64"
  shows "rep nb (shard_apply a sh) (\<lambda>j. bsum (add_mset a M) j + X j) (csum (add_mset a M) + Y)
    (ssum (add_mset a M) + Z)"
proof (cases a)
  case (BucketInc i k)
  with assms show ?thesis by (auto simp: rep_def nth_list_update)
next
  case (SumInc v)
  with assms show ?thesis by (auto simp: rep_def dest: f64_sum_add1 [where v = v])
next
  case (CountInc n)
  with assms show ?thesis
    by (auto simp: rep_def unat_word_ariths(1))
qed

section \<open>Observers\<close>

definition acts_ok :: "nat \<Rightarrow> shard_action list \<Rightarrow> bool" where
  "acts_ok nb acts \<longleftrightarrow>
     list_all (action_ok nb) acts \<and> (acts \<noteq> [] \<longrightarrow> (\<exists>n. n \<noteq> 0 \<and> last acts = CountInc n))"

lemma acts_ok_tail: "acts_ok nb (a # acts) \<Longrightarrow> acts_ok nb acts"
  by (cases acts) (auto simp: acts_ok_def)

lemma acts_ok_count: "acts_ok nb acts \<Longrightarrow> acts \<noteq> [] \<Longrightarrow> csum (mset acts) > 0"
proof -
  assume ok: "acts_ok nb acts" and ne: "acts \<noteq> []"
  then obtain n where n: "n \<noteq> 0" "last acts = CountInc n" by (auto simp: acts_ok_def)
  have "mset acts = add_mset (last acts) (mset (butlast acts))"
    using ne by (metis append_butlast_last_id mset.simps(2) mset_append union_mset_add_mset_right
        add.right_neutral mset.simps(1))
  with n show ?thesis by (simp add: unat_gt_0)
qed

fun obs_actions :: "ShardIndex \<Rightarrow> observer \<Rightarrow> shard_action list" where
  "obs_actions idx (Obs j acts) = (if j = idx then acts else [])"

definition pending :: "ShardIndex \<Rightarrow> observer list \<Rightarrow> shard_action multiset" where
  "pending idx ths = (\<Sum>t\<leftarrow>ths. mset (obs_actions idx t))"

lemma pending_append [simp]: "pending idx (ths @ ths') = pending idx ths + pending idx ths'"
  by (simp add: pending_def)

lemma pending_update:
  "i < length ths \<Longrightarrow>
     pending idx ths + mset (obs_actions idx t) = pending idx (ths[i := t]) + mset (obs_actions idx (ths ! i))"
  unfolding pending_def by (induction ths arbitrary: i) (auto simp: nth_Cons' split: nat.splits)

lemma pending_access:
  assumes "i < length ths" and "ths ! i = Obs idx (a # acts)"
  shows "pending idx ths = add_mset a (pending idx (ths[i := Obs idx acts]))"
    and "j \<noteq> idx \<Longrightarrow> pending j (ths[i := Obs idx acts]) = pending j ths"
  using pending_update [OF assms(1), of idx "Obs idx acts"]
    pending_update [OF assms(1), of j "Obs idx acts"] assms(2) by auto

fun thread_ok :: "nat \<Rightarrow> observer \<Rightarrow> bool" where
  "thread_ok nb (Obs j acts) = acts_ok nb acts"

lemma pending_zero:
  assumes "list_all (thread_ok nb) ths" and "csum (pending idx ths) = 0"
  shows "pending idx ths = {#}"
  using assms
proof (induction ths)
  case Nil
  then show ?case by (simp add: pending_def)
next
  case (Cons t ths)
  obtain j acts where t: "t = Obs j acts" by (cases t)
  have p: "pending idx (t # ths) = mset (obs_actions idx t) + pending idx ths" by (simp add: pending_def)
  with Cons have "pending idx ths = {#}" by simp
  moreover have "obs_actions idx t = []"
    using Cons.prems p acts_ok_count [of nb acts] by (cases "acts = []") (auto simp: t)
  ultimately show ?case using p by simp
qed

section \<open>What the operations start\<close>

definition op_ok :: "nat \<Rightarrow> u64 \<times> shard_action list \<Rightarrow> bool" where
  "op_ok nb p \<longleftrightarrow> acts_ok nb (snd p) \<and> csum (mset (snd p)) = unat (fst p)"

lemma find_bucket_from_Some:
  "find_bucket_from k bounds v = Some i \<Longrightarrow>
     k \<le> i \<and> i - k < length bounds \<and> f64_le v (bounds ! (i - k)) \<and>
     (\<forall>j < i - k. \<not> f64_le v (bounds ! j))"
proof (induction k bounds v rule: find_bucket_from.induct)
  case (1 i v)
  then show ?case by simp
next
  case (2 k f bounds v)
  show ?case
  proof (cases "f64_le v f")
    case True
    with 2 show ?thesis by auto
  next
    case False
    with 2 have IH: "Suc k \<le> i" "i - Suc k < length bounds" "f64_le v (bounds ! (i - Suc k))"
      "\<forall>j < i - Suc k. \<not> f64_le v (bounds ! j)" by auto
    then have "i - k = Suc (i - Suc k)" by simp
    with IH False show ?thesis by (auto simp: nth_Cons' less_Suc_eq_0_disj)
  qed
qed

lemma find_bucket_from_None:
  "find_bucket_from k bounds v = None \<longleftrightarrow> (\<forall>f \<in> set bounds. \<not> f64_le v f)"
  by (induction k bounds v rule: find_bucket_from.induct) auto

lemma find_bucket_Some:
  assumes "find_bucket bounds v = Some i"
  shows "i < length bounds" "f64_le v (bounds ! i)" "\<forall>j < i. \<not> f64_le v (bounds ! j)"
  using find_bucket_from_Some [OF assms [unfolded find_bucket_def]] by auto

lemma observe_ok: "op_ok (length bounds) (1, observe_actions bounds v)"
  using find_bucket_Some(1) [of bounds v]
  by (auto simp: op_ok_def acts_ok_def observe_actions_def split: option.splits)

lemma bucket_incs_ok: "list_all (action_ok (i + length counts)) (bucket_incs i counts)"
proof (induction i counts rule: bucket_incs.induct)
  case (1 i)
  then show ?case by simp
next
  case (2 i v counts)
  then show ?case by (auto simp: list_all_iff)
qed

lemma bucket_incs_count: "csum (mset (bucket_incs i counts)) = 0"
  by (induction i counts rule: bucket_incs.induct) auto

lemma flush_ok: "lh_count l \<noteq> 0 \<Longrightarrow> op_ok (length (lh_counts l)) (lh_count l, flush_actions l)"
  using bucket_incs_ok [of 0 "lh_counts l"]
  by (auto simp: op_ok_def acts_ok_def flush_actions_def bucket_incs_count)

section \<open>The word of the shard index and the count\<close>

definition sac_word :: "ShardIndex \<Rightarrow> nat \<Rightarrow> u64" where
  "sac_word h n = (if h = Second then push_bit 63 1 else 0) + of_nat n"

lemma sac_word_unat:
  "n < 2 ^ 63 \<Longrightarrow> unat (sac_word h n) = (if h = Second then 2 ^ 63 else 0) + n"
  by (auto simp: sac_word_def unat_word_ariths unat_of_nat push_bit_eq_mult)

lemma unat_drop_bit63: "unat (drop_bit 63 (w :: u64)) = unat w div 2 ^ 63"
  unfolding unat_drop_bit_eq by (rule drop_bit_eq_div)

lemma sac_word_split:
  assumes "n < 2 ^ 63"
  shows "split_shard_index_and_count (sac_word h n) = Some (h, of_nat n)"
proof -
  let ?w = "sac_word h n"
  have u: "unat ?w = (if h = Second then 2 ^ 63 else 0) + n" by (rule sac_word_unat [OF assms])
  have "unat (drop_bit 63 ?w) = unat ?w div 2 ^ 63" by (rule unat_drop_bit63)
  also have "\<dots> = (if h = Second then 1 else 0)" using u assms by simp
  finally have d: "drop_bit 63 ?w = (if h = Second then 1 else 0)"
    by (simp add: word_unat_eq_iff split: if_splits)
  have "and ?w (push_bit 63 1 - 1) = take_bit 63 ?w"
    by (simp add: take_bit_eq_mask mask_eq_exp_minus_1 push_bit_eq_mult)
  moreover have "unat (take_bit 63 ?w) = n"
  proof -
    have "unat (take_bit 63 ?w) = unat ?w mod 2 ^ 63"
      unfolding unsigned_take_bit_eq by (rule take_bit_eq_mod)
    with u assms show ?thesis by simp
  qed
  then have "(of_nat (unat (take_bit 63 ?w)) :: u64) = of_nat n" by (rule arg_cong)
  then have "take_bit 63 ?w = of_nat n" by (metis of_nat_unat ucast_id)
  ultimately show ?thesis
    using d by (cases h) (simp_all add: split_shard_index_and_count_def ShardIndex_from_def Let_def)
qed

lemma sac_word_flip:
  assumes "n < 2 ^ 63"
  shows "sac_word h n + push_bit 63 1 = sac_word (inverse_shard h) n"
proof (rule word_unat_eq_iff [THEN iffD2])
  show "unat (sac_word h n + push_bit 63 1) = unat (sac_word (inverse_shard h) n)"
    unfolding sac_word_unat [OF assms] unat_word_ariths(1) using assms
    by (cases h) (simp_all add: push_bit_eq_mult unat_word_ariths)
qed

lemma sac_word_add: "sac_word h n + k = sac_word h (n + unat k)"
  by (simp add: sac_word_def add.assoc)

text \<open>The index is one bit: the conversion never panics.\<close>

lemma split_total: "split_shard_index_and_count w \<noteq> None"
proof -
  have "unat (drop_bit 63 w) < 2"
    using unat_lt2p [of w] unfolding unat_drop_bit63 by (simp add: less_mult_imp_div_less)
  then have "unat (drop_bit 63 w) = 0 \<or> unat (drop_bit 63 w) = 1" by linarith
  then have "drop_bit 63 w = 0 \<or> drop_bit 63 w = 1" by (simp add: word_unat_eq_iff)
  then show ?thesis by (auto simp: split_shard_index_and_count_def ShardIndex_from_def Let_def)
qed

section \<open>The invariant\<close>

text \<open>
  On shard \<open>x\<close>, some accesses have been executed since it was empty, beside what the collector
  has put there (\<open>X\<close>, \<open>Y\<close>, \<open>Z\<close>); with those that observers have left to do on it, they are
  the accesses \<open>L\<close>.
\<close>

definition holds ::
  "nat \<Rightarrow> hist_sys \<Rightarrow> ShardIndex \<Rightarrow> (nat \<Rightarrow> u64) \<Rightarrow> nat \<Rightarrow> f64 multiset \<Rightarrow> shard_action multiset \<Rightarrow> bool" where
  "holds nb s x X Y Z L \<longleftrightarrow>
     (\<exists>E. rep nb (shard s x) (\<lambda>j. bsum E j + X j) (csum E + Y) (ssum E + Z) \<and>
        E + pending x (hs_threads s) = L)"

definition log_of :: "(u64 \<times> shard_action list) list \<Rightarrow> shard_action multiset" where
  "log_of ops = (\<Sum>p\<leftarrow>ops. mset (snd p))"

lemma log_of_simps [simp]:
  "log_of [] = {#}" "log_of (p # ops) = mset (snd p) + log_of ops"
  "log_of (ops @ ops') = log_of ops + log_of ops'"
  by (simp_all add: log_of_def)

definition old_log :: "hist_sys \<Rightarrow> shard_action multiset" where
  "old_log s = log_of (take (hs_flip_at s) (hs_started s))"

definition new_log :: "hist_sys \<Rightarrow> shard_action multiset" where
  "new_log s = log_of (drop (hs_flip_at s) (hs_started s))"

lemma old_new_log: "old_log s + new_log s = log_of (hs_started s)"
  unfolding old_log_def new_log_def by (metis append_take_drop_id log_of_simps(3))

text \<open>What a collect of the first \<open>k\<close> operations reports.\<close>

definition cumulative :: "shard_action multiset \<Rightarrow> nat \<Rightarrow> u64" where
  "cumulative M i = (\<Sum>j\<leftarrow>[0..<i]. bsum M j)"

definition bucket_list :: "f64 list \<Rightarrow> shard_action multiset \<Rightarrow> nat \<Rightarrow> Bucket list" where
  "bucket_list bounds M i =
     map (\<lambda>j. \<lparr>b_cumulative_count = cumulative M (Suc j), b_upper_bound = bounds ! j\<rparr>) [0..<i]"

definition snapshot :: "f64 list \<Rightarrow> shard_action multiset \<Rightarrow> ProtoHistogram \<Rightarrow> bool" where
  "snapshot bounds M h \<longleftrightarrow>
     ph_sample_count h = of_nat (csum M) \<and> f64_sum (ssum M) (ph_sample_sum h) \<and>
     ph_bucket h = bucket_list bounds M (length bounds)"

text \<open>The cold and the hot shard, and what the collector knows, in each phase.\<close>

fun cold_ok :: "nat \<Rightarrow> hist_sys \<Rightarrow> ShardIndex \<Rightarrow> collect_phase \<Rightarrow> bool" where
  "cold_ok nb s c (Waiting _ _) = holds nb s c (\<lambda>_. 0) 0 {#} (old_log s)"
| "cold_ok nb s c (Drained _ _) = holds nb s c (bsum (old_log s)) 0 (ssum (old_log s)) {#}"
| "cold_ok nb s c (Buckets _ _ _ i None _ _) =
     holds nb s c (\<lambda>j. if j < i then 0 else bsum (old_log s) j) 0 {#} {#}"
| "cold_ok nb s c (Buckets _ _ _ i (Some _) _ _) =
     holds nb s c (\<lambda>j. if j \<le> i then 0 else bsum (old_log s) j) 0 {#} {#}"
| "cold_ok nb s c _ = holds nb s c (\<lambda>_. 0) 0 {#} {#}"

fun hot_ok :: "nat \<Rightarrow> hist_sys \<Rightarrow> ShardIndex \<Rightarrow> collect_phase \<Rightarrow> bool" where
  "hot_ok nb s h (Waiting _ _) = holds nb s h (\<lambda>_. 0) 0 {#} (new_log s)"
| "hot_ok nb s h (Drained _ _) = holds nb s h (\<lambda>_. 0) 0 {#} (new_log s)"
| "hot_ok nb s h (Buckets _ _ _ i _ _ _) =
     holds nb s h (\<lambda>j. if j < i then bsum (old_log s) j else 0) 0 {#} (new_log s)"
| "hot_ok nb s h (AddCount _ _ _ _) = holds nb s h (bsum (old_log s)) 0 {#} (new_log s)"
| "hot_ok nb s h (AddSum _ _ _ _) =
     holds nb s h (bsum (old_log s)) (csum (old_log s)) {#} (new_log s)"
| "hot_ok nb s h _ = holds nb s h (\<lambda>_. 0) 0 {#} (log_of (hs_started s))"

definition knows :: "hist_sys \<Rightarrow> ShardIndex \<Rightarrow> ShardIndex \<Rightarrow> u64 \<Rightarrow> bool" where
  "knows s h c n \<longleftrightarrow> h = inverse_shard c \<and> n = of_nat (csum (old_log s))"

fun data_ok :: "f64 list \<Rightarrow> hist_sys \<Rightarrow> ShardIndex \<Rightarrow> collect_phase \<Rightarrow> bool" where
  "data_ok bounds s h Idle = True"
| "data_ok bounds s h Locked = True"
| "data_ok bounds s h (Waiting c n) = knows s h c n"
| "data_ok bounds s h (Drained c n) = knows s h c n"
| "data_ok bounds s h (Buckets c n sm i k cum acc) =
     (knows s h c n \<and> f64_sum (ssum (old_log s)) sm \<and> i \<le> length bounds \<and>
      (\<forall>x. k = Some x \<longrightarrow> i < length bounds \<and> x = bsum (old_log s) i) \<and>
      cum = cumulative (old_log s) i \<and> acc = bucket_list bounds (old_log s) i)"
| "data_ok bounds s h (AddCount c n sm acc) =
     (knows s h c n \<and> f64_sum (ssum (old_log s)) sm \<and>
      acc = bucket_list bounds (old_log s) (length bounds))"
| "data_ok bounds s h (AddSum c n sm acc) =
     (knows s h c n \<and> f64_sum (ssum (old_log s)) sm \<and>
      acc = bucket_list bounds (old_log s) (length bounds))"
| "data_ok bounds s h (Unlocking p) = snapshot bounds (old_log s) p"

definition phase_inv :: "f64 list \<Rightarrow> hist_sys \<Rightarrow> ShardIndex \<Rightarrow> bool" where
  "phase_inv bounds s h \<longleftrightarrow>
     hc_shard_and_count (hs_core s) = sac_word h (csum (log_of (hs_started s))) \<and>
     cold_ok (length bounds) s (inverse_shard h) (hs_phase s) \<and>
     hot_ok (length bounds) s h (hs_phase s) \<and> data_ok bounds s h (hs_phase s)"

definition hist_inv :: "f64 list \<Rightarrow> hist_sys \<Rightarrow> bool" where
  "hist_inv bounds s \<longleftrightarrow>
     hc_upper_bounds (hs_core s) = bounds \<and> hs_flip_at s \<le> length (hs_started s) \<and>
     list_all (thread_ok (length bounds)) (hs_threads s) \<and>
     list_all (op_ok (length bounds)) (hs_started s) \<and>
     (csum (log_of (hs_started s)) < 2 ^ 63 \<longrightarrow> (\<exists>h. phase_inv bounds s h))"

subsection \<open>Starting an operation\<close>

lemma holds_begin:
  assumes "holds nb s x X Y Z L" and "hs_threads s' = hs_threads s @ [Obs h acts]"
    and "shard s' x = shard s x"
  shows "holds nb s' x X Y Z (if x = h then L + mset acts else L)"
  using assms by (auto simp: holds_def pending_def intro!: exI)

lemma begin_op_Some:
  assumes "begin_op n acts s = Some s'"
  obtains idx c where "split_shard_index_and_count (hc_shard_and_count (hs_core s)) = Some (idx, c)"
    and "s' = s\<lparr>hs_core := (hs_core s)\<lparr>hc_shard_and_count := hc_shard_and_count (hs_core s) + n\<rparr>,
            hs_threads := hs_threads s @ [Obs idx acts], hs_started := hs_started s @ [(n, acts)]\<rparr>"
  using assms by (auto simp: begin_op_def sac_inc_by_def)

lemma begin_preserves:
  assumes inv: "hist_inv bounds s" and b: "begin_op n acts s = Some s'"
    and ok: "op_ok (length bounds) (n, acts)"
  shows "hist_inv bounds s'"
proof -
  let ?nb = "length bounds"
  from b obtain idx c
    where sp: "split_shard_index_and_count (hc_shard_and_count (hs_core s)) = Some (idx, c)"
    and s': "s' = s\<lparr>hs_core := (hs_core s)\<lparr>hc_shard_and_count := hc_shard_and_count (hs_core s) + n\<rparr>,
            hs_threads := hs_threads s @ [Obs idx acts], hs_started := hs_started s @ [(n, acts)]\<rparr>"
    by (rule begin_op_Some)
  have sh: "shard s' = shard s" by (simp add: s' shard_def fun_eq_iff)
  have th: "hs_threads s' = hs_threads s @ [Obs idx acts]" by (simp add: s')
  have fl: "hs_flip_at s \<le> length (hs_started s)" using inv by (simp add: hist_inv_def)
  then have old: "old_log s' = old_log s" and new: "new_log s' = new_log s + mset acts"
    by (simp_all add: s' old_log_def new_log_def)
  have "\<exists>h. phase_inv bounds s' h" if lt: "csum (log_of (hs_started s')) < 2 ^ 63"
  proof -
    have lt0: "csum (log_of (hs_started s)) < 2 ^ 63" using lt by (simp add: s')
    then obtain h where ph: "phase_inv bounds s h" using inv by (auto simp: hist_inv_def)
    then have "hc_shard_and_count (hs_core s) = sac_word h (csum (log_of (hs_started s)))"
      by (simp add: phase_inv_def)
    with sp sac_word_split [OF lt0, of h] have idx: "idx = h" by simp
    have cold: "holds ?nb s' (inverse_shard h) X Y Z L" if "holds ?nb s (inverse_shard h) X Y Z L" for X Y Z L
      using holds_begin [OF that th] idx by (cases h) (simp_all add: sh)
    have hot: "holds ?nb s' h X Y Z (L + mset acts)" if "holds ?nb s h X Y Z L" for X Y Z L
      using holds_begin [OF that th] idx by (simp add: sh)
    have ph': "hs_phase s' = hs_phase s" by (simp add: s')
    have lg: "log_of (hs_started s') = log_of (hs_started s) + mset acts" by (simp add: s')
    have "cold_ok ?nb s' (inverse_shard h) (hs_phase s)"
      using ph cold unfolding phase_inv_def
      by (cases "(?nb, s, inverse_shard h, hs_phase s)" rule: cold_ok.cases) (auto simp: old cong: if_cong)
    moreover have "hot_ok ?nb s' h (hs_phase s)"
      using ph hot unfolding phase_inv_def
      by (cases "(?nb, s, h, hs_phase s)" rule: hot_ok.cases) (auto simp: old new lg cong: if_cong)
    moreover have "data_ok bounds s' h (hs_phase s)"
      using ph unfolding phase_inv_def
      by (cases "(bounds, s, h, hs_phase s)" rule: data_ok.cases) (auto simp: old knows_def)
    moreover have "hc_shard_and_count (hs_core s') = sac_word h (csum (log_of (hs_started s')))"
      using ph ok by (simp add: s' phase_inv_def sac_word_add op_ok_def)
    ultimately show ?thesis unfolding phase_inv_def ph' by blast
  qed
  then show ?thesis
    using inv ok by (auto simp: hist_inv_def s' op_ok_def)
qed

subsection \<open>An observer's access\<close>

lemma holds_access:
  assumes "holds nb s x X Y Z L" and "i < length (hs_threads s)"
    and "hs_threads s ! i = Obs idx (a # acts)" and "action_ok nb a" and "csum L + Y < 2 ^ 64"
    and s': "s' = (upd_shard idx (shard_apply a) s)\<lparr>hs_threads := (hs_threads s)[i := Obs idx acts]\<rparr>"
  shows "holds nb s' x X Y Z L"
proof -
  from assms(1) obtain E where E: "rep nb (shard s x) (\<lambda>j. bsum E j + X j) (csum E + Y) (ssum E + Z)"
    "E + pending x (hs_threads s) = L" by (auto simp: holds_def)
  note acc = pending_access [OF assms(2,3)]
  show ?thesis
  proof (cases "x = idx")
    case True
    with E(2) acc(1) have L: "add_mset a E + pending x (hs_threads s') = L" by (simp add: s' upd_shard_def)
    then have "act_count a + csum E + csum (pending x (hs_threads s')) = csum L"
      by (metis total_simps(5,6))
    then have "csum E + Y + act_count a < 2 ^ 64" using assms(5) by linarith
    from rep_apply [OF E(1) assms(4) this] True
    have "rep nb (shard s' x) (\<lambda>j. bsum (add_mset a E) j + X j) (csum (add_mset a E) + Y)
        (ssum (add_mset a E) + Z)"
      by (simp add: s' shard_def upd_shard_def)
    with L show ?thesis unfolding holds_def by blast
  next
    case False
    with E acc(2) [of x] show ?thesis
      by (auto simp: holds_def s' shard_def upd_shard_def intro!: exI [of _ E])
  qed
qed

lemma log_le:
  assumes "csum (log_of (hs_started s)) < 2 ^ 63"
  shows "csum (old_log s) + csum (new_log s) < 2 ^ 63"
  using assms by (simp flip: old_new_log)

lemma access_preserves:
  assumes inv: "hist_inv bounds s" and i: "i < length (hs_threads s)"
    and t: "hs_threads s ! i = Obs idx (a # acts)"
  shows "hist_inv bounds
    ((upd_shard idx (shard_apply a) s)\<lparr>hs_threads := (hs_threads s)[i := Obs idx acts]\<rparr>)"
proof -
  let ?nb = "length bounds"
  define s' where "s' = (upd_shard idx (shard_apply a) s)\<lparr>hs_threads := (hs_threads s)[i := Obs idx acts]\<rparr>"
  have ok: "acts_ok ?nb (a # acts)"
    using inv i t by (auto simp: hist_inv_def list_all_length)
  have same: "hs_phase s' = hs_phase s" "hs_started s' = hs_started s" "hs_flip_at s' = hs_flip_at s"
    "hc_shard_and_count (hs_core s') = hc_shard_and_count (hs_core s)"
    "hc_upper_bounds (hs_core s') = hc_upper_bounds (hs_core s)"
    by (simp_all add: s'_def upd_shard_def)
  have old: "old_log s' = old_log s" "new_log s' = new_log s"
    by (simp_all add: old_log_def new_log_def same)
  have "\<exists>h. phase_inv bounds s' h" if lt: "csum (log_of (hs_started s)) < 2 ^ 63"
  proof -
    from lt inv obtain h where ph: "phase_inv bounds s h" by (auto simp: hist_inv_def)
    have step: "holds ?nb s' x X Y Z L" if "holds ?nb s x X Y Z L" and "csum L + Y < 2 ^ 64" for x X Y Z L
      using holds_access [OF that(1) i t _ that(2) s'_def] ok by (simp add: acts_ok_def)
    note le = log_le [OF lt]
    have "cold_ok ?nb s' (inverse_shard h) (hs_phase s)"
      using ph le unfolding phase_inv_def
      by (cases "(?nb, s, inverse_shard h, hs_phase s)" rule: cold_ok.cases)
        (auto simp: old intro!: step cong: if_cong)
    moreover have "hot_ok ?nb s' h (hs_phase s)"
      using ph le lt unfolding phase_inv_def
      by (cases "(?nb, s, h, hs_phase s)" rule: hot_ok.cases)
        (auto simp: old same intro!: step cong: if_cong)
    moreover have "data_ok bounds s' h (hs_phase s)"
      using ph unfolding phase_inv_def
      by (cases "(bounds, s, h, hs_phase s)" rule: data_ok.cases) (auto simp: old knows_def)
    ultimately show ?thesis using ph unfolding phase_inv_def same by blast
  qed
  moreover have "list_all (thread_ok ?nb) (hs_threads s')"
    using inv acts_ok_tail [OF ok] i set_update_subset_insert [of "hs_threads s" i "Obs idx acts"]
    by (auto simp: hist_inv_def s'_def list_all_iff)
  ultimately show ?thesis
    using inv unfolding s'_def [symmetric] by (simp add: hist_inv_def same)
qed

subsection \<open>The collector's accesses\<close>

lemma inverse_inverse [simp]: "inverse_shard (inverse_shard x) = x"
  by (cases x) simp_all

lemma inverse_neq [simp]: "inverse_shard x \<noteq> x" "x \<noteq> inverse_shard x"
  by (cases x; simp)+

lemma shard_upd [simp]:
  "shard (upd_shard i f s) j = (if j = i then f (shard s i) else shard s j)"
  "shard (s\<lparr>hs_phase := ph\<rparr>) j = shard s j"
  by (simp_all add: shard_def upd_shard_def)

lemma upd_shard_simps [simp]:
  "hs_threads (upd_shard i f s) = hs_threads s" "hs_started (upd_shard i f s) = hs_started s"
  "hs_phase (upd_shard i f s) = hs_phase s" "hs_flip_at (upd_shard i f s) = hs_flip_at s"
  "hc_shard_and_count (hs_core (upd_shard i f s)) = hc_shard_and_count (hs_core s)"
  "hc_upper_bounds (hs_core (upd_shard i f s)) = hc_upper_bounds (hs_core s)"
  by (simp_all add: upd_shard_def)

lemma logs_simps [simp]:
  "old_log (upd_shard i f s) = old_log s" "new_log (upd_shard i f s) = new_log s"
  "old_log (s\<lparr>hs_phase := ph\<rparr>) = old_log s" "new_log (s\<lparr>hs_phase := ph\<rparr>) = new_log s"
  by (simp_all add: old_log_def new_log_def)

lemma holds_phase [simp]: "holds nb (s\<lparr>hs_phase := ph\<rparr>) x X Y Z L = holds nb s x X Y Z L"
  by (simp add: holds_def)

lemma holds_other [simp]: "x \<noteq> i \<Longrightarrow> holds nb (upd_shard i f s) x X Y Z L = holds nb s x X Y Z L"
  by (simp add: holds_def)

lemma holds_empty:
  "holds nb s x X Y Z {#} \<longleftrightarrow> rep nb (shard s x) X Y Z \<and> pending x (hs_threads s) = {#}"
  by (auto simp: holds_def)

lemma holds_cong:
  assumes "\<And>j. j < nb \<Longrightarrow> X j = X' j"
  shows "holds nb s x X Y Z L = holds nb s x X' Y Z L"
  using assms by (simp add: holds_def rep_def)

lemma holds_bucket:
  assumes "holds nb s x X Y Z L" and "i < nb"
  shows "holds nb (upd_shard x (shard_apply (BucketInc i k)) s) x (X(i := X i + k)) Y Z L"
proof -
  from assms(1) obtain E where "rep nb (shard s x) (\<lambda>j. bsum E j + X j) (csum E + Y) (ssum E + Z)"
    "E + pending x (hs_threads s) = L" by (auto simp: holds_def)
  with assms(2) show ?thesis
    by (auto simp: holds_def rep_def nth_list_update intro!: exI [of _ E])
qed

lemma holds_count:
  assumes "holds nb s x X Y Z L" and "csum L + Y + unat n < 2 ^ 64"
  shows "holds nb (upd_shard x (shard_apply (CountInc n)) s) x X (Y + unat n) Z L"
proof -
  from assms(1) obtain E where E: "rep nb (shard s x) (\<lambda>j. bsum E j + X j) (csum E + Y) (ssum E + Z)"
    "E + pending x (hs_threads s) = L" by (auto simp: holds_def)
  then have "csum E \<le> csum L" by auto
  with E assms(2) show ?thesis
    by (auto simp: holds_def rep_def unat_word_ariths(1) intro!: exI [of _ E])
qed

lemma holds_sum:
  assumes "holds nb s x X Y Z L" and "f64_sum S v"
  shows "holds nb (upd_shard x (shard_apply (SumInc v)) s) x X Y (Z + S) L"
proof -
  from assms(1) obtain E where E: "rep nb (shard s x) (\<lambda>j. bsum E j + X j) (csum E + Y) (ssum E + Z)"
    "E + pending x (hs_threads s) = L" by (auto simp: holds_def)
  with f64_sum.plus [OF _ assms(2), of "ssum E + Z"] show ?thesis
    by (auto simp: holds_def rep_def add.assoc intro!: exI [of _ E])
qed

lemma holds_merged:
  assumes "holds nb s x (bsum M) (csum M) (ssum M) L"
  shows "holds nb s x (\<lambda>_. 0) 0 {#} (M + L)"
proof -
  from assms obtain E where E: "rep nb (shard s x) (\<lambda>j. bsum E j + bsum M j) (csum E + csum M)
      (ssum E + ssum M)" "E + pending x (hs_threads s) = L" by (auto simp: holds_def)
  moreover have "bsum (E + M) = (\<lambda>j. bsum E j + bsum M j)" by (simp add: fun_eq_iff)
  ultimately show ?thesis by (auto simp: holds_def ac_simps intro!: exI [of _ "E + M"])
qed

text \<open>When the cold count has reached the overall count, every observer of the shard is done.\<close>

lemma holds_drained:
  assumes "holds nb s c (\<lambda>_. 0) 0 {#} M" and "sh_count (shard s c) = of_nat (csum M)"
    and "csum M < 2 ^ 63" and "list_all (thread_ok nb) (hs_threads s)"
  shows "pending c (hs_threads s) = {#} \<and> rep nb (shard s c) (bsum M) (csum M) (ssum M)"
proof -
  from assms(1) obtain E where E: "rep nb (shard s c) (\<lambda>j. bsum E j) (csum E) (ssum E)"
    "E + pending c (hs_threads s) = M" by (auto simp: holds_def)
  have "csum E = csum M"
    using E(1) assms(2,3) by (simp add: rep_def unat_of_nat)
  moreover have "csum E + csum (pending c (hs_threads s)) = csum M"
    using E(2) by (metis total_simps(6))
  ultimately have p: "pending c (hs_threads s) = {#}"
    using pending_zero [OF assms(4)] by simp
  with E show ?thesis by simp
qed

lemma bucket_list_Suc:
  "bucket_list bounds M (Suc i) =
     bucket_list bounds M i @ [\<lparr>b_cumulative_count = cumulative M i + bsum M i, b_upper_bound = bounds ! i\<rparr>]"
  by (simp add: bucket_list_def cumulative_def)

lemma cumulative_Suc: "cumulative M (Suc i) = cumulative M i + bsum M i"
  by (simp add: cumulative_def)

lemma collect_phase_inv:
  assumes ph: "phase_inv bounds s h" and st: "collect_step s = Some s'"
    and b: "hc_upper_bounds (hs_core s) = bounds" and th: "list_all (thread_ok (length bounds)) (hs_threads s)"
    and fl: "hs_flip_at s \<le> length (hs_started s)"
    and lt: "csum (log_of (hs_started s)) < 2 ^ 63"
  shows "\<exists>h. phase_inv bounds s' h"
proof -
  let ?nb = "length bounds"
  note le = log_le [OF lt]
  have sac: "hc_shard_and_count (hs_core s) = sac_word h (csum (log_of (hs_started s)))"
    and cold: "cold_ok ?nb s (inverse_shard h) (hs_phase s)" and hot: "hot_ok ?nb s h (hs_phase s)"
    and data: "data_ok bounds s h (hs_phase s)"
    using ph by (simp_all add: phase_inv_def)
  show ?thesis
  proof (cases "hs_phase s")
    case Idle
    with st show ?thesis by (simp add: collect_step_def)
  next
    case Locked
    let ?s = "s\<lparr>hs_core := (hs_core s)\<lparr>hc_shard_and_count := sac_word h (csum (log_of (hs_started s))) + push_bit 63 1\<rparr>,
        hs_phase := Waiting h (of_nat (csum (log_of (hs_started s)))), hs_flip_at := length (hs_started s)\<rparr>"
    have s': "s' = ?s"
      using st Locked sac_word_split [OF lt, of h] sac by (simp add: collect_step_def sac_flip_def)
    have l: "old_log (s\<lparr>hs_core := C, hs_phase := P, hs_flip_at := length (hs_started s)\<rparr>) =
          log_of (hs_started s)"
      "new_log (s\<lparr>hs_core := C, hs_phase := P, hs_flip_at := length (hs_started s)\<rparr>) = {#}" for C P
      by (simp_all add: old_log_def new_log_def)
    have hd: "holds ?nb (s\<lparr>hs_core := (hs_core s)\<lparr>hc_shard_and_count := w\<rparr>, hs_phase := P,
          hs_flip_at := f\<rparr>) x X Y Z L = holds ?nb s x X Y Z L" for w P f x X Y Z L
      by (simp add: holds_def shard_def)
    show ?thesis
      unfolding s' phase_inv_def
      using cold hot Locked sac_word_flip [OF lt, of h]
      by (intro exI [of _ "inverse_shard h"]) (simp add: l hd knows_def)
  next
    case (Waiting c n)
    with st have cnt: "sh_count (shard s c) = n"
      and s': "s' = (upd_shard c (\<lambda>x. x\<lparr>sh_count := 0\<rparr>) s)\<lparr>hs_phase := Drained c n\<rparr>"
      by (auto simp: collect_step_def split: if_splits)
    from data Waiting have h: "h = inverse_shard c" and n: "n = of_nat (csum (old_log s))"
      by (simp_all add: knows_def)
    from holds_drained [OF _ _ _ th, of c "old_log s"] cold Waiting cnt le h n
    have "pending c (hs_threads s) = {#}" "rep ?nb (shard s c) (bsum (old_log s)) (csum (old_log s)) (ssum (old_log s))"
      by auto
    then have "holds ?nb (upd_shard c (\<lambda>x. x\<lparr>sh_count := 0\<rparr>) s) c (bsum (old_log s)) 0 (ssum (old_log s)) {#}"
      by (simp add: holds_empty) (simp add: rep_def)
    with hot sac Waiting h n show ?thesis
      by (intro exI [of _ h]) (simp add: phase_inv_def s' knows_def)
  next
    case (Drained c n)
    with st have s': "s' = (upd_shard c (\<lambda>x. x\<lparr>sh_sum := Fin 0\<rparr>) s)
        \<lparr>hs_phase := Buckets c n (sh_sum (shard s c)) 0 None 0 []\<rparr>"
      by (simp add: collect_step_def)
    from data Drained have h: "h = inverse_shard c" by (simp add: knows_def)
    with cold Drained have r: "rep ?nb (shard s c) (bsum (old_log s)) 0 (ssum (old_log s))"
      "pending c (hs_threads s) = {#}" by (simp_all add: holds_empty)
    then have "holds ?nb (upd_shard c (\<lambda>x. x\<lparr>sh_sum := Fin 0\<rparr>) s) c (bsum (old_log s)) 0 {#} {#}"
      by (simp add: holds_empty) (simp add: rep_def f64_sum.zero)
    moreover from r have "f64_sum (ssum (old_log s)) (sh_sum (shard s c))" by (simp add: rep_def)
    ultimately show ?thesis
      using hot sac Drained data h
      by (intro exI [of _ h])
        (simp add: phase_inv_def s' knows_def cumulative_def bucket_list_def cong: if_cong)
  next
    case (Buckets c n sm i k cum acc)
    from data Buckets have h: "h = inverse_shard c" by (simp add: knows_def)
    show ?thesis
    proof (cases k)
      case None
      show ?thesis
      proof (cases "i < ?nb")
        case True
        with st Buckets None b have s': "s' = (upd_shard c (swap_bucket i) s)
            \<lparr>hs_phase := Buckets c n sm i (Some (sh_buckets (shard s c) ! i)) cum acc\<rparr>"
          by (simp add: collect_step_def)
        from cold Buckets None h
        have r: "rep ?nb (shard s c) (\<lambda>j. if j < i then 0 else bsum (old_log s) j) 0 {#}"
          "pending c (hs_threads s) = {#}" by (simp_all add: holds_empty)
        with True have "holds ?nb (upd_shard c (swap_bucket i) s) c
            (\<lambda>j. if j \<le> i then 0 else bsum (old_log s) j) 0 {#} {#}"
          by (simp add: holds_empty) (auto simp: rep_def swap_bucket_def nth_list_update)
        moreover from r True have "sh_buckets (shard s c) ! i = bsum (old_log s) i"
          by (simp add: rep_def)
        ultimately show ?thesis
          using hot sac Buckets data h True
          by (intro exI [of _ h]) (simp add: phase_inv_def s' knows_def cong: if_cong)
      next
        case False
        with st Buckets None b data have i: "i = ?nb" and s': "s' = s\<lparr>hs_phase := AddCount c n sm acc\<rparr>"
          by (simp_all add: collect_step_def)
        have "holds ?nb s c (\<lambda>_. 0) 0 {#} {#}"
          using cold Buckets None h i holds_cong [of ?nb "\<lambda>j. if j < i then 0 else bsum (old_log s) j" "\<lambda>_. 0"]
          by simp
        moreover have "holds ?nb s h (bsum (old_log s)) 0 {#} (new_log s)"
          using hot Buckets i holds_cong [of ?nb "\<lambda>j. if j < i then bsum (old_log s) j else 0" "bsum (old_log s)"]
          by simp
        ultimately show ?thesis
          using sac Buckets data h i by (intro exI [of _ h]) (simp add: phase_inv_def s' knows_def)
      qed
    next
      case (Some x)
      with st Buckets b have s': "s' = (upd_shard (inverse_shard c) (shard_apply (BucketInc i x)) s)
          \<lparr>hs_phase := Buckets c n sm (Suc i) None (cum + x)
             (acc @ [\<lparr>b_cumulative_count = cum + x, b_upper_bound = bounds ! i\<rparr>])\<rparr>"
        by (simp add: collect_step_def)
      from data Buckets Some have i: "i < ?nb" and x: "x = bsum (old_log s) i" by simp_all
      have "holds ?nb (upd_shard h (shard_apply (BucketInc i x)) s) h
          ((\<lambda>j. if j < i then bsum (old_log s) j else 0)(i := x)) 0 {#} (new_log s)"
        using holds_bucket [OF _ i, of s h "\<lambda>j. if j < i then bsum (old_log s) j else 0" 0 "{#}" "new_log s" x]
          hot Buckets by simp
      moreover have "((\<lambda>j. if j < i then bsum (old_log s) j else 0)(i := x)) =
          (\<lambda>j. if j < Suc i then bsum (old_log s) j else 0)"
        using x by (auto simp: fun_eq_iff)
      moreover have "(\<lambda>j. if j \<le> i then 0 else bsum (old_log s) j) =
          (\<lambda>j. if j < Suc i then 0 else bsum (old_log s) j)"
        by (auto simp: fun_eq_iff)
      ultimately show ?thesis
        using cold sac Buckets data h i x Some
        by (intro exI [of _ h])
          (simp add: phase_inv_def s' knows_def cumulative_Suc bucket_list_Suc cong: if_cong)
    qed
  next
    case (AddCount c n sm acc)
    with st have s': "s' = (upd_shard (inverse_shard c) (shard_apply (CountInc n)) s)
        \<lparr>hs_phase := AddSum c n sm acc\<rparr>"
      by (simp add: collect_step_def)
    from data AddCount have h: "h = inverse_shard c" and n: "n = of_nat (csum (old_log s))"
      by (simp_all add: knows_def)
    have un: "unat n = csum (old_log s)" using n le by (simp add: unat_of_nat)
    have "holds ?nb (upd_shard h (shard_apply (CountInc n)) s) h (bsum (old_log s)) (0 + unat n) {#} (new_log s)"
      by (rule holds_count) (use hot AddCount un le in simp_all)
    with cold sac AddCount data h un show ?thesis
      by (intro exI [of _ h]) (simp add: phase_inv_def s' knows_def)
  next
    case (AddSum c n sm acc)
    with st have s': "s' = (upd_shard (inverse_shard c) (shard_apply (SumInc sm)) s)
        \<lparr>hs_phase := Unlocking \<lparr>ph_sample_count = n, ph_sample_sum = sm, ph_bucket = acc\<rparr>\<rparr>"
      by (simp add: collect_step_def)
    from data AddSum have h: "h = inverse_shard c" and sm: "f64_sum (ssum (old_log s)) sm"
      by (simp_all add: knows_def)
    have "holds ?nb (upd_shard h (shard_apply (SumInc sm)) s) h (bsum (old_log s)) (csum (old_log s))
        ({#} + ssum (old_log s)) (new_log s)"
      by (rule holds_sum [OF _ sm]) (use hot AddSum in simp)
    then have "holds ?nb (upd_shard h (shard_apply (SumInc sm)) s) h (\<lambda>_. 0) 0 {#} (log_of (hs_started s))"
      using holds_merged [of ?nb _ h "old_log s" "new_log s"] by (simp add: old_new_log)
    with cold sac AddSum data h show ?thesis
      by (intro exI [of _ h]) (simp add: phase_inv_def s' knows_def snapshot_def)
  next
    case (Unlocking p)
    with st have s': "s' = s\<lparr>hs_phase := Idle\<rparr>" by (simp add: collect_step_def)
    with cold hot sac Unlocking show ?thesis
      by (intro exI [of _ h]) (simp add: phase_inv_def)
  qed
qed

lemma collect_preserves:
  assumes inv: "hist_inv bounds s" and st: "collect_step s = Some s'"
  shows "hist_inv bounds s'"
proof -
  have "hs_threads s' = hs_threads s \<and> hs_started s' = hs_started s \<and>
      hc_upper_bounds (hs_core s') = hc_upper_bounds (hs_core s) \<and>
      (hs_flip_at s' = hs_flip_at s \<or> hs_flip_at s' = length (hs_started s))"
    using st by (auto simp: collect_step_def Let_def sac_flip_def split: collect_phase.splits
        option.splits if_splits)
  with inv collect_phase_inv [OF _ st] show ?thesis
    by (fastforce simp: hist_inv_def)
qed

lemma lock_preserves:
  assumes inv: "hist_inv bounds s" and idle: "hs_phase s = Idle"
  shows "hist_inv bounds (s\<lparr>hs_phase := Locked\<rparr>)"
proof -
  have "phase_inv bounds (s\<lparr>hs_phase := Locked\<rparr>) h" if "phase_inv bounds s h" for h
    using that idle by (simp add: phase_inv_def)
  with inv show ?thesis by (auto simp: hist_inv_def)
qed

definition hist_fresh :: "f64 list \<Rightarrow> HistogramCore \<Rightarrow> bool" where
  "hist_fresh bounds core \<longleftrightarrow>
     hc_shard_and_count core = 0 \<and> hc_upper_bounds core = bounds \<and>
     (\<forall>x. hc_shards core x = Shard_new (length bounds))"

lemma HistogramCore_new_fresh:
  "HistogramCore_new fnv show opts vals = Inr core \<Longrightarrow>
     hist_fresh (hc_upper_bounds core) core \<and>
     check_and_adjust_buckets show (ho_buckets opts) = Inr (hc_upper_bounds core)"
  by (auto simp: HistogramCore_new_def bind_res_Inr_iff hist_fresh_def)

lemma hist_start_inv:
  assumes "hist_fresh bounds core"
  shows "hist_inv bounds (hist_start core)"
proof -
  have "holds (length bounds) (hist_start core) x (\<lambda>_. 0) 0 {#} {#}" for x
    using assms by (simp add: holds_empty hist_start_def shard_def hist_fresh_def rep_def
        Shard_new_def pending_def f64_sum.zero)
  then have "phase_inv bounds (hist_start core) First"
    using assms by (simp add: phase_inv_def hist_start_def sac_word_def hist_fresh_def)
  then show ?thesis using assms by (auto simp: hist_inv_def hist_start_def hist_fresh_def)
qed

theorem hist_inv_reach:
  assumes "hist_reach core s" and "hist_fresh bounds core"
  shows "hist_inv bounds s"
  using assms(1)
proof induction
  case start
  show ?case by (rule hist_start_inv [OF assms(2)])
next
  case (more s s')
  then have b: "hc_upper_bounds (hs_core s) = bounds" by (simp add: hist_inv_def)
  from more(2) show ?case
  proof cases
    case (start_observe v)
    with begin_preserves [OF more(3)] observe_ok [of bounds v] b show ?thesis by simp
  next
    case (start_flush l)
    with begin_preserves [OF more(3)] flush_ok [of l] b show ?thesis by simp
  next
    case (access i idx a acts)
    with access_preserves [OF more(3)] show ?thesis by simp
  next
    case lock
    with lock_preserves [OF more(3)] show ?thesis by simp
  next
    case collect
    then show ?thesis by (rule collect_preserves [OF more(3)])
  qed
qed

section \<open>Snapshots of observations\<close>

text \<open>
  When the bounds increase, the cumulative count of a bucket is the number of values that are
  not above its bound.
\<close>

definition bounds_ok :: "f64 list \<Rightarrow> bool" where
  "bounds_ok bounds \<longleftrightarrow>
     NaN \<notin> set bounds \<and> sorted_wrt (\<lambda>a b. f64_le a b) bounds"

lemma f64_le_total: "a \<noteq> NaN \<Longrightarrow> b \<noteq> NaN \<Longrightarrow> f64_le a b \<or> f64_le b a"
  by (cases a; cases b) auto

lemma f64_not_le: "a \<noteq> NaN \<Longrightarrow> b \<noteq> NaN \<Longrightarrow> \<not> f64_le b a \<Longrightarrow> f64_le a b"
  using f64_le_total by blast

lemma check_increasing_sorted:
  "check_increasing show bounds = Inr () \<Longrightarrow> NaN \<notin> set bounds \<Longrightarrow> sorted_wrt (\<lambda>a b. f64_le a b) bounds"
proof (induction "show" bounds rule: check_increasing.induct)
  case (1 shw b c buckets)
  then have "f64_le b c" "sorted_wrt (\<lambda>a b. f64_le a b) (c # buckets)"
    by (auto split: if_splits intro: f64_not_le)
  then show ?case by (auto intro: f64_le_trans)
qed auto

lemma find_bucket_le:
  assumes ok: "bounds_ok bounds" and i: "i < length bounds"
  shows "(\<exists>j \<le> i. find_bucket bounds v = Some j) \<longleftrightarrow> f64_le v (bounds ! i)"
proof
  assume "\<exists>j \<le> i. find_bucket bounds v = Some j"
  then obtain j where j: "j \<le> i" "find_bucket bounds v = Some j" by blast
  then have "f64_le v (bounds ! j)" by (blast dest: find_bucket_Some)
  moreover have "j < i \<Longrightarrow> f64_le (bounds ! j) (bounds ! i)"
    using ok i by (auto simp: bounds_ok_def sorted_wrt_iff_nth_less)
  ultimately show "f64_le v (bounds ! i)"
    using j(1) by (cases "j = i") (auto intro: f64_le_trans)
next
  assume le: "f64_le v (bounds ! i)"
  then have "find_bucket bounds v \<noteq> None"
    using i by (auto simp: find_bucket_def find_bucket_from_None)
  then obtain j where j: "find_bucket bounds v = Some j" by blast
  then have "j \<le> i" using find_bucket_Some(3) [OF j] le by (meson not_le)
  with j show "\<exists>j \<le> i. find_bucket bounds v = Some j" by blast
qed

definition observation :: "f64 list \<Rightarrow> f64 \<Rightarrow> u64 \<times> shard_action list" where
  "observation bounds v = (1, observe_actions bounds v)"

lemma observe_totals:
  "csum (mset (observe_actions bounds v)) = 1" "ssum (mset (observe_actions bounds v)) = {#v#}"
  "bsum (mset (observe_actions bounds v)) i = (if find_bucket bounds v = Some i then 1 else 0)"
  by (auto simp: observe_actions_def split: option.splits)

lemma observations_count: "csum (log_of (map (observation bounds) vs)) = length vs"
  by (induction vs) (simp_all add: observation_def observe_totals)

lemma observations_sum: "ssum (log_of (map (observation bounds) vs)) = mset vs"
  by (induction vs) (simp_all add: observation_def observe_totals)

lemma cumulative_add: "cumulative (M + N) i = cumulative M i + cumulative N i"
  by (simp add: cumulative_def sum_list_addf)

lemma cumulative_observe:
  "cumulative (mset (observe_actions bounds v)) i = (if \<exists>j < i. find_bucket bounds v = Some j then 1 else 0)"
  by (induction i) (auto simp: cumulative_def observe_totals less_Suc_eq)

lemma observations_cumulative:
  assumes "bounds_ok bounds" and "i < length bounds"
  shows "cumulative (log_of (map (observation bounds) vs)) (Suc i) =
    of_nat (length (filter (\<lambda>v. f64_le v (bounds ! i)) vs))"
proof (induction vs)
  case Nil
  then show ?case by (simp add: cumulative_def sum_list_map_eq_sum_count)
next
  case (Cons v vs)
  have "(\<exists>j < Suc i. find_bucket bounds v = Some j) \<longleftrightarrow> f64_le v (bounds ! i)"
    using find_bucket_le [OF assms] by (simp add: less_Suc_eq_le)
  with Cons show ?case
    by (simp add: cumulative_add cumulative_observe observation_def)
qed

section \<open>A collect ends\<close>

text \<open>How many accesses the collector has left once the cold shard is drained.\<close>

fun rank :: "nat \<Rightarrow> collect_phase \<Rightarrow> nat" where
  "rank nb Idle = 0"
| "rank nb Locked = 2 * nb + 6"
| "rank nb (Waiting _ _) = 2 * nb + 5"
| "rank nb (Drained _ _) = 2 * nb + 4"
| "rank nb (Buckets _ _ _ i None _ _) = 2 * (nb - i) + 3"
| "rank nb (Buckets _ _ _ i (Some _) _ _) = 2 * (nb - i) + 2"
| "rank nb (AddCount _ _ _ _) = 2"
| "rank nb (AddSum _ _ _ _) = 1"
| "rank nb (Unlocking _) = 0"

definition cold_todo :: "ShardIndex \<Rightarrow> hist_sys \<Rightarrow> nat" where
  "cold_todo c s = size (pending c (hs_threads s))"

lemma waiting_count:
  assumes inv: "hist_inv bounds s" and lt: "csum (log_of (hs_started s)) < 2 ^ 63"
    and w: "hs_phase s = Waiting c n" and z: "cold_todo c s = 0"
  shows "sh_count (shard s c) = n"
proof -
  from inv lt obtain h where ph: "phase_inv bounds s h" by (auto simp: hist_inv_def)
  with w have n: "n = of_nat (csum (old_log s))" and h: "h = inverse_shard c"
    and "holds (length bounds) s c (\<lambda>_. 0) 0 {#} (old_log s)"
    by (auto simp: phase_inv_def knows_def)
  with z have "rep (length bounds) (shard s c) (bsum (old_log s)) (csum (old_log s)) (ssum (old_log s))"
    by (auto simp: holds_def cold_todo_def)
  then have "unat (sh_count (shard s c)) = csum (old_log s)" by (simp add: rep_def)
  then show ?thesis using n by (metis of_nat_unat ucast_id)
qed

lemma collect_progress:
  assumes inv: "hist_inv bounds s" and lt: "csum (log_of (hs_started s)) < 2 ^ 63"
    and act: "0 < rank (length bounds) (hs_phase s)"
    and drained: "\<And>c n. hs_phase s = Waiting c n \<Longrightarrow> cold_todo c s = 0"
  shows "\<exists>s'. collect_step s = Some s' \<and>
    rank (length bounds) (hs_phase s) = Suc (rank (length bounds) (hs_phase s')) \<and>
    hs_threads s' = hs_threads s \<and> hs_started s' = hs_started s \<and>
    (\<exists>p. hs_phase s' = p \<and> p \<noteq> Idle) \<and> (\<forall>c n. hs_phase s' = Waiting c n \<longrightarrow> hs_phase s = Locked)"
proof -
  from inv lt obtain h where ph: "phase_inv bounds s h" by (auto simp: hist_inv_def)
  have b: "hc_upper_bounds (hs_core s) = bounds" using inv by (simp add: hist_inv_def)
  show ?thesis
  proof (cases "hs_phase s")
    case Locked
    with ph sac_word_split [OF lt, of h] show ?thesis
      by (auto simp: collect_step_def sac_flip_def phase_inv_def)
  next
    case (Waiting c n)
    with waiting_count [OF inv lt Waiting] drained [OF Waiting] show ?thesis
      by (auto simp: collect_step_def)
  next
    case (Buckets c n sm i k cum acc)
    with ph b show ?thesis
      by (cases k) (auto simp: collect_step_def phase_inv_def knows_def)
  qed (use act in \<open>auto simp: collect_step_def\<close>)
qed

text \<open>With nothing left to do on the cold shard, the collector finishes by itself.\<close>

lemma collect_finishes:
  assumes "hist_inv bounds s" and "csum (log_of (hs_started s)) < 2 ^ 63" and "hs_phase s \<noteq> Idle"
    and "\<And>c. cold_todo c s = 0 \<or> (\<forall>n. hs_phase s \<noteq> Waiting c n) \<and> hs_phase s \<noteq> Locked"
  shows "\<exists>s' h. (hist_step ^^ rank (length bounds) (hs_phase s)) s s' \<and> hs_phase s' = Unlocking h \<and>
    hs_started s' = hs_started s \<and>
    hs_flip_at s' = (if hs_phase s = Locked then length (hs_started s) else hs_flip_at s)"
  using assms
proof (induction "rank (length bounds) (hs_phase s)" arbitrary: s)
  case 0
  then have "\<exists>h. hs_phase s = Unlocking h"
    by (cases "(length bounds, hs_phase s)" rule: rank.cases) auto
  with 0 show ?case by (auto intro!: exI [of _ s])
next
  case (Suc k)
  then have "0 < rank (length bounds) (hs_phase s)" by simp
  from collect_progress [OF Suc.prems(1,2) this] Suc.prems(4)
  obtain s1 where s1: "collect_step s = Some s1"
    "rank (length bounds) (hs_phase s) = Suc (rank (length bounds) (hs_phase s1))"
    "hs_threads s1 = hs_threads s" "hs_started s1 = hs_started s" "hs_phase s1 \<noteq> Idle"
    "\<forall>c n. hs_phase s1 = Waiting c n \<longrightarrow> hs_phase s = Locked"
    by metis
  have todo: "cold_todo c s1 = 0 \<or> (\<forall>n. hs_phase s1 \<noteq> Waiting c n) \<and> hs_phase s1 \<noteq> Locked" for c
  proof (cases "hs_phase s = Locked")
    case True
    then show ?thesis using Suc.prems(4) [of c] s1(3) by (simp add: cold_todo_def)
  next
    case False
    then have "hs_phase s1 \<noteq> Locked"
      using s1(1) by (auto simp: collect_step_def Let_def split: collect_phase.splits option.splits if_splits)
    with False s1(6) show ?thesis by blast
  qed
  have flip: "hs_phase s1 \<noteq> Locked"
    "hs_flip_at s1 = (if hs_phase s = Locked then length (hs_started s) else hs_flip_at s)"
    using s1(1) by (auto simp: collect_step_def Let_def split: collect_phase.splits option.splits prod.splits if_splits)
  have "k = rank (length bounds) (hs_phase s1)" using Suc.hyps(2) s1(2) by simp
  from Suc.hyps(1) [OF this collect_preserves [OF Suc.prems(1) s1(1)] _ s1(5) todo] Suc.prems(2) s1(4)
  obtain s' h where "(hist_step ^^ rank (length bounds) (hs_phase s1)) s1 s'"
    "hs_phase s' = Unlocking h \<and> hs_started s' = hs_started s \<and>
      hs_flip_at s' = (if hs_phase s = Locked then length (hs_started s) else hs_flip_at s)"
    using flip by auto
  moreover have "hist_step s s1" by (rule hist_step.collect [OF s1(1)])
  ultimately show ?case
    unfolding s1(2) by (metis relpowp_Suc_I2)
qed

text \<open>While the collector waits, no step gives it more to wait for.\<close>

lemma waiting_step:
  assumes inv: "hist_inv bounds s" and lt: "csum (log_of (hs_started s)) < 2 ^ 63"
    and w: "hs_phase s = Waiting c n" and st: "hist_step s s'"
  shows "hs_phase s' = Drained c n \<or> hs_phase s' = Waiting c n \<and> cold_todo c s' \<le> cold_todo c s"
proof -
  from inv lt obtain h where ph: "phase_inv bounds s h" by (auto simp: hist_inv_def)
  with w have h: "h = inverse_shard c" by (simp add: phase_inv_def knows_def)
  have begin_ok: ?thesis if "begin_op k acts s = Some s'" for k acts
  proof -
    from that ph sac_word_split [OF lt, of h] have "hs_threads s' = hs_threads s @ [Obs h acts]"
      and "hs_phase s' = hs_phase s"
      by (auto simp: phase_inv_def elim!: begin_op_Some)
    with h w show ?thesis by (simp add: cold_todo_def) (simp add: pending_def)
  qed
  from st show ?thesis
  proof cases
    case (access i idx a acts)
    with pending_access [OF access(2,3)] w show ?thesis
      by (cases "c = idx") (auto simp: cold_todo_def)
  next
    case collect
    with w show ?thesis by (auto simp: collect_step_def split: if_splits)
  qed (use w begin_ok in auto)
qed

text \<open>If observers have work left on the cold shard, one of them can do an access of it.\<close>

lemma pending_some:
  "pending c ths \<noteq> {#} \<Longrightarrow> \<exists>i a acts. i < length ths \<and> ths ! i = Obs c (a # acts)"
proof (induction ths)
  case Nil
  then show ?case by (simp add: pending_def)
next
  case (Cons t ths)
  show ?case
  proof (cases "obs_actions c t = []")
    case True
    with Cons have "\<exists>i a acts. i < length ths \<and> ths ! i = Obs c (a # acts)" by (simp add: pending_def)
    then obtain i a acts where "i < length ths" "ths ! i = Obs c (a # acts)" by blast
    then show ?thesis by (intro exI [of _ "Suc i"]) auto
  next
    case False
    then obtain a acts where "t = Obs c (a # acts)"
      by (cases t; cases "obs_actions c t") (auto split: if_splits)
    then show ?thesis by (intro exI [of _ 0]) auto
  qed
qed

lemma drain_run:
  assumes "hist_inv bounds s" and "csum (log_of (hs_started s)) < 2 ^ 63" and "hs_phase s = Waiting c n"
  shows "\<exists>s'. (hist_step ^^ cold_todo c s) s s' \<and> hist_inv bounds s' \<and> hs_started s' = hs_started s \<and>
    hs_flip_at s' = hs_flip_at s \<and> hs_phase s' = Waiting c n \<and> cold_todo c s' = 0"
  using assms
proof (induction "cold_todo c s" arbitrary: s)
  case 0
  then show ?case by (intro exI [of _ s]) simp
next
  case (Suc k)
  then have "pending c (hs_threads s) \<noteq> {#}" by (auto simp: cold_todo_def)
  from pending_some [OF this] obtain i a acts
    where t: "i < length (hs_threads s)" "hs_threads s ! i = Obs c (a # acts)" by blast
  define s1 where "s1 = (upd_shard c (shard_apply a) s)\<lparr>hs_threads := (hs_threads s)[i := Obs c acts]\<rparr>"
  have st: "hist_step s s1" unfolding s1_def by (rule hist_step.access [OF t])
  have inv1: "hist_inv bounds s1" unfolding s1_def by (rule access_preserves [OF Suc.prems(1) t])
  have same: "hs_started s1 = hs_started s" "hs_phase s1 = Waiting c n"
    and flip: "hs_flip_at s1 = hs_flip_at s"
    using Suc.prems(3) by (simp_all add: s1_def)
  have "k = cold_todo c s1"
    using pending_access(1) [OF t] Suc.hyps(2) by (simp add: s1_def cold_todo_def)
  from Suc.hyps(1) [OF this inv1 _ same(2)] Suc.prems(2) same(1) obtain s'
    where "(hist_step ^^ cold_todo c s1) s1 s'" "hist_inv bounds s'" "hs_started s' = hs_started s"
      "hs_flip_at s' = hs_flip_at s" "hs_phase s' = Waiting c n" "cold_todo c s' = 0"
    using flip by auto
  moreover have "cold_todo c s = Suc (cold_todo c s1)" using Suc.hyps(2) \<open>k = cold_todo c s1\<close> by simp
  ultimately show ?case using st by (metis relpowp_Suc_I2)
qed

lemma waiting_finishes:
  assumes inv: "hist_inv bounds s" and lt: "csum (log_of (hs_started s)) < 2 ^ 63"
    and w: "hs_phase s = Waiting c n"
  shows "\<exists>s' h. (hist_step ^^ (cold_todo c s + (2 * length bounds + 5))) s s' \<and> hs_phase s' = Unlocking h \<and>
    hs_started s' = hs_started s \<and> hs_flip_at s' = hs_flip_at s"
proof -
  from drain_run [OF assms] obtain s1 where s1: "(hist_step ^^ cold_todo c s) s s1" "hist_inv bounds s1"
    "hs_started s1 = hs_started s" "hs_phase s1 = Waiting c n" "cold_todo c s1 = 0"
    and flip: "hs_flip_at s1 = hs_flip_at s" by blast
  from collect_finishes [OF s1(2)] lt s1 obtain s' h
    where s': "(hist_step ^^ rank (length bounds) (hs_phase s1)) s1 s'"
      "hs_phase s' = Unlocking h" "hs_started s' = hs_started s" "hs_flip_at s' = hs_flip_at s"
    using flip by auto
  have "(hist_step ^^ (cold_todo c s + (2 * length bounds + 5))) s s'"
    using s1(1,4) s'(1) by (auto simp: relpowp_add)
  with s' show ?thesis by blast
qed

section \<open>Local histograms\<close>

text \<open>
  A local histogram that observed some values is flushed as one operation that puts into the
  shared one what observing the values there one by one would have put.
\<close>

definition local_rep :: "f64 list \<Rightarrow> f64 list \<Rightarrow> LocalHistogramCore \<Rightarrow> bool" where
  "local_rep bounds vs l \<longleftrightarrow>
     length (lh_counts l) = length bounds \<and>
     (\<forall>j < length bounds. lh_counts l ! j = bsum (log_of (map (observation bounds) vs)) j) \<and>
     lh_count l = of_nat (length vs) \<and> f64_sum (mset vs) (lh_sum l)"

lemma local_rep_observe:
  assumes "local_rep bounds vs l"
  shows "local_rep bounds (vs @ [v]) (local_observe bounds v l)"
proof -
  have "f64_sum (add_mset v (mset vs)) (f64_add (lh_sum l) v)"
    using assms by (simp add: local_rep_def f64_sum_add1)
  with assms find_bucket_Some(1) [of bounds v] show ?thesis
    by (auto simp: local_rep_def local_observe_def Let_def observation_def observe_totals
        nth_list_update split: option.splits)
qed

lemma local_rep_run: "local_rep bounds vs0 l \<Longrightarrow> local_rep bounds (vs0 @ vs) (fold (local_observe bounds) vs l)"
proof (induction vs arbitrary: vs0 l)
  case Nil
  then show ?case by simp
next
  case (Cons v vs)
  from Cons.IH [OF local_rep_observe [OF Cons.prems]] show ?case by simp
qed

lemma local_rep_new: "local_rep (hc_upper_bounds core) [] (LocalHistogramCore_new core)"
  by (simp add: local_rep_def LocalHistogramCore_new_def f64_sum.zero)

lemma bsum_bucket_incs:
  "bsum (mset (bucket_incs i counts)) j = (if i \<le> j \<and> j - i < length counts then counts ! (j - i) else 0)"
proof (induction i counts rule: bucket_incs.induct)
  case (1 i)
  then show ?case by simp
next
  case (2 i v counts)
  show ?case
  proof (cases "j = i")
    case True
    with 2 show ?thesis by (auto simp: word_gt_0)
  next
    case False
    then have "i \<le> j \<Longrightarrow> j - i = Suc (j - Suc i)" by simp
    with 2 False show ?thesis by (auto simp: word_gt_0)
  qed
qed

lemma ssum_bucket_incs [simp]: "ssum (mset (bucket_incs i counts)) = {#}"
  by (induction i counts rule: bucket_incs.induct) auto

lemma flush_totals:
  assumes "local_rep bounds vs l" and "length vs < 2 ^ 64"
  shows "csum (mset (flush_actions l)) = length vs"
    and "j < length bounds \<Longrightarrow>
      bsum (mset (flush_actions l)) j = bsum (log_of (map (observation bounds) vs)) j"
    and "\<exists>x. ssum (mset (flush_actions l)) = {#x#} \<and> f64_sum (mset vs) x"
  using assms
  by (auto simp: flush_actions_def local_rep_def bucket_incs_count bsum_bucket_incs unat_of_nat)

end
