(* ===== verification/Metric_Histogram_Local.thy ===== *)
theory Metric_Histogram_Local
  imports Metric_Histogram_Spec
begin

text \<open>
  Observations and flushes of local histograms, by the values they stand for
  (\<open>src/prometheus/src/histogram.rs\<close>): what a snapshot of any mixture of the two reports, and
  that flushing a local histogram leaves the shared one as observing its values there one by
  one does.
\<close>

section \<open>The values of an operation\<close>

inductive stands_for :: "f64 list \<Rightarrow> f64 list \<Rightarrow> u64 \<times> shard_action list \<Rightarrow> bool" for bounds where
  one_value: "stands_for bounds [v] (observation bounds v)"
| flushed:
    "local_rep bounds vs l \<Longrightarrow> 0 < length vs \<Longrightarrow> length vs < 2 ^ 64 \<Longrightarrow>
     stands_for bounds vs (lh_count l, flush_actions l)"

text \<open>Sums of sums are sums.\<close>

lemma f64_sum_subst:
  assumes "f64_sum A y" and "image_mset snd P = A" and "\<forall>(B, x) \<in># P. f64_sum B x"
  shows "f64_sum (\<Sum>\<^sub># (image_mset fst P)) y"
  using assms
proof (induction arbitrary: P)
  case zero
  then show ?case by (simp add: f64_sum.zero)
next
  case (one v)
  then obtain B where "P = {#(B, v)#}" by (auto dest!: msed_map_invR)
  with one show ?case by simp
next
  case (plus A x B y)
  from plus.prems(1) obtain P1 P2 where p: "P = P1 + P2" "image_mset snd P1 = A" "image_mset snd P2 = B"
    by (metis image_mset_eq_plusD)
  from plus.IH(1) [OF p(2)] plus.IH(2) [OF p(3)] plus.prems(2)
  show ?case by (simp add: p(1) f64_sum.plus)
qed

definition op_totals :: "f64 list \<Rightarrow> f64 list \<Rightarrow> shard_action multiset \<Rightarrow> bool" where
  "op_totals bounds vs M \<longleftrightarrow>
     csum M = length vs \<and>
     (\<forall>j < length bounds. bsum M j = bsum (log_of (map (observation bounds) vs)) j) \<and>
     (\<exists>P. image_mset snd P = ssum M \<and> \<Sum>\<^sub># (image_mset fst P) = mset vs \<and> (\<forall>(B, x) \<in># P. f64_sum B x))"

lemma op_totals_add:
  assumes "op_totals bounds us M" and "op_totals bounds vs N"
  shows "op_totals bounds (us @ vs) (M + N)"
proof -
  obtain P where P: "image_mset snd P = ssum M" "\<Sum>\<^sub># (image_mset fst P) = mset us"
    "\<forall>(B, x) \<in># P. f64_sum B x" using assms(1) unfolding op_totals_def by blast
  obtain Q where Q: "image_mset snd Q = ssum N" "\<Sum>\<^sub># (image_mset fst Q) = mset vs"
    "\<forall>(B, x) \<in># Q. f64_sum B x" using assms(2) unfolding op_totals_def by blast
  have "image_mset snd (P + Q) = ssum (M + N)" "\<Sum>\<^sub># (image_mset fst (P + Q)) = mset (us @ vs)"
    "\<forall>(B, x) \<in># P + Q. f64_sum B x" using P Q by auto
  then have "\<exists>P. image_mset snd P = ssum (M + N) \<and> \<Sum>\<^sub># (image_mset fst P) = mset (us @ vs) \<and>
      (\<forall>(B, x) \<in># P. f64_sum B x)" by blast
  then show ?thesis using assms by (simp add: op_totals_def)
qed

lemma op_totals_one:
  assumes "stands_for bounds vs p"
  shows "op_totals bounds vs (mset (snd p))"
  using assms
proof cases
  case (one_value v)
  have "\<exists>P. image_mset snd P = {#v#} \<and> \<Sum>\<^sub># (image_mset fst P) = {#v#} \<and> (\<forall>(B, x) \<in># P. f64_sum B x)"
    by (rule exI [of _ "{#({#v#}, v)#}"]) (simp add: f64_sum.one)
  then show ?thesis
    by (simp add: one_value op_totals_def observation_def observe_totals)
next
  case (flushed l)
  from flush_totals [OF flushed(2,4)] obtain x where t: "csum (mset (flush_actions l)) = length vs"
    "\<And>j. j < length bounds \<Longrightarrow> bsum (mset (flush_actions l)) j = bsum (log_of (map (observation bounds) vs)) j"
    "ssum (mset (flush_actions l)) = {#x#}" "f64_sum (mset vs) x" by blast
  have "\<exists>P. image_mset snd P = {#x#} \<and> \<Sum>\<^sub># (image_mset fst P) = mset vs \<and> (\<forall>(B, x) \<in># P. f64_sum B x)"
    by (rule exI [of _ "{#(mset vs, x)#}"]) (simp add: t(4))
  then show ?thesis by (simp add: flushed(1) op_totals_def t)
qed

lemma op_totals_all: "list_all2 (stands_for bounds) vss ops \<Longrightarrow> op_totals bounds (concat vss) (log_of ops)"
proof (induction rule: list_all2_induct)
  case Nil
  show ?case by (simp add: op_totals_def)
next
  case (Cons vs vss p ops)
  then show ?case by (simp add: op_totals_add op_totals_one)
qed

lemma op_totals_cumulative:
  assumes "op_totals bounds vs M" and "i < length bounds"
  shows "cumulative M (Suc i) = cumulative (log_of (map (observation bounds) vs)) (Suc i)"
  unfolding cumulative_def
  by (rule arg_cong [where f = sum_list], rule map_cong [OF refl])
    (use assms in \<open>auto simp: op_totals_def\<close>)

text \<open>The snapshot of some operations, by the values they stand for.\<close>

definition reports :: "f64 list \<Rightarrow> f64 list \<Rightarrow> ProtoHistogram \<Rightarrow> bool" where
  "reports bounds vs h \<longleftrightarrow>
     ph_sample_count h = of_nat (length vs) \<and> f64_sum (mset vs) (ph_sample_sum h) \<and>
     map b_upper_bound (ph_bucket h) = bounds \<and>
     map b_cumulative_count (ph_bucket h) =
       map (\<lambda>b. of_nat (length (filter (\<lambda>v. f64_le v b) vs))) bounds"

lemma snapshot_reports:
  assumes snap: "snapshot bounds M h" and tot: "op_totals bounds vs M" and ok: "bounds_ok bounds"
  shows "reports bounds vs h"
proof -
  have "f64_sum (mset vs) (ph_sample_sum h)"
  proof -
    from tot obtain P where P: "image_mset snd P = ssum M" "\<Sum>\<^sub># (image_mset fst P) = mset vs"
      "\<forall>(B, x) \<in># P. f64_sum B x" unfolding op_totals_def by blast
    from snap have "f64_sum (ssum M) (ph_sample_sum h)" by (simp add: snapshot_def)
    from f64_sum_subst [OF this P(1,3)] show ?thesis by (simp only: P(2))
  qed
  moreover have "cumulative M (Suc i) = of_nat (length (filter (\<lambda>v. f64_le v (bounds ! i)) vs))"
    if "i < length bounds" for i
    using op_totals_cumulative [OF tot that] observations_cumulative [OF ok that] by simp
  then have "map b_cumulative_count (ph_bucket h) =
      map (\<lambda>b. of_nat (length (filter (\<lambda>v. f64_le v b) vs))) bounds"
    using snap by (auto simp: snapshot_def bucket_list_def intro!: nth_equalityI)
  moreover have "map b_upper_bound (ph_bucket h) = bounds"
    using snap by (auto simp: snapshot_def bucket_list_def intro!: nth_equalityI)
  ultimately show ?thesis using snap tot by (simp add: reports_def snapshot_def op_totals_def)
qed

section \<open>Flushing as observing\<close>

text \<open>Observing some values one after the other; \<open>None\<close> is the panic.\<close>

fun observe_list :: "f64 list \<Rightarrow> HistogramCore \<Rightarrow> HistogramCore option" where
  "observe_list [] core = Some core"
| "observe_list (v # vs) core = Option.bind (observe v core) (observe_list vs)"

lemma rep_run:
  "rep nb sh (\<lambda>j. bsum M j + X j) (csum M + Y) (ssum M + Z) \<Longrightarrow> list_all (action_ok nb) acts \<Longrightarrow>
     csum M + Y + csum (mset acts) < 2 ^ 64 \<Longrightarrow>
     rep nb (fold shard_apply acts sh) (\<lambda>j. bsum (M + mset acts) j + X j) (csum (M + mset acts) + Y)
       (ssum (M + mset acts) + Z)"
proof (induction acts arbitrary: sh M)
  case (Cons a acts)
  from Cons.prems(2,3) have a: "action_ok nb a" "csum M + Y + act_count a < 2 ^ 64" by simp_all
  note step = rep_apply [OF Cons.prems(1) a]
  from Cons.prems(2,3) have "list_all (action_ok nb) acts"
    "csum (add_mset a M) + Y + csum (mset acts) < 2 ^ 64" by simp_all
  from Cons.IH [OF step this] show ?case by simp
qed simp

text \<open>The histogram after some operations by one thread, from the one before.\<close>

definition after_ops :: "ShardIndex \<Rightarrow> nat \<Rightarrow> HistogramCore \<Rightarrow> shard_action multiset \<Rightarrow> HistogramCore \<Rightarrow> bool" where
  "after_ops x n core M core' \<longleftrightarrow>
     hc_upper_bounds core' = hc_upper_bounds core \<and> hc_desc core' = hc_desc core \<and>
     hc_label_pairs core' = hc_label_pairs core \<and>
     hc_shard_and_count core' = sac_word x (n + csum M) \<and>
     hc_shards core' (inverse_shard x) = hc_shards core (inverse_shard x) \<and>
     rep (length (hc_upper_bounds core)) (hc_shards core' x)
       (\<lambda>j. bsum M j + sh_buckets (hc_shards core x) ! j) (csum M + unat (sh_count (hc_shards core x)))
       (ssum M + {#sh_sum (hc_shards core x)#})"

lemma after_no_ops:
  assumes "length (sh_buckets (hc_shards core x)) = length (hc_upper_bounds core)"
    and "hc_shard_and_count core = sac_word x n"
  shows "after_ops x n core {#} core"
  using assms by (simp add: after_ops_def rep_def f64_sum.one)

lemma after_op:
  assumes aft: "after_ops x n core M core'" and ok: "op_ok (length (hc_upper_bounds core)) (k, acts)"
    and small: "n + csum M + unat k < 2 ^ 63" "csum M + unat (sh_count (hc_shards core x)) + unat k < 2 ^ 64"
  shows "\<exists>found w. sac_inc_by k (hc_shard_and_count core') = (Some (x, found), w) \<and>
    after_ops x n core (M + mset acts) (run_actions x acts (core'\<lparr>hc_shard_and_count := w\<rparr>))"
proof -
  have k: "csum (mset acts) = unat k" "list_all (action_ok (length (hc_upper_bounds core))) acts"
    using ok by (simp_all add: op_ok_def acts_ok_def)
  have inc: "sac_inc_by k (hc_shard_and_count core') =
      (Some (x, of_nat (n + csum M)), sac_word x (n + csum M + unat k))"
    using aft small(1) by (simp add: sac_inc_by_def after_ops_def sac_word_split sac_word_add)
  have "rep (length (hc_upper_bounds core)) (fold shard_apply acts (hc_shards core' x))
       (\<lambda>j. bsum (M + mset acts) j + sh_buckets (hc_shards core x) ! j)
       (csum (M + mset acts) + unat (sh_count (hc_shards core x)))
       (ssum (M + mset acts) + {#sh_sum (hc_shards core x)#})"
    by (rule rep_run) (use aft k small(2) in \<open>simp_all add: after_ops_def\<close>)
  then have "after_ops x n core (M + mset acts)
      (run_actions x acts (core'\<lparr>hc_shard_and_count := sac_word x (n + csum M + unat k)\<rparr>))"
    using aft k by (simp add: after_ops_def run_actions_def add.assoc)
  with inc show ?thesis by blast
qed

lemma after_observe:
  assumes aft: "after_ops x n core M core'"
    and small: "n + csum M + 1 < 2 ^ 63" "csum M + unat (sh_count (hc_shards core x)) + 1 < 2 ^ 64"
  shows "\<exists>core''. observe v core' = Some core'' \<and>
    after_ops x n core (M + mset (snd (observation (hc_upper_bounds core) v))) core''"
proof -
  have b: "hc_upper_bounds core' = hc_upper_bounds core" using aft by (simp add: after_ops_def)
  from after_op [OF aft observe_ok [of _ v]] small
  show ?thesis by (auto simp: observe_def b observation_def)
qed

lemma after_observe_list:
  "after_ops x n core M core' \<Longrightarrow> n + csum M + length vs < 2 ^ 63 \<Longrightarrow>
     csum M + unat (sh_count (hc_shards core x)) + length vs < 2 ^ 64 \<Longrightarrow>
     \<exists>core''. observe_list vs core' = Some core'' \<and>
       after_ops x n core (M + log_of (map (observation (hc_upper_bounds core)) vs)) core''"
proof (induction vs arbitrary: M core')
  case (Cons v vs)
  let ?M = "M + mset (snd (observation (hc_upper_bounds core) v))"
  from Cons.prems have "n + csum M + 1 < 2 ^ 63"
    "csum M + unat (sh_count (hc_shards core x)) + 1 < 2 ^ 64" by simp_all
  from after_observe [OF Cons.prems(1) this] obtain c1 where c1: "observe v core' = Some c1"
    "after_ops x n core ?M c1" by blast
  have "csum ?M = csum M + 1" by (simp add: observation_def observe_totals)
  with Cons.prems have "n + csum ?M + length vs < 2 ^ 63"
    "csum ?M + unat (sh_count (hc_shards core x)) + length vs < 2 ^ 64" by simp_all
  from Cons.IH [OF c1(2) this] c1(1) show ?case by (simp add: add.assoc)
qed simp

text \<open>Two results with the same totals differ at most in the rounding of the sum.\<close>

lemma after_same:
  assumes a: "after_ops x n core M c1" and b: "after_ops x n core N c2"
    and c: "csum M = csum N" "\<forall>j < length (hc_upper_bounds core). bsum M j = bsum N j"
  shows "hc_shard_and_count c1 = hc_shard_and_count c2 \<and>
    hc_upper_bounds c1 = hc_upper_bounds c2 \<and>
    (\<forall>y. sh_count (hc_shards c1 y) = sh_count (hc_shards c2 y) \<and>
       sh_buckets (hc_shards c1 y) = sh_buckets (hc_shards c2 y))"
proof -
  have x: "sh_count (hc_shards c1 x) = sh_count (hc_shards c2 x)"
    using a b c(1) by (simp add: after_ops_def rep_def word_unat_eq_iff)
  have y: "sh_buckets (hc_shards c1 x) = sh_buckets (hc_shards c2 x)"
    by (rule nth_equalityI) (use a b c(2) in \<open>simp_all add: after_ops_def rep_def\<close>)
  have z: "hc_shards c1 (inverse_shard x) = hc_shards c2 (inverse_shard x)"
    using a b by (simp add: after_ops_def)
  have "sh_count (hc_shards c1 y) = sh_count (hc_shards c2 y) \<and>
      sh_buckets (hc_shards c1 y) = sh_buckets (hc_shards c2 y)" for y
    using x y z by (cases x; cases y) simp_all
  with a b c(1) show ?thesis by (simp add: after_ops_def)
qed

text \<open>Every word is an index and a count.\<close>

lemma sac_get_word:
  assumes "sac_get w = Some (x, c)"
  shows "w = sac_word x (unat c) \<and> unat c < 2 ^ 63"
proof -
  have "\<exists>h n. w = sac_word h n \<and> n < 2 ^ 63"
  proof (cases "unat w < 2 ^ 63")
    case True
    then show ?thesis by (intro exI [of _ First] exI [of _ "unat w"]) (simp add: sac_word_def)
  next
    case False
    then have n: "unat w - 2 ^ 63 < 2 ^ 63" using unat_lt2p [of w] by simp
    with False have "w = sac_word Second (unat w - 2 ^ 63)"
      by (simp only: word_unat_eq_iff sac_word_unat [OF n]) simp
    with n show ?thesis by blast
  qed
  then obtain h n where w: "w = sac_word h n" "n < 2 ^ 63" by blast
  with assms sac_word_split [OF w(2), of h] have "x = h" "c = of_nat n" by (simp_all add: sac_get_def)
  moreover have "unat (of_nat n :: u64) = n" using w(2) by (simp add: unat_of_nat)
  ultimately show ?thesis using w by simp
qed

lemma local_fold_cleared:
  assumes "local_rep bounds vs l" and "hc_upper_bounds core = bounds"
  shows "local_clear l = LocalHistogramCore_new core"
  using assms by (auto simp: local_rep_def local_clear_def LocalHistogramCore_new_def map_replicate_const)

lemma after_sum:
  assumes "after_ops x n core M c" and "op_totals (hc_upper_bounds core) vs M"
  shows "f64_sum (add_mset (sh_sum (hc_shards core x)) (mset vs)) (sh_sum (hc_shards c x))"
proof -
  let ?s = "sh_sum (hc_shards core x)"
  from assms(2) obtain P where P: "image_mset snd P = ssum M" "\<Sum>\<^sub># (image_mset fst P) = mset vs"
    "\<forall>(B, x) \<in># P. f64_sum B x" unfolding op_totals_def by blast
  from assms(1) have "f64_sum (ssum M + {#?s#}) (sh_sum (hc_shards c x))" by (simp add: after_ops_def rep_def)
  from f64_sum_subst [OF this, of "add_mset ({#?s#}, ?s) P"] P show ?thesis by (simp add: f64_sum.one)
qed

lemma op_totals_observations:
  "op_totals bounds vs (log_of (map (observation bounds) vs))"
  using op_totals_all [of bounds "map (\<lambda>v. [v]) vs" "map (observation bounds) vs"]
  by (simp add: list_all2_conv_all_nth stands_for.one_value concat_map_singleton)

section \<open>Running a collect\<close>

lemma adjusted_bounds_ok:
  assumes "check_and_adjust_buckets shown buckets = Inr bounds" and "NaN \<notin> set bounds"
  shows "bounds_ok bounds"
proof -
  obtain al where al: "al = (if buckets = [] then DEFAULT_BUCKETS else buckets)" by blast
  with assms(1) have inc: "check_increasing shown al = Inr ()"
    and b: "bounds = (if last al = PInf then butlast al else al)"
    unfolding check_and_adjust_buckets_def al [symmetric] by (auto simp: Let_def bind_res_Inr_iff)
  have "al \<noteq> []" by (simp add: al DEFAULT_BUCKETS_def)
  then have all: "al = butlast al @ [last al]" by simp
  have "set al = insert (last al) (set (butlast al))" using arg_cong [OF all, of set] by simp
  then have "set al \<subseteq> insert PInf (set bounds)" using b by (cases "last al = PInf") auto
  then have "NaN \<notin> set al" using assms(2) by auto
  from check_increasing_sorted [OF inc this] have s: "sorted_wrt (\<lambda>a b. f64_le a b) al" .
  then have "sorted_wrt (\<lambda>a b. f64_le a b) (butlast al)"
    by (subst (asm) all) (simp only: sorted_wrt_append)
  with s have "sorted_wrt (\<lambda>a b. f64_le a b) bounds" by (simp add: b)
  with assms(2) show ?thesis by (simp add: bounds_ok_def)
qed

lemma collect_ends:
  assumes inv: "hist_inv bounds s" and lt: "csum (log_of (hs_started s)) < 2 ^ 63" and act: "hs_phase s \<noteq> Idle"
  shows "\<exists>n s' h. (hist_step ^^ n) s s' \<and> hs_phase s' = Unlocking h \<and>
    n \<le> size (pending First (hs_threads s)) + size (pending Second (hs_threads s)) + 2 * length bounds + 6"
proof -
  have todo: "cold_todo c s1 \<le> size (pending First (hs_threads s)) + size (pending Second (hs_threads s))"
    if "hs_threads s1 = hs_threads s" for c s1
    using that by (cases c) (simp_all add: cold_todo_def)
  have wait: "\<exists>n s' h. (hist_step ^^ n) s1 s' \<and> hs_phase s' = Unlocking h \<and>
      n \<le> size (pending First (hs_threads s)) + size (pending Second (hs_threads s)) + 2 * length bounds + 5"
    if "hist_inv bounds s1" "csum (log_of (hs_started s1)) < 2 ^ 63" "hs_phase s1 = Waiting c n"
      "hs_threads s1 = hs_threads s" for s1 c n
  proof -
    from waiting_finishes [OF that(1-3)] obtain s' h where
      "(hist_step ^^ (cold_todo c s1 + (2 * length bounds + 5))) s1 s'" "hs_phase s' = Unlocking h" by blast
    then show ?thesis
      using todo [OF that(4), of c]
      by (intro exI [of _ "cold_todo c s1 + (2 * length bounds + 5)"] exI [of _ s'] exI [of _ h]) simp
  qed
  show ?thesis
  proof (cases "\<exists>c n. hs_phase s = Waiting c n")
    case True
    then obtain c n where "hs_phase s = Waiting c n" by blast
    from wait [OF inv lt this refl] obtain k s' h where "(hist_step ^^ k) s s'" "hs_phase s' = Unlocking h"
      "k \<le> size (pending First (hs_threads s)) + size (pending Second (hs_threads s)) + 2 * length bounds + 5"
      by blast
    then show ?thesis by (intro exI [of _ k] exI [of _ s'] exI [of _ h]) simp
  next
    case nw: False
    show ?thesis
    proof (cases "hs_phase s = Locked")
      case True
      then have "0 < rank (length bounds) (hs_phase s)" by simp
      from collect_progress [OF inv lt this] True obtain s1 where s1: "collect_step s = Some s1"
        "hs_threads s1 = hs_threads s" "hs_started s1 = hs_started s" by auto
      obtain c n where "hs_phase s1 = Waiting c n"
        using s1(1) True by (auto simp: collect_step_def sac_flip_def)
      from wait [OF collect_preserves [OF inv s1(1)] _ this s1(2)] s1(3) lt obtain k s' h where
        k: "(hist_step ^^ k) s1 s'" "hs_phase s' = Unlocking h"
        "k \<le> size (pending First (hs_threads s)) + size (pending Second (hs_threads s)) + 2 * length bounds + 5"
        by auto
      have "(hist_step ^^ Suc k) s s'" using relpowp_Suc_I2 [of hist_step s s1 k s'] hist_step.collect [OF s1(1)] k(1) .
      with k(2,3) show ?thesis by (intro exI [of _ "Suc k"] exI [of _ s'] exI [of _ h]) simp
    next
      case False
      with nw have "cold_todo c s = 0 \<or> (\<forall>n. hs_phase s \<noteq> Waiting c n) \<and> hs_phase s \<noteq> Locked" for c by blast
      from collect_finishes [OF inv lt act this] obtain s' h where
        "(hist_step ^^ rank (length bounds) (hs_phase s)) s s'" "hs_phase s' = Unlocking h" by blast
      moreover have "rank (length bounds) (hs_phase s) \<le> 2 * length bounds + 6"
        by (cases "(length bounds, hs_phase s)" rule: rank.cases) simp_all
      ultimately show ?thesis
        by (intro exI [of _ "rank (length bounds) (hs_phase s)"] exI [of _ s'] exI [of _ h]) simp
    qed
  qed
qed

text \<open>Some values are observed at the same time, and then a collect takes the lock.\<close>

lemma observers_reach:
  assumes "hist_reach core s" and "hc_upper_bounds (hs_core s) = bounds" and "hs_phase s = Idle"
  shows "\<exists>s'. hist_reach core s' \<and> hs_phase s' = Idle \<and>
    hs_started s' = hs_started s @ map (observation bounds) vs"
  using assms
proof (induction vs arbitrary: s)
  case Nil
  then show ?case by auto
next
  case (Cons v vs)
  obtain idx c where "split_shard_index_and_count (hc_shard_and_count (hs_core s)) = Some (idx, c)"
    using split_total [of "hc_shard_and_count (hs_core s)"] by auto
  then obtain s1 where s1: "begin_op 1 (observe_actions bounds v) s = Some s1"
    by (simp add: begin_op_def sac_inc_by_def)
  then have "hc_upper_bounds (hs_core s1) = bounds" "hs_phase s1 = Idle"
    "hs_started s1 = hs_started s @ [observation bounds v]"
    using Cons.prems(2,3) by (auto elim!: begin_op_Some simp: observation_def)
  moreover have "hist_reach core s1"
    by (rule hist_reach.more [OF Cons.prems(1) hist_step.start_observe [where v = v]])
      (simp only: Cons.prems(2) s1)
  ultimately show ?case using Cons.IH [of s1] by auto
qed

text \<open>And a collect then reports them.\<close>

lemma reach_relpowp: "(hist_step ^^ n) s s' \<Longrightarrow> hist_reach core s \<Longrightarrow> hist_reach core s'"
  by (induction n arbitrary: s') (auto intro: hist_reach.more)

lemma collect_reach:
  assumes fresh: "hist_fresh bounds core" and n: "length vs < 2 ^ 63"
  shows "\<exists>s h. hist_reach core s \<and> hs_phase s = Unlocking h \<and> hs_started s = map (observation bounds) vs \<and>
    take (hs_flip_at s) (hs_started s) = map (observation bounds) vs"
proof -
  have "hc_upper_bounds (hs_core (hist_start core)) = bounds" "hs_phase (hist_start core) = Idle"
    "hs_started (hist_start core) = []"
    using fresh by (simp_all add: hist_start_def hist_fresh_def)
  from observers_reach [OF hist_reach.start this(1,2), of vs] this(3) obtain s1 where s1: "hist_reach core s1"
    "hs_phase s1 = Idle" "hs_started s1 = map (observation bounds) vs" by auto
  let ?s = "s1\<lparr>hs_phase := Locked\<rparr>"
  have r: "hist_reach core ?s" by (rule hist_reach.more [OF s1(1) hist_step.lock [OF s1(2)]])
  obtain idx c where "split_shard_index_and_count (hc_shard_and_count (hs_core s1)) = Some (idx, c)"
    using split_total [of "hc_shard_and_count (hs_core s1)"] by auto
  then obtain s2 where s2: "collect_step ?s = Some s2" "hs_phase s2 = Waiting idx c"
    "hs_started s2 = map (observation bounds) vs" "hs_flip_at s2 = length vs"
    by (simp add: collect_step_def sac_flip_def s1(3))
  have r2: "hist_reach core s2" by (rule hist_reach.more [OF r hist_step.collect [OF s2(1)]])
  from waiting_finishes [OF hist_inv_reach [OF r2 fresh] _ s2(2)] n obtain k s3 h where
    "(hist_step ^^ k) s2 s3" "hs_phase s3 = Unlocking h" "hs_started s3 = hs_started s2"
    "hs_flip_at s3 = hs_flip_at s2" by (auto simp: s2(3) observations_count)
  with reach_relpowp [OF _ r2] s2(3,4) show ?thesis by (intro exI [of _ s3] exI [of _ h]) auto
qed

text \<open>A histogram with one bucket, for concrete runs.\<close>

definition one_bucket :: HistogramCore where
  "one_bucket =
     \<lparr>hc_desc = \<lparr>d_fq_name = ''h'', d_help = ''help'', d_const_label_pairs = [], d_variable_labels = [],
        d_id = 7, d_dim_hash = 7\<rparr>,
      hc_label_pairs = [], hc_shard_and_count = 0, hc_shards = (\<lambda>_. Shard_new 1),
      hc_upper_bounds = [Fin 1]\<rparr>"

lemma one_bucket_new:
  "HistogramCore_new (\<lambda>_. 7) (\<lambda>_. []) ((HistogramOpts_new ''h'' ''help'')\<lparr>ho_buckets := [Fin 1]\<rparr>) [] =
     Inr one_bucket"
  by (simp add: HistogramCore_new_def one_bucket_def HistogramOpts_new_def Opts_describe_def Opts_new_def
      Opts_fq_name_def build_fq_name_def Desc_new_def is_valid_metric_name_def is_valid_ident_def
      matches_charset_with_colon_def matches_charset_without_colon_def is_ascii_alphabetic_def
      bind_res_def make_label_pairs_def check_and_adjust_buckets_def sort_labels_def)

end
