(* ===== verification/Metric_Desc_Spec.thy ===== *)
theory Metric_Desc_Spec
  imports Metric_Desc
begin

text \<open>
  When two descriptors have the same hashes (\<open>src/prometheus/src/desc.rs\<close>).
\<close>

section \<open>What the hashes are made of\<close>

lemma desc_ok_sorted:
  assumes "desc_ok n h vs cl"
  shows "desc_ok n h vs (map (\<lambda>l. (lp_name l, lp_value l))
    (sort_labels (map (\<lambda>(key, value). \<lparr>lp_name = key, lp_value = value\<rparr>) cl)))"
proof -
  let ?f = "\<lambda>(key, value). \<lparr>lp_name = key, lp_value = value\<rparr>"
  have "mset (map (\<lambda>l. (lp_name l, lp_value l)) (sort_labels (map ?f cl))) = mset cl"
    by (simp add: image_mset.compositionality comp_def split_def)
  then have m: "mset (map fst (map (\<lambda>l. (lp_name l, lp_value l)) (sort_labels (map ?f cl)))) = mset (map fst cl)"
    by (simp only: mset_map)
  show ?thesis
    using assms distinct_perm [OF m] mset_eq_setD [OF m] by (simp add: desc_ok_def list_all_iff del: set_map)
qed

lemma desc_key_utf8:
  assumes "list_all utf8_like (n # map snd cl)"
  shows "list_all utf8_like (desc_key n cl)"
proof -
  have "utf8_like (the (map_of cl k))" if k: "k \<in> fst ` set cl" for k
  proof -
    from k obtain v where v: "map_of cl k = Some v" using map_of_eq_None_iff [of cl k] by auto
    then have "v \<in> set (map snd cl)" by (metis map_of_SomeD set_zip_rightD zip_map_fst_snd)
    with v assms show ?thesis by (auto simp: list_all_iff)
  qed
  with assms show ?thesis by (simp add: desc_key_def list_all_iff)
qed

lemma desc_dims_utf8:
  assumes "list_all utf8_like (h # vs @ map fst cl)"
  shows "list_all utf8_like (desc_dims h vs cl)"
proof -
  have "set (desc_dims h vs cl) = insert h (Cons (CHR ''$'') ` set vs \<union> fst ` set cl)"
    using arg_cong [OF mset_fold_insort [of "map (Cons (CHR ''$'')) vs" "sort (map fst cl)"], of set_mset]
    by (simp add: desc_dims_def)
  with assms show ?thesis by (auto simp: list_all_iff utf8_like_def)
qed

lemma desc_dims_eq:
  assumes "desc_ok n h vs cl" and "desc_ok n' h' vs' cl'"
  shows "desc_dims h vs cl = desc_dims h' vs' cl' \<longleftrightarrow> h = h' \<and> set vs = set vs' \<and> fst ` set cl = fst ` set cl'"
proof -
  let ?s = "\<lambda>vs cl. fold insort (map (Cons (CHR ''$'')) vs) (sort (map fst cl))"
  have set: "set (?s vs cl) = Cons (CHR ''$'') ` set vs \<union> fst ` set cl" for vs and cl :: "(string \<times> string) list"
    using arg_cong [OF mset_fold_insort [of "map (Cons (CHR ''$'')) vs" "sort (map fst cl)"], of set_mset]
    by simp
  have dist: "distinct (?s vs cl)" if "desc_ok n h vs cl" for n h vs cl
  proof -
    have "Cons (CHR ''$'') ` set vs \<inter> set (map fst cl) = {}"
      using that by (intro const_names_dollar_free) (simp add: desc_ok_def)
    then have d: "distinct (map (Cons (CHR ''$'')) vs @ map fst cl)"
      using that by (simp add: desc_ok_def distinct_map)
    have m: "mset (?s vs cl) = mset (map (Cons (CHR ''$'')) vs @ map fst cl)"
      by (simp add: mset_fold_insort)
    show ?thesis by (rule distinct_perm [OF m, THEN iffD2, OF d])
  qed
  have parts: "set vs = {a. CHR ''$'' # a \<in> set (?s vs cl)}"
    "fst ` set cl = {a \<in> set (?s vs cl). is_valid_label_name a}" if "desc_ok n h vs cl" for n h vs cl
  proof -
    have v: "list_all is_valid_label_name (map fst cl)" using that by (simp add: desc_ok_def)
    then have "CHR ''$'' # a \<notin> fst ` set cl" for a
      using valid_label_name_not_dollar by (metis list_all_iff set_map)
    then show "set vs = {a. CHR ''$'' # a \<in> set (?s vs cl)}" unfolding set by auto
    show "fst ` set cl = {a \<in> set (?s vs cl). is_valid_label_name a}"
      unfolding set using v valid_label_name_not_dollar by (auto simp: list_all_iff)
  qed
  have "?s vs cl = ?s vs' cl' \<longleftrightarrow> set (?s vs cl) = set (?s vs' cl')"
    using sorted_distinct_set_unique [OF sorted_fold_insort dist [OF assms(1)] sorted_fold_insort dist [OF assms(2)]]
    by auto
  also have "\<dots> \<longleftrightarrow> set vs = set vs' \<and> fst ` set cl = fst ` set cl'"
  proof
    assume e: "set (?s vs cl) = set (?s vs' cl')"
    have "set vs = set vs'"
      by (rule trans [OF parts(1) [OF assms(1)]]) (unfold e, rule parts(1) [OF assms(2), symmetric])
    moreover have "fst ` set cl = fst ` set cl'"
      by (rule trans [OF parts(2) [OF assms(1)]]) (unfold e, rule parts(2) [OF assms(2), symmetric])
    ultimately show "set vs = set vs' \<and> fst ` set cl = fst ` set cl'" ..
  qed (simp add: set)
  finally show ?thesis by (simp add: desc_dims_def)
qed

end
