(* ===== verification/Metric_Vec.thy ===== *)
theory Metric_Vec
  imports Metric_Desc Hash_Map
begin

text \<open>
  Vectors of metrics that differ in their label values (\<open>src/prometheus/src/vec.rs\<close>). A child
  is a shared metric, so that the map holds handles of some type; what builds a child is given
  by \<open>build\<close>, on the label values. \<open>dbg\<close> is the text of a value in a message.
\<close>

section \<open>The vector\<close>

record ('o, 'm) MetricVecCore =
  vc_children :: "(u64, 'm) HashMap"
  vc_desc :: Desc
  vc_metric_type :: MetricType
  vc_opts :: 'o

definition MetricVec_create ::
  "Desc PromResult \<Rightarrow> MetricType \<Rightarrow> 'o \<Rightarrow> ('o, 'm) MetricVecCore PromResult" where
  "MetricVec_create described metric_type opts =
     bind_res described (\<lambda>desc.
       Inr \<lparr>vc_children = [], vc_desc = desc, vc_metric_type = metric_type, vc_opts = opts\<rparr>)"

definition vec_collect :: "('m \<Rightarrow> Metric) \<Rightarrow> ('o, 'm) MetricVecCore \<Rightarrow> MetricFamily" where
  "vec_collect metric v =
     \<lparr>mf_name = d_fq_name (vc_desc v), mf_help = d_help (vc_desc v),
      mf_field_type = vc_metric_type v, mf_metric = map (\<lambda>(_, child). metric child) (vc_children v)\<rparr>"

section \<open>Hashes of label values\<close>

definition hash_label_values ::
  "(bytes \<Rightarrow> u64) \<Rightarrow> ('o, 'm) MetricVecCore \<Rightarrow> string list \<Rightarrow> u64 PromResult" where
  "hash_label_values fnv v vals =
     (if length vals \<noteq> length (d_variable_labels (vc_desc v))
      then Inl (InconsistentCardinality (length (d_variable_labels (vc_desc v))) (length vals))
      else Inr (fnv (concat (map as_bytes vals))))"

fun lookup_labels :: "(string, string) HashMap \<Rightarrow> string list \<Rightarrow> string list PromResult" where
  "lookup_labels labels [] = Inr []"
| "lookup_labels labels (name # names) =
     (case hm_get labels name of
        None \<Rightarrow> Inl (Msg (''label name '' @ name @ '' missing in label map''))
      | Some val \<Rightarrow> bind_res (lookup_labels labels names) (\<lambda>vals. Inr (val # vals)))"

definition hash_labels ::
  "(bytes \<Rightarrow> u64) \<Rightarrow> ('o, 'm) MetricVecCore \<Rightarrow> (string, string) HashMap \<Rightarrow> u64 PromResult" where
  "hash_labels fnv v labels =
     (if length labels \<noteq> length (d_variable_labels (vc_desc v))
      then Inl (InconsistentCardinality (length (d_variable_labels (vc_desc v))) (length labels))
      else bind_res (lookup_labels labels (d_variable_labels (vc_desc v))) (\<lambda>vals.
             Inr (fnv (concat (map as_bytes vals)))))"

definition get_label_values ::
  "('o, 'm) MetricVecCore \<Rightarrow> (string, string) HashMap \<Rightarrow> string list PromResult" where
  "get_label_values v labels = lookup_labels labels (d_variable_labels (vc_desc v))"

section \<open>Children\<close>

definition get_or_create_metric ::
  "('o \<Rightarrow> string list \<Rightarrow> 'm PromResult) \<Rightarrow> u64 \<Rightarrow> string list \<Rightarrow> ('o, 'm) MetricVecCore
    \<Rightarrow> 'm PromResult \<times> ('o, 'm) MetricVecCore" where
  "get_or_create_metric build hash label_values v =
     (case hm_get (vc_children v) hash of
        Some metric \<Rightarrow> (Inr metric, v)
      | None \<Rightarrow>
          (case build (vc_opts v) label_values of
             Inl e \<Rightarrow> (Inl e, v)
           | Inr metric \<Rightarrow> (Inr metric, v\<lparr>vc_children := hm_insert hash metric (vc_children v)\<rparr>)))"

definition get_metric_with_label_values ::
  "(bytes \<Rightarrow> u64) \<Rightarrow> ('o \<Rightarrow> string list \<Rightarrow> 'm PromResult) \<Rightarrow> string list \<Rightarrow> ('o, 'm) MetricVecCore
    \<Rightarrow> 'm PromResult \<times> ('o, 'm) MetricVecCore" where
  "get_metric_with_label_values fnv build vals v =
     (case hash_label_values fnv v vals of
        Inl e \<Rightarrow> (Inl e, v)
      | Inr h \<Rightarrow>
          (case hm_get (vc_children v) h of
             Some metric \<Rightarrow> (Inr metric, v)
           | None \<Rightarrow> get_or_create_metric build h vals v))"

definition get_metric_with ::
  "(bytes \<Rightarrow> u64) \<Rightarrow> ('o \<Rightarrow> string list \<Rightarrow> 'm PromResult) \<Rightarrow> (string, string) HashMap
    \<Rightarrow> ('o, 'm) MetricVecCore \<Rightarrow> 'm PromResult \<times> ('o, 'm) MetricVecCore" where
  "get_metric_with fnv build labels v =
     (case hash_labels fnv v labels of
        Inl e \<Rightarrow> (Inl e, v)
      | Inr h \<Rightarrow>
          (case hm_get (vc_children v) h of
             Some metric \<Rightarrow> (Inr metric, v)
           | None \<Rightarrow>
               (case get_label_values v labels of
                  Inl e \<Rightarrow> (Inl e, v)
                | Inr vals \<Rightarrow> get_or_create_metric build h vals v)))"

text \<open>\<open>None\<close> is the panic of \<open>unwrap\<close>.\<close>

definition with_label_values ::
  "(bytes \<Rightarrow> u64) \<Rightarrow> ('o \<Rightarrow> string list \<Rightarrow> 'm PromResult) \<Rightarrow> string list \<Rightarrow> ('o, 'm) MetricVecCore
    \<Rightarrow> ('m \<times> ('o, 'm) MetricVecCore) option" where
  "with_label_values fnv build vals v =
     (case get_metric_with_label_values fnv build vals v of
        (Inl _, _) \<Rightarrow> None
      | (Inr m, v') \<Rightarrow> Some (m, v'))"

definition delete_hash ::
  "string \<Rightarrow> u64 PromResult \<Rightarrow> ('o, 'm) MetricVecCore \<Rightarrow> unit PromResult \<times> ('o, 'm) MetricVecCore" where
  "delete_hash missing hash v =
     (case hash of
        Inl e \<Rightarrow> (Inl e, v)
      | Inr h \<Rightarrow>
          if hm_get (vc_children v) h = None then (Inl (Msg missing), v)
          else (Inr (), v\<lparr>vc_children := hm_remove h (vc_children v)\<rparr>))"

definition delete_label_values ::
  "(bytes \<Rightarrow> u64) \<Rightarrow> (string list \<Rightarrow> string) \<Rightarrow> string list \<Rightarrow> ('o, 'm) MetricVecCore
    \<Rightarrow> unit PromResult \<times> ('o, 'm) MetricVecCore" where
  "delete_label_values fnv dbg vals v =
     delete_hash (''missing label values '' @ dbg vals) (hash_label_values fnv v vals) v"

definition vec_delete ::
  "(bytes \<Rightarrow> u64) \<Rightarrow> ((string, string) HashMap \<Rightarrow> string) \<Rightarrow> (string, string) HashMap
    \<Rightarrow> ('o, 'm) MetricVecCore \<Rightarrow> unit PromResult \<times> ('o, 'm) MetricVecCore" where
  "vec_delete fnv dbg labels v =
     delete_hash (''missing labels '' @ dbg labels) (hash_labels fnv v labels) v"

definition vec_reset :: "('o, 'm) MetricVecCore \<Rightarrow> ('o, 'm) MetricVecCore" where
  "vec_reset v = v\<lparr>vc_children := []\<rparr>"

section \<open>Lemmas\<close>

lemma lookup_labels_Inr:
  "lookup_labels labels names = Inr vals \<longleftrightarrow> map (hm_get labels) names = map Some vals"
proof (induction names arbitrary: vals)
  case Nil
  then show ?case by auto
next
  case (Cons name names)
  then show ?case by (cases vals) (auto simp: bind_res_Inr_iff split: option.splits)
qed

text \<open>The two ways to name a child agree.\<close>

lemma hash_labels_values:
  assumes "hash_labels fnv v labels = Inr h"
  shows "\<exists>vals. get_label_values v labels = Inr vals \<and> hash_label_values fnv v vals = Inr h"
proof -
  from assms obtain vals where vals: "lookup_labels labels (d_variable_labels (vc_desc v)) = Inr vals"
    "h = fnv (concat (map as_bytes vals))"
    by (auto simp: hash_labels_def bind_res_Inr_iff split: if_splits)
  then have "map (hm_get labels) (d_variable_labels (vc_desc v)) = map Some vals"
    by (simp add: lookup_labels_Inr)
  then have "length vals = length (d_variable_labels (vc_desc v))" by (metis length_map)
  with vals show ?thesis by (simp add: get_label_values_def hash_label_values_def)
qed

lemma get_metric_with_same:
  assumes "get_label_values v labels = Inr vals" and "length labels = length (d_variable_labels (vc_desc v))"
  shows "get_metric_with fnv build labels v = get_metric_with_label_values fnv build vals v"
proof -
  from assms(1) have "map (hm_get labels) (d_variable_labels (vc_desc v)) = map Some vals"
    by (simp add: get_label_values_def lookup_labels_Inr)
  then have "length vals = length (d_variable_labels (vc_desc v))" by (metis length_map)
  with assms show ?thesis
    by (simp add: get_metric_with_def get_metric_with_label_values_def hash_labels_def
        hash_label_values_def get_label_values_def split: option.split)
qed

lemma get_metric_result:
  "get_metric_with_label_values fnv build vals v = (Inr m, v') \<Longrightarrow>
     hash_label_values fnv v vals = Inr (fnv (concat (map as_bytes vals))) \<and>
     hm_get (vc_children v') (fnv (concat (map as_bytes vals))) = Some m \<and>
     vc_desc v' = vc_desc v \<and> vc_opts v' = vc_opts v"
  by (auto simp: get_metric_with_label_values_def get_or_create_metric_def hash_label_values_def
      hm_get_insert split: sum.splits option.splits if_splits)

lemma get_metric_hit:
  "length vals = length (d_variable_labels (vc_desc v)) \<Longrightarrow>
   hm_get (vc_children v) (fnv (concat (map as_bytes vals))) = Some m \<Longrightarrow>
   get_metric_with_label_values fnv build vals v = (Inr m, v)"
  by (simp add: get_metric_with_label_values_def hash_label_values_def)

lemma get_metric_fresh:
  "length vals = length (d_variable_labels (vc_desc v)) \<Longrightarrow>
   hm_get (vc_children v) (fnv (concat (map as_bytes vals))) = None \<Longrightarrow>
   get_metric_with_label_values fnv build vals v =
     (case build (vc_opts v) vals of
        Inl e \<Rightarrow> (Inl e, v)
      | Inr m \<Rightarrow> (Inr m, v\<lparr>vc_children := hm_insert (fnv (concat (map as_bytes vals))) m (vc_children v)\<rparr>))"
  by (simp add: get_metric_with_label_values_def hash_label_values_def get_or_create_metric_def)

lemma as_bytes_concat: "concat (map as_bytes vals) = as_bytes (concat vals)"
  by (induction vals) (simp_all add: as_bytes_def)

end
