(* ===== verification/Metric_LocalVec.thy ===== *)
theory Metric_LocalVec
  imports Metric_Vec Metric_Value Metric_Histogram
begin

text \<open>
  Vectors of local counters and local histograms (\<open>GenericLocalCounterVec\<close> of
  \<open>src/prometheus/src/counter.rs\<close>, \<open>LocalHistogramVec\<close> of \<open>histogram.rs\<close>). A child of the shared
  vector is a handle into a heap of metrics; a local metric is kept with the handle it flushes
  to. \<open>None\<close> is a panic.
\<close>

record ('o, 'm, 'l) LocalVec =
  lv_vec :: "('o, 'm) MetricVecCore"
  lv_local :: "(u64, 'm \<times> 'l) HashMap"

definition LocalVec_new :: "('o, 'm) MetricVecCore \<Rightarrow> ('o, 'm, 'l) LocalVec" where
  "LocalVec_new vec = \<lparr>lv_vec = vec, lv_local = []\<rparr>"

text \<open>\<open>local m\<close> is a new local metric for the handle \<open>m\<close>; the result names the entry.\<close>

definition local_with_label_values ::
  "(bytes \<Rightarrow> u64) \<Rightarrow> ('o \<Rightarrow> string list \<Rightarrow> 'm PromResult) \<Rightarrow> ('m \<Rightarrow> 'l) \<Rightarrow> string list
    \<Rightarrow> ('o, 'm, 'l) LocalVec \<Rightarrow> (u64 \<times> ('o, 'm, 'l) LocalVec) option" where
  "local_with_label_values fnv build local vals lv =
     (case hash_label_values fnv (lv_vec lv) vals of
        Inl _ \<Rightarrow> None
      | Inr hash \<Rightarrow>
          (case hm_get (lv_local lv) hash of
             Some _ \<Rightarrow> Some (hash, lv)
           | None \<Rightarrow>
               (case with_label_values fnv build vals (lv_vec lv) of
                  None \<Rightarrow> None
                | Some (m, vec) \<Rightarrow>
                    Some (hash, \<lparr>lv_vec = vec, lv_local = hm_insert hash (m, local m) (lv_local lv)\<rparr>))))"

text \<open>Removing an entry drops it: \<open>on_drop\<close> is what its destructor does to the heap.\<close>

definition local_remove_label_values ::
  "(bytes \<Rightarrow> u64) \<Rightarrow> (string list \<Rightarrow> string) \<Rightarrow> ('m \<times> 'l \<Rightarrow> 'h \<Rightarrow> 'h) \<Rightarrow> string list
    \<Rightarrow> ('o, 'm, 'l) LocalVec \<times> 'h \<Rightarrow> unit PromResult \<times> ('o, 'm, 'l) LocalVec \<times> 'h" where
  "local_remove_label_values fnv dbg on_drop vals lvh =
     (case lvh of (lv, h) \<Rightarrow>
        (case hash_label_values fnv (lv_vec lv) vals of
           Inl e \<Rightarrow> (Inl e, lv, h)
         | Inr hash \<Rightarrow>
             (let h' = (case hm_get (lv_local lv) hash of None \<Rightarrow> h | Some x \<Rightarrow> on_drop x h) in
              case delete_label_values fnv dbg vals (lv_vec lv) of
                (res, vec) \<Rightarrow> (res, \<lparr>lv_vec = vec, lv_local = hm_remove hash (lv_local lv)\<rparr>, h'))))"

section \<open>Counters\<close>

type_synonym 'm counter_heap = "'m \<Rightarrow> AtomicU64 ValueM"

definition flush_counter ::
  "'m \<times> u64 GenericLocalCounter \<Rightarrow> 'm counter_heap \<Rightarrow> ('m \<times> u64 GenericLocalCounter) \<times> 'm counter_heap" where
  "flush_counter ml heap =
     (case ml of (m, l) \<Rightarrow>
        (case GenericLocalCounter_flush number_u64 atomic_u64 l (heap m) of
           (l', c) \<Rightarrow> ((m, l'), heap(m := c))))"

fun flush_counters ::
  "(u64, 'm \<times> u64 GenericLocalCounter) HashMap \<Rightarrow> 'm counter_heap
    \<Rightarrow> (u64, 'm \<times> u64 GenericLocalCounter) HashMap \<times> 'm counter_heap" where
  "flush_counters [] heap = ([], heap)"
| "flush_counters ((k, ml) # locals) heap =
     (case flush_counter ml heap of (ml', heap1) \<Rightarrow>
        (case flush_counters locals heap1 of (locals', heap2) \<Rightarrow> ((k, ml') # locals', heap2)))"

definition LocalCounterVec_flush ::
  "('o, 'm, u64 GenericLocalCounter) LocalVec \<times> 'm counter_heap
    \<Rightarrow> ('o, 'm, u64 GenericLocalCounter) LocalVec \<times> 'm counter_heap" where
  "LocalCounterVec_flush lvh =
     (case lvh of (lv, heap) \<Rightarrow>
        (case flush_counters (lv_local lv) heap of (locals, heap') \<Rightarrow> (lv\<lparr>lv_local := locals\<rparr>, heap')))"

definition LocalCounterVec_remove_label_values ::
  "(bytes \<Rightarrow> u64) \<Rightarrow> (string list \<Rightarrow> string) \<Rightarrow> string list
    \<Rightarrow> ('o, 'm, u64 GenericLocalCounter) LocalVec \<times> 'm counter_heap
    \<Rightarrow> unit PromResult \<times> ('o, 'm, u64 GenericLocalCounter) LocalVec \<times> 'm counter_heap" where
  "LocalCounterVec_remove_label_values fnv dbg vals lvh =
     local_remove_label_values fnv dbg (\<lambda>_ heap. heap) vals lvh"

definition LocalCounterVec_clone ::
  "('o, 'm, u64 GenericLocalCounter) LocalVec \<Rightarrow> ('o, 'm, u64 GenericLocalCounter) LocalVec" where
  "LocalCounterVec_clone lv = LocalVec_new (lv_vec lv)"

section \<open>Histograms\<close>

text \<open>The heap is \<open>None\<close> after a panic.\<close>

type_synonym 'm histogram_heap = "('m \<Rightarrow> HistogramCore) option"

definition flush_histogram ::
  "'m \<times> LocalHistogramCore \<Rightarrow> 'm histogram_heap \<Rightarrow> ('m \<times> LocalHistogramCore) \<times> 'm histogram_heap" where
  "flush_histogram ml heap =
     (case ml of (m, l) \<Rightarrow>
        (case heap of
           None \<Rightarrow> (ml, None)
         | Some h \<Rightarrow>
             (case local_flush l (h m) of
                None \<Rightarrow> (ml, None)
              | Some (l', core) \<Rightarrow> ((m, l'), Some (h(m := core))))))"

fun flush_histograms ::
  "(u64, 'm \<times> LocalHistogramCore) HashMap \<Rightarrow> 'm histogram_heap
    \<Rightarrow> (u64, 'm \<times> LocalHistogramCore) HashMap \<times> 'm histogram_heap" where
  "flush_histograms [] heap = ([], heap)"
| "flush_histograms ((k, ml) # locals) heap =
     (case flush_histogram ml heap of (ml', heap1) \<Rightarrow>
        (case flush_histograms locals heap1 of (locals', heap2) \<Rightarrow> ((k, ml') # locals', heap2)))"

definition LocalHistogramVec_flush ::
  "('o, 'm, LocalHistogramCore) LocalVec \<times> 'm histogram_heap
    \<Rightarrow> ('o, 'm, LocalHistogramCore) LocalVec \<times> 'm histogram_heap" where
  "LocalHistogramVec_flush lvh =
     (case lvh of (lv, heap) \<Rightarrow>
        (case flush_histograms (lv_local lv) heap of (locals, heap') \<Rightarrow> (lv\<lparr>lv_local := locals\<rparr>, heap')))"

text \<open>A local histogram flushes itself when it is dropped; a local counter does not.\<close>

definition LocalHistogramVec_remove_label_values ::
  "(bytes \<Rightarrow> u64) \<Rightarrow> (string list \<Rightarrow> string) \<Rightarrow> string list
    \<Rightarrow> ('o, 'm, LocalHistogramCore) LocalVec \<times> 'm histogram_heap
    \<Rightarrow> unit PromResult \<times> ('o, 'm, LocalHistogramCore) LocalVec \<times> 'm histogram_heap" where
  "LocalHistogramVec_remove_label_values fnv dbg vals lvh =
     local_remove_label_values fnv dbg (\<lambda>x heap. snd (flush_histogram x heap)) vals lvh"

definition LocalHistogramVec_clone ::
  "('o, 'm, LocalHistogramCore) LocalVec \<Rightarrow> ('o, 'm, LocalHistogramCore) LocalVec" where
  "LocalHistogramVec_clone lv = LocalVec_new (lv_vec lv)"

section \<open>Flushing counters loses nothing\<close>

definition heap_total :: "'m list \<Rightarrow> 'm counter_heap \<Rightarrow> u64" where
  "heap_total ms heap = sum_list (map (\<lambda>m. GenericCounter_get atomic_u64 (heap m)) ms)"

definition locals_total :: "(u64, 'm \<times> u64 GenericLocalCounter) HashMap \<Rightarrow> u64" where
  "locals_total locals = sum_list (map (\<lambda>(_, _, l). lc_val l) locals)"

lemma heap_total_upd:
  "distinct ms \<Longrightarrow> m \<in> set ms \<Longrightarrow>
     heap_total ms (heap(m := c)) =
       heap_total ms heap - GenericCounter_get atomic_u64 (heap m) + GenericCounter_get atomic_u64 c"
proof (induction ms)
  case (Cons x ms)
  have same: "heap_total ms (heap(m := c)) = heap_total ms heap" if "m \<notin> set ms" for ms
    using that by (induction ms) (auto simp: heap_total_def)
  from Cons same show ?case by (cases "x = m") (auto simp: heap_total_def algebra_simps)
qed simp

lemma flush_counter_total:
  assumes "distinct ms" and "fst ml \<in> set ms" and "flush_counter ml heap = (ml', heap')"
  shows "fst ml' = fst ml \<and> lc_val (snd ml') = 0 \<and>
    heap_total ms heap' = heap_total ms heap + lc_val (snd ml)"
  using assms
  by (cases ml)
    (auto simp: flush_counter_def GenericLocalCounter_flush_def number_u64_def heap_total_upd GenericCounter_get_def
      GenericCounter_inc_by_def au64.Value_get_inc [unfolded number_u64_def, simplified] split: if_splits)

lemma flush_counters_total:
  "flush_counters locals heap = (locals', heap') \<Longrightarrow> distinct ms \<Longrightarrow>
     (\<And>k m l. (k, m, l) \<in> set locals \<Longrightarrow> m \<in> set ms) \<Longrightarrow>
     heap_total ms heap' = heap_total ms heap + locals_total locals \<and>
     (\<forall>(k, m, l) \<in> set locals'. lc_val l = 0) \<and> map fst locals' = map fst locals"
proof (induction locals heap arbitrary: locals' heap' rule: flush_counters.induct)
  case (2 k ml locals heap)
  obtain ml' heap1 where f: "flush_counter ml heap = (ml', heap1)" by (rule prod.exhaust)
  obtain ls heap2 where r: "flush_counters locals heap1 = (ls, heap2)" by (rule prod.exhaust)
  have "fst ml \<in> set ms" using 2(4) [of k "fst ml" "snd ml"] by simp
  from flush_counter_total [OF 2(3) this f] have
    "lc_val (snd ml') = 0" "heap_total ms heap1 = heap_total ms heap + lc_val (snd ml)" by simp_all
  moreover have "heap_total ms heap2 = heap_total ms heap1 + locals_total locals \<and>
      (\<forall>(k, m, l) \<in> set ls. lc_val l = 0) \<and> map fst ls = map fst locals"
    by (rule 2(1) [OF f [symmetric] r 2(3)]) (use 2(4) in auto)
  ultimately show ?case
    using 2(2) by (auto simp: f r locals_total_def split_def)
qed (simp add: locals_total_def)

end
