(* ===== verification/Metric_Timer.thy ===== *)
theory Metric_Timer
  imports Metric_Value Metric_Histogram
begin

text \<open>
  The coarse clock of the metrics library (\<open>src/prometheus/src/timer.rs\<close>) as steps of threads
  over the shared atomic \<open>RECENT\<close>, the decision of \<open>MayFlush::try_flush\<close> (\<open>metrics.rs\<close>), and the
  counters and histograms that flush themselves (\<open>auto_flush.rs\<close>).
\<close>

section \<open>The clock\<close>

definition duration_to_millis :: "nat \<Rightarrow> u64" where
  "duration_to_millis nanos =
     word_of_nat (nanos div 1000000000) * 1000 + word_of_nat (nanos mod 1000000000 div 1000000)"

text \<open>
  Where a thread is in \<open>now_millis\<close>: it has the time \<open>t\<close>; then also the value of \<open>RECENT\<close> it last
  read. For the statements it also remembers the value of \<open>RECENT\<close> when the call began.
\<close>

datatype nm_pc = NmIdle | NmTime u64 u64 | NmLoop u64 u64 u64

record clock_sys =
  ck_nanos :: nat \<comment> \<open>since \<open>ANCHOR\<close>\<close>
  ck_recent :: u64
  ck_pc :: "nat \<Rightarrow> nm_pc"
  ck_returned :: "(u64 \<times> u64) list" \<comment> \<open>the latest first, with \<open>RECENT\<close> at the begin\<close>

definition clock_start :: clock_sys where
  "clock_start = \<lparr>ck_nanos = 0, ck_recent = 0, ck_pc = (\<lambda>_. NmIdle), ck_returned = []\<rparr>"

definition recent_millis :: "clock_sys \<Rightarrow> u64" where
  "recent_millis s = ck_recent s"

definition nm_return :: "nat \<Rightarrow> u64 \<Rightarrow> u64 \<Rightarrow> clock_sys \<Rightarrow> clock_sys" where
  "nm_return i before v s =
     s\<lparr>ck_pc := (ck_pc s)(i := NmIdle), ck_returned := (before, v) # ck_returned s\<rparr>"

text \<open>One step of thread \<open>i\<close>; \<open>spurious\<close>: a weak compare-and-exchange that fails for no reason.\<close>

definition now_millis_step :: "nat \<Rightarrow> bool \<Rightarrow> clock_sys \<Rightarrow> clock_sys" where
  "now_millis_step i spurious s =
     (case ck_pc s i of
        NmIdle \<Rightarrow> s\<lparr>ck_pc := (ck_pc s)(i := NmTime (duration_to_millis (ck_nanos s)) (ck_recent s))\<rparr>
      | NmTime t before \<Rightarrow> s\<lparr>ck_pc := (ck_pc s)(i := NmLoop t (ck_recent s) before)\<rparr>
      | NmLoop t recent before \<Rightarrow>
          if recent > t then nm_return i before recent s
          else if \<not> spurious \<and> ck_recent s = recent then nm_return i before t (s\<lparr>ck_recent := t\<rparr>)
          else s\<lparr>ck_pc := (ck_pc s)(i := NmLoop t (ck_recent s) before)\<rparr>)"

inductive clock_step :: "clock_sys \<Rightarrow> clock_sys \<Rightarrow> bool" where
  tick: "clock_step s (s\<lparr>ck_nanos := ck_nanos s + n\<rparr>)"
| thread: "clock_step s (now_millis_step i spurious s)"

inductive clock_steps :: "clock_sys \<Rightarrow> clock_sys \<Rightarrow> bool" where
  clock_refl: "clock_steps s s"
| clock_trans: "clock_steps s s1 \<Longrightarrow> clock_step s1 s2 \<Longrightarrow> clock_steps s s2"

inductive_cases clock_stepE: "clock_step s s'"

text \<open>\<open>ensure_updater\<close>: whether this caller starts the thread that calls \<open>now_millis\<close> for ever.\<close>

definition ensure_updater :: "bool \<Rightarrow> bool \<times> bool" where
  "ensure_updater updater_is_running = (\<not> updater_is_running, True)"

section \<open>Flushing\<close>

definition try_flush :: "u64 \<Rightarrow> u64 \<Rightarrow> ('m \<Rightarrow> 'm) \<Rightarrow> u64 \<times> 'm \<Rightarrow> u64 \<times> 'm" where
  "try_flush now flush_interval_millis flush lm =
     (case lm of (last_tick, m) \<Rightarrow>
        if now < last_tick + flush_interval_millis then (last_tick, m) else (now, flush m))"

text \<open>
  A thread's root metric \<open>'m\<close> is code generated by a macro of another crate: how to reach the
  counter or histogram in it, and its \<open>may_flush\<close> and \<open>flush\<close>, are parameters.
\<close>

record ('m, 'l) delegator =
  dg_get_local :: "'m \<Rightarrow> 'l"
  dg_put_local :: "'l \<Rightarrow> 'm \<Rightarrow> 'm"
  dg_may_flush :: "'m \<Rightarrow> 'm"
  dg_flush :: "'m \<Rightarrow> 'm"

definition with_local :: "('m, 'l) delegator \<Rightarrow> ('l \<Rightarrow> 'l) \<Rightarrow> 'm \<Rightarrow> 'm" where
  "with_local dg f m = dg_put_local dg (f (dg_get_local dg m)) m"

definition AFLocalCounter_inc_by :: "'t Number \<Rightarrow> ('m, 't GenericLocalCounter) delegator \<Rightarrow> 't \<Rightarrow> 'm \<Rightarrow> 'm" where
  "AFLocalCounter_inc_by num dg v m = dg_may_flush dg (with_local dg (GenericLocalCounter_inc_by num v) m)"

definition AFLocalCounter_inc :: "'t Number \<Rightarrow> ('m, 't GenericLocalCounter) delegator \<Rightarrow> 'm \<Rightarrow> 'm" where
  "AFLocalCounter_inc num dg m = dg_may_flush dg (with_local dg (GenericLocalCounter_inc num) m)"

definition AFLocalCounter_get :: "('m, 't GenericLocalCounter) delegator \<Rightarrow> 'm \<Rightarrow> 't" where
  "AFLocalCounter_get dg m = GenericLocalCounter_get (dg_get_local dg m)"

definition AFLocalCounter_reset :: "'t Number \<Rightarrow> ('m, 't GenericLocalCounter) delegator \<Rightarrow> 'm \<Rightarrow> 'm" where
  "AFLocalCounter_reset num dg m = with_local dg (GenericLocalCounter_reset num) m"

definition AFLocalCounter_flush :: "('m, 't GenericLocalCounter) delegator \<Rightarrow> 'm \<Rightarrow> 'm" where
  "AFLocalCounter_flush dg m = dg_flush dg m"

definition AFLocalHistogram_observe ::
  "('m, LocalHistogramCore) delegator \<Rightarrow> f64 list \<Rightarrow> f64 \<Rightarrow> 'm \<Rightarrow> 'm" where
  "AFLocalHistogram_observe dg bounds v m = dg_may_flush dg (with_local dg (local_observe bounds v) m)"

definition AFLocalHistogram_observe_closure_duration ::
  "('m, LocalHistogramCore) delegator \<Rightarrow> f64 list \<Rightarrow> nat \<Rightarrow> nat \<Rightarrow> ('m \<Rightarrow> 'a \<times> 'm) \<Rightarrow> 'm \<Rightarrow> 'a \<times> 'm" where
  "AFLocalHistogram_observe_closure_duration dg bounds instant later f m =
     (case f m of (res, m') \<Rightarrow> (res, AFLocalHistogram_observe dg bounds (elapsed_sec instant later) m'))"

definition AFLocalHistogram_clear :: "('m, LocalHistogramCore) delegator \<Rightarrow> 'm \<Rightarrow> 'm" where
  "AFLocalHistogram_clear dg m = with_local dg local_clear m"

text \<open>\<open>flush\<close> flushes this histogram alone, into the shared one.\<close>

definition AFLocalHistogram_flush ::
  "('m, LocalHistogramCore) delegator \<Rightarrow> 'm \<Rightarrow> HistogramCore \<Rightarrow> ('m \<times> HistogramCore) option" where
  "AFLocalHistogram_flush dg m core =
     map_option (\<lambda>(l, core'). (dg_put_local dg l m, core')) (local_flush (dg_get_local dg m) core)"

text \<open>The constructors keep the delegator and start the updater.\<close>

definition AFLocalCounter_new ::
  "('m, 't GenericLocalCounter) delegator \<Rightarrow> bool \<Rightarrow> ('m, 't GenericLocalCounter) delegator \<times> bool" where
  "AFLocalCounter_new dg updater_is_running = (dg, snd (ensure_updater updater_is_running))"

definition AFLocalHistogram_new ::
  "('m, LocalHistogramCore) delegator \<Rightarrow> bool \<Rightarrow> ('m, LocalHistogramCore) delegator \<times> bool" where
  "AFLocalHistogram_new dg updater_is_running = (dg, snd (ensure_updater updater_is_running))"

definition AFLocalHistogram_get_sample_sum :: "('m, LocalHistogramCore) delegator \<Rightarrow> 'm \<Rightarrow> f64" where
  "AFLocalHistogram_get_sample_sum dg m = lh_sum (dg_get_local dg m)"

definition AFLocalHistogram_get_sample_count :: "('m, LocalHistogramCore) delegator \<Rightarrow> 'm \<Rightarrow> u64" where
  "AFLocalHistogram_get_sample_count dg m = lh_count (dg_get_local dg m)"

section \<open>The clock never goes back\<close>

fun pc_ok :: "u64 \<Rightarrow> nm_pc \<Rightarrow> bool" where
  "pc_ok r NmIdle = True"
| "pc_ok r (NmTime t before) = (before \<le> r)"
| "pc_ok r (NmLoop t recent before) = (before \<le> recent \<and> recent \<le> r)"

definition clock_inv :: "clock_sys \<Rightarrow> bool" where
  "clock_inv s \<longleftrightarrow> (\<forall>i. pc_ok (ck_recent s) (ck_pc s i)) \<and>
     (\<forall>(before, v) \<in> set (ck_returned s). before \<le> v \<and> v \<le> ck_recent s)"

lemma pc_ok_mono: "pc_ok r pc \<Longrightarrow> r \<le> r' \<Longrightarrow> pc_ok r' pc"
  by (cases pc) (auto intro: order_trans)

lemma clock_inv_pc_ok: "clock_inv s \<Longrightarrow> ck_pc s i = pc \<Longrightarrow> pc_ok (ck_recent s) pc"
  by (auto simp: clock_inv_def)

lemma clock_start_inv: "clock_inv clock_start"
  by (simp add: clock_inv_def clock_start_def)

lemma now_millis_step_mono: "clock_inv s \<Longrightarrow> ck_recent s \<le> ck_recent (now_millis_step i b s)"
  by (auto simp: now_millis_step_def nm_return_def split: nm_pc.split)

lemma clock_inv_recent:
  assumes "clock_inv s" and "ck_recent s \<le> r"
  shows "clock_inv (s\<lparr>ck_recent := r\<rparr>)"
  using assms pc_ok_mono [OF _ assms(2)] unfolding clock_inv_def by (auto intro: order_trans)

lemma clock_inv_pc:
  assumes "clock_inv s" and "pc_ok (ck_recent s) pc"
  shows "clock_inv (s\<lparr>ck_pc := (ck_pc s)(i := pc)\<rparr>)"
  using assms unfolding clock_inv_def by simp

lemma clock_inv_return:
  assumes "clock_inv s" and "before \<le> v" and "v \<le> ck_recent s"
  shows "clock_inv (nm_return i before v s)"
  using assms unfolding clock_inv_def nm_return_def by simp

lemma now_millis_step_inv:
  assumes "clock_inv s"
  shows "clock_inv (now_millis_step i b s)"
proof (cases "ck_pc s i")
  case NmIdle
  then show ?thesis using assms by (auto simp: now_millis_step_def intro: clock_inv_pc)
next
  case (NmTime t before)
  then have "before \<le> ck_recent s" using clock_inv_pc_ok [OF assms] by fastforce
  then show ?thesis using NmTime assms by (auto simp: now_millis_step_def intro: clock_inv_pc)
next
  case (NmLoop t recent before)
  then have le: "before \<le> recent" "recent \<le> ck_recent s"
    using clock_inv_pc_ok [OF assms] by fastforce+
  show ?thesis
  proof (cases "recent > t")
    case True
    then show ?thesis using NmLoop assms le by (simp add: now_millis_step_def clock_inv_return)
  next
    case False
    then have t: "recent \<le> t" by simp
    show ?thesis
    proof (cases "\<not> b \<and> ck_recent s = recent")
      case True
      then have "clock_inv (s\<lparr>ck_recent := t\<rparr>)" using assms t by (intro clock_inv_recent) auto
      then show ?thesis
        using NmLoop True False le t by (simp add: now_millis_step_def clock_inv_return)
    next
      case False
      then show ?thesis
        using NmLoop t assms le by (auto simp: now_millis_step_def intro!: clock_inv_pc)
    qed
  qed
qed

lemma clock_step_inv: "clock_step s s' \<Longrightarrow> clock_inv s \<Longrightarrow> clock_inv s' \<and> ck_recent s \<le> ck_recent s'"
  by (auto elim!: clock_stepE simp: now_millis_step_inv now_millis_step_mono) (auto simp: clock_inv_def)

lemma clock_steps_inv: "clock_steps s s' \<Longrightarrow> clock_inv s \<Longrightarrow> clock_inv s' \<and> ck_recent s \<le> ck_recent s'"
  by (induction rule: clock_steps.induct) (auto dest: clock_step_inv intro: order_trans)

text \<open>A call that begins in \<open>s\<close> and ends in a later step returns at least \<open>RECENT\<close> of \<open>s\<close>.\<close>

definition begun_after :: "u64 \<Rightarrow> clock_sys \<Rightarrow> nat \<Rightarrow> bool" where
  "begun_after r s i = (case ck_pc s i of NmIdle \<Rightarrow> True | NmTime t before \<Rightarrow> r \<le> before
     | NmLoop t recent before \<Rightarrow> r \<le> before)"

lemma returned_ge:
  "clock_steps s s' \<Longrightarrow> clock_inv s \<Longrightarrow> ck_pc s i = NmIdle \<Longrightarrow>
     begun_after (ck_recent s) s' i"
proof (induction rule: clock_steps.induct)
  case (clock_trans s s1 s2)
  then have inv: "clock_inv s1" "ck_recent s \<le> ck_recent s1" using clock_steps_inv by blast+
  from clock_trans have b: "begun_after (ck_recent s) s1 i" by blast
  from clock_trans(2) show ?case
  proof (cases rule: clock_step.cases)
    case (tick n)
    with b show ?thesis by (simp add: begun_after_def)
  next
    case (thread j spurious)
    with b inv(2) show ?thesis
      by (cases "ck_pc s1 j") (auto simp: begun_after_def now_millis_step_def nm_return_def split: nm_pc.splits)
  qed
qed (simp add: begun_after_def)

section \<open>A call ends\<close>

fun solo :: "nat \<Rightarrow> nat \<Rightarrow> clock_sys \<Rightarrow> clock_sys" where
  "solo i 0 s = s"
| "solo i (Suc n) s = solo i n (now_millis_step i False s)"

text \<open>From any point of the call, four undisturbed steps of its thread bring it to its end.\<close>

lemma solo_ends:
  assumes "ck_pc s i \<noteq> NmIdle"
  shows "\<exists>n \<le> 3. ck_pc (solo i n s) i = NmIdle \<and> length (ck_returned (solo i n s)) = Suc (length (ck_returned s))"
proof -
  have loop: "ck_pc (solo i 1 s) i = NmIdle \<and> length (ck_returned (solo i 1 s)) = Suc (length (ck_returned s))"
    if "ck_pc s i = NmLoop t recent before" "recent > t \<or> recent = ck_recent s" for s t recent before
    using that by (auto simp: now_millis_step_def nm_return_def)
  show ?thesis
  proof (cases "ck_pc s i")
    case (NmTime t before)
    let ?s = "now_millis_step i False s"
    have "ck_pc ?s i = NmLoop t (ck_recent ?s) before" "ck_returned ?s = ck_returned s"
      using NmTime by (simp_all add: now_millis_step_def)
    from loop [OF this(1)] this(2) show ?thesis by (intro exI [of _ 2]) (simp add: numeral_2_eq_2)
  next
    case (NmLoop t recent before)
    show ?thesis
    proof (cases "recent > t \<or> recent = ck_recent s")
      case True
      from loop [OF NmLoop this] show ?thesis by (intro exI [of _ 1]) simp
    next
      case False
      let ?s = "now_millis_step i False s"
      have "ck_pc ?s i = NmLoop t (ck_recent ?s) before" "ck_returned ?s = ck_returned s"
        using NmLoop False by (auto simp: now_millis_step_def)
      from loop [OF this(1)] this(2) show ?thesis by (intro exI [of _ 2]) (simp add: numeral_2_eq_2)
    qed
  qed (use assms in simp)
qed

section \<open>Flushing in time\<close>

text \<open>
  What an automatically flushed counter promises: whatever its root metric is, if reaching the
  counter and flushing keep a total, then each increment adds its amount to the total, once.
\<close>

locale flushable =
  fixes dg :: "('m, u64 GenericLocalCounter) delegator" and total :: "'m \<Rightarrow> u64"
  assumes put_total: "total (dg_put_local dg l m) = total m - lc_val (dg_get_local dg m) + lc_val l"
    and may_flush_total: "total (dg_may_flush dg m) = total m"
    and flush_total: "total (dg_flush dg m) = total m"
begin

lemma inc_by_total: "total (AFLocalCounter_inc_by number_u64 dg v m) = total m + v"
  by (simp add: AFLocalCounter_inc_by_def may_flush_total with_local_def put_total
      GenericLocalCounter_inc_by_def number_u64_def)

lemma inc_total: "total (AFLocalCounter_inc number_u64 dg m) = total m + 1"
  by (simp add: AFLocalCounter_inc_def may_flush_total with_local_def put_total
      GenericLocalCounter_inc_def number_u64_def)

lemma AF_flush_total: "total (AFLocalCounter_flush dg m) = total m"
  by (simp add: AFLocalCounter_flush_def flush_total)

end

text \<open>
  A root metric with one counter, as the macro generates it: the local counter, the shared one
  and the time of the last flush; \<open>may_flush\<close> is \<open>try_flush\<close> with the interval.
\<close>

type_synonym counter_root = "u64 GenericLocalCounter \<times> AtomicU64 ValueM \<times> u64"

definition flush_root :: "counter_root \<Rightarrow> counter_root" where
  "flush_root m =
     (case m of (l, c, stamp) \<Rightarrow> (case GenericLocalCounter_flush number_u64 atomic_u64 l c of (l', c') \<Rightarrow> (l', c', stamp)))"

definition root_delegator :: "u64 \<Rightarrow> u64 \<Rightarrow> (counter_root, u64 GenericLocalCounter) delegator" where
  "root_delegator now interval =
     \<lparr>dg_get_local = fst, dg_put_local = (\<lambda>l m. (l, snd m)),
      dg_may_flush = (\<lambda>m. case m of (l, c, stamp) \<Rightarrow>
        (case try_flush now interval flush_root (stamp, m) of (stamp', (l', c', _)) \<Rightarrow> (l', c', stamp'))),
      dg_flush = flush_root\<rparr>"

definition root_total :: "counter_root \<Rightarrow> u64" where
  "root_total m = (case m of (l, c, _) \<Rightarrow> lc_val l + GenericCounter_get atomic_u64 c)"

lemma flush_root_total [simp]: "root_total (flush_root m) = root_total m"
  by (cases m) (auto simp: flush_root_def root_total_def GenericLocalCounter_flush_def number_u64_def
      GenericCounter_get_def GenericCounter_inc_by_def au64.Value_get_inc [unfolded number_u64_def, simplified]
      split: prod.split)

interpretation root: flushable "root_delegator now interval" root_total for now interval
proof
  show "root_total (dg_may_flush (root_delegator now interval) m) = root_total m" for m
    using flush_root_total [of m]
    by (cases m; cases "flush_root m") (auto simp: root_delegator_def try_flush_def root_total_def)
  show "root_total (dg_flush (root_delegator now interval) m) = root_total m" for m
    by (simp add: root_delegator_def)
qed (auto simp: root_delegator_def root_total_def split_def)

text \<open>After an increment the counter is flushed, or its last flush is less than the interval ago.\<close>

lemma inc_flushed_in_time:
  "case AFLocalCounter_inc_by number_u64 (root_delegator now interval) v m of
     (l, c, stamp) \<Rightarrow> stamp = now \<and> lc_val l = 0 \<or> now < stamp + interval"
  by (cases m)
    (auto simp: AFLocalCounter_inc_by_def with_local_def root_delegator_def try_flush_def flush_root_def
      GenericLocalCounter_flush_def number_u64_def split: prod.splits if_splits)

end
