(* ===== verification/Metric_Registry.thy ===== *)
theory Metric_Registry
  imports Metric_Desc Hash_Map "HOL-Library.Product_Lexorder"
begin

text \<open>
  The registry of collectors (\<open>src/prometheus/src/registry.rs\<close>). A collector is an object of
  some type; the trait \<open>Collector\<close> is the record of its two functions. The \<open>RwLock\<close> around the
  registry makes each operation atomic.
\<close>

section \<open>Ordering and sorting\<close>

datatype ordering = Less | Equal | Greater

definition rust_cmp :: "'a::linorder \<Rightarrow> 'a \<Rightarrow> ordering" where
  "rust_cmp a b = (if a < b then Less else if a = b then Equal else Greater)"

text \<open>\<open>slice::sort_by\<close>, a stable sort.\<close>

fun insert_by :: "('a \<Rightarrow> 'a \<Rightarrow> ordering) \<Rightarrow> 'a \<Rightarrow> 'a list \<Rightarrow> 'a list" where
  "insert_by cmp x [] = [x]"
| "insert_by cmp x (y # ys) = (if cmp x y \<noteq> Greater then x # y # ys else y # insert_by cmp x ys)"

definition sort_by :: "('a \<Rightarrow> 'a \<Rightarrow> ordering) \<Rightarrow> 'a list \<Rightarrow> 'a list" where
  "sort_by cmp xs = foldr (insert_by cmp) xs []"

lemma mset_insert_by [simp]: "mset (insert_by cmp x ys) = add_mset x (mset ys)"
  by (induction ys) auto

lemma set_insert_by [simp]: "set (insert_by cmp x ys) = insert x (set ys)"
  by (metis mset_insert_by set_mset_add_mset_insert set_mset_mset)

lemma mset_sort_by [simp]: "mset (sort_by cmp xs) = mset xs"
  by (induction xs) (simp_all add: sort_by_def)

lemma length_sort_by [simp]: "length (sort_by cmp xs) = length xs"
  by (metis mset_sort_by size_mset)

lemma set_sort_by [simp]: "set (sort_by cmp xs) = set xs"
  by (metis mset_sort_by set_mset_mset)

lemma sort_by_Nil [simp]: "sort_by cmp xs = [] \<longleftrightarrow> xs = []"
  by (metis length_0_conv length_sort_by)

lemma sort_by_singleton [simp]: "sort_by cmp [x] = [x]"
  by (simp add: sort_by_def)

text \<open>A comparison through a key in a linear order sorts by the key.\<close>

lemma sorted_insert_by:
  assumes cmp: "\<And>x y. cmp x y = rust_cmp (key x) (key y)"
  shows "sorted (map key ys) \<Longrightarrow> sorted (map key (insert_by cmp x ys))"
proof (induction ys)
  case (Cons y ys)
  show ?case
  proof (cases "key x \<le> key y")
    case True
    with Cons show ?thesis by (auto simp: cmp rust_cmp_def intro: order_trans)
  next
    case False
    with Cons show ?thesis by (auto simp: cmp rust_cmp_def)
  qed
qed simp

lemma sorted_sort_by:
  assumes "\<And>x y. cmp x y = rust_cmp (key x) (key y)"
  shows "sorted (map key (sort_by cmp xs))"
  by (induction xs) (simp_all add: sort_by_def sorted_insert_by [OF assms])

section \<open>The registry\<close>

record 'c collector_ops =
  co_desc :: "'c \<Rightarrow> Desc list"
  co_collect :: "'c \<Rightarrow> MetricFamily list"

record 'c RegistryCore =
  rg_collectors_by_id :: "(u64, 'c) HashMap"
  rg_dim_hashes_by_name :: "(string, u64) HashMap"
  rg_desc_ids :: "u64 list"
  rg_labels :: "(string, string) HashMap option"
  rg_prefix :: "string option"

definition Registry_default :: "'c RegistryCore" where
  "Registry_default =
     \<lparr>rg_collectors_by_id = [], rg_dim_hashes_by_name = [], rg_desc_ids = [], rg_labels = None,
      rg_prefix = None\<rparr>"

definition Registry_new_custom ::
  "string option \<Rightarrow> (string, string) HashMap option \<Rightarrow> 'c RegistryCore PromResult" where
  "Registry_new_custom prefix labels =
     (if prefix = Some [] then Inl (Msg ''empty prefix namespace'')
      else Inr (Registry_default\<lparr>rg_prefix := prefix, rg_labels := labels\<rparr>))"

definition registry_contains :: "'c collector_ops \<Rightarrow> 'c \<Rightarrow> 'c RegistryCore \<Rightarrow> bool" where
  "registry_contains ops c r \<longleftrightarrow> list_ex (\<lambda>desc. d_id desc \<in> set (rg_desc_ids r)) (co_desc ops c)"

text \<open>
  The loop of \<open>register\<close> over the descriptors: the hashes by name change also when it fails.
  \<open>dbg\<close> gives the texts of a descriptor and of a name in a message.
\<close>

definition conflict_msg :: "string \<Rightarrow> string" where
  "conflict_msg desc =
     ''a previously registered descriptor with the same fully-qualified name as '' @ desc @
     '' has different label names or a different help string''"

definition duplicate_msg :: "string \<Rightarrow> string" where
  "duplicate_msg name =
     ''a duplicate descriptor within the same collector the same fully-qualified name: '' @ name"

fun register_loop ::
  "(Desc \<Rightarrow> string) \<times> (string \<Rightarrow> string) \<Rightarrow> u64 list \<Rightarrow> Desc list \<Rightarrow> (string, u64) HashMap \<Rightarrow> u64 list \<Rightarrow> u64
    \<Rightarrow> (u64 list \<times> u64) PromResult \<times> (string, u64) HashMap" where
  "register_loop dbg ids [] dims id_set collector_id = (Inr (id_set, collector_id), dims)"
| "register_loop dbg ids (desc # descs) dims id_set collector_id =
     (if d_id desc \<in> set ids then (Inl AlreadyReg, dims)
      else if \<exists>hash. hm_get dims (d_fq_name desc) = Some hash \<and> hash \<noteq> d_dim_hash desc
      then (Inl (Msg (conflict_msg (fst dbg desc))), dims)
      else
        (let dims' = hm_insert (d_fq_name desc) (d_dim_hash desc) dims in
         if d_id desc \<notin> set id_set
         then register_loop dbg ids descs dims' (id_set @ [d_id desc]) (collector_id + d_id desc)
         else (Inl (Msg (duplicate_msg (snd dbg (d_fq_name desc)))), dims')))"

definition registry_register ::
  "'c collector_ops \<Rightarrow> (Desc \<Rightarrow> string) \<times> (string \<Rightarrow> string) \<Rightarrow> 'c \<Rightarrow> 'c RegistryCore
    \<Rightarrow> unit PromResult \<times> 'c RegistryCore" where
  "registry_register ops dbg c r =
     (case register_loop dbg (rg_desc_ids r) (co_desc ops c) (rg_dim_hashes_by_name r) [] 0 of
        (Inl e, dims) \<Rightarrow> (Inl e, r\<lparr>rg_dim_hashes_by_name := dims\<rparr>)
      | (Inr (id_set, collector_id), dims) \<Rightarrow>
          if hm_get (rg_collectors_by_id r) collector_id = None
          then (Inr (), r\<lparr>rg_dim_hashes_by_name := dims, rg_desc_ids := rg_desc_ids r @ id_set,
                         rg_collectors_by_id := hm_insert collector_id c (rg_collectors_by_id r)\<rparr>)
          else (Inl AlreadyReg, r\<lparr>rg_dim_hashes_by_name := dims\<rparr>))"

fun unregister_loop :: "Desc list \<Rightarrow> u64 list \<Rightarrow> u64 \<Rightarrow> u64 list \<times> u64" where
  "unregister_loop [] id_set collector_id = (id_set, collector_id)"
| "unregister_loop (desc # descs) id_set collector_id =
     (if \<not> list_ex (\<lambda>id. id = d_id desc) id_set
      then unregister_loop descs (id_set @ [d_id desc]) (collector_id + d_id desc)
      else unregister_loop descs id_set collector_id)"

definition registry_unregister ::
  "'c collector_ops \<Rightarrow> (Desc list \<Rightarrow> string) \<Rightarrow> 'c \<Rightarrow> 'c RegistryCore \<Rightarrow> unit PromResult \<times> 'c RegistryCore" where
  "registry_unregister ops dbg c r =
     (case unregister_loop (co_desc ops c) [] 0 of
        (id_set, collector_id) \<Rightarrow>
          if hm_get (rg_collectors_by_id r) collector_id = None
          then (Inl (Msg (''collector '' @ dbg (co_desc ops c) @ '' is not registered'')), r)
          else (Inr (), r\<lparr>rg_collectors_by_id := hm_remove collector_id (rg_collectors_by_id r),
                         rg_desc_ids := filter (\<lambda>id. id \<notin> set id_set) (rg_desc_ids r)\<rparr>))"

section \<open>Gathering\<close>

fun gather_family :: "MetricFamily \<Rightarrow> (string, MetricFamily) BTreeMap \<Rightarrow> (string, MetricFamily) BTreeMap" where
  "gather_family mf mf_by_name =
     (if mf_metric mf = [] then mf_by_name
      else
        (case bt_get mf_by_name (mf_name mf) of
           None \<Rightarrow> bt_insert (mf_name mf) mf mf_by_name
         | Some existent \<Rightarrow>
             bt_insert (mf_name mf) (existent\<lparr>mf_metric := mf_metric existent @ mf_metric mf\<rparr>) mf_by_name))"

fun cmp_values :: "LabelPair list \<Rightarrow> LabelPair list \<Rightarrow> ordering" where
  "cmp_values (lp1 # lps1) (lp2 # lps2) =
     (if lp_value lp1 \<noteq> lp_value lp2 then rust_cmp (lp_value lp1) (lp_value lp2)
      else cmp_values lps1 lps2)"
| "cmp_values _ _ = Equal"

definition metric_cmp :: "Metric \<Rightarrow> Metric \<Rightarrow> ordering" where
  "metric_cmp m1 m2 =
     (if length (m_label m1) \<noteq> length (m_label m2)
      then rust_cmp (length (m_label m1)) (length (m_label m2))
      else
        (case cmp_values (m_label m1) (m_label m2) of
           Equal \<Rightarrow> rust_cmp (sint (m_timestamp_ms m1)) (sint (m_timestamp_ms m2))
         | ord \<Rightarrow> ord))"

definition add_prefix :: "string option \<Rightarrow> MetricFamily \<Rightarrow> MetricFamily" where
  "add_prefix prefix m =
     (case prefix of
        None \<Rightarrow> m
      | Some namespace \<Rightarrow> m\<lparr>mf_name := namespace @ ''_'' @ mf_name m\<rparr>)"

definition add_labels :: "(string, string) HashMap option \<Rightarrow> MetricFamily \<Rightarrow> MetricFamily" where
  "add_labels labels m =
     (case labels of
        None \<Rightarrow> m
      | Some hmap \<Rightarrow>
          (let pairs = map (\<lambda>(k, v). \<lparr>lp_name = k, lp_value = v\<rparr>) hmap
           in m\<lparr>mf_metric := map (\<lambda>metric. metric\<lparr>m_label := m_label metric @ pairs\<rparr>) (mf_metric m)\<rparr>))"

definition registry_gather :: "'c collector_ops \<Rightarrow> 'c RegistryCore \<Rightarrow> MetricFamily list" where
  "registry_gather ops r =
     (let mfs = concat (map (\<lambda>(_, c). co_collect ops c) (rg_collectors_by_id r));
          mf_by_name = fold gather_family mfs [];
          sorted_by_labels = map (\<lambda>(n, mf). (n, mf\<lparr>mf_metric := sort_by metric_cmp (mf_metric mf)\<rparr>)) mf_by_name
      in map (\<lambda>(_, m). add_labels (rg_labels r) (add_prefix (rg_prefix r) m)) sorted_by_labels)"

section \<open>Registration\<close>

definition ids_of :: "'c collector_ops \<Rightarrow> 'c \<Rightarrow> u64 list" where
  "ids_of ops c = map d_id (co_desc ops c)"

definition all_ids :: "'c collector_ops \<Rightarrow> (u64 \<times> 'c) list \<Rightarrow> u64 list" where
  "all_ids ops cs = concat (map (\<lambda>(_, c). ids_of ops c) cs)"

lemma all_ids_simps [simp]:
  "all_ids ops [] = []" "all_ids ops (cs @ cs') = all_ids ops cs @ all_ids ops cs'"
  "all_ids ops [(i, c)] = ids_of ops c"
  by (simp_all add: all_ids_def)

lemma set_all_ids: "x \<in> set (all_ids ops cs) \<longleftrightarrow> (\<exists>(i, c) \<in> set cs. x \<in> set (ids_of ops c))"
  by (auto simp: all_ids_def)

text \<open>
  A registry is well formed when each collector is stored under the sum of its descriptors'
  identifiers, no two share one, the identifiers in use are theirs, and the hash under each name
  is that of the descriptors with that name.
\<close>

definition registry_wf :: "'c collector_ops \<Rightarrow> 'c RegistryCore \<Rightarrow> bool" where
  "registry_wf ops r \<longleftrightarrow>
     hm_wf (rg_collectors_by_id r) \<and> hm_wf (rg_dim_hashes_by_name r) \<and>
     distinct (all_ids ops (rg_collectors_by_id r)) \<and>
     mset (rg_desc_ids r) = mset (all_ids ops (rg_collectors_by_id r)) \<and>
     (\<forall>(i, c) \<in> set (rg_collectors_by_id r). i = sum_list (ids_of ops c) \<and>
        (\<forall>d \<in> set (co_desc ops c). hm_get (rg_dim_hashes_by_name r) (d_fq_name d) = Some (d_dim_hash d)))"

definition dims_extend :: "(string, u64) HashMap \<Rightarrow> (string, u64) HashMap \<Rightarrow> bool" where
  "dims_extend dims dims' \<longleftrightarrow>
     (hm_wf dims \<longrightarrow> hm_wf dims') \<and> (\<forall>n h. hm_get dims n = Some h \<longrightarrow> hm_get dims' n = Some h)"

lemma dims_extend_refl [simp]: "dims_extend dims dims"
  by (simp add: dims_extend_def)

lemma dims_extend_trans: "dims_extend a b \<Longrightarrow> dims_extend b c \<Longrightarrow> dims_extend a c"
  by (auto simp: dims_extend_def)

lemma dims_extend_insert:
  "\<not> (\<exists>h'. hm_get dims n = Some h' \<and> h' \<noteq> h) \<Longrightarrow> dims_extend dims (hm_insert n h dims)"
  by (auto simp: dims_extend_def hm_wf_insert hm_get_insert)

lemma register_loop_extends:
  "register_loop dbg ids descs dims id_set cid = (res, dims') \<Longrightarrow> dims_extend dims dims'"
proof (induction dbg ids descs dims id_set cid rule: register_loop.induct)
  case (2 dbg ids desc descs dims id_set cid)
  from 2(2) show ?case
    by (auto simp: Let_def split: if_splits intro!: dims_extend_insert
        intro: dims_extend_trans [OF dims_extend_insert 2(1) [OF _ _ refl]])
qed simp

lemma register_loop_Inr:
  "register_loop dbg ids descs dims id_set cid = (Inr (id_set', cid'), dims') \<Longrightarrow>
     id_set' = id_set @ map d_id descs \<and> cid' = cid + sum_list (map d_id descs) \<and>
     set (map d_id descs) \<inter> (set ids \<union> set id_set) = {} \<and> distinct (map d_id descs) \<and>
     (\<forall>d \<in> set descs. hm_get dims' (d_fq_name d) = Some (d_dim_hash d))"
proof (induction dbg ids descs dims id_set cid rule: register_loop.induct)
  case (2 dbg ids desc descs dims id_set cid)
  let ?dims = "hm_insert (d_fq_name desc) (d_dim_hash desc) dims"
  from 2(2) have c: "d_id desc \<notin> set ids" "d_id desc \<notin> set id_set"
    and rest: "register_loop dbg ids descs ?dims (id_set @ [d_id desc]) (cid + d_id desc) =
      (Inr (id_set', cid'), dims')"
    and cons: "\<not> (\<exists>h'. hm_get dims (d_fq_name desc) = Some h' \<and> h' \<noteq> d_dim_hash desc)"
    by (auto simp: Let_def split: if_splits)
  have "hm_get dims' (d_fq_name desc) = Some (d_dim_hash desc)"
    using register_loop_extends [OF rest] by (simp add: dims_extend_def hm_get_insert)
  with 2(1) [OF c(1) cons refl c(2) rest] c show ?case by auto
qed simp

text \<open>The loop goes through when the identifiers are new and the names agree.\<close>

lemma register_loop_ok:
  assumes "set (map d_id descs) \<inter> (set ids \<union> set id_set) = {}" and "distinct (map d_id descs)"
    and "\<And>d h. d \<in> set descs \<Longrightarrow> hm_get dims (d_fq_name d) = Some h \<Longrightarrow> h = d_dim_hash d"
    and "\<And>d d'. d \<in> set descs \<Longrightarrow> d' \<in> set descs \<Longrightarrow> d_fq_name d = d_fq_name d' \<Longrightarrow> d_dim_hash d = d_dim_hash d'"
  shows "\<exists>out dims'. register_loop dbg ids descs dims id_set cid = (Inr out, dims')"
  using assms
proof (induction dbg ids descs dims id_set cid rule: register_loop.induct)
  case (2 dbg ids desc descs dims id_set cid)
  have c: "d_id desc \<notin> set ids" "d_id desc \<notin> set id_set"
    and cons: "\<not> (\<exists>h'. hm_get dims (d_fq_name desc) = Some h' \<and> h' \<noteq> d_dim_hash desc)"
    using 2(2) 2(4) [of desc] by auto
  have "\<exists>out dims'. register_loop dbg ids descs (hm_insert (d_fq_name desc) (d_dim_hash desc) dims)
      (id_set @ [d_id desc]) (cid + d_id desc) = (Inr out, dims')"
  proof (rule 2(1) [OF c(1) cons refl c(2)])
    show "set (map d_id descs) \<inter> (set ids \<union> set (id_set @ [d_id desc])) = {}"
      using 2(2,3) by auto
    show "h = d_dim_hash d" if "d \<in> set descs"
      "hm_get (hm_insert (d_fq_name desc) (d_dim_hash desc) dims) (d_fq_name d) = Some h" for d h
      using that 2(4) [of d h] 2(5) [of d desc] by (auto simp: hm_get_insert split: if_splits)
    show "distinct (map d_id descs)" using 2(3) by simp
    show "d_dim_hash d = d_dim_hash d'" if "d \<in> set descs" "d' \<in> set descs" "d_fq_name d = d_fq_name d'" for d d'
      by (rule 2(5)) (simp_all add: that)
  qed
  moreover have "register_loop dbg ids (desc # descs) dims id_set cid =
      register_loop dbg ids descs (hm_insert (d_fq_name desc) (d_dim_hash desc) dims)
        (id_set @ [d_id desc]) (cid + d_id desc)"
    by (simp only: register_loop.simps Let_def c cons if_False if_True not_False_eq_True)
  ultimately show ?case by simp
next
  case 1
  show ?case by simp
qed

lemma registry_wf_ids:
  assumes "registry_wf ops r"
  shows "set (rg_desc_ids r) = set (all_ids ops (rg_collectors_by_id r))"
proof -
  have "mset (rg_desc_ids r) = mset (all_ids ops (rg_collectors_by_id r))"
    using assms unfolding registry_wf_def by (elim conjE)
  then show ?thesis by (rule mset_eq_setD)
qed

lemma registry_wf_dims:
  "registry_wf ops r \<Longrightarrow> dims_extend (rg_dim_hashes_by_name r) dims' \<Longrightarrow>
     registry_wf ops (r\<lparr>rg_dim_hashes_by_name := dims'\<rparr>)"
  by (fastforce simp: registry_wf_def dims_extend_def)

text \<open>
  Registering: on success the collector is added, with its identifiers; on failure the
  collectors and the identifiers are as before.
\<close>

lemma register_wf:
  assumes wf: "registry_wf ops r" and res: "registry_register ops dbg c r = (res, r')"
  shows "registry_wf ops r' \<and> rg_labels r' = rg_labels r \<and> rg_prefix r' = rg_prefix r \<and>
    (if res = Inr () then
       rg_collectors_by_id r' = rg_collectors_by_id r @ [(sum_list (ids_of ops c), c)] \<and>
       rg_desc_ids r' = rg_desc_ids r @ ids_of ops c
     else rg_collectors_by_id r' = rg_collectors_by_id r \<and> rg_desc_ids r' = rg_desc_ids r)"
proof -
  obtain out dims' where loop: "register_loop dbg (rg_desc_ids r) (co_desc ops c)
      (rg_dim_hashes_by_name r) [] 0 = (out, dims')" by (rule prod.exhaust)
  note ext = register_loop_extends [OF loop]
  note wf1 = registry_wf_dims [OF wf ext]
  show ?thesis
  proof (cases "\<exists>id_set cid. out = Inr (id_set, cid) \<and> hm_get (rg_collectors_by_id r) cid = None")
    case False
    with loop res wf1 show ?thesis
      by (auto simp: registry_register_def split: sum.splits if_splits)
  next
    case True
    then obtain id_set cid where o: "out = Inr (id_set, cid)"
      and none: "hm_get (rg_collectors_by_id r) cid = None" by blast
    from register_loop_Inr [OF loop [unfolded o]] have
      l: "id_set = ids_of ops c" "cid = sum_list (ids_of ops c)" "distinct (ids_of ops c)"
      "set (ids_of ops c) \<inter> set (rg_desc_ids r) = {}"
      "\<forall>d \<in> set (co_desc ops c). hm_get dims' (d_fq_name d) = Some (d_dim_hash d)"
      by (auto simp: ids_of_def)
    from res loop none have r': "res = Inr ()" "r' = r\<lparr>rg_dim_hashes_by_name := dims',
        rg_desc_ids := rg_desc_ids r @ ids_of ops c,
        rg_collectors_by_id := rg_collectors_by_id r @ [(cid, c)]\<rparr>"
      by (simp_all add: registry_register_def o l(1) hm_insert_new)
    have dj: "set (all_ids ops (rg_collectors_by_id r)) \<inter> set (ids_of ops c) = {}"
      using l(4) registry_wf_ids [OF wf] by blast
    from none l(2) have nk: "sum_list (ids_of ops c) \<notin> fst ` set (rg_collectors_by_id r)"
      by (simp add: hm_get_None)
    have "registry_wf ops r'"
      using wf1 l(3,5) dj nk unfolding registry_wf_def r'(2) l(2) by (simp add: hm_wf_def)
    then show ?thesis by (simp add: r' l)
  qed
qed

lemma unregister_loop_eq:
  "distinct (map d_id descs) \<Longrightarrow> set (map d_id descs) \<inter> set id_set = {} \<Longrightarrow>
     unregister_loop descs id_set cid = (id_set @ map d_id descs, cid + sum_list (map d_id descs))"
  by (induction descs id_set cid rule: unregister_loop.induct) (auto simp: list_ex_iff add.assoc)

lemma unregister_registered:
  assumes wf: "registry_wf ops r" and reg: "registry_register ops dbg c r = (Inr (), r')"
  shows "\<exists>r''. registry_unregister ops dbg' c r' = (Inr (), r'') \<and> registry_wf ops r'' \<and>
    rg_collectors_by_id r'' = rg_collectors_by_id r \<and> rg_desc_ids r'' = rg_desc_ids r"
proof -
  let ?ids = "ids_of ops c"
  from register_wf [OF wf reg] have wf': "registry_wf ops r'"
    and r': "rg_collectors_by_id r' = rg_collectors_by_id r @ [(sum_list ?ids, c)]"
      "rg_desc_ids r' = rg_desc_ids r @ ?ids" by auto
  from wf' have "distinct (all_ids ops (rg_collectors_by_id r'))"
    and "mset (rg_desc_ids r') = mset (all_ids ops (rg_collectors_by_id r'))"
    and hm: "hm_wf (rg_collectors_by_id r')" by (simp_all add: registry_wf_def)
  then have dist: "distinct (rg_desc_ids r @ ?ids)"
    by (metis distinct_perm r'(2))
  then have d: "distinct ?ids" by simp
  from hm have n: "hm_get (rg_collectors_by_id r) (sum_list ?ids) = None"
    by (auto simp: hm_wf_def hm_get_None r'(1))
  have dj: "x \<notin> set ?ids" if "x \<in> set (rg_desc_ids r)" for x
    using dist that by auto
  have f: "filter (\<lambda>id. id \<notin> set ?ids) (rg_desc_ids r') = rg_desc_ids r"
    by (simp add: r'(2) dj filter_id_conv)
  have rm: "hm_remove (sum_list ?ids) (rg_collectors_by_id r') = rg_collectors_by_id r"
    using n hm_remove_insert_new [OF n, of c] by (simp add: r' hm_insert_new)
  have g: "hm_get (rg_collectors_by_id r') (sum_list ?ids) \<noteq> None"
    using n by (simp add: r' flip: hm_insert_new) (simp add: hm_get_insert)
  have u: "unregister_loop (co_desc ops c) [] 0 = (?ids, sum_list ?ids)"
    using d by (simp add: unregister_loop_eq ids_of_def)
  let ?r = "r'\<lparr>rg_collectors_by_id := rg_collectors_by_id r, rg_desc_ids := rg_desc_ids r\<rparr>"
  have "registry_unregister ops dbg' c r' = (Inr (), ?r)"
    by (simp add: registry_unregister_def u g rm f)
  moreover have "registry_wf ops ?r"
    using wf wf' by (auto simp: registry_wf_def r')
  ultimately show ?thesis by auto
qed

lemma registry_wf_default: "registry_wf ops Registry_default"
  by (simp add: registry_wf_def Registry_default_def hm_wf_def)

lemma contains_registered:
  assumes "registry_wf ops r"
  shows "registry_contains ops c r \<longleftrightarrow>
    (\<exists>(i, c') \<in> set (rg_collectors_by_id r). set (ids_of ops c) \<inter> set (ids_of ops c') \<noteq> {})"
  using registry_wf_ids [OF assms]
  unfolding registry_contains_def list_ex_iff by (auto simp: set_all_ids ids_of_def) fastforce+

end
