(* ===== verification/Metric_Push.thy ===== *)
theory Metric_Push
  imports Metric_Registry
begin

text \<open>
  Pushing metrics to a gateway (\<open>src/prometheus/src/push.rs\<close>, feature \<open>push\<close>). The protobuf
  encoder's serialisation, \<open>Url::from_str\<close> and the HTTP client are parameters.
\<close>

record BasicAuthentication =
  ba_username :: string
  ba_password :: string

record 'u push_request =
  pr_method :: string
  pr_url :: 'u
  pr_content_type :: string
  pr_body :: bytes
  pr_auth :: "BasicAuthentication option"

record 'u push_env =
  pe_write_delimited :: "MetricFamily \<Rightarrow> PromError + bytes"
  pe_url_from_str :: "string \<Rightarrow> 'u option"
  pe_send :: "'u push_request \<Rightarrow> string + u16"
  pe_show_status :: "u16 \<Rightarrow> string"
  pe_debug :: "MetricFamily \<Rightarrow> string"

text \<open>An error, or a panic where an \<open>unwrap\<close> fails.\<close>

datatype push_error = PushErr PromError | PushPanic

definition PROTOBUF_FORMAT :: string where
  "PROTOBUF_FORMAT =
     ''application/vnd.google.protobuf; proto=io.prometheus.client.MetricFamily; encoding=delimited''"

text \<open>\<open>ProtobufEncoder::encode\<close> of one family into a buffer, whose error \<open>push\<close> ignores.\<close>

definition encode_protobuf :: "'u push_env \<Rightarrow> MetricFamily \<Rightarrow> bytes \<Rightarrow> bytes" where
  "encode_protobuf env mf buf =
     (if mf_metric mf = [] \<or> mf_name mf = [] then buf
      else (case pe_write_delimited env mf of Inl _ \<Rightarrow> buf | Inr b \<Rightarrow> buf @ b))"

fun contains_sub :: "string \<Rightarrow> string \<Rightarrow> bool" where
  "contains_sub [] p = (p = [])"
| "contains_sub (c # s) p = (starts_with (c # s) p \<or> contains_sub s p)"

definition base_url :: "string \<Rightarrow> string" where
  "base_url url =
     (let push_url = (if contains_sub url ''://'' then url else ''http://'' @ url) in
      if push_url \<noteq> [] \<and> List.last push_url = CHR ''/'' then butlast push_url else push_url)"

fun grouping_components :: "(string, string) HashMap \<Rightarrow> string list \<Rightarrow> PromError + string list" where
  "grouping_components [] url_components = Inr url_components"
| "grouping_components ((label, v) # grouping) url_components =
     (if CHR ''/'' \<in> set v
      then Inl (Msg (''value of grouping label '' @ label @ '' contains '' @ quoted ''/'' @ '': '' @ v))
      else grouping_components grouping (url_components @ [label, v]))"

fun join :: "string \<Rightarrow> string list \<Rightarrow> string" where
  "join sep [] = []"
| "join sep [x] = x"
| "join sep (x # y # ys) = x @ sep @ join sep (y # ys)"

definition LABEL_NAME_JOB :: string where "LABEL_NAME_JOB = ''job''"

definition push_url_of :: "string \<Rightarrow> (string, string) HashMap \<Rightarrow> string \<Rightarrow> PromError + string" where
  "push_url_of job grouping url =
     (if CHR ''/'' \<in> set job then Inl (Msg (''job contains '' @ quoted ''/'' @ '': '' @ job))
      else bind_res (grouping_components grouping [job]) (\<lambda>url_components.
        Inr (base_url url @ ''/metrics/job/'' @ join ''/'' url_components)))"

definition check_label :: "(string, string) HashMap \<Rightarrow> MetricFamily \<Rightarrow> LabelPair \<Rightarrow> PromError option" where
  "check_label grouping mf lp =
     (if lp_name lp = LABEL_NAME_JOB
      then Some (Msg (''pushed metric '' @ mf_name mf @ '' already contains a job label''))
      else if hm_get grouping (lp_name lp) \<noteq> None
      then Some (Msg (''pushed metric '' @ mf_name mf @ '' already contains grouping label '' @ lp_name lp))
      else None)"

fun encode_families :: "'u push_env \<Rightarrow> (string, string) HashMap \<Rightarrow> MetricFamily list \<Rightarrow> bytes \<Rightarrow> PromError + bytes" where
  "encode_families env grouping [] buf = Inr buf"
| "encode_families env grouping (mf # mfs) buf =
     (case List.map_filter (check_label grouping mf) (concat (map m_label (mf_metric mf))) of
        e # _ \<Rightarrow> Inl e
      | [] \<Rightarrow> encode_families env grouping mfs (encode_protobuf env mf buf))"

definition push ::
  "'u push_env \<Rightarrow> string \<Rightarrow> (string, string) HashMap \<Rightarrow> string \<Rightarrow> MetricFamily list \<Rightarrow> string
    \<Rightarrow> BasicAuthentication option \<Rightarrow> push_error + unit" where
  "push env job grouping url mfs method basic_auth =
     (case push_url_of job grouping url of
        Inl e \<Rightarrow> Inl (PushErr e)
      | Inr push_url \<Rightarrow>
          (case encode_families env grouping mfs [] of
             Inl e \<Rightarrow> Inl (PushErr e)
           | Inr buf \<Rightarrow>
               (case pe_url_from_str env push_url of
                  None \<Rightarrow> Inl PushPanic
                | Some u \<Rightarrow>
                    (case pe_send env \<lparr>pr_method = method, pr_url = u, pr_content_type = PROTOBUF_FORMAT,
                            pr_body = buf, pr_auth = basic_auth\<rparr> of
                       Inl e \<Rightarrow> Inl (PushErr (Msg e))
                     | Inr status \<Rightarrow>
                         if status = 202 \<or> status = 200 then Inr ()
                         else Inl (PushErr (Msg (''unexpected status code '' @ pe_show_status env status @
                                '' while pushing to '' @ push_url)))))))"

definition push_metrics where
  "push_metrics env job grouping url mfs basic_auth = push env job grouping url mfs ''PUT'' basic_auth"

definition push_add_metrics where
  "push_add_metrics env job grouping url mfs basic_auth = push env job grouping url mfs ''POST'' basic_auth"

fun register_all ::
  "'c collector_ops \<Rightarrow> (Desc \<Rightarrow> string) \<times> (string \<Rightarrow> string) \<Rightarrow> 'c list \<Rightarrow> 'c RegistryCore \<Rightarrow> 'c RegistryCore PromResult" where
  "register_all ops dbg [] r = Inr r"
| "register_all ops dbg (bc # collectors) r =
     (case registry_register ops dbg bc r of
        (Inl e, _) \<Rightarrow> Inl e
      | (Inr _, r') \<Rightarrow> register_all ops dbg collectors r')"

definition push_from_collector ::
  "'c collector_ops \<Rightarrow> (Desc \<Rightarrow> string) \<times> (string \<Rightarrow> string) \<Rightarrow> 'u push_env \<Rightarrow> string \<Rightarrow> (string, string) HashMap
    \<Rightarrow> string \<Rightarrow> 'c list \<Rightarrow> string \<Rightarrow> BasicAuthentication option \<Rightarrow> push_error + unit" where
  "push_from_collector ops dbg env job grouping url collectors method basic_auth =
     (case register_all ops dbg collectors Registry_default of
        Inl e \<Rightarrow> Inl (PushErr e)
      | Inr registry \<Rightarrow> push env job grouping url (registry_gather ops registry) method basic_auth)"

definition push_collector ::
  "'c collector_ops \<Rightarrow> (Desc \<Rightarrow> string) \<times> (string \<Rightarrow> string) \<Rightarrow> 'u push_env \<Rightarrow> string \<Rightarrow> (string, string) HashMap
    \<Rightarrow> string \<Rightarrow> 'c list \<Rightarrow> BasicAuthentication option \<Rightarrow> push_error + unit" where
  "push_collector ops dbg env job grouping url collectors basic_auth =
     push_from_collector ops dbg env job grouping url collectors ''PUT'' basic_auth"

definition push_add_collector ::
  "'c collector_ops \<Rightarrow> (Desc \<Rightarrow> string) \<times> (string \<Rightarrow> string) \<Rightarrow> 'u push_env \<Rightarrow> string \<Rightarrow> (string, string) HashMap
    \<Rightarrow> string \<Rightarrow> 'c list \<Rightarrow> BasicAuthentication option \<Rightarrow> push_error + unit" where
  "push_add_collector ops dbg env job grouping url collectors basic_auth =
     push_from_collector ops dbg env job grouping url collectors ''POST'' basic_auth"

section \<open>Lemmas\<close>

lemma grouping_components_Inr:
  "grouping_components grouping acc = Inr cs \<longleftrightarrow>
     (\<forall>(label, v) \<in> set grouping. CHR ''/'' \<notin> set v) \<and> cs = acc @ concat (map (\<lambda>(label, v). [label, v]) grouping)"
  by (induction grouping acc rule: grouping_components.induct) auto

lemma encode_families_Inr:
  assumes "encode_families env grouping mfs buf = Inr out" and "mf \<in> set mfs" and "m \<in> set (mf_metric mf)"
    and "lp \<in> set (m_label m)"
  shows "lp_name lp \<noteq> ''job'' \<and> lp_name lp \<notin> fst ` set grouping"
  using assms
proof (induction env grouping mfs buf rule: encode_families.induct)
  case (2 env grouping mf' mfs buf)
  from 2(2) have n: "List.map_filter (check_label grouping mf') (concat (map m_label (mf_metric mf'))) = []"
    and r: "encode_families env grouping mfs (encode_protobuf env mf' buf) = Inr out"
    by (auto split: list.splits)
  show ?case
  proof (cases "mf = mf'")
    case True
    with 2(4,5) have "lp \<in> set (concat (map m_label (mf_metric mf')))" by auto
    with n have "check_label grouping mf' lp = None" by (auto simp: map_filter_def filter_empty_conv)
    then show ?thesis by (auto simp: check_label_def LABEL_NAME_JOB_def hm_get_None split: if_splits)
  next
    case False
    with 2 r n show ?thesis by auto
  qed
qed simp

lemma push_Inr:
  assumes "push env job grouping url mfs method auth = Inr ()"
  shows "\<exists>u req status. push_url_of job grouping url = Inr u \<and> pe_url_from_str env u = Some (pr_url req) \<and>
    pr_method req = method \<and> encode_families env grouping mfs [] = Inr (pr_body req) \<and>
    pe_send env req = Inr status \<and> status \<in> {200, 202}"
  using assms by (auto simp: push_def split: sum.splits option.splits if_splits) force+

end
