(* ===== verification/Metric_Gather.thy ===== *)
theory Metric_Gather
  imports Metric_Registry
begin

text \<open>
  What \<open>gather\<close> promises of the families it returns (\<open>src/prometheus/src/registry.rs\<close>): one
  family per name, in the order of the names; its metrics in order; and every sample of every
  collector, once, with the registry's prefix and labels added.
\<close>

section \<open>The samples of a list of families\<close>

definition samples :: "MetricFamily list \<Rightarrow> (string \<times> Metric) list" where
  "samples fs = concat (map (\<lambda>f. map (Pair (mf_name f)) (mf_metric f)) fs)"

lemma samples_simps [simp]:
  "samples [] = []"
  "samples (f # fs) = map (Pair (mf_name f)) (mf_metric f) @ samples fs"
  "samples (fs @ fs') = samples fs @ samples fs'"
  by (simp_all add: samples_def)

lemma mset_bt_insert_new:
  "bt_get m k = None \<Longrightarrow> mset (bt_insert k v m) = add_mset (k, v) (mset m)"
  by (induction k v m rule: bt_insert.induct) (auto simp: bt_get_def split: if_splits)

lemma mset_bt_insert_old:
  "bt_wf m \<Longrightarrow> bt_get m k = Some old \<Longrightarrow>
     add_mset (k, old) (mset (bt_insert k v m)) = add_mset (k, v) (mset m)"
proof (induction k v m rule: bt_insert.induct)
  case (2 k v k' v' m)
  have "k \<notin> fst ` set m" if "k < k'" using that 2(2) by (auto dest: order.strict_trans)
  then have "\<not> k < k'" using 2(3) by (auto simp: bt_get_def map_of_eq_None_iff [symmetric] split: if_splits)
  with 2 show ?case by (auto simp: bt_get_def split: if_splits)
qed (simp add: bt_get_def)

lemma mset_samples: "mset (samples fs) = (\<Sum>f\<in>#mset fs. image_mset (Pair (mf_name f)) (mset (mf_metric f)))"
  by (induction fs) simp_all

section \<open>Grouping by name\<close>

definition entry_ok :: "MetricFamily list \<Rightarrow> string \<Rightarrow> MetricFamily \<Rightarrow> bool" where
  "entry_ok mfs n f \<longleftrightarrow> mf_name f = n \<and> mf_metric f \<noteq> [] \<and>
     (\<exists>g \<in> set mfs. mf_name g = n \<and> mf_help f = mf_help g \<and> mf_field_type f = mf_field_type g)"

definition grouped :: "MetricFamily list \<Rightarrow> (string, MetricFamily) BTreeMap \<Rightarrow> bool" where
  "grouped mfs m \<longleftrightarrow> bt_wf m \<and> mset (samples (map snd m)) = mset (samples mfs) \<and>
     (\<forall>(n, f) \<in> set m. entry_ok mfs n f)"

lemma entry_ok_snoc: "entry_ok mfs n f \<Longrightarrow> entry_ok (mfs @ [mf]) n f"
  by (auto simp: entry_ok_def)

lemma grouped_entry: "grouped mfs m \<Longrightarrow> (n, f) \<in> set m \<Longrightarrow> entry_ok mfs n f"
  by (auto simp: grouped_def)

lemma mset_samples_snd:
  "mset (samples (map snd m)) =
     (\<Sum>(n, f)\<in>#mset m. image_mset (Pair (mf_name f)) (mset (mf_metric f)))"
  by (simp add: mset_samples image_mset.compositionality comp_def split_def)

lemma grouped_step:
  assumes g: "grouped mfs m"
  shows "grouped (mfs @ [mf]) (gather_family mf m)"
proof (cases "mf_metric mf = []")
  case True
  with g show ?thesis by (auto simp: grouped_def intro: entry_ok_snoc)
next
  case False
  have wf: "bt_wf m" using g by (simp add: grouped_def)
  show ?thesis
  proof (cases "bt_get m (mf_name mf)")
    case None
    have "mset (samples (map snd (bt_insert (mf_name mf) mf m))) =
        mset (samples (map snd m)) + mset (samples [mf])"
      by (simp add: mset_samples_snd mset_bt_insert_new [OF None])
    moreover have "set (bt_insert (mf_name mf) mf m) = insert (mf_name mf, mf) (set m)"
      using mset_bt_insert_new [OF None, of mf] by (metis set_mset_mset set_mset_add_mset_insert)
    ultimately show ?thesis
      using g False None by (auto simp: grouped_def bt_wf_insert intro: entry_ok_snoc, simp add: entry_ok_def)
  next
    case (Some old)
    let ?new = "old\<lparr>mf_metric := mf_metric old @ mf_metric mf\<rparr>"
    let ?m = "bt_insert (mf_name mf) ?new m"
    have mem: "(mf_name mf, old) \<in> set m" using Some bt_get_mem [OF wf] by blast
    have ok: "entry_ok mfs (mf_name mf) old" by (rule grouped_entry [OF g mem])
    then have nm: "mf_name old = mf_name mf" by (simp add: entry_ok_def)
    note ins = mset_bt_insert_old [OF wf Some, of ?new]
    have "mset (samples (map snd ?m)) + mset (samples [old]) =
        (\<Sum>(n, f)\<in>#add_mset (mf_name mf, old) (mset ?m). image_mset (Pair (mf_name f)) (mset (mf_metric f)))"
      by (simp add: mset_samples_snd)
    also have "\<dots> = mset (samples (map snd m)) + mset (samples [?new])"
      unfolding ins by (simp add: mset_samples_snd)
    also have "\<dots> = mset (samples (map snd m)) + mset (samples [mf]) + mset (samples [old])"
      by (simp add: nm)
    finally have ms: "mset (samples (map snd ?m)) = mset (samples (mfs @ [mf]))"
      using g by (simp add: grouped_def)
    have "set ?m \<subseteq> insert (mf_name mf, ?new) (set m)"
      using ins by (metis set_mset_mset set_mset_add_mset_insert subset_insertI)
    moreover have "entry_ok (mfs @ [mf]) (mf_name mf) ?new"
      using ok by (auto simp: entry_ok_def)
    ultimately have "\<forall>(n, f) \<in> set ?m. entry_ok (mfs @ [mf]) n f"
      using grouped_entry [OF g] entry_ok_snoc by blast
    then show ?thesis
      using ms Some False bt_wf_insert [OF wf] by (simp add: grouped_def)
  qed
qed

lemma grouped_fold: "grouped mfs (fold gather_family mfs [])"
proof (induction mfs rule: rev_induct)
  case Nil
  show ?case by (simp add: grouped_def)
next
  case (snoc mf mfs)
  then show ?case using grouped_step [of mfs _ mf] by simp
qed

section \<open>The order of the metrics\<close>

definition metric_key :: "Metric \<Rightarrow> nat \<times> string list \<times> int" where
  "metric_key m = (length (m_label m), map lp_value (m_label m), sint (m_timestamp_ms m))"

lemma cmp_values_key:
  "length xs = length ys \<Longrightarrow> cmp_values xs ys = rust_cmp (map lp_value xs) (map lp_value ys)"
  by (induction xs ys rule: cmp_values.induct) (auto simp: rust_cmp_def)

lemma metric_cmp_key: "metric_cmp m1 m2 = rust_cmp (metric_key m1) (metric_key m2)"
  by (auto simp: metric_cmp_def metric_key_def cmp_values_key rust_cmp_def less_prod_def split: ordering.split)

text \<open>Adding the same labels at the end keeps the order.\<close>

lemma append_same_less:
  fixes xs ys :: "'a::linorder list"
  shows "length xs = length ys \<Longrightarrow> xs @ zs < ys @ zs \<longleftrightarrow> xs < ys"
  by (induction xs ys rule: list_induct2) auto

lemma prefix_less:
  fixes xs ys :: "'a::linorder list"
  shows "ps @ xs < ps @ ys \<longleftrightarrow> xs < ys"
  by (induction ps) auto

definition label_metric :: "(string, string) HashMap option \<Rightarrow> Metric \<Rightarrow> Metric" where
  "label_metric labels m =
     (case labels of
        None \<Rightarrow> m
      | Some hmap \<Rightarrow> m\<lparr>m_label := m_label m @ map (\<lambda>(k, v). \<lparr>lp_name = k, lp_value = v\<rparr>) hmap\<rparr>)"

definition prefix_name :: "string option \<Rightarrow> string \<Rightarrow> string" where
  "prefix_name prefix n = (case prefix of None \<Rightarrow> n | Some namespace \<Rightarrow> namespace @ ''_'' @ n)"

lemma label_metric_None: "label_metric None = (\<lambda>m. m)"
  by (simp add: fun_eq_iff label_metric_def)

lemma decorated [simp]:
  "mf_name (add_labels ls (add_prefix p f)) = prefix_name p (mf_name f)"
  "mf_metric (add_labels ls (add_prefix p f)) = map (label_metric ls) (mf_metric f)"
  "mf_help (add_labels ls (add_prefix p f)) = mf_help f"
  "mf_field_type (add_labels ls (add_prefix p f)) = mf_field_type f"
  by (auto simp: add_labels_def add_prefix_def prefix_name_def label_metric_def label_metric_None split: option.split)

lemma prefix_name_less: "prefix_name p a < prefix_name p b \<longleftrightarrow> a < b"
  using prefix_less [of "the p @ ''_''" a b] by (auto simp: prefix_name_def split: option.split)

lemma label_metric_key:
  "metric_key a \<le> metric_key b \<Longrightarrow> metric_key (label_metric ls a) \<le> metric_key (label_metric ls b)"
  by (auto simp: metric_key_def label_metric_def less_eq_prod_def less_prod_def append_same_less
      dest: map_eq_imp_length_eq split: option.split)

section \<open>The families gathered\<close>

definition collected :: "'c collector_ops \<Rightarrow> 'c RegistryCore \<Rightarrow> MetricFamily list" where
  "collected ops r = concat (map (\<lambda>(_, c). co_collect ops c) (rg_collectors_by_id r))"

definition family_of :: "'c RegistryCore \<Rightarrow> MetricFamily \<Rightarrow> MetricFamily" where
  "family_of r f = add_labels (rg_labels r) (add_prefix (rg_prefix r) (f\<lparr>mf_metric := sort_by metric_cmp (mf_metric f)\<rparr>))"

lemma registry_gather_alt:
  "registry_gather ops r = map (family_of r) (map snd (fold gather_family (collected ops r) []))"
  by (simp add: registry_gather_def Let_def collected_def family_of_def split_def)

lemma family_of_simps [simp]:
  "mf_name (family_of r f) = prefix_name (rg_prefix r) (mf_name f)"
  "mf_metric (family_of r f) = map (label_metric (rg_labels r)) (sort_by metric_cmp (mf_metric f))"
  "mf_help (family_of r f) = mf_help f" "mf_field_type (family_of r f) = mf_field_type f"
  by (simp_all add: family_of_def)

lemma gather_names: "sorted_wrt (<) (map mf_name (registry_gather ops r))"
proof -
  let ?m = "fold gather_family (collected ops r) []"
  have g: "grouped (collected ops r) ?m" by (rule grouped_fold)
  have "mf_name f = n" if "(n, f) \<in> set ?m" for n f
    using grouped_entry [OF g that] by (simp add: entry_ok_def)
  then have "map mf_name (map snd ?m) = map fst ?m" by auto
  then have "map mf_name (registry_gather ops r) = map (prefix_name (rg_prefix r)) (map fst ?m)"
    by (simp add: registry_gather_alt comp_def flip: map_map) (simp add: comp_def)
  then show ?thesis
    using g by (simp add: grouped_def bt_wf_def sorted_wrt_map prefix_name_less)
qed

lemma sorted_label_metric:
  "sorted (map metric_key ms) \<Longrightarrow> sorted (map metric_key (map (label_metric ls) ms))"
  by (induction ms) (auto intro: label_metric_key)

lemma gather_sorted:
  assumes "f \<in> set (registry_gather ops r)"
  shows "sorted (map metric_key (mf_metric f)) \<and> mf_metric f \<noteq> []"
proof -
  let ?m = "fold gather_family (collected ops r) []"
  from assms obtain n g where g: "(n, g) \<in> set ?m" "f = family_of r g"
    by (auto simp: registry_gather_alt)
  from grouped_entry [OF grouped_fold g(1)] have "mf_metric g \<noteq> []" by (simp add: entry_ok_def)
  then show ?thesis
    using sorted_label_metric [OF sorted_sort_by [of metric_cmp metric_key, OF metric_cmp_key]]
    by (simp add: g)
qed

lemma mset_samples_family:
  "mset (samples (map (family_of r) fs)) =
     image_mset (map_prod (prefix_name (rg_prefix r)) (label_metric (rg_labels r))) (mset (samples fs))"
  by (induction fs) (simp_all add: image_mset.compositionality comp_def)

lemma gather_complete:
  "mset (samples (registry_gather ops r)) =
     image_mset (map_prod (prefix_name (rg_prefix r)) (label_metric (rg_labels r)))
       (mset (samples (collected ops r)))"
  using grouped_fold [of "collected ops r"]
  by (simp add: registry_gather_alt mset_samples_family grouped_def del: map_map)

lemma gather_source:
  assumes "f \<in> set (registry_gather ops r)"
  shows "\<exists>g \<in> set (collected ops r). mf_name f = prefix_name (rg_prefix r) (mf_name g) \<and>
    mf_help f = mf_help g \<and> mf_field_type f = mf_field_type g"
proof -
  from assms obtain n g where g: "(n, g) \<in> set (fold gather_family (collected ops r) [])" "f = family_of r g"
    by (auto simp: registry_gather_alt)
  from grouped_entry [OF grouped_fold g(1)] show ?thesis
    unfolding entry_ok_def g(2) family_of_simps by metis
qed

end
