(* ===== verification/Metric_Text.thy ===== *)
theory Metric_Text
  imports Metric_Histogram
begin

text \<open>
  The text encoder (\<open>src/prometheus/src/encoder/text.rs\<close>, \<open>encoder/mod.rs\<close>) and the part of the
  standard library's formatting it prints numbers with. A writer is any type with a function
  \<open>write_all\<close>, which can fail; \<open>StringBuf\<close> is the writer that appends to a string.
\<close>

section \<open>Printing numbers\<close>

definition digit_char :: "nat \<Rightarrow> char" where
  "digit_char d = char_of (48 + d)"

fun dec :: "nat \<Rightarrow> string" where
  "dec n = (if n < 10 then [digit_char n] else dec (n div 10) @ [digit_char (n mod 10)])"

declare dec.simps [simp del]

definition int_to_string :: "int \<Rightarrow> string" where
  "int_to_string i = (if i < 0 then ''-'' @ dec (nat (- i)) else dec (nat i))"

text \<open>
  \<open>f64\<close> is displayed with the fewest digits that read back as the same number, the nearest such
  digits to it, and no exponent. \<open>shortest q\<close> is the digits and the decimal exponent for a positive
  \<open>q\<close>. 17 digits are enough for the format; a number that is not of the format is printed exactly.
\<close>

definition dec_value :: "nat \<Rightarrow> int \<Rightarrow> rat" where
  "dec_value d e = of_nat d * 10 powi e"

definition magnitude :: "rat \<Rightarrow> int" where
  "magnitude q =
     (if q \<ge> 1 then int (length (dec (nat \<lfloor>q\<rfloor>)))
      else (case find (\<lambda>j. q * 10 ^ j \<ge> 1) [0..<400] of Some j \<Rightarrow> 1 - int j | None \<Rightarrow> - 400))"

definition candidates :: "rat \<Rightarrow> nat \<Rightarrow> (nat \<times> int) list" where
  "candidates q n =
     (let e = magnitude q - int n; y = q / 10 powi e;
          lo = nat \<lfloor>y\<rfloor>; near = (if y - of_nat lo \<le> 1 / 2 then [lo, lo + 1] else [lo + 1, lo])
      in filter (\<lambda>(d, e). rnd (dec_value d e) = Fin q)
           (map (\<lambda>d. if d = 10 ^ n then (1, e + int n) else (d, e)) near))"

definition exact_places :: nat where
  "exact_places = 1074"

definition exact_digits :: "rat \<Rightarrow> nat \<times> int" where
  "exact_digits q = (nat \<lfloor>q * 10 ^ exact_places\<rfloor>, - int exact_places)"

definition shortest :: "rat \<Rightarrow> nat \<times> int" where
  "shortest q =
     (case concat (map (candidates q) [1..<18]) of
        c # _ \<Rightarrow> c
      | [] \<Rightarrow> exact_digits q)"

definition pad_left :: "nat \<Rightarrow> string \<Rightarrow> string" where
  "pad_left k s = replicate (k - length s) CHR ''0'' @ s"

definition decimal :: "nat \<Rightarrow> int \<Rightarrow> string" where
  "decimal d e =
     (if e \<ge> 0 then dec (d * 10 ^ nat e)
      else (let k = nat (- e) in dec (d div 10 ^ k) @ ''.'' @ pad_left k (dec (d mod 10 ^ k))))"

fun f64_to_string :: "f64 \<Rightarrow> string" where
  "f64_to_string NaN = ''NaN''"
| "f64_to_string PInf = ''inf''"
| "f64_to_string NInf = ''-inf''"
| "f64_to_string (Fin q) =
     (if q = 0 then ''0''
      else (if q < 0 then ''-'' else []) @ (case shortest \<bar>q\<bar> of (d, e) \<Rightarrow> decimal d e))"

section \<open>Escaping\<close>

definition backslash :: char where "backslash = CHR 0x5C"
definition newline :: char where "newline = CHR 0x0A"
definition dquote :: char where "dquote = CHR 0x22"

definition position :: "('a \<Rightarrow> bool) \<Rightarrow> 'a list \<Rightarrow> nat option" where
  "position P xs = find (\<lambda>i. P (xs ! i)) [0..<length xs]"

text \<open>\<open>memchr3\<close> and \<open>memchr2\<close> give the position of the first of the bytes.\<close>

definition find_first_occurence :: "string \<Rightarrow> bool \<Rightarrow> nat option" where
  "find_first_occurence v include_double_quote =
     (if include_double_quote
      then position (\<lambda>c. c = backslash \<or> c = newline \<or> c = dquote) v
      else position (\<lambda>c. c = backslash \<or> c = newline) v)"

text \<open>\<open>char::escape_default\<close> of the three characters it is called on.\<close>

definition escape_default :: "char \<Rightarrow> string" where
  "escape_default c = (if c = newline then [backslash, CHR ''n''] else [backslash, c])"

definition escape_string :: "string \<Rightarrow> bool \<Rightarrow> string" where
  "escape_string v include_double_quote =
     (case find_first_occurence v include_double_quote of
        Some first \<Rightarrow>
          fold (\<lambda>c escaped.
              if c = backslash \<or> c = newline then escaped @ escape_default c
              else if c = dquote \<and> include_double_quote then escaped @ escape_default c
              else escaped @ [c])
            (drop first v) (take first v)
      | None \<Rightarrow> v)"

section \<open>Writing\<close>

text \<open>A step of the encoder ends normally, with an error (\<open>?\<close>) or in a panic.\<close>

datatype outcome = Done | Failed PromError | Panicked

type_synonym 'w step = "'w \<Rightarrow> outcome \<times> 'w"

definition and_then :: "'w step \<Rightarrow> 'w step \<Rightarrow> 'w step" where
  "and_then a b w = (case a w of (Done, w') \<Rightarrow> b w' | (res, w') \<Rightarrow> (res, w'))"

definition skip :: "'w step" where
  "skip w = (Done, w)"

definition in_turn :: "'w step list \<Rightarrow> 'w step" where
  "in_turn steps = foldr and_then steps skip"

definition StringBuf_write_all :: "string \<Rightarrow> string step" where
  "StringBuf_write_all t buf = (Done, buf @ t)"

fun write_pairs :: "(string \<Rightarrow> 'w step) \<Rightarrow> string \<Rightarrow> (string \<times> string) list \<Rightarrow> 'w step" where
  "write_pairs write_all separator [] = skip"
| "write_pairs write_all separator ((name, value) # pairs) =
     in_turn
       [write_all separator, write_all name, write_all [CHR ''='', dquote],
        write_all (escape_string value True), write_all [dquote],
        write_pairs write_all '','' pairs]"

definition label_pairs_to_text ::
  "(string \<Rightarrow> 'w step) \<Rightarrow> LabelPair list \<Rightarrow> (string \<times> string) option \<Rightarrow> 'w step" where
  "label_pairs_to_text write_all pairs additional_label =
     (if pairs = [] \<and> additional_label = None then skip
      else and_then
        (write_pairs write_all ''{''
          (map (\<lambda>lp. (lp_name lp, lp_value lp)) pairs @
             (case additional_label of None \<Rightarrow> [] | Some (name, value) \<Rightarrow> [(name, value)])))
        (write_all ''}''))"

definition write_sample ::
  "(string \<Rightarrow> 'w step) \<Rightarrow> string \<Rightarrow> string option \<Rightarrow> Metric \<Rightarrow> (string \<times> string) option \<Rightarrow> f64 \<Rightarrow> 'w step" where
  "write_sample write_all name name_postfix mc additional_label value =
     in_turn
       [write_all name,
        (case name_postfix of Some postfix \<Rightarrow> write_all postfix | None \<Rightarrow> skip),
        label_pairs_to_text write_all (m_label mc) additional_label,
        write_all '' '',
        write_all (f64_to_string value),
        (let timestamp = m_timestamp_ms mc in
         if timestamp \<noteq> 0
         then and_then (write_all '' '') (write_all (int_to_string (sint timestamp))) else skip),
        write_all [newline]]"

definition check_metric_family :: "(MetricFamily \<Rightarrow> string) \<Rightarrow> MetricFamily \<Rightarrow> 'w step" where
  "check_metric_family dbg mf w =
     (if mf_metric mf = [] then (Failed (Msg (''MetricFamily has no metrics: '' @ dbg mf)), w)
      else if mf_name mf = [] then (Failed (Msg (''MetricFamily has no name: '' @ dbg mf)), w)
      else (Done, w))"

fun lowercase_type :: "MetricType \<Rightarrow> string" where
  "lowercase_type COUNTER = ''counter''"
| "lowercase_type GAUGE = ''gauge''"
| "lowercase_type SUMMARY = ''summary''"
| "lowercase_type UNTYPED = ''untyped''"
| "lowercase_type HISTOGRAM = ''histogram''"

definition POSITIVE_INF :: string where "POSITIVE_INF = ''+Inf''"
definition QUANTILE :: string where "QUANTILE = ''quantile''"

definition u64_as_f64 :: "u64 \<Rightarrow> f64" where
  "u64_as_f64 n = f64_of_nat (unat n)"

definition encode_metric :: "(string \<Rightarrow> 'w step) \<Rightarrow> string \<Rightarrow> MetricType \<Rightarrow> Metric \<Rightarrow> 'w step" where
  "encode_metric write_all name metric_type m =
     (case metric_type of
        COUNTER \<Rightarrow> write_sample write_all name None m None (counter_value (m_counter m))
      | GAUGE \<Rightarrow> write_sample write_all name None m None (gauge_value (m_gauge m))
      | HISTOGRAM \<Rightarrow>
          (let h = m_histogram m in
           in_turn
             (map (\<lambda>b. write_sample write_all name (Some ''_bucket'') m
                        (Some (BUCKET_LABEL, f64_to_string (b_upper_bound b)))
                        (u64_as_f64 (b_cumulative_count b))) (ph_bucket h) @
              [if \<not> list_ex (\<lambda>b. b_upper_bound b = PInf) (ph_bucket h)
               then write_sample write_all name (Some ''_bucket'') m (Some (BUCKET_LABEL, POSITIVE_INF))
                      (u64_as_f64 (ph_sample_count h))
               else skip,
               write_sample write_all name (Some ''_sum'') m None (ph_sample_sum h),
               write_sample write_all name (Some ''_count'') m None (u64_as_f64 (ph_sample_count h))]))
      | SUMMARY \<Rightarrow>
          (let s = m_summary m in
           in_turn
             (map (\<lambda>q. write_sample write_all name None m
                        (Some (QUANTILE, f64_to_string (q_quantile q))) (q_value q)) (sm_quantile s) @
              [write_sample write_all name (Some ''_sum'') m None (sm_sample_sum s),
               write_sample write_all name (Some ''_count'') m None (u64_as_f64 (sm_sample_count s))]))
      | UNTYPED \<Rightarrow> (\<lambda>w. (Panicked, w)))"

definition encode_family :: "(MetricFamily \<Rightarrow> string) \<Rightarrow> (string \<Rightarrow> 'w step) \<Rightarrow> MetricFamily \<Rightarrow> 'w step" where
  "encode_family dbg write_all mf =
     in_turn
       [check_metric_family dbg mf,
        (if mf_help mf \<noteq> []
         then in_turn [write_all ''# HELP '', write_all (mf_name mf), write_all '' '',
                       write_all (escape_string (mf_help mf) False), write_all [newline]]
         else skip),
        write_all ''# TYPE '', write_all (mf_name mf), write_all '' '',
        write_all (lowercase_type (mf_field_type mf)), write_all [newline],
        in_turn (map (encode_metric write_all (mf_name mf) (mf_field_type mf)) (mf_metric mf))]"

definition encode_impl ::
  "(MetricFamily \<Rightarrow> string) \<Rightarrow> (string \<Rightarrow> 'w step) \<Rightarrow> MetricFamily list \<Rightarrow> 'w step" where
  "encode_impl dbg write_all metric_families = in_turn (map (encode_family dbg write_all) metric_families)"

definition encode_to_string :: "(MetricFamily \<Rightarrow> string) \<Rightarrow> MetricFamily list \<Rightarrow> outcome \<times> string" where
  "encode_to_string dbg metric_families =
     (case encode_impl dbg StringBuf_write_all metric_families [] of (res, buf) \<Rightarrow> (res, buf))"

definition TEXT_FORMAT :: string where
  "TEXT_FORMAT = ''text/plain; version=0.0.4''"

end
