(* ===== verification/F64_Round.thy ===== *)
theory F64_Round
  imports F64
begin

text \<open>
  Rounding again changes nothing, so that a sum of floating-point numbers is never below its
  larger part when the other is positive.
\<close>

lemma rnd_pos_exact: "x / 2 powi ulp_exp x = of_int k \<Longrightarrow> rnd_pos x = x"
  by (simp add: rnd_pos_def) (simp add: field_simps)

lemma multiple_of_smaller_ulp:
  assumes "x = of_int k * (2::rat) powi e" and "u \<le> e"
  shows "x / 2 powi u = of_int (k * 2 ^ nat (e - u))"
  using pow2_multiple [OF assms(2)] by (simp add: assms(1) times_divide_eq_right [symmetric] del: times_divide_eq_right)

text \<open>A rounded number is its own rounding.\<close>

lemma rnd_pos_idem:
  assumes x: "0 < x" and y: "0 < rnd_pos x"
  shows "rnd_pos (rnd_pos x) = rnd_pos x"
proof -
  let ?y = "rnd_pos x" and ?e = "ulp_exp x" and ?m = "max (ilog2 x + 1) (- 1074)"
  have multiple: "?y = of_int (round_even (x / 2 powi ?e)) * 2 powi ?e"
    by (simp add: rnd_pos_def)
  have "x \<le> 2 powi (ilog2 x + 1)" using ilog2_bounds(2) [OF x] by simp
  also have "\<dots> \<le> 2 powi ?m" by (intro power_int_increasing) auto
  finally have top: "?y \<le> 2 powi ?m"
    using x by (intro rnd_pos_le_pow2) (auto simp: ulp_exp_def)
  show ?thesis
  proof (cases "ulp_exp ?y \<le> ?e")
    case True
    from rnd_pos_exact [OF multiple_of_smaller_ulp [OF multiple True]] show ?thesis .
  next
    case False
    then have less: "ilog2 x < ilog2 ?y" and big: "- 1074 < ilog2 ?y - 52"
      by (auto simp: ulp_exp_def split: if_splits)
    then have "(2::rat) powi ?m \<le> 2 powi ilog2 ?y" by (intro power_int_increasing) auto
    with top ilog2_bounds(1) [OF y] have eq: "?y = 2 powi ilog2 ?y" by linarith
    have "ulp_exp ?y \<le> ilog2 ?y" using big by (simp add: ulp_exp_def)
    from rnd_pos_exact [OF multiple_of_smaller_ulp [OF _ this, of ?y 1]] eq show ?thesis by simp
  qed
qed

lemma rnd_idem: "rnd x = Fin y \<Longrightarrow> rnd y = Fin y"
proof -
  assume r: "rnd x = Fin y"
  have pos: "rnd y = Fin y" if "0 < x" "rnd x = Fin y" for x y
  proof (cases "y = 0")
    case False
    have y: "y = rnd_pos x" "y < overflow_limit" using that by (auto simp: rnd_cases split: if_splits)
    with False rnd_pos_nonneg [OF that(1)] have "0 < y" by simp
    with y rnd_pos_idem [OF that(1)] show ?thesis by (simp add: rnd_cases)
  qed simp
  consider "0 < x" | "x = 0" | "x < 0" by linarith
  then show ?thesis
  proof cases
    case 3
    then have "rnd (- x) = Fin (- y)" using r by (auto simp: rnd_cases split: if_splits)
    from pos [OF _ this] 3 have neg: "rnd (- y) = Fin (- y)" by simp
    have "y \<le> 0" using 3 r rnd_pos_nonneg [of "- x"] by (auto simp: rnd_cases split: if_splits)
    with neg show ?thesis by (cases "y = 0") (auto simp: rnd_cases split: if_splits)
  qed (use r pos in auto)
qed

text \<open>Adding a positive number never makes a number smaller, rounding included.\<close>

definition f64_exact :: "f64 \<Rightarrow> bool" where
  "f64_exact v \<longleftrightarrow> (\<forall>a. v = Fin a \<longrightarrow> rnd a = Fin a)"

lemma f64_add_exact: "f64_exact v \<Longrightarrow> f64_exact w \<Longrightarrow> f64_exact (f64_add v w)"
  by (cases v; cases w) (auto simp: f64_exact_def dest: rnd_idem)

lemma f64_add_increases:
  assumes "f64_exact v" and "v \<noteq> NaN" and "v \<noteq> NInf" and "f64_lt (Fin 0) d"
  shows "f64_le v (f64_add v d)"
proof (cases v)
  case (Fin a)
  show ?thesis
  proof (cases d)
    case d: (Fin b)
    then have "a \<le> a + b" using assms(4) by (simp add: f64_lt_def)
    from rnd_mono [OF this] assms(1) show ?thesis by (simp add: Fin d f64_exact_def)
  qed (use assms(4) in \<open>auto simp: Fin f64_lt_def\<close>)
qed (use assms in \<open>cases d; auto simp: f64_lt_def\<close>)+

end
