(* ===== verification/Metric_Text_Spec.thy ===== *)
theory Metric_Text_Spec
  imports Metric_Text Metric_Desc F64_Round
begin

text \<open>
  A reader of the text format and the round trip with the encoder
  (\<open>src/prometheus/src/encoder/text.rs\<close>): numbers, escaped strings, label sets, samples and
  whole documents.
\<close>

section \<open>Decimal numbers\<close>

definition digit_value :: "char \<Rightarrow> nat" where
  "digit_value c = of_char c - 48"

definition read_nat :: "string \<Rightarrow> nat" where
  "read_nat s = foldl (\<lambda>n c. 10 * n + digit_value c) 0 s"

definition all_digits :: "string \<Rightarrow> bool" where
  "all_digits s \<longleftrightarrow> list_all is_digit10 s"

lemma of_char_digit: "d < 10 \<Longrightarrow> of_char (digit_char d) = (48 + d :: nat)"
  by (simp add: digit_char_def)

lemma digit_value_char [simp]: "d < 10 \<Longrightarrow> digit_value (digit_char d) = d"
  by (simp add: digit_value_def of_char_digit)

lemma is_digit_char [simp]: "d < 10 \<Longrightarrow> is_digit10 (digit_char d)"
  by (simp add: is_digit10_def of_char_digit)

lemma read_nat_simps [simp]:
  "read_nat [] = 0" "read_nat (s @ [c]) = 10 * read_nat s + digit_value c"
  by (simp_all add: read_nat_def)

lemma read_nat_append: "read_nat (s @ t) = read_nat s * 10 ^ length t + read_nat t"
  by (induction t rule: rev_induct) (simp_all add: append_assoc [symmetric] algebra_simps del: append_assoc)

lemma read_nat_dec [simp]: "read_nat (dec n) = n"
proof (induction n rule: dec.induct)
  case (1 n)
  have "read_nat [digit_char n] = n" if "n < 10"
    using that read_nat_simps(2) [of "[]" "digit_char n"] by simp
  with 1 show ?case by (subst dec.simps) auto
qed

lemma all_digits_dec [simp]: "all_digits (dec n)"
proof (induction n rule: dec.induct)
  case (1 n)
  then show ?case by (subst dec.simps) (auto simp: all_digits_def)
qed

lemma dec_nonempty [simp]: "dec n \<noteq> []"
  by (subst dec.simps) simp

lemma length_dec: "n < 10 ^ k \<Longrightarrow> k > 0 \<Longrightarrow> length (dec n) \<le> k"
proof (induction n arbitrary: k rule: dec.induct)
  case (1 n)
  show ?case
  proof (cases "n < 10")
    case True
    with 1(3) show ?thesis by (subst dec.simps) simp
  next
    case False
    with 1(2) obtain j where k: "k = Suc j" "j > 0" by (cases k) (auto, cases "k - 1", auto)
    with 1(2) have "n div 10 < 10 ^ j" by (simp add: less_mult_imp_div_less mult.commute)
    with 1(1) [OF False this k(2)] False k show ?thesis by (subst dec.simps) simp
  qed
qed

lemma read_nat_zeros [simp]: "read_nat (replicate k CHR ''0'' @ s) = read_nat s"
proof (induction k)
  case (Suc k)
  have "read_nat (CHR ''0'' # t) = read_nat t" for t
    using read_nat_append [of "[CHR ''0'']" t] read_nat_simps(2) [of "[]" "CHR ''0''"]
    by (simp add: digit_value_def)
  with Suc show ?case by simp
qed simp

lemma digit_not:
  "is_digit10 c \<Longrightarrow> c \<noteq> CHR ''.'' \<and> c \<noteq> CHR '' '' \<and> c \<noteq> newline \<and> c \<noteq> CHR ''-'' \<and> c \<noteq> CHR ''N'' \<and> c \<noteq> CHR ''i''"
  by (auto simp: is_digit10_def newline_def)

definition read_int :: "string \<Rightarrow> int" where
  "read_int s = (case s of [] \<Rightarrow> 0 | c # t \<Rightarrow> if c = CHR ''-'' then - int (read_nat t) else int (read_nat s))"

lemma dec_Cons:
  obtains c s where "dec n = c # s" "is_digit10 c"
  using all_digits_dec [of n] dec_nonempty [of n] by (cases "dec n") (auto simp: all_digits_def)

lemma read_int_to_string [simp]: "read_int (int_to_string i) = i"
proof (cases "i < 0")
  case False
  obtain c s where "dec (nat i) = c # s" "is_digit10 c" by (rule dec_Cons)
  then show ?thesis
    using False digit_not [of c] read_nat_dec [of "nat i"] by (simp add: read_int_def int_to_string_def)
qed (simp add: read_int_def int_to_string_def)

definition read_decimal :: "string \<Rightarrow> rat" where
  "read_decimal s =
     (let i = takeWhile (\<lambda>c. c \<noteq> CHR ''.'') s; f = drop 1 (dropWhile (\<lambda>c. c \<noteq> CHR ''.'') s)
      in of_nat (read_nat (i @ f)) / 10 ^ length f)"

lemma read_decimal_plain: "all_digits s \<Longrightarrow> read_decimal s = of_nat (read_nat s)"
proof -
  assume "all_digits s"
  then have "\<forall>c \<in> set s. c \<noteq> CHR ''.''" using digit_not by (auto simp: all_digits_def list_all_iff)
  then have "takeWhile (\<lambda>c. c \<noteq> CHR ''.'') s = s" "dropWhile (\<lambda>c. c \<noteq> CHR ''.'') s = []" by auto
  then show ?thesis unfolding read_decimal_def Let_def by (simp only:) simp
qed

lemma read_decimal_point:
  assumes "all_digits i"
  shows "read_decimal (i @ CHR ''.'' # f) = of_nat (read_nat (i @ f)) / 10 ^ length f"
proof -
  have d: "c \<noteq> CHR ''.''" if "c \<in> set i" for c
    using that assms digit_not by (auto simp: all_digits_def list_all_iff)
  then have "takeWhile (\<lambda>c. c \<noteq> CHR ''.'') (i @ CHR ''.'' # f) = i"
    "dropWhile (\<lambda>c. c \<noteq> CHR ''.'') (i @ CHR ''.'' # f) = CHR ''.'' # f"
    by (simp_all add: takeWhile_append2 dropWhile_append2)
  then show ?thesis by (simp add: read_decimal_def)
qed

lemma read_decimal_decimal: "read_decimal (decimal d e) = dec_value d e"
proof (cases "e \<ge> 0")
  case True
  then show ?thesis
    by (simp add: decimal_def read_decimal_plain dec_value_def power_int_nonneg_exp)
next
  case False
  define k where "k = nat (- e)"
  let ?f = "pad_left k (dec (d mod 10 ^ k))"
  have k: "k > 0" "e = - int k" using False by (simp_all add: k_def)
  have l: "length (dec (d mod 10 ^ k)) \<le> k" by (rule length_dec) (use k in simp_all)
  then have lf: "length ?f = k" by (simp add: pad_left_def)
  have "read_nat ?f = d mod 10 ^ k" by (simp add: pad_left_def)
  then have "read_nat (dec (d div 10 ^ k) @ ?f) = d"
    using div_mult_mod_eq [of d "10 ^ k"] by (simp only: read_nat_append lf read_nat_dec)
  moreover have "decimal d e = dec (d div 10 ^ k) @ CHR ''.'' # ?f"
    using False by (simp add: decimal_def k_def Let_def)
  ultimately show ?thesis
    using lf by (simp add: read_decimal_point dec_value_def k(2) power_int_minus field_simps)
qed

section \<open>Floating-point numbers\<close>

definition representable :: "f64 \<Rightarrow> bool" where
  "representable x = (case x of Fin q \<Rightarrow> rnd q = Fin q | _ \<Rightarrow> True)"

definition read_f64 :: "string \<Rightarrow> f64" where
  "read_f64 s =
     (if s = ''NaN'' then NaN else if s = ''inf'' then PInf else if s = ''-inf'' then NInf
      else (case s of [] \<Rightarrow> NaN
            | c # t \<Rightarrow> if c = CHR ''-'' then f64_neg (rnd (read_decimal t)) else rnd (read_decimal s)))"

lemma rnd_neg: "rnd (- q) = f64_neg (rnd q)"
  by (simp add: rnd_def)

lemma scaled_integer:
  assumes "q = of_int m * 2 powi k" and "k + int j \<ge> 0"
  shows "\<exists>n. (q :: rat) * 10 ^ j = of_int n"
proof -
  have "(2::rat) powi k * 2 ^ j = 2 powi (k + int j)" by (simp add: power_int_add)
  also have "\<dots> = of_int (2 ^ nat (k + int j))" using assms(2) by (simp add: power_int_nonneg_exp)
  finally have p: "(2::rat) powi k * 2 ^ j = of_int (2 ^ nat (k + int j))" .
  have "(10::rat) ^ j = 2 ^ j * 5 ^ j" by (simp flip: power_mult_distrib)
  then have "q * 10 ^ j = of_int m * (2 powi k * 2 ^ j) * 5 ^ j" by (simp add: assms(1))
  also have "\<dots> = of_int (m * 2 ^ nat (k + int j) * 5 ^ j)" unfolding p by simp
  finally show ?thesis by blast
qed

lemma exact_value:
  assumes "q > 0" and "rnd q = Fin q"
  shows "case exact_digits q of (d, e) \<Rightarrow> dec_value d e = q"
proof -
  have "q = rnd_pos q" using assms by (auto simp: rnd_def split: if_splits)
  then obtain m where m: "q = of_int m * 2 powi ulp_exp q" by (auto simp: rnd_pos_def)
  have "ulp_exp q + int exact_places \<ge> 0" by (simp add: ulp_exp_def exact_places_def)
  from scaled_integer [OF m this] obtain n where n: "q * 10 ^ exact_places = of_int n" by blast
  then have "n \<ge> 0"
    using assms(1) by (metis less_le mult_pos_pos of_int_0_le_iff zero_less_numeral zero_less_power)
  then show ?thesis
    using n by (simp add: exact_digits_def dec_value_def power_int_minus field_simps)
qed

lemma shortest_reads_back:
  assumes "q > 0" and "rnd q = Fin q" and "shortest q = (d, e)"
  shows "rnd (dec_value d e) = Fin q"
proof (cases "concat (map (candidates q) [1..<18])")
  case Nil
  with assms(3) have "exact_digits q = (d, e)" by (simp only: shortest_def list.case)
  with exact_value [OF assms(1,2)] have "dec_value d e = q" by simp
  with assms show ?thesis by simp
next
  case (Cons c cs)
  then have "(d, e) \<in> set (concat (map (candidates q) [1..<18]))"
    using assms(3) by (simp add: shortest_def)
  then show ?thesis by (auto simp: candidates_def Let_def)
qed

lemma decimal_Cons:
  obtains c s where "decimal d e = c # s" "is_digit10 c"
proof -
  have "\<exists>n t. decimal d e = dec n @ t" by (auto simp: decimal_def Let_def)
  then obtain n t where "decimal d e = dec n @ t" by blast
  moreover obtain c s where "dec n = c # s" "is_digit10 c" by (rule dec_Cons)
  ultimately show ?thesis using that by simp
qed

lemma read_f64_decimal: "read_f64 (decimal d e) = rnd (dec_value d e)"
  "read_f64 (CHR ''-'' # decimal d e) = f64_neg (rnd (dec_value d e))"
proof -
  obtain c s where c: "decimal d e = c # s" "is_digit10 c" by (rule decimal_Cons)
  then show "read_f64 (decimal d e) = rnd (dec_value d e)"
    using digit_not [OF c(2)] read_decimal_decimal [of d e] by (auto simp: read_f64_def)
  show "read_f64 (CHR ''-'' # decimal d e) = f64_neg (rnd (dec_value d e))"
    using c digit_not [OF c(2)] read_decimal_decimal [of d e] by (auto simp: read_f64_def)
qed

lemma read_f64_to_string:
  assumes "representable x"
  shows "read_f64 (f64_to_string x) = x"
proof (cases x)
  case (Fin q)
  with assms have r: "rnd q = Fin q" by (simp add: representable_def)
  obtain d e where s: "shortest \<bar>q\<bar> = (d, e)" by (cases "shortest \<bar>q\<bar>")
  have abs: "rnd \<bar>q\<bar> = Fin \<bar>q\<bar>" using r rnd_neg [of q] by (auto simp: abs_if)
  consider "q = 0" | "q > 0" | "q < 0" by linarith
  then show ?thesis
  proof cases
    case 1
    have "digit_char 0 = CHR ''0''" 
      using char_of_char [where ?'a = nat, of "CHR ''0''"] by (simp add: digit_char_def)
    with 1 show ?thesis using read_f64_decimal(1) [of 0 0]
      by (simp add: Fin decimal_def dec_value_def dec.simps [of 0])
  next
    case 2
    then show ?thesis
      using shortest_reads_back [OF _ abs s] s by (simp add: Fin read_f64_decimal)
  next
    case 3
    then show ?thesis
      using shortest_reads_back [OF _ abs s] s by (simp add: Fin read_f64_decimal)
  qed
qed (simp_all add: read_f64_def)

section \<open>Escaped strings\<close>

definition special :: "bool \<Rightarrow> char \<Rightarrow> bool" where
  "special b c \<longleftrightarrow> c = backslash \<or> c = newline \<or> (b \<and> c = dquote)"

definition esc :: "bool \<Rightarrow> char \<Rightarrow> string" where
  "esc b c = (if special b c then escape_default c else [c])"

lemma position_Some: "position P xs = Some i \<Longrightarrow> x \<in> set (take i xs) \<Longrightarrow> \<not> P x"
  by (auto simp: position_def find_Some_iff in_set_conv_nth)

lemma position_None: "position P xs = None \<Longrightarrow> x \<in> set xs \<Longrightarrow> \<not> P x"
  by (fastforce simp: position_def find_None_iff in_set_conv_nth)

lemma find_first_occurence_alt: "find_first_occurence v b = position (special b) v"
  by (simp add: find_first_occurence_def special_def [abs_def])

lemma fold_escape:
  "fold (\<lambda>c escaped.
      if c = backslash \<or> c = newline then escaped @ escape_default c
      else if c = dquote \<and> b then escaped @ escape_default c
      else escaped @ [c]) s acc = acc @ concat (map (esc b) s)"
  by (induction s arbitrary: acc) (auto simp: esc_def special_def)

lemma plain_esc: "(\<And>c. c \<in> set s \<Longrightarrow> \<not> special b c) \<Longrightarrow> concat (map (esc b) s) = s"
  by (induction s) (auto simp: esc_def)

lemma escape_string_alt: "escape_string v b = concat (map (esc b) v)"
proof (cases "position (special b) v")
  case None
  then show ?thesis
    using position_None [OF None] by (simp add: escape_string_def find_first_occurence_alt plain_esc)
next
  case (Some i)
  have "concat (map (esc b) v) = concat (map (esc b) (take i v)) @ concat (map (esc b) (drop i v))"
    by (metis append_take_drop_id concat_append map_append)
  with Some show ?thesis
    using position_Some [OF Some]
    by (simp add: escape_string_def find_first_occurence_alt fold_escape plain_esc)
qed

lemma escape_no_newline: "newline \<notin> set (escape_string v b)"
  by (auto simp: escape_string_alt esc_def escape_default_def special_def newline_def backslash_def
      split: if_splits)

fun unescape :: "string \<Rightarrow> string" where
  "unescape (c # d # s) =
     (if c = backslash then (if d = CHR ''n'' then newline else d) # unescape s else c # unescape (d # s))"
| "unescape s = s"

lemma unescape_plain: "c \<noteq> backslash \<Longrightarrow> unescape (c # s) = c # unescape s"
  by (cases s) simp_all

lemma unescape_esc: "unescape (esc b c @ s) = c # unescape s"
  by (auto simp: esc_def special_def escape_default_def unescape_plain)
    (auto simp: backslash_def newline_def dquote_def)

lemma unescape_escape: "unescape (escape_string v b) = v"
  by (induction v) (simp_all add: escape_string_alt unescape_esc)

text \<open>A quoted value: everything up to the first quote that is not escaped.\<close>

fun read_quoted :: "string \<Rightarrow> (string \<times> string) option" where
  "read_quoted [] = None"
| "read_quoted (c # s) =
     (if c = dquote then Some ([], s)
      else if c = backslash then
        (case s of
           [] \<Rightarrow> None
         | d # s' \<Rightarrow> map_option (apfst (Cons (if d = CHR ''n'' then newline else d))) (read_quoted s'))
      else map_option (apfst (Cons c)) (read_quoted s))"

lemma read_quoted_esc:
  "read_quoted (esc True c @ s) = map_option (apfst (Cons c)) (read_quoted s)"
  by (auto simp: esc_def special_def escape_default_def)
    (auto simp: backslash_def newline_def dquote_def)

lemma read_quoted_escape: "read_quoted (escape_string v True @ dquote # rest) = Some (v, rest)"
  by (induction v) (simp_all add: escape_string_alt read_quoted_esc)

section \<open>What each step writes\<close>

definition writes :: "string step \<Rightarrow> string \<Rightarrow> bool" where
  "writes a t \<longleftrightarrow> (\<forall>w. a w = (Done, w @ t))"

named_theorems writes_intros

lemma writes_write_all [writes_intros]: "writes (StringBuf_write_all t) t"
  by (simp add: writes_def StringBuf_write_all_def)

lemma writes_skip [writes_intros]: "writes skip []"
  by (simp add: writes_def skip_def)

lemma writes_and_then [writes_intros]: "writes a s \<Longrightarrow> writes b t \<Longrightarrow> writes (and_then a b) (s @ t)"
  by (simp add: writes_def and_then_def)

lemma in_turn_simps [simp]: "in_turn [] = skip" "in_turn (a # as) = and_then a (in_turn as)"
  by (simp_all add: in_turn_def)

lemma writes_in_turn:
  "list_all2 writes steps ts \<Longrightarrow> writes (in_turn steps) (concat ts)"
  by (induction rule: list_all2_induct) (auto intro: writes_intros)

lemma writes_map: "(\<And>x. x \<in> set xs \<Longrightarrow> writes (f x) (g x)) \<Longrightarrow> writes (in_turn (map f xs)) (concat (map g xs))"
  by (induction xs) (auto intro: writes_intros)

fun pairs_text :: "string \<Rightarrow> (string \<times> string) list \<Rightarrow> string" where
  "pairs_text separator [] = []"
| "pairs_text separator ((name, value) # pairs) =
     separator @ name @ [CHR ''='', dquote] @ escape_string value True @ [dquote] @ pairs_text '','' pairs"

lemma writes_pairs: "writes (write_pairs StringBuf_write_all sep pairs) (pairs_text sep pairs)"
proof (induction sep pairs rule: pairs_text.induct)
  case (2 sep name v pairs)
  have "writes (write_pairs StringBuf_write_all sep ((name, v) # pairs))
      (concat [sep, name, [CHR ''='', dquote], escape_string v True, [dquote], pairs_text '','' pairs])"
    unfolding write_pairs.simps by (rule writes_in_turn) (simp add: 2 writes_write_all)
  then show ?case by simp
qed (simp add: writes_skip)

type_synonym sample = "string \<times> (string \<times> string) list \<times> f64 \<times> int"

fun sample_text :: "sample \<Rightarrow> string" where
  "sample_text (name, pairs, v, t) =
     name @ (if pairs = [] then [] else pairs_text ''{'' pairs @ ''}'') @ '' '' @ f64_to_string v @
     (if t \<noteq> 0 then '' '' @ int_to_string t else []) @ [newline]"

definition labels_of :: "Metric \<Rightarrow> (string \<times> string) list" where
  "labels_of m = map (\<lambda>lp. (lp_name lp, lp_value lp)) (m_label m)"

definition option_list :: "'a option \<Rightarrow> 'a list" where
  "option_list x = (case x of None \<Rightarrow> [] | Some y \<Rightarrow> [y])"

lemma writes_label_pairs:
  "writes (label_pairs_to_text StringBuf_write_all pairs add)
     (let ps = map (\<lambda>lp. (lp_name lp, lp_value lp)) pairs @ option_list add
      in if ps = [] then [] else pairs_text ''{'' ps @ ''}'')"
proof (cases "pairs = [] \<and> add = None")
  case True
  then show ?thesis by (simp add: label_pairs_to_text_def option_list_def writes_skip)
next
  case False
  then have "map (\<lambda>lp. (lp_name lp, lp_value lp)) pairs @ option_list add \<noteq> []"
    by (auto simp: option_list_def split: option.split)
  moreover have "(case add of None \<Rightarrow> [] | Some (n, v) \<Rightarrow> [(n, v)]) = option_list add"
    by (auto simp: option_list_def split: option.split)
  ultimately show ?thesis
    using False
    by (simp only: label_pairs_to_text_def if_False Let_def)
      (intro writes_and_then writes_pairs writes_write_all)
qed

lemma writes_sample:
  "writes (write_sample StringBuf_write_all name postfix m add v)
     (sample_text (name @ (case postfix of None \<Rightarrow> [] | Some p \<Rightarrow> p), labels_of m @ option_list add, v,
       sint (m_timestamp_ms m)))"
proof -
  let ?ps = "labels_of m @ option_list add"
  have post: "writes (case postfix of Some postfix \<Rightarrow> StringBuf_write_all postfix | None \<Rightarrow> skip)
      (case postfix of None \<Rightarrow> [] | Some p \<Rightarrow> p)"
    by (auto intro: writes_intros split: option.split)
  have pairs: "writes (label_pairs_to_text StringBuf_write_all (m_label m) add)
      (if ?ps = [] then [] else pairs_text ''{'' ?ps @ ''}'')"
    using writes_label_pairs [of "m_label m" add] by (simp only: labels_of_def Let_def)
  have stamp: "writes (let timestamp = m_timestamp_ms m in
      if timestamp \<noteq> 0
      then and_then (StringBuf_write_all '' '') (StringBuf_write_all (int_to_string (sint timestamp))) else skip)
      (if sint (m_timestamp_ms m) \<noteq> 0 then '' '' @ int_to_string (sint (m_timestamp_ms m)) else [])"
    by (auto simp: Let_def signed_eq_0_iff simp del: append.simps intro: writes_intros)
  have "writes (write_sample StringBuf_write_all name postfix m add v)
      (concat [name, (case postfix of None \<Rightarrow> [] | Some p \<Rightarrow> p),
        (if ?ps = [] then [] else pairs_text ''{'' ?ps @ ''}''), '' '', f64_to_string v,
        (if sint (m_timestamp_ms m) \<noteq> 0 then '' '' @ int_to_string (sint (m_timestamp_ms m)) else []),
        [newline]])"
    unfolding write_sample_def
    by (rule writes_in_turn)
      (simp only: list_all2_Cons list_all2_Nil post stamp pairs writes_write_all simp_thms)
  then show ?thesis by simp
qed

section \<open>The samples of a family\<close>

definition metric_samples :: "string \<Rightarrow> MetricType \<Rightarrow> Metric \<Rightarrow> sample list" where
  "metric_samples name ty m =
     (let ls = labels_of m; t = sint (m_timestamp_ms m); h = m_histogram m; s = m_summary m in
      case ty of
        COUNTER \<Rightarrow> [(name, ls, counter_value (m_counter m), t)]
      | GAUGE \<Rightarrow> [(name, ls, gauge_value (m_gauge m), t)]
      | HISTOGRAM \<Rightarrow>
          map (\<lambda>b. (name @ ''_bucket'', ls @ [(''le'', f64_to_string (b_upper_bound b))],
                     u64_as_f64 (b_cumulative_count b), t)) (ph_bucket h) @
          (if PInf \<in> b_upper_bound ` set (ph_bucket h) then []
           else [(name @ ''_bucket'', ls @ [(''le'', ''+Inf'')], u64_as_f64 (ph_sample_count h), t)]) @
          [(name @ ''_sum'', ls, ph_sample_sum h, t), (name @ ''_count'', ls, u64_as_f64 (ph_sample_count h), t)]
      | SUMMARY \<Rightarrow>
          map (\<lambda>q. (name, ls @ [(''quantile'', f64_to_string (q_quantile q))], q_value q, t)) (sm_quantile s) @
          [(name @ ''_sum'', ls, sm_sample_sum s, t), (name @ ''_count'', ls, u64_as_f64 (sm_sample_count s), t)]
      | UNTYPED \<Rightarrow> [])"

definition family_samples :: "MetricFamily \<Rightarrow> sample list" where
  "family_samples mf = concat (map (metric_samples (mf_name mf) (mf_field_type mf)) (mf_metric mf))"

lemma writes_cong: "writes a t \<Longrightarrow> t = u \<Longrightarrow> writes a u"
  by simp

lemma in_turn_append: "in_turn (xs @ ys) w = and_then (in_turn xs) (in_turn ys) w"
  by (induction xs arbitrary: w) (auto simp: and_then_def skip_def split: prod.split outcome.split)

lemma writes_append: "writes (in_turn xs) s \<Longrightarrow> writes (in_turn ys) t \<Longrightarrow> writes (in_turn (xs @ ys)) (s @ t)"
  using writes_and_then [of "in_turn xs" s "in_turn ys" t] by (simp add: writes_def in_turn_append)

lemma writes_one:
  "writes (write_sample StringBuf_write_all name None m None v)
     (sample_text (name, labels_of m, v, sint (m_timestamp_ms m)))"
  "writes (write_sample StringBuf_write_all name (Some q) m None v)
     (sample_text (name @ q, labels_of m, v, sint (m_timestamp_ms m)))"
  "writes (write_sample StringBuf_write_all name None m (Some l) v)
     (sample_text (name, labels_of m @ [l], v, sint (m_timestamp_ms m)))"
  "writes (write_sample StringBuf_write_all name (Some q) m (Some l) v)
     (sample_text (name @ q, labels_of m @ [l], v, sint (m_timestamp_ms m)))"
  using writes_sample [of name None m None v] writes_sample [of name "Some q" m None v]
    writes_sample [of name None m "Some l" v] writes_sample [of name "Some q" m "Some l" v]
  by (simp_all add: option_list_def del: sample_text.simps)

lemma writes_histogram:
  fixes m :: Metric
  defines "h \<equiv> m_histogram m"
  shows "writes (encode_metric StringBuf_write_all name HISTOGRAM m)
    (concat (map sample_text (metric_samples name HISTOGRAM m)))"
proof -
  let ?bucket = "\<lambda>b. (name @ ''_bucket'', labels_of m @ [(''le'', f64_to_string (b_upper_bound b))],
    u64_as_f64 (b_cumulative_count b), sint (m_timestamp_ms m))"
  let ?inf = "if PInf \<in> b_upper_bound ` set (ph_bucket h) then []
    else [(name @ ''_bucket'', labels_of m @ [(''le'', ''+Inf'')], u64_as_f64 (ph_sample_count h),
      sint (m_timestamp_ms m))]"
  have buckets: "writes (in_turn (map (\<lambda>b. write_sample StringBuf_write_all name (Some ''_bucket'') m
      (Some (''le'', f64_to_string (b_upper_bound b))) (u64_as_f64 (b_cumulative_count b))) (ph_bucket h)))
      (concat (map (\<lambda>b. sample_text (?bucket b)) (ph_bucket h)))"
    by (rule writes_map) (rule writes_one)
  have inf: "writes (if \<not> list_ex (\<lambda>b. b_upper_bound b = PInf) (ph_bucket h)
      then write_sample StringBuf_write_all name (Some ''_bucket'') m (Some (''le'', ''+Inf''))
        (u64_as_f64 (ph_sample_count h)) else skip) (concat (map sample_text ?inf))"
    using writes_one(4) [of name "''_bucket''" m "(''le'', ''+Inf'')" "u64_as_f64 (ph_sample_count h)"]
    by (auto simp: list_ex_iff image_iff writes_skip simp del: sample_text.simps)
  show ?thesis
    unfolding encode_metric_def MetricType.case Let_def BUCKET_LABEL_def POSITIVE_INF_def h_def [symmetric]
    by (rule writes_cong, rule writes_append [OF buckets], unfold in_turn_simps,
        rule writes_and_then [OF inf writes_and_then [OF writes_one(2) writes_and_then [OF writes_one(2) writes_skip]]])
      (simp add: metric_samples_def Let_def h_def comp_def del: sample_text.simps)
qed

lemma writes_summary:
  "writes (encode_metric StringBuf_write_all name SUMMARY m)
     (concat (map sample_text (metric_samples name SUMMARY m)))"
proof -
  let ?s = "m_summary m"
  let ?q = "\<lambda>q. (name, labels_of m @ [(''quantile'', f64_to_string (q_quantile q))], q_value q,
    sint (m_timestamp_ms m))"
  have quantiles: "writes (in_turn (map (\<lambda>q. write_sample StringBuf_write_all name None m
      (Some (''quantile'', f64_to_string (q_quantile q))) (q_value q)) (sm_quantile ?s)))
      (concat (map (\<lambda>q. sample_text (?q q)) (sm_quantile ?s)))"
    by (rule writes_map) (rule writes_one)
  show ?thesis
    unfolding encode_metric_def MetricType.case Let_def QUANTILE_def
    by (rule writes_cong, rule writes_append [OF quantiles], unfold in_turn_simps,
        rule writes_and_then [OF writes_one(2) writes_and_then [OF writes_one(2) writes_skip]])
      (simp add: metric_samples_def Let_def comp_def del: sample_text.simps)
qed

lemma writes_metric:
  assumes "ty \<noteq> UNTYPED"
  shows "writes (encode_metric StringBuf_write_all name ty m)
    (concat (map sample_text (metric_samples name ty m)))"
  using assms writes_histogram [of name m] writes_summary [of name m]
    writes_one(1) [of name m "counter_value (m_counter m)"] writes_one(1) [of name m "gauge_value (m_gauge m)"]
  by (cases ty) (simp_all add: encode_metric_def metric_samples_def del: sample_text.simps)

text \<open>A document is a list of lines: headers and samples.\<close>

datatype line = Header string | Sample sample

fun line_text :: "line \<Rightarrow> string" where
  "line_text (Header t) = CHR ''#'' # t @ [newline]"
| "line_text (Sample s) = sample_text s"

definition family_lines :: "MetricFamily \<Rightarrow> line list" where
  "family_lines mf =
     (if mf_help mf \<noteq> [] then [Header ('' HELP '' @ mf_name mf @ '' '' @ escape_string (mf_help mf) False)]
      else []) @
     [Header ('' TYPE '' @ mf_name mf @ '' '' @ lowercase_type (mf_field_type mf))] @
     map Sample (family_samples mf)"

definition well_formed :: "MetricFamily \<Rightarrow> bool" where
  "well_formed mf \<longleftrightarrow> mf_metric mf \<noteq> [] \<and> mf_name mf \<noteq> [] \<and> mf_field_type mf \<noteq> UNTYPED"

lemma concat_map_concat: "concat (concat (map f xs)) = concat (map (\<lambda>x. concat (f x)) xs)"
  by (induction xs) simp_all

lemma writes_family:
  assumes "well_formed mf"
  shows "writes (encode_family dbg StringBuf_write_all mf) (concat (map line_text (family_lines mf)))"
proof -
  let ?W = StringBuf_write_all
  let ?hlp = "if mf_help mf \<noteq> [] then concat [''# HELP '', mf_name mf, '' '', escape_string (mf_help mf) False,
    [newline]] else []"
  have check: "writes (check_metric_family dbg mf) []"
    using assms by (simp add: writes_def check_metric_family_def well_formed_def)
  have header: "writes (if mf_help mf \<noteq> [] then in_turn [?W ''# HELP '', ?W (mf_name mf), ?W '' '',
      ?W (escape_string (mf_help mf) False), ?W [newline]] else skip) ?hlp"
  proof (cases "mf_help mf = []")
    case False
    have "writes (in_turn [?W ''# HELP '', ?W (mf_name mf), ?W '' '',
        ?W (escape_string (mf_help mf) False), ?W [newline]])
        (concat [''# HELP '', mf_name mf, '' '', escape_string (mf_help mf) False, [newline]])"
      by (rule writes_in_turn) (simp only: list_all2_Cons list_all2_Nil writes_write_all simp_thms)
    with False show ?thesis by (simp only: if_True not_False_eq_True)
  qed (simp add: writes_skip)
  have body: "writes (in_turn (map (encode_metric ?W (mf_name mf) (mf_field_type mf)) (mf_metric mf)))
      (concat (map (\<lambda>m. concat (map sample_text (metric_samples (mf_name mf) (mf_field_type mf) m))) (mf_metric mf)))"
    by (rule writes_map, rule writes_metric) (use assms in \<open>simp add: well_formed_def\<close>)
  have "writes (encode_family dbg ?W mf)
      (concat [[], ?hlp, ''# TYPE '', mf_name mf, '' '', lowercase_type (mf_field_type mf), [newline],
        concat (map (\<lambda>m. concat (map sample_text (metric_samples (mf_name mf) (mf_field_type mf) m)))
          (mf_metric mf))])"
    unfolding encode_family_def
    by (rule writes_in_turn)
      (simp only: list_all2_Cons list_all2_Nil check header body writes_write_all simp_thms)
  then show ?thesis
    by (rule writes_cong)
      (simp add: family_lines_def family_samples_def comp_def map_concat concat_map_concat del: sample_text.simps)
qed

section \<open>Reading\<close>

fun read_pairs :: "nat \<Rightarrow> string \<Rightarrow> ((string \<times> string) list \<times> string) option" where
  "read_pairs 0 s = None"
| "read_pairs (Suc n) s =
     (let name = takeWhile (\<lambda>c. c \<noteq> CHR ''='') s in
      case read_quoted (drop (length name + 2) s) of
        Some (v, c # s') \<Rightarrow>
          if c = CHR '','' then map_option (apfst (Cons (name, v))) (read_pairs n s')
          else if c = CHR ''}'' then Some ([(name, v)], s') else None
      | _ \<Rightarrow> None)"

definition read_line_end :: "string \<Rightarrow> string \<times> string" where
  "read_line_end s =
     (let t = takeWhile (\<lambda>c. c \<noteq> newline) s in (t, drop (length t + 1) s))"

definition read_labels :: "string \<Rightarrow> ((string \<times> string) list \<times> string) option" where
  "read_labels s =
     (if s \<noteq> [] \<and> hd s = CHR ''{'' then read_pairs (length (tl s)) (tl s) else Some ([], s))"

definition read_value :: "string \<Rightarrow> f64 \<times> int \<times> string" where
  "read_value s =
     (let v = takeWhile (\<lambda>c. c \<noteq> CHR '' '' \<and> c \<noteq> newline) s; s' = drop (length v) s in
      if s' \<noteq> [] \<and> hd s' = CHR '' ''
      then (case read_line_end (tl s') of (t, rest) \<Rightarrow> (read_f64 v, read_int t, rest))
      else (read_f64 v, 0, drop 1 s'))"

definition read_sample :: "string \<Rightarrow> (sample \<times> string) option" where
  "read_sample s =
     (let name = takeWhile (\<lambda>c. c \<noteq> CHR ''{'' \<and> c \<noteq> CHR '' '') s in
      case read_labels (drop (length name) s) of
        None \<Rightarrow> None
      | Some (pairs, s') \<Rightarrow>
          (case read_value (drop 1 s') of (v, t, rest) \<Rightarrow> Some ((name, pairs, v, t), rest)))"

fun read_document :: "nat \<Rightarrow> string \<Rightarrow> sample list option" where
  "read_document n [] = Some []"
| "read_document 0 (c # s) = None"
| "read_document (Suc n) (c # s) =
     (if c = CHR ''#'' then read_document n (snd (read_line_end s))
      else
        (case read_sample (c # s) of
           None \<Rightarrow> None
         | Some (x, rest) \<Rightarrow> map_option (Cons x) (read_document n rest)))"

lemma takeWhile_stop: "(\<And>c. c \<in> set a \<Longrightarrow> P c) \<Longrightarrow> \<not> P d \<Longrightarrow> takeWhile P (a @ d # b) = a"
  by (induction a) simp_all

lemma read_line_end_text: "newline \<notin> set t \<Longrightarrow> read_line_end (t @ newline # rest) = (t, rest)"
proof -
  assume "newline \<notin> set t"
  then have "takeWhile (\<lambda>c. c \<noteq> newline) (t @ newline # rest) = t"
    by (intro takeWhile_stop) auto
  then show ?thesis by (simp add: read_line_end_def)
qed

lemma read_pairs_text:
  assumes "pairs \<noteq> []" and "length pairs \<le> n" and "\<And>l. l \<in> set pairs \<Longrightarrow> CHR ''='' \<notin> set (fst l)"
  shows "read_pairs n (drop 1 (pairs_text [sep] pairs) @ CHR ''}'' # rest) = Some (pairs, rest)"
  using assms
proof (induction pairs arbitrary: n sep)
  case (Cons l pairs)
  obtain name v where l: "l = (name, v)" by (cases l)
  obtain k where n: "n = Suc k" using Cons(3) by (cases n) auto
  let ?rest = "pairs_text '','' pairs @ CHR ''}'' # rest"
  have s: "drop 1 (pairs_text [sep] (l # pairs)) @ CHR ''}'' # rest =
      name @ CHR ''='' # dquote # escape_string v True @ dquote # ?rest"
    by (simp add: l)
  have "CHR ''='' \<notin> set name" using Cons(4) [of l] by (simp add: l)
  then have t: "takeWhile (\<lambda>c. c \<noteq> CHR ''='') (name @ CHR ''='' # z) = name" for z
    by (intro takeWhile_stop) auto
  show ?case
  proof (cases pairs)
    case Nil
    then show ?thesis
      unfolding s n by (simp add: t read_quoted_escape Let_def l)
  next
    case (Cons l' ps)
    have "pairs \<noteq> []" "length pairs \<le> k" using Cons Cons.prems(2) n by simp_all
    note ih = Cons.IH [OF this, of "CHR '',''"]
    obtain name' v' where l': "l' = (name', v')" by (cases l')
    have c: "?rest = CHR '','' # (drop 1 (pairs_text '','' pairs) @ CHR ''}'' # rest)"
      by (simp add: Cons l')
    show ?thesis
      using ih Cons.prems(3) unfolding s n c by (simp add: t read_quoted_escape Let_def l)
  qed
qed simp

lemma length_pairs_text: "length pairs \<le> length (pairs_text sep pairs)"
  by (induction sep pairs rule: pairs_text.induct) simp_all

lemma is_digit_pad: "all_digits s \<Longrightarrow> all_digits (pad_left k s)"
  by (auto simp: all_digits_def pad_left_def is_digit10_def list_all_iff)

lemma decimal_chars: "c \<in> set (decimal d e) \<Longrightarrow> is_digit10 c \<or> c = CHR ''.''"
  using all_digits_dec is_digit_pad
  by (fastforce simp: decimal_def Let_def all_digits_def list_all_iff split: if_splits)

lemma f64_chars: "c \<in> set (f64_to_string x) \<Longrightarrow> c \<noteq> CHR '' '' \<and> c \<noteq> newline"
proof (cases x)
  case (Fin q)
  obtain d e where s: "shortest \<bar>q\<bar> = (d, e)" by (cases "shortest \<bar>q\<bar>")
  assume "c \<in> set (f64_to_string x)"
  then consider "c \<in> {CHR ''0'', CHR ''-''}" | "c \<in> set (decimal d e)"
    by (auto simp: Fin s split: if_splits)
  then show ?thesis
    using decimal_chars [of c d e] digit_not [of c] by cases (auto simp: newline_def)
qed (auto simp: newline_def)

lemma newline_dec: "newline \<notin> set (dec n)"
  using all_digits_dec [of n] digit_not [of newline] by (auto simp: all_digits_def list_all_iff)

lemma int_chars: "newline \<notin> set (int_to_string i)"
  by (simp add: int_to_string_def newline_dec) (simp add: newline_def)

definition sample_ok :: "sample \<Rightarrow> bool" where
  "sample_ok s = (case s of (name, pairs, v, t) \<Rightarrow>
     is_valid_metric_name name \<and> (\<forall>l \<in> set pairs. is_valid_label_name (fst l)) \<and> representable v)"

lemma valid_chars:
  "is_valid_metric_name name \<Longrightarrow> c \<in> set name \<Longrightarrow>
     c \<noteq> CHR ''{'' \<and> c \<noteq> CHR '' '' \<and> c \<noteq> newline \<and> c \<noteq> CHR ''='' \<and> c \<noteq> CHR ''#''"
  by (auto simp: is_valid_metric_name_def is_valid_ident_def list_all_iff is_digit10_def newline_def
      matches_charset_with_colon_def matches_charset_without_colon_def is_ascii_alphabetic_def Let_def
      split: list.splits)

lemma label_metric_name: "is_valid_label_name name \<Longrightarrow> is_valid_metric_name name"
  by (auto simp: is_valid_metric_name_def is_valid_label_name_def is_valid_ident_def list_all_iff
      matches_charset_with_colon_def split: list.splits)

definition stamp_text :: "int \<Rightarrow> string" where
  "stamp_text t = (if t \<noteq> 0 then '' '' @ int_to_string t else []) @ [newline]"

lemma read_value_text:
  "read_value (f64_to_string v @ stamp_text t @ rest) = (read_f64 (f64_to_string v), t, rest)"
proof -
  have tw: "takeWhile (\<lambda>c. c \<noteq> CHR '' '' \<and> c \<noteq> newline) (f64_to_string v @ d # z) = f64_to_string v"
    if "d = CHR '' '' \<or> d = newline" for d z
    using f64_chars that by (intro takeWhile_stop) auto
  show ?thesis
  proof (cases "t = 0")
    case True
    then show ?thesis by (simp add: stamp_text_def read_value_def tw Let_def) (simp add: newline_def)
  next
    case False
    then show ?thesis
      by (simp add: stamp_text_def read_value_def tw Let_def read_line_end_text [OF int_chars])
  qed
qed

lemma read_sample_text:
  assumes "sample_ok s"
  shows "read_sample (sample_text s @ rest) = Some (s, rest)"
proof -
  obtain name pairs v t where s: "s = (name, pairs, v, t)" by (cases s)
  from assms have name: "\<And>c. c \<in> set name \<Longrightarrow> c \<noteq> CHR ''{'' \<and> c \<noteq> CHR '' ''"
    and labels: "\<And>l. l \<in> set pairs \<Longrightarrow> CHR ''='' \<notin> set (fst l)"
    and v: "read_f64 (f64_to_string v) = v"
    by (auto simp: sample_ok_def s read_f64_to_string dest!: valid_chars label_metric_name)
  let ?tail = "f64_to_string v @ stamp_text t @ rest"
  show ?thesis
  proof (cases pairs)
    case Nil
    have x: "sample_text s @ rest = name @ CHR '' '' # ?tail"
      by (simp add: s Nil stamp_text_def)
    have "takeWhile (\<lambda>c. c \<noteq> CHR ''{'' \<and> c \<noteq> CHR '' '') (name @ CHR '' '' # ?tail) = name"
      using name by (intro takeWhile_stop) auto
    then show ?thesis
      unfolding x by (simp add: read_sample_def Let_def read_labels_def read_value_text s Nil v)
  next
    case (Cons l ls)
    let ?ps = "drop 1 (pairs_text ''{'' pairs)"
    have "pairs_text ''{'' pairs = CHR ''{'' # ?ps" by (cases l) (simp add: Cons)
    then have x: "sample_text s @ rest = name @ CHR ''{'' # ?ps @ CHR ''}'' # CHR '' '' # ?tail"
      by (simp add: s Cons stamp_text_def del: pairs_text.simps)
    have tw: "takeWhile (\<lambda>c. c \<noteq> CHR ''{'' \<and> c \<noteq> CHR '' '') (name @ CHR ''{'' # z) = name" for z
      using name by (intro takeWhile_stop) auto
    let ?s = "?ps @ CHR ''}'' # CHR '' '' # ?tail"
    have rp: "read_pairs (length ?s) ?s = Some (pairs, CHR '' '' # ?tail)"
    proof (rule read_pairs_text)
      show "length pairs \<le> length ?s"
        using length_pairs_text [of pairs "''{''"]
        by (simp only: length_append length_drop list.size)
    qed (use labels Cons in auto)
    show ?thesis
      unfolding x using rp by (simp add: read_sample_def tw Let_def read_labels_def read_value_text s v)
  qed
qed

fun line_ok :: "line \<Rightarrow> bool" where
  "line_ok (Header t) \<longleftrightarrow> newline \<notin> set t"
| "line_ok (Sample s) \<longleftrightarrow> sample_ok s"

fun line_samples :: "line \<Rightarrow> sample list" where
  "line_samples (Header t) = []"
| "line_samples (Sample s) = [s]"

lemma read_document_lines:
  "list_all line_ok ls \<Longrightarrow> length ls \<le> n \<Longrightarrow>
     read_document n (concat (map line_text ls)) = Some (concat (map line_samples ls))"
proof (induction ls arbitrary: n)
  case (Cons l ls)
  then obtain k where n: "n = Suc k" by (cases n) auto
  let ?rest = "concat (map line_text ls)"
  have ih: "read_document k ?rest = Some (concat (map line_samples ls))"
    using Cons n by simp
  show ?case
  proof (cases l)
    case (Header t)
    then show ?thesis using Cons(2) ih by (simp add: n read_line_end_text)
  next
    case (Sample s)
    with Cons(2) have ok: "sample_ok s" by simp
    obtain name pairs v t where s: "s = (name, pairs, v, t)" by (cases s)
    with ok obtain c z where nm: "name = c # z" "c \<noteq> CHR ''#''"
      using valid_chars [of name] by (cases name) (auto simp: sample_ok_def is_valid_metric_name_def is_valid_ident_def)
    obtain y where y: "sample_text s @ ?rest = c # y" by (simp add: s nm)
    have "read_document n (sample_text s @ ?rest) = map_option (Cons s) (read_document k ?rest)"
      using read_sample_text [OF ok, of ?rest] nm(2) unfolding y n by simp
    with ih show ?thesis by (simp add: Sample del: sample_text.simps)
  qed
qed simp

lemma length_document: "length ls \<le> length (concat (map line_text ls))"
proof (induction ls)
  case (Cons l ls)
  have "line_text l \<noteq> []" by (cases l rule: line_text.cases) auto
  with Cons show ?case by (cases "line_text l") auto
qed simp

definition printable :: "MetricFamily \<Rightarrow> bool" where
  "printable mf \<longleftrightarrow> well_formed mf \<and> is_valid_metric_name (mf_name mf) \<and>
     (\<forall>m \<in> set (mf_metric mf).
        (\<forall>lp \<in> set (m_label m). is_valid_label_name (lp_name lp)) \<and>
        representable (counter_value (m_counter m)) \<and> representable (gauge_value (m_gauge m)) \<and>
        representable (ph_sample_sum (m_histogram m)) \<and> representable (sm_sample_sum (m_summary m)) \<and>
        (\<forall>q \<in> set (sm_quantile (m_summary m)). representable (q_value q)))"

lemma valid_name_append:
  "is_valid_metric_name name \<Longrightarrow> list_all matches_charset_with_colon s \<Longrightarrow> is_valid_metric_name (name @ s)"
  by (auto simp: is_valid_metric_name_def is_valid_ident_def list_all_iff split: list.splits)

lemma valid_suffix [simp]:
  assumes "is_valid_metric_name name"
  shows "is_valid_metric_name (name @ ''_bucket'')" "is_valid_metric_name (name @ ''_sum'')"
    "is_valid_metric_name (name @ ''_count'')"
  by (rule valid_name_append [OF assms],
      simp add: matches_charset_with_colon_def matches_charset_without_colon_def is_ascii_alphabetic_def)+

lemma valid_labels [simp]: "is_valid_label_name ''le''" "is_valid_label_name ''quantile''"
  by (simp_all add: matches_charset_without_colon_def is_ascii_alphabetic_def is_valid_label_name_def
      is_valid_ident_def)

lemma representable_rnd [simp]: "representable (rnd q)"
  by (auto simp: representable_def dest: rnd_idem split: f64.split)

lemma representable_u64 [simp]: "representable (u64_as_f64 n)"
  by (simp add: u64_as_f64_def f64_of_nat_def)

lemma printable_samples:
  assumes "printable mf" and "s \<in> set (family_samples mf)"
  shows "sample_ok s"
proof -
  from assms(2) obtain m where m: "m \<in> set (mf_metric mf)"
    "s \<in> set (metric_samples (mf_name mf) (mf_field_type mf) m)" by (auto simp: family_samples_def)
  with assms(1) have labels: "\<forall>l \<in> set (labels_of m). is_valid_label_name (fst l)"
    and "is_valid_metric_name (mf_name mf)"
    and "representable (counter_value (m_counter m))" "representable (gauge_value (m_gauge m))"
    "representable (ph_sample_sum (m_histogram m))" "representable (sm_sample_sum (m_summary m))"
    "\<forall>q \<in> set (sm_quantile (m_summary m)). representable (q_value q)"
    by (auto simp: printable_def labels_of_def)
  with m(2) show ?thesis
    by (cases "mf_field_type mf") (auto simp: metric_samples_def Let_def sample_ok_def split: if_splits)
qed

lemma escape_no_newline': "newline \<notin> set (name @ '' '' @ escape_string v b)" if "newline \<notin> set name"
  using that escape_no_newline [of v b] by (auto simp: newline_def)

lemma printable_lines:
  assumes "printable mf"
  shows "list_all line_ok (family_lines mf)"
proof -
  have n: "newline \<notin> set (mf_name mf)"
    using assms valid_chars [of "mf_name mf" newline] by (auto simp: printable_def)
  have t: "newline \<notin> set (lowercase_type ty)" for ty by (cases ty) (simp_all add: newline_def)
  have lit: "newline \<notin> set '' HELP ''" "newline \<notin> set '' TYPE ''" "newline \<notin> set '' ''"
    by (simp_all add: newline_def)
  show ?thesis
    using n t lit escape_no_newline printable_samples [OF assms]
    by (auto simp: family_lines_def list_all_iff)
qed

text \<open>The encoder of well-formed families succeeds, and what it writes reads back as the samples.\<close>

lemma encode_reads_back:
  assumes "\<And>mf. mf \<in> set mfs \<Longrightarrow> printable mf"
  shows "\<exists>buf. encode_to_string dbg mfs = (Done, buf) \<and>
    read_document (length buf) buf = Some (concat (map family_samples mfs))"
proof -
  let ?lines = "concat (map family_lines mfs)"
  let ?buf = "concat (map line_text ?lines)"
  have "writes (encode_impl dbg StringBuf_write_all mfs)
      (concat (map (\<lambda>mf. concat (map line_text (family_lines mf))) mfs))"
    unfolding encode_impl_def using assms
    by (intro writes_map writes_family) (simp add: printable_def)
  moreover have "concat (map (\<lambda>mf. concat (map line_text (family_lines mf))) mfs) = ?buf"
    by (induction mfs) simp_all
  ultimately have e: "encode_to_string dbg mfs = (Done, ?buf)"
    by (simp add: writes_def encode_to_string_def)
  have "list_all line_ok ?lines"
    using printable_lines assms by (auto simp: list_all_iff)
  then have "read_document (length ?buf) ?buf = Some (concat (map line_samples ?lines))"
    by (rule read_document_lines) (rule length_document)
  moreover have "concat (map line_samples (family_lines mf)) = family_samples mf" for mf
    by (simp add: family_lines_def comp_def)
  then have "concat (map line_samples ?lines) = concat (map family_samples mfs)"
    by (induction mfs) simp_all
  ultimately show ?thesis using e by auto
qed

end
