(* ===== verification/Metric_Process.thy ===== *)
theory Metric_Process
  imports Metric_Value Metric_Registry F64_Round
begin

text \<open>
  The collector of process metrics (\<open>src/prometheus/src/process_collector.rs\<close>, feature
  \<open>process\<close>) and its registration in the default registry (\<open>registry.rs\<close>). The crate procfs and
  \<open>sysconf\<close> are parameters: what they read is an argument of each collection. A failed \<open>unwrap\<close>
  is \<open>None\<close>. One collection is one step; concurrent ones would also take the counter's lock in
  turn.
\<close>

section \<open>State\<close>

type_synonym counter = "AtomicF64 ValueM"
type_synonym process_gauge = "AtomicF64 ValueM"

record ProcessCollector =
  pc_pid :: "32 word"
  pc_descs :: "Desc list"
  pc_cpu_total :: counter
  pc_open_fds :: process_gauge
  pc_max_fds :: process_gauge
  pc_vsize :: process_gauge
  pc_rss :: process_gauge
  pc_start_time :: process_gauge
  pc_threads :: process_gauge

text \<open>\<open>procfs\<close>'s view of a process; \<open>None\<close> where a call fails.\<close>

datatype limit_value = Unlimited | LimitValue u64

record process =
  pr_fd_count :: "usize option"
  pr_max_open_files :: "limit_value option"
  pr_vsize :: u64
  pr_rss :: i64
  pr_starttime :: u64
  pr_utime :: u64
  pr_stime :: u64
  pr_num_threads :: i64

record system =
  sy_clk_tck :: f64
  sy_pagesize :: f64
  sy_boot_time :: "f64 option"

section \<open>Construction\<close>

definition unwrap :: "'a PromResult \<Rightarrow> 'a option" where
  "unwrap r = (case r of Inl _ \<Rightarrow> None | Inr x \<Rightarrow> Some x)"

definition process_opts :: "string \<Rightarrow> string \<Rightarrow> string \<Rightarrow> Opts" where
  "process_opts namespace name doc = Opts_namespace namespace (Opts_new name doc)"

definition process_gauge_of :: "(bytes \<Rightarrow> u64) \<Rightarrow> string \<Rightarrow> string \<Rightarrow> string \<Rightarrow> process_gauge option" where
  "process_gauge_of fnv namespace name doc =
     unwrap (GenericGauge_with_opts fnv number_f64 atomic_f64 (process_opts namespace name doc))"

definition ProcessCollector_new ::
  "(bytes \<Rightarrow> u64) \<Rightarrow> 32 word \<Rightarrow> string \<Rightarrow> ProcessCollector option" where
  "ProcessCollector_new fnv pid namespace =
     Option.bind (unwrap (GenericCounter_with_opts fnv number_f64 atomic_f64
       (process_opts namespace ''process_cpu_seconds_total'' ''Total user and system CPU time spent in seconds.''))) (\<lambda>cpu_total.
     Option.bind (process_gauge_of fnv namespace ''process_open_fds'' ''Number of open file descriptors.'') (\<lambda>open_fds.
     Option.bind (process_gauge_of fnv namespace ''process_max_fds'' ''Maximum number of open file descriptors.'') (\<lambda>max_fds.
     Option.bind (process_gauge_of fnv namespace ''process_virtual_memory_bytes'' ''Virtual memory size in bytes.'') (\<lambda>vsize.
     Option.bind (process_gauge_of fnv namespace ''process_resident_memory_bytes'' ''Resident memory size in bytes.'') (\<lambda>rss.
     Option.bind (process_gauge_of fnv namespace ''process_start_time_seconds''
       ''Start time of the process since unix epoch in seconds.'') (\<lambda>start_time.
     Option.bind (process_gauge_of fnv namespace ''process_threads'' ''Number of OS threads in the process.'') (\<lambda>threads.
     Some \<lparr>pc_pid = pid,
           pc_descs = concat (map Value_describe [cpu_total, open_fds, max_fds, vsize, rss, start_time, threads]),
           pc_cpu_total = cpu_total, pc_open_fds = open_fds, pc_max_fds = max_fds, pc_vsize = vsize,
           pc_rss = rss, pc_start_time = start_time, pc_threads = threads\<rparr>)))))))"

definition ProcessCollector_for_self :: "(bytes \<Rightarrow> u64) \<Rightarrow> 32 word \<Rightarrow> ProcessCollector option" where
  "ProcessCollector_for_self fnv getpid = ProcessCollector_new fnv getpid []"

section \<open>Collection\<close>

definition ProcessCollector_desc :: "ProcessCollector \<Rightarrow> Desc list" where
  "ProcessCollector_desc pc = pc_descs pc"

definition gauge_to :: "f64 \<Rightarrow> process_gauge \<Rightarrow> process_gauge" where
  "gauge_to v g = GenericGauge_set atomic_f64 v g"

text \<open>The block that holds the lock of \<open>cpu_total\<close>.\<close>

definition collect_cpu :: "system \<Rightarrow> process \<Rightarrow> counter \<Rightarrow> counter" where
  "collect_cpu sys p cpu_total =
     (let total = f64_div (f64_of_nat (unat (pr_utime p + pr_stime p))) (sy_clk_tck sys);
          past = GenericCounter_get atomic_f64 cpu_total;
          delta = f64_add total (f64_neg past)
      in if f64_lt (Fin 0) delta then GenericCounter_inc_by atomic_f64 delta cpu_total else cpu_total)"

definition ProcessCollector_collect ::
  "system \<Rightarrow> process option \<Rightarrow> ProcessCollector \<Rightarrow> MetricFamily list \<times> ProcessCollector" where
  "ProcessCollector_collect sys process pc =
     (case process of
        None \<Rightarrow> ([], pc)
      | Some p \<Rightarrow>
          let pc = (case pr_fd_count p of
                      Some fd_count \<Rightarrow> pc\<lparr>pc_open_fds := gauge_to (f64_of_nat (unat fd_count)) (pc_open_fds pc)\<rparr>
                    | None \<Rightarrow> pc);
              pc = (case pr_max_open_files p of
                      Some (LimitValue limit) \<Rightarrow> pc\<lparr>pc_max_fds := gauge_to (f64_of_nat (unat limit)) (pc_max_fds pc)\<rparr>
                    | _ \<Rightarrow> pc);
              pc = pc\<lparr>pc_vsize := gauge_to (f64_of_nat (unat (pr_vsize p))) (pc_vsize pc)\<rparr>;
              pc = pc\<lparr>pc_rss := gauge_to (f64_mul (f64_of_int (sint (pr_rss p))) (sy_pagesize sys)) (pc_rss pc)\<rparr>;
              pc = (case sy_boot_time sys of
                      Some boot_time \<Rightarrow>
                        pc\<lparr>pc_start_time := gauge_to
                            (f64_add (f64_div (f64_of_nat (unat (pr_starttime p))) (sy_clk_tck sys)) boot_time)
                            (pc_start_time pc)\<rparr>
                    | None \<Rightarrow> pc);
              pc = pc\<lparr>pc_cpu_total := collect_cpu sys p (pc_cpu_total pc)\<rparr>;
              pc = pc\<lparr>pc_threads := gauge_to (f64_of_int (sint (pr_num_threads p))) (pc_threads pc)\<rparr>;
              mfs = concat (map (Value_collector number_f64 atomic_f64)
                      [pc_cpu_total pc, pc_open_fds pc, pc_max_fds pc, pc_vsize pc, pc_rss pc, pc_start_time pc,
                       pc_threads pc])
          in (mfs, pc))"

section \<open>The default registry\<close>

text \<open>
  \<open>register_default_process_collector\<close> with and without the feature, and the initialisation of
  the default registry. \<open>inject\<close> boxes the collector.
\<close>

definition register_default_process_collector ::
  "bool \<Rightarrow> (bytes \<Rightarrow> u64) \<Rightarrow> 'c collector_ops \<Rightarrow> (Desc \<Rightarrow> string) \<times> (string \<Rightarrow> string) \<Rightarrow> (ProcessCollector \<Rightarrow> 'c)
    \<Rightarrow> 32 word \<Rightarrow> 'c RegistryCore \<Rightarrow> (unit PromResult \<times> 'c RegistryCore) option" where
  "register_default_process_collector process_feature fnv ops dbg inject getpid reg =
     (if process_feature
      then Option.bind (ProcessCollector_for_self fnv getpid) (\<lambda>pc. Some (registry_register ops dbg (inject pc) reg))
      else Some (Inr (), reg))"

definition DEFAULT_REGISTRY ::
  "bool \<Rightarrow> (bytes \<Rightarrow> u64) \<Rightarrow> 'c collector_ops \<Rightarrow> (Desc \<Rightarrow> string) \<times> (string \<Rightarrow> string) \<Rightarrow> (ProcessCollector \<Rightarrow> 'c)
    \<Rightarrow> 32 word \<Rightarrow> 'c RegistryCore option" where
  "DEFAULT_REGISTRY process_feature fnv ops dbg inject getpid =
     Option.bind (register_default_process_collector process_feature fnv ops dbg inject getpid Registry_default) (\<lambda>(res, reg).
     case res of Inl _ \<Rightarrow> None | Inr _ \<Rightarrow> Some reg)"

section \<open>The CPU counter\<close>

text \<open>What the counter holds: a floating-point number that is neither NaN nor negative infinity.\<close>

definition cpu_ok :: "counter \<Rightarrow> bool" where
  "cpu_ok c \<longleftrightarrow> f64_exact (Value_get atomic_f64 c) \<and> f64_le (Fin 0) (Value_get atomic_f64 c)"

lemma f64_exact_neg: "f64_exact v \<Longrightarrow> f64_exact (f64_neg v)"
proof (cases v)
  case (Fin a)
  assume "f64_exact v"
  with Fin have "rnd a = Fin a" by (simp add: f64_exact_def)
  then have "rnd (- a) = Fin (- a)" by (auto simp: rnd_def split: if_splits)
  then show ?thesis by (simp add: Fin f64_exact_def)
qed (simp_all add: f64_exact_def)

lemma f64_exact_rnd: "f64_exact (rnd x)"
  by (auto simp: f64_exact_def dest: rnd_idem)

lemma f64_exact_div: "f64_exact (f64_div v w)"
  by (cases v; cases w) (auto simp: f64_exact_rnd f64_signed_inf_def, auto simp: f64_exact_def)

lemma collect_cpu_grows:
  assumes "cpu_ok c"
  shows "cpu_ok (collect_cpu sys p c) \<and> f64_le (Value_get atomic_f64 c) (Value_get atomic_f64 (collect_cpu sys p c))"
proof -
  let ?past = "Value_get atomic_f64 c"
  let ?total = "f64_div (f64_of_nat (unat (pr_utime p + pr_stime p))) (sy_clk_tck sys)"
  let ?d = "f64_add ?total (f64_neg ?past)"
  have past: "f64_exact ?past" "f64_le (Fin 0) ?past" using assms by (simp_all add: cpu_ok_def)
  then have num: "?past \<noteq> NaN" "?past \<noteq> NInf" by auto
  then have refl: "f64_le ?past ?past" by (cases ?past) auto
  show ?thesis
  proof (cases "f64_lt (Fin 0) ?d")
    case True
    have new: "Value_get atomic_f64 (collect_cpu sys p c) = f64_add ?past ?d"
      using True af64.Value_get_inc [of ?d c]
      by (simp add: collect_cpu_def GenericCounter_get_def GenericCounter_inc_by_def number_f64_def)
    have grows: "f64_le ?past (f64_add ?past ?d)" by (rule f64_add_increases [OF past(1) num True])
    have "f64_exact (f64_add ?past ?d)"
      by (intro f64_add_exact f64_exact_neg f64_exact_div past)
    moreover have "f64_le (Fin 0) (f64_add ?past ?d)"
      using past(2) grows by (cases ?past; cases "f64_add ?past ?d") auto
    ultimately show ?thesis using grows by (simp add: cpu_ok_def new)
  next
    case False
    then show ?thesis using assms refl by (simp add: collect_cpu_def GenericCounter_get_def)
  qed
qed

lemma collect_cpu_desc [simp]:
  "v_desc (collect_cpu sys p c) = v_desc c" "v_val_type (collect_cpu sys p c) = v_val_type c"
  by (simp_all add: collect_cpu_def Let_def GenericCounter_inc_by_def Value_inc_by_def)

section \<open>A collector that was constructed\<close>

definition process_names :: "string \<Rightarrow> string list" where
  "process_names namespace =
     map (build_fq_name namespace [])
       [''process_cpu_seconds_total'', ''process_open_fds'', ''process_max_fds'', ''process_virtual_memory_bytes'',
        ''process_resident_memory_bytes'', ''process_start_time_seconds'', ''process_threads'']"

definition process_values :: "ProcessCollector \<Rightarrow> AtomicF64 ValueM list" where
  "process_values pc =
     [pc_cpu_total pc, pc_open_fds pc, pc_max_fds pc, pc_vsize pc, pc_rss pc, pc_start_time pc, pc_threads pc]"

definition process_inv :: "string \<Rightarrow> ProcessCollector \<Rightarrow> bool" where
  "process_inv namespace pc \<longleftrightarrow>
     cpu_ok (pc_cpu_total pc) \<and>
     map (d_fq_name \<circ> v_desc) (process_values pc) = process_names namespace \<and>
     map v_val_type (process_values pc) = [VCounter, VGauge, VGauge, VGauge, VGauge, VGauge, VGauge] \<and>
     pc_descs pc = map v_desc (process_values pc)"

lemma unwrap_Some: "unwrap r = Some x \<longleftrightarrow> r = Inr x"
  by (cases r) (simp_all add: unwrap_def)

lemma process_gauge_of_Some:
  "process_gauge_of fnv namespace name doc = Some g \<Longrightarrow>
     d_fq_name (v_desc g) = build_fq_name namespace [] name \<and> v_val_type g = VGauge"
  by (auto simp: process_gauge_of_def unwrap_Some GenericGauge_with_opts_def
      GenericGauge_with_opts_and_label_values_def process_opts_def Opts_describe_def Opts_fq_name_def
      Opts_namespace_def Opts_new_def dest!: Value_new_Inr Desc_new_fields(1))

lemma process_counter_Inr:
  "GenericCounter_with_opts fnv number_f64 atomic_f64 (process_opts namespace name doc) = Inr c \<Longrightarrow>
     d_fq_name (v_desc c) = build_fq_name namespace [] name \<and> v_val_type c = VCounter \<and> cpu_ok c"
  by (auto simp: GenericCounter_with_opts_def GenericCounter_with_opts_and_label_values_def process_opts_def
      Opts_describe_def Opts_fq_name_def Opts_namespace_def Opts_new_def cpu_ok_def Value_get_def
      number_f64_def atomic_f64_def f64_of_int_def f64_exact_def dest!: Value_new_Inr Desc_new_fields(1))

lemma ProcessCollector_new_inv:
  "ProcessCollector_new fnv pid namespace = Some pc \<Longrightarrow> process_inv namespace pc"
  by (auto simp: ProcessCollector_new_def unwrap_Some bind_eq_Some_conv process_inv_def process_values_def
      process_names_def Value_describe_def dest!: process_counter_Inr process_gauge_of_Some)

lemma gauge_to_desc [simp]: "v_desc (gauge_to v g) = v_desc g" "v_val_type (gauge_to v g) = v_val_type g"
  by (simp_all add: gauge_to_def GenericGauge_set_def Value_set_def)

lemma gauge_to_get [simp]: "Value_get atomic_f64 (gauge_to v g) = v"
  by (simp add: gauge_to_def GenericGauge_set_def af64.Value_get_set)

lemma ProcessCollector_collect_inv:
  assumes "process_inv namespace pc" and "ProcessCollector_collect sys process pc = (mfs, pc')"
  shows "process_inv namespace pc' \<and>
    f64_le (Value_get atomic_f64 (pc_cpu_total pc)) (Value_get atomic_f64 (pc_cpu_total pc')) \<and>
    (if process = None then mfs = [] \<and> pc' = pc
     else map mf_name mfs = process_names namespace \<and>
       mfs = map (Value_collect number_f64 atomic_f64) (process_values pc'))"
proof (cases process)
  case None
  have "f64_le v v" if "f64_le (Fin 0) v" for v using that by (cases v) auto
  with None assms show ?thesis by (auto simp: ProcessCollector_collect_def process_inv_def cpu_ok_def)
next
  case (Some p)
  from assms(2) have pc': "map v_desc (process_values pc') = map v_desc (process_values pc)"
    and types: "map v_val_type (process_values pc') = map v_val_type (process_values pc)"
    and descs: "pc_descs pc' = pc_descs pc"
    and cpu: "pc_cpu_total pc' = collect_cpu sys p (pc_cpu_total pc)"
    and mfs: "mfs = map (Value_collect number_f64 atomic_f64) (process_values pc')"
    by (auto simp: ProcessCollector_collect_def Some Let_def process_values_def Value_collector_def
        split: option.splits limit_value.splits)
  have names: "map (d_fq_name \<circ> v_desc) (process_values pc') = map (d_fq_name \<circ> v_desc) (process_values pc)"
    using arg_cong [OF pc', of "map d_fq_name"] by simp
  have "map mf_name mfs = map (d_fq_name \<circ> v_desc) (process_values pc')"
    by (simp add: mfs Value_collect_def)
  with names collect_cpu_grows [of "pc_cpu_total pc" sys p] assms(1) pc' types descs cpu mfs Some
  show ?thesis by (simp add: process_inv_def)
qed

text \<open>The samples of a collection: the counter's value, and what the gauges were set to.\<close>

definition counter_sample :: "MetricFamily \<Rightarrow> f64" where
  "counter_sample mf = counter_value (m_counter (hd (mf_metric mf)))"

definition gauge_sample :: "MetricFamily \<Rightarrow> f64" where
  "gauge_sample mf = gauge_value (m_gauge (hd (mf_metric mf)))"

lemma process_samples:
  assumes "process_inv namespace pc" and "ProcessCollector_collect sys (Some p) pc = (mfs, pc')"
  shows "length mfs = 7 \<and>
    map mf_field_type mfs = [COUNTER, GAUGE, GAUGE, GAUGE, GAUGE, GAUGE, GAUGE] \<and> (\<forall>mf \<in> set mfs. length (mf_metric mf) = 1) \<and>
    counter_sample (mfs ! 0) = Value_get atomic_f64 (pc_cpu_total pc') \<and>
    (\<forall>n. pr_fd_count p = Some n \<longrightarrow> gauge_sample (mfs ! 1) = f64_of_nat (unat n)) \<and>
    (\<forall>n. pr_max_open_files p = Some (LimitValue n) \<longrightarrow> gauge_sample (mfs ! 2) = f64_of_nat (unat n)) \<and>
    gauge_sample (mfs ! 3) = f64_of_nat (unat (pr_vsize p)) \<and>
    gauge_sample (mfs ! 4) = f64_mul (f64_of_int (sint (pr_rss p))) (sy_pagesize sys) \<and>
    gauge_sample (mfs ! 6) = f64_of_int (sint (pr_num_threads p))"
proof -
  from ProcessCollector_collect_inv [OF assms]
  have mfs: "mfs = map (Value_collect number_f64 atomic_f64) (process_values pc')"
    and types: "map v_val_type (process_values pc') = [VCounter, VGauge, VGauge, VGauge, VGauge, VGauge, VGauge]"
    by (simp_all add: process_inv_def)
  have gauge: "gauge_sample (Value_collect number_f64 atomic_f64 v) = Value_get atomic_f64 v"
    if "v_val_type v = VGauge" for v
    using that by (simp add: gauge_sample_def Value_collect_def Value_metric_def number_f64_def)
  have counter: "counter_sample (Value_collect number_f64 atomic_f64 v) = Value_get atomic_f64 v"
    if "v_val_type v = VCounter" for v
    using that by (simp add: counter_sample_def Value_collect_def Value_metric_def number_f64_def)
  have single: "mf_field_type (Value_collect number_f64 atomic_f64 v) = ValueType_metric_type (v_val_type v)"
    "length (mf_metric (Value_collect number_f64 atomic_f64 v)) = 1" for v :: "AtomicF64 ValueM"
    by (simp_all add: Value_collect_def)
  have set: "(\<forall>n. pr_fd_count p = Some n \<longrightarrow> Value_get atomic_f64 (pc_open_fds pc') = f64_of_nat (unat n)) \<and>
      (\<forall>n. pr_max_open_files p = Some (LimitValue n) \<longrightarrow> Value_get atomic_f64 (pc_max_fds pc') = f64_of_nat (unat n)) \<and>
      Value_get atomic_f64 (pc_vsize pc') = f64_of_nat (unat (pr_vsize p)) \<and>
      Value_get atomic_f64 (pc_rss pc') = f64_mul (f64_of_int (sint (pr_rss p))) (sy_pagesize sys) \<and>
      Value_get atomic_f64 (pc_threads pc') = f64_of_int (sint (pr_num_threads p))"
    using assms(2) by (auto simp: ProcessCollector_collect_def Let_def split: option.splits limit_value.splits)
  have "map ValueType_metric_type (map v_val_type (process_values pc')) = [COUNTER, GAUGE, GAUGE, GAUGE, GAUGE, GAUGE, GAUGE]"
    unfolding types by simp
  with set types show ?thesis
    by (simp add: mfs process_values_def counter single numeral_eq_Suc)
       (simp add: gauge)
qed

text \<open>A series of collections.\<close>

fun collections :: "(system \<times> process option) list \<Rightarrow> ProcessCollector \<Rightarrow> ProcessCollector" where
  "collections [] pc = pc"
| "collections ((sys, p) # readings) pc = collections readings (snd (ProcessCollector_collect sys p pc))"

lemma collections_inv:
  assumes "process_inv namespace pc"
  shows "process_inv namespace (collections readings pc) \<and>
    f64_le (Value_get atomic_f64 (pc_cpu_total pc)) (Value_get atomic_f64 (pc_cpu_total (collections readings pc)))"
  using assms
proof (induction readings pc rule: collections.induct)
  case (1 pc)
  have "f64_le v v" if "f64_le (Fin 0) v" for v using that by (cases v) auto
  with 1 show ?case by (auto simp: process_inv_def cpu_ok_def)
next
  case (2 sys p readings pc)
  obtain mfs pc1 where c: "ProcessCollector_collect sys p pc = (mfs, pc1)" by fastforce
  from ProcessCollector_collect_inv [OF "2.prems" c] 2 c show ?case by (auto intro: f64_le_trans)
qed

text \<open>The collector of the own process is always made: its names are valid metric names.\<close>

lemma process_value_new:
  "is_valid_metric_name (build_fq_name namespace [] name) \<Longrightarrow> doc \<noteq> [] \<Longrightarrow>
     \<exists>v. Value_new ops (Opts_describe fnv (process_opts namespace name doc)) t x [] = Inr v"
  by (simp add: Value_new_def Opts_describe_def Opts_fq_name_def process_opts_def Opts_namespace_def Opts_new_def
      Desc_new_def make_label_pairs_def)

lemma ProcessCollector_new_Some:
  assumes "\<forall>n \<in> set (process_names namespace). is_valid_metric_name n"
  shows "\<exists>pc. ProcessCollector_new fnv pid namespace = Some pc"
proof -
  have gauge: "process_gauge_of fnv namespace name doc \<noteq> None"
    if "build_fq_name namespace [] name \<in> set (process_names namespace)" "doc \<noteq> []" for name doc
    using process_value_new [of namespace name doc atomic_f64 fnv VGauge "nm_from_i64 number_f64 0"] that assms
    by (auto simp: process_gauge_of_def unwrap_def GenericGauge_with_opts_def
        GenericGauge_with_opts_and_label_values_def)
  have counter: "unwrap (GenericCounter_with_opts fnv number_f64 atomic_f64 (process_opts namespace name doc)) \<noteq> None"
    if "build_fq_name namespace [] name \<in> set (process_names namespace)" "doc \<noteq> []" for name doc
    using process_value_new [of namespace name doc atomic_f64 fnv VCounter "nm_from_i64 number_f64 0"] that assms
    by (auto simp: unwrap_def GenericCounter_with_opts_def GenericCounter_with_opts_and_label_values_def)
  have "ProcessCollector_new fnv pid namespace \<noteq> None"
    unfolding ProcessCollector_new_def
    using gauge counter by (simp add: bind_eq_None_conv process_names_def)
  then show ?thesis by simp
qed

lemma ProcessCollector_for_self_Some: "\<exists>pc. ProcessCollector_for_self fnv pid = Some pc"
  unfolding ProcessCollector_for_self_def
  by (rule ProcessCollector_new_Some)
    (simp add: process_names_def build_fq_name_def is_valid_metric_name_def is_valid_ident_def
      matches_charset_with_colon_def matches_charset_without_colon_def is_ascii_alphabetic_def)

end
