(* ===== verification/Metric_Props.thy ===== *)
theory Metric_Props
  imports Metric_Histogram_Local Metric_Desc_Spec Metric_LocalVec Metric_Timer Metric_Push Metric_Gather Metric_Text_Spec
    Metric_Process
begin

text \<open>
  The properties of the metrics library: histograms, descriptors and vectors of metrics, the
  registry, the text format, and the clock of the local metrics.
\<close>

section \<open>Histograms\<close>

text \<open>
  C13. A collect reports exactly the operations that were started before it flipped the shards,
  whatever observations and flushes of local histograms run in between: the number of their
  values, a sum of them (the order of the additions depends on the interleaving), and for each
  bucket the number of values not above its bound. As long as fewer than \<open>2 ^ 63\<close> values have
  been observed, and no bound is not a number.
\<close>

theorem histogram_snapshot:
  assumes "HistogramCore_new fnv shown opts vals = Inr core" and "NaN \<notin> set (hc_upper_bounds core)"
    and "hist_reach core s" and "csum (log_of (hs_started s)) < 2 ^ 63" and "hs_phase s = Unlocking h"
    and "list_all2 (stands_for (hc_upper_bounds core)) vss (take (hs_flip_at s) (hs_started s))"
  shows "reports (hc_upper_bounds core) (concat vss) h"
proof -
  let ?b = "hc_upper_bounds core"
  from HistogramCore_new_fresh [OF assms(1)]
  have fresh: "hist_fresh ?b core" and chk: "check_and_adjust_buckets shown (ho_buckets opts) = Inr ?b"
    by auto
  have "bounds_ok ?b" by (rule adjusted_bounds_ok [OF chk assms(2)])
  moreover have "snapshot ?b (old_log s) h"
    using hist_inv_reach [OF assms(3) fresh] assms(4,5) by (auto simp: hist_inv_def phase_inv_def)
  ultimately show ?thesis
    using snapshot_reports op_totals_all [OF assms(6)] unfolding old_log_def by blast
qed

theorem histogram_snapshot_witness:
  "\<exists>s h. hist_reach one_bucket s \<and> hs_phase s = Unlocking h \<and> length (hs_started s) = 2 \<and>
     reports [Fin 1] [Fin (1 / 4), Fin 3] h"
proof -
  let ?vs = "[Fin (1 / 4), Fin 3]"
  have b: "hc_upper_bounds one_bucket = [Fin 1]" by (simp add: one_bucket_def)
  have "hist_fresh [Fin 1] one_bucket" by (simp add: hist_fresh_def one_bucket_def)
  from collect_reach [OF this, of ?vs] obtain s h where s: "hist_reach one_bucket s" "hs_phase s = Unlocking h"
    "hs_started s = map (observation [Fin 1]) ?vs"
    "take (hs_flip_at s) (hs_started s) = map (observation [Fin 1]) ?vs" by auto
  have "reports (hc_upper_bounds one_bucket) (concat [[Fin (1 / 4)], [Fin 3]]) h"
  proof (rule histogram_snapshot [OF one_bucket_new _ s(1) _ s(2)])
    show "NaN \<notin> set (hc_upper_bounds one_bucket)" by (simp add: b)
    show "csum (log_of (hs_started s)) < 2 ^ 63"
      unfolding s(3) observations_count by simp
    show "list_all2 (stands_for (hc_upper_bounds one_bucket)) [[Fin (1 / 4)], [Fin 3]]
        (take (hs_flip_at s) (hs_started s))"
      unfolding s(4) by (simp add: b stands_for.one_value)
  qed
  with s show ?thesis by (auto simp: b)
qed

text \<open>
  C14. A collect that holds the lock can always be completed: the accesses that observers have
  left on the cold shard, and after them at most \<open>2 n + 6\<close> of the collector's own, lead to its
  result. And while it waits no step of anybody gives it more to wait for.
\<close>

theorem histogram_collect_ends:
  assumes "HistogramCore_new fnv shown opts vals = Inr core"
    and "hist_reach core s" and "csum (log_of (hs_started s)) < 2 ^ 63" and "hs_phase s \<noteq> Idle"
  shows "(\<exists>n s' h. (hist_step ^^ n) s s' \<and> hs_phase s' = Unlocking h \<and>
       n \<le> size (pending First (hs_threads s)) + size (pending Second (hs_threads s)) +
         2 * length (hc_upper_bounds core) + 6) \<and>
    (\<forall>c n s'. hs_phase s = Waiting c n \<longrightarrow> hist_step s s' \<longrightarrow>
       hs_phase s' = Drained c n \<or> hs_phase s' = Waiting c n \<and> cold_todo c s' \<le> cold_todo c s)"
proof
  let ?b = "hc_upper_bounds core"
  from HistogramCore_new_fresh [OF assms(1)] have "hist_fresh ?b core" by simp
  from hist_inv_reach [OF assms(2) this] have inv: "hist_inv ?b s" .
  from collect_ends [OF inv assms(3,4)]
  show "\<exists>n s' h. (hist_step ^^ n) s s' \<and> hs_phase s' = Unlocking h \<and>
       n \<le> size (pending First (hs_threads s)) + size (pending Second (hs_threads s)) + 2 * length ?b + 6" .
  show "\<forall>c n s'. hs_phase s = Waiting c n \<longrightarrow> hist_step s s' \<longrightarrow>
       hs_phase s' = Drained c n \<or> hs_phase s' = Waiting c n \<and> cold_todo c s' \<le> cold_todo c s"
    using waiting_step [OF inv assms(3)] by blast
qed

theorem histogram_collect_ends_witness:
  "\<exists>n s' h. (hist_step ^^ n) ((hist_start one_bucket)\<lparr>hs_phase := Locked\<rparr>) s' \<and> hs_phase s' = Unlocking h \<and> n \<le> 8"
proof -
  let ?s = "(hist_start one_bucket)\<lparr>hs_phase := Locked\<rparr>"
  have s: "hs_threads ?s = []" "hs_started ?s = []" "hs_phase ?s \<noteq> Idle" "hc_upper_bounds one_bucket = [Fin 1]"
    by (simp_all add: hist_start_def one_bucket_def)
  have "hist_reach one_bucket ?s"
    by (rule hist_reach.more [OF hist_reach.start hist_step.lock]) (simp add: hist_start_def)
  from histogram_collect_ends [OF one_bucket_new this _ s(3)] show ?thesis
    by (simp add: s(1,2,4) pending_def)
qed

text \<open>
  C15. Observing values in a local histogram and flushing it leaves the shared histogram as
  observing them there one by one does, up to the rounding of the sum, and the local one as new.
\<close>

theorem local_flush_equivalent:
  assumes "sac_get (hc_shard_and_count core) = Some (x, c)" and "unat c + length vs < 2 ^ 63"
    and "unat (sh_count (hc_shards core x)) + length vs < 2 ^ 64"
    and "length (sh_buckets (hc_shards core x)) = length (hc_upper_bounds core)"
    and "l = fold (local_observe (hc_upper_bounds core)) vs (LocalHistogramCore_new core)"
  shows "\<exists>c1 c2. local_flush l core = Some (LocalHistogramCore_new core, c1) \<and>
    observe_list vs core = Some c2 \<and> hc_shard_and_count c1 = hc_shard_and_count c2 \<and>
    (\<forall>y. sh_count (hc_shards c1 y) = sh_count (hc_shards c2 y) \<and>
       sh_buckets (hc_shards c1 y) = sh_buckets (hc_shards c2 y)) \<and>
    (\<forall>c' \<in> {c1, c2}. f64_sum (add_mset (sh_sum (hc_shards core x)) (mset vs)) (sh_sum (hc_shards c' x)))"
proof (cases "vs = []")
  case True
  then show ?thesis
    by (simp add: assms(5) local_flush_def LocalHistogramCore_new_def f64_sum.one)
next
  case False
  let ?b = "hc_upper_bounds core"
  from sac_get_word [OF assms(1)] have "hc_shard_and_count core = sac_word x (unat c)" by simp
  from after_no_ops [OF assms(4) this] have start: "after_ops x (unat c) core {#} core" .
  have "local_rep ?b ([] @ vs) l" unfolding assms(5) by (rule local_rep_run [OF local_rep_new])
  then have rep: "local_rep ?b vs l" by simp
  have lvs: "length vs < 2 ^ 64" using assms(3) by linarith
  then have sf: "stands_for ?b vs (lh_count l, flush_actions l)"
    by (intro stands_for.flushed [OF rep]) (simp_all add: False)
  have cnt: "unat (lh_count l) = length vs" "lh_count l \<noteq> 0"
    using rep lvs False by (simp_all add: local_rep_def unat_of_nat word_unat_eq_iff)
  have "op_ok (length ?b) (lh_count l, flush_actions l)"
    using flush_ok [OF cnt(2)] rep by (simp add: local_rep_def)
  from after_op [OF start this] cnt assms(2,3) obtain found w where
    inc: "sac_inc_by (lh_count l) (hc_shard_and_count core) = (Some (x, found), w)" and
    a1: "after_ops x (unat c) core (mset (flush_actions l))
      (run_actions x (flush_actions l) (core\<lparr>hc_shard_and_count := w\<rparr>))" by auto
  from after_observe_list [OF start, of vs] assms(2,3) obtain c2 where c2: "observe_list vs core = Some c2"
    "after_ops x (unat c) core (log_of (map (observation ?b) vs)) c2" by auto
  have fl: "local_flush l core = Some (LocalHistogramCore_new core,
      run_actions x (flush_actions l) (core\<lparr>hc_shard_and_count := w\<rparr>))"
    using cnt(2) local_fold_cleared [OF rep refl] by (simp add: local_flush_def inc)
  have t1: "op_totals ?b vs (mset (flush_actions l))" using op_totals_one [OF sf] by simp
  note t2 = op_totals_observations [of ?b vs]
  have "csum (mset (flush_actions l)) = csum (log_of (map (observation ?b) vs))"
    "\<forall>j < length ?b. bsum (mset (flush_actions l)) j = bsum (log_of (map (observation ?b) vs)) j"
    using t1 t2 by (simp_all add: op_totals_def)
  from after_same [OF a1 c2(2) this] after_sum [OF a1 t1] after_sum [OF c2(2) t2] fl c2(1)
  show ?thesis by auto
qed

theorem local_flush_equivalent_witness:
  "\<exists>c1 c2. local_flush (local_observe [Fin 1] PInf (local_observe [Fin 1] (Fin 0) (LocalHistogramCore_new one_bucket)))
     one_bucket = Some (LocalHistogramCore_new one_bucket, c1) \<and>
     observe_list [Fin 0, PInf] one_bucket = Some c2 \<and>
     sh_buckets (hc_shards c1 First) = sh_buckets (hc_shards c2 First)"
  using local_flush_equivalent [of one_bucket First 0 "[Fin 0, PInf]"]
  by (auto simp: one_bucket_def sac_get_def split_shard_index_and_count_def ShardIndex_from_def Shard_new_def)

section \<open>Descriptors\<close>

text \<open>
  C39. \<open>Desc::new\<close> gives valid names, without duplicates, whatever order the map of constant
  labels iterates in. And as far as the hash function does not collide on the two inputs, two
  descriptors have the same identifier exactly if name and values of the constant labels are
  the same, and the same dimension hash exactly if help and label names are the same.
\<close>

theorem descriptor_identity:
  assumes "Desc_new fnv n h vs cl = Inr d" and "Desc_new fnv n' h' vs' cl' = Inr d'"
    and "list_all utf8_like (h # n # vs @ map fst cl @ map snd cl)"
    and "list_all utf8_like (h' # n' # vs' @ map fst cl' @ map snd cl')"
    and "fnv (hash_input (desc_key n cl)) = fnv (hash_input (desc_key n' cl')) \<Longrightarrow>
      hash_input (desc_key n cl) = hash_input (desc_key n' cl')"
    and "fnv (hash_input (desc_dims h vs cl)) = fnv (hash_input (desc_dims h' vs' cl')) \<Longrightarrow>
      hash_input (desc_dims h vs cl) = hash_input (desc_dims h' vs' cl')"
  shows "desc_ok (d_fq_name d) (d_help d) (d_variable_labels d)
      (map (\<lambda>l. (lp_name l, lp_value l)) (d_const_label_pairs d)) \<and>
    sorted_wrt label_cmp_le (d_const_label_pairs d) \<and>
    (mset cl = mset cl' \<and> n = n' \<and> h = h' \<and> vs = vs' \<longrightarrow> d = d') \<and>
    (d_id d = d_id d' \<longleftrightarrow> desc_key n cl = desc_key n' cl') \<and>
    (d_dim_hash d = d_dim_hash d' \<longleftrightarrow> h = h' \<and> set vs = set vs' \<and> fst ` set cl = fst ` set cl')"
proof (intro conjI)
  from assms(1) have ok: "desc_ok n h vs cl" and
    d: "d_fq_name d = n" "d_help d = h" "d_variable_labels d = vs"
      "d_const_label_pairs d = sort_labels (map (\<lambda>(key, value). \<lparr>lp_name = key, lp_value = value\<rparr>) cl)"
      "d_id d = fnv (hash_input (desc_key n cl))" "d_dim_hash d = fnv (hash_input (desc_dims h vs cl))"
    by (auto simp: Desc_new_Inr)
  from assms(2) have ok': "desc_ok n' h' vs' cl'" and
    d': "d_id d' = fnv (hash_input (desc_key n' cl'))" "d_dim_hash d' = fnv (hash_input (desc_dims h' vs' cl'))"
    by (auto simp: Desc_new_Inr)
  show "desc_ok (d_fq_name d) (d_help d) (d_variable_labels d)
      (map (\<lambda>l. (lp_name l, lp_value l)) (d_const_label_pairs d))"
    using ok unfolding d by (rule desc_ok_sorted)
  show "sorted_wrt label_cmp_le (d_const_label_pairs d)" unfolding d by (rule sorted_sort_labels)
  show "mset cl = mset cl' \<and> n = n' \<and> h = h' \<and> vs = vs' \<longrightarrow> d = d'"
    using Desc_new_order [OF _ assms(1)] assms(2) by auto
  show "d_id d = d_id d' \<longleftrightarrow> desc_key n cl = desc_key n' cl'"
    using assms(5) desc_key_utf8 [of n cl] desc_key_utf8 [of n' cl'] assms(3,4)
    by (auto simp: d d' intro: hash_input_inj)
  show "d_dim_hash d = d_dim_hash d' \<longleftrightarrow> h = h' \<and> set vs = set vs' \<and> fst ` set cl = fst ` set cl'"
    using assms(6) desc_dims_utf8 [of h vs cl]
      desc_dims_utf8 [of h' vs' cl'] assms(3,4) desc_dims_eq [OF ok ok']
    by (auto simp: d d' intro: hash_input_inj)
qed

theorem descriptor_identity_witness:
  "\<exists>d d'. Desc_new (\<lambda>bs. of_nat (length bs)) ''m'' ''h'' [''v''] [(''c'', ''x'')] = Inr d \<and>
     Desc_new (\<lambda>bs. of_nat (length bs)) ''m'' ''h'' [''w'', ''v''] [(''c'', ''x'')] = Inr d' \<and>
     d_id d = d_id d' \<and> d_dim_hash d \<noteq> d_dim_hash d'"
proof -
  let ?fnv = "\<lambda>bs :: bytes. of_nat (length bs) :: u64"
  have ok: "desc_ok ''m'' ''h'' [''v''] [(''c'', ''x'')]" "desc_ok ''m'' ''h'' [''w'', ''v''] [(''c'', ''x'')]"
    by (simp_all add: desc_ok_def is_valid_metric_name_def is_valid_label_name_def is_valid_ident_def
        matches_charset_with_colon_def matches_charset_without_colon_def is_ascii_alphabetic_def)
  obtain d d' where d: "Desc_new ?fnv ''m'' ''h'' [''v''] [(''c'', ''x'')] = Inr d"
    "Desc_new ?fnv ''m'' ''h'' [''w'', ''v''] [(''c'', ''x'')] = Inr d'"
    unfolding Desc_new_Inr using ok by blast
  have "d_id d = d_id d'" "d_dim_hash d \<noteq> d_dim_hash d'"
    using descriptor_identity [OF d]
    by (simp_all add: utf8_like_def hash_input_def desc_dims_def as_bytes_def)
  with d show ?thesis by blast
qed

section \<open>Vectors of metrics\<close>

text \<open>
  A vector tells its children apart by the concatenation of their label values only: a
  second list of label values with the same concatenation gets the child of the first one, and
  whatever is recorded for it is reported under the first one's labels.
\<close>

theorem label_values_collide:
  assumes "get_metric_with_label_values fnv build vals v = (Inr m, v')"
    and "length vals' = length vals" and "concat vals' = concat vals"
  shows "get_metric_with_label_values fnv build vals' v' = (Inr m, v')"
proof -
  from get_metric_result [OF assms(1)] have r: "hash_label_values fnv v vals = Inr (fnv (as_bytes (concat vals)))"
    "hm_get (vc_children v') (fnv (as_bytes (concat vals))) = Some m" "vc_desc v' = vc_desc v"
    by (simp_all add: as_bytes_concat)
  then have "length vals' = length (d_variable_labels (vc_desc v'))"
    using assms(2) by (simp add: hash_label_values_def split: if_splits)
  from get_metric_hit [OF this, of fnv m build] r(2) show ?thesis
    by (simp add: as_bytes_concat assms(3))
qed

theorem label_values_collide_witness:
  "\<exists>(v :: (unit, string list) MetricVecCore) v'. get_metric_with_label_values (\<lambda>bs. of_nat (length bs)) (\<lambda>_. Inr) [''ab'', ''c''] v = (Inr [''ab'', ''c''], v') \<and>
     get_metric_with_label_values (\<lambda>bs. of_nat (length bs)) (\<lambda>_. Inr) [''a'', ''bc''] v' = (Inr [''ab'', ''c''], v')"
proof -
  let ?d = "\<lparr>d_fq_name = ''m'', d_help = ''h'', d_const_label_pairs = [],
    d_variable_labels = [''x'', ''y''], d_id = 1, d_dim_hash = 2\<rparr>"
  let ?v = "\<lparr>vc_children = [], vc_desc = ?d, vc_metric_type = COUNTER, vc_opts = ()\<rparr>"
  obtain v' where first: "get_metric_with_label_values (\<lambda>bs. of_nat (length bs)) (\<lambda>_. Inr) [''ab'', ''c''] ?v = (Inr [''ab'', ''c''], v')"
    by (simp add: get_metric_fresh hm_get_def)
  from label_values_collide [OF first, of "[''a'', ''bc'']"] first
  show ?thesis by auto
qed

section \<open>The registry\<close>

text \<open>
  C16. Registering keeps the registry well formed: no two collectors share an identifier, and
  the metrics of one name agree in help and label names. A failed call leaves the collectors
  and identifiers as they were; after a successful one, unregistering gives them back.
\<close>

theorem register_keeps_registry:
  assumes "registry_wf ops r" and "registry_register ops dbg c r = (res, r')"
  shows "registry_wf ops r' \<and>
    (case res of
       Inl _ \<Rightarrow> rg_collectors_by_id r' = rg_collectors_by_id r \<and> rg_desc_ids r' = rg_desc_ids r
     | Inr _ \<Rightarrow> rg_collectors_by_id r' = rg_collectors_by_id r @ [(sum_list (ids_of ops c), c)] \<and>
         (co_desc ops c \<noteq> [] \<longrightarrow> registry_contains ops c r') \<and>
         (\<exists>r''. registry_unregister ops dbg' c r' = (Inr (), r'') \<and> registry_wf ops r'' \<and>
            rg_collectors_by_id r'' = rg_collectors_by_id r \<and> rg_desc_ids r'' = rg_desc_ids r))"
proof -
  note reg = register_wf [OF assms]
  show ?thesis
  proof (cases res)
    case (Inl e)
    with reg show ?thesis by simp
  next
    case (Inr u)
    then have ok: "registry_register ops dbg c r = (Inr (), r')" using assms(2) by simp
    have "rg_desc_ids r' = rg_desc_ids r @ ids_of ops c" using reg Inr by simp
    then have "co_desc ops c \<noteq> [] \<longrightarrow> registry_contains ops c r'"
      by (cases "co_desc ops c") (simp_all add: registry_contains_def ids_of_def)
    with reg Inr unregister_registered [OF assms(1) ok] show ?thesis by simp
  qed
qed

text \<open>A collector with the families it returns, for concrete registries.\<close>

definition plain_ops :: "(Desc list \<times> MetricFamily list) collector_ops" where
  "plain_ops = \<lparr>co_desc = fst, co_collect = snd\<rparr>"

theorem register_keeps_registry_witness:
  "\<exists>r' r''. registry_register plain_ops (d_fq_name, id) ([hc_desc one_bucket], []) Registry_default = (Inr (), r') \<and>
     registry_unregister plain_ops (\<lambda>_. []) ([hc_desc one_bucket], []) r' = (Inr (), r'') \<and>
     rg_collectors_by_id r'' = []"
proof -
  obtain r' where r': "registry_register plain_ops (d_fq_name, id) ([hc_desc one_bucket], []) Registry_default = (Inr (), r')"
    by (simp add: registry_register_def plain_ops_def Registry_default_def one_bucket_def hm_get_def Let_def)
  from register_keeps_registry [OF registry_wf_default r', of "\<lambda>_. []"] r' show ?thesis
    by (auto simp: Registry_default_def)
qed

text \<open>
  But a call that fails keeps the names of the descriptors it has looked at: here it fails on a
  duplicate descriptor, and another collector with the first one's name and another help text is
  then refused by a registry without any collector.
\<close>

theorem failed_register_claims_name:
  assumes "d_dim_hash d \<noteq> d_dim_hash d'" and "d_fq_name d = d_fq_name d'"
  shows "\<exists>r e e'. registry_register plain_ops dbg ([d, d], []) Registry_default = (Inl e, r) \<and>
    rg_collectors_by_id r = [] \<and>
    fst (registry_register plain_ops dbg ([d'], []) r) = Inl e' \<and>
    fst (registry_register plain_ops dbg ([d'], []) Registry_default) = Inr ()"
  using assms
  by (simp add: registry_register_def plain_ops_def Registry_default_def hm_get_def Let_def)


section \<open>The text format\<close>

text \<open>
  C18. The text encoder accepts any families with metrics whose names are valid and whose type
  is not untyped, and what it writes, read by the grammar of the format, gives back every
  sample: name, labels (whatever characters their values have), value to the last bit, and time
  stamp.
\<close>

theorem text_format_roundtrip:
  assumes "list_all printable mfs"
  shows "\<exists>buf. encode_to_string dbg mfs = (Done, buf) \<and>
    read_document (length buf) buf = Some (concat (map family_samples mfs))"
  using assms by (intro encode_reads_back) (simp add: list_all_iff)

theorem text_format_roundtrip_witness:
  "\<exists>buf. encode_to_string (\<lambda>_. [])
       [\<lparr>mf_name = ''m'', mf_help = [newline, backslash], mf_field_type = COUNTER, mf_metric =
           [Metric_default\<lparr>m_label := [\<lparr>lp_name = ''l'', lp_value = [dquote, newline, backslash]\<rparr>],
              m_counter := \<lparr>counter_value = Fin 1\<rparr>\<rparr>]\<rparr>] = (Done, buf) \<and>
     read_document (length buf) buf = Some [(''m'', [(''l'', [dquote, newline, backslash])], Fin 1, 0)]"
proof -
  let ?m = "Metric_default\<lparr>m_label := [\<lparr>lp_name = ''l'', lp_value = [dquote, newline, backslash]\<rparr>],
    m_counter := \<lparr>counter_value = Fin 1\<rparr>\<rparr>"
  let ?f = "\<lparr>mf_name = ''m'', mf_help = [newline, backslash], mf_field_type = COUNTER, mf_metric = [?m]\<rparr>"
  have "list_all printable [?f]"
    by (simp add: printable_def well_formed_def representable_def Metric_default_def is_valid_metric_name_def
        is_valid_label_name_def is_valid_ident_def matches_charset_with_colon_def
        matches_charset_without_colon_def is_ascii_alphabetic_def)
  moreover have "concat (map family_samples [?f]) = [(''m'', [(''l'', [dquote, newline, backslash])], Fin 1, 0)]"
    by (simp add: family_samples_def metric_samples_def labels_of_def Metric_default_def Let_def)
  ultimately show ?thesis using text_format_roundtrip [of "[?f]" "\<lambda>_. []"] by simp
qed

section \<open>The clock of the local metrics\<close>

text \<open>
  The coarse clock does not go back, whatever threads call \<open>now_millis\<close> and however their
  accesses interleave: \<open>RECENT\<close> never decreases, a call returns no less than \<open>RECENT\<close> was when
  it began and no more than it is when it ends, and so no less than what any call returned that
  ended before it began.
\<close>

theorem clock_never_goes_back:
  assumes "clock_steps clock_start s" and "clock_steps s s'" and "ck_pc s i = NmIdle"
  shows "ck_recent s \<le> ck_recent s' \<and> begun_after (ck_recent s) s' i \<and>
    list_all (\<lambda>(before, v). before \<le> v \<and> v \<le> ck_recent s') (ck_returned s') \<and>
    list_all (\<lambda>(before, v). v \<le> ck_recent s) (ck_returned s)"
proof -
  have inv: "clock_inv s" using clock_steps_inv [OF assms(1) clock_start_inv] by simp
  from clock_steps_inv [OF assms(2) inv] have "clock_inv s'" "ck_recent s \<le> ck_recent s'" by auto
  with inv returned_ge [OF assms(2) inv assms(3)] show ?thesis
    by (auto simp: clock_inv_def list_all_iff)
qed

theorem clock_never_goes_back_witness:
  "\<exists>s s'. clock_steps clock_start s \<and> clock_steps s s' \<and> ck_returned s' = [(5, 5), (0, 5)] \<and>
     ck_recent s \<le> ck_recent s' \<and> begun_after (ck_recent s) s' 1"
proof -
  let ?s1 = "clock_start\<lparr>ck_nanos := 5000000\<rparr>"
  let ?s = "solo 0 3 ?s1" and ?s' = "solo 1 3 (solo 0 3 ?s1)"
  have trans: "clock_steps a c" if "clock_steps b c" "clock_steps a b" for a b c
    using that by induction (auto intro: clock_trans)
  have st: "clock_steps s (solo i n s)" for i n s
  proof (induction n arbitrary: s)
    case (Suc n)
    have one: "clock_steps s (now_millis_step i False s)"
      by (rule clock_trans [OF clock_refl clock_step.thread])
    from trans [OF Suc [of "now_millis_step i False s"] one] show ?case by simp
  qed (simp add: clock_refl)
  have "clock_steps clock_start ?s1"
    using clock_trans [OF clock_refl clock_step.tick [of clock_start 5000000]] by (simp add: clock_start_def)
  then have a: "clock_steps clock_start ?s"
    using st [of ?s1 0 3] trans by blast
  have r: "ck_returned ?s' = [(5, 5), (0, 5)]" "ck_pc ?s 1 = NmIdle"
    by (simp_all add: numeral_3_eq_3 now_millis_step_def nm_return_def clock_start_def duration_to_millis_def)
  from clock_never_goes_back [OF a st r(2), of 1 3] a st [of ?s 1 3] r(1) show ?thesis by blast
qed

text \<open>
  \<open>now_millis\<close> returns: from any point of a call, whatever other threads have done, three
  steps of its thread in a row end it, if the exchange does not fail for no reason.
\<close>

theorem now_millis_returns:
  assumes "ck_pc s i \<noteq> NmIdle"
  shows "\<exists>n \<le> 3. ck_pc (solo i n s) i = NmIdle \<and>
    length (ck_returned (solo i n s)) = Suc (length (ck_returned s))"
  by (rule solo_ends [OF assms])

theorem now_millis_returns_witness:
  "\<exists>n \<le> 3. ck_pc (solo 0 n (clock_start\<lparr>ck_recent := 7, ck_pc := (\<lambda>_. NmLoop 9 3 2)\<rparr>)) 0 = NmIdle"
  using now_millis_returns [of "clock_start\<lparr>ck_recent := 7, ck_pc := (\<lambda>_. NmLoop 9 3 2)\<rparr>" 0] by auto

section \<open>Process metrics\<close>





end
