(* ===== verification/Metric_Api.thy ===== *)
theory Metric_Api
  imports Metric_LocalVec Metric_Text Metric_Timer "HOL-Library.Signed_Division"
begin

text \<open>
  The remaining calls of the metrics library's interface: options of histograms, construction
  and builders of the vectors (\<open>src/prometheus/src/histogram.rs\<close>, \<open>counter.rs\<close>, \<open>gauge.rs\<close>,
  \<open>vec.rs\<close>), clocks and timers, closures whose duration is observed, and the encoder's appending
  call (\<open>encoder/text.rs\<close>).
\<close>

section \<open>Options of histograms\<close>

definition HistogramOpts_map :: "(Opts \<Rightarrow> Opts) \<Rightarrow> HistogramOpts \<Rightarrow> HistogramOpts" where
  "HistogramOpts_map f opts = opts\<lparr>ho_common_opts := f (ho_common_opts opts)\<rparr>"

definition HistogramOpts_namespace :: "string \<Rightarrow> HistogramOpts \<Rightarrow> HistogramOpts" where
  "HistogramOpts_namespace namespace = HistogramOpts_map (Opts_namespace namespace)"

definition HistogramOpts_subsystem :: "string \<Rightarrow> HistogramOpts \<Rightarrow> HistogramOpts" where
  "HistogramOpts_subsystem subsystem = HistogramOpts_map (Opts_subsystem subsystem)"

definition HistogramOpts_const_labels :: "(string \<times> string) list \<Rightarrow> HistogramOpts \<Rightarrow> HistogramOpts" where
  "HistogramOpts_const_labels const_labels = HistogramOpts_map (Opts_const_labels const_labels)"

definition HistogramOpts_const_label :: "string \<Rightarrow> string \<Rightarrow> HistogramOpts \<Rightarrow> HistogramOpts" where
  "HistogramOpts_const_label name val = HistogramOpts_map (Opts_const_label name val)"

definition HistogramOpts_variable_labels :: "string list \<Rightarrow> HistogramOpts \<Rightarrow> HistogramOpts" where
  "HistogramOpts_variable_labels variable_labels = HistogramOpts_map (Opts_variable_labels variable_labels)"

definition HistogramOpts_variable_label :: "string \<Rightarrow> HistogramOpts \<Rightarrow> HistogramOpts" where
  "HistogramOpts_variable_label name = HistogramOpts_map (Opts_variable_label name)"

definition HistogramOpts_fq_name :: "HistogramOpts \<Rightarrow> string" where
  "HistogramOpts_fq_name opts = Opts_fq_name (ho_common_opts opts)"

definition HistogramOpts_buckets :: "f64 list \<Rightarrow> HistogramOpts \<Rightarrow> HistogramOpts" where
  "HistogramOpts_buckets buckets opts = opts\<lparr>ho_buckets := buckets\<rparr>"

definition HistogramOpts_describe :: "(bytes \<Rightarrow> u64) \<Rightarrow> HistogramOpts \<Rightarrow> Desc PromResult" where
  "HistogramOpts_describe fnv opts = Opts_describe fnv (ho_common_opts opts)"

definition HistogramOpts_from :: "Opts \<Rightarrow> HistogramOpts" where
  "HistogramOpts_from opts = \<lparr>ho_common_opts = opts, ho_buckets = DEFAULT_BUCKETS\<rparr>"

section \<open>Construction\<close>

definition Histogram_with_opts_and_label_values ::
  "(bytes \<Rightarrow> u64) \<Rightarrow> (f64 \<Rightarrow> string) \<Rightarrow> HistogramOpts \<Rightarrow> string list \<Rightarrow> HistogramCore PromResult" where
  "Histogram_with_opts_and_label_values fnv dbg opts label_values = HistogramCore_new fnv dbg opts label_values"

definition Histogram_with_opts ::
  "(bytes \<Rightarrow> u64) \<Rightarrow> (f64 \<Rightarrow> string) \<Rightarrow> HistogramOpts \<Rightarrow> HistogramCore PromResult" where
  "Histogram_with_opts fnv dbg opts = Histogram_with_opts_and_label_values fnv dbg opts []"

text \<open>What builds a child of a vector, from its options and label values.\<close>

definition CounterVecBuilder_build ::
  "(bytes \<Rightarrow> u64) \<Rightarrow> 't Number \<Rightarrow> ('p, 't) Atomic \<Rightarrow> Opts \<Rightarrow> string list \<Rightarrow> 'p ValueM PromResult" where
  "CounterVecBuilder_build fnv num ops opts vals = GenericCounter_with_opts_and_label_values fnv num ops opts vals"

definition GaugeVecBuilder_build ::
  "(bytes \<Rightarrow> u64) \<Rightarrow> 't Number \<Rightarrow> ('p, 't) Atomic \<Rightarrow> Opts \<Rightarrow> string list \<Rightarrow> 'p ValueM PromResult" where
  "GaugeVecBuilder_build fnv num ops opts vals = GenericGauge_with_opts_and_label_values fnv num ops opts vals"

definition HistogramVecBuilder_build ::
  "(bytes \<Rightarrow> u64) \<Rightarrow> (f64 \<Rightarrow> string) \<Rightarrow> HistogramOpts \<Rightarrow> string list \<Rightarrow> HistogramCore PromResult" where
  "HistogramVecBuilder_build fnv dbg opts vals = Histogram_with_opts_and_label_values fnv dbg opts vals"

definition GenericCounterVec_new ::
  "(bytes \<Rightarrow> u64) \<Rightarrow> Opts \<Rightarrow> string list \<Rightarrow> (Opts, 'm) MetricVecCore PromResult" where
  "GenericCounterVec_new fnv opts label_names =
     (let opts = Opts_variable_labels label_names opts in MetricVec_create (Opts_describe fnv opts) COUNTER opts)"

definition GenericGaugeVec_new ::
  "(bytes \<Rightarrow> u64) \<Rightarrow> Opts \<Rightarrow> string list \<Rightarrow> (Opts, 'm) MetricVecCore PromResult" where
  "GenericGaugeVec_new fnv opts label_names =
     (let opts = Opts_variable_labels label_names opts in MetricVec_create (Opts_describe fnv opts) GAUGE opts)"

definition HistogramVec_new ::
  "(bytes \<Rightarrow> u64) \<Rightarrow> HistogramOpts \<Rightarrow> string list \<Rightarrow> (HistogramOpts, 'm) MetricVecCore PromResult" where
  "HistogramVec_new fnv opts label_names =
     (let opts = HistogramOpts_variable_labels label_names opts
      in MetricVec_create (HistogramOpts_describe fnv opts) HISTOGRAM opts)"

text \<open>\<open>None\<close> is the panic of \<open>unwrap\<close>.\<close>

definition MetricVec_with ::
  "(bytes \<Rightarrow> u64) \<Rightarrow> ('o \<Rightarrow> string list \<Rightarrow> 'm PromResult) \<Rightarrow> (string, string) HashMap \<Rightarrow> ('o, 'm) MetricVecCore
    \<Rightarrow> ('m \<times> ('o, 'm) MetricVecCore) option" where
  "MetricVec_with fnv build labels v =
     (case get_metric_with fnv build labels v of
        (Inl _, _) \<Rightarrow> None
      | (Inr m, v') \<Rightarrow> Some (m, v'))"

definition MetricVec_desc :: "('o, 'm) MetricVecCore \<Rightarrow> Desc list" where
  "MetricVec_desc v = [vc_desc v]"

definition MetricVec_collect :: "('m \<Rightarrow> Metric) \<Rightarrow> ('o, 'm) MetricVecCore \<Rightarrow> MetricFamily list" where
  "MetricVec_collect metric v = [vec_collect metric v]"

section \<open>Clocks and timers\<close>

text \<open>An instant of the monotonic clock, in nanoseconds, or of the coarse one (\<open>timespec\<close>).\<close>

datatype HInstant = Monotonic nat | MonotonicCoarse i64 i64

definition timespec_ms :: "i64 \<Rightarrow> i64 \<Rightarrow> i64" where
  "timespec_ms tv_sec tv_nsec = tv_sec * 1000 + word_of_int (sint tv_nsec sdiv 1000000)"

fun HInstant_elapsed :: "nat \<Rightarrow> i64 \<times> i64 \<Rightarrow> HInstant \<Rightarrow> nat" where
  "HInstant_elapsed now coarse (Monotonic i) = now - i"
| "HInstant_elapsed now coarse (MonotonicCoarse s ns) =
     (let dur = timespec_ms (fst coarse) (snd coarse) - timespec_ms s ns
      in if 0 \<le>s dur then unat dur * 1000000 else 0)"

definition Histogram_observe_closure_duration ::
  "nat \<Rightarrow> nat \<Rightarrow> (HistogramCore \<Rightarrow> 'a \<times> HistogramCore) \<Rightarrow> HistogramCore \<Rightarrow> ('a \<times> HistogramCore) option" where
  "Histogram_observe_closure_duration instant later f core =
     (case f core of (res, core') \<Rightarrow> map_option (Pair res) (observe (elapsed_sec instant later) core'))"

text \<open>
  With the feature \<open>nightly\<close>, a closure can be measured with the coarse clock: \<open>start\<close> and
  \<open>coarse\<close> are its readings before and after.
\<close>

definition now_coarse :: "i64 \<times> i64 \<Rightarrow> HInstant" where
  "now_coarse start = MonotonicCoarse (fst start) (snd start)"

definition elapsed_coarse :: "i64 \<times> i64 \<Rightarrow> i64 \<times> i64 \<Rightarrow> f64" where
  "elapsed_coarse start coarse = duration_to_seconds (HInstant_elapsed 0 coarse (now_coarse start))"

definition Histogram_observe_closure_duration_coarse ::
  "i64 \<times> i64 \<Rightarrow> i64 \<times> i64 \<Rightarrow> (HistogramCore \<Rightarrow> 'a \<times> HistogramCore) \<Rightarrow> HistogramCore \<Rightarrow> ('a \<times> HistogramCore) option" where
  "Histogram_observe_closure_duration_coarse start coarse f core =
     (case f core of (res, core') \<Rightarrow> map_option (Pair res) (observe (elapsed_coarse start coarse) core'))"

definition LocalHistogram_observe_closure_duration_coarse ::
  "f64 list \<Rightarrow> i64 \<times> i64 \<Rightarrow> i64 \<times> i64 \<Rightarrow> (LocalHistogramCore \<Rightarrow> 'a \<times> LocalHistogramCore) \<Rightarrow> LocalHistogramCore
    \<Rightarrow> 'a \<times> LocalHistogramCore" where
  "LocalHistogram_observe_closure_duration_coarse bounds start coarse f l =
     (case f l of (res, l') \<Rightarrow> (res, local_observe bounds (elapsed_coarse start coarse) l'))"

definition AFLocalHistogram_observe_closure_duration_coarse ::
  "('m, LocalHistogramCore) delegator \<Rightarrow> f64 list \<Rightarrow> i64 \<times> i64 \<Rightarrow> i64 \<times> i64 \<Rightarrow> ('m \<Rightarrow> 'a \<times> 'm) \<Rightarrow> 'm \<Rightarrow> 'a \<times> 'm" where
  "AFLocalHistogram_observe_closure_duration_coarse dg bounds start coarse f m =
     (case f m of (res, m') \<Rightarrow> (res, AFLocalHistogram_observe dg bounds (elapsed_coarse start coarse) m'))"

definition LocalHistogram_observe_closure_duration ::
  "f64 list \<Rightarrow> nat \<Rightarrow> nat \<Rightarrow> (LocalHistogramCore \<Rightarrow> 'a \<times> LocalHistogramCore) \<Rightarrow> LocalHistogramCore
    \<Rightarrow> 'a \<times> LocalHistogramCore" where
  "LocalHistogram_observe_closure_duration bounds instant later f l =
     (case f l of (res, l') \<Rightarrow> (res, local_observe bounds (elapsed_sec instant later) l'))"

text \<open>The drop of a local histogram flushes it; what is left of it is freed.\<close>

definition LocalHistogram_drop :: "LocalHistogramCore \<Rightarrow> HistogramCore \<Rightarrow> HistogramCore option" where
  "LocalHistogram_drop l core = map_option snd (local_flush l core)"

text \<open>A timer on a local histogram owns a clone of it.\<close>

record LocalHistogramTimer =
  lt_local :: LocalHistogramCore
  lt_observed :: bool
  lt_start :: nat

definition local_start_timer :: "nat \<Rightarrow> LocalHistogramCore \<Rightarrow> LocalHistogramTimer" where
  "local_start_timer now l = \<lparr>lt_local = local_clone l, lt_observed = False, lt_start = now\<rparr>"

definition local_timer_observe ::
  "f64 list \<Rightarrow> bool \<Rightarrow> nat \<Rightarrow> LocalHistogramTimer \<Rightarrow> f64 \<times> LocalHistogramTimer" where
  "local_timer_observe bounds record_it now t =
     (let v = elapsed_sec (lt_start t) now; t' = t\<lparr>lt_observed := True\<rparr>
      in (v, if record_it then t'\<lparr>lt_local := local_observe bounds v (lt_local t')\<rparr> else t'))"

text \<open>The destructor of the timer, and then of its local histogram.\<close>

definition local_timer_drop :: "nat \<Rightarrow> LocalHistogramTimer \<Rightarrow> HistogramCore \<Rightarrow> HistogramCore option" where
  "local_timer_drop now t core =
     (let t' = (if \<not> lt_observed t then snd (local_timer_observe (hc_upper_bounds core) True now t) else t)
      in LocalHistogram_drop (lt_local t') core)"

definition local_timer_stop ::
  "bool \<Rightarrow> nat \<Rightarrow> nat \<Rightarrow> LocalHistogramTimer \<Rightarrow> HistogramCore \<Rightarrow> (f64 \<times> HistogramCore) option" where
  "local_timer_stop record_it now later t core =
     (case local_timer_observe (hc_upper_bounds core) record_it now t of
        (v, t') \<Rightarrow> map_option (Pair v) (local_timer_drop later t' core))"

text \<open>A timer on a shared histogram.\<close>

definition HistogramTimer_new :: "nat \<Rightarrow> HistogramTimer" where
  "HistogramTimer_new now = \<lparr>ht_observed = False, ht_start = now\<rparr>"

text \<open>The local histogram of a vector for label values; \<open>None\<close> is the panic of \<open>unwrap\<close>.\<close>

definition LocalHistogramVec_with_label_values ::
  "(bytes \<Rightarrow> u64) \<Rightarrow> ('o \<Rightarrow> string list \<Rightarrow> HistogramCore PromResult) \<Rightarrow> string list
    \<Rightarrow> ('o, HistogramCore, LocalHistogramCore) LocalVec
    \<Rightarrow> (u64 \<times> ('o, HistogramCore, LocalHistogramCore) LocalVec) option" where
  "LocalHistogramVec_with_label_values fnv build vals lv =
     local_with_label_values fnv build LocalHistogramCore_new vals lv"

definition LocalHistogram_get_sample_sum :: "LocalHistogramCore \<Rightarrow> f64" where
  "LocalHistogram_get_sample_sum l = lh_sum l"

definition LocalHistogram_get_sample_count :: "LocalHistogramCore \<Rightarrow> u64" where
  "LocalHistogram_get_sample_count l = lh_count l"

section \<open>Appending to a text\<close>

definition encode_utf8 :: "(MetricFamily \<Rightarrow> string) \<Rightarrow> MetricFamily list \<Rightarrow> string step" where
  "encode_utf8 dbg metric_families buf = encode_impl dbg StringBuf_write_all metric_families buf"

section \<open>Lemmas\<close>

text \<open>A histogram timer is recorded exactly once unless it is discarded, and then not at all.\<close>

lemma timer_stop_once:
  "timer_stop record_it now later t core =
     (if record_it then map_option (Pair (elapsed_sec (ht_start t) now)) (observe (elapsed_sec (ht_start t) now) core)
      else Some (elapsed_sec (ht_start t) now, core))"
  by (auto simp: timer_stop_def timer_observe_def timer_drop_def Let_def split: option.split)

text \<open>A local timer leaves its histogram as one flush of a local histogram that observed once.\<close>

lemma local_timer_once:
  assumes "length (lh_counts l) = length (hc_upper_bounds core)"
  shows "local_timer_stop record_it now later (local_start_timer start l) core =
    (let v = elapsed_sec start now; new = LocalHistogramCore_new core
     in map_option (Pair v)
          (LocalHistogram_drop (if record_it then local_observe (hc_upper_bounds core) v new else new) core))"
proof -
  have "local_clone l = LocalHistogramCore_new core"
    using assms by (simp add: local_clone_def local_clear_def LocalHistogramCore_new_def map_replicate_const)
  then show ?thesis
    by (simp add: local_timer_stop_def local_timer_observe_def local_timer_drop_def local_start_timer_def Let_def)
qed

lemma encode_to_string_utf8: "encode_to_string dbg mfs = encode_utf8 dbg mfs []"
  by (simp add: encode_to_string_def encode_utf8_def)

text \<open>A time of the monotonic clock that lies in the future counts as now.\<close>

lemma elapsed_monotonic: "duration_to_seconds (HInstant_elapsed now coarse (Monotonic i)) = elapsed_sec i now"
  by (simp add: elapsed_sec_def)

text \<open>A coarse clock that was read too early counts as no time, and never as a negative one.\<close>

lemma elapsed_coarse_back:
  "timespec_ms (fst coarse) (snd coarse) - timespec_ms (fst start) (snd start) <s 0 \<Longrightarrow>
     elapsed_coarse start coarse = duration_to_seconds 0"
  by (auto simp: elapsed_coarse_def now_coarse_def Let_def word_sle_eq word_sless_alt)

end
