(* ===== verification/Metric_Macros.thy ===== *)
theory Metric_Macros
  imports Metric_Api Metric_Registry
begin

text \<open>
  The macros of the metrics library (\<open>src/prometheus/src/macros.rs\<close>), as what they expand to, and
  the functions of the default registry that they call (\<open>registry.rs\<close>). A macro that registers
  makes a metric, registers a clone of it, which shares the metric, and returns the metric;
  \<open>inject\<close> is the boxing of the clone as a collector. A failed \<open>unwrap\<close> is \<open>None\<close>. The arms of
  a macro are the constructors of the type of its argument.
\<close>

section \<open>Options\<close>

definition labels_macro :: "('k \<times> 'v) list \<Rightarrow> ('k, 'v) HashMap" where
  "labels_macro pairs = fold (\<lambda>(k, v) lbs. hm_insert k v lbs) pairs []"

definition opts_macro :: "string \<Rightarrow> string \<Rightarrow> (string, string) HashMap list \<Rightarrow> Opts" where
  "opts_macro name doc const_labels =
     (let opts = Opts_new name doc;
          lbs = fold (\<lambda>labels lbs. fold (\<lambda>(k, v) lbs. hm_insert k v lbs) labels lbs) const_labels []
      in Opts_const_labels lbs opts)"

datatype histogram_opts_args =
    HOptsName string string
  | HOptsBuckets string string "f64 list"
  | HOptsLabels string string "f64 list" "(string, string) HashMap"

fun histogram_opts_macro :: "histogram_opts_args \<Rightarrow> HistogramOpts" where
  "histogram_opts_macro (HOptsName name doc) = HistogramOpts_new name doc"
| "histogram_opts_macro (HOptsBuckets name doc buckets) =
     HistogramOpts_buckets buckets (HistogramOpts_new name doc)"
| "histogram_opts_macro (HOptsLabels name doc buckets const_labels) =
     HistogramOpts_const_labels const_labels (HistogramOpts_buckets buckets (HistogramOpts_new name doc))"

section \<open>Registration\<close>

text \<open>\<open>let m = new.unwrap(); registry.register(Box::new(m.clone())).map(|_| m)\<close>.\<close>

definition register_new ::
  "'c collector_ops \<Rightarrow> (Desc \<Rightarrow> string) \<times> (string \<Rightarrow> string) \<Rightarrow> ('m \<Rightarrow> 'c) \<Rightarrow> 'm PromResult \<Rightarrow> 'c RegistryCore
    \<Rightarrow> ('m PromResult \<times> 'c RegistryCore) option" where
  "register_new ops dbg inject made registry =
     (case made of
        Inl _ \<Rightarrow> None
      | Inr m \<Rightarrow>
          (case registry_register ops dbg (inject m) registry of
             (res, registry') \<Rightarrow> Some (bind_res res (\<lambda>_. Inr m), registry')))"

datatype opts_args = WithOpts Opts | WithName string string

fun opts_of :: "opts_args \<Rightarrow> Opts" where
  "opts_of (WithOpts opts) = opts"
| "opts_of (WithName name doc) = opts_macro name doc []"

type_synonym ('m, 'c) registering =
  "'c collector_ops \<Rightarrow> (Desc \<Rightarrow> string) \<times> (string \<Rightarrow> string) \<Rightarrow> ('m \<Rightarrow> 'c) \<Rightarrow> 'c RegistryCore
    \<Rightarrow> ('m PromResult \<times> 'c RegistryCore) option"

subsection \<open>Counters\<close>

definition register_counter_of_type ::
  "'t Number \<Rightarrow> ('p, 't) Atomic \<Rightarrow> (bytes \<Rightarrow> u64) \<Rightarrow> Opts \<Rightarrow> ('p ValueM, 'c) registering" where
  "register_counter_of_type num atomic fnv opts ops dbg inject registry =
     register_new ops dbg inject (GenericCounter_with_opts fnv num atomic opts) registry"

definition register_counter_with_registry ::
  "(bytes \<Rightarrow> u64) \<Rightarrow> opts_args \<Rightarrow> (AtomicF64 ValueM, 'c) registering" where
  "register_counter_with_registry fnv args = register_counter_of_type number_f64 atomic_f64 fnv (opts_of args)"

definition register_int_counter_with_registry ::
  "(bytes \<Rightarrow> u64) \<Rightarrow> opts_args \<Rightarrow> (AtomicU64 ValueM, 'c) registering" where
  "register_int_counter_with_registry fnv args = register_counter_of_type number_u64 atomic_u64 fnv (opts_of args)"

definition register_counter_vec_of_type ::
  "(bytes \<Rightarrow> u64) \<Rightarrow> Opts \<Rightarrow> string list \<Rightarrow> ((Opts, 'p ValueM) MetricVecCore, 'c) registering" where
  "register_counter_vec_of_type fnv opts label_names ops dbg inject registry =
     register_new ops dbg inject (GenericCounterVec_new fnv opts label_names) registry"

definition register_counter_vec_with_registry ::
  "(bytes \<Rightarrow> u64) \<Rightarrow> opts_args \<Rightarrow> string list \<Rightarrow> ((Opts, AtomicF64 ValueM) MetricVecCore, 'c) registering" where
  "register_counter_vec_with_registry fnv args = register_counter_vec_of_type fnv (opts_of args)"

definition register_int_counter_vec_with_registry ::
  "(bytes \<Rightarrow> u64) \<Rightarrow> opts_args \<Rightarrow> string list \<Rightarrow> ((Opts, AtomicU64 ValueM) MetricVecCore, 'c) registering" where
  "register_int_counter_vec_with_registry fnv args = register_counter_vec_of_type fnv (opts_of args)"

subsection \<open>Gauges\<close>

definition register_gauge_of_type ::
  "'t Number \<Rightarrow> ('p, 't) Atomic \<Rightarrow> (bytes \<Rightarrow> u64) \<Rightarrow> Opts \<Rightarrow> ('p ValueM, 'c) registering" where
  "register_gauge_of_type num atomic fnv opts ops dbg inject registry =
     register_new ops dbg inject (GenericGauge_with_opts fnv num atomic opts) registry"

definition register_gauge_with_registry ::
  "(bytes \<Rightarrow> u64) \<Rightarrow> opts_args \<Rightarrow> (AtomicF64 ValueM, 'c) registering" where
  "register_gauge_with_registry fnv args = register_gauge_of_type number_f64 atomic_f64 fnv (opts_of args)"

definition register_int_gauge_with_registry ::
  "(bytes \<Rightarrow> u64) \<Rightarrow> opts_args \<Rightarrow> (AtomicI64 ValueM, 'c) registering" where
  "register_int_gauge_with_registry fnv args = register_gauge_of_type number_i64 atomic_i64 fnv (opts_of args)"

definition register_gauge_vec_of_type ::
  "(bytes \<Rightarrow> u64) \<Rightarrow> Opts \<Rightarrow> string list \<Rightarrow> ((Opts, 'p ValueM) MetricVecCore, 'c) registering" where
  "register_gauge_vec_of_type fnv opts label_names ops dbg inject registry =
     register_new ops dbg inject (GenericGaugeVec_new fnv opts label_names) registry"

definition register_gauge_vec_with_registry ::
  "(bytes \<Rightarrow> u64) \<Rightarrow> opts_args \<Rightarrow> string list \<Rightarrow> ((Opts, AtomicF64 ValueM) MetricVecCore, 'c) registering" where
  "register_gauge_vec_with_registry fnv args = register_gauge_vec_of_type fnv (opts_of args)"

definition register_int_gauge_vec_with_registry ::
  "(bytes \<Rightarrow> u64) \<Rightarrow> opts_args \<Rightarrow> string list \<Rightarrow> ((Opts, AtomicI64 ValueM) MetricVecCore, 'c) registering" where
  "register_int_gauge_vec_with_registry fnv args = register_gauge_vec_of_type fnv (opts_of args)"

subsection \<open>Histograms\<close>

datatype hopts_args = WithHOpts HistogramOpts | WithHName string string | WithHBuckets string string "f64 list"

fun hopts_of :: "hopts_args \<Rightarrow> HistogramOpts" where
  "hopts_of (WithHOpts hopts) = hopts"
| "hopts_of (WithHName name doc) = histogram_opts_macro (HOptsName name doc)"
| "hopts_of (WithHBuckets name doc buckets) = histogram_opts_macro (HOptsBuckets name doc buckets)"

definition register_histogram_with_registry ::
  "(bytes \<Rightarrow> u64) \<Rightarrow> (f64 \<Rightarrow> string) \<Rightarrow> hopts_args \<Rightarrow> (HistogramCore, 'c) registering" where
  "register_histogram_with_registry fnv dbg_f64 args ops dbg inject registry =
     register_new ops dbg inject (Histogram_with_opts fnv dbg_f64 (hopts_of args)) registry"

definition register_histogram_vec_with_registry ::
  "(bytes \<Rightarrow> u64) \<Rightarrow> hopts_args \<Rightarrow> string list \<Rightarrow> ((HistogramOpts, HistogramCore) MetricVecCore, 'c) registering" where
  "register_histogram_vec_with_registry fnv args label_names ops dbg inject registry =
     register_new ops dbg inject (HistogramVec_new fnv (hopts_of args) label_names) registry"

section \<open>The default registry\<close>

text \<open>A process's state holds the default registry; the macros without a registry use it.\<close>

record 'c globals =
  gl_default_registry :: "'c RegistryCore"

definition on_default :: "('c RegistryCore \<Rightarrow> 'a \<times> 'c RegistryCore) \<Rightarrow> 'c globals \<Rightarrow> 'a \<times> 'c globals" where
  "on_default f g = (case f (gl_default_registry g) of (x, r) \<Rightarrow> (x, g\<lparr>gl_default_registry := r\<rparr>))"

definition register_default ::
  "'c collector_ops \<Rightarrow> (Desc \<Rightarrow> string) \<times> (string \<Rightarrow> string) \<Rightarrow> 'c \<Rightarrow> 'c globals \<Rightarrow> unit PromResult \<times> 'c globals" where
  "register_default ops dbg c = on_default (registry_register ops dbg c)"

definition unregister_default ::
  "'c collector_ops \<Rightarrow> (Desc list \<Rightarrow> string) \<Rightarrow> 'c \<Rightarrow> 'c globals \<Rightarrow> unit PromResult \<times> 'c globals" where
  "unregister_default ops dbg c = on_default (registry_unregister ops dbg c)"

definition gather_default :: "'c collector_ops \<Rightarrow> 'c globals \<Rightarrow> MetricFamily list" where
  "gather_default ops g = registry_gather ops (gl_default_registry g)"

definition contains_default :: "'c collector_ops \<Rightarrow> 'c \<Rightarrow> 'c globals \<Rightarrow> bool" where
  "contains_default ops c g = registry_contains ops c (gl_default_registry g)"

definition in_default ::
  "('m, 'c) registering \<Rightarrow> 'c collector_ops \<Rightarrow> (Desc \<Rightarrow> string) \<times> (string \<Rightarrow> string) \<Rightarrow> ('m \<Rightarrow> 'c) \<Rightarrow> 'c globals
    \<Rightarrow> ('m PromResult \<times> 'c globals) option" where
  "in_default reg ops dbg inject g =
     map_option (\<lambda>(res, r). (res, g\<lparr>gl_default_registry := r\<rparr>)) (reg ops dbg inject (gl_default_registry g))"

definition register_counter where
  "register_counter fnv args = in_default (register_counter_with_registry fnv args)"

definition register_int_counter where
  "register_int_counter fnv args = in_default (register_int_counter_with_registry fnv args)"

definition register_counter_vec where
  "register_counter_vec fnv args label_names = in_default (register_counter_vec_with_registry fnv args label_names)"

definition register_int_counter_vec where
  "register_int_counter_vec fnv args label_names =
     in_default (register_int_counter_vec_with_registry fnv args label_names)"

definition register_gauge where
  "register_gauge fnv args = in_default (register_gauge_with_registry fnv args)"

definition register_int_gauge where
  "register_int_gauge fnv args = in_default (register_int_gauge_with_registry fnv args)"

definition register_gauge_vec where
  "register_gauge_vec fnv args label_names = in_default (register_gauge_vec_with_registry fnv args label_names)"

definition register_int_gauge_vec where
  "register_int_gauge_vec fnv args label_names =
     in_default (register_int_gauge_vec_with_registry fnv args label_names)"

definition register_histogram where
  "register_histogram fnv dbg_f64 args = in_default (register_histogram_with_registry fnv dbg_f64 args)"

definition register_histogram_vec where
  "register_histogram_vec fnv args label_names =
     in_default (register_histogram_vec_with_registry fnv args label_names)"

section \<open>Lemmas\<close>

text \<open>Later pairs of \<open>labels!\<close> replace earlier ones with the same key.\<close>

lemma hm_get_fold_insert:
  "hm_get (fold (\<lambda>(k, v) lbs. hm_insert k v lbs) pairs m) k
    = (case map_of (rev pairs) k of Some v \<Rightarrow> Some v | None \<Rightarrow> hm_get m k)"
  by (induction pairs arbitrary: m) (auto simp: hm_get_insert map_add_def split: option.split)

lemma labels_macro_get: "hm_get (labels_macro pairs) k = map_of (rev pairs) k"
  by (simp add: labels_macro_def hm_get_fold_insert hm_get_def [of "[]"] split: option.split)

text \<open>
  A registering macro panics exactly if the metric cannot be made. Otherwise the registry stays
  well formed, and the metric is returned exactly if it is now registered, last.
\<close>

lemma register_new_spec:
  assumes "registry_wf ops registry"
  shows "case made of
      Inl _ \<Rightarrow> register_new ops dbg inject made registry = None
    | Inr m \<Rightarrow> \<exists>res registry'. register_new ops dbg inject made registry = Some (res, registry') \<and>
        registry_wf ops registry' \<and>
        (case res of
           Inr m' \<Rightarrow> m' = m \<and> rg_collectors_by_id registry' =
             rg_collectors_by_id registry @ [(sum_list (ids_of ops (inject m)), inject m)]
         | Inl _ \<Rightarrow> rg_collectors_by_id registry' = rg_collectors_by_id registry)"
proof (cases made)
  case (Inr m)
  obtain res registry' where r: "registry_register ops dbg (inject m) registry = (res, registry')" by fastforce
  from register_wf [OF assms r] show ?thesis
    by (cases res) (auto simp: Inr register_new_def r)
qed (simp add: register_new_def)

end
