(* ===== verification/Pb_Model.thy ===== *)
theory Pb_Model
  imports Metric_Model
begin

text \<open>
  The messages of the protobuf schema as the generated code keeps them
  (\<open>src/prometheus/proto/proto_model.rs\<close>): fields that may be absent, the unknown fields of
  a parsed message and the size cached by \<open>compute_size\<close>. The type of unknown fields belongs to
  the crate protobuf and is the type parameter \<open>'u\<close>; the functions of that crate are the
  components of the record \<open>protobuf\<close>. A \<open>SingularField\<close>, a \<open>SingularPtrField\<close> and an
  \<open>Option\<close> are options, a \<open>RepeatedField\<close> is a list, and an \<open>f64\<close> is kept as its bits, as the
  code only stores it. A \<open>mut_\<close> accessor hands out a reference: it takes what its caller does
  to the referent.
\<close>

section \<open>Messages\<close>

record 'u PbLabelPair =
  plp_name :: "string option"
  plp_value :: "string option"
  plp_unknown_fields :: 'u
  plp_cached_size :: u32

record 'u PbGauge =
  pga_value :: "u64 option"
  pga_unknown_fields :: 'u
  pga_cached_size :: u32

record 'u PbCounter =
  pco_value :: "u64 option"
  pco_unknown_fields :: 'u
  pco_cached_size :: u32

record 'u PbQuantile =
  pqu_quantile :: "u64 option"
  pqu_value :: "u64 option"
  pqu_unknown_fields :: 'u
  pqu_cached_size :: u32

record 'u PbSummary =
  psu_sample_count :: "u64 option"
  psu_sample_sum :: "u64 option"
  psu_quantile :: "'u PbQuantile list"
  psu_unknown_fields :: 'u
  psu_cached_size :: u32

record 'u PbUntyped =
  pun_value :: "u64 option"
  pun_unknown_fields :: 'u
  pun_cached_size :: u32

record 'u PbBucket =
  pbu_cumulative_count :: "u64 option"
  pbu_upper_bound :: "u64 option"
  pbu_unknown_fields :: 'u
  pbu_cached_size :: u32

record 'u PbHistogram =
  phi_sample_count :: "u64 option"
  phi_sample_sum :: "u64 option"
  phi_bucket :: "'u PbBucket list"
  phi_unknown_fields :: 'u
  phi_cached_size :: u32

record 'u PbMetric =
  pme_label :: "'u PbLabelPair list"
  pme_gauge :: "'u PbGauge option"
  pme_counter :: "'u PbCounter option"
  pme_summary :: "'u PbSummary option"
  pme_untyped :: "'u PbUntyped option"
  pme_histogram :: "'u PbHistogram option"
  pme_timestamp_ms :: "i64 option"
  pme_unknown_fields :: 'u
  pme_cached_size :: u32

record 'u PbMetricFamily =
  pmf_name :: "string option"
  pmf_help :: "string option"
  pmf_field_type :: "MetricType option"
  pmf_metric :: "'u PbMetric list"
  pmf_unknown_fields :: 'u
  pmf_cached_size :: u32

section \<open>The crate protobuf\<close>

datatype WireType =
    WireTypeVarint
  | WireTypeFixed64
  | WireTypeLengthDelimited
  | WireTypeStartGroup
  | WireTypeEndGroup
  | WireTypeFixed32

datatype pb_error = UnexpectedWireType WireType | PbError string

type_synonym 'a pb_result = "pb_error + 'a"

text \<open>
  An output stream is the bytes written so far. An input stream is the bytes up to the current
  limit. \<open>None\<close> is a read that does not return.
\<close>

type_synonym i32 = "32 word"
type_synonym writer = "bytes \<Rightarrow> bytes pb_result"
type_synonym 'a reading = "('a \<times> bytes) pb_result option"
type_synonym 'm merger = "'m \<Rightarrow> bytes \<Rightarrow> 'm reading"
type_synonym 'm repeated_reader =
  "'m merger \<Rightarrow> 'm \<Rightarrow> WireType \<Rightarrow> bytes \<Rightarrow> 'm list \<Rightarrow> 'm list reading"
type_synonym 'm singular_reader =
  "'m merger \<Rightarrow> 'm \<Rightarrow> WireType \<Rightarrow> bytes \<Rightarrow> 'm option \<Rightarrow> 'm option reading"

text \<open>
  The functions of the crate that the generated code calls: of \<open>UnknownFields\<close>,
  \<open>CodedOutputStream\<close> (\<open>os_\<close>), \<open>CodedInputStream\<close> (\<open>is_\<close>), of the module \<open>rt\<close>, whose generic
  functions have a component for each message they are used at (they call the message's \<open>new\<close>
  and \<open>merge_from\<close>), and the method \<open>write_length_delimited_to_writer\<close> of the trait \<open>Message\<close>.
\<close>

record 'u protobuf =
  unknown_fields_default :: 'u
  unknown_fields_clear :: "'u \<Rightarrow> 'u"
  unknown_fields_size :: "'u \<Rightarrow> u32"
  string_size :: "u32 \<Rightarrow> string \<Rightarrow> u32"
  value_size :: "u32 \<Rightarrow> u64 \<Rightarrow> WireType \<Rightarrow> u32"
  enum_size :: "u32 \<Rightarrow> MetricType \<Rightarrow> u32"
  compute_raw_varint32_size :: "u32 \<Rightarrow> u32"
  os_write_tag :: "u32 \<Rightarrow> WireType \<Rightarrow> writer"
  os_write_raw_varint32 :: "u32 \<Rightarrow> writer"
  os_write_string :: "u32 \<Rightarrow> string \<Rightarrow> writer"
  os_write_double :: "u32 \<Rightarrow> u64 \<Rightarrow> writer"
  os_write_uint64 :: "u32 \<Rightarrow> u64 \<Rightarrow> writer"
  os_write_int64 :: "u32 \<Rightarrow> i64 \<Rightarrow> writer"
  os_write_enum :: "u32 \<Rightarrow> i32 \<Rightarrow> writer"
  os_write_unknown_fields :: "'u \<Rightarrow> writer"
  is_eof :: "bytes \<Rightarrow> bool pb_result"
  is_read_tag_unpack :: "bytes \<Rightarrow> ((u32 \<times> WireType) \<times> bytes) pb_result"
  is_read_double :: "bytes \<Rightarrow> (u64 \<times> bytes) pb_result"
  is_read_uint64 :: "bytes \<Rightarrow> (u64 \<times> bytes) pb_result"
  is_read_int64 :: "bytes \<Rightarrow> (i64 \<times> bytes) pb_result"
  read_singular_string_into :: "WireType \<Rightarrow> bytes \<Rightarrow> string option \<Rightarrow> (string option \<times> bytes) pb_result"
  read_proto2_enum_with_unknown_fields_into ::
    "(i32 \<Rightarrow> MetricType option) \<Rightarrow> WireType \<Rightarrow> bytes \<Rightarrow> MetricType option \<Rightarrow> u32 \<Rightarrow> 'u
      \<Rightarrow> ((MetricType option \<times> 'u) \<times> bytes) pb_result"
  read_unknown_or_skip_group :: "u32 \<Rightarrow> WireType \<Rightarrow> bytes \<Rightarrow> 'u \<Rightarrow> ('u \<times> bytes) pb_result"
  read_repeated_LabelPair_into :: "'u PbLabelPair repeated_reader"
  read_repeated_Quantile_into :: "'u PbQuantile repeated_reader"
  read_repeated_Bucket_into :: "'u PbBucket repeated_reader"
  read_repeated_Metric_into :: "'u PbMetric repeated_reader"
  read_singular_Gauge_into :: "'u PbGauge singular_reader"
  read_singular_Counter_into :: "'u PbCounter singular_reader"
  read_singular_Summary_into :: "'u PbSummary singular_reader"
  read_singular_Untyped_into :: "'u PbUntyped singular_reader"
  read_singular_Histogram_into :: "'u PbHistogram singular_reader"
  write_length_delimited_to_writer ::
    "('u PbMetricFamily \<Rightarrow> u32 \<times> 'u PbMetricFamily) \<Rightarrow> ('u PbMetricFamily \<Rightarrow> writer)
      \<Rightarrow> 'u PbMetricFamily \<Rightarrow> writer"

section \<open>\<open>MetricType\<close>\<close>

fun MetricType_value :: "MetricType \<Rightarrow> i32" where
  "MetricType_value COUNTER = 0"
| "MetricType_value GAUGE = 1"
| "MetricType_value SUMMARY = 2"
| "MetricType_value UNTYPED = 3"
| "MetricType_value HISTOGRAM = 4"

definition MetricType_from_i32 :: "i32 \<Rightarrow> MetricType option" where
  "MetricType_from_i32 v =
     (if v = 0 then Some COUNTER
      else if v = 1 then Some GAUGE
      else if v = 2 then Some SUMMARY
      else if v = 3 then Some UNTYPED
      else if v = 4 then Some HISTOGRAM
      else None)"

definition MetricType_values :: "MetricType list" where
  "MetricType_values = [COUNTER, GAUGE, SUMMARY, UNTYPED, HISTOGRAM]"

lemma MetricType_from_value [simp]: "MetricType_from_i32 (MetricType_value t) = Some t"
  by (cases t) (simp_all add: MetricType_from_i32_def)

lemma MetricType_from_i32_Some: "MetricType_from_i32 v = Some t \<longleftrightarrow> v = MetricType_value t"
  by (cases t) (auto simp: MetricType_from_i32_def split: if_splits)

lemma MetricType_values_all: "set MetricType_values = UNIV" "distinct MetricType_values"
proof -
  have "t \<in> set MetricType_values" for t by (cases t) (simp_all add: MetricType_values_def)
  then show "set MetricType_values = UNIV" by blast
qed (simp add: MetricType_values_def)

section \<open>New messages\<close>

definition PbLabelPair_new :: "'u protobuf \<Rightarrow> 'u PbLabelPair" where
  "PbLabelPair_new R =
     \<lparr>plp_name = None, plp_value = None, plp_unknown_fields = unknown_fields_default R,
      plp_cached_size = 0\<rparr>"

definition PbGauge_new :: "'u protobuf \<Rightarrow> 'u PbGauge" where
  "PbGauge_new R =
     \<lparr>pga_value = None, pga_unknown_fields = unknown_fields_default R, pga_cached_size = 0\<rparr>"

definition PbCounter_new :: "'u protobuf \<Rightarrow> 'u PbCounter" where
  "PbCounter_new R =
     \<lparr>pco_value = None, pco_unknown_fields = unknown_fields_default R, pco_cached_size = 0\<rparr>"

definition PbQuantile_new :: "'u protobuf \<Rightarrow> 'u PbQuantile" where
  "PbQuantile_new R =
     \<lparr>pqu_quantile = None, pqu_value = None, pqu_unknown_fields = unknown_fields_default R,
      pqu_cached_size = 0\<rparr>"

definition PbSummary_new :: "'u protobuf \<Rightarrow> 'u PbSummary" where
  "PbSummary_new R =
     \<lparr>psu_sample_count = None, psu_sample_sum = None, psu_quantile = [],
      psu_unknown_fields = unknown_fields_default R, psu_cached_size = 0\<rparr>"

definition PbUntyped_new :: "'u protobuf \<Rightarrow> 'u PbUntyped" where
  "PbUntyped_new R =
     \<lparr>pun_value = None, pun_unknown_fields = unknown_fields_default R, pun_cached_size = 0\<rparr>"

definition PbBucket_new :: "'u protobuf \<Rightarrow> 'u PbBucket" where
  "PbBucket_new R =
     \<lparr>pbu_cumulative_count = None, pbu_upper_bound = None,
      pbu_unknown_fields = unknown_fields_default R, pbu_cached_size = 0\<rparr>"

definition PbHistogram_new :: "'u protobuf \<Rightarrow> 'u PbHistogram" where
  "PbHistogram_new R =
     \<lparr>phi_sample_count = None, phi_sample_sum = None, phi_bucket = [],
      phi_unknown_fields = unknown_fields_default R, phi_cached_size = 0\<rparr>"

definition PbMetric_new :: "'u protobuf \<Rightarrow> 'u PbMetric" where
  "PbMetric_new R =
     \<lparr>pme_label = [], pme_gauge = None, pme_counter = None, pme_summary = None,
      pme_untyped = None, pme_histogram = None, pme_timestamp_ms = None,
      pme_unknown_fields = unknown_fields_default R, pme_cached_size = 0\<rparr>"

definition PbMetricFamily_new :: "'u protobuf \<Rightarrow> 'u PbMetricFamily" where
  "PbMetricFamily_new R =
     \<lparr>pmf_name = None, pmf_help = None, pmf_field_type = None, pmf_metric = [],
      pmf_unknown_fields = unknown_fields_default R, pmf_cached_size = 0\<rparr>"

section \<open>Initialisation\<close>

text \<open>No field of the schema is required.\<close>

definition PbLabelPair_is_initialized :: "'u PbLabelPair \<Rightarrow> bool" where
  "PbLabelPair_is_initialized m = True"

definition PbGauge_is_initialized :: "'u PbGauge \<Rightarrow> bool" where
  "PbGauge_is_initialized m = True"

definition PbCounter_is_initialized :: "'u PbCounter \<Rightarrow> bool" where
  "PbCounter_is_initialized m = True"

definition PbQuantile_is_initialized :: "'u PbQuantile \<Rightarrow> bool" where
  "PbQuantile_is_initialized m = True"

definition PbSummary_is_initialized :: "'u PbSummary \<Rightarrow> bool" where
  "PbSummary_is_initialized m \<longleftrightarrow> list_all PbQuantile_is_initialized (psu_quantile m)"

definition PbUntyped_is_initialized :: "'u PbUntyped \<Rightarrow> bool" where
  "PbUntyped_is_initialized m = True"

definition PbBucket_is_initialized :: "'u PbBucket \<Rightarrow> bool" where
  "PbBucket_is_initialized m = True"

definition PbHistogram_is_initialized :: "'u PbHistogram \<Rightarrow> bool" where
  "PbHistogram_is_initialized m \<longleftrightarrow> list_all PbBucket_is_initialized (phi_bucket m)"

definition PbMetric_is_initialized :: "'u PbMetric \<Rightarrow> bool" where
  "PbMetric_is_initialized m \<longleftrightarrow>
     list_all PbLabelPair_is_initialized (pme_label m) \<and>
     pred_option PbGauge_is_initialized (pme_gauge m) \<and>
     pred_option PbCounter_is_initialized (pme_counter m) \<and>
     pred_option PbSummary_is_initialized (pme_summary m) \<and>
     pred_option PbUntyped_is_initialized (pme_untyped m) \<and>
     pred_option PbHistogram_is_initialized (pme_histogram m)"

definition PbMetricFamily_is_initialized :: "'u PbMetricFamily \<Rightarrow> bool" where
  "PbMetricFamily_is_initialized m \<longleftrightarrow> list_all PbMetric_is_initialized (pmf_metric m)"

lemmas pb_is_initialized_defs =
  PbLabelPair_is_initialized_def PbGauge_is_initialized_def PbCounter_is_initialized_def
  PbQuantile_is_initialized_def PbSummary_is_initialized_def PbUntyped_is_initialized_def
  PbBucket_is_initialized_def PbHistogram_is_initialized_def PbMetric_is_initialized_def

lemma PbMetricFamily_always_initialized: "PbMetricFamily_is_initialized m"
  by (simp add: PbMetricFamily_is_initialized_def pb_is_initialized_defs list.pred_set option.pred_set)

section \<open>Accessors\<close>

subsection \<open>\<open>LabelPair\<close>\<close>

definition PbLabelPair_clear_name :: "'u PbLabelPair \<Rightarrow> 'u PbLabelPair" where
  "PbLabelPair_clear_name m = m\<lparr>plp_name := None\<rparr>"

definition PbLabelPair_has_name :: "'u PbLabelPair \<Rightarrow> bool" where
  "PbLabelPair_has_name m \<longleftrightarrow> plp_name m \<noteq> None"

definition PbLabelPair_set_name :: "string \<Rightarrow> 'u PbLabelPair \<Rightarrow> 'u PbLabelPair" where
  "PbLabelPair_set_name v m = m\<lparr>plp_name := Some v\<rparr>"

definition PbLabelPair_mut_name ::
  "(string \<Rightarrow> string) \<Rightarrow> 'u PbLabelPair \<Rightarrow> 'u PbLabelPair" where
  "PbLabelPair_mut_name f m =
     m\<lparr>plp_name := Some (f (case plp_name m of Some v \<Rightarrow> v | None \<Rightarrow> []))\<rparr>"

definition PbLabelPair_take_name :: "'u PbLabelPair \<Rightarrow> string \<times> 'u PbLabelPair" where
  "PbLabelPair_take_name m =
     ((case plp_name m of Some v \<Rightarrow> v | None \<Rightarrow> []), m\<lparr>plp_name := None\<rparr>)"

definition PbLabelPair_get_name :: "'u PbLabelPair \<Rightarrow> string" where
  "PbLabelPair_get_name m = (case plp_name m of Some v \<Rightarrow> v | None \<Rightarrow> [])"

definition PbLabelPair_clear_value :: "'u PbLabelPair \<Rightarrow> 'u PbLabelPair" where
  "PbLabelPair_clear_value m = m\<lparr>plp_value := None\<rparr>"

definition PbLabelPair_has_value :: "'u PbLabelPair \<Rightarrow> bool" where
  "PbLabelPair_has_value m \<longleftrightarrow> plp_value m \<noteq> None"

definition PbLabelPair_set_value :: "string \<Rightarrow> 'u PbLabelPair \<Rightarrow> 'u PbLabelPair" where
  "PbLabelPair_set_value v m = m\<lparr>plp_value := Some v\<rparr>"

definition PbLabelPair_mut_value ::
  "(string \<Rightarrow> string) \<Rightarrow> 'u PbLabelPair \<Rightarrow> 'u PbLabelPair" where
  "PbLabelPair_mut_value f m =
     m\<lparr>plp_value := Some (f (case plp_value m of Some v \<Rightarrow> v | None \<Rightarrow> []))\<rparr>"

definition PbLabelPair_take_value :: "'u PbLabelPair \<Rightarrow> string \<times> 'u PbLabelPair" where
  "PbLabelPair_take_value m =
     ((case plp_value m of Some v \<Rightarrow> v | None \<Rightarrow> []), m\<lparr>plp_value := None\<rparr>)"

definition PbLabelPair_get_value :: "'u PbLabelPair \<Rightarrow> string" where
  "PbLabelPair_get_value m = (case plp_value m of Some v \<Rightarrow> v | None \<Rightarrow> [])"

definition PbLabelPair_clear :: "'u protobuf \<Rightarrow> 'u PbLabelPair \<Rightarrow> 'u PbLabelPair" where
  "PbLabelPair_clear R m =
     (let m = PbLabelPair_clear_value (PbLabelPair_clear_name m)
      in m\<lparr>plp_unknown_fields := unknown_fields_clear R (plp_unknown_fields m)\<rparr>)"

subsection \<open>\<open>Gauge\<close>\<close>

definition PbGauge_clear_value :: "'u PbGauge \<Rightarrow> 'u PbGauge" where
  "PbGauge_clear_value m = m\<lparr>pga_value := None\<rparr>"

definition PbGauge_has_value :: "'u PbGauge \<Rightarrow> bool" where
  "PbGauge_has_value m \<longleftrightarrow> pga_value m \<noteq> None"

definition PbGauge_set_value :: "u64 \<Rightarrow> 'u PbGauge \<Rightarrow> 'u PbGauge" where
  "PbGauge_set_value v m = m\<lparr>pga_value := Some v\<rparr>"

definition PbGauge_get_value :: "'u PbGauge \<Rightarrow> u64" where
  "PbGauge_get_value m = (case pga_value m of Some v \<Rightarrow> v | None \<Rightarrow> 0)"

definition PbGauge_clear :: "'u protobuf \<Rightarrow> 'u PbGauge \<Rightarrow> 'u PbGauge" where
  "PbGauge_clear R m =
     (let m = PbGauge_clear_value m
      in m\<lparr>pga_unknown_fields := unknown_fields_clear R (pga_unknown_fields m)\<rparr>)"

subsection \<open>\<open>Counter\<close>\<close>

definition PbCounter_clear_value :: "'u PbCounter \<Rightarrow> 'u PbCounter" where
  "PbCounter_clear_value m = m\<lparr>pco_value := None\<rparr>"

definition PbCounter_has_value :: "'u PbCounter \<Rightarrow> bool" where
  "PbCounter_has_value m \<longleftrightarrow> pco_value m \<noteq> None"

definition PbCounter_set_value :: "u64 \<Rightarrow> 'u PbCounter \<Rightarrow> 'u PbCounter" where
  "PbCounter_set_value v m = m\<lparr>pco_value := Some v\<rparr>"

definition PbCounter_get_value :: "'u PbCounter \<Rightarrow> u64" where
  "PbCounter_get_value m = (case pco_value m of Some v \<Rightarrow> v | None \<Rightarrow> 0)"

definition PbCounter_clear :: "'u protobuf \<Rightarrow> 'u PbCounter \<Rightarrow> 'u PbCounter" where
  "PbCounter_clear R m =
     (let m = PbCounter_clear_value m
      in m\<lparr>pco_unknown_fields := unknown_fields_clear R (pco_unknown_fields m)\<rparr>)"

subsection \<open>\<open>Quantile\<close>\<close>

definition PbQuantile_clear_quantile :: "'u PbQuantile \<Rightarrow> 'u PbQuantile" where
  "PbQuantile_clear_quantile m = m\<lparr>pqu_quantile := None\<rparr>"

definition PbQuantile_has_quantile :: "'u PbQuantile \<Rightarrow> bool" where
  "PbQuantile_has_quantile m \<longleftrightarrow> pqu_quantile m \<noteq> None"

definition PbQuantile_set_quantile :: "u64 \<Rightarrow> 'u PbQuantile \<Rightarrow> 'u PbQuantile" where
  "PbQuantile_set_quantile v m = m\<lparr>pqu_quantile := Some v\<rparr>"

definition PbQuantile_get_quantile :: "'u PbQuantile \<Rightarrow> u64" where
  "PbQuantile_get_quantile m = (case pqu_quantile m of Some v \<Rightarrow> v | None \<Rightarrow> 0)"

definition PbQuantile_clear_value :: "'u PbQuantile \<Rightarrow> 'u PbQuantile" where
  "PbQuantile_clear_value m = m\<lparr>pqu_value := None\<rparr>"

definition PbQuantile_has_value :: "'u PbQuantile \<Rightarrow> bool" where
  "PbQuantile_has_value m \<longleftrightarrow> pqu_value m \<noteq> None"

definition PbQuantile_set_value :: "u64 \<Rightarrow> 'u PbQuantile \<Rightarrow> 'u PbQuantile" where
  "PbQuantile_set_value v m = m\<lparr>pqu_value := Some v\<rparr>"

definition PbQuantile_get_value :: "'u PbQuantile \<Rightarrow> u64" where
  "PbQuantile_get_value m = (case pqu_value m of Some v \<Rightarrow> v | None \<Rightarrow> 0)"

definition PbQuantile_clear :: "'u protobuf \<Rightarrow> 'u PbQuantile \<Rightarrow> 'u PbQuantile" where
  "PbQuantile_clear R m =
     (let m = PbQuantile_clear_value (PbQuantile_clear_quantile m)
      in m\<lparr>pqu_unknown_fields := unknown_fields_clear R (pqu_unknown_fields m)\<rparr>)"

subsection \<open>\<open>Summary\<close>\<close>

definition PbSummary_clear_sample_count :: "'u PbSummary \<Rightarrow> 'u PbSummary" where
  "PbSummary_clear_sample_count m = m\<lparr>psu_sample_count := None\<rparr>"

definition PbSummary_has_sample_count :: "'u PbSummary \<Rightarrow> bool" where
  "PbSummary_has_sample_count m \<longleftrightarrow> psu_sample_count m \<noteq> None"

definition PbSummary_set_sample_count :: "u64 \<Rightarrow> 'u PbSummary \<Rightarrow> 'u PbSummary" where
  "PbSummary_set_sample_count v m = m\<lparr>psu_sample_count := Some v\<rparr>"

definition PbSummary_get_sample_count :: "'u PbSummary \<Rightarrow> u64" where
  "PbSummary_get_sample_count m = (case psu_sample_count m of Some v \<Rightarrow> v | None \<Rightarrow> 0)"

definition PbSummary_clear_sample_sum :: "'u PbSummary \<Rightarrow> 'u PbSummary" where
  "PbSummary_clear_sample_sum m = m\<lparr>psu_sample_sum := None\<rparr>"

definition PbSummary_has_sample_sum :: "'u PbSummary \<Rightarrow> bool" where
  "PbSummary_has_sample_sum m \<longleftrightarrow> psu_sample_sum m \<noteq> None"

definition PbSummary_set_sample_sum :: "u64 \<Rightarrow> 'u PbSummary \<Rightarrow> 'u PbSummary" where
  "PbSummary_set_sample_sum v m = m\<lparr>psu_sample_sum := Some v\<rparr>"

definition PbSummary_get_sample_sum :: "'u PbSummary \<Rightarrow> u64" where
  "PbSummary_get_sample_sum m = (case psu_sample_sum m of Some v \<Rightarrow> v | None \<Rightarrow> 0)"

definition PbSummary_clear_quantile :: "'u PbSummary \<Rightarrow> 'u PbSummary" where
  "PbSummary_clear_quantile m = m\<lparr>psu_quantile := []\<rparr>"

definition PbSummary_set_quantile ::
  "'u PbQuantile list \<Rightarrow> 'u PbSummary \<Rightarrow> 'u PbSummary" where
  "PbSummary_set_quantile v m = m\<lparr>psu_quantile := v\<rparr>"

definition PbSummary_mut_quantile ::
  "('u PbQuantile list \<Rightarrow> 'u PbQuantile list) \<Rightarrow> 'u PbSummary \<Rightarrow> 'u PbSummary" where
  "PbSummary_mut_quantile f m = m\<lparr>psu_quantile := f (psu_quantile m)\<rparr>"

definition PbSummary_take_quantile ::
  "'u PbSummary \<Rightarrow> 'u PbQuantile list \<times> 'u PbSummary" where
  "PbSummary_take_quantile m = (psu_quantile m, m\<lparr>psu_quantile := []\<rparr>)"

definition PbSummary_get_quantile :: "'u PbSummary \<Rightarrow> 'u PbQuantile list" where
  "PbSummary_get_quantile m = psu_quantile m"

definition PbSummary_clear :: "'u protobuf \<Rightarrow> 'u PbSummary \<Rightarrow> 'u PbSummary" where
  "PbSummary_clear R m =
     (let m = PbSummary_clear_quantile (PbSummary_clear_sample_sum (PbSummary_clear_sample_count m))
      in m\<lparr>psu_unknown_fields := unknown_fields_clear R (psu_unknown_fields m)\<rparr>)"

subsection \<open>\<open>Untyped\<close>\<close>

definition PbUntyped_clear_value :: "'u PbUntyped \<Rightarrow> 'u PbUntyped" where
  "PbUntyped_clear_value m = m\<lparr>pun_value := None\<rparr>"

definition PbUntyped_has_value :: "'u PbUntyped \<Rightarrow> bool" where
  "PbUntyped_has_value m \<longleftrightarrow> pun_value m \<noteq> None"

definition PbUntyped_set_value :: "u64 \<Rightarrow> 'u PbUntyped \<Rightarrow> 'u PbUntyped" where
  "PbUntyped_set_value v m = m\<lparr>pun_value := Some v\<rparr>"

definition PbUntyped_get_value :: "'u PbUntyped \<Rightarrow> u64" where
  "PbUntyped_get_value m = (case pun_value m of Some v \<Rightarrow> v | None \<Rightarrow> 0)"

definition PbUntyped_clear :: "'u protobuf \<Rightarrow> 'u PbUntyped \<Rightarrow> 'u PbUntyped" where
  "PbUntyped_clear R m =
     (let m = PbUntyped_clear_value m
      in m\<lparr>pun_unknown_fields := unknown_fields_clear R (pun_unknown_fields m)\<rparr>)"

subsection \<open>\<open>Bucket\<close>\<close>

definition PbBucket_clear_cumulative_count :: "'u PbBucket \<Rightarrow> 'u PbBucket" where
  "PbBucket_clear_cumulative_count m = m\<lparr>pbu_cumulative_count := None\<rparr>"

definition PbBucket_has_cumulative_count :: "'u PbBucket \<Rightarrow> bool" where
  "PbBucket_has_cumulative_count m \<longleftrightarrow> pbu_cumulative_count m \<noteq> None"

definition PbBucket_set_cumulative_count :: "u64 \<Rightarrow> 'u PbBucket \<Rightarrow> 'u PbBucket" where
  "PbBucket_set_cumulative_count v m = m\<lparr>pbu_cumulative_count := Some v\<rparr>"

definition PbBucket_get_cumulative_count :: "'u PbBucket \<Rightarrow> u64" where
  "PbBucket_get_cumulative_count m = (case pbu_cumulative_count m of Some v \<Rightarrow> v | None \<Rightarrow> 0)"

definition PbBucket_clear_upper_bound :: "'u PbBucket \<Rightarrow> 'u PbBucket" where
  "PbBucket_clear_upper_bound m = m\<lparr>pbu_upper_bound := None\<rparr>"

definition PbBucket_has_upper_bound :: "'u PbBucket \<Rightarrow> bool" where
  "PbBucket_has_upper_bound m \<longleftrightarrow> pbu_upper_bound m \<noteq> None"

definition PbBucket_set_upper_bound :: "u64 \<Rightarrow> 'u PbBucket \<Rightarrow> 'u PbBucket" where
  "PbBucket_set_upper_bound v m = m\<lparr>pbu_upper_bound := Some v\<rparr>"

definition PbBucket_get_upper_bound :: "'u PbBucket \<Rightarrow> u64" where
  "PbBucket_get_upper_bound m = (case pbu_upper_bound m of Some v \<Rightarrow> v | None \<Rightarrow> 0)"

definition PbBucket_clear :: "'u protobuf \<Rightarrow> 'u PbBucket \<Rightarrow> 'u PbBucket" where
  "PbBucket_clear R m =
     (let m = PbBucket_clear_upper_bound (PbBucket_clear_cumulative_count m)
      in m\<lparr>pbu_unknown_fields := unknown_fields_clear R (pbu_unknown_fields m)\<rparr>)"

subsection \<open>\<open>Histogram\<close>\<close>

definition PbHistogram_clear_sample_count :: "'u PbHistogram \<Rightarrow> 'u PbHistogram" where
  "PbHistogram_clear_sample_count m = m\<lparr>phi_sample_count := None\<rparr>"

definition PbHistogram_has_sample_count :: "'u PbHistogram \<Rightarrow> bool" where
  "PbHistogram_has_sample_count m \<longleftrightarrow> phi_sample_count m \<noteq> None"

definition PbHistogram_set_sample_count :: "u64 \<Rightarrow> 'u PbHistogram \<Rightarrow> 'u PbHistogram" where
  "PbHistogram_set_sample_count v m = m\<lparr>phi_sample_count := Some v\<rparr>"

definition PbHistogram_get_sample_count :: "'u PbHistogram \<Rightarrow> u64" where
  "PbHistogram_get_sample_count m = (case phi_sample_count m of Some v \<Rightarrow> v | None \<Rightarrow> 0)"

definition PbHistogram_clear_sample_sum :: "'u PbHistogram \<Rightarrow> 'u PbHistogram" where
  "PbHistogram_clear_sample_sum m = m\<lparr>phi_sample_sum := None\<rparr>"

definition PbHistogram_has_sample_sum :: "'u PbHistogram \<Rightarrow> bool" where
  "PbHistogram_has_sample_sum m \<longleftrightarrow> phi_sample_sum m \<noteq> None"

definition PbHistogram_set_sample_sum :: "u64 \<Rightarrow> 'u PbHistogram \<Rightarrow> 'u PbHistogram" where
  "PbHistogram_set_sample_sum v m = m\<lparr>phi_sample_sum := Some v\<rparr>"

definition PbHistogram_get_sample_sum :: "'u PbHistogram \<Rightarrow> u64" where
  "PbHistogram_get_sample_sum m = (case phi_sample_sum m of Some v \<Rightarrow> v | None \<Rightarrow> 0)"

definition PbHistogram_clear_bucket :: "'u PbHistogram \<Rightarrow> 'u PbHistogram" where
  "PbHistogram_clear_bucket m = m\<lparr>phi_bucket := []\<rparr>"

definition PbHistogram_set_bucket ::
  "'u PbBucket list \<Rightarrow> 'u PbHistogram \<Rightarrow> 'u PbHistogram" where
  "PbHistogram_set_bucket v m = m\<lparr>phi_bucket := v\<rparr>"

definition PbHistogram_mut_bucket ::
  "('u PbBucket list \<Rightarrow> 'u PbBucket list) \<Rightarrow> 'u PbHistogram \<Rightarrow> 'u PbHistogram" where
  "PbHistogram_mut_bucket f m = m\<lparr>phi_bucket := f (phi_bucket m)\<rparr>"

definition PbHistogram_take_bucket ::
  "'u PbHistogram \<Rightarrow> 'u PbBucket list \<times> 'u PbHistogram" where
  "PbHistogram_take_bucket m = (phi_bucket m, m\<lparr>phi_bucket := []\<rparr>)"

definition PbHistogram_get_bucket :: "'u PbHistogram \<Rightarrow> 'u PbBucket list" where
  "PbHistogram_get_bucket m = phi_bucket m"

definition PbHistogram_clear :: "'u protobuf \<Rightarrow> 'u PbHistogram \<Rightarrow> 'u PbHistogram" where
  "PbHistogram_clear R m =
     (let m = PbHistogram_clear_bucket (PbHistogram_clear_sample_sum (PbHistogram_clear_sample_count m))
      in m\<lparr>phi_unknown_fields := unknown_fields_clear R (phi_unknown_fields m)\<rparr>)"

subsection \<open>\<open>Metric\<close>\<close>

definition PbMetric_clear_label :: "'u PbMetric \<Rightarrow> 'u PbMetric" where
  "PbMetric_clear_label m = m\<lparr>pme_label := []\<rparr>"

definition PbMetric_set_label :: "'u PbLabelPair list \<Rightarrow> 'u PbMetric \<Rightarrow> 'u PbMetric" where
  "PbMetric_set_label v m = m\<lparr>pme_label := v\<rparr>"

definition PbMetric_mut_label ::
  "('u PbLabelPair list \<Rightarrow> 'u PbLabelPair list) \<Rightarrow> 'u PbMetric \<Rightarrow> 'u PbMetric" where
  "PbMetric_mut_label f m = m\<lparr>pme_label := f (pme_label m)\<rparr>"

definition PbMetric_take_label :: "'u PbMetric \<Rightarrow> 'u PbLabelPair list \<times> 'u PbMetric" where
  "PbMetric_take_label m = (pme_label m, m\<lparr>pme_label := []\<rparr>)"

definition PbMetric_get_label :: "'u PbMetric \<Rightarrow> 'u PbLabelPair list" where
  "PbMetric_get_label m = pme_label m"

definition PbMetric_clear_gauge :: "'u PbMetric \<Rightarrow> 'u PbMetric" where
  "PbMetric_clear_gauge m = m\<lparr>pme_gauge := None\<rparr>"

definition PbMetric_has_gauge :: "'u PbMetric \<Rightarrow> bool" where
  "PbMetric_has_gauge m \<longleftrightarrow> pme_gauge m \<noteq> None"

definition PbMetric_set_gauge :: "'u PbGauge \<Rightarrow> 'u PbMetric \<Rightarrow> 'u PbMetric" where
  "PbMetric_set_gauge v m = m\<lparr>pme_gauge := Some v\<rparr>"

definition PbMetric_mut_gauge ::
  "'u protobuf \<Rightarrow> ('u PbGauge \<Rightarrow> 'u PbGauge) \<Rightarrow> 'u PbMetric \<Rightarrow> 'u PbMetric" where
  "PbMetric_mut_gauge R f m =
     m\<lparr>pme_gauge := Some (f (case pme_gauge m of Some v \<Rightarrow> v | None \<Rightarrow> PbGauge_new R))\<rparr>"

definition PbMetric_take_gauge ::
  "'u protobuf \<Rightarrow> 'u PbMetric \<Rightarrow> 'u PbGauge \<times> 'u PbMetric" where
  "PbMetric_take_gauge R m =
     ((case pme_gauge m of Some v \<Rightarrow> v | None \<Rightarrow> PbGauge_new R), m\<lparr>pme_gauge := None\<rparr>)"

definition PbMetric_get_gauge :: "'u protobuf \<Rightarrow> 'u PbMetric \<Rightarrow> 'u PbGauge" where
  "PbMetric_get_gauge R m = (case pme_gauge m of Some v \<Rightarrow> v | None \<Rightarrow> PbGauge_new R)"

definition PbMetric_clear_counter :: "'u PbMetric \<Rightarrow> 'u PbMetric" where
  "PbMetric_clear_counter m = m\<lparr>pme_counter := None\<rparr>"

definition PbMetric_has_counter :: "'u PbMetric \<Rightarrow> bool" where
  "PbMetric_has_counter m \<longleftrightarrow> pme_counter m \<noteq> None"

definition PbMetric_set_counter :: "'u PbCounter \<Rightarrow> 'u PbMetric \<Rightarrow> 'u PbMetric" where
  "PbMetric_set_counter v m = m\<lparr>pme_counter := Some v\<rparr>"

definition PbMetric_mut_counter ::
  "'u protobuf \<Rightarrow> ('u PbCounter \<Rightarrow> 'u PbCounter) \<Rightarrow> 'u PbMetric \<Rightarrow> 'u PbMetric" where
  "PbMetric_mut_counter R f m =
     m\<lparr>pme_counter := Some (f (case pme_counter m of Some v \<Rightarrow> v | None \<Rightarrow> PbCounter_new R))\<rparr>"

definition PbMetric_take_counter ::
  "'u protobuf \<Rightarrow> 'u PbMetric \<Rightarrow> 'u PbCounter \<times> 'u PbMetric" where
  "PbMetric_take_counter R m =
     ((case pme_counter m of Some v \<Rightarrow> v | None \<Rightarrow> PbCounter_new R), m\<lparr>pme_counter := None\<rparr>)"

definition PbMetric_get_counter :: "'u protobuf \<Rightarrow> 'u PbMetric \<Rightarrow> 'u PbCounter" where
  "PbMetric_get_counter R m = (case pme_counter m of Some v \<Rightarrow> v | None \<Rightarrow> PbCounter_new R)"

definition PbMetric_clear_summary :: "'u PbMetric \<Rightarrow> 'u PbMetric" where
  "PbMetric_clear_summary m = m\<lparr>pme_summary := None\<rparr>"

definition PbMetric_has_summary :: "'u PbMetric \<Rightarrow> bool" where
  "PbMetric_has_summary m \<longleftrightarrow> pme_summary m \<noteq> None"

definition PbMetric_set_summary :: "'u PbSummary \<Rightarrow> 'u PbMetric \<Rightarrow> 'u PbMetric" where
  "PbMetric_set_summary v m = m\<lparr>pme_summary := Some v\<rparr>"

definition PbMetric_mut_summary ::
  "'u protobuf \<Rightarrow> ('u PbSummary \<Rightarrow> 'u PbSummary) \<Rightarrow> 'u PbMetric \<Rightarrow> 'u PbMetric" where
  "PbMetric_mut_summary R f m =
     m\<lparr>pme_summary := Some (f (case pme_summary m of Some v \<Rightarrow> v | None \<Rightarrow> PbSummary_new R))\<rparr>"

definition PbMetric_take_summary ::
  "'u protobuf \<Rightarrow> 'u PbMetric \<Rightarrow> 'u PbSummary \<times> 'u PbMetric" where
  "PbMetric_take_summary R m =
     ((case pme_summary m of Some v \<Rightarrow> v | None \<Rightarrow> PbSummary_new R), m\<lparr>pme_summary := None\<rparr>)"

definition PbMetric_get_summary :: "'u protobuf \<Rightarrow> 'u PbMetric \<Rightarrow> 'u PbSummary" where
  "PbMetric_get_summary R m = (case pme_summary m of Some v \<Rightarrow> v | None \<Rightarrow> PbSummary_new R)"

definition PbMetric_clear_untyped :: "'u PbMetric \<Rightarrow> 'u PbMetric" where
  "PbMetric_clear_untyped m = m\<lparr>pme_untyped := None\<rparr>"

definition PbMetric_has_untyped :: "'u PbMetric \<Rightarrow> bool" where
  "PbMetric_has_untyped m \<longleftrightarrow> pme_untyped m \<noteq> None"

definition PbMetric_set_untyped :: "'u PbUntyped \<Rightarrow> 'u PbMetric \<Rightarrow> 'u PbMetric" where
  "PbMetric_set_untyped v m = m\<lparr>pme_untyped := Some v\<rparr>"

definition PbMetric_mut_untyped ::
  "'u protobuf \<Rightarrow> ('u PbUntyped \<Rightarrow> 'u PbUntyped) \<Rightarrow> 'u PbMetric \<Rightarrow> 'u PbMetric" where
  "PbMetric_mut_untyped R f m =
     m\<lparr>pme_untyped := Some (f (case pme_untyped m of Some v \<Rightarrow> v | None \<Rightarrow> PbUntyped_new R))\<rparr>"

definition PbMetric_take_untyped ::
  "'u protobuf \<Rightarrow> 'u PbMetric \<Rightarrow> 'u PbUntyped \<times> 'u PbMetric" where
  "PbMetric_take_untyped R m =
     ((case pme_untyped m of Some v \<Rightarrow> v | None \<Rightarrow> PbUntyped_new R), m\<lparr>pme_untyped := None\<rparr>)"

definition PbMetric_get_untyped :: "'u protobuf \<Rightarrow> 'u PbMetric \<Rightarrow> 'u PbUntyped" where
  "PbMetric_get_untyped R m = (case pme_untyped m of Some v \<Rightarrow> v | None \<Rightarrow> PbUntyped_new R)"

definition PbMetric_clear_histogram :: "'u PbMetric \<Rightarrow> 'u PbMetric" where
  "PbMetric_clear_histogram m = m\<lparr>pme_histogram := None\<rparr>"

definition PbMetric_has_histogram :: "'u PbMetric \<Rightarrow> bool" where
  "PbMetric_has_histogram m \<longleftrightarrow> pme_histogram m \<noteq> None"

definition PbMetric_set_histogram :: "'u PbHistogram \<Rightarrow> 'u PbMetric \<Rightarrow> 'u PbMetric" where
  "PbMetric_set_histogram v m = m\<lparr>pme_histogram := Some v\<rparr>"

definition PbMetric_mut_histogram ::
  "'u protobuf \<Rightarrow> ('u PbHistogram \<Rightarrow> 'u PbHistogram) \<Rightarrow> 'u PbMetric \<Rightarrow> 'u PbMetric" where
  "PbMetric_mut_histogram R f m =
     m\<lparr>pme_histogram := Some (f (case pme_histogram m of Some v \<Rightarrow> v | None \<Rightarrow> PbHistogram_new R))\<rparr>"

definition PbMetric_take_histogram ::
  "'u protobuf \<Rightarrow> 'u PbMetric \<Rightarrow> 'u PbHistogram \<times> 'u PbMetric" where
  "PbMetric_take_histogram R m =
     ((case pme_histogram m of Some v \<Rightarrow> v | None \<Rightarrow> PbHistogram_new R), m\<lparr>pme_histogram := None\<rparr>)"

definition PbMetric_get_histogram :: "'u protobuf \<Rightarrow> 'u PbMetric \<Rightarrow> 'u PbHistogram" where
  "PbMetric_get_histogram R m = (case pme_histogram m of Some v \<Rightarrow> v | None \<Rightarrow> PbHistogram_new R)"

definition PbMetric_clear_timestamp_ms :: "'u PbMetric \<Rightarrow> 'u PbMetric" where
  "PbMetric_clear_timestamp_ms m = m\<lparr>pme_timestamp_ms := None\<rparr>"

definition PbMetric_has_timestamp_ms :: "'u PbMetric \<Rightarrow> bool" where
  "PbMetric_has_timestamp_ms m \<longleftrightarrow> pme_timestamp_ms m \<noteq> None"

definition PbMetric_set_timestamp_ms :: "i64 \<Rightarrow> 'u PbMetric \<Rightarrow> 'u PbMetric" where
  "PbMetric_set_timestamp_ms v m = m\<lparr>pme_timestamp_ms := Some v\<rparr>"

definition PbMetric_get_timestamp_ms :: "'u PbMetric \<Rightarrow> i64" where
  "PbMetric_get_timestamp_ms m = (case pme_timestamp_ms m of Some v \<Rightarrow> v | None \<Rightarrow> 0)"

definition PbMetric_clear :: "'u protobuf \<Rightarrow> 'u PbMetric \<Rightarrow> 'u PbMetric" where
  "PbMetric_clear R m =
     (let m = PbMetric_clear_timestamp_ms (PbMetric_clear_histogram (PbMetric_clear_untyped (PbMetric_clear_summary (PbMetric_clear_counter (PbMetric_clear_gauge (PbMetric_clear_label m))))))
      in m\<lparr>pme_unknown_fields := unknown_fields_clear R (pme_unknown_fields m)\<rparr>)"

subsection \<open>\<open>MetricFamily\<close>\<close>

definition PbMetricFamily_clear_name :: "'u PbMetricFamily \<Rightarrow> 'u PbMetricFamily" where
  "PbMetricFamily_clear_name m = m\<lparr>pmf_name := None\<rparr>"

definition PbMetricFamily_has_name :: "'u PbMetricFamily \<Rightarrow> bool" where
  "PbMetricFamily_has_name m \<longleftrightarrow> pmf_name m \<noteq> None"

definition PbMetricFamily_set_name ::
  "string \<Rightarrow> 'u PbMetricFamily \<Rightarrow> 'u PbMetricFamily" where
  "PbMetricFamily_set_name v m = m\<lparr>pmf_name := Some v\<rparr>"

definition PbMetricFamily_mut_name ::
  "(string \<Rightarrow> string) \<Rightarrow> 'u PbMetricFamily \<Rightarrow> 'u PbMetricFamily" where
  "PbMetricFamily_mut_name f m =
     m\<lparr>pmf_name := Some (f (case pmf_name m of Some v \<Rightarrow> v | None \<Rightarrow> []))\<rparr>"

definition PbMetricFamily_take_name :: "'u PbMetricFamily \<Rightarrow> string \<times> 'u PbMetricFamily" where
  "PbMetricFamily_take_name m =
     ((case pmf_name m of Some v \<Rightarrow> v | None \<Rightarrow> []), m\<lparr>pmf_name := None\<rparr>)"

definition PbMetricFamily_get_name :: "'u PbMetricFamily \<Rightarrow> string" where
  "PbMetricFamily_get_name m = (case pmf_name m of Some v \<Rightarrow> v | None \<Rightarrow> [])"

definition PbMetricFamily_clear_help :: "'u PbMetricFamily \<Rightarrow> 'u PbMetricFamily" where
  "PbMetricFamily_clear_help m = m\<lparr>pmf_help := None\<rparr>"

definition PbMetricFamily_has_help :: "'u PbMetricFamily \<Rightarrow> bool" where
  "PbMetricFamily_has_help m \<longleftrightarrow> pmf_help m \<noteq> None"

definition PbMetricFamily_set_help ::
  "string \<Rightarrow> 'u PbMetricFamily \<Rightarrow> 'u PbMetricFamily" where
  "PbMetricFamily_set_help v m = m\<lparr>pmf_help := Some v\<rparr>"

definition PbMetricFamily_mut_help ::
  "(string \<Rightarrow> string) \<Rightarrow> 'u PbMetricFamily \<Rightarrow> 'u PbMetricFamily" where
  "PbMetricFamily_mut_help f m =
     m\<lparr>pmf_help := Some (f (case pmf_help m of Some v \<Rightarrow> v | None \<Rightarrow> []))\<rparr>"

definition PbMetricFamily_take_help :: "'u PbMetricFamily \<Rightarrow> string \<times> 'u PbMetricFamily" where
  "PbMetricFamily_take_help m =
     ((case pmf_help m of Some v \<Rightarrow> v | None \<Rightarrow> []), m\<lparr>pmf_help := None\<rparr>)"

definition PbMetricFamily_get_help :: "'u PbMetricFamily \<Rightarrow> string" where
  "PbMetricFamily_get_help m = (case pmf_help m of Some v \<Rightarrow> v | None \<Rightarrow> [])"

definition PbMetricFamily_clear_field_type :: "'u PbMetricFamily \<Rightarrow> 'u PbMetricFamily" where
  "PbMetricFamily_clear_field_type m = m\<lparr>pmf_field_type := None\<rparr>"

definition PbMetricFamily_has_field_type :: "'u PbMetricFamily \<Rightarrow> bool" where
  "PbMetricFamily_has_field_type m \<longleftrightarrow> pmf_field_type m \<noteq> None"

definition PbMetricFamily_set_field_type ::
  "MetricType \<Rightarrow> 'u PbMetricFamily \<Rightarrow> 'u PbMetricFamily" where
  "PbMetricFamily_set_field_type v m = m\<lparr>pmf_field_type := Some v\<rparr>"

definition PbMetricFamily_get_field_type :: "'u PbMetricFamily \<Rightarrow> MetricType" where
  "PbMetricFamily_get_field_type m = (case pmf_field_type m of Some v \<Rightarrow> v | None \<Rightarrow> COUNTER)"

definition PbMetricFamily_clear_metric :: "'u PbMetricFamily \<Rightarrow> 'u PbMetricFamily" where
  "PbMetricFamily_clear_metric m = m\<lparr>pmf_metric := []\<rparr>"

definition PbMetricFamily_set_metric ::
  "'u PbMetric list \<Rightarrow> 'u PbMetricFamily \<Rightarrow> 'u PbMetricFamily" where
  "PbMetricFamily_set_metric v m = m\<lparr>pmf_metric := v\<rparr>"

definition PbMetricFamily_mut_metric ::
  "('u PbMetric list \<Rightarrow> 'u PbMetric list) \<Rightarrow> 'u PbMetricFamily \<Rightarrow> 'u PbMetricFamily" where
  "PbMetricFamily_mut_metric f m = m\<lparr>pmf_metric := f (pmf_metric m)\<rparr>"

definition PbMetricFamily_take_metric ::
  "'u PbMetricFamily \<Rightarrow> 'u PbMetric list \<times> 'u PbMetricFamily" where
  "PbMetricFamily_take_metric m = (pmf_metric m, m\<lparr>pmf_metric := []\<rparr>)"

definition PbMetricFamily_get_metric :: "'u PbMetricFamily \<Rightarrow> 'u PbMetric list" where
  "PbMetricFamily_get_metric m = pmf_metric m"

definition PbMetricFamily_clear ::
  "'u protobuf \<Rightarrow> 'u PbMetricFamily \<Rightarrow> 'u PbMetricFamily" where
  "PbMetricFamily_clear R m =
     (let m = PbMetricFamily_clear_metric (PbMetricFamily_clear_field_type (PbMetricFamily_clear_help (PbMetricFamily_clear_name m)))
      in m\<lparr>pmf_unknown_fields := unknown_fields_clear R (pmf_unknown_fields m)\<rparr>)"

end
