(* ===== verification/Pb_Codec.thy ===== *)
theory Pb_Codec
  imports Pb_Model
begin

text \<open>
  Writing and parsing the messages of the schema, as \<open>src/prometheus/proto/proto_model.rs\<close> has
  it: \<open>compute_size\<close> stores the size of a message and of each message in it, which
  \<open>write_to_with_cached_sizes\<close> then writes before each nested message; \<open>merge_from\<close> reads fields
  until the end of its stream. Sizes are \<open>u32\<close> and wrap (a build with overflow checks panics
  where they would). The encoder over them is \<open>src/prometheus/src/encoder/pb.rs\<close>.
\<close>

section \<open>The shapes of the generated code\<close>

text \<open>\<open>for value in &self.f { let len = value.compute_size(); my_size += 1 + .. + len; }\<close>\<close>

fun sum_sizes :: "'u protobuf \<Rightarrow> ('m \<Rightarrow> u32 \<times> 'm) \<Rightarrow> u32 \<Rightarrow> 'm list \<Rightarrow> u32 \<times> 'm list" where
  "sum_sizes R compute_size my_size [] = (my_size, [])"
| "sum_sizes R compute_size my_size (v # vs) =
     (let (len, v) = compute_size v;
          my_size = my_size + (1 + compute_raw_varint32_size R len + len);
          (my_size, vs) = sum_sizes R compute_size my_size vs
      in (my_size, v # vs))"

text \<open>\<open>if let Some(ref v) = self.f.as_ref() { .. }\<close> around the same body.\<close>

fun sum_size :: "'u protobuf \<Rightarrow> ('m \<Rightarrow> u32 \<times> 'm) \<Rightarrow> u32 \<Rightarrow> 'm option \<Rightarrow> u32 \<times> 'm option" where
  "sum_size R compute_size my_size None = (my_size, None)"
| "sum_size R compute_size my_size (Some v) =
     (let (len, v) = compute_size v in (my_size + (1 + compute_raw_varint32_size R len + len), Some v))"

text \<open>Statements one after the other, each with its question mark.\<close>

fun in_order :: "writer list \<Rightarrow> writer" where
  "in_order [] os = Inr os"
| "in_order (w # ws) os = bind_res (w os) (in_order ws)"

definition write_some :: "('a \<Rightarrow> writer) \<Rightarrow> 'a option \<Rightarrow> writer" where
  "write_some w v = (case v of Some v \<Rightarrow> w v | None \<Rightarrow> Inr)"

definition write_each :: "('a \<Rightarrow> writer) \<Rightarrow> 'a list \<Rightarrow> writer" where
  "write_each w vs = in_order (map w vs)"

text \<open>A nested message: its tag, its cached size and its bytes.\<close>

definition write_nested ::
  "'u protobuf \<Rightarrow> u32 \<Rightarrow> ('m \<Rightarrow> u32) \<Rightarrow> ('m \<Rightarrow> writer) \<Rightarrow> 'm \<Rightarrow> writer" where
  "write_nested R field_number get_cached_size write v =
     in_order
       [os_write_tag R field_number WireTypeLengthDelimited,
        os_write_raw_varint32 R (get_cached_size v),
        write v]"

text \<open>What a field's arm of \<open>merge_from\<close> does with the value it reads.\<close>

definition reads ::
  "('a \<Rightarrow> 'm) \<Rightarrow> ('a \<times> bytes) pb_result \<Rightarrow> 'm reading" where
  "reads put r = Some (bind_res r (\<lambda>(v, is). Inr (put v, is)))"

definition reads_message :: "('a \<Rightarrow> 'm) \<Rightarrow> 'a reading \<Rightarrow> 'm reading" where
  "reads_message put r = Option.bind r (reads put)"

text \<open>The loop of \<open>merge_from\<close>: \<open>while !is.eof()?\<close>.\<close>

partial_function (option) merge_loop ::
  "(bytes \<Rightarrow> bool pb_result) \<Rightarrow> (bytes \<Rightarrow> ((u32 \<times> WireType) \<times> bytes) pb_result)
    \<Rightarrow> (u32 \<Rightarrow> WireType \<Rightarrow> bytes \<Rightarrow> 'm \<Rightarrow> 'm reading) \<Rightarrow> bytes \<Rightarrow> 'm \<Rightarrow> 'm reading" where
  "merge_loop eof read_tag field is m =
     (case eof is of
        Inl e \<Rightarrow> Some (Inl e)
      | Inr end \<Rightarrow>
          if end then Some (Inr (m, is))
          else (case read_tag is of
                  Inl e \<Rightarrow> Some (Inl e)
                | Inr ((field_number, wire_type), is) \<Rightarrow>
                    Option.bind (field field_number wire_type is m) (\<lambda>r. case r of
                        Inl e \<Rightarrow> Some (Inl e)
                      | Inr (m, is) \<Rightarrow> merge_loop eof read_tag field is m)))"

section \<open>The messages\<close>

subsection \<open>\<open>LabelPair\<close>\<close>

definition PbLabelPair_compute_size ::
  "'u protobuf \<Rightarrow> 'u PbLabelPair \<Rightarrow> u32 \<times> 'u PbLabelPair" where
  "PbLabelPair_compute_size R m =
     (let my_size = 0;
          my_size = my_size + (case plp_name m of Some v \<Rightarrow> string_size R 1 v | None \<Rightarrow> 0);
          my_size = my_size + (case plp_value m of Some v \<Rightarrow> string_size R 2 v | None \<Rightarrow> 0);
          my_size = my_size + unknown_fields_size R (plp_unknown_fields m)
      in (my_size, m\<lparr>plp_cached_size := my_size\<rparr>))"

definition PbLabelPair_write_to_with_cached_sizes ::
  "'u protobuf \<Rightarrow> 'u PbLabelPair \<Rightarrow> writer" where
  "PbLabelPair_write_to_with_cached_sizes R m =
     in_order
       [write_some (os_write_string R 1) (plp_name m),
        write_some (os_write_string R 2) (plp_value m),
        os_write_unknown_fields R (plp_unknown_fields m)]"

definition PbLabelPair_field ::
  "'u protobuf \<Rightarrow> u32 \<Rightarrow> WireType \<Rightarrow> bytes \<Rightarrow> 'u PbLabelPair \<Rightarrow> 'u PbLabelPair reading" where
  "PbLabelPair_field R field_number wire_type is m =
    (if field_number = 1 then
       reads (\<lambda>v. m\<lparr>plp_name := v\<rparr>) (read_singular_string_into R wire_type is (plp_name m))
     else if field_number = 2 then
       reads (\<lambda>v. m\<lparr>plp_value := v\<rparr>) (read_singular_string_into R wire_type is (plp_value m))
     else reads (\<lambda>u. m\<lparr>plp_unknown_fields := u\<rparr>)
       (read_unknown_or_skip_group R field_number wire_type is (plp_unknown_fields m)))"

definition PbLabelPair_merge_from :: "'u protobuf \<Rightarrow> 'u PbLabelPair merger" where
  "PbLabelPair_merge_from R m is = merge_loop (is_eof R) (is_read_tag_unpack R) (PbLabelPair_field R) is m"

subsection \<open>\<open>Gauge\<close>\<close>

definition PbGauge_compute_size ::
  "'u protobuf \<Rightarrow> 'u PbGauge \<Rightarrow> u32 \<times> 'u PbGauge" where
  "PbGauge_compute_size R m =
     (let my_size = 0;
          my_size = my_size + (if pga_value m \<noteq> None then 9 else 0);
          my_size = my_size + unknown_fields_size R (pga_unknown_fields m)
      in (my_size, m\<lparr>pga_cached_size := my_size\<rparr>))"

definition PbGauge_write_to_with_cached_sizes ::
  "'u protobuf \<Rightarrow> 'u PbGauge \<Rightarrow> writer" where
  "PbGauge_write_to_with_cached_sizes R m =
     in_order
       [write_some (os_write_double R 1) (pga_value m),
        os_write_unknown_fields R (pga_unknown_fields m)]"

definition PbGauge_field ::
  "'u protobuf \<Rightarrow> u32 \<Rightarrow> WireType \<Rightarrow> bytes \<Rightarrow> 'u PbGauge \<Rightarrow> 'u PbGauge reading" where
  "PbGauge_field R field_number wire_type is m =
    (if field_number = 1 then
       if wire_type \<noteq> WireTypeFixed64 then Some (Inl (UnexpectedWireType wire_type))
       else reads (\<lambda>tmp. m\<lparr>pga_value := Some tmp\<rparr>) (is_read_double R is)
     else reads (\<lambda>u. m\<lparr>pga_unknown_fields := u\<rparr>)
       (read_unknown_or_skip_group R field_number wire_type is (pga_unknown_fields m)))"

definition PbGauge_merge_from :: "'u protobuf \<Rightarrow> 'u PbGauge merger" where
  "PbGauge_merge_from R m is = merge_loop (is_eof R) (is_read_tag_unpack R) (PbGauge_field R) is m"

subsection \<open>\<open>Counter\<close>\<close>

definition PbCounter_compute_size ::
  "'u protobuf \<Rightarrow> 'u PbCounter \<Rightarrow> u32 \<times> 'u PbCounter" where
  "PbCounter_compute_size R m =
     (let my_size = 0;
          my_size = my_size + (if pco_value m \<noteq> None then 9 else 0);
          my_size = my_size + unknown_fields_size R (pco_unknown_fields m)
      in (my_size, m\<lparr>pco_cached_size := my_size\<rparr>))"

definition PbCounter_write_to_with_cached_sizes ::
  "'u protobuf \<Rightarrow> 'u PbCounter \<Rightarrow> writer" where
  "PbCounter_write_to_with_cached_sizes R m =
     in_order
       [write_some (os_write_double R 1) (pco_value m),
        os_write_unknown_fields R (pco_unknown_fields m)]"

definition PbCounter_field ::
  "'u protobuf \<Rightarrow> u32 \<Rightarrow> WireType \<Rightarrow> bytes \<Rightarrow> 'u PbCounter \<Rightarrow> 'u PbCounter reading" where
  "PbCounter_field R field_number wire_type is m =
    (if field_number = 1 then
       if wire_type \<noteq> WireTypeFixed64 then Some (Inl (UnexpectedWireType wire_type))
       else reads (\<lambda>tmp. m\<lparr>pco_value := Some tmp\<rparr>) (is_read_double R is)
     else reads (\<lambda>u. m\<lparr>pco_unknown_fields := u\<rparr>)
       (read_unknown_or_skip_group R field_number wire_type is (pco_unknown_fields m)))"

definition PbCounter_merge_from :: "'u protobuf \<Rightarrow> 'u PbCounter merger" where
  "PbCounter_merge_from R m is = merge_loop (is_eof R) (is_read_tag_unpack R) (PbCounter_field R) is m"

subsection \<open>\<open>Quantile\<close>\<close>

definition PbQuantile_compute_size ::
  "'u protobuf \<Rightarrow> 'u PbQuantile \<Rightarrow> u32 \<times> 'u PbQuantile" where
  "PbQuantile_compute_size R m =
     (let my_size = 0;
          my_size = my_size + (if pqu_quantile m \<noteq> None then 9 else 0);
          my_size = my_size + (if pqu_value m \<noteq> None then 9 else 0);
          my_size = my_size + unknown_fields_size R (pqu_unknown_fields m)
      in (my_size, m\<lparr>pqu_cached_size := my_size\<rparr>))"

definition PbQuantile_write_to_with_cached_sizes ::
  "'u protobuf \<Rightarrow> 'u PbQuantile \<Rightarrow> writer" where
  "PbQuantile_write_to_with_cached_sizes R m =
     in_order
       [write_some (os_write_double R 1) (pqu_quantile m),
        write_some (os_write_double R 2) (pqu_value m),
        os_write_unknown_fields R (pqu_unknown_fields m)]"

definition PbQuantile_field ::
  "'u protobuf \<Rightarrow> u32 \<Rightarrow> WireType \<Rightarrow> bytes \<Rightarrow> 'u PbQuantile \<Rightarrow> 'u PbQuantile reading" where
  "PbQuantile_field R field_number wire_type is m =
    (if field_number = 1 then
       if wire_type \<noteq> WireTypeFixed64 then Some (Inl (UnexpectedWireType wire_type))
       else reads (\<lambda>tmp. m\<lparr>pqu_quantile := Some tmp\<rparr>) (is_read_double R is)
     else if field_number = 2 then
       if wire_type \<noteq> WireTypeFixed64 then Some (Inl (UnexpectedWireType wire_type))
       else reads (\<lambda>tmp. m\<lparr>pqu_value := Some tmp\<rparr>) (is_read_double R is)
     else reads (\<lambda>u. m\<lparr>pqu_unknown_fields := u\<rparr>)
       (read_unknown_or_skip_group R field_number wire_type is (pqu_unknown_fields m)))"

definition PbQuantile_merge_from :: "'u protobuf \<Rightarrow> 'u PbQuantile merger" where
  "PbQuantile_merge_from R m is = merge_loop (is_eof R) (is_read_tag_unpack R) (PbQuantile_field R) is m"

subsection \<open>\<open>Summary\<close>\<close>

definition PbSummary_compute_size ::
  "'u protobuf \<Rightarrow> 'u PbSummary \<Rightarrow> u32 \<times> 'u PbSummary" where
  "PbSummary_compute_size R m =
     (let my_size = 0;
          my_size = my_size + (case psu_sample_count m of Some v \<Rightarrow> value_size R 1 v WireTypeVarint | None \<Rightarrow> 0);
          my_size = my_size + (if psu_sample_sum m \<noteq> None then 9 else 0);
          (my_size, quantile) = sum_sizes R (PbQuantile_compute_size R) my_size (psu_quantile m);
          my_size = my_size + unknown_fields_size R (psu_unknown_fields m)
      in (my_size, m\<lparr>psu_quantile := quantile, psu_cached_size := my_size\<rparr>))"

definition PbSummary_write_to_with_cached_sizes ::
  "'u protobuf \<Rightarrow> 'u PbSummary \<Rightarrow> writer" where
  "PbSummary_write_to_with_cached_sizes R m =
     in_order
       [write_some (os_write_uint64 R 1) (psu_sample_count m),
        write_some (os_write_double R 2) (psu_sample_sum m),
        write_each (write_nested R 3 pqu_cached_size (PbQuantile_write_to_with_cached_sizes R)) (psu_quantile m),
        os_write_unknown_fields R (psu_unknown_fields m)]"

definition PbSummary_field ::
  "'u protobuf \<Rightarrow> u32 \<Rightarrow> WireType \<Rightarrow> bytes \<Rightarrow> 'u PbSummary \<Rightarrow> 'u PbSummary reading" where
  "PbSummary_field R field_number wire_type is m =
    (if field_number = 1 then
       if wire_type \<noteq> WireTypeVarint then Some (Inl (UnexpectedWireType wire_type))
       else reads (\<lambda>tmp. m\<lparr>psu_sample_count := Some tmp\<rparr>) (is_read_uint64 R is)
     else if field_number = 2 then
       if wire_type \<noteq> WireTypeFixed64 then Some (Inl (UnexpectedWireType wire_type))
       else reads (\<lambda>tmp. m\<lparr>psu_sample_sum := Some tmp\<rparr>) (is_read_double R is)
     else if field_number = 3 then
       reads_message (\<lambda>v. m\<lparr>psu_quantile := v\<rparr>)
         (read_repeated_Quantile_into R (PbQuantile_merge_from R) (PbQuantile_new R) wire_type is (psu_quantile m))
     else reads (\<lambda>u. m\<lparr>psu_unknown_fields := u\<rparr>)
       (read_unknown_or_skip_group R field_number wire_type is (psu_unknown_fields m)))"

definition PbSummary_merge_from :: "'u protobuf \<Rightarrow> 'u PbSummary merger" where
  "PbSummary_merge_from R m is = merge_loop (is_eof R) (is_read_tag_unpack R) (PbSummary_field R) is m"

subsection \<open>\<open>Untyped\<close>\<close>

definition PbUntyped_compute_size ::
  "'u protobuf \<Rightarrow> 'u PbUntyped \<Rightarrow> u32 \<times> 'u PbUntyped" where
  "PbUntyped_compute_size R m =
     (let my_size = 0;
          my_size = my_size + (if pun_value m \<noteq> None then 9 else 0);
          my_size = my_size + unknown_fields_size R (pun_unknown_fields m)
      in (my_size, m\<lparr>pun_cached_size := my_size\<rparr>))"

definition PbUntyped_write_to_with_cached_sizes ::
  "'u protobuf \<Rightarrow> 'u PbUntyped \<Rightarrow> writer" where
  "PbUntyped_write_to_with_cached_sizes R m =
     in_order
       [write_some (os_write_double R 1) (pun_value m),
        os_write_unknown_fields R (pun_unknown_fields m)]"

definition PbUntyped_field ::
  "'u protobuf \<Rightarrow> u32 \<Rightarrow> WireType \<Rightarrow> bytes \<Rightarrow> 'u PbUntyped \<Rightarrow> 'u PbUntyped reading" where
  "PbUntyped_field R field_number wire_type is m =
    (if field_number = 1 then
       if wire_type \<noteq> WireTypeFixed64 then Some (Inl (UnexpectedWireType wire_type))
       else reads (\<lambda>tmp. m\<lparr>pun_value := Some tmp\<rparr>) (is_read_double R is)
     else reads (\<lambda>u. m\<lparr>pun_unknown_fields := u\<rparr>)
       (read_unknown_or_skip_group R field_number wire_type is (pun_unknown_fields m)))"

definition PbUntyped_merge_from :: "'u protobuf \<Rightarrow> 'u PbUntyped merger" where
  "PbUntyped_merge_from R m is = merge_loop (is_eof R) (is_read_tag_unpack R) (PbUntyped_field R) is m"

subsection \<open>\<open>Bucket\<close>\<close>

definition PbBucket_compute_size ::
  "'u protobuf \<Rightarrow> 'u PbBucket \<Rightarrow> u32 \<times> 'u PbBucket" where
  "PbBucket_compute_size R m =
     (let my_size = 0;
          my_size = my_size + (case pbu_cumulative_count m of Some v \<Rightarrow> value_size R 1 v WireTypeVarint | None \<Rightarrow> 0);
          my_size = my_size + (if pbu_upper_bound m \<noteq> None then 9 else 0);
          my_size = my_size + unknown_fields_size R (pbu_unknown_fields m)
      in (my_size, m\<lparr>pbu_cached_size := my_size\<rparr>))"

definition PbBucket_write_to_with_cached_sizes ::
  "'u protobuf \<Rightarrow> 'u PbBucket \<Rightarrow> writer" where
  "PbBucket_write_to_with_cached_sizes R m =
     in_order
       [write_some (os_write_uint64 R 1) (pbu_cumulative_count m),
        write_some (os_write_double R 2) (pbu_upper_bound m),
        os_write_unknown_fields R (pbu_unknown_fields m)]"

definition PbBucket_field ::
  "'u protobuf \<Rightarrow> u32 \<Rightarrow> WireType \<Rightarrow> bytes \<Rightarrow> 'u PbBucket \<Rightarrow> 'u PbBucket reading" where
  "PbBucket_field R field_number wire_type is m =
    (if field_number = 1 then
       if wire_type \<noteq> WireTypeVarint then Some (Inl (UnexpectedWireType wire_type))
       else reads (\<lambda>tmp. m\<lparr>pbu_cumulative_count := Some tmp\<rparr>) (is_read_uint64 R is)
     else if field_number = 2 then
       if wire_type \<noteq> WireTypeFixed64 then Some (Inl (UnexpectedWireType wire_type))
       else reads (\<lambda>tmp. m\<lparr>pbu_upper_bound := Some tmp\<rparr>) (is_read_double R is)
     else reads (\<lambda>u. m\<lparr>pbu_unknown_fields := u\<rparr>)
       (read_unknown_or_skip_group R field_number wire_type is (pbu_unknown_fields m)))"

definition PbBucket_merge_from :: "'u protobuf \<Rightarrow> 'u PbBucket merger" where
  "PbBucket_merge_from R m is = merge_loop (is_eof R) (is_read_tag_unpack R) (PbBucket_field R) is m"

subsection \<open>\<open>Histogram\<close>\<close>

definition PbHistogram_compute_size ::
  "'u protobuf \<Rightarrow> 'u PbHistogram \<Rightarrow> u32 \<times> 'u PbHistogram" where
  "PbHistogram_compute_size R m =
     (let my_size = 0;
          my_size = my_size + (case phi_sample_count m of Some v \<Rightarrow> value_size R 1 v WireTypeVarint | None \<Rightarrow> 0);
          my_size = my_size + (if phi_sample_sum m \<noteq> None then 9 else 0);
          (my_size, bucket) = sum_sizes R (PbBucket_compute_size R) my_size (phi_bucket m);
          my_size = my_size + unknown_fields_size R (phi_unknown_fields m)
      in (my_size, m\<lparr>phi_bucket := bucket, phi_cached_size := my_size\<rparr>))"

definition PbHistogram_write_to_with_cached_sizes ::
  "'u protobuf \<Rightarrow> 'u PbHistogram \<Rightarrow> writer" where
  "PbHistogram_write_to_with_cached_sizes R m =
     in_order
       [write_some (os_write_uint64 R 1) (phi_sample_count m),
        write_some (os_write_double R 2) (phi_sample_sum m),
        write_each (write_nested R 3 pbu_cached_size (PbBucket_write_to_with_cached_sizes R)) (phi_bucket m),
        os_write_unknown_fields R (phi_unknown_fields m)]"

definition PbHistogram_field ::
  "'u protobuf \<Rightarrow> u32 \<Rightarrow> WireType \<Rightarrow> bytes \<Rightarrow> 'u PbHistogram \<Rightarrow> 'u PbHistogram reading" where
  "PbHistogram_field R field_number wire_type is m =
    (if field_number = 1 then
       if wire_type \<noteq> WireTypeVarint then Some (Inl (UnexpectedWireType wire_type))
       else reads (\<lambda>tmp. m\<lparr>phi_sample_count := Some tmp\<rparr>) (is_read_uint64 R is)
     else if field_number = 2 then
       if wire_type \<noteq> WireTypeFixed64 then Some (Inl (UnexpectedWireType wire_type))
       else reads (\<lambda>tmp. m\<lparr>phi_sample_sum := Some tmp\<rparr>) (is_read_double R is)
     else if field_number = 3 then
       reads_message (\<lambda>v. m\<lparr>phi_bucket := v\<rparr>)
         (read_repeated_Bucket_into R (PbBucket_merge_from R) (PbBucket_new R) wire_type is (phi_bucket m))
     else reads (\<lambda>u. m\<lparr>phi_unknown_fields := u\<rparr>)
       (read_unknown_or_skip_group R field_number wire_type is (phi_unknown_fields m)))"

definition PbHistogram_merge_from :: "'u protobuf \<Rightarrow> 'u PbHistogram merger" where
  "PbHistogram_merge_from R m is = merge_loop (is_eof R) (is_read_tag_unpack R) (PbHistogram_field R) is m"

subsection \<open>\<open>Metric\<close>\<close>

definition PbMetric_compute_size ::
  "'u protobuf \<Rightarrow> 'u PbMetric \<Rightarrow> u32 \<times> 'u PbMetric" where
  "PbMetric_compute_size R m =
     (let my_size = 0;
          (my_size, label) = sum_sizes R (PbLabelPair_compute_size R) my_size (pme_label m);
          (my_size, gauge) = sum_size R (PbGauge_compute_size R) my_size (pme_gauge m);
          (my_size, counter) = sum_size R (PbCounter_compute_size R) my_size (pme_counter m);
          (my_size, summary) = sum_size R (PbSummary_compute_size R) my_size (pme_summary m);
          (my_size, untyped) = sum_size R (PbUntyped_compute_size R) my_size (pme_untyped m);
          (my_size, histogram) = sum_size R (PbHistogram_compute_size R) my_size (pme_histogram m);
          my_size = my_size + (case pme_timestamp_ms m of Some v \<Rightarrow> value_size R 6 v WireTypeVarint | None \<Rightarrow> 0);
          my_size = my_size + unknown_fields_size R (pme_unknown_fields m)
      in (my_size, m\<lparr>pme_label := label, pme_gauge := gauge, pme_counter := counter,
                          pme_summary := summary, pme_untyped := untyped, pme_histogram := histogram, pme_cached_size := my_size\<rparr>))"

definition PbMetric_write_to_with_cached_sizes ::
  "'u protobuf \<Rightarrow> 'u PbMetric \<Rightarrow> writer" where
  "PbMetric_write_to_with_cached_sizes R m =
     in_order
       [write_each (write_nested R 1 plp_cached_size (PbLabelPair_write_to_with_cached_sizes R)) (pme_label m),
        write_some (write_nested R 2 pga_cached_size (PbGauge_write_to_with_cached_sizes R)) (pme_gauge m),
        write_some (write_nested R 3 pco_cached_size (PbCounter_write_to_with_cached_sizes R)) (pme_counter m),
        write_some (write_nested R 4 psu_cached_size (PbSummary_write_to_with_cached_sizes R)) (pme_summary m),
        write_some (write_nested R 5 pun_cached_size (PbUntyped_write_to_with_cached_sizes R)) (pme_untyped m),
        write_some (write_nested R 7 phi_cached_size (PbHistogram_write_to_with_cached_sizes R)) (pme_histogram m),
        write_some (os_write_int64 R 6) (pme_timestamp_ms m),
        os_write_unknown_fields R (pme_unknown_fields m)]"

definition PbMetric_field ::
  "'u protobuf \<Rightarrow> u32 \<Rightarrow> WireType \<Rightarrow> bytes \<Rightarrow> 'u PbMetric \<Rightarrow> 'u PbMetric reading" where
  "PbMetric_field R field_number wire_type is m =
    (if field_number = 1 then
       reads_message (\<lambda>v. m\<lparr>pme_label := v\<rparr>)
         (read_repeated_LabelPair_into R (PbLabelPair_merge_from R) (PbLabelPair_new R) wire_type is (pme_label m))
     else if field_number = 2 then
       reads_message (\<lambda>v. m\<lparr>pme_gauge := v\<rparr>)
         (read_singular_Gauge_into R (PbGauge_merge_from R) (PbGauge_new R) wire_type is (pme_gauge m))
     else if field_number = 3 then
       reads_message (\<lambda>v. m\<lparr>pme_counter := v\<rparr>)
         (read_singular_Counter_into R (PbCounter_merge_from R) (PbCounter_new R) wire_type is (pme_counter m))
     else if field_number = 4 then
       reads_message (\<lambda>v. m\<lparr>pme_summary := v\<rparr>)
         (read_singular_Summary_into R (PbSummary_merge_from R) (PbSummary_new R) wire_type is (pme_summary m))
     else if field_number = 5 then
       reads_message (\<lambda>v. m\<lparr>pme_untyped := v\<rparr>)
         (read_singular_Untyped_into R (PbUntyped_merge_from R) (PbUntyped_new R) wire_type is (pme_untyped m))
     else if field_number = 7 then
       reads_message (\<lambda>v. m\<lparr>pme_histogram := v\<rparr>)
         (read_singular_Histogram_into R (PbHistogram_merge_from R) (PbHistogram_new R) wire_type is (pme_histogram m))
     else if field_number = 6 then
       if wire_type \<noteq> WireTypeVarint then Some (Inl (UnexpectedWireType wire_type))
       else reads (\<lambda>tmp. m\<lparr>pme_timestamp_ms := Some tmp\<rparr>) (is_read_int64 R is)
     else reads (\<lambda>u. m\<lparr>pme_unknown_fields := u\<rparr>)
       (read_unknown_or_skip_group R field_number wire_type is (pme_unknown_fields m)))"

definition PbMetric_merge_from :: "'u protobuf \<Rightarrow> 'u PbMetric merger" where
  "PbMetric_merge_from R m is = merge_loop (is_eof R) (is_read_tag_unpack R) (PbMetric_field R) is m"

subsection \<open>\<open>MetricFamily\<close>\<close>

definition PbMetricFamily_compute_size ::
  "'u protobuf \<Rightarrow> 'u PbMetricFamily \<Rightarrow> u32 \<times> 'u PbMetricFamily" where
  "PbMetricFamily_compute_size R m =
     (let my_size = 0;
          my_size = my_size + (case pmf_name m of Some v \<Rightarrow> string_size R 1 v | None \<Rightarrow> 0);
          my_size = my_size + (case pmf_help m of Some v \<Rightarrow> string_size R 2 v | None \<Rightarrow> 0);
          my_size = my_size + (case pmf_field_type m of Some v \<Rightarrow> enum_size R 3 v | None \<Rightarrow> 0);
          (my_size, metric) = sum_sizes R (PbMetric_compute_size R) my_size (pmf_metric m);
          my_size = my_size + unknown_fields_size R (pmf_unknown_fields m)
      in (my_size, m\<lparr>pmf_metric := metric, pmf_cached_size := my_size\<rparr>))"

definition PbMetricFamily_write_to_with_cached_sizes ::
  "'u protobuf \<Rightarrow> 'u PbMetricFamily \<Rightarrow> writer" where
  "PbMetricFamily_write_to_with_cached_sizes R m =
     in_order
       [write_some (os_write_string R 1) (pmf_name m),
        write_some (os_write_string R 2) (pmf_help m),
        write_some (\<lambda>v. os_write_enum R 3 (MetricType_value v)) (pmf_field_type m),
        write_each (write_nested R 4 pme_cached_size (PbMetric_write_to_with_cached_sizes R)) (pmf_metric m),
        os_write_unknown_fields R (pmf_unknown_fields m)]"

definition PbMetricFamily_field ::
  "'u protobuf \<Rightarrow> u32 \<Rightarrow> WireType \<Rightarrow> bytes \<Rightarrow> 'u PbMetricFamily \<Rightarrow> 'u PbMetricFamily reading" where
  "PbMetricFamily_field R field_number wire_type is m =
    (if field_number = 1 then
       reads (\<lambda>v. m\<lparr>pmf_name := v\<rparr>) (read_singular_string_into R wire_type is (pmf_name m))
     else if field_number = 2 then
       reads (\<lambda>v. m\<lparr>pmf_help := v\<rparr>) (read_singular_string_into R wire_type is (pmf_help m))
     else if field_number = 3 then
       reads (\<lambda>(v, u). m\<lparr>pmf_field_type := v, pmf_unknown_fields := u\<rparr>)
         (read_proto2_enum_with_unknown_fields_into R MetricType_from_i32 wire_type is (pmf_field_type m) 3
           (pmf_unknown_fields m))
     else if field_number = 4 then
       reads_message (\<lambda>v. m\<lparr>pmf_metric := v\<rparr>)
         (read_repeated_Metric_into R (PbMetric_merge_from R) (PbMetric_new R) wire_type is (pmf_metric m))
     else reads (\<lambda>u. m\<lparr>pmf_unknown_fields := u\<rparr>)
       (read_unknown_or_skip_group R field_number wire_type is (pmf_unknown_fields m)))"

definition PbMetricFamily_merge_from :: "'u protobuf \<Rightarrow> 'u PbMetricFamily merger" where
  "PbMetricFamily_merge_from R m is = merge_loop (is_eof R) (is_read_tag_unpack R) (PbMetricFamily_field R) is m"

section \<open>The encoder\<close>

definition pb_check_metric_family ::
  "('u PbMetricFamily \<Rightarrow> string) \<Rightarrow> 'u PbMetricFamily \<Rightarrow> PromError + unit" where
  "pb_check_metric_family dbg mf =
     (if PbMetricFamily_get_metric mf = [] then Inl (Msg (''MetricFamily has no metrics: '' @ dbg mf))
      else if PbMetricFamily_get_name mf = [] then Inl (Msg (''MetricFamily has no name: '' @ dbg mf))
      else Inr ())"

text \<open>
  \<open>ProtobufEncoder::encode\<close>: the families in turn, up to the first error, with what has been
  written by then. \<open>show_err\<close> prints an error of the crate, which \<open>errors.rs\<close> wraps.
\<close>

fun ProtobufEncoder_encode ::
  "'u protobuf \<Rightarrow> ('u PbMetricFamily \<Rightarrow> string) \<Rightarrow> (pb_error \<Rightarrow> string) \<Rightarrow> 'u PbMetricFamily list \<Rightarrow> bytes
    \<Rightarrow> (PromError + unit) \<times> bytes" where
  "ProtobufEncoder_encode R dbg show_err [] out = (Inr (), out)"
| "ProtobufEncoder_encode R dbg show_err (mf # metric_families) out =
     (case pb_check_metric_family dbg mf of
        Inl e \<Rightarrow> (Inl e, out)
      | Inr _ \<Rightarrow>
          (case write_length_delimited_to_writer R (PbMetricFamily_compute_size R)
                  (PbMetricFamily_write_to_with_cached_sizes R) mf out of
             Inl e \<Rightarrow> (Inl (PromProtobuf (show_err e)), out)
           | Inr out \<Rightarrow> ProtobufEncoder_encode R dbg show_err metric_families out))"

end
