(* ===== verification/Pb_Wire.thy ===== *)
theory Pb_Wire
  imports Pb_Codec
begin

text \<open>
  The encoding the protobuf documentation prescribes (base-128 varints, tags, little-endian
  64-bit values, length-delimited fields) as functions to byte lists, the laws a correct runtime
  obeys with respect to it (the locales \<open>protobuf_runtime\<close> and \<open>protobuf_progress\<close>), and the
  facts on the shapes of the generated code that follow. \<open>wire_runtime\<close> is a runtime that obeys
  the laws.
\<close>

section \<open>The encoding\<close>

fun varint :: "nat \<Rightarrow> bytes" where
  "varint n =
     (if n < 128 then [word_of_nat n] else word_of_nat (128 + n mod 128) # varint (n div 128))"

declare varint.simps [simp del]

fun wire_type_code :: "WireType \<Rightarrow> nat" where
  "wire_type_code WireTypeVarint = 0"
| "wire_type_code WireTypeFixed64 = 1"
| "wire_type_code WireTypeLengthDelimited = 2"
| "wire_type_code WireTypeStartGroup = 3"
| "wire_type_code WireTypeEndGroup = 4"
| "wire_type_code WireTypeFixed32 = 5"

definition wire_tag :: "u32 \<Rightarrow> WireType \<Rightarrow> bytes" where
  "wire_tag field_number wire_type = varint (unat field_number * 8 + wire_type_code wire_type)"

definition valid_field_number :: "u32 \<Rightarrow> bool" where
  "valid_field_number n \<longleftrightarrow> 0 < unat n \<and> unat n < 2 ^ 29"

fun le_bytes :: "nat \<Rightarrow> nat \<Rightarrow> bytes" where
  "le_bytes 0 n = []"
| "le_bytes (Suc k) n = word_of_nat (n mod 256) # le_bytes k (n div 256)"

text \<open>Fields of the types the schema has.\<close>

definition wire_string :: "u32 \<Rightarrow> string \<Rightarrow> bytes" where
  "wire_string n s = wire_tag n WireTypeLengthDelimited @ varint (length s) @ as_bytes s"

definition wire_double :: "u32 \<Rightarrow> u64 \<Rightarrow> bytes" where
  "wire_double n v = wire_tag n WireTypeFixed64 @ le_bytes 8 (unat v)"

definition wire_varint64 :: "u32 \<Rightarrow> u64 \<Rightarrow> bytes" where
  "wire_varint64 n v = wire_tag n WireTypeVarint @ varint (unat v)"

text \<open>An enum is an \<open>int32\<close>, which is sign-extended to 64 bits.\<close>

definition wire_enum :: "u32 \<Rightarrow> MetricType \<Rightarrow> bytes" where
  "wire_enum n t = wire_varint64 n (scast (MetricType_value t))"

definition wire_message :: "u32 \<Rightarrow> bytes \<Rightarrow> bytes" where
  "wire_message n p = wire_tag n WireTypeLengthDelimited @ varint (length p) @ p"

definition wire_some :: "('a \<Rightarrow> bytes) \<Rightarrow> 'a option \<Rightarrow> bytes" where
  "wire_some f v = (case v of Some x \<Rightarrow> f x | None \<Rightarrow> [])"

definition wire_each :: "('a \<Rightarrow> bytes) \<Rightarrow> 'a list \<Rightarrow> bytes" where
  "wire_each f vs = concat (map f vs)"

lemma wire_some_simps [simp]: "wire_some f None = []" "wire_some f (Some x) = f x"
  by (simp_all add: wire_some_def)

lemma wire_each_simps [simp]:
  "wire_each f [] = []"
  "wire_each f (v # vs) = f v @ wire_each f vs"
  by (simp_all add: wire_each_def)

lemma length_as_bytes [simp]: "length (as_bytes s) = length s"
  by (simp add: as_bytes_def)

lemma length_le_bytes [simp]: "length (le_bytes k n) = k"
  by (induction k arbitrary: n) simp_all

text \<open>For evaluation.\<close>

lemma varint_small: "n < 128 \<Longrightarrow> varint n = [word_of_nat n]"
  by (subst varint.simps) simp

lemma le_bytes_numeral: "le_bytes (numeral k) n = word_of_nat (n mod 256) # le_bytes (pred_numeral k) (n div 256)"
  by (simp only: numeral_eq_Suc [of k] le_bytes.simps)

lemma varint_nonempty: "varint n \<noteq> []"
  by (subst varint.simps) simp

lemma length_varint_pos: "0 < length (varint n)"
  using varint_nonempty by simp

text \<open>A field number below 16 has a tag of one byte.\<close>

lemma length_wire_tag: "unat n < 16 \<Longrightarrow> length (wire_tag n wt) = 1"
  unfolding wire_tag_def by (subst varint.simps) (cases wt; simp)

lemma length_member_wire_each: "x \<in> set vs \<Longrightarrow> length (f x) \<le> length (wire_each f vs)"
  by (induction vs) auto

section \<open>The laws of the runtime\<close>

definition reads_singular :: "'m singular_reader \<Rightarrow> bool" where
  "reads_singular read \<longleftrightarrow>
     (\<forall>merge new p r x. length p < 2 ^ 32 \<longrightarrow> merge new p = Some (Inr (x, [])) \<longrightarrow>
        read merge new WireTypeLengthDelimited (varint (length p) @ p @ r) None = Some (Inr (Some x, r)))"

definition reads_repeated :: "'m repeated_reader \<Rightarrow> bool" where
  "reads_repeated read \<longleftrightarrow>
     (\<forall>merge new p r x xs. length p < 2 ^ 32 \<longrightarrow> merge new p = Some (Inr (x, [])) \<longrightarrow>
        read merge new WireTypeLengthDelimited (varint (length p) @ p @ r) xs = Some (Inr (xs @ [x], r)))"

definition appends :: "writer \<Rightarrow> bytes \<Rightarrow> bool" where
  "appends w b \<longleftrightarrow> (\<forall>os. w os = Inr (os @ b))"

text \<open>\<open>ub\<close> gives the bytes of unknown fields, \<open>utf8\<close> tells the strings that are valid UTF-8.\<close>

locale protobuf_runtime =
  fixes R :: "'u protobuf"
    and ub :: "'u \<Rightarrow> bytes"
    and utf8 :: "string \<Rightarrow> bool"
  assumes no_unknown_fields: "ub (unknown_fields_default R) = []"
    and unknown_fields_size: "unknown_fields_size R u = word_of_nat (length (ub u))"
    and string_size: "string_size R n s = word_of_nat (length (wire_string n s))"
    and value_size: "value_size R n d WireTypeVarint = word_of_nat (length (wire_varint64 n d))"
    and enum_size: "enum_size R n t = word_of_nat (length (wire_enum n t))"
    and raw_varint32_size: "compute_raw_varint32_size R v = word_of_nat (length (varint (unat v)))"
    and write_tag: "appends (os_write_tag R n wt) (wire_tag n wt)"
    and write_raw_varint32: "appends (os_write_raw_varint32 R v) (varint (unat v))"
    and write_string: "appends (os_write_string R n s) (wire_string n s)"
    and write_double: "appends (os_write_double R n d) (wire_double n d)"
    and write_uint64: "appends (os_write_uint64 R n d) (wire_varint64 n d)"
    and write_int64: "appends (os_write_int64 R n d) (wire_varint64 n d)"
    and write_enum: "appends (os_write_enum R n (MetricType_value t)) (wire_enum n t)"
    and write_unknown_fields: "appends (os_write_unknown_fields R u) (ub u)"
    and eof: "is_eof R is = Inr (is = [])"
    and read_tag: "valid_field_number n \<Longrightarrow>
          is_read_tag_unpack R (wire_tag n wt @ r) = Inr ((n, wt), r)"
    and read_double: "is_read_double R (le_bytes 8 (unat d) @ r) = Inr (d, r)"
    and read_uint64: "is_read_uint64 R (varint (unat d) @ r) = Inr (d, r)"
    and read_int64: "is_read_int64 R (varint (unat d) @ r) = Inr (d, r)"
    and read_string: "utf8 s \<Longrightarrow> length s < 2 ^ 32 \<Longrightarrow>
          read_singular_string_into R WireTypeLengthDelimited (varint (length s) @ as_bytes s @ r) old_s
            = Inr (Some s, r)"
    and read_enum: "from_i32 (MetricType_value t) = Some t \<Longrightarrow>
          read_proto2_enum_with_unknown_fields_into R from_i32 WireTypeVarint
            (varint (unat (scast (MetricType_value t) :: u64)) @ r) old_t n u = Inr ((Some t, u), r)"
    and read_messages: "reads_repeated (read_repeated_LabelPair_into R)"
      "reads_repeated (read_repeated_Quantile_into R)"
      "reads_repeated (read_repeated_Bucket_into R)"
      "reads_repeated (read_repeated_Metric_into R)"
      "reads_singular (read_singular_Gauge_into R)"
      "reads_singular (read_singular_Counter_into R)"
      "reads_singular (read_singular_Summary_into R)"
      "reads_singular (read_singular_Untyped_into R)"
      "reads_singular (read_singular_Histogram_into R)"
    and write_delimited: "compute_size mf = (n, mf') \<Longrightarrow> appends (wr mf') b \<Longrightarrow>
          appends (write_length_delimited_to_writer R compute_size wr mf) (varint (unat n) @ b)"

text \<open>What makes parsing return on any input: readers move forward, tags by at least a byte.\<close>

definition returns :: "'m merger \<Rightarrow> bool" where
  "returns merge \<longleftrightarrow> (\<forall>m is. merge m is \<noteq> None)"

definition forward :: "bytes \<Rightarrow> ('a \<times> bytes) pb_result \<Rightarrow> bool" where
  "forward is r \<longleftrightarrow> (\<forall>x is'. r = Inr (x, is') \<longrightarrow> length is' \<le> length is)"

definition progresses :: "bytes \<Rightarrow> 'a reading \<Rightarrow> bool" where
  "progresses is x \<longleftrightarrow> (\<exists>r. x = Some r \<and> forward is r)"

definition moves :: "('m merger \<Rightarrow> 'm \<Rightarrow> WireType \<Rightarrow> bytes \<Rightarrow> 'f \<Rightarrow> 'f reading) \<Rightarrow> bool" where
  "moves read \<longleftrightarrow>
     (\<forall>merge new wt is old. returns merge \<longrightarrow> progresses is (read merge new wt is old))"

locale protobuf_progress =
  fixes R :: "'u protobuf"
  assumes tag_progress: "is_read_tag_unpack R is = Inr (t, is') \<Longrightarrow> length is' < length is"
    and value_progress: "forward is (is_read_double R is)" "forward is (is_read_uint64 R is)"
      "forward is (is_read_int64 R is)" "forward is (read_singular_string_into R wt is old_s)"
      "forward is (read_proto2_enum_with_unknown_fields_into R from_i32 wt is old_t n u)"
      "forward is (read_unknown_or_skip_group R n wt is u)"
    and message_progress: "moves (read_repeated_LabelPair_into R)" "moves (read_repeated_Quantile_into R)"
      "moves (read_repeated_Bucket_into R)" "moves (read_repeated_Metric_into R)"
      "moves (read_singular_Gauge_into R)" "moves (read_singular_Counter_into R)"
      "moves (read_singular_Summary_into R)" "moves (read_singular_Untyped_into R)"
      "moves (read_singular_Histogram_into R)"

section \<open>Writing\<close>

lemma appends_nothing [simp]: "appends Inr []"
  by (simp add: appends_def)

lemma appends_in_order_Nil: "appends (in_order []) []"
  by (simp add: appends_def)

lemma appends_in_order_Cons:
  "appends w b \<Longrightarrow> appends (in_order ws) c \<Longrightarrow> appends (in_order (w # ws)) (b @ c)"
  by (simp add: appends_def)

lemma appends_last: "appends w b \<Longrightarrow> appends (in_order [w]) b"
  by (simp add: appends_def)

lemmas appends_in_order = appends_last appends_in_order_Cons

lemma appends_some:
  "(\<And>x. v = Some x \<Longrightarrow> appends (w x) (b x)) \<Longrightarrow> appends (write_some w v) (wire_some b v)"
  by (cases v) (simp_all add: write_some_def appends_def)

lemma appends_each:
  "(\<And>x. x \<in> set vs \<Longrightarrow> appends (w x) (b x)) \<Longrightarrow> appends (write_each w vs) (wire_each b vs)"
  by (induction vs) (simp_all add: write_each_def appends_in_order_Nil appends_in_order_Cons)

text \<open>
  A message's code is right: it computes and caches the size of its encoding, and then writes
  the encoding.
\<close>

definition codes ::
  "('m \<Rightarrow> u32 \<times> 'm) \<Rightarrow> ('m \<Rightarrow> u32) \<Rightarrow> ('m \<Rightarrow> writer) \<Rightarrow> ('m \<Rightarrow> bytes) \<Rightarrow> 'm \<Rightarrow> bool" where
  "codes compute_size cached wr wire m \<longleftrightarrow>
     fst (compute_size m) = word_of_nat (length (wire m)) \<and>
     cached (snd (compute_size m)) = fst (compute_size m) \<and>
     appends (wr (snd (compute_size m))) (wire m)"

text \<open>\<open>m\<close> is in a stream that a 32-bit size can describe, and its code is right.\<close>

definition fits_codes ::
  "('m \<Rightarrow> u32 \<times> 'm) \<Rightarrow> ('m \<Rightarrow> u32) \<Rightarrow> ('m \<Rightarrow> writer) \<Rightarrow> ('m \<Rightarrow> bytes) \<Rightarrow> 'm \<Rightarrow> bool" where
  "fits_codes compute_size cached wr wire m \<longleftrightarrow>
     length (wire m) < 2 ^ 32 \<and> codes compute_size cached wr wire m"

lemma unat_word_of_nat32: "n < 2 ^ 32 \<Longrightarrow> unat (word_of_nat n :: u32) = n"
  by (simp add: unat_of_nat take_bit_nat_eq_self)

context protobuf_runtime
begin

lemma nested_size:
  assumes "fits_codes compute_size cached wr wire m" and "unat n < 16"
  shows "1 + compute_raw_varint32_size R (fst (compute_size m)) + fst (compute_size m)
    = word_of_nat (length (wire_message n (wire m)))"
  using assms
  by (simp add: fits_codes_def codes_def raw_varint32_size unat_word_of_nat32 wire_message_def length_wire_tag)

lemma sum_sizes_eq:
  assumes "\<And>v. v \<in> set vs \<Longrightarrow> fits_codes compute_size cached wr wire v" and n: "unat n < 16"
  shows "sum_sizes R compute_size s vs =
    (s + word_of_nat (length (wire_each (\<lambda>v. wire_message n (wire v)) vs)), map (snd \<circ> compute_size) vs)"
  using assms(1)
proof (induction vs arbitrary: s)
  case (Cons v vs)
  have "fits_codes compute_size cached wr wire v" using Cons.prems by simp
  note size = nested_size [OF this n]
  obtain len v' where v: "compute_size v = (len, v')" by fastforce
  show ?case
    using Cons.IH [of "s + (1 + compute_raw_varint32_size R len + len)"] Cons.prems size
    by (simp add: v add.assoc)
qed simp

lemma sum_size_eq:
  assumes "\<And>x. v = Some x \<Longrightarrow> fits_codes compute_size cached wr wire x" and n: "unat n < 16"
  shows "sum_size R compute_size s v =
    (s + word_of_nat (length (wire_some (\<lambda>v. wire_message n (wire v)) v)), map_option (snd \<circ> compute_size) v)"
proof (cases v)
  case (Some x)
  with assms(1) [of x] nested_size [of compute_size cached wr wire x n] n show ?thesis
    by (cases "compute_size x") simp
qed simp

lemma write_nested:
  assumes "fits_codes compute_size cached wr wire m"
  shows "appends (write_nested R n cached wr (snd (compute_size m))) (wire_message n (wire m))"
proof -
  have "varint (unat (cached (snd (compute_size m)))) = varint (length (wire m))"
    and "appends (wr (snd (compute_size m))) (wire m)"
    using assms by (simp_all add: fits_codes_def codes_def unat_word_of_nat32)
  then show ?thesis
    unfolding write_nested_def wire_message_def
    by (metis appends_in_order write_tag write_raw_varint32)
qed

lemma write_nested_some:
  assumes "\<And>x. v = Some x \<Longrightarrow> fits_codes compute_size cached wr wire x"
  shows "appends (write_some (write_nested R n cached wr) (map_option (snd \<circ> compute_size) v))
    (wire_some (\<lambda>v. wire_message n (wire v)) v)"
  using assms write_nested [of compute_size cached wr wire _ n]
  by (cases v) (simp_all add: write_some_def)

lemma write_nested_each:
  assumes "\<And>x. x \<in> set vs \<Longrightarrow> fits_codes compute_size cached wr wire x"
  shows "appends (write_each (write_nested R n cached wr) (map (snd \<circ> compute_size) vs))
    (wire_each (\<lambda>v. wire_message n (wire v)) vs)"
  using assms
proof (induction vs)
  case Nil
  then show ?case by (simp add: write_each_def)
next
  case (Cons v vs)
  then show ?case
    using write_nested [of compute_size cached wr wire v n]
    by (simp add: write_each_def appends_in_order_Cons del: in_order.simps)
qed

section \<open>Parsing\<close>

lemma loop_end: "merge_loop (is_eof R) (is_read_tag_unpack R) F [] m = Some (Inr (m, []))"
  by (subst merge_loop.simps) (simp add: eof)

lemma loop_field:
  assumes "F n wt (body @ r) m = Some (Inr (m', r))" and "valid_field_number n"
  shows "merge_loop (is_eof R) (is_read_tag_unpack R) F (wire_tag n wt @ body @ r) m
    = merge_loop (is_eof R) (is_read_tag_unpack R) F r m'"
proof -
  have "wire_tag n wt \<noteq> []" by (simp add: wire_tag_def varint_nonempty)
  then show ?thesis
    by (subst merge_loop.simps) (simp add: eof read_tag assms)
qed

lemma loop_some:
  assumes "v = None \<Longrightarrow> m' = m"
    and "\<And>x. v = Some x \<Longrightarrow> F n wt (body x @ r) m = Some (Inr (m', r))"
    and "valid_field_number n"
  shows "merge_loop (is_eof R) (is_read_tag_unpack R) F (wire_some (\<lambda>x. wire_tag n wt @ body x) v @ r) m
    = merge_loop (is_eof R) (is_read_tag_unpack R) F r m'"
  using assms loop_field [of F n wt _ r m m'] by (cases v) simp_all

lemma loop_each:
  assumes "\<And>m x r. x \<in> set xs \<Longrightarrow> F n wt (body x @ r) m = Some (Inr (push x m, r))"
    and "valid_field_number n"
  shows "merge_loop (is_eof R) (is_read_tag_unpack R) F (wire_each (\<lambda>x. wire_tag n wt @ body x) xs @ r) m
    = merge_loop (is_eof R) (is_read_tag_unpack R) F r (fold push xs m)"
  using assms(1)
proof (induction xs arbitrary: m)
  case (Cons x xs)
  then show ?case
    using loop_field [of F n wt "body x" "wire_each (\<lambda>x. wire_tag n wt @ body x) xs @ r" m "push x m"] assms(2)
    by simp
qed simp

end

section \<open>Parsing returns\<close>

lemma merge_loop_returns:
  assumes "\<And>is t is'. read_tag is = Inr (t, is') \<Longrightarrow> length is' < length is"
    and "\<And>n wt is m. progresses is (F n wt is m)"
  shows "merge_loop eof read_tag F inp m \<noteq> None"
proof (induction inp arbitrary: m rule: length_induct)
  case (1 inp)
  show ?case
  proof (cases "eof inp")
    case (Inr e)
    show ?thesis
    proof (cases "read_tag inp")
      case tag: (Inr ti)
      obtain n wt is1 where ti: "ti = ((n, wt), is1)" by (metis surj_pair)
      obtain r where r: "F n wt is1 m = Some r" "forward is1 r"
        using assms(2) [of is1 n wt m] by (auto simp: progresses_def)
      have "length is1 < length inp" using assms(1) tag ti by blast
      with r 1 have "merge_loop eof read_tag F is2 m2 \<noteq> None" if "r = Inr (m2, is2)" for m2 is2
        using that by (force simp: forward_def)
      with Inr tag ti r show ?thesis
        by (subst merge_loop.simps) (auto split: sum.splits)
    qed (subst merge_loop.simps, simp add: Inr)
  qed (subst merge_loop.simps, simp)
qed

lemma progresses_error: "progresses is (Some (Inl e))"
  by (simp add: progresses_def forward_def)

lemma progresses_reads: "forward is r \<Longrightarrow> progresses is (reads put r)"
  by (auto simp: progresses_def reads_def forward_def bind_res_Inr_iff)

lemma progresses_reads_message: "progresses is r \<Longrightarrow> progresses is (reads_message put r)"
  using progresses_reads [of "is" _ put] by (auto simp: progresses_def reads_message_def)

lemma progresses_if:
  "(c \<Longrightarrow> progresses is x) \<Longrightarrow> (\<not> c \<Longrightarrow> progresses is y) \<Longrightarrow> progresses is (if c then x else y)"
  by simp

lemma moves_progresses: "moves read \<Longrightarrow> returns merge \<Longrightarrow> progresses is (read merge new wt is old)"
  by (simp add: moves_def)

lemmas field_progress = progresses_if progresses_error progresses_reads progresses_reads_message

end
