(* ===== verification/Pb_Spec.thy ===== *)
theory Pb_Spec
  imports Pb_Wire
begin

text \<open>
  The schema (\<open>proto_model.proto\<close>) as a function from messages to bytes, and the correctness of
  the code of each message under the laws of the runtime: \<open>compute_size\<close> is the length of the
  encoding, \<open>write_to_with_cached_sizes\<close> after it writes the encoding, and \<open>merge_from\<close> reads
  it back. \<open>fresh_M\<close> forgets the cached sizes, which the equality of messages ignores;
  \<open>clean_M\<close> holds of a message without unknown fields whose strings are valid.
\<close>

section \<open>The schema\<close>

definition wire_LabelPair :: "('u \<Rightarrow> bytes) \<Rightarrow> 'u PbLabelPair \<Rightarrow> bytes" where
  "wire_LabelPair ub m =
     wire_some (wire_string 1) (plp_name m) @
     wire_some (wire_string 2) (plp_value m) @
     ub (plp_unknown_fields m)"

definition fresh_LabelPair :: "'u PbLabelPair \<Rightarrow> 'u PbLabelPair" where
  "fresh_LabelPair m = m\<lparr>plp_cached_size := 0\<rparr>"

definition clean_LabelPair :: "'u protobuf \<Rightarrow> (string \<Rightarrow> bool) \<Rightarrow> 'u PbLabelPair \<Rightarrow> bool" where
  "clean_LabelPair R utf8 m \<longleftrightarrow>
     plp_unknown_fields m = unknown_fields_default R \<and>
     pred_option utf8 (plp_name m) \<and>
     pred_option utf8 (plp_value m)"

definition wire_Gauge :: "('u \<Rightarrow> bytes) \<Rightarrow> 'u PbGauge \<Rightarrow> bytes" where
  "wire_Gauge ub m =
     wire_some (wire_double 1) (pga_value m) @
     ub (pga_unknown_fields m)"

definition fresh_Gauge :: "'u PbGauge \<Rightarrow> 'u PbGauge" where
  "fresh_Gauge m = m\<lparr>pga_cached_size := 0\<rparr>"

definition clean_Gauge :: "'u protobuf \<Rightarrow> (string \<Rightarrow> bool) \<Rightarrow> 'u PbGauge \<Rightarrow> bool" where
  "clean_Gauge R utf8 m \<longleftrightarrow>
     pga_unknown_fields m = unknown_fields_default R"

definition wire_Counter :: "('u \<Rightarrow> bytes) \<Rightarrow> 'u PbCounter \<Rightarrow> bytes" where
  "wire_Counter ub m =
     wire_some (wire_double 1) (pco_value m) @
     ub (pco_unknown_fields m)"

definition fresh_Counter :: "'u PbCounter \<Rightarrow> 'u PbCounter" where
  "fresh_Counter m = m\<lparr>pco_cached_size := 0\<rparr>"

definition clean_Counter :: "'u protobuf \<Rightarrow> (string \<Rightarrow> bool) \<Rightarrow> 'u PbCounter \<Rightarrow> bool" where
  "clean_Counter R utf8 m \<longleftrightarrow>
     pco_unknown_fields m = unknown_fields_default R"

definition wire_Quantile :: "('u \<Rightarrow> bytes) \<Rightarrow> 'u PbQuantile \<Rightarrow> bytes" where
  "wire_Quantile ub m =
     wire_some (wire_double 1) (pqu_quantile m) @
     wire_some (wire_double 2) (pqu_value m) @
     ub (pqu_unknown_fields m)"

definition fresh_Quantile :: "'u PbQuantile \<Rightarrow> 'u PbQuantile" where
  "fresh_Quantile m = m\<lparr>pqu_cached_size := 0\<rparr>"

definition clean_Quantile :: "'u protobuf \<Rightarrow> (string \<Rightarrow> bool) \<Rightarrow> 'u PbQuantile \<Rightarrow> bool" where
  "clean_Quantile R utf8 m \<longleftrightarrow>
     pqu_unknown_fields m = unknown_fields_default R"

definition wire_Summary :: "('u \<Rightarrow> bytes) \<Rightarrow> 'u PbSummary \<Rightarrow> bytes" where
  "wire_Summary ub m =
     wire_some (wire_varint64 1) (psu_sample_count m) @
     wire_some (wire_double 2) (psu_sample_sum m) @
     wire_each (\<lambda>v. wire_message 3 (wire_Quantile ub v)) (psu_quantile m) @
     ub (psu_unknown_fields m)"

definition fresh_Summary :: "'u PbSummary \<Rightarrow> 'u PbSummary" where
  "fresh_Summary m = m\<lparr>psu_quantile := map fresh_Quantile (psu_quantile m),
       psu_cached_size := 0\<rparr>"

definition clean_Summary :: "'u protobuf \<Rightarrow> (string \<Rightarrow> bool) \<Rightarrow> 'u PbSummary \<Rightarrow> bool" where
  "clean_Summary R utf8 m \<longleftrightarrow>
     psu_unknown_fields m = unknown_fields_default R \<and>
     list_all (clean_Quantile R utf8) (psu_quantile m)"

definition wire_Untyped :: "('u \<Rightarrow> bytes) \<Rightarrow> 'u PbUntyped \<Rightarrow> bytes" where
  "wire_Untyped ub m =
     wire_some (wire_double 1) (pun_value m) @
     ub (pun_unknown_fields m)"

definition fresh_Untyped :: "'u PbUntyped \<Rightarrow> 'u PbUntyped" where
  "fresh_Untyped m = m\<lparr>pun_cached_size := 0\<rparr>"

definition clean_Untyped :: "'u protobuf \<Rightarrow> (string \<Rightarrow> bool) \<Rightarrow> 'u PbUntyped \<Rightarrow> bool" where
  "clean_Untyped R utf8 m \<longleftrightarrow>
     pun_unknown_fields m = unknown_fields_default R"

definition wire_Bucket :: "('u \<Rightarrow> bytes) \<Rightarrow> 'u PbBucket \<Rightarrow> bytes" where
  "wire_Bucket ub m =
     wire_some (wire_varint64 1) (pbu_cumulative_count m) @
     wire_some (wire_double 2) (pbu_upper_bound m) @
     ub (pbu_unknown_fields m)"

definition fresh_Bucket :: "'u PbBucket \<Rightarrow> 'u PbBucket" where
  "fresh_Bucket m = m\<lparr>pbu_cached_size := 0\<rparr>"

definition clean_Bucket :: "'u protobuf \<Rightarrow> (string \<Rightarrow> bool) \<Rightarrow> 'u PbBucket \<Rightarrow> bool" where
  "clean_Bucket R utf8 m \<longleftrightarrow>
     pbu_unknown_fields m = unknown_fields_default R"

definition wire_Histogram :: "('u \<Rightarrow> bytes) \<Rightarrow> 'u PbHistogram \<Rightarrow> bytes" where
  "wire_Histogram ub m =
     wire_some (wire_varint64 1) (phi_sample_count m) @
     wire_some (wire_double 2) (phi_sample_sum m) @
     wire_each (\<lambda>v. wire_message 3 (wire_Bucket ub v)) (phi_bucket m) @
     ub (phi_unknown_fields m)"

definition fresh_Histogram :: "'u PbHistogram \<Rightarrow> 'u PbHistogram" where
  "fresh_Histogram m = m\<lparr>phi_bucket := map fresh_Bucket (phi_bucket m),
       phi_cached_size := 0\<rparr>"

definition clean_Histogram :: "'u protobuf \<Rightarrow> (string \<Rightarrow> bool) \<Rightarrow> 'u PbHistogram \<Rightarrow> bool" where
  "clean_Histogram R utf8 m \<longleftrightarrow>
     phi_unknown_fields m = unknown_fields_default R \<and>
     list_all (clean_Bucket R utf8) (phi_bucket m)"

definition wire_Metric :: "('u \<Rightarrow> bytes) \<Rightarrow> 'u PbMetric \<Rightarrow> bytes" where
  "wire_Metric ub m =
     wire_each (\<lambda>v. wire_message 1 (wire_LabelPair ub v)) (pme_label m) @
     wire_some (\<lambda>v. wire_message 2 (wire_Gauge ub v)) (pme_gauge m) @
     wire_some (\<lambda>v. wire_message 3 (wire_Counter ub v)) (pme_counter m) @
     wire_some (\<lambda>v. wire_message 4 (wire_Summary ub v)) (pme_summary m) @
     wire_some (\<lambda>v. wire_message 5 (wire_Untyped ub v)) (pme_untyped m) @
     wire_some (\<lambda>v. wire_message 7 (wire_Histogram ub v)) (pme_histogram m) @
     wire_some (wire_varint64 6) (pme_timestamp_ms m) @
     ub (pme_unknown_fields m)"

definition fresh_Metric :: "'u PbMetric \<Rightarrow> 'u PbMetric" where
  "fresh_Metric m = m\<lparr>pme_label := map fresh_LabelPair (pme_label m),
       pme_gauge := map_option fresh_Gauge (pme_gauge m),
       pme_counter := map_option fresh_Counter (pme_counter m),
       pme_summary := map_option fresh_Summary (pme_summary m),
       pme_untyped := map_option fresh_Untyped (pme_untyped m),
       pme_histogram := map_option fresh_Histogram (pme_histogram m),
       pme_cached_size := 0\<rparr>"

definition clean_Metric :: "'u protobuf \<Rightarrow> (string \<Rightarrow> bool) \<Rightarrow> 'u PbMetric \<Rightarrow> bool" where
  "clean_Metric R utf8 m \<longleftrightarrow>
     pme_unknown_fields m = unknown_fields_default R \<and>
     list_all (clean_LabelPair R utf8) (pme_label m) \<and>
     pred_option (clean_Gauge R utf8) (pme_gauge m) \<and>
     pred_option (clean_Counter R utf8) (pme_counter m) \<and>
     pred_option (clean_Summary R utf8) (pme_summary m) \<and>
     pred_option (clean_Untyped R utf8) (pme_untyped m) \<and>
     pred_option (clean_Histogram R utf8) (pme_histogram m)"

definition wire_MetricFamily :: "('u \<Rightarrow> bytes) \<Rightarrow> 'u PbMetricFamily \<Rightarrow> bytes" where
  "wire_MetricFamily ub m =
     wire_some (wire_string 1) (pmf_name m) @
     wire_some (wire_string 2) (pmf_help m) @
     wire_some (wire_enum 3) (pmf_field_type m) @
     wire_each (\<lambda>v. wire_message 4 (wire_Metric ub v)) (pmf_metric m) @
     ub (pmf_unknown_fields m)"

definition fresh_MetricFamily :: "'u PbMetricFamily \<Rightarrow> 'u PbMetricFamily" where
  "fresh_MetricFamily m = m\<lparr>pmf_metric := map fresh_Metric (pmf_metric m),
       pmf_cached_size := 0\<rparr>"

definition clean_MetricFamily :: "'u protobuf \<Rightarrow> (string \<Rightarrow> bool) \<Rightarrow> 'u PbMetricFamily \<Rightarrow> bool" where
  "clean_MetricFamily R utf8 m \<longleftrightarrow>
     pmf_unknown_fields m = unknown_fields_default R \<and>
     pred_option utf8 (pmf_name m) \<and>
     pred_option utf8 (pmf_help m) \<and>
     list_all (clean_Metric R utf8) (pmf_metric m)"

section \<open>Sizes and writing\<close>

definition parses :: "'m merger \<Rightarrow> 'm \<Rightarrow> ('m \<Rightarrow> bytes) \<Rightarrow> ('m \<Rightarrow> 'm) \<Rightarrow> 'm \<Rightarrow> bool" where
  "parses merge new wire fresh m \<longleftrightarrow> merge new (wire m) = Some (Inr (fresh m, []))"

lemma length_in_each:
  assumes "x \<in> set xs"
  shows "length (wire x) \<le> length (wire_each (\<lambda>v. wire_message n (wire v)) xs)"
  using length_member_wire_each [OF assms, of "\<lambda>v. wire_message n (wire v)"]
  by (simp add: wire_message_def)

lemma length_in_some:
  assumes "v = Some x"
  shows "length (wire x) \<le> length (wire_some (\<lambda>v. wire_message n (wire v)) v)"
  using assms by (simp add: wire_message_def)

lemma reads_repeated_rule:
  "reads_repeated read \<Longrightarrow> length p < 2 ^ 32 \<Longrightarrow> merge new p = Some (Inr (x, [])) \<Longrightarrow>
    read merge new WireTypeLengthDelimited (varint (length p) @ p @ r) xs = Some (Inr (xs @ [x], r))"
  by (simp add: reads_repeated_def)

lemma reads_singular_rule:
  "reads_singular read \<Longrightarrow> length p < 2 ^ 32 \<Longrightarrow> merge new p = Some (Inr (x, [])) \<Longrightarrow>
    read merge new WireTypeLengthDelimited (varint (length p) @ p @ r) None = Some (Inr (Some x, r))"
  by (simp add: reads_singular_def)

context protobuf_runtime
begin

lemma size_some:
  "(case v of Some s \<Rightarrow> string_size R n s | None \<Rightarrow> 0) = word_of_nat (length (wire_some (wire_string n) v))"
  "(case d of Some x \<Rightarrow> value_size R n x WireTypeVarint | None \<Rightarrow> 0)
    = word_of_nat (length (wire_some (wire_varint64 n) d))"
  "(case t of Some x \<Rightarrow> enum_size R n x | None \<Rightarrow> 0) = word_of_nat (length (wire_some (wire_enum n) t))"
  by (cases v; cases d; cases t; simp add: string_size value_size enum_size)+

lemma size_double:
  "unat n < 16 \<Longrightarrow>
    (word_of_nat (length (wire_some (wire_double n) d)) :: u32) = (if d \<noteq> None then 9 else 0)"
  by (cases d) (simp_all add: wire_double_def length_wire_tag)

lemma loop_nested_each:
  assumes item: "\<And>x m r. x \<in> set xs \<Longrightarrow>
      F n WireTypeLengthDelimited (varint (length (wire x)) @ wire x @ r) m
        = Some (Inr (put (get m @ [fresh x]) m, r))"
    and "valid_field_number n"
    and put: "\<And>v m. get (put v m) = v" "\<And>v w m. put w (put v m) = put w m" "\<And>m. put (get m) m = m"
  shows "merge_loop (is_eof R) (is_read_tag_unpack R) F (wire_each (\<lambda>v. wire_message n (wire v)) xs @ r) m
    = merge_loop (is_eof R) (is_read_tag_unpack R) F r (put (get m @ map fresh xs) m)"
proof -
  have "fold (\<lambda>x m. put (get m @ [fresh x]) m) xs m = put (get m @ map fresh xs) m"
    by (induction xs arbitrary: m) (simp_all add: put)
  then show ?thesis
    unfolding wire_message_def
    by (subst loop_each [where push = "\<lambda>x m. put (get m @ [fresh x]) m"]) (use item assms(2) in simp_all)
qed

lemmas write_fields = write_string write_double write_uint64 write_int64 write_enum write_unknown_fields

lemma codes_LabelPair:
  "codes (PbLabelPair_compute_size R) plp_cached_size (PbLabelPair_write_to_with_cached_sizes R) (wire_LabelPair ub) m"
proof -
  have "PbLabelPair_compute_size R m = (word_of_nat (length (wire_LabelPair ub m)),
      m\<lparr>plp_cached_size := word_of_nat (length (wire_LabelPair ub m))\<rparr>)"
    unfolding PbLabelPair_compute_size_def size_some
    by (simp add: Let_def wire_LabelPair_def add.assoc unknown_fields_size size_double)
  then show ?thesis
    by (simp add: codes_def PbLabelPair_write_to_with_cached_sizes_def wire_LabelPair_def del: in_order.simps)
      (intro appends_in_order appends_some write_fields)
qed

lemma codes_Gauge:
  "codes (PbGauge_compute_size R) pga_cached_size (PbGauge_write_to_with_cached_sizes R) (wire_Gauge ub) m"
proof -
  have "PbGauge_compute_size R m = (word_of_nat (length (wire_Gauge ub m)),
      m\<lparr>pga_cached_size := word_of_nat (length (wire_Gauge ub m))\<rparr>)"
    unfolding PbGauge_compute_size_def size_some
    by (simp add: Let_def wire_Gauge_def add.assoc unknown_fields_size size_double)
  then show ?thesis
    by (simp add: codes_def PbGauge_write_to_with_cached_sizes_def wire_Gauge_def del: in_order.simps)
      (intro appends_in_order appends_some write_fields)
qed

lemma codes_Counter:
  "codes (PbCounter_compute_size R) pco_cached_size (PbCounter_write_to_with_cached_sizes R) (wire_Counter ub) m"
proof -
  have "PbCounter_compute_size R m = (word_of_nat (length (wire_Counter ub m)),
      m\<lparr>pco_cached_size := word_of_nat (length (wire_Counter ub m))\<rparr>)"
    unfolding PbCounter_compute_size_def size_some
    by (simp add: Let_def wire_Counter_def add.assoc unknown_fields_size size_double)
  then show ?thesis
    by (simp add: codes_def PbCounter_write_to_with_cached_sizes_def wire_Counter_def del: in_order.simps)
      (intro appends_in_order appends_some write_fields)
qed

lemma codes_Quantile:
  "codes (PbQuantile_compute_size R) pqu_cached_size (PbQuantile_write_to_with_cached_sizes R) (wire_Quantile ub) m"
proof -
  have "PbQuantile_compute_size R m = (word_of_nat (length (wire_Quantile ub m)),
      m\<lparr>pqu_cached_size := word_of_nat (length (wire_Quantile ub m))\<rparr>)"
    unfolding PbQuantile_compute_size_def size_some
    by (simp add: Let_def wire_Quantile_def add.assoc unknown_fields_size size_double)
  then show ?thesis
    by (simp add: codes_def PbQuantile_write_to_with_cached_sizes_def wire_Quantile_def del: in_order.simps)
      (intro appends_in_order appends_some write_fields)
qed

lemma codes_Summary:
  assumes "length (wire_Summary ub m) < 2 ^ 32"
  shows "codes (PbSummary_compute_size R) psu_cached_size (PbSummary_write_to_with_cached_sizes R) (wire_Summary ub) m"
proof -
  have quantile: "fits_codes (PbQuantile_compute_size R) pqu_cached_size (PbQuantile_write_to_with_cached_sizes R) (wire_Quantile ub) x"
    if "x \<in> set (psu_quantile m)" for x
    using length_in_each [OF that, of "wire_Quantile ub" 3] assms codes_Quantile [of x]
    by (simp add: fits_codes_def wire_Summary_def)
  have "PbSummary_compute_size R m = (word_of_nat (length (wire_Summary ub m)),
      m\<lparr>psu_quantile := map (snd \<circ> PbQuantile_compute_size R) (psu_quantile m), psu_cached_size := word_of_nat (length (wire_Summary ub m))\<rparr>)"
    unfolding PbSummary_compute_size_def size_some
    by (simp add: Let_def wire_Summary_def add.assoc unknown_fields_size size_double
      sum_sizes_eq [where n = 3, OF quantile])
  then show ?thesis
    by (simp add: codes_def PbSummary_write_to_with_cached_sizes_def wire_Summary_def del: in_order.simps)
      (intro appends_in_order appends_some write_fields
        write_nested_each [OF quantile])
qed

lemma codes_Untyped:
  "codes (PbUntyped_compute_size R) pun_cached_size (PbUntyped_write_to_with_cached_sizes R) (wire_Untyped ub) m"
proof -
  have "PbUntyped_compute_size R m = (word_of_nat (length (wire_Untyped ub m)),
      m\<lparr>pun_cached_size := word_of_nat (length (wire_Untyped ub m))\<rparr>)"
    unfolding PbUntyped_compute_size_def size_some
    by (simp add: Let_def wire_Untyped_def add.assoc unknown_fields_size size_double)
  then show ?thesis
    by (simp add: codes_def PbUntyped_write_to_with_cached_sizes_def wire_Untyped_def del: in_order.simps)
      (intro appends_in_order appends_some write_fields)
qed

lemma codes_Bucket:
  "codes (PbBucket_compute_size R) pbu_cached_size (PbBucket_write_to_with_cached_sizes R) (wire_Bucket ub) m"
proof -
  have "PbBucket_compute_size R m = (word_of_nat (length (wire_Bucket ub m)),
      m\<lparr>pbu_cached_size := word_of_nat (length (wire_Bucket ub m))\<rparr>)"
    unfolding PbBucket_compute_size_def size_some
    by (simp add: Let_def wire_Bucket_def add.assoc unknown_fields_size size_double)
  then show ?thesis
    by (simp add: codes_def PbBucket_write_to_with_cached_sizes_def wire_Bucket_def del: in_order.simps)
      (intro appends_in_order appends_some write_fields)
qed

lemma codes_Histogram:
  assumes "length (wire_Histogram ub m) < 2 ^ 32"
  shows "codes (PbHistogram_compute_size R) phi_cached_size (PbHistogram_write_to_with_cached_sizes R) (wire_Histogram ub) m"
proof -
  have bucket: "fits_codes (PbBucket_compute_size R) pbu_cached_size (PbBucket_write_to_with_cached_sizes R) (wire_Bucket ub) x"
    if "x \<in> set (phi_bucket m)" for x
    using length_in_each [OF that, of "wire_Bucket ub" 3] assms codes_Bucket [of x]
    by (simp add: fits_codes_def wire_Histogram_def)
  have "PbHistogram_compute_size R m = (word_of_nat (length (wire_Histogram ub m)),
      m\<lparr>phi_bucket := map (snd \<circ> PbBucket_compute_size R) (phi_bucket m), phi_cached_size := word_of_nat (length (wire_Histogram ub m))\<rparr>)"
    unfolding PbHistogram_compute_size_def size_some
    by (simp add: Let_def wire_Histogram_def add.assoc unknown_fields_size size_double
      sum_sizes_eq [where n = 3, OF bucket])
  then show ?thesis
    by (simp add: codes_def PbHistogram_write_to_with_cached_sizes_def wire_Histogram_def del: in_order.simps)
      (intro appends_in_order appends_some write_fields
        write_nested_each [OF bucket])
qed

lemma codes_Metric:
  assumes "length (wire_Metric ub m) < 2 ^ 32"
  shows "codes (PbMetric_compute_size R) pme_cached_size (PbMetric_write_to_with_cached_sizes R) (wire_Metric ub) m"
proof -
  have label: "fits_codes (PbLabelPair_compute_size R) plp_cached_size (PbLabelPair_write_to_with_cached_sizes R) (wire_LabelPair ub) x"
    if "x \<in> set (pme_label m)" for x
    using length_in_each [OF that, of "wire_LabelPair ub" 1] assms codes_LabelPair [of x]
    by (simp add: fits_codes_def wire_Metric_def)
  have gauge: "fits_codes (PbGauge_compute_size R) pga_cached_size (PbGauge_write_to_with_cached_sizes R) (wire_Gauge ub) x"
    if "pme_gauge m = Some x" for x
    using length_in_some [OF that, of "wire_Gauge ub" 2] assms codes_Gauge [of x]
    by (simp add: fits_codes_def wire_Metric_def)
  have counter: "fits_codes (PbCounter_compute_size R) pco_cached_size (PbCounter_write_to_with_cached_sizes R) (wire_Counter ub) x"
    if "pme_counter m = Some x" for x
    using length_in_some [OF that, of "wire_Counter ub" 3] assms codes_Counter [of x]
    by (simp add: fits_codes_def wire_Metric_def)
  have summary: "fits_codes (PbSummary_compute_size R) psu_cached_size (PbSummary_write_to_with_cached_sizes R) (wire_Summary ub) x"
    if "pme_summary m = Some x" for x
    using length_in_some [OF that, of "wire_Summary ub" 4] assms codes_Summary [of x]
    by (simp add: fits_codes_def wire_Metric_def)
  have untyped: "fits_codes (PbUntyped_compute_size R) pun_cached_size (PbUntyped_write_to_with_cached_sizes R) (wire_Untyped ub) x"
    if "pme_untyped m = Some x" for x
    using length_in_some [OF that, of "wire_Untyped ub" 5] assms codes_Untyped [of x]
    by (simp add: fits_codes_def wire_Metric_def)
  have histogram: "fits_codes (PbHistogram_compute_size R) phi_cached_size (PbHistogram_write_to_with_cached_sizes R) (wire_Histogram ub) x"
    if "pme_histogram m = Some x" for x
    using length_in_some [OF that, of "wire_Histogram ub" 7] assms codes_Histogram [of x]
    by (simp add: fits_codes_def wire_Metric_def)
  have "PbMetric_compute_size R m = (word_of_nat (length (wire_Metric ub m)),
      m\<lparr>pme_label := map (snd \<circ> PbLabelPair_compute_size R) (pme_label m), pme_gauge := map_option (snd \<circ> PbGauge_compute_size R) (pme_gauge m), pme_counter := map_option (snd \<circ> PbCounter_compute_size R) (pme_counter m), pme_summary := map_option (snd \<circ> PbSummary_compute_size R) (pme_summary m), pme_untyped := map_option (snd \<circ> PbUntyped_compute_size R) (pme_untyped m), pme_histogram := map_option (snd \<circ> PbHistogram_compute_size R) (pme_histogram m), pme_cached_size := word_of_nat (length (wire_Metric ub m))\<rparr>)"
    unfolding PbMetric_compute_size_def size_some
    by (simp add: Let_def wire_Metric_def add.assoc unknown_fields_size size_double
      sum_sizes_eq [where n = 1, OF label] sum_size_eq [where n = 2, OF gauge] sum_size_eq [where n = 3, OF counter] sum_size_eq [where n = 4, OF summary] sum_size_eq [where n = 5, OF untyped] sum_size_eq [where n = 7, OF histogram])
  then show ?thesis
    by (simp add: codes_def PbMetric_write_to_with_cached_sizes_def wire_Metric_def del: in_order.simps)
      (intro appends_in_order appends_some write_fields
        write_nested_each [OF label] write_nested_some [OF gauge] write_nested_some [OF counter] write_nested_some [OF summary] write_nested_some [OF untyped] write_nested_some [OF histogram])
qed

lemma codes_MetricFamily:
  assumes "length (wire_MetricFamily ub m) < 2 ^ 32"
  shows "codes (PbMetricFamily_compute_size R) pmf_cached_size (PbMetricFamily_write_to_with_cached_sizes R) (wire_MetricFamily ub) m"
proof -
  have metric: "fits_codes (PbMetric_compute_size R) pme_cached_size (PbMetric_write_to_with_cached_sizes R) (wire_Metric ub) x"
    if "x \<in> set (pmf_metric m)" for x
    using length_in_each [OF that, of "wire_Metric ub" 4] assms codes_Metric [of x]
    by (simp add: fits_codes_def wire_MetricFamily_def)
  have "PbMetricFamily_compute_size R m = (word_of_nat (length (wire_MetricFamily ub m)),
      m\<lparr>pmf_metric := map (snd \<circ> PbMetric_compute_size R) (pmf_metric m), pmf_cached_size := word_of_nat (length (wire_MetricFamily ub m))\<rparr>)"
    unfolding PbMetricFamily_compute_size_def size_some
    by (simp add: Let_def wire_MetricFamily_def add.assoc unknown_fields_size size_double
      sum_sizes_eq [where n = 4, OF metric])
  then show ?thesis
    by (simp add: codes_def PbMetricFamily_write_to_with_cached_sizes_def wire_MetricFamily_def del: in_order.simps)
      (intro appends_in_order appends_some write_fields
        write_nested_each [OF metric])
qed

section \<open>Parsing\<close>

lemma parses_LabelPair:
  assumes "clean_LabelPair R utf8 m" and "length (wire_LabelPair ub m) < 2 ^ 32"
  shows "parses (PbLabelPair_merge_from R) (PbLabelPair_new R) (wire_LabelPair ub) fresh_LabelPair m"
proof -
  let ?L = "merge_loop (is_eof R) (is_read_tag_unpack R) (PbLabelPair_field R)"
  have name_step: "?L (wire_some (wire_string 1) (plp_name m) @ r)
      \<lparr>plp_name = None, plp_value = None, plp_unknown_fields = unknown_fields_default R, plp_cached_size = 0\<rparr> =
    ?L r \<lparr>plp_name = plp_name m, plp_value = None, plp_unknown_fields = unknown_fields_default R, plp_cached_size = 0\<rparr>" for r
    unfolding wire_string_def
    by (rule loop_some) (use assms in \<open>auto simp: PbLabelPair_field_def reads_def read_string valid_field_number_def
      wire_LabelPair_def clean_LabelPair_def wire_string_def\<close>)
  have value_step: "?L (wire_some (wire_string 2) (plp_value m) @ r)
      \<lparr>plp_name = plp_name m, plp_value = None, plp_unknown_fields = unknown_fields_default R, plp_cached_size = 0\<rparr> =
    ?L r \<lparr>plp_name = plp_name m, plp_value = plp_value m, plp_unknown_fields = unknown_fields_default R, plp_cached_size = 0\<rparr>" for r
    unfolding wire_string_def
    by (rule loop_some) (use assms in \<open>auto simp: PbLabelPair_field_def reads_def read_string valid_field_number_def
      wire_LabelPair_def clean_LabelPair_def wire_string_def\<close>)
  from assms(1) have "ub (plp_unknown_fields m) = []" "plp_unknown_fields m = unknown_fields_default R"
    by (simp_all add: clean_LabelPair_def no_unknown_fields)
  moreover from this have "\<lparr>plp_name = plp_name m, plp_value = plp_value m, plp_unknown_fields = unknown_fields_default R, plp_cached_size = 0\<rparr> = fresh_LabelPair m"
    by (cases m) (simp add: fresh_LabelPair_def)
  ultimately show ?thesis
    by (simp add: parses_def PbLabelPair_merge_from_def wire_LabelPair_def PbLabelPair_new_def loop_end
      name_step value_step [of "[]", unfolded append_Nil2])
qed

lemma parses_Gauge:
  assumes "clean_Gauge R utf8 m" and "length (wire_Gauge ub m) < 2 ^ 32"
  shows "parses (PbGauge_merge_from R) (PbGauge_new R) (wire_Gauge ub) fresh_Gauge m"
proof -
  let ?L = "merge_loop (is_eof R) (is_read_tag_unpack R) (PbGauge_field R)"
  have value_step: "?L (wire_some (wire_double 1) (pga_value m) @ r)
      \<lparr>pga_value = None, pga_unknown_fields = unknown_fields_default R, pga_cached_size = 0\<rparr> =
    ?L r \<lparr>pga_value = pga_value m, pga_unknown_fields = unknown_fields_default R, pga_cached_size = 0\<rparr>" for r
    unfolding wire_double_def
    by (rule loop_some) (simp_all add: PbGauge_field_def reads_def read_double valid_field_number_def)
  from assms(1) have "ub (pga_unknown_fields m) = []" "pga_unknown_fields m = unknown_fields_default R"
    by (simp_all add: clean_Gauge_def no_unknown_fields)
  moreover from this have "\<lparr>pga_value = pga_value m, pga_unknown_fields = unknown_fields_default R, pga_cached_size = 0\<rparr> = fresh_Gauge m"
    by (cases m) (simp add: fresh_Gauge_def)
  ultimately show ?thesis
    by (simp add: parses_def PbGauge_merge_from_def wire_Gauge_def PbGauge_new_def loop_end
      value_step [of "[]", unfolded append_Nil2])
qed

lemma parses_Counter:
  assumes "clean_Counter R utf8 m" and "length (wire_Counter ub m) < 2 ^ 32"
  shows "parses (PbCounter_merge_from R) (PbCounter_new R) (wire_Counter ub) fresh_Counter m"
proof -
  let ?L = "merge_loop (is_eof R) (is_read_tag_unpack R) (PbCounter_field R)"
  have value_step: "?L (wire_some (wire_double 1) (pco_value m) @ r)
      \<lparr>pco_value = None, pco_unknown_fields = unknown_fields_default R, pco_cached_size = 0\<rparr> =
    ?L r \<lparr>pco_value = pco_value m, pco_unknown_fields = unknown_fields_default R, pco_cached_size = 0\<rparr>" for r
    unfolding wire_double_def
    by (rule loop_some) (simp_all add: PbCounter_field_def reads_def read_double valid_field_number_def)
  from assms(1) have "ub (pco_unknown_fields m) = []" "pco_unknown_fields m = unknown_fields_default R"
    by (simp_all add: clean_Counter_def no_unknown_fields)
  moreover from this have "\<lparr>pco_value = pco_value m, pco_unknown_fields = unknown_fields_default R, pco_cached_size = 0\<rparr> = fresh_Counter m"
    by (cases m) (simp add: fresh_Counter_def)
  ultimately show ?thesis
    by (simp add: parses_def PbCounter_merge_from_def wire_Counter_def PbCounter_new_def loop_end
      value_step [of "[]", unfolded append_Nil2])
qed

lemma parses_Quantile:
  assumes "clean_Quantile R utf8 m" and "length (wire_Quantile ub m) < 2 ^ 32"
  shows "parses (PbQuantile_merge_from R) (PbQuantile_new R) (wire_Quantile ub) fresh_Quantile m"
proof -
  let ?L = "merge_loop (is_eof R) (is_read_tag_unpack R) (PbQuantile_field R)"
  have quantile_step: "?L (wire_some (wire_double 1) (pqu_quantile m) @ r)
      \<lparr>pqu_quantile = None, pqu_value = None, pqu_unknown_fields = unknown_fields_default R, pqu_cached_size = 0\<rparr> =
    ?L r \<lparr>pqu_quantile = pqu_quantile m, pqu_value = None, pqu_unknown_fields = unknown_fields_default R, pqu_cached_size = 0\<rparr>" for r
    unfolding wire_double_def
    by (rule loop_some) (simp_all add: PbQuantile_field_def reads_def read_double valid_field_number_def)
  have value_step: "?L (wire_some (wire_double 2) (pqu_value m) @ r)
      \<lparr>pqu_quantile = pqu_quantile m, pqu_value = None, pqu_unknown_fields = unknown_fields_default R, pqu_cached_size = 0\<rparr> =
    ?L r \<lparr>pqu_quantile = pqu_quantile m, pqu_value = pqu_value m, pqu_unknown_fields = unknown_fields_default R, pqu_cached_size = 0\<rparr>" for r
    unfolding wire_double_def
    by (rule loop_some) (simp_all add: PbQuantile_field_def reads_def read_double valid_field_number_def)
  from assms(1) have "ub (pqu_unknown_fields m) = []" "pqu_unknown_fields m = unknown_fields_default R"
    by (simp_all add: clean_Quantile_def no_unknown_fields)
  moreover from this have "\<lparr>pqu_quantile = pqu_quantile m, pqu_value = pqu_value m, pqu_unknown_fields = unknown_fields_default R, pqu_cached_size = 0\<rparr> = fresh_Quantile m"
    by (cases m) (simp add: fresh_Quantile_def)
  ultimately show ?thesis
    by (simp add: parses_def PbQuantile_merge_from_def wire_Quantile_def PbQuantile_new_def loop_end
      quantile_step value_step [of "[]", unfolded append_Nil2])
qed

lemma parses_Summary:
  assumes "clean_Summary R utf8 m" and "length (wire_Summary ub m) < 2 ^ 32"
  shows "parses (PbSummary_merge_from R) (PbSummary_new R) (wire_Summary ub) fresh_Summary m"
proof -
  let ?L = "merge_loop (is_eof R) (is_read_tag_unpack R) (PbSummary_field R)"
  have sample_count_step: "?L (wire_some (wire_varint64 1) (psu_sample_count m) @ r)
      \<lparr>psu_sample_count = None, psu_sample_sum = None, psu_quantile = [], psu_unknown_fields = unknown_fields_default R, psu_cached_size = 0\<rparr> =
    ?L r \<lparr>psu_sample_count = psu_sample_count m, psu_sample_sum = None, psu_quantile = [], psu_unknown_fields = unknown_fields_default R, psu_cached_size = 0\<rparr>" for r
    unfolding wire_varint64_def
    by (rule loop_some) (simp_all add: PbSummary_field_def reads_def read_uint64 valid_field_number_def)
  have sample_sum_step: "?L (wire_some (wire_double 2) (psu_sample_sum m) @ r)
      \<lparr>psu_sample_count = psu_sample_count m, psu_sample_sum = None, psu_quantile = [], psu_unknown_fields = unknown_fields_default R, psu_cached_size = 0\<rparr> =
    ?L r \<lparr>psu_sample_count = psu_sample_count m, psu_sample_sum = psu_sample_sum m, psu_quantile = [], psu_unknown_fields = unknown_fields_default R, psu_cached_size = 0\<rparr>" for r
    unfolding wire_double_def
    by (rule loop_some) (simp_all add: PbSummary_field_def reads_def read_double valid_field_number_def)
  have quantile_item: "length (wire_Quantile ub x) < 2 ^ 32 \<and>
      PbQuantile_merge_from R (PbQuantile_new R) (wire_Quantile ub x) = Some (Inr (fresh_Quantile x, []))"
    if "x \<in> set (psu_quantile m)" for x
    using length_in_each [OF that, of "wire_Quantile ub" 3] parses_Quantile [of x] assms that
    by (simp add: wire_Summary_def clean_Summary_def list.pred_set parses_def)
  have quantile_step: "?L (wire_each (\<lambda>v. wire_message 3 (wire_Quantile ub v)) (psu_quantile m) @ r)
      \<lparr>psu_sample_count = psu_sample_count m, psu_sample_sum = psu_sample_sum m, psu_quantile = [], psu_unknown_fields = unknown_fields_default R, psu_cached_size = 0\<rparr> =
    ?L r \<lparr>psu_sample_count = psu_sample_count m, psu_sample_sum = psu_sample_sum m, psu_quantile = map fresh_Quantile (psu_quantile m), psu_unknown_fields = unknown_fields_default R, psu_cached_size = 0\<rparr>" for r
    by (subst loop_nested_each [where put = "\<lambda>v m. m\<lparr>psu_quantile := v\<rparr>" and get = psu_quantile and fresh = fresh_Quantile])
      (use quantile_item in \<open>simp_all add: PbSummary_field_def reads_message_def reads_def valid_field_number_def
        reads_repeated_rule [OF read_messages(2)]\<close>)
  from assms(1) have "ub (psu_unknown_fields m) = []" "psu_unknown_fields m = unknown_fields_default R"
    by (simp_all add: clean_Summary_def no_unknown_fields)
  moreover from this have "\<lparr>psu_sample_count = psu_sample_count m, psu_sample_sum = psu_sample_sum m, psu_quantile = map fresh_Quantile (psu_quantile m), psu_unknown_fields = unknown_fields_default R, psu_cached_size = 0\<rparr> = fresh_Summary m"
    by (cases m) (simp add: fresh_Summary_def)
  ultimately show ?thesis
    by (simp add: parses_def PbSummary_merge_from_def wire_Summary_def PbSummary_new_def loop_end
      sample_count_step sample_sum_step quantile_step [of "[]", unfolded append_Nil2])
qed

lemma parses_Untyped:
  assumes "clean_Untyped R utf8 m" and "length (wire_Untyped ub m) < 2 ^ 32"
  shows "parses (PbUntyped_merge_from R) (PbUntyped_new R) (wire_Untyped ub) fresh_Untyped m"
proof -
  let ?L = "merge_loop (is_eof R) (is_read_tag_unpack R) (PbUntyped_field R)"
  have value_step: "?L (wire_some (wire_double 1) (pun_value m) @ r)
      \<lparr>pun_value = None, pun_unknown_fields = unknown_fields_default R, pun_cached_size = 0\<rparr> =
    ?L r \<lparr>pun_value = pun_value m, pun_unknown_fields = unknown_fields_default R, pun_cached_size = 0\<rparr>" for r
    unfolding wire_double_def
    by (rule loop_some) (simp_all add: PbUntyped_field_def reads_def read_double valid_field_number_def)
  from assms(1) have "ub (pun_unknown_fields m) = []" "pun_unknown_fields m = unknown_fields_default R"
    by (simp_all add: clean_Untyped_def no_unknown_fields)
  moreover from this have "\<lparr>pun_value = pun_value m, pun_unknown_fields = unknown_fields_default R, pun_cached_size = 0\<rparr> = fresh_Untyped m"
    by (cases m) (simp add: fresh_Untyped_def)
  ultimately show ?thesis
    by (simp add: parses_def PbUntyped_merge_from_def wire_Untyped_def PbUntyped_new_def loop_end
      value_step [of "[]", unfolded append_Nil2])
qed

lemma parses_Bucket:
  assumes "clean_Bucket R utf8 m" and "length (wire_Bucket ub m) < 2 ^ 32"
  shows "parses (PbBucket_merge_from R) (PbBucket_new R) (wire_Bucket ub) fresh_Bucket m"
proof -
  let ?L = "merge_loop (is_eof R) (is_read_tag_unpack R) (PbBucket_field R)"
  have cumulative_count_step: "?L (wire_some (wire_varint64 1) (pbu_cumulative_count m) @ r)
      \<lparr>pbu_cumulative_count = None, pbu_upper_bound = None, pbu_unknown_fields = unknown_fields_default R, pbu_cached_size = 0\<rparr> =
    ?L r \<lparr>pbu_cumulative_count = pbu_cumulative_count m, pbu_upper_bound = None, pbu_unknown_fields = unknown_fields_default R, pbu_cached_size = 0\<rparr>" for r
    unfolding wire_varint64_def
    by (rule loop_some) (simp_all add: PbBucket_field_def reads_def read_uint64 valid_field_number_def)
  have upper_bound_step: "?L (wire_some (wire_double 2) (pbu_upper_bound m) @ r)
      \<lparr>pbu_cumulative_count = pbu_cumulative_count m, pbu_upper_bound = None, pbu_unknown_fields = unknown_fields_default R, pbu_cached_size = 0\<rparr> =
    ?L r \<lparr>pbu_cumulative_count = pbu_cumulative_count m, pbu_upper_bound = pbu_upper_bound m, pbu_unknown_fields = unknown_fields_default R, pbu_cached_size = 0\<rparr>" for r
    unfolding wire_double_def
    by (rule loop_some) (simp_all add: PbBucket_field_def reads_def read_double valid_field_number_def)
  from assms(1) have "ub (pbu_unknown_fields m) = []" "pbu_unknown_fields m = unknown_fields_default R"
    by (simp_all add: clean_Bucket_def no_unknown_fields)
  moreover from this have "\<lparr>pbu_cumulative_count = pbu_cumulative_count m, pbu_upper_bound = pbu_upper_bound m, pbu_unknown_fields = unknown_fields_default R, pbu_cached_size = 0\<rparr> = fresh_Bucket m"
    by (cases m) (simp add: fresh_Bucket_def)
  ultimately show ?thesis
    by (simp add: parses_def PbBucket_merge_from_def wire_Bucket_def PbBucket_new_def loop_end
      cumulative_count_step upper_bound_step [of "[]", unfolded append_Nil2])
qed

lemma parses_Histogram:
  assumes "clean_Histogram R utf8 m" and "length (wire_Histogram ub m) < 2 ^ 32"
  shows "parses (PbHistogram_merge_from R) (PbHistogram_new R) (wire_Histogram ub) fresh_Histogram m"
proof -
  let ?L = "merge_loop (is_eof R) (is_read_tag_unpack R) (PbHistogram_field R)"
  have sample_count_step: "?L (wire_some (wire_varint64 1) (phi_sample_count m) @ r)
      \<lparr>phi_sample_count = None, phi_sample_sum = None, phi_bucket = [], phi_unknown_fields = unknown_fields_default R, phi_cached_size = 0\<rparr> =
    ?L r \<lparr>phi_sample_count = phi_sample_count m, phi_sample_sum = None, phi_bucket = [], phi_unknown_fields = unknown_fields_default R, phi_cached_size = 0\<rparr>" for r
    unfolding wire_varint64_def
    by (rule loop_some) (simp_all add: PbHistogram_field_def reads_def read_uint64 valid_field_number_def)
  have sample_sum_step: "?L (wire_some (wire_double 2) (phi_sample_sum m) @ r)
      \<lparr>phi_sample_count = phi_sample_count m, phi_sample_sum = None, phi_bucket = [], phi_unknown_fields = unknown_fields_default R, phi_cached_size = 0\<rparr> =
    ?L r \<lparr>phi_sample_count = phi_sample_count m, phi_sample_sum = phi_sample_sum m, phi_bucket = [], phi_unknown_fields = unknown_fields_default R, phi_cached_size = 0\<rparr>" for r
    unfolding wire_double_def
    by (rule loop_some) (simp_all add: PbHistogram_field_def reads_def read_double valid_field_number_def)
  have bucket_item: "length (wire_Bucket ub x) < 2 ^ 32 \<and>
      PbBucket_merge_from R (PbBucket_new R) (wire_Bucket ub x) = Some (Inr (fresh_Bucket x, []))"
    if "x \<in> set (phi_bucket m)" for x
    using length_in_each [OF that, of "wire_Bucket ub" 3] parses_Bucket [of x] assms that
    by (simp add: wire_Histogram_def clean_Histogram_def list.pred_set parses_def)
  have bucket_step: "?L (wire_each (\<lambda>v. wire_message 3 (wire_Bucket ub v)) (phi_bucket m) @ r)
      \<lparr>phi_sample_count = phi_sample_count m, phi_sample_sum = phi_sample_sum m, phi_bucket = [], phi_unknown_fields = unknown_fields_default R, phi_cached_size = 0\<rparr> =
    ?L r \<lparr>phi_sample_count = phi_sample_count m, phi_sample_sum = phi_sample_sum m, phi_bucket = map fresh_Bucket (phi_bucket m), phi_unknown_fields = unknown_fields_default R, phi_cached_size = 0\<rparr>" for r
    by (subst loop_nested_each [where put = "\<lambda>v m. m\<lparr>phi_bucket := v\<rparr>" and get = phi_bucket and fresh = fresh_Bucket])
      (use bucket_item in \<open>simp_all add: PbHistogram_field_def reads_message_def reads_def valid_field_number_def
        reads_repeated_rule [OF read_messages(3)]\<close>)
  from assms(1) have "ub (phi_unknown_fields m) = []" "phi_unknown_fields m = unknown_fields_default R"
    by (simp_all add: clean_Histogram_def no_unknown_fields)
  moreover from this have "\<lparr>phi_sample_count = phi_sample_count m, phi_sample_sum = phi_sample_sum m, phi_bucket = map fresh_Bucket (phi_bucket m), phi_unknown_fields = unknown_fields_default R, phi_cached_size = 0\<rparr> = fresh_Histogram m"
    by (cases m) (simp add: fresh_Histogram_def)
  ultimately show ?thesis
    by (simp add: parses_def PbHistogram_merge_from_def wire_Histogram_def PbHistogram_new_def loop_end
      sample_count_step sample_sum_step bucket_step [of "[]", unfolded append_Nil2])
qed

lemma parses_Metric:
  assumes "clean_Metric R utf8 m" and "length (wire_Metric ub m) < 2 ^ 32"
  shows "parses (PbMetric_merge_from R) (PbMetric_new R) (wire_Metric ub) fresh_Metric m"
proof -
  let ?L = "merge_loop (is_eof R) (is_read_tag_unpack R) (PbMetric_field R)"
  have label_item: "length (wire_LabelPair ub x) < 2 ^ 32 \<and>
      PbLabelPair_merge_from R (PbLabelPair_new R) (wire_LabelPair ub x) = Some (Inr (fresh_LabelPair x, []))"
    if "x \<in> set (pme_label m)" for x
    using length_in_each [OF that, of "wire_LabelPair ub" 1] parses_LabelPair [of x] assms that
    by (simp add: wire_Metric_def clean_Metric_def list.pred_set parses_def)
  have label_step: "?L (wire_each (\<lambda>v. wire_message 1 (wire_LabelPair ub v)) (pme_label m) @ r)
      \<lparr>pme_label = [], pme_gauge = None, pme_counter = None, pme_summary = None, pme_untyped = None, pme_histogram = None, pme_timestamp_ms = None, pme_unknown_fields = unknown_fields_default R, pme_cached_size = 0\<rparr> =
    ?L r \<lparr>pme_label = map fresh_LabelPair (pme_label m), pme_gauge = None, pme_counter = None, pme_summary = None, pme_untyped = None, pme_histogram = None, pme_timestamp_ms = None, pme_unknown_fields = unknown_fields_default R, pme_cached_size = 0\<rparr>" for r
    by (subst loop_nested_each [where put = "\<lambda>v m. m\<lparr>pme_label := v\<rparr>" and get = pme_label and fresh = fresh_LabelPair])
      (use label_item in \<open>simp_all add: PbMetric_field_def reads_message_def reads_def valid_field_number_def
        reads_repeated_rule [OF read_messages(1)]\<close>)
  have gauge_item: "length (wire_Gauge ub x) < 2 ^ 32 \<and>
      PbGauge_merge_from R (PbGauge_new R) (wire_Gauge ub x) = Some (Inr (fresh_Gauge x, []))"
    if "pme_gauge m = Some x" for x
    using length_in_some [OF that, of "wire_Gauge ub" 2] parses_Gauge [of x] assms that
    by (simp add: wire_Metric_def clean_Metric_def parses_def)
  have gauge_step: "?L (wire_some (\<lambda>v. wire_message 2 (wire_Gauge ub v)) (pme_gauge m) @ r)
      \<lparr>pme_label = map fresh_LabelPair (pme_label m), pme_gauge = None, pme_counter = None, pme_summary = None, pme_untyped = None, pme_histogram = None, pme_timestamp_ms = None, pme_unknown_fields = unknown_fields_default R, pme_cached_size = 0\<rparr> =
    ?L r \<lparr>pme_label = map fresh_LabelPair (pme_label m), pme_gauge = map_option fresh_Gauge (pme_gauge m), pme_counter = None, pme_summary = None, pme_untyped = None, pme_histogram = None, pme_timestamp_ms = None, pme_unknown_fields = unknown_fields_default R, pme_cached_size = 0\<rparr>" for r
    unfolding wire_message_def
    by (rule loop_some) (use gauge_item in \<open>simp_all add: PbMetric_field_def reads_message_def reads_def valid_field_number_def
      reads_singular_rule [OF read_messages(5)]\<close>)
  have counter_item: "length (wire_Counter ub x) < 2 ^ 32 \<and>
      PbCounter_merge_from R (PbCounter_new R) (wire_Counter ub x) = Some (Inr (fresh_Counter x, []))"
    if "pme_counter m = Some x" for x
    using length_in_some [OF that, of "wire_Counter ub" 3] parses_Counter [of x] assms that
    by (simp add: wire_Metric_def clean_Metric_def parses_def)
  have counter_step: "?L (wire_some (\<lambda>v. wire_message 3 (wire_Counter ub v)) (pme_counter m) @ r)
      \<lparr>pme_label = map fresh_LabelPair (pme_label m), pme_gauge = map_option fresh_Gauge (pme_gauge m), pme_counter = None, pme_summary = None, pme_untyped = None, pme_histogram = None, pme_timestamp_ms = None, pme_unknown_fields = unknown_fields_default R, pme_cached_size = 0\<rparr> =
    ?L r \<lparr>pme_label = map fresh_LabelPair (pme_label m), pme_gauge = map_option fresh_Gauge (pme_gauge m), pme_counter = map_option fresh_Counter (pme_counter m), pme_summary = None, pme_untyped = None, pme_histogram = None, pme_timestamp_ms = None, pme_unknown_fields = unknown_fields_default R, pme_cached_size = 0\<rparr>" for r
    unfolding wire_message_def
    by (rule loop_some) (use counter_item in \<open>simp_all add: PbMetric_field_def reads_message_def reads_def valid_field_number_def
      reads_singular_rule [OF read_messages(6)]\<close>)
  have summary_item: "length (wire_Summary ub x) < 2 ^ 32 \<and>
      PbSummary_merge_from R (PbSummary_new R) (wire_Summary ub x) = Some (Inr (fresh_Summary x, []))"
    if "pme_summary m = Some x" for x
    using length_in_some [OF that, of "wire_Summary ub" 4] parses_Summary [of x] assms that
    by (simp add: wire_Metric_def clean_Metric_def parses_def)
  have summary_step: "?L (wire_some (\<lambda>v. wire_message 4 (wire_Summary ub v)) (pme_summary m) @ r)
      \<lparr>pme_label = map fresh_LabelPair (pme_label m), pme_gauge = map_option fresh_Gauge (pme_gauge m), pme_counter = map_option fresh_Counter (pme_counter m), pme_summary = None, pme_untyped = None, pme_histogram = None, pme_timestamp_ms = None, pme_unknown_fields = unknown_fields_default R, pme_cached_size = 0\<rparr> =
    ?L r \<lparr>pme_label = map fresh_LabelPair (pme_label m), pme_gauge = map_option fresh_Gauge (pme_gauge m), pme_counter = map_option fresh_Counter (pme_counter m), pme_summary = map_option fresh_Summary (pme_summary m), pme_untyped = None, pme_histogram = None, pme_timestamp_ms = None, pme_unknown_fields = unknown_fields_default R, pme_cached_size = 0\<rparr>" for r
    unfolding wire_message_def
    by (rule loop_some) (use summary_item in \<open>simp_all add: PbMetric_field_def reads_message_def reads_def valid_field_number_def
      reads_singular_rule [OF read_messages(7)]\<close>)
  have untyped_item: "length (wire_Untyped ub x) < 2 ^ 32 \<and>
      PbUntyped_merge_from R (PbUntyped_new R) (wire_Untyped ub x) = Some (Inr (fresh_Untyped x, []))"
    if "pme_untyped m = Some x" for x
    using length_in_some [OF that, of "wire_Untyped ub" 5] parses_Untyped [of x] assms that
    by (simp add: wire_Metric_def clean_Metric_def parses_def)
  have untyped_step: "?L (wire_some (\<lambda>v. wire_message 5 (wire_Untyped ub v)) (pme_untyped m) @ r)
      \<lparr>pme_label = map fresh_LabelPair (pme_label m), pme_gauge = map_option fresh_Gauge (pme_gauge m), pme_counter = map_option fresh_Counter (pme_counter m), pme_summary = map_option fresh_Summary (pme_summary m), pme_untyped = None, pme_histogram = None, pme_timestamp_ms = None, pme_unknown_fields = unknown_fields_default R, pme_cached_size = 0\<rparr> =
    ?L r \<lparr>pme_label = map fresh_LabelPair (pme_label m), pme_gauge = map_option fresh_Gauge (pme_gauge m), pme_counter = map_option fresh_Counter (pme_counter m), pme_summary = map_option fresh_Summary (pme_summary m), pme_untyped = map_option fresh_Untyped (pme_untyped m), pme_histogram = None, pme_timestamp_ms = None, pme_unknown_fields = unknown_fields_default R, pme_cached_size = 0\<rparr>" for r
    unfolding wire_message_def
    by (rule loop_some) (use untyped_item in \<open>simp_all add: PbMetric_field_def reads_message_def reads_def valid_field_number_def
      reads_singular_rule [OF read_messages(8)]\<close>)
  have histogram_item: "length (wire_Histogram ub x) < 2 ^ 32 \<and>
      PbHistogram_merge_from R (PbHistogram_new R) (wire_Histogram ub x) = Some (Inr (fresh_Histogram x, []))"
    if "pme_histogram m = Some x" for x
    using length_in_some [OF that, of "wire_Histogram ub" 7] parses_Histogram [of x] assms that
    by (simp add: wire_Metric_def clean_Metric_def parses_def)
  have histogram_step: "?L (wire_some (\<lambda>v. wire_message 7 (wire_Histogram ub v)) (pme_histogram m) @ r)
      \<lparr>pme_label = map fresh_LabelPair (pme_label m), pme_gauge = map_option fresh_Gauge (pme_gauge m), pme_counter = map_option fresh_Counter (pme_counter m), pme_summary = map_option fresh_Summary (pme_summary m), pme_untyped = map_option fresh_Untyped (pme_untyped m), pme_histogram = None, pme_timestamp_ms = None, pme_unknown_fields = unknown_fields_default R, pme_cached_size = 0\<rparr> =
    ?L r \<lparr>pme_label = map fresh_LabelPair (pme_label m), pme_gauge = map_option fresh_Gauge (pme_gauge m), pme_counter = map_option fresh_Counter (pme_counter m), pme_summary = map_option fresh_Summary (pme_summary m), pme_untyped = map_option fresh_Untyped (pme_untyped m), pme_histogram = map_option fresh_Histogram (pme_histogram m), pme_timestamp_ms = None, pme_unknown_fields = unknown_fields_default R, pme_cached_size = 0\<rparr>" for r
    unfolding wire_message_def
    by (rule loop_some) (use histogram_item in \<open>simp_all add: PbMetric_field_def reads_message_def reads_def valid_field_number_def
      reads_singular_rule [OF read_messages(9)]\<close>)
  have timestamp_ms_step: "?L (wire_some (wire_varint64 6) (pme_timestamp_ms m) @ r)
      \<lparr>pme_label = map fresh_LabelPair (pme_label m), pme_gauge = map_option fresh_Gauge (pme_gauge m), pme_counter = map_option fresh_Counter (pme_counter m), pme_summary = map_option fresh_Summary (pme_summary m), pme_untyped = map_option fresh_Untyped (pme_untyped m), pme_histogram = map_option fresh_Histogram (pme_histogram m), pme_timestamp_ms = None, pme_unknown_fields = unknown_fields_default R, pme_cached_size = 0\<rparr> =
    ?L r \<lparr>pme_label = map fresh_LabelPair (pme_label m), pme_gauge = map_option fresh_Gauge (pme_gauge m), pme_counter = map_option fresh_Counter (pme_counter m), pme_summary = map_option fresh_Summary (pme_summary m), pme_untyped = map_option fresh_Untyped (pme_untyped m), pme_histogram = map_option fresh_Histogram (pme_histogram m), pme_timestamp_ms = pme_timestamp_ms m, pme_unknown_fields = unknown_fields_default R, pme_cached_size = 0\<rparr>" for r
    unfolding wire_varint64_def
    by (rule loop_some) (simp_all add: PbMetric_field_def reads_def read_int64 valid_field_number_def)
  from assms(1) have "ub (pme_unknown_fields m) = []" "pme_unknown_fields m = unknown_fields_default R"
    by (simp_all add: clean_Metric_def no_unknown_fields)
  moreover from this have "\<lparr>pme_label = map fresh_LabelPair (pme_label m), pme_gauge = map_option fresh_Gauge (pme_gauge m), pme_counter = map_option fresh_Counter (pme_counter m), pme_summary = map_option fresh_Summary (pme_summary m), pme_untyped = map_option fresh_Untyped (pme_untyped m), pme_histogram = map_option fresh_Histogram (pme_histogram m), pme_timestamp_ms = pme_timestamp_ms m, pme_unknown_fields = unknown_fields_default R, pme_cached_size = 0\<rparr> = fresh_Metric m"
    by (cases m) (simp add: fresh_Metric_def)
  ultimately show ?thesis
    by (simp add: parses_def PbMetric_merge_from_def wire_Metric_def PbMetric_new_def loop_end
      label_step gauge_step counter_step summary_step untyped_step histogram_step timestamp_ms_step [of "[]", unfolded append_Nil2])
qed

lemma parses_MetricFamily:
  assumes "clean_MetricFamily R utf8 m" and "length (wire_MetricFamily ub m) < 2 ^ 32"
  shows "parses (PbMetricFamily_merge_from R) (PbMetricFamily_new R) (wire_MetricFamily ub) fresh_MetricFamily m"
proof -
  let ?L = "merge_loop (is_eof R) (is_read_tag_unpack R) (PbMetricFamily_field R)"
  have name_step: "?L (wire_some (wire_string 1) (pmf_name m) @ r)
      \<lparr>pmf_name = None, pmf_help = None, pmf_field_type = None, pmf_metric = [], pmf_unknown_fields = unknown_fields_default R, pmf_cached_size = 0\<rparr> =
    ?L r \<lparr>pmf_name = pmf_name m, pmf_help = None, pmf_field_type = None, pmf_metric = [], pmf_unknown_fields = unknown_fields_default R, pmf_cached_size = 0\<rparr>" for r
    unfolding wire_string_def
    by (rule loop_some) (use assms in \<open>auto simp: PbMetricFamily_field_def reads_def read_string valid_field_number_def
      wire_MetricFamily_def clean_MetricFamily_def wire_string_def\<close>)
  have help_step: "?L (wire_some (wire_string 2) (pmf_help m) @ r)
      \<lparr>pmf_name = pmf_name m, pmf_help = None, pmf_field_type = None, pmf_metric = [], pmf_unknown_fields = unknown_fields_default R, pmf_cached_size = 0\<rparr> =
    ?L r \<lparr>pmf_name = pmf_name m, pmf_help = pmf_help m, pmf_field_type = None, pmf_metric = [], pmf_unknown_fields = unknown_fields_default R, pmf_cached_size = 0\<rparr>" for r
    unfolding wire_string_def
    by (rule loop_some) (use assms in \<open>auto simp: PbMetricFamily_field_def reads_def read_string valid_field_number_def
      wire_MetricFamily_def clean_MetricFamily_def wire_string_def\<close>)
  have field_type_step: "?L (wire_some (wire_enum 3) (pmf_field_type m) @ r)
      \<lparr>pmf_name = pmf_name m, pmf_help = pmf_help m, pmf_field_type = None, pmf_metric = [], pmf_unknown_fields = unknown_fields_default R, pmf_cached_size = 0\<rparr> =
    ?L r \<lparr>pmf_name = pmf_name m, pmf_help = pmf_help m, pmf_field_type = pmf_field_type m, pmf_metric = [], pmf_unknown_fields = unknown_fields_default R, pmf_cached_size = 0\<rparr>" for r
    unfolding wire_enum_def wire_varint64_def
    by (rule loop_some) (simp_all add: PbMetricFamily_field_def reads_def read_enum valid_field_number_def)
  have metric_item: "length (wire_Metric ub x) < 2 ^ 32 \<and>
      PbMetric_merge_from R (PbMetric_new R) (wire_Metric ub x) = Some (Inr (fresh_Metric x, []))"
    if "x \<in> set (pmf_metric m)" for x
    using length_in_each [OF that, of "wire_Metric ub" 4] parses_Metric [of x] assms that
    by (simp add: wire_MetricFamily_def clean_MetricFamily_def list.pred_set parses_def)
  have metric_step: "?L (wire_each (\<lambda>v. wire_message 4 (wire_Metric ub v)) (pmf_metric m) @ r)
      \<lparr>pmf_name = pmf_name m, pmf_help = pmf_help m, pmf_field_type = pmf_field_type m, pmf_metric = [], pmf_unknown_fields = unknown_fields_default R, pmf_cached_size = 0\<rparr> =
    ?L r \<lparr>pmf_name = pmf_name m, pmf_help = pmf_help m, pmf_field_type = pmf_field_type m, pmf_metric = map fresh_Metric (pmf_metric m), pmf_unknown_fields = unknown_fields_default R, pmf_cached_size = 0\<rparr>" for r
    by (subst loop_nested_each [where put = "\<lambda>v m. m\<lparr>pmf_metric := v\<rparr>" and get = pmf_metric and fresh = fresh_Metric])
      (use metric_item in \<open>simp_all add: PbMetricFamily_field_def reads_message_def reads_def valid_field_number_def
        reads_repeated_rule [OF read_messages(4)]\<close>)
  from assms(1) have "ub (pmf_unknown_fields m) = []" "pmf_unknown_fields m = unknown_fields_default R"
    by (simp_all add: clean_MetricFamily_def no_unknown_fields)
  moreover from this have "\<lparr>pmf_name = pmf_name m, pmf_help = pmf_help m, pmf_field_type = pmf_field_type m, pmf_metric = map fresh_Metric (pmf_metric m), pmf_unknown_fields = unknown_fields_default R, pmf_cached_size = 0\<rparr> = fresh_MetricFamily m"
    by (cases m) (simp add: fresh_MetricFamily_def)
  ultimately show ?thesis
    by (simp add: parses_def PbMetricFamily_merge_from_def wire_MetricFamily_def PbMetricFamily_new_def loop_end
      name_step help_step field_type_step metric_step [of "[]", unfolded append_Nil2])
qed

end

section \<open>Parsing returns on every input\<close>

context protobuf_progress
begin

lemma returns_LabelPair: "returns (PbLabelPair_merge_from R)"
  unfolding returns_def PbLabelPair_merge_from_def PbLabelPair_field_def
  by (intro allI merge_loop_returns tag_progress field_progress value_progress)

lemma returns_Gauge: "returns (PbGauge_merge_from R)"
  unfolding returns_def PbGauge_merge_from_def PbGauge_field_def
  by (intro allI merge_loop_returns tag_progress field_progress value_progress)

lemma returns_Counter: "returns (PbCounter_merge_from R)"
  unfolding returns_def PbCounter_merge_from_def PbCounter_field_def
  by (intro allI merge_loop_returns tag_progress field_progress value_progress)

lemma returns_Quantile: "returns (PbQuantile_merge_from R)"
  unfolding returns_def PbQuantile_merge_from_def PbQuantile_field_def
  by (intro allI merge_loop_returns tag_progress field_progress value_progress)

lemma returns_Summary: "returns (PbSummary_merge_from R)"
  unfolding returns_def PbSummary_merge_from_def PbSummary_field_def
  by (intro allI merge_loop_returns tag_progress field_progress value_progress
      moves_progresses [OF message_progress(2) returns_Quantile])

lemma returns_Untyped: "returns (PbUntyped_merge_from R)"
  unfolding returns_def PbUntyped_merge_from_def PbUntyped_field_def
  by (intro allI merge_loop_returns tag_progress field_progress value_progress)

lemma returns_Bucket: "returns (PbBucket_merge_from R)"
  unfolding returns_def PbBucket_merge_from_def PbBucket_field_def
  by (intro allI merge_loop_returns tag_progress field_progress value_progress)

lemma returns_Histogram: "returns (PbHistogram_merge_from R)"
  unfolding returns_def PbHistogram_merge_from_def PbHistogram_field_def
  by (intro allI merge_loop_returns tag_progress field_progress value_progress
      moves_progresses [OF message_progress(3) returns_Bucket])

lemma returns_Metric: "returns (PbMetric_merge_from R)"
  unfolding returns_def PbMetric_merge_from_def PbMetric_field_def
  by (intro allI merge_loop_returns tag_progress field_progress value_progress
      moves_progresses [OF message_progress(1) returns_LabelPair]
      moves_progresses [OF message_progress(5) returns_Gauge]
      moves_progresses [OF message_progress(6) returns_Counter]
      moves_progresses [OF message_progress(7) returns_Summary]
      moves_progresses [OF message_progress(8) returns_Untyped]
      moves_progresses [OF message_progress(9) returns_Histogram])

lemma returns_MetricFamily: "returns (PbMetricFamily_merge_from R)"
  unfolding returns_def PbMetricFamily_merge_from_def PbMetricFamily_field_def
  by (intro allI merge_loop_returns tag_progress field_progress value_progress
      moves_progresses [OF message_progress(4) returns_Metric])

end

end
