(* ===== verification/Pb_Plain.thy ===== *)
theory Pb_Plain
  imports Pb_Spec
begin

text \<open>
  The crate has two data models with the same accessors: the plain one (\<open>plain_model.rs\<close>, the
  theory \<open>Metric_Model\<close>, over which the rest of the library is modelled) and the generated one
  (\<open>proto_model.rs\<close>, used with the feature \<open>protobuf\<close>). Read through its getters, a generated
  message is a plain one, and each accessor the library calls does the same to both.
\<close>

section \<open>Bits of floating-point numbers\<close>

text \<open>\<open>f64::from_bits\<close>; the model of \<open>f64\<close> has one zero and one NaN.\<close>

definition f64_from_bits :: "u64 \<Rightarrow> f64" where
  "f64_from_bits b =
     (let e = unat b div 2 ^ 52 mod 2 ^ 11;
          m = unat b mod 2 ^ 52;
          negative = (2 ^ 63 \<le> unat b)
      in if e = 2047 then (if m \<noteq> 0 then NaN else if negative then NInf else PInf)
         else let x = (if e = 0 then of_nat m * 2 powi (- 1074) else of_nat (2 ^ 52 + m) * 2 powi (int e - 1075))
              in Fin (if negative then - x else x))"

lemma f64_from_bits_0 [simp]: "f64_from_bits 0 = Fin 0"
  by (simp add: f64_from_bits_def)

lemma f64_from_bits_examples:
  "f64_from_bits 0x3FF0000000000000 = Fin 1"
  "f64_from_bits 0xC004000000000000 = Fin (- 5 / 2)"
  "f64_from_bits 0x7FF0000000000000 = PInf"
  by (simp_all add: f64_from_bits_def power_int_def power_one_over)

section \<open>A generated message as a plain one\<close>

definition abs_LabelPair :: "'u PbLabelPair \<Rightarrow> LabelPair" where
  "abs_LabelPair m = \<lparr>lp_name = PbLabelPair_get_name m, lp_value = PbLabelPair_get_value m\<rparr>"

definition abs_Gauge :: "'u PbGauge \<Rightarrow> ProtoGauge" where
  "abs_Gauge m = \<lparr>gauge_value = f64_from_bits (PbGauge_get_value m)\<rparr>"

definition abs_Counter :: "'u PbCounter \<Rightarrow> ProtoCounter" where
  "abs_Counter m = \<lparr>counter_value = f64_from_bits (PbCounter_get_value m)\<rparr>"

definition abs_Quantile :: "'u PbQuantile \<Rightarrow> Quantile" where
  "abs_Quantile m =
     \<lparr>q_quantile = f64_from_bits (PbQuantile_get_quantile m), q_value = f64_from_bits (PbQuantile_get_value m)\<rparr>"

definition abs_Summary :: "'u PbSummary \<Rightarrow> Summary" where
  "abs_Summary m =
     \<lparr>sm_sample_count = PbSummary_get_sample_count m,
      sm_sample_sum = f64_from_bits (PbSummary_get_sample_sum m),
      sm_quantile = map abs_Quantile (PbSummary_get_quantile m)\<rparr>"

definition abs_Untyped :: "'u PbUntyped \<Rightarrow> ProtoUntyped" where
  "abs_Untyped m = \<lparr>untyped_value = f64_from_bits (PbUntyped_get_value m)\<rparr>"

definition abs_Bucket :: "'u PbBucket \<Rightarrow> Bucket" where
  "abs_Bucket m =
     \<lparr>b_cumulative_count = PbBucket_get_cumulative_count m,
      b_upper_bound = f64_from_bits (PbBucket_get_upper_bound m)\<rparr>"

definition abs_Histogram :: "'u PbHistogram \<Rightarrow> ProtoHistogram" where
  "abs_Histogram m =
     \<lparr>ph_sample_count = PbHistogram_get_sample_count m,
      ph_sample_sum = f64_from_bits (PbHistogram_get_sample_sum m),
      ph_bucket = map abs_Bucket (PbHistogram_get_bucket m)\<rparr>"

definition abs_Metric :: "'u protobuf \<Rightarrow> 'u PbMetric \<Rightarrow> Metric" where
  "abs_Metric R m =
     \<lparr>m_label = map abs_LabelPair (PbMetric_get_label m),
      m_gauge = abs_Gauge (PbMetric_get_gauge R m),
      m_counter = abs_Counter (PbMetric_get_counter R m),
      m_summary = abs_Summary (PbMetric_get_summary R m),
      m_untyped = abs_Untyped (PbMetric_get_untyped R m),
      m_histogram = abs_Histogram (PbMetric_get_histogram R m),
      m_timestamp_ms = PbMetric_get_timestamp_ms m\<rparr>"

definition abs_MetricFamily :: "'u protobuf \<Rightarrow> 'u PbMetricFamily \<Rightarrow> MetricFamily" where
  "abs_MetricFamily R m =
     \<lparr>mf_name = PbMetricFamily_get_name m, mf_help = PbMetricFamily_get_help m,
      mf_field_type = PbMetricFamily_get_field_type m,
      mf_metric = map (abs_Metric R) (PbMetricFamily_get_metric m)\<rparr>"

named_theorems pb_accessor_defs \<open>definitions of the accessors the library calls\<close>

lemmas [pb_accessor_defs] =
  PbLabelPair_set_name_def PbLabelPair_set_value_def PbLabelPair_get_name_def PbLabelPair_get_value_def
  PbGauge_set_value_def PbGauge_get_value_def PbCounter_set_value_def PbCounter_get_value_def
  PbQuantile_get_quantile_def PbQuantile_get_value_def
  PbSummary_get_sample_count_def PbSummary_get_sample_sum_def PbSummary_get_quantile_def
  PbUntyped_get_value_def
  PbBucket_set_cumulative_count_def PbBucket_set_upper_bound_def
  PbBucket_get_cumulative_count_def PbBucket_get_upper_bound_def
  PbHistogram_set_sample_count_def PbHistogram_set_sample_sum_def PbHistogram_set_bucket_def
  PbHistogram_get_sample_count_def PbHistogram_get_sample_sum_def PbHistogram_get_bucket_def
  PbMetric_set_label_def PbMetric_set_gauge_def PbMetric_set_counter_def PbMetric_set_histogram_def
  PbMetric_set_timestamp_ms_def PbMetric_take_label_def PbMetric_get_label_def PbMetric_get_gauge_def
  PbMetric_get_counter_def PbMetric_get_summary_def PbMetric_get_untyped_def PbMetric_get_histogram_def
  PbMetric_get_timestamp_ms_def
  PbMetricFamily_set_name_def PbMetricFamily_set_help_def PbMetricFamily_set_field_type_def
  PbMetricFamily_set_metric_def PbMetricFamily_mut_metric_def PbMetricFamily_take_metric_def
  PbMetricFamily_get_name_def PbMetricFamily_get_help_def PbMetricFamily_get_field_type_def
  PbMetricFamily_get_metric_def

lemmas pb_abs_defs =
  abs_LabelPair_def abs_Gauge_def abs_Counter_def abs_Quantile_def abs_Summary_def abs_Untyped_def
  abs_Bucket_def abs_Histogram_def abs_Metric_def abs_MetricFamily_def

section \<open>Accessors\<close>

lemma abs_LabelPair_set:
  "abs_LabelPair (PbLabelPair_set_name v m) = abs_LabelPair m\<lparr>lp_name := v\<rparr>"
  "abs_LabelPair (PbLabelPair_set_value v m) = abs_LabelPair m\<lparr>lp_value := v\<rparr>"
  by (simp_all add: pb_abs_defs pb_accessor_defs)

lemma abs_values_set:
  "abs_Gauge (PbGauge_set_value b g) = abs_Gauge g\<lparr>gauge_value := f64_from_bits b\<rparr>"
  "abs_Counter (PbCounter_set_value b c) = abs_Counter c\<lparr>counter_value := f64_from_bits b\<rparr>"
  by (simp_all add: pb_abs_defs pb_accessor_defs)

lemma abs_Bucket_set:
  "abs_Bucket (PbBucket_set_cumulative_count n m) = abs_Bucket m\<lparr>b_cumulative_count := n\<rparr>"
  "abs_Bucket (PbBucket_set_upper_bound b m) = abs_Bucket m\<lparr>b_upper_bound := f64_from_bits b\<rparr>"
  by (simp_all add: pb_abs_defs pb_accessor_defs)

lemma abs_Histogram_set:
  "abs_Histogram (PbHistogram_set_sample_count n m) = abs_Histogram m\<lparr>ph_sample_count := n\<rparr>"
  "abs_Histogram (PbHistogram_set_sample_sum b m) = abs_Histogram m\<lparr>ph_sample_sum := f64_from_bits b\<rparr>"
  "abs_Histogram (PbHistogram_set_bucket bs m) = abs_Histogram m\<lparr>ph_bucket := map abs_Bucket bs\<rparr>"
  by (simp_all add: pb_abs_defs pb_accessor_defs)

lemma abs_Metric_set:
  "abs_Metric R (PbMetric_set_label ls m) = abs_Metric R m\<lparr>m_label := map abs_LabelPair ls\<rparr>"
  "abs_Metric R (PbMetric_set_gauge g m) = abs_Metric R m\<lparr>m_gauge := abs_Gauge g\<rparr>"
  "abs_Metric R (PbMetric_set_counter c m) = abs_Metric R m\<lparr>m_counter := abs_Counter c\<rparr>"
  "abs_Metric R (PbMetric_set_histogram h m) = abs_Metric R m\<lparr>m_histogram := abs_Histogram h\<rparr>"
  "abs_Metric R (PbMetric_set_timestamp_ms t m) = abs_Metric R m\<lparr>m_timestamp_ms := t\<rparr>"
  by (simp_all add: abs_Metric_def pb_accessor_defs)

lemma abs_Metric_take:
  "PbMetric_take_label m = (ls, m') \<Longrightarrow>
    map abs_LabelPair ls = m_label (abs_Metric R m) \<and> abs_Metric R m' = abs_Metric R m\<lparr>m_label := []\<rparr>"
  by (auto simp: abs_Metric_def pb_accessor_defs)

lemma abs_MetricFamily_set:
  "abs_MetricFamily R (PbMetricFamily_set_name v m) = abs_MetricFamily R m\<lparr>mf_name := v\<rparr>"
  "abs_MetricFamily R (PbMetricFamily_set_help v m) = abs_MetricFamily R m\<lparr>mf_help := v\<rparr>"
  "abs_MetricFamily R (PbMetricFamily_set_field_type t m) = abs_MetricFamily R m\<lparr>mf_field_type := t\<rparr>"
  "abs_MetricFamily R (PbMetricFamily_set_metric ms m) =
     abs_MetricFamily R m\<lparr>mf_metric := map (abs_Metric R) ms\<rparr>"
  by (simp_all add: abs_MetricFamily_def pb_accessor_defs)

lemma abs_MetricFamily_mut:
  assumes "\<And>ms. map (abs_Metric R) (f ms) = g (map (abs_Metric R) ms)"
  shows "abs_MetricFamily R (PbMetricFamily_mut_metric f m) =
    abs_MetricFamily R m\<lparr>mf_metric := g (mf_metric (abs_MetricFamily R m))\<rparr>"
  by (simp add: abs_MetricFamily_def pb_accessor_defs assms)

lemma abs_MetricFamily_take:
  "PbMetricFamily_take_metric m = (ms, m') \<Longrightarrow>
    map (abs_Metric R) ms = mf_metric (abs_MetricFamily R m) \<and>
    abs_MetricFamily R m' = abs_MetricFamily R m\<lparr>mf_metric := []\<rparr>"
  by (auto simp: abs_MetricFamily_def pb_accessor_defs)

lemma abs_new:
  "abs_Metric R (PbMetric_new R) = Metric_default"
  "abs_MetricFamily R (PbMetricFamily_new R) = MetricFamily_default"
  by (simp_all add: pb_abs_defs pb_accessor_defs Metric_default_def MetricFamily_default_def
      PbMetric_new_def PbMetricFamily_new_def PbGauge_new_def PbCounter_new_def PbSummary_new_def
      PbUntyped_new_def PbHistogram_new_def)

section \<open>Cached sizes do not show\<close>

lemma abs_fresh [simp]:
  "abs_LabelPair (fresh_LabelPair lp) = abs_LabelPair lp"
  "abs_Gauge (fresh_Gauge g) = abs_Gauge g"
  "abs_Counter (fresh_Counter c) = abs_Counter c"
  "abs_Quantile (fresh_Quantile q) = abs_Quantile q"
  "abs_Untyped (fresh_Untyped u) = abs_Untyped u"
  "abs_Bucket (fresh_Bucket b) = abs_Bucket b"
  by (simp_all add: pb_abs_defs pb_accessor_defs fresh_LabelPair_def fresh_Gauge_def fresh_Counter_def
      fresh_Quantile_def fresh_Untyped_def fresh_Bucket_def)

lemma abs_fresh_lists [simp]:
  "abs_Summary (fresh_Summary s) = abs_Summary s"
  "abs_Histogram (fresh_Histogram h) = abs_Histogram h"
  by (simp_all add: abs_Summary_def abs_Histogram_def pb_accessor_defs fresh_Summary_def fresh_Histogram_def)

lemma abs_fresh_Metric [simp]: "abs_Metric R (fresh_Metric m) = abs_Metric R m"
  by (simp add: abs_Metric_def pb_accessor_defs fresh_Metric_def split: option.split)

lemma abs_fresh_MetricFamily [simp]: "abs_MetricFamily R (fresh_MetricFamily m) = abs_MetricFamily R m"
  by (simp add: abs_MetricFamily_def pb_accessor_defs fresh_MetricFamily_def comp_def)

section \<open>The delimited encoding of families\<close>

definition wire_delimited :: "('u \<Rightarrow> bytes) \<Rightarrow> 'u PbMetricFamily \<Rightarrow> bytes" where
  "wire_delimited ub mf = varint (length (wire_MetricFamily ub mf)) @ wire_MetricFamily ub mf"

definition complete_family :: "MetricFamily \<Rightarrow> bool" where
  "complete_family mf \<longleftrightarrow> mf_metric mf \<noteq> [] \<and> mf_name mf \<noteq> []"

lemma pb_check_metric_family_abs:
  "pb_check_metric_family dbg mf = Inr () \<longleftrightarrow> complete_family (abs_MetricFamily R mf)"
  by (simp add: pb_check_metric_family_def complete_family_def abs_MetricFamily_def)

context protobuf_runtime
begin

lemma write_family:
  assumes "length (wire_MetricFamily ub mf) < 2 ^ 32"
  shows "write_length_delimited_to_writer R (PbMetricFamily_compute_size R)
      (PbMetricFamily_write_to_with_cached_sizes R) mf out = Inr (out @ wire_delimited ub mf)"
proof -
  obtain n mf' where cs: "PbMetricFamily_compute_size R mf = (n, mf')" by fastforce
  with codes_MetricFamily [OF assms]
  have "n = word_of_nat (length (wire_MetricFamily ub mf))"
    and "appends (PbMetricFamily_write_to_with_cached_sizes R mf') (wire_MetricFamily ub mf)"
    by (simp_all add: codes_def)
  with write_delimited [of "PbMetricFamily_compute_size R" mf n mf' _ "wire_MetricFamily ub mf"] cs assms
  show ?thesis by (simp add: appends_def [of "write_length_delimited_to_writer _ _ _ _"] wire_delimited_def
      unat_word_of_nat32)
qed

lemma encode_families:
  assumes "\<And>mf. mf \<in> set mfs \<Longrightarrow> length (wire_MetricFamily ub mf) < 2 ^ 32"
  shows "ProtobufEncoder_encode R dbg show_err mfs out =
    (case List.find (\<lambda>mf. \<not> complete_family (abs_MetricFamily R mf)) mfs of
       None \<Rightarrow> Inr ()
     | Some mf \<Rightarrow> pb_check_metric_family dbg mf,
     out @ concat (map (wire_delimited ub) (takeWhile (\<lambda>mf. complete_family (abs_MetricFamily R mf)) mfs)))"
  using assms
proof (induction mfs arbitrary: out)
  case (Cons mf mfs)
  then show ?case
    using pb_check_metric_family_abs [of dbg mf R]
    by (auto simp: write_family split: sum.splits)
qed simp

end

end
