(* ===== verification/Pb_Runtime.thy ===== *)
theory Pb_Runtime
  imports Pb_Spec
begin

text \<open>
  A runtime that follows the protobuf documentation: it obeys the laws of \<open>Pb_Wire\<close>, so that
  they can hold, and witnesses evaluate with it. Unknown fields are kept as their bytes.
\<close>

section \<open>Reading\<close>

fun read_varint :: "bytes \<Rightarrow> (nat \<times> bytes) pb_result" where
  "read_varint [] = Inl (PbError ''unexpected EOF'')"
| "read_varint (b # bs) =
     (if b < 128 then Inr (unat b, bs)
      else bind_res (read_varint bs) (\<lambda>(n, r). Inr (unat b - 128 + 128 * n, r)))"

definition read_exactly :: "nat \<Rightarrow> bytes \<Rightarrow> (bytes \<times> bytes) pb_result" where
  "read_exactly k bs =
     (if length bs < k then Inl (PbError ''unexpected EOF'') else Inr (take k bs, drop k bs))"

definition read_delimited :: "bytes \<Rightarrow> (bytes \<times> bytes) pb_result" where
  "read_delimited bs = bind_res (read_varint bs) (\<lambda>(len, r). read_exactly len r)"

fun le_value :: "bytes \<Rightarrow> nat" where
  "le_value [] = 0"
| "le_value (b # bs) = unat b + 256 * le_value bs"

definition wire_type_of :: "nat \<Rightarrow> WireType option" where
  "wire_type_of c = List.find (\<lambda>wt. wire_type_code wt = c)
     [WireTypeVarint, WireTypeFixed64, WireTypeLengthDelimited, WireTypeStartGroup, WireTypeEndGroup,
      WireTypeFixed32]"

definition read_tag :: "bytes \<Rightarrow> ((u32 \<times> WireType) \<times> bytes) pb_result" where
  "read_tag bs =
     bind_res (read_varint bs) (\<lambda>(t, r).
       if 0 < t div 8 \<and> t div 8 < 2 ^ 29 then
         bind_res (ok_or (PbError ''bad tag'') (wire_type_of (t mod 8))) (\<lambda>wt. Inr ((word_of_nat (t div 8), wt), r))
       else Inl (PbError ''bad tag''))"

definition read_u64 :: "bytes \<Rightarrow> (u64 \<times> bytes) pb_result" where
  "read_u64 bs = bind_res (read_varint bs) (\<lambda>(v, r). Inr (word_of_nat v, r))"

definition read_f64 :: "bytes \<Rightarrow> (u64 \<times> bytes) pb_result" where
  "read_f64 bs = bind_res (read_exactly 8 bs) (\<lambda>(v, r). Inr (word_of_nat (le_value v), r))"

definition string_of_bytes :: "bytes \<Rightarrow> string" where
  "string_of_bytes bs = map (\<lambda>b. char_of (unat b)) bs"

definition read_string :: "WireType \<Rightarrow> bytes \<Rightarrow> string option \<Rightarrow> (string option \<times> bytes) pb_result" where
  "read_string wt bs old =
     (if wt = WireTypeLengthDelimited
      then bind_res (read_delimited bs) (\<lambda>(p, r). Inr (Some (string_of_bytes p), r))
      else Inl (UnexpectedWireType wt))"

definition read_payload :: "WireType \<Rightarrow> bytes \<Rightarrow> (bytes \<times> bytes) pb_result" where
  "read_payload wt bs =
     (case wt of
        WireTypeVarint \<Rightarrow> bind_res (read_varint bs) (\<lambda>(v, r). Inr (varint v, r))
      | WireTypeFixed64 \<Rightarrow> read_exactly 8 bs
      | WireTypeFixed32 \<Rightarrow> read_exactly 4 bs
      | WireTypeLengthDelimited \<Rightarrow>
          bind_res (read_delimited bs) (\<lambda>(p, r). Inr (varint (length p) @ p, r))
      | _ \<Rightarrow> Inl (UnexpectedWireType wt))"

definition read_unknown :: "u32 \<Rightarrow> WireType \<Rightarrow> bytes \<Rightarrow> bytes \<Rightarrow> (bytes \<times> bytes) pb_result" where
  "read_unknown n wt bs u = bind_res (read_payload wt bs) (\<lambda>(p, r). Inr (u @ wire_tag n wt @ p, r))"

definition read_enum ::
  "(i32 \<Rightarrow> MetricType option) \<Rightarrow> WireType \<Rightarrow> bytes \<Rightarrow> MetricType option \<Rightarrow> u32 \<Rightarrow> bytes
    \<Rightarrow> ((MetricType option \<times> bytes) \<times> bytes) pb_result" where
  "read_enum from_i32 wt bs old n u =
     (if wt = WireTypeVarint
      then bind_res (read_u64 bs) (\<lambda>(v, r).
        case from_i32 (ucast v) of
          Some t \<Rightarrow> Inr ((Some t, u), r)
        | None \<Rightarrow> Inr ((old, u @ wire_varint64 n v), r))
      else Inl (UnexpectedWireType wt))"

definition read_message :: "'m merger \<Rightarrow> 'm \<Rightarrow> WireType \<Rightarrow> bytes \<Rightarrow> 'm reading" where
  "read_message merge new wt bs =
     (if wt = WireTypeLengthDelimited
      then (case read_delimited bs of
              Inl e \<Rightarrow> Some (Inl e)
            | Inr (p, r) \<Rightarrow> map_option (\<lambda>res. bind_res res (\<lambda>(x, rest). Inr (x, r))) (merge new p))
      else Some (Inl (UnexpectedWireType wt)))"

definition read_singular :: "'m singular_reader" where
  "read_singular merge new wt bs old = reads_message Some (read_message merge new wt bs)"

definition read_repeated :: "'m repeated_reader" where
  "read_repeated merge new wt bs old = reads_message (\<lambda>x. old @ [x]) (read_message merge new wt bs)"

definition wire_runtime :: "bytes protobuf" where
  "wire_runtime =
     \<lparr>unknown_fields_default = [], unknown_fields_clear = (\<lambda>_. []),
      unknown_fields_size = (\<lambda>u. word_of_nat (length u)),
      string_size = (\<lambda>n s. word_of_nat (length (wire_string n s))),
      value_size = (\<lambda>n v _. word_of_nat (length (wire_varint64 n v))),
      enum_size = (\<lambda>n t. word_of_nat (length (wire_enum n t))),
      compute_raw_varint32_size = (\<lambda>v. word_of_nat (length (varint (unat v)))),
      os_write_tag = (\<lambda>n wt os. Inr (os @ wire_tag n wt)),
      os_write_raw_varint32 = (\<lambda>v os. Inr (os @ varint (unat v))),
      os_write_string = (\<lambda>n s os. Inr (os @ wire_string n s)),
      os_write_double = (\<lambda>n v os. Inr (os @ wire_double n v)),
      os_write_uint64 = (\<lambda>n v os. Inr (os @ wire_varint64 n v)),
      os_write_int64 = (\<lambda>n v os. Inr (os @ wire_varint64 n v)),
      os_write_enum = (\<lambda>n v os. Inr (os @ wire_varint64 n (scast v))),
      os_write_unknown_fields = (\<lambda>u os. Inr (os @ u)),
      is_eof = (\<lambda>bs. Inr (bs = [])),
      is_read_tag_unpack = read_tag,
      is_read_double = read_f64,
      is_read_uint64 = read_u64,
      is_read_int64 = read_u64,
      read_singular_string_into = read_string,
      read_proto2_enum_with_unknown_fields_into = read_enum,
      read_unknown_or_skip_group = read_unknown,
      read_repeated_LabelPair_into = read_repeated,
      read_repeated_Quantile_into = read_repeated,
      read_repeated_Bucket_into = read_repeated,
      read_repeated_Metric_into = read_repeated,
      read_singular_Gauge_into = read_singular,
      read_singular_Counter_into = read_singular,
      read_singular_Summary_into = read_singular,
      read_singular_Untyped_into = read_singular,
      read_singular_Histogram_into = read_singular,
      write_length_delimited_to_writer =
        (\<lambda>compute_size write_to mf os.
           case compute_size mf of (n, mf) \<Rightarrow> write_to mf (os @ varint (unat n)))\<rparr>"

section \<open>It obeys the laws\<close>

lemma unat_word_of_nat8: "n < 256 \<Longrightarrow> unat (word_of_nat n :: u8) = n"
  by (simp add: unat_of_nat take_bit_nat_eq_self)

lemma read_varint_varint [simp]: "read_varint (varint n @ r) = Inr (n, r)"
proof (induction n rule: varint.induct)
  case (1 n)
  show ?case
  proof (cases "n < 128")
    case True
    then show ?thesis
      by (subst varint.simps) (simp add: unat_word_of_nat8 word_less_nat_alt)
  next
    case False
    then have "128 + n mod 128 < 256" by simp
    then have "unat (word_of_nat (128 + n mod 128) :: u8) = 128 + n mod 128"
      by (rule unat_word_of_nat8)
    then show ?thesis
      by (subst varint.simps) (simp add: False 1 word_less_nat_alt del: of_nat_add)
  qed
qed

lemma read_exactly_append [simp]: "length p = k \<Longrightarrow> read_exactly k (p @ r) = Inr (p, r)"
  by (simp add: read_exactly_def)

lemma read_delimited_append [simp]: "read_delimited (varint (length p) @ p @ r) = Inr (p, r)"
  by (simp add: read_delimited_def)

lemma le_value_le_bytes: "le_value (le_bytes k n) = n mod 256 ^ k"
proof (induction k arbitrary: n)
  case (Suc k)
  have "unat (word_of_nat (n mod 256) :: u8) = n mod 256" by (simp add: unat_word_of_nat8)
  then show ?case
    by (simp add: Suc mod_mult2_eq)
qed simp

lemma wire_type_of_code: "wire_type_of (wire_type_code wt) = Some wt"
  by (cases wt) (simp_all add: wire_type_of_def)

lemma read_tag_wire_tag: "valid_field_number n \<Longrightarrow> read_tag (wire_tag n wt @ r) = Inr ((n, wt), r)"
proof -
  assume "valid_field_number n"
  moreover have "wire_type_code wt < 8" by (cases wt) simp_all
  ultimately show ?thesis
    by (simp add: read_tag_def wire_tag_def wire_type_of_code valid_field_number_def)
qed

lemma string_of_as_bytes: "string_of_bytes (as_bytes s) = s"
proof -
  have "unat (word_of_nat (of_char c) :: u8) = of_char c" for c
    by (rule unat_word_of_nat8) (rule nat_of_char_less_256)
  then show ?thesis by (simp add: string_of_bytes_def as_bytes_def comp_def)
qed

lemma read_f64_le_bytes: "read_f64 (le_bytes 8 (unat d) @ r) = Inr (d, r)"
proof -
  have "unat d < 256 ^ 8" using unat_lt2p [of d] by simp
  then show ?thesis by (simp add: read_f64_def le_value_le_bytes)
qed

lemma reads_singular_read: "reads_singular read_singular"
  by (simp add: reads_singular_def read_singular_def read_message_def reads_message_def reads_def)

lemma reads_repeated_read: "reads_repeated read_repeated"
  by (simp add: reads_repeated_def read_repeated_def read_message_def reads_message_def reads_def)

lemma ucast_scast32: "ucast (scast (v :: i32) :: u64) = v"
  by (rule bit_word_eqI) (auto simp: bit_simps)

lemmas read_delimited_string = read_delimited_append [of "as_bytes s" for s, unfolded length_as_bytes]

interpretation wire: protobuf_runtime wire_runtime "\<lambda>u. u" "\<lambda>_. True"
  by unfold_locales
    (simp_all add: wire_runtime_def appends_def read_tag_wire_tag read_f64_le_bytes read_u64_def read_string_def
      read_delimited_string string_of_as_bytes read_enum_def ucast_scast32 reads_singular_read reads_repeated_read wire_enum_def)

section \<open>It moves forward\<close>

lemma read_varint_shrinks: "read_varint bs = Inr (n, r) \<Longrightarrow> length r < length bs"
  by (induction bs arbitrary: n r) (auto simp: bind_res_Inr_iff less_SucI split: if_splits)

lemma read_exactly_forward: "forward bs (read_exactly k bs)"
  by (simp add: forward_def read_exactly_def)

lemma read_varint_forward: "forward bs (read_varint bs)"
  using read_varint_shrinks by (auto simp: forward_def less_imp_le)

lemma forward_bind:
  assumes "forward bs r" and "\<And>x bs'. r = Inr (x, bs') \<Longrightarrow> forward bs' (f (x, bs'))"
  shows "forward bs (bind_res r f)"
proof (cases r)
  case (Inr y)
  obtain x bs' where "y = (x, bs')" by (cases y)
  with Inr assms(1) assms(2) [of x bs'] show ?thesis
    by (auto simp: forward_def intro: order_trans)
qed (simp add: forward_def)

lemma forward_Inr: "forward bs (Inr (x, bs))" and forward_Inl: "forward bs (Inl e)"
  by (simp_all add: forward_def)

lemma read_delimited_forward: "forward bs (read_delimited bs)"
  unfolding read_delimited_def by (rule forward_bind) (simp_all add: read_varint_forward read_exactly_forward)

lemma read_payload_forward: "forward bs (read_payload wt bs)"
  by (cases wt)
    (auto simp: read_payload_def read_exactly_forward forward_Inl
      intro!: forward_bind read_varint_forward read_delimited_forward forward_Inr)

lemma read_u64_forward: "forward bs (read_u64 bs)"
  by (auto simp: read_u64_def intro!: forward_bind read_varint_forward forward_Inr)

lemma read_message_progresses: "returns merge \<Longrightarrow> progresses bs (read_message merge new wt bs)"
  using read_delimited_forward [of bs]
  by (fastforce simp: returns_def progresses_def read_message_def forward_def bind_res_Inr_iff split: sum.splits)

lemma moves_read: "moves read_singular" "moves read_repeated"
  by (simp_all add: moves_def read_singular_def read_repeated_def progresses_reads_message read_message_progresses)

interpretation wire_reader: protobuf_progress wire_runtime
proof unfold_locales
  show "length is' < length is" if "is_read_tag_unpack wire_runtime is = Inr (t, is')" for "is" t is'
    using that by (auto simp: wire_runtime_def read_tag_def bind_res_Inr_iff ok_or_Inr_iff
      dest!: read_varint_shrinks split: if_splits)
  show "forward is (is_read_double wire_runtime is)" for "is"
    by (auto simp: wire_runtime_def read_f64_def intro!: forward_bind read_exactly_forward forward_Inr)
  show "forward is (read_singular_string_into wire_runtime wt is old_s)" for "is" wt old_s
    by (auto simp: wire_runtime_def read_string_def forward_Inl intro!: forward_bind read_delimited_forward forward_Inr)
  show "forward is (read_proto2_enum_with_unknown_fields_into wire_runtime from_i32 wt is old_t n u)"
    for "is" wt from_i32 old_t n u
    by (auto simp: wire_runtime_def read_enum_def forward_Inl forward_Inr intro!: forward_bind read_u64_forward
      split: option.split)
  show "forward is (read_unknown_or_skip_group wire_runtime n wt is u)" for n wt "is" u
    by (auto simp: wire_runtime_def read_unknown_def intro!: forward_bind read_payload_forward forward_Inr)
qed (simp_all add: wire_runtime_def moves_read read_u64_forward)

end
