(* ===== verification/Pb_Reflect.thy ===== *)
theory Pb_Reflect
  imports Pb_Model
begin

text \<open>
  The reflection interface of the generated protobuf model
  (\<open>src/prometheus/proto/proto_model.rs\<close>): for each message the list of its field accessors,
  from which \<open>descriptor_static\<close> makes the message's descriptor, the message as a
  \<open>ProtobufValueRef\<close>, and the serialised description of the schema that the file embeds. The
  crate's accessors and descriptors are kept as the arguments that the code builds them from. Of
  an accessor's two closures, the one that reads is modelled; the other borrows the same field
  mutably. A lazily initialised static is its initial value.
\<close>

section \<open>Values, accessors and descriptors\<close>

text \<open>
  A value seen by reflection: a message is its name, its fields with the values that are present,
  and its unknown fields.
\<close>

datatype 'u pb_value =
    VString string
  | VDouble u64
  | VUint64 u64
  | VInt64 i64
  | VEnum i32
  | VMessage string "'u pb_field list" 'u
and 'u pb_field = Field string "'u pb_value list"

datatype protobuf_type =
    ProtobufTypeString
  | ProtobufTypeDouble
  | ProtobufTypeUint64
  | ProtobufTypeInt64
  | ProtobufTypeEnum string
  | ProtobufTypeMessage string

datatype container = SingularField | OptionField | SingularPtrField | RepeatedField

record ('m, 'u) accessor =
  ac_container :: container
  ac_type :: protobuf_type
  ac_name :: string
  ac_get :: "'m \<Rightarrow> 'u pb_value list"

definition make_accessor ::
  "container \<Rightarrow> protobuf_type \<Rightarrow> string \<Rightarrow> ('m \<Rightarrow> 'u pb_value list) \<Rightarrow> ('m, 'u) accessor" where
  "make_accessor c t name get = \<lparr>ac_container = c, ac_type = t, ac_name = name, ac_get = get\<rparr>"

record ('m, 'u) MessageDescriptor =
  md_name :: string
  md_fields :: "('m, 'u) accessor list"

definition MessageDescriptor_new :: "string \<Rightarrow> ('m, 'u) accessor list \<Rightarrow> ('m, 'u) MessageDescriptor" where
  "MessageDescriptor_new name accessors = \<lparr>md_name = name, md_fields = accessors\<rparr>"

definition reflect :: "('m, 'u) MessageDescriptor \<Rightarrow> 'm \<Rightarrow> 'u pb_field list" where
  "reflect d m = map (\<lambda>a. Field (ac_name a) (ac_get a m)) (md_fields d)"

definition message_value :: "('m, 'u) MessageDescriptor \<Rightarrow> 'm \<Rightarrow> 'u \<Rightarrow> 'u pb_value" where
  "message_value d m u = VMessage (md_name d) (reflect d m) u"

fun present :: "'a option \<Rightarrow> 'a list" where
  "present None = []"
| "present (Some x) = [x]"

section \<open>The messages\<close>

definition MetricType_as_ref :: "MetricType \<Rightarrow> 'u pb_value" where
  "MetricType_as_ref t = VEnum (MetricType_value t)"

definition PbLabelPair_descriptor_static :: "('u PbLabelPair, 'u) MessageDescriptor" where
  "PbLabelPair_descriptor_static =
     MessageDescriptor_new ''LabelPair''
       [make_accessor SingularField ProtobufTypeString ''name''
          (\<lambda>m. map VString (present (plp_name m))),
        make_accessor SingularField ProtobufTypeString ''value''
          (\<lambda>m. map VString (present (plp_value m)))]"

definition PbLabelPair_as_ref :: "'u PbLabelPair \<Rightarrow> 'u pb_value" where
  "PbLabelPair_as_ref m = message_value PbLabelPair_descriptor_static m (plp_unknown_fields m)"

definition PbLabelPair_get_cached_size :: "'u PbLabelPair \<Rightarrow> u32" where
  "PbLabelPair_get_cached_size m = plp_cached_size m"

definition PbLabelPair_get_unknown_fields :: "'u PbLabelPair \<Rightarrow> 'u" where
  "PbLabelPair_get_unknown_fields m = plp_unknown_fields m"

definition PbLabelPair_mut_unknown_fields :: "('u \<Rightarrow> 'u) \<Rightarrow> 'u PbLabelPair \<Rightarrow> 'u PbLabelPair" where
  "PbLabelPair_mut_unknown_fields f m = m\<lparr>plp_unknown_fields := f (plp_unknown_fields m)\<rparr>"

definition PbLabelPair_default_instance :: "'u protobuf \<Rightarrow> 'u PbLabelPair" where
  "PbLabelPair_default_instance R = PbLabelPair_new R"

definition PbGauge_descriptor_static :: "('u PbGauge, 'u) MessageDescriptor" where
  "PbGauge_descriptor_static =
     MessageDescriptor_new ''Gauge''
       [make_accessor OptionField ProtobufTypeDouble ''value''
          (\<lambda>m. map VDouble (present (pga_value m)))]"

definition PbGauge_as_ref :: "'u PbGauge \<Rightarrow> 'u pb_value" where
  "PbGauge_as_ref m = message_value PbGauge_descriptor_static m (pga_unknown_fields m)"

definition PbGauge_get_cached_size :: "'u PbGauge \<Rightarrow> u32" where
  "PbGauge_get_cached_size m = pga_cached_size m"

definition PbGauge_get_unknown_fields :: "'u PbGauge \<Rightarrow> 'u" where
  "PbGauge_get_unknown_fields m = pga_unknown_fields m"

definition PbGauge_mut_unknown_fields :: "('u \<Rightarrow> 'u) \<Rightarrow> 'u PbGauge \<Rightarrow> 'u PbGauge" where
  "PbGauge_mut_unknown_fields f m = m\<lparr>pga_unknown_fields := f (pga_unknown_fields m)\<rparr>"

definition PbGauge_default_instance :: "'u protobuf \<Rightarrow> 'u PbGauge" where
  "PbGauge_default_instance R = PbGauge_new R"

definition PbCounter_descriptor_static :: "('u PbCounter, 'u) MessageDescriptor" where
  "PbCounter_descriptor_static =
     MessageDescriptor_new ''Counter''
       [make_accessor OptionField ProtobufTypeDouble ''value''
          (\<lambda>m. map VDouble (present (pco_value m)))]"

definition PbCounter_as_ref :: "'u PbCounter \<Rightarrow> 'u pb_value" where
  "PbCounter_as_ref m = message_value PbCounter_descriptor_static m (pco_unknown_fields m)"

definition PbCounter_get_cached_size :: "'u PbCounter \<Rightarrow> u32" where
  "PbCounter_get_cached_size m = pco_cached_size m"

definition PbCounter_get_unknown_fields :: "'u PbCounter \<Rightarrow> 'u" where
  "PbCounter_get_unknown_fields m = pco_unknown_fields m"

definition PbCounter_mut_unknown_fields :: "('u \<Rightarrow> 'u) \<Rightarrow> 'u PbCounter \<Rightarrow> 'u PbCounter" where
  "PbCounter_mut_unknown_fields f m = m\<lparr>pco_unknown_fields := f (pco_unknown_fields m)\<rparr>"

definition PbCounter_default_instance :: "'u protobuf \<Rightarrow> 'u PbCounter" where
  "PbCounter_default_instance R = PbCounter_new R"

definition PbQuantile_descriptor_static :: "('u PbQuantile, 'u) MessageDescriptor" where
  "PbQuantile_descriptor_static =
     MessageDescriptor_new ''Quantile''
       [make_accessor OptionField ProtobufTypeDouble ''quantile''
          (\<lambda>m. map VDouble (present (pqu_quantile m))),
        make_accessor OptionField ProtobufTypeDouble ''value''
          (\<lambda>m. map VDouble (present (pqu_value m)))]"

definition PbQuantile_as_ref :: "'u PbQuantile \<Rightarrow> 'u pb_value" where
  "PbQuantile_as_ref m = message_value PbQuantile_descriptor_static m (pqu_unknown_fields m)"

definition PbQuantile_get_cached_size :: "'u PbQuantile \<Rightarrow> u32" where
  "PbQuantile_get_cached_size m = pqu_cached_size m"

definition PbQuantile_get_unknown_fields :: "'u PbQuantile \<Rightarrow> 'u" where
  "PbQuantile_get_unknown_fields m = pqu_unknown_fields m"

definition PbQuantile_mut_unknown_fields :: "('u \<Rightarrow> 'u) \<Rightarrow> 'u PbQuantile \<Rightarrow> 'u PbQuantile" where
  "PbQuantile_mut_unknown_fields f m = m\<lparr>pqu_unknown_fields := f (pqu_unknown_fields m)\<rparr>"

definition PbQuantile_default_instance :: "'u protobuf \<Rightarrow> 'u PbQuantile" where
  "PbQuantile_default_instance R = PbQuantile_new R"

definition PbSummary_descriptor_static :: "('u PbSummary, 'u) MessageDescriptor" where
  "PbSummary_descriptor_static =
     MessageDescriptor_new ''Summary''
       [make_accessor OptionField ProtobufTypeUint64 ''sample_count''
          (\<lambda>m. map VUint64 (present (psu_sample_count m))),
        make_accessor OptionField ProtobufTypeDouble ''sample_sum''
          (\<lambda>m. map VDouble (present (psu_sample_sum m))),
        make_accessor RepeatedField (ProtobufTypeMessage ''Quantile'') ''quantile''
          (\<lambda>m. map PbQuantile_as_ref (psu_quantile m))]"

definition PbSummary_as_ref :: "'u PbSummary \<Rightarrow> 'u pb_value" where
  "PbSummary_as_ref m = message_value PbSummary_descriptor_static m (psu_unknown_fields m)"

definition PbSummary_get_cached_size :: "'u PbSummary \<Rightarrow> u32" where
  "PbSummary_get_cached_size m = psu_cached_size m"

definition PbSummary_get_unknown_fields :: "'u PbSummary \<Rightarrow> 'u" where
  "PbSummary_get_unknown_fields m = psu_unknown_fields m"

definition PbSummary_mut_unknown_fields :: "('u \<Rightarrow> 'u) \<Rightarrow> 'u PbSummary \<Rightarrow> 'u PbSummary" where
  "PbSummary_mut_unknown_fields f m = m\<lparr>psu_unknown_fields := f (psu_unknown_fields m)\<rparr>"

definition PbSummary_default_instance :: "'u protobuf \<Rightarrow> 'u PbSummary" where
  "PbSummary_default_instance R = PbSummary_new R"

definition PbUntyped_descriptor_static :: "('u PbUntyped, 'u) MessageDescriptor" where
  "PbUntyped_descriptor_static =
     MessageDescriptor_new ''Untyped''
       [make_accessor OptionField ProtobufTypeDouble ''value''
          (\<lambda>m. map VDouble (present (pun_value m)))]"

definition PbUntyped_as_ref :: "'u PbUntyped \<Rightarrow> 'u pb_value" where
  "PbUntyped_as_ref m = message_value PbUntyped_descriptor_static m (pun_unknown_fields m)"

definition PbUntyped_get_cached_size :: "'u PbUntyped \<Rightarrow> u32" where
  "PbUntyped_get_cached_size m = pun_cached_size m"

definition PbUntyped_get_unknown_fields :: "'u PbUntyped \<Rightarrow> 'u" where
  "PbUntyped_get_unknown_fields m = pun_unknown_fields m"

definition PbUntyped_mut_unknown_fields :: "('u \<Rightarrow> 'u) \<Rightarrow> 'u PbUntyped \<Rightarrow> 'u PbUntyped" where
  "PbUntyped_mut_unknown_fields f m = m\<lparr>pun_unknown_fields := f (pun_unknown_fields m)\<rparr>"

definition PbUntyped_default_instance :: "'u protobuf \<Rightarrow> 'u PbUntyped" where
  "PbUntyped_default_instance R = PbUntyped_new R"

definition PbBucket_descriptor_static :: "('u PbBucket, 'u) MessageDescriptor" where
  "PbBucket_descriptor_static =
     MessageDescriptor_new ''Bucket''
       [make_accessor OptionField ProtobufTypeUint64 ''cumulative_count''
          (\<lambda>m. map VUint64 (present (pbu_cumulative_count m))),
        make_accessor OptionField ProtobufTypeDouble ''upper_bound''
          (\<lambda>m. map VDouble (present (pbu_upper_bound m)))]"

definition PbBucket_as_ref :: "'u PbBucket \<Rightarrow> 'u pb_value" where
  "PbBucket_as_ref m = message_value PbBucket_descriptor_static m (pbu_unknown_fields m)"

definition PbBucket_get_cached_size :: "'u PbBucket \<Rightarrow> u32" where
  "PbBucket_get_cached_size m = pbu_cached_size m"

definition PbBucket_get_unknown_fields :: "'u PbBucket \<Rightarrow> 'u" where
  "PbBucket_get_unknown_fields m = pbu_unknown_fields m"

definition PbBucket_mut_unknown_fields :: "('u \<Rightarrow> 'u) \<Rightarrow> 'u PbBucket \<Rightarrow> 'u PbBucket" where
  "PbBucket_mut_unknown_fields f m = m\<lparr>pbu_unknown_fields := f (pbu_unknown_fields m)\<rparr>"

definition PbBucket_default_instance :: "'u protobuf \<Rightarrow> 'u PbBucket" where
  "PbBucket_default_instance R = PbBucket_new R"

definition PbHistogram_descriptor_static :: "('u PbHistogram, 'u) MessageDescriptor" where
  "PbHistogram_descriptor_static =
     MessageDescriptor_new ''Histogram''
       [make_accessor OptionField ProtobufTypeUint64 ''sample_count''
          (\<lambda>m. map VUint64 (present (phi_sample_count m))),
        make_accessor OptionField ProtobufTypeDouble ''sample_sum''
          (\<lambda>m. map VDouble (present (phi_sample_sum m))),
        make_accessor RepeatedField (ProtobufTypeMessage ''Bucket'') ''bucket''
          (\<lambda>m. map PbBucket_as_ref (phi_bucket m))]"

definition PbHistogram_as_ref :: "'u PbHistogram \<Rightarrow> 'u pb_value" where
  "PbHistogram_as_ref m = message_value PbHistogram_descriptor_static m (phi_unknown_fields m)"

definition PbHistogram_get_cached_size :: "'u PbHistogram \<Rightarrow> u32" where
  "PbHistogram_get_cached_size m = phi_cached_size m"

definition PbHistogram_get_unknown_fields :: "'u PbHistogram \<Rightarrow> 'u" where
  "PbHistogram_get_unknown_fields m = phi_unknown_fields m"

definition PbHistogram_mut_unknown_fields :: "('u \<Rightarrow> 'u) \<Rightarrow> 'u PbHistogram \<Rightarrow> 'u PbHistogram" where
  "PbHistogram_mut_unknown_fields f m = m\<lparr>phi_unknown_fields := f (phi_unknown_fields m)\<rparr>"

definition PbHistogram_default_instance :: "'u protobuf \<Rightarrow> 'u PbHistogram" where
  "PbHistogram_default_instance R = PbHistogram_new R"

definition PbMetric_descriptor_static :: "('u PbMetric, 'u) MessageDescriptor" where
  "PbMetric_descriptor_static =
     MessageDescriptor_new ''Metric''
       [make_accessor RepeatedField (ProtobufTypeMessage ''LabelPair'') ''label''
          (\<lambda>m. map PbLabelPair_as_ref (pme_label m)),
        make_accessor SingularPtrField (ProtobufTypeMessage ''Gauge'') ''gauge''
          (\<lambda>m. map PbGauge_as_ref (present (pme_gauge m))),
        make_accessor SingularPtrField (ProtobufTypeMessage ''Counter'') ''counter''
          (\<lambda>m. map PbCounter_as_ref (present (pme_counter m))),
        make_accessor SingularPtrField (ProtobufTypeMessage ''Summary'') ''summary''
          (\<lambda>m. map PbSummary_as_ref (present (pme_summary m))),
        make_accessor SingularPtrField (ProtobufTypeMessage ''Untyped'') ''untyped''
          (\<lambda>m. map PbUntyped_as_ref (present (pme_untyped m))),
        make_accessor SingularPtrField (ProtobufTypeMessage ''Histogram'') ''histogram''
          (\<lambda>m. map PbHistogram_as_ref (present (pme_histogram m))),
        make_accessor OptionField ProtobufTypeInt64 ''timestamp_ms''
          (\<lambda>m. map VInt64 (present (pme_timestamp_ms m)))]"

definition PbMetric_as_ref :: "'u PbMetric \<Rightarrow> 'u pb_value" where
  "PbMetric_as_ref m = message_value PbMetric_descriptor_static m (pme_unknown_fields m)"

definition PbMetric_get_cached_size :: "'u PbMetric \<Rightarrow> u32" where
  "PbMetric_get_cached_size m = pme_cached_size m"

definition PbMetric_get_unknown_fields :: "'u PbMetric \<Rightarrow> 'u" where
  "PbMetric_get_unknown_fields m = pme_unknown_fields m"

definition PbMetric_mut_unknown_fields :: "('u \<Rightarrow> 'u) \<Rightarrow> 'u PbMetric \<Rightarrow> 'u PbMetric" where
  "PbMetric_mut_unknown_fields f m = m\<lparr>pme_unknown_fields := f (pme_unknown_fields m)\<rparr>"

definition PbMetric_default_instance :: "'u protobuf \<Rightarrow> 'u PbMetric" where
  "PbMetric_default_instance R = PbMetric_new R"

definition PbMetricFamily_descriptor_static :: "('u PbMetricFamily, 'u) MessageDescriptor" where
  "PbMetricFamily_descriptor_static =
     MessageDescriptor_new ''MetricFamily''
       [make_accessor SingularField ProtobufTypeString ''name''
          (\<lambda>m. map VString (present (pmf_name m))),
        make_accessor SingularField ProtobufTypeString ''help''
          (\<lambda>m. map VString (present (pmf_help m))),
        make_accessor OptionField (ProtobufTypeEnum ''MetricType'') ''type''
          (\<lambda>m. map MetricType_as_ref (present (pmf_field_type m))),
        make_accessor RepeatedField (ProtobufTypeMessage ''Metric'') ''metric''
          (\<lambda>m. map PbMetric_as_ref (pmf_metric m))]"

definition PbMetricFamily_as_ref :: "'u PbMetricFamily \<Rightarrow> 'u pb_value" where
  "PbMetricFamily_as_ref m = message_value PbMetricFamily_descriptor_static m (pmf_unknown_fields m)"

definition PbMetricFamily_get_cached_size :: "'u PbMetricFamily \<Rightarrow> u32" where
  "PbMetricFamily_get_cached_size m = pmf_cached_size m"

definition PbMetricFamily_get_unknown_fields :: "'u PbMetricFamily \<Rightarrow> 'u" where
  "PbMetricFamily_get_unknown_fields m = pmf_unknown_fields m"

definition PbMetricFamily_mut_unknown_fields :: "('u \<Rightarrow> 'u) \<Rightarrow> 'u PbMetricFamily \<Rightarrow> 'u PbMetricFamily" where
  "PbMetricFamily_mut_unknown_fields f m = m\<lparr>pmf_unknown_fields := f (pmf_unknown_fields m)\<rparr>"

definition PbMetricFamily_default_instance :: "'u protobuf \<Rightarrow> 'u PbMetricFamily" where
  "PbMetricFamily_default_instance R = PbMetricFamily_new R"

section \<open>The embedded description\<close>

text \<open>The serialised \<open>FileDescriptorProto\<close>, byte for byte, in one list for each of its fields.\<close>

definition file_descriptor_proto_data :: bytes where
  "file_descriptor_proto_data = concat
     [[10, 17, 112, 114, 111, 116, 111, 95, 109, 111, 100, 101, 108, 46, 112, 114, 111, 116, 111],
      [18, 20, 105, 111, 46, 112, 114, 111, 109, 101, 116, 104, 101, 117, 115, 46, 99, 108, 105,
       101, 110, 116],
      [34, 48, 10, 9, 76, 97, 98, 101, 108, 80, 97, 105, 114, 18, 16, 10, 4, 110, 97, 109, 101, 24,
       1, 32, 1, 40, 9, 66, 2, 24, 0, 18, 17, 10, 5, 118, 97, 108, 117, 101, 24, 2, 32, 1, 40, 9,
       66, 2, 24, 0],
      [34, 26, 10, 5, 71, 97, 117, 103, 101, 18, 17, 10, 5, 118, 97, 108, 117, 101, 24, 1, 32, 1,
       40, 1, 66, 2, 24, 0],
      [34, 28, 10, 7, 67, 111, 117, 110, 116, 101, 114, 18, 17, 10, 5, 118, 97, 108, 117, 101, 24,
       1, 32, 1, 40, 1, 66, 2, 24, 0],
      [34, 51, 10, 8, 81, 117, 97, 110, 116, 105, 108, 101, 18, 20, 10, 8, 113, 117, 97, 110, 116,
       105, 108, 101, 24, 1, 32, 1, 40, 1, 66, 2, 24, 0, 18, 17, 10, 5, 118, 97, 108, 117, 101, 24,
       2, 32, 1, 40, 1, 66, 2, 24, 0],
      [34, 113, 10, 7, 83, 117, 109, 109, 97, 114, 121, 18, 24, 10, 12, 115, 97, 109, 112, 108,
       101, 95, 99, 111, 117, 110, 116, 24, 1, 32, 1, 40, 4, 66, 2, 24, 0, 18, 22, 10, 10, 115, 97,
       109, 112, 108, 101, 95, 115, 117, 109, 24, 2, 32, 1, 40, 1, 66, 2, 24, 0, 18, 52, 10, 8,
       113, 117, 97, 110, 116, 105, 108, 101, 24, 3, 32, 3, 40, 11, 50, 30, 46, 105, 111, 46, 112,
       114, 111, 109, 101, 116, 104, 101, 117, 115, 46, 99, 108, 105, 101, 110, 116, 46, 81, 117,
       97, 110, 116, 105, 108, 101, 66, 2, 24, 0],
      [34, 28, 10, 7, 85, 110, 116, 121, 112, 101, 100, 18, 17, 10, 5, 118, 97, 108, 117, 101, 24,
       1, 32, 1, 40, 1, 66, 2, 24, 0],
      [34, 111, 10, 9, 72, 105, 115, 116, 111, 103, 114, 97, 109, 18, 24, 10, 12, 115, 97, 109,
       112, 108, 101, 95, 99, 111, 117, 110, 116, 24, 1, 32, 1, 40, 4, 66, 2, 24, 0, 18, 22, 10,
       10, 115, 97, 109, 112, 108, 101, 95, 115, 117, 109, 24, 2, 32, 1, 40, 1, 66, 2, 24, 0, 18,
       48, 10, 6, 98, 117, 99, 107, 101, 116, 24, 3, 32, 3, 40, 11, 50, 28, 46, 105, 111, 46, 112,
       114, 111, 109, 101, 116, 104, 101, 117, 115, 46, 99, 108, 105, 101, 110, 116, 46, 66, 117,
       99, 107, 101, 116, 66, 2, 24, 0],
      [34, 63, 10, 6, 66, 117, 99, 107, 101, 116, 18, 28, 10, 16, 99, 117, 109, 117, 108, 97, 116,
       105, 118, 101, 95, 99, 111, 117, 110, 116, 24, 1, 32, 1, 40, 4, 66, 2, 24, 0, 18, 23, 10,
       11, 117, 112, 112, 101, 114, 95, 98, 111, 117, 110, 100, 24, 2, 32, 1, 40, 1, 66, 2, 24, 0],
      [34, 218, 2, 10, 6, 77, 101, 116, 114, 105, 99, 18, 50, 10, 5, 108, 97, 98, 101, 108, 24, 1,
       32, 3, 40, 11, 50, 31, 46, 105, 111, 46, 112, 114, 111, 109, 101, 116, 104, 101, 117, 115,
       46, 99, 108, 105, 101, 110, 116, 46, 76, 97, 98, 101, 108, 80, 97, 105, 114, 66, 2, 24, 0,
       18, 46, 10, 5, 103, 97, 117, 103, 101, 24, 2, 32, 1, 40, 11, 50, 27, 46, 105, 111, 46, 112,
       114, 111, 109, 101, 116, 104, 101, 117, 115, 46, 99, 108, 105, 101, 110, 116, 46, 71, 97,
       117, 103, 101, 66, 2, 24, 0, 18, 50, 10, 7, 99, 111, 117, 110, 116, 101, 114, 24, 3, 32, 1,
       40, 11, 50, 29, 46, 105, 111, 46, 112, 114, 111, 109, 101, 116, 104, 101, 117, 115, 46, 99,
       108, 105, 101, 110, 116, 46, 67, 111, 117, 110, 116, 101, 114, 66, 2, 24, 0, 18, 50, 10, 7,
       115, 117, 109, 109, 97, 114, 121, 24, 4, 32, 1, 40, 11, 50, 29, 46, 105, 111, 46, 112, 114,
       111, 109, 101, 116, 104, 101, 117, 115, 46, 99, 108, 105, 101, 110, 116, 46, 83, 117, 109,
       109, 97, 114, 121, 66, 2, 24, 0, 18, 50, 10, 7, 117, 110, 116, 121, 112, 101, 100, 24, 5,
       32, 1, 40, 11, 50, 29, 46, 105, 111, 46, 112, 114, 111, 109, 101, 116, 104, 101, 117, 115,
       46, 99, 108, 105, 101, 110, 116, 46, 85, 110, 116, 121, 112, 101, 100, 66, 2, 24, 0, 18, 54,
       10, 9, 104, 105, 115, 116, 111, 103, 114, 97, 109, 24, 7, 32, 1, 40, 11, 50, 31, 46, 105,
       111, 46, 112, 114, 111, 109, 101, 116, 104, 101, 117, 115, 46, 99, 108, 105, 101, 110, 116,
       46, 72, 105, 115, 116, 111, 103, 114, 97, 109, 66, 2, 24, 0, 18, 24, 10, 12, 116, 105, 109,
       101, 115, 116, 97, 109, 112, 95, 109, 115, 24, 6, 32, 1, 40, 3, 66, 2, 24, 0],
      [34, 152, 1, 10, 12, 77, 101, 116, 114, 105, 99, 70, 97, 109, 105, 108, 121, 18, 16, 10, 4,
       110, 97, 109, 101, 24, 1, 32, 1, 40, 9, 66, 2, 24, 0, 18, 16, 10, 4, 104, 101, 108, 112, 24,
       2, 32, 1, 40, 9, 66, 2, 24, 0, 18, 50, 10, 4, 116, 121, 112, 101, 24, 3, 32, 1, 40, 14, 50,
       32, 46, 105, 111, 46, 112, 114, 111, 109, 101, 116, 104, 101, 117, 115, 46, 99, 108, 105,
       101, 110, 116, 46, 77, 101, 116, 114, 105, 99, 84, 121, 112, 101, 66, 2, 24, 0, 18, 48, 10,
       6, 109, 101, 116, 114, 105, 99, 24, 4, 32, 3, 40, 11, 50, 28, 46, 105, 111, 46, 112, 114,
       111, 109, 101, 116, 104, 101, 117, 115, 46, 99, 108, 105, 101, 110, 116, 46, 77, 101, 116,
       114, 105, 99, 66, 2, 24, 0],
      [42, 81, 10, 10, 77, 101, 116, 114, 105, 99, 84, 121, 112, 101, 18, 11, 10, 7, 67, 79, 85,
       78, 84, 69, 82, 16, 0, 18, 9, 10, 5, 71, 65, 85, 71, 69, 16, 1, 18, 11, 10, 7, 83, 85, 77,
       77, 65, 82, 89, 16, 2, 18, 11, 10, 7, 85, 78, 84, 89, 80, 69, 68, 16, 3, 18, 13, 10, 9, 72,
       73, 83, 84, 79, 71, 82, 65, 77, 16, 4, 26, 2, 16, 0],
      [66, 0],
      [98, 6, 112, 114, 111, 116, 111, 50]]"

text \<open>\<open>parse\<close> is the runtime's parser of that message; a failed \<open>unwrap\<close> is \<open>None\<close>.\<close>

definition parse_descriptor_proto :: "(bytes \<Rightarrow> 'f pb_result) \<Rightarrow> 'f option" where
  "parse_descriptor_proto parse =
     (case parse file_descriptor_proto_data of Inl _ \<Rightarrow> None | Inr f \<Rightarrow> Some f)"

definition file_descriptor_proto :: "(bytes \<Rightarrow> 'f pb_result) \<Rightarrow> 'f option" where
  "file_descriptor_proto parse = parse_descriptor_proto parse"

end
