(* ===== verification/Pb_Schema.thy ===== *)
theory Pb_Schema
  imports Pb_Reflect Pb_Runtime
begin

text \<open>
  The schema \<open>src/prometheus/proto/proto_model.proto\<close> as a value, its serialisation as a
  \<open>FileDescriptorProto\<close> and the encoding it prescribes for a value seen by reflection; that the
  description embedded in \<open>proto_model.rs\<close> is the serialisation of this schema, that the field
  accessors of the generated code agree with it, and that a message, read through its accessors,
  has by the schema the encoding that the generated code writes.
\<close>

section \<open>Schemas\<close>

datatype field_label = LabelOptional | LabelRepeated

datatype field_schema =
  FieldSchema (fs_name: string) (fs_number: u32) (fs_label: field_label) (fs_type: protobuf_type)

datatype message_schema = MessageSchema (ms_name: string) (ms_fields: "field_schema list")

datatype enum_schema = EnumSchema (es_name: string) (es_values: "(string \<times> i32) list")

datatype file_schema =
  FileSchema (sc_package: string) (sc_messages: "message_schema list") (sc_enums: "enum_schema list")

text \<open>The messages in the order of the file.\<close>

definition schema_LabelPair :: message_schema where
  "schema_LabelPair = MessageSchema ''LabelPair''
     [FieldSchema ''name'' 1 LabelOptional ProtobufTypeString,
      FieldSchema ''value'' 2 LabelOptional ProtobufTypeString]"

definition schema_Gauge :: message_schema where
  "schema_Gauge = MessageSchema ''Gauge''
     [FieldSchema ''value'' 1 LabelOptional ProtobufTypeDouble]"

definition schema_Counter :: message_schema where
  "schema_Counter = MessageSchema ''Counter''
     [FieldSchema ''value'' 1 LabelOptional ProtobufTypeDouble]"

definition schema_Quantile :: message_schema where
  "schema_Quantile = MessageSchema ''Quantile''
     [FieldSchema ''quantile'' 1 LabelOptional ProtobufTypeDouble,
      FieldSchema ''value'' 2 LabelOptional ProtobufTypeDouble]"

definition schema_Summary :: message_schema where
  "schema_Summary = MessageSchema ''Summary''
     [FieldSchema ''sample_count'' 1 LabelOptional ProtobufTypeUint64,
      FieldSchema ''sample_sum'' 2 LabelOptional ProtobufTypeDouble,
      FieldSchema ''quantile'' 3 LabelRepeated (ProtobufTypeMessage ''Quantile'')]"

definition schema_Untyped :: message_schema where
  "schema_Untyped = MessageSchema ''Untyped''
     [FieldSchema ''value'' 1 LabelOptional ProtobufTypeDouble]"

definition schema_Histogram :: message_schema where
  "schema_Histogram = MessageSchema ''Histogram''
     [FieldSchema ''sample_count'' 1 LabelOptional ProtobufTypeUint64,
      FieldSchema ''sample_sum'' 2 LabelOptional ProtobufTypeDouble,
      FieldSchema ''bucket'' 3 LabelRepeated (ProtobufTypeMessage ''Bucket'')]"

definition schema_Bucket :: message_schema where
  "schema_Bucket = MessageSchema ''Bucket''
     [FieldSchema ''cumulative_count'' 1 LabelOptional ProtobufTypeUint64,
      FieldSchema ''upper_bound'' 2 LabelOptional ProtobufTypeDouble]"

definition schema_Metric :: message_schema where
  "schema_Metric = MessageSchema ''Metric''
     [FieldSchema ''label'' 1 LabelRepeated (ProtobufTypeMessage ''LabelPair''),
      FieldSchema ''gauge'' 2 LabelOptional (ProtobufTypeMessage ''Gauge''),
      FieldSchema ''counter'' 3 LabelOptional (ProtobufTypeMessage ''Counter''),
      FieldSchema ''summary'' 4 LabelOptional (ProtobufTypeMessage ''Summary''),
      FieldSchema ''untyped'' 5 LabelOptional (ProtobufTypeMessage ''Untyped''),
      FieldSchema ''histogram'' 7 LabelOptional (ProtobufTypeMessage ''Histogram''),
      FieldSchema ''timestamp_ms'' 6 LabelOptional ProtobufTypeInt64]"

definition schema_MetricFamily :: message_schema where
  "schema_MetricFamily = MessageSchema ''MetricFamily''
     [FieldSchema ''name'' 1 LabelOptional ProtobufTypeString,
      FieldSchema ''help'' 2 LabelOptional ProtobufTypeString,
      FieldSchema ''type'' 3 LabelOptional (ProtobufTypeEnum ''MetricType''),
      FieldSchema ''metric'' 4 LabelRepeated (ProtobufTypeMessage ''Metric'')]"

definition schema_MetricType :: enum_schema where
  "schema_MetricType = EnumSchema ''MetricType''
     [(''COUNTER'', 0), (''GAUGE'', 1), (''SUMMARY'', 2), (''UNTYPED'', 3), (''HISTOGRAM'', 4)]"

definition proto_schema :: file_schema where
  "proto_schema = FileSchema ''io.prometheus.client''
     [schema_LabelPair,
      schema_Gauge,
      schema_Counter,
      schema_Quantile,
      schema_Summary,
      schema_Untyped,
      schema_Histogram,
      schema_Bucket,
      schema_Metric,
      schema_MetricFamily]
     [schema_MetricType]"

section \<open>The serialised description\<close>

text \<open>
  The numbers of the fields of \<open>DescriptorProto\<close> and its companions in \<open>descriptor.proto\<close>, the
  schema of schemas of the protobuf documentation. The compiler writes the options \<open>deprecated\<close> of
  a field and \<open>allow_alias\<close> of an enum as false, and none for the file.
\<close>

fun label_number :: "field_label \<Rightarrow> u64" where
  "label_number LabelOptional = 1"
| "label_number LabelRepeated = 3"

fun type_number :: "protobuf_type \<Rightarrow> u64" where
  "type_number ProtobufTypeDouble = 1"
| "type_number ProtobufTypeInt64 = 3"
| "type_number ProtobufTypeUint64 = 4"
| "type_number ProtobufTypeString = 9"
| "type_number (ProtobufTypeMessage _) = 11"
| "type_number (ProtobufTypeEnum _) = 14"

fun type_reference :: "protobuf_type \<Rightarrow> string option" where
  "type_reference (ProtobufTypeMessage name) = Some name"
| "type_reference (ProtobufTypeEnum name) = Some name"
| "type_reference _ = None"

definition wire_field_schema :: "string \<Rightarrow> field_schema \<Rightarrow> bytes" where
  "wire_field_schema package f =
     wire_string 1 (fs_name f) @
     wire_varint64 3 (ucast (fs_number f)) @
     wire_varint64 4 (label_number (fs_label f)) @
     wire_varint64 5 (type_number (fs_type f)) @
     wire_some (\<lambda>name. wire_string 6 (''.'' @ package @ ''.'' @ name)) (type_reference (fs_type f)) @
     wire_message 8 (wire_varint64 3 0)"

definition wire_message_schema :: "string \<Rightarrow> message_schema \<Rightarrow> bytes" where
  "wire_message_schema package m =
     wire_string 1 (ms_name m) @ wire_each (\<lambda>f. wire_message 2 (wire_field_schema package f)) (ms_fields m)"

definition wire_enum_schema :: "enum_schema \<Rightarrow> bytes" where
  "wire_enum_schema e =
     wire_string 1 (es_name e) @
     wire_each (\<lambda>(name, v). wire_message 2 (wire_string 1 name @ wire_varint64 2 (scast v))) (es_values e) @
     wire_message 3 (wire_varint64 2 0)"

definition wire_file_schema :: "string \<Rightarrow> file_schema \<Rightarrow> bytes" where
  "wire_file_schema file s =
     wire_string 1 file @
     wire_string 2 (sc_package s) @
     wire_each (\<lambda>m. wire_message 4 (wire_message_schema (sc_package s) m)) (sc_messages s) @
     wire_each (\<lambda>e. wire_message 5 (wire_enum_schema e)) (sc_enums s) @
     wire_message 8 [] @
     wire_string 12 ''proto2''"

text \<open>Evaluated message by message.\<close>

lemma varint_large: "\<not> n < 128 \<Longrightarrow> varint n = word_of_nat (128 + n mod 128) # varint (n div 128)"
  by (subst varint.simps) simp

lemmas wire_schema_eval =
  wire_message_def wire_string_def wire_varint64_def wire_tag_def wire_field_schema_def wire_message_schema_def
  varint_small varint_large as_bytes_def

lemmas schema_defs =
  schema_LabelPair_def
  schema_Gauge_def
  schema_Counter_def
  schema_Quantile_def
  schema_Summary_def
  schema_Untyped_def
  schema_Histogram_def
  schema_Bucket_def
  schema_Metric_def
  schema_MetricFamily_def
  schema_MetricType_def

lemma wire_file_segments:
  "wire_file_schema file (FileSchema package ms es) =
     concat ([wire_string 1 file, wire_string 2 package] @
       map (\<lambda>m. wire_message 4 (wire_message_schema package m)) ms @
       map (\<lambda>e. wire_message 5 (wire_enum_schema e)) es @
       [wire_message 8 [], wire_string 12 ''proto2''])"
  by (simp add: wire_file_schema_def wire_each_def)

lemma data_is_serialised_schema: "file_descriptor_proto_data = wire_file_schema ''proto_model.proto'' proto_schema"
  unfolding file_descriptor_proto_data_def proto_schema_def wire_file_segments list.map append.simps
  by (rule arg_cong [where f = concat], intro arg_cong2 [where f = Cons] refl)
    (simp_all add: wire_schema_eval wire_enum_schema_def schema_defs)

section \<open>The accessors agree with the schema\<close>

definition find_message :: "file_schema \<Rightarrow> string \<Rightarrow> message_schema option" where
  "find_message S name = List.find (\<lambda>m. ms_name m = name) (sc_messages S)"

definition find_enum :: "file_schema \<Rightarrow> string \<Rightarrow> enum_schema option" where
  "find_enum S name = List.find (\<lambda>e. es_name e = name) (sc_enums S)"

fun container_label :: "container \<Rightarrow> field_label" where
  "container_label RepeatedField = LabelRepeated"
| "container_label _ = LabelOptional"

text \<open>Name, label and type of each field, in order.\<close>

definition described_fields :: "('m, 'u) MessageDescriptor \<Rightarrow> (string \<times> field_label \<times> protobuf_type) list" where
  "described_fields d = map (\<lambda>a. (ac_name a, container_label (ac_container a), ac_type a)) (md_fields d)"

definition describes :: "file_schema \<Rightarrow> ('m, 'u) MessageDescriptor \<Rightarrow> bool" where
  "describes S d \<longleftrightarrow>
     map_option (\<lambda>m. map (\<lambda>f. (fs_name f, fs_label f, fs_type f)) (ms_fields m)) (find_message S (md_name d))
       = Some (described_fields d)"

lemmas descriptor_defs =
  PbLabelPair_descriptor_static_def
  PbGauge_descriptor_static_def
  PbCounter_descriptor_static_def
  PbQuantile_descriptor_static_def
  PbSummary_descriptor_static_def
  PbUntyped_descriptor_static_def
  PbBucket_descriptor_static_def
  PbHistogram_descriptor_static_def
  PbMetric_descriptor_static_def
  PbMetricFamily_descriptor_static_def
  MessageDescriptor_new_def make_accessor_def

lemma find_message_schema:
  "find_message proto_schema ''LabelPair'' = Some schema_LabelPair"
  "find_message proto_schema ''Gauge'' = Some schema_Gauge"
  "find_message proto_schema ''Counter'' = Some schema_Counter"
  "find_message proto_schema ''Quantile'' = Some schema_Quantile"
  "find_message proto_schema ''Summary'' = Some schema_Summary"
  "find_message proto_schema ''Untyped'' = Some schema_Untyped"
  "find_message proto_schema ''Bucket'' = Some schema_Bucket"
  "find_message proto_schema ''Histogram'' = Some schema_Histogram"
  "find_message proto_schema ''Metric'' = Some schema_Metric"
  "find_message proto_schema ''MetricFamily'' = Some schema_MetricFamily"
  by (simp_all add: find_message_def proto_schema_def schema_defs)

lemma find_enum_schema: "find_enum proto_schema ''MetricType'' = Some schema_MetricType"
  by (simp add: find_enum_def proto_schema_def schema_defs)

lemma descriptors_describe:
  "describes proto_schema PbLabelPair_descriptor_static"
  "describes proto_schema PbGauge_descriptor_static"
  "describes proto_schema PbCounter_descriptor_static"
  "describes proto_schema PbQuantile_descriptor_static"
  "describes proto_schema PbSummary_descriptor_static"
  "describes proto_schema PbUntyped_descriptor_static"
  "describes proto_schema PbBucket_descriptor_static"
  "describes proto_schema PbHistogram_descriptor_static"
  "describes proto_schema PbMetric_descriptor_static"
  "describes proto_schema PbMetricFamily_descriptor_static"
  by (simp_all add: describes_def descriptor_defs described_fields_def find_message_schema schema_defs)

section \<open>The encoding by the schema\<close>

text \<open>
  Encodes a value seen by reflection as the schema says; \<open>None\<close> if a field or its value is not
  as the schema declares it.
\<close>

fun both :: "bytes option \<Rightarrow> bytes option \<Rightarrow> bytes option" where
  "both (Some a) (Some b) = Some (a @ b)"
| "both _ _ = None"

fun encode_scalar :: "file_schema \<Rightarrow> u32 \<Rightarrow> protobuf_type \<Rightarrow> 'u pb_value \<Rightarrow> bytes option" where
  "encode_scalar S n ProtobufTypeString (VString s) = Some (wire_string n s)"
| "encode_scalar S n ProtobufTypeDouble (VDouble d) = Some (wire_double n d)"
| "encode_scalar S n ProtobufTypeUint64 (VUint64 v) = Some (wire_varint64 n v)"
| "encode_scalar S n ProtobufTypeInt64 (VInt64 v) = Some (wire_varint64 n v)"
| "encode_scalar S n (ProtobufTypeEnum name) (VEnum i) =
     (case find_enum S name of
        None \<Rightarrow> None
      | Some e \<Rightarrow> if i \<in> set (map snd (es_values e)) then Some (wire_varint64 n (scast i)) else None)"
| "encode_scalar S n _ _ = None"

fun encode_message :: "file_schema \<Rightarrow> ('u \<Rightarrow> bytes) \<Rightarrow> 'u pb_value \<Rightarrow> bytes option"
and encode_fields :: "file_schema \<Rightarrow> ('u \<Rightarrow> bytes) \<Rightarrow> field_schema list \<Rightarrow> 'u pb_field list \<Rightarrow> bytes option"
and encode_values :: "file_schema \<Rightarrow> ('u \<Rightarrow> bytes) \<Rightarrow> field_schema \<Rightarrow> 'u pb_value list \<Rightarrow> bytes option"
where
  "encode_message S ub v =
     (case v of
        VMessage name gs u \<Rightarrow>
          (case find_message S name of
             None \<Rightarrow> None
           | Some m \<Rightarrow> both (encode_fields S ub (ms_fields m) gs) (Some (ub u)))
      | _ \<Rightarrow> None)"
| "encode_fields S ub [] [] = Some []"
| "encode_fields S ub (f # fs) (Field name vs # gs) =
     (if name = fs_name f \<and> (fs_label f = LabelRepeated \<or> length vs \<le> 1)
      then both (encode_values S ub f vs) (encode_fields S ub fs gs)
      else None)"
| "encode_fields S ub _ _ = None"
| "encode_values S ub f [] = Some []"
| "encode_values S ub f (v # vs) =
     both
       (case v of
          VMessage name _ _ \<Rightarrow>
            if fs_type f = ProtobufTypeMessage name
            then map_option (wire_message (fs_number f)) (encode_message S ub v)
            else None
        | _ \<Rightarrow> encode_scalar S (fs_number f) (fs_type f) v)
       (encode_values S ub f vs)"

lemma length_present: "length (present v) \<le> Suc 0"
  by (cases v) simp_all

lemma encode_values_scalar:
  "encode_values S ub (FieldSchema name n l ProtobufTypeString) (map VString (present s)) =
     Some (wire_some (wire_string n) s)"
  "encode_values S ub (FieldSchema name n l ProtobufTypeDouble) (map VDouble (present d)) =
     Some (wire_some (wire_double n) d)"
  "encode_values S ub (FieldSchema name n l ProtobufTypeUint64) (map VUint64 (present v)) =
     Some (wire_some (wire_varint64 n) v)"
  "encode_values S ub (FieldSchema name n l ProtobufTypeInt64) (map VInt64 (present i)) =
     Some (wire_some (wire_varint64 n) i)"
  subgoal by (cases s) simp_all
  subgoal by (cases d) simp_all
  subgoal by (cases v) simp_all
  subgoal by (cases i) simp_all
  done

lemma encode_values_MetricType:
  "encode_values proto_schema ub (FieldSchema name n l (ProtobufTypeEnum ''MetricType''))
     (map MetricType_as_ref (present t)) = Some (wire_some (wire_enum n) t)"
proof (cases t)
  case (Some x)
  then show ?thesis
    by (cases x) (simp_all add: MetricType_as_ref_def find_enum_schema schema_MetricType_def wire_enum_def)
qed simp

lemma encode_values_messages:
  assumes "\<And>x. encode_message S ub (r x) = Some (w x)" and "\<And>x. \<exists>gs u. r x = VMessage t gs u"
  shows "encode_values S ub (FieldSchema name n l (ProtobufTypeMessage t)) (map r xs) =
    Some (wire_each (\<lambda>v. wire_message n (w v)) xs)"
proof (induction xs)
  case (Cons x xs)
  obtain gs u where "r x = VMessage t gs u" using assms(2) by blast
  with Cons assms(1) [of x] show ?case by (simp del: encode_message.simps)
qed simp

lemma wire_each_present: "wire_each w (present v) = wire_some w v"
  by (cases v) simp_all

lemmas encode_defs =
  message_value_def reflect_def MessageDescriptor_new_def make_accessor_def find_message_schema
  encode_values_scalar encode_values_MetricType length_present wire_each_present

text \<open>By the schema a message has the encoding that \<open>Pb_Spec\<close> gives it, field by field.\<close>

lemma encode_LabelPair: "encode_message proto_schema ub (PbLabelPair_as_ref m) = Some (wire_LabelPair ub m)"
  by (simp add: PbLabelPair_as_ref_def PbLabelPair_descriptor_static_def schema_LabelPair_def wire_LabelPair_def encode_defs)

lemma encode_LabelPairs:
  "encode_values proto_schema ub (FieldSchema name n l (ProtobufTypeMessage ''LabelPair'')) (map PbLabelPair_as_ref xs) =
    Some (wire_each (\<lambda>v. wire_message n (wire_LabelPair ub v)) xs)"
  by (rule encode_values_messages [OF encode_LabelPair])
    (simp add: PbLabelPair_as_ref_def message_value_def PbLabelPair_descriptor_static_def MessageDescriptor_new_def)

lemma encode_Gauge: "encode_message proto_schema ub (PbGauge_as_ref m) = Some (wire_Gauge ub m)"
  by (simp add: PbGauge_as_ref_def PbGauge_descriptor_static_def schema_Gauge_def wire_Gauge_def encode_defs)

lemma encode_Gauges:
  "encode_values proto_schema ub (FieldSchema name n l (ProtobufTypeMessage ''Gauge'')) (map PbGauge_as_ref xs) =
    Some (wire_each (\<lambda>v. wire_message n (wire_Gauge ub v)) xs)"
  by (rule encode_values_messages [OF encode_Gauge])
    (simp add: PbGauge_as_ref_def message_value_def PbGauge_descriptor_static_def MessageDescriptor_new_def)

lemma encode_Counter: "encode_message proto_schema ub (PbCounter_as_ref m) = Some (wire_Counter ub m)"
  by (simp add: PbCounter_as_ref_def PbCounter_descriptor_static_def schema_Counter_def wire_Counter_def encode_defs)

lemma encode_Counters:
  "encode_values proto_schema ub (FieldSchema name n l (ProtobufTypeMessage ''Counter'')) (map PbCounter_as_ref xs) =
    Some (wire_each (\<lambda>v. wire_message n (wire_Counter ub v)) xs)"
  by (rule encode_values_messages [OF encode_Counter])
    (simp add: PbCounter_as_ref_def message_value_def PbCounter_descriptor_static_def MessageDescriptor_new_def)

lemma encode_Quantile: "encode_message proto_schema ub (PbQuantile_as_ref m) = Some (wire_Quantile ub m)"
  by (simp add: PbQuantile_as_ref_def PbQuantile_descriptor_static_def schema_Quantile_def wire_Quantile_def encode_defs)

lemma encode_Quantiles:
  "encode_values proto_schema ub (FieldSchema name n l (ProtobufTypeMessage ''Quantile'')) (map PbQuantile_as_ref xs) =
    Some (wire_each (\<lambda>v. wire_message n (wire_Quantile ub v)) xs)"
  by (rule encode_values_messages [OF encode_Quantile])
    (simp add: PbQuantile_as_ref_def message_value_def PbQuantile_descriptor_static_def MessageDescriptor_new_def)

lemma encode_Summary: "encode_message proto_schema ub (PbSummary_as_ref m) = Some (wire_Summary ub m)"
  by (simp add: PbSummary_as_ref_def PbSummary_descriptor_static_def schema_Summary_def wire_Summary_def encode_defs
    encode_Quantiles)

lemma encode_Summarys:
  "encode_values proto_schema ub (FieldSchema name n l (ProtobufTypeMessage ''Summary'')) (map PbSummary_as_ref xs) =
    Some (wire_each (\<lambda>v. wire_message n (wire_Summary ub v)) xs)"
  by (rule encode_values_messages [OF encode_Summary])
    (simp add: PbSummary_as_ref_def message_value_def PbSummary_descriptor_static_def MessageDescriptor_new_def)

lemma encode_Untyped: "encode_message proto_schema ub (PbUntyped_as_ref m) = Some (wire_Untyped ub m)"
  by (simp add: PbUntyped_as_ref_def PbUntyped_descriptor_static_def schema_Untyped_def wire_Untyped_def encode_defs)

lemma encode_Untypeds:
  "encode_values proto_schema ub (FieldSchema name n l (ProtobufTypeMessage ''Untyped'')) (map PbUntyped_as_ref xs) =
    Some (wire_each (\<lambda>v. wire_message n (wire_Untyped ub v)) xs)"
  by (rule encode_values_messages [OF encode_Untyped])
    (simp add: PbUntyped_as_ref_def message_value_def PbUntyped_descriptor_static_def MessageDescriptor_new_def)

lemma encode_Bucket: "encode_message proto_schema ub (PbBucket_as_ref m) = Some (wire_Bucket ub m)"
  by (simp add: PbBucket_as_ref_def PbBucket_descriptor_static_def schema_Bucket_def wire_Bucket_def encode_defs)

lemma encode_Buckets:
  "encode_values proto_schema ub (FieldSchema name n l (ProtobufTypeMessage ''Bucket'')) (map PbBucket_as_ref xs) =
    Some (wire_each (\<lambda>v. wire_message n (wire_Bucket ub v)) xs)"
  by (rule encode_values_messages [OF encode_Bucket])
    (simp add: PbBucket_as_ref_def message_value_def PbBucket_descriptor_static_def MessageDescriptor_new_def)

lemma encode_Histogram: "encode_message proto_schema ub (PbHistogram_as_ref m) = Some (wire_Histogram ub m)"
  by (simp add: PbHistogram_as_ref_def PbHistogram_descriptor_static_def schema_Histogram_def wire_Histogram_def encode_defs
    encode_Buckets)

lemma encode_Histograms:
  "encode_values proto_schema ub (FieldSchema name n l (ProtobufTypeMessage ''Histogram'')) (map PbHistogram_as_ref xs) =
    Some (wire_each (\<lambda>v. wire_message n (wire_Histogram ub v)) xs)"
  by (rule encode_values_messages [OF encode_Histogram])
    (simp add: PbHistogram_as_ref_def message_value_def PbHistogram_descriptor_static_def MessageDescriptor_new_def)

lemma encode_Metric: "encode_message proto_schema ub (PbMetric_as_ref m) = Some (wire_Metric ub m)"
  by (simp add: PbMetric_as_ref_def PbMetric_descriptor_static_def schema_Metric_def wire_Metric_def encode_defs
    encode_LabelPairs
    encode_Gauges
    encode_Counters
    encode_Summarys
    encode_Untypeds
    encode_Histograms)

lemma encode_Metrics:
  "encode_values proto_schema ub (FieldSchema name n l (ProtobufTypeMessage ''Metric'')) (map PbMetric_as_ref xs) =
    Some (wire_each (\<lambda>v. wire_message n (wire_Metric ub v)) xs)"
  by (rule encode_values_messages [OF encode_Metric])
    (simp add: PbMetric_as_ref_def message_value_def PbMetric_descriptor_static_def MessageDescriptor_new_def)

lemma encode_MetricFamily: "encode_message proto_schema ub (PbMetricFamily_as_ref m) = Some (wire_MetricFamily ub m)"
  by (simp add: PbMetricFamily_as_ref_def PbMetricFamily_descriptor_static_def schema_MetricFamily_def wire_MetricFamily_def encode_defs
    encode_Metrics)

end
