(* ===== verification/Pb_Props.thy ===== *)
theory Pb_Props
  imports Pb_Plain Pb_Runtime Pb_Schema
begin

text \<open>
  The properties of the generated protobuf model and of the encoder over it: writing and
  reading back, the bytes an encoder writes for a list of families, parsing of any input, the
  agreement of descriptors and accessors with the schema, and that with the plain model.
\<close>

section \<open>A family for the witnesses\<close>

definition example_family :: "bytes PbMetricFamily" where
  "example_family =
     PbMetricFamily_set_metric
       [PbMetric_set_counter (PbCounter_set_value 0x3FF0000000000000 (PbCounter_new wire_runtime))
          (PbMetric_set_label
             [PbLabelPair_set_value ''b'' (PbLabelPair_set_name ''a'' (PbLabelPair_new wire_runtime))]
             (PbMetric_new wire_runtime))]
       (PbMetricFamily_set_field_type COUNTER
         (PbMetricFamily_set_name ''n'' (PbMetricFamily_new wire_runtime)))"

lemmas example_family_defs =
  example_family_def pb_accessor_defs PbMetricFamily_new_def PbMetric_new_def PbCounter_new_def PbLabelPair_new_def
  wire_runtime_def

lemma example_family_clean: "clean_MetricFamily wire_runtime (\<lambda>_. True) example_family"
  by (simp add: example_family_defs clean_MetricFamily_def clean_Metric_def clean_Counter_def clean_LabelPair_def)

lemma example_family_wire:
  "wire_MetricFamily (\<lambda>u. u) example_family =
     [10, 1, 110, 24, 0, 34, 19, 10, 6, 10, 1, 97, 18, 1, 98, 26, 9, 9, 0, 0, 0, 0, 0, 0, 240, 63]"
  by (simp add: example_family_defs wire_MetricFamily_def wire_Metric_def wire_Counter_def wire_LabelPair_def
      wire_string_def wire_enum_def wire_varint64_def wire_double_def wire_message_def wire_tag_def
      varint_small as_bytes_def le_bytes_numeral)

section \<open>Properties\<close>

text \<open>
  C19. A metric family that has no unknown fields, whose strings are valid UTF-8 and whose encoding
  is shorter than 4 GiB, is written by \<open>write_to_with_cached_sizes\<close> after \<open>compute_size\<close> without
  an error, as many bytes as \<open>compute_size\<close> returned, and \<open>merge_from\<close> on a new family returns
  from these bytes the same family, field for field, labels, summaries, histograms and unset
  fields included (but for the cached sizes, which equality ignores), with nothing left to read.
\<close>

theorem protobuf_roundtrip:
  assumes "protobuf_runtime R ub utf8"
    and "clean_MetricFamily R utf8 mf"
    and "length (wire_MetricFamily ub mf) < 2 ^ 32"
  shows "\<exists>size mf' b.
     PbMetricFamily_compute_size R mf = (size, mf') \<and>
     PbMetricFamily_write_to_with_cached_sizes R mf' [] = Inr b \<and>
     unat size = length b \<and>
     PbMetricFamily_merge_from R (PbMetricFamily_new R) b = Some (Inr (fresh_MetricFamily mf, []))"
proof -
  obtain n mf' where cs: "PbMetricFamily_compute_size R mf = (n, mf')" by fastforce
  with protobuf_runtime.codes_MetricFamily [OF assms(1) assms(3)]
  have "n = word_of_nat (length (wire_MetricFamily ub mf))"
    and "PbMetricFamily_write_to_with_cached_sizes R mf' [] = Inr (wire_MetricFamily ub mf)"
    by (simp_all add: codes_def appends_def)
  with cs assms(3) protobuf_runtime.parses_MetricFamily [OF assms]
  show ?thesis by (simp add: unat_word_of_nat32 parses_def)
qed

theorem protobuf_roundtrip_witness:
  "\<exists>size mf' b.
     PbMetricFamily_compute_size wire_runtime example_family = (size, mf') \<and>
     PbMetricFamily_write_to_with_cached_sizes wire_runtime mf' [] = Inr b \<and>
     unat size = length b \<and>
     PbMetricFamily_merge_from wire_runtime (PbMetricFamily_new wire_runtime) b
       = Some (Inr (fresh_MetricFamily example_family, []))"
  by (rule protobuf_roundtrip [OF wire.protobuf_runtime_axioms example_family_clean])
    (simp add: example_family_wire)

text \<open>
  C22. The protobuf encoder writes, for each family up to the first one without a name or without
  metrics, the length of its encoding as a varint and the encoding that the schema prescribes;
  it succeeds if all families are complete and otherwise returns the error of the first
  incomplete one, with the families before it already written.
\<close>

theorem encoder_writes_delimited:
  assumes "protobuf_runtime R ub utf8"
    and "\<forall>mf\<in>set mfs. length (wire_MetricFamily ub mf) < 2 ^ 32"
  shows "ProtobufEncoder_encode R dbg show_err mfs out =
    (case List.find (\<lambda>mf. \<not> complete_family (abs_MetricFamily R mf)) mfs of
       None \<Rightarrow> Inr ()
     | Some mf \<Rightarrow> pb_check_metric_family dbg mf,
     out @ concat (map (wire_delimited ub) (takeWhile (\<lambda>mf. complete_family (abs_MetricFamily R mf)) mfs)))"
  by (rule protobuf_runtime.encode_families [OF assms(1)]) (use assms(2) in blast)

theorem encoder_writes_delimited_witness:
  "ProtobufEncoder_encode wire_runtime (\<lambda>_. ''mf'') (\<lambda>_. []) [example_family, PbMetricFamily_new wire_runtime] [7] =
    (Inl (Msg ''MetricFamily has no metrics: mf''),
     [7, 26, 10, 1, 110, 24, 0, 34, 19, 10, 6, 10, 1, 97, 18, 1, 98, 26, 9, 9, 0, 0, 0, 0, 0, 0, 240, 63])"
proof -
  have new: "wire_MetricFamily (\<lambda>u. u) (PbMetricFamily_new wire_runtime) = []"
    by (simp add: wire_MetricFamily_def PbMetricFamily_new_def wire_runtime_def)
  have complete: "complete_family (abs_MetricFamily wire_runtime example_family)"
    "\<not> complete_family (abs_MetricFamily wire_runtime (PbMetricFamily_new wire_runtime))"
    by (simp_all add: complete_family_def abs_MetricFamily_def example_family_defs)
  have "pb_check_metric_family (\<lambda>_. ''mf'') (PbMetricFamily_new wire_runtime)
      = Inl (Msg ''MetricFamily has no metrics: mf'')"
    by (simp add: pb_check_metric_family_def pb_accessor_defs PbMetricFamily_new_def)
  with encoder_writes_delimited [OF wire.protobuf_runtime_axioms,
      of "[example_family, PbMetricFamily_new wire_runtime]" "\<lambda>_. ''mf''" "\<lambda>_. []" "[7]"] complete
  show ?thesis
    by (simp add: new example_family_wire wire_delimited_def varint_small)
qed

text \<open>
  C23. Parsing a metric family returns on every input, well-formed or not, with a family or an
  error: the loops of \<open>merge_from\<close> end, those of the nested messages included, as long as the
  runtime's readers move forward in their stream.
\<close>

theorem parsing_returns:
  assumes "protobuf_progress R"
  shows "\<exists>r. PbMetricFamily_merge_from R mf input = Some r"
  using protobuf_progress.returns_MetricFamily [OF assms] by (simp add: returns_def)

theorem parsing_returns_witness:
  "\<exists>r. PbMetricFamily_merge_from wire_runtime example_family [34, 5, 255, 255] = Some r"
  by (rule parsing_returns [OF wire_reader.protobuf_progress_axioms])


text \<open>
  C20. Every metric family, seen through its field accessors, is a value of the schema, and if its
  encoding by the schema is shorter than 4 GiB, then \<open>write_to_with_cached_sizes\<close> after
  \<open>compute_size\<close> appends just this to a stream, and its length is the size computed: the hand-expanded
  code of all messages is the interpretation of the schema on what reflection reads.
\<close>

theorem generated_code_follows_schema:
  assumes "protobuf_runtime R ub utf8"
  shows "\<exists>b. encode_message proto_schema ub (PbMetricFamily_as_ref mf) = Some b \<and>
     (length b < 2 ^ 32 \<longrightarrow>
        (\<exists>size mf'. PbMetricFamily_compute_size R mf = (size, mf') \<and>
           unat size = length b \<and>
           PbMetricFamily_write_to_with_cached_sizes R mf' out = Inr (out @ b)))"
proof -
  obtain size mf' where cs: "PbMetricFamily_compute_size R mf = (size, mf')" by fastforce
  have "unat size = length (wire_MetricFamily ub mf) \<and>
      PbMetricFamily_write_to_with_cached_sizes R mf' out = Inr (out @ wire_MetricFamily ub mf)"
    if "length (wire_MetricFamily ub mf) < 2 ^ 32"
    using protobuf_runtime.codes_MetricFamily [OF assms that] that
    by (simp add: cs codes_def appends_def unat_word_of_nat32)
  with cs encode_MetricFamily [of ub mf] show ?thesis by blast
qed

theorem generated_code_follows_schema_witness:
  "\<exists>size mf'. PbMetricFamily_compute_size wire_runtime example_family = (size, mf') \<and>
     PbMetricFamily_write_to_with_cached_sizes wire_runtime mf' [7] =
       Inr [7, 10, 1, 110, 24, 0, 34, 19, 10, 6, 10, 1, 97, 18, 1, 98, 26, 9, 9, 0, 0, 0, 0, 0, 0, 240, 63]"
  using generated_code_follows_schema [OF wire.protobuf_runtime_axioms, of example_family "[7]"]
  by (auto simp: encode_MetricFamily example_family_wire simp del: encode_message.simps)

text \<open>
  Read through its getters, a generated message is a message of the plain model, and the
  accessors that collectors, the registry and the encoders call do the same to both: new
  messages are the defaults, the setters of a family and of a metric set the plain field, \<open>take_\<close>
  empties it, a change through \<open>mut_metric\<close> is the change of the plain list, and the encoders'
  check of a family decides the same.
\<close>

theorem generated_model_refines_plain:
  "abs_MetricFamily R (PbMetricFamily_new R) = MetricFamily_default \<and>
   abs_Metric R (PbMetric_new R) = Metric_default \<and>
   abs_MetricFamily R (PbMetricFamily_set_name v mf) = abs_MetricFamily R mf\<lparr>mf_name := v\<rparr> \<and>
   abs_MetricFamily R (PbMetricFamily_set_help v mf) = abs_MetricFamily R mf\<lparr>mf_help := v\<rparr> \<and>
   abs_MetricFamily R (PbMetricFamily_set_field_type t mf) = abs_MetricFamily R mf\<lparr>mf_field_type := t\<rparr> \<and>
   abs_MetricFamily R (PbMetricFamily_set_metric ms mf) =
     abs_MetricFamily R mf\<lparr>mf_metric := map (abs_Metric R) ms\<rparr> \<and>
   abs_MetricFamily R (PbMetricFamily_mut_metric (\<lambda>l. map f (l @ ms)) mf) =
     abs_MetricFamily R mf\<lparr>mf_metric := map (\<lambda>m. abs_Metric R (f m)) (pmf_metric mf @ ms)\<rparr> \<and>
   map (abs_Metric R) (fst (PbMetricFamily_take_metric mf)) = mf_metric (abs_MetricFamily R mf) \<and>
   abs_MetricFamily R (snd (PbMetricFamily_take_metric mf)) = abs_MetricFamily R mf\<lparr>mf_metric := []\<rparr> \<and>
   abs_Metric R (PbMetric_set_label ls m) = abs_Metric R m\<lparr>m_label := map abs_LabelPair ls\<rparr> \<and>
   abs_Metric R (PbMetric_set_gauge g m) = abs_Metric R m\<lparr>m_gauge := abs_Gauge g\<rparr> \<and>
   abs_Metric R (PbMetric_set_counter c m) = abs_Metric R m\<lparr>m_counter := abs_Counter c\<rparr> \<and>
   abs_Metric R (PbMetric_set_histogram h m) = abs_Metric R m\<lparr>m_histogram := abs_Histogram h\<rparr> \<and>
   map abs_LabelPair (fst (PbMetric_take_label m)) = m_label (abs_Metric R m) \<and>
   abs_Metric R (snd (PbMetric_take_label m)) = abs_Metric R m\<lparr>m_label := []\<rparr> \<and>
   (pb_check_metric_family dbg mf = Inr ()) = (mf_metric (abs_MetricFamily R mf) \<noteq> [] \<and> mf_name (abs_MetricFamily R mf) \<noteq> [])"
  using abs_Metric_take [of m _ _ R] abs_MetricFamily_take [of mf _ _ R] pb_check_metric_family_abs [of dbg mf R]
  by (intro conjI abs_new abs_MetricFamily_set abs_Metric_set)
    (simp_all add: complete_family_def abs_MetricFamily_def abs_Metric_def pb_accessor_defs comp_def)

end
