(* ===== verification/Proxy_Metrics.thy ===== *)
theory Proxy_Metrics
  imports Proxy Metric_Value Metric_Gather Metric_Text_Spec
begin

text \<open>
  The metrics of the frontend proxy (\<open>src/rusty-workers-proxy/src/main.rs\<close>): the task that sets
  three gauges from the scheduler's state every two seconds, registering them in the default
  registry on first use, and the service that answers a scrape. The gauges are \<open>lazy_static\<close>:
  they are made when they are first used. A failed \<open>unwrap\<close> ends the process (\<open>None\<close>).
\<close>

section \<open>The gauges\<close>

datatype gauge = APP_NUM | APP_LAST_TIME | READY_INSTANCE

fun gauge_name :: "gauge \<Rightarrow> string" where
  "gauge_name APP_NUM = ''APP_NUM''"
| "gauge_name APP_LAST_TIME = ''APP_LAST_TIME''"
| "gauge_name READY_INSTANCE = ''READY_INSTANCE''"

fun gauge_help :: "gauge \<Rightarrow> string" where
  "gauge_help APP_NUM = ''the number of apps running on rusty-workers''"
| "gauge_help APP_LAST_TIME = ''the running time  of apps running on rusty-workers''"
| "gauge_help READY_INSTANCE = ''the usage of memory of rusty-workers''"

type_synonym IntGauge = "AtomicI64 ValueM"

record metrics_state =
  ms_gauges :: "gauge \<Rightarrow> IntGauge option"
  ms_registry :: "gauge RegistryCore"

definition metrics_start :: metrics_state where
  "metrics_start = \<lparr>ms_gauges = (\<lambda>_. None), ms_registry = Registry_default\<rparr>"

text \<open>\<open>Collector\<close> for the gauge behind the shared reference.\<close>

definition gauge_ops :: "metrics_state \<Rightarrow> gauge collector_ops" where
  "gauge_ops s =
     \<lparr>co_desc = (\<lambda>g. case ms_gauges s g of None \<Rightarrow> [] | Some v \<Rightarrow> Value_describe v),
      co_collect = (\<lambda>g. case ms_gauges s g of None \<Rightarrow> []
                      | Some v \<Rightarrow> Value_collector number_i64 atomic_i64 v)\<rparr>"

section \<open>The task that sets them\<close>

definition lazy_gauge :: "(bytes \<Rightarrow> u64) \<Rightarrow> gauge \<Rightarrow> metrics_state \<Rightarrow> metrics_state option" where
  "lazy_gauge fnv g s =
     (case ms_gauges s g of
        Some _ \<Rightarrow> Some s
      | None \<Rightarrow>
          (case GenericGauge_new fnv number_i64 atomic_i64 (gauge_name g) (gauge_help g) of
             Inl _ \<Rightarrow> None
           | Inr v \<Rightarrow> Some (s\<lparr>ms_gauges := (ms_gauges s)(g \<mapsto> v)\<rparr>)))"

definition ensure_registered ::
  "(bytes \<Rightarrow> u64) \<Rightarrow> (Desc \<Rightarrow> string) \<times> (string \<Rightarrow> string) \<Rightarrow> gauge \<Rightarrow> metrics_state \<Rightarrow> metrics_state option" where
  "ensure_registered fnv dbg g s =
     (case lazy_gauge fnv g s of
        None \<Rightarrow> None
      | Some s \<Rightarrow>
          if \<not> registry_contains (gauge_ops s) g (ms_registry s)
          then (case registry_register (gauge_ops s) dbg g (ms_registry s) of
                  (Inl _, _) \<Rightarrow> None
                | (Inr _, r) \<Rightarrow> Some (s\<lparr>ms_registry := r\<rparr>))
          else Some s)"

definition set_gauge :: "(bytes \<Rightarrow> u64) \<Rightarrow> gauge \<Rightarrow> i64 \<Rightarrow> metrics_state \<Rightarrow> metrics_state option" where
  "set_gauge fnv g x s =
     (case lazy_gauge fnv g s of
        None \<Rightarrow> None
      | Some s \<Rightarrow>
          Some (s\<lparr>ms_gauges := (ms_gauges s)(g := map_option (GenericGauge_set atomic_i64 x) (ms_gauges s g))\<rparr>))"

text \<open>
  A turn of the task is a sequence of these two steps; a scrape can come between any two of
  them. The number of applications and the applications are read under two separate locks:
  \<open>s\<close> and \<open>s'\<close> are the scheduler at each.
\<close>

datatype metrics_step = Ensure gauge | Assign gauge i64

fun metrics_exec ::
  "(bytes \<Rightarrow> u64) \<Rightarrow> (Desc \<Rightarrow> string) \<times> (string \<Rightarrow> string) \<Rightarrow> metrics_step \<Rightarrow> metrics_state \<Rightarrow> metrics_state option" where
  "metrics_exec fnv dbg (Ensure g) s = ensure_registered fnv dbg g s"
| "metrics_exec fnv dbg (Assign g x) s = set_gauge fnv g x s"

fun metrics_run ::
  "(bytes \<Rightarrow> u64) \<Rightarrow> (Desc \<Rightarrow> string) \<times> (string \<Rightarrow> string) \<Rightarrow> metrics_step list \<Rightarrow> metrics_state \<Rightarrow> metrics_state option" where
  "metrics_run fnv dbg [] s = Some s"
| "metrics_run fnv dbg (a # as) s = Option.bind (metrics_exec fnv dbg a s) (metrics_run fnv dbg as)"

definition app_steps :: "Instant \<Rightarrow> AppState \<Rightarrow> metrics_step list" where
  "app_steps now appstate =
     [Ensure APP_LAST_TIME, Ensure READY_INSTANCE,
      Assign APP_LAST_TIME (word_of_nat ((now - as_start_time appstate) div 1000000000)),
      Assign READY_INSTANCE (word_of_nat (length (ready_instances appstate)))]"

definition metrics_turn ::
  "('ac, 'rc) sched_ops \<Rightarrow> (nat \<Rightarrow> Instant) \<Rightarrow> ('ac, 'rc) Scheduler \<Rightarrow> ('ac, 'rc) Scheduler
    \<Rightarrow> metrics_step list \<times> ('ac, 'rc) Scheduler" where
  "metrics_turn ops now s s' =
     (case lru_iter (fst ops) (sc_apps s') of (entries, ac) \<Rightarrow>
        ([Ensure APP_NUM, Assign APP_NUM (word_of_nat (length (lru_entries (fst ops) (sc_apps s))))] @
         concat (map (\<lambda>i. app_steps (now i) (sc_app_heap s' ! snd (entries ! i))) [0..<length entries]),
         s'\<lparr>sc_apps := ac\<rparr>))"

section \<open>The scrape\<close>

text \<open>The buffer is a \<open>Vec<u8>\<close>: its bytes are those of the text written.\<close>

definition prometheus_serve_req :: "(MetricFamily \<Rightarrow> string) \<Rightarrow> metrics_state \<Rightarrow> Response option" where
  "prometheus_serve_req dbg s =
     (case encode_impl dbg StringBuf_write_all (registry_gather (gauge_ops s) (ms_registry s)) [] of
        (Done, buffer) \<Rightarrow>
          Some \<lparr>hr_status = 200, hr_headers = [(''content-type'', as_bytes TEXT_FORMAT)],
                hr_body = as_bytes buffer\<rparr>
      | _ \<Rightarrow> None)"

section \<open>The invariant\<close>

definition gauge_ok :: "(bytes \<Rightarrow> u64) \<Rightarrow> gauge \<Rightarrow> IntGauge \<Rightarrow> bool" where
  "gauge_ok fnv g v \<longleftrightarrow> d_fq_name (v_desc v) = gauge_name g \<and> d_help (v_desc v) = gauge_help g \<and>
     v_val_type v = VGauge \<and> v_label_pairs v = [] \<and>
     d_id (v_desc v) = fnv (hash_input [gauge_name g])"

definition metrics_inv :: "(bytes \<Rightarrow> u64) \<Rightarrow> metrics_state \<Rightarrow> bool" where
  "metrics_inv fnv s \<longleftrightarrow>
     registry_wf (gauge_ops s) (ms_registry s) \<and>
     rg_labels (ms_registry s) = None \<and> rg_prefix (ms_registry s) = None \<and>
     (\<forall>g v. ms_gauges s g = Some v \<longrightarrow> gauge_ok fnv g v) \<and>
     (\<forall>(i, g) \<in> set (rg_collectors_by_id (ms_registry s)). ms_gauges s g \<noteq> None) \<and>
     (\<forall>n h. hm_get (rg_dim_hashes_by_name (ms_registry s)) n = Some h \<longrightarrow>
        (\<exists>g v. ms_gauges s g = Some v \<and> d_fq_name (v_desc v) = n \<and> d_dim_hash (v_desc v) = h))"

lemma gauge_name_inj [simp]: "gauge_name g = gauge_name g' \<longleftrightarrow> g = g'"
  by (cases g; cases g') simp_all

lemma gauge_name_valid [simp]: "is_valid_metric_name (gauge_name g)"
  by (cases g) (simp_all add: is_valid_metric_name_def is_valid_ident_def matches_charset_with_colon_def
      matches_charset_without_colon_def is_ascii_alphabetic_def)

lemma gauge_help_nonempty [simp]: "gauge_help g \<noteq> []"
  by (cases g) simp_all

lemma gauge_new:
  obtains v where "GenericGauge_new fnv number_i64 atomic_i64 (gauge_name g) (gauge_help g) = Inr v"
    "gauge_ok fnv g v" "Value_get atomic_i64 v = 0"
proof -
  have "gauge_name g \<noteq> []" using valid_metric_name_nonempty [OF gauge_name_valid] .
  then obtain d where d: "Opts_describe fnv (Opts_new (gauge_name g) (gauge_help g)) = Inr d"
    "d_fq_name d = gauge_name g" "d_help d = gauge_help g" "d_variable_labels d = []" "d_const_label_pairs d = []"
    "d_id d = fnv (hash_input [gauge_name g])"
    by (simp add: Opts_describe_def Opts_fq_name_def build_fq_name_def Opts_new_def Desc_new_Inr
        desc_ok_def sort_labels_def desc_key_def)
  let ?v = "\<lparr>v_desc = d, v_val = AtomicI64 0, v_val_type = VGauge, v_label_pairs = []\<rparr>"
  have "GenericGauge_new fnv number_i64 atomic_i64 (gauge_name g) (gauge_help g) = Inr ?v"
    using d by (simp add: GenericGauge_new_def GenericGauge_with_opts_def Value_new_def
        GenericGauge_with_opts_and_label_values_def make_label_pairs_def atomic_i64_def number_i64_def)
  then show thesis
    by (rule that) (simp_all add: gauge_ok_def Value_get_def atomic_i64_def d)
qed

lemma registry_wf_cong:
  assumes "\<And>i g. (i, g) \<in> set (rg_collectors_by_id r) \<Longrightarrow> co_desc ops g = co_desc ops' g"
  shows "registry_wf ops r = registry_wf ops' r"
proof -
  have i: "ids_of ops g = ids_of ops' g" if "(i, g) \<in> set (rg_collectors_by_id r)" for i g
    using assms [OF that] by (simp add: ids_of_def)
  have "all_ids ops (rg_collectors_by_id r) = all_ids ops' (rg_collectors_by_id r)"
    unfolding all_ids_def using i by (intro arg_cong [where f = concat] map_cong) auto
  moreover have "(\<forall>(i, c) \<in> set (rg_collectors_by_id r). i = sum_list (ids_of ops c) \<and>
        (\<forall>d \<in> set (co_desc ops c). hm_get (rg_dim_hashes_by_name r) (d_fq_name d) = Some (d_dim_hash d))) =
      (\<forall>(i, c) \<in> set (rg_collectors_by_id r). i = sum_list (ids_of ops' c) \<and>
        (\<forall>d \<in> set (co_desc ops' c). hm_get (rg_dim_hashes_by_name r) (d_fq_name d) = Some (d_dim_hash d)))"
    using assms i by (intro ball_cong refl) auto
  ultimately show ?thesis by (simp add: registry_wf_def)
qed

lemma metrics_inv_ok: "metrics_inv fnv s \<Longrightarrow> ms_gauges s g = Some v \<Longrightarrow> gauge_ok fnv g v"
  by (simp add: metrics_inv_def)

lemma gauge_ops_simps:
  "ms_gauges s g = Some v \<Longrightarrow> co_desc (gauge_ops s) g = [v_desc v]"
  "ms_gauges s g = Some v \<Longrightarrow> co_collect (gauge_ops s) g = [Value_collect number_i64 atomic_i64 v]"
  by (simp_all add: gauge_ops_def Value_describe_def Value_collector_def)

text \<open>A change of the gauges that keeps their descriptors keeps the invariant.\<close>

lemma metrics_inv_gauges:
  assumes inv: "metrics_inv fnv s"
    and ext: "\<And>g v. ms_gauges s g = Some v \<Longrightarrow> \<exists>v'. f g = Some v' \<and> v_desc v' = v_desc v"
    and ok: "\<And>g v. f g = Some v \<Longrightarrow> gauge_ok fnv g v"
  shows "metrics_inv fnv (s\<lparr>ms_gauges := f\<rparr>)"
proof -
  let ?s = "s\<lparr>ms_gauges := f\<rparr>"
  have "co_desc (gauge_ops s) g = co_desc (gauge_ops ?s) g"
    if mem: "(i, g) \<in> set (rg_collectors_by_id (ms_registry s))" for i g
  proof -
    from inv mem obtain v where v: "ms_gauges s g = Some v" by (fastforce simp: metrics_inv_def)
    with ext obtain v' where "f g = Some v'" "v_desc v' = v_desc v" by blast
    with v show ?thesis by (simp add: gauge_ops_simps)
  qed
  then have "registry_wf (gauge_ops ?s) (ms_registry s)"
    using inv registry_wf_cong [of "ms_registry s" "gauge_ops s" "gauge_ops ?s"] by (simp add: metrics_inv_def)
  moreover have "\<exists>g v. f g = Some v \<and> d_fq_name (v_desc v) = n \<and> d_dim_hash (v_desc v) = h"
    if "hm_get (rg_dim_hashes_by_name (ms_registry s)) n = Some h" for n h
  proof -
    from inv that obtain g v where v: "ms_gauges s g = Some v" "d_fq_name (v_desc v) = n" "d_dim_hash (v_desc v) = h"
      unfolding metrics_inv_def by blast
    from ext [OF v(1)] obtain v' where "f g = Some v'" "v_desc v' = v_desc v" by blast
    with v show ?thesis by (intro exI [of _ g] exI [of _ v']) simp
  qed
  moreover have "f g \<noteq> None" if "(i, g) \<in> set (rg_collectors_by_id (ms_registry s))" for i g
    using inv that ext by (fastforce simp: metrics_inv_def)
  ultimately show ?thesis
    using inv ok by (simp add: metrics_inv_def) blast
qed

definition gauge_value_of :: "metrics_state \<Rightarrow> gauge \<Rightarrow> i64" where
  "gauge_value_of s g = (case ms_gauges s g of None \<Rightarrow> 0 | Some v \<Rightarrow> Value_get atomic_i64 v)"

definition registered :: "metrics_state \<Rightarrow> gauge list" where
  "registered s = map snd (rg_collectors_by_id (ms_registry s))"

lemma lazy_gauge_ok:
  assumes "metrics_inv fnv s"
  shows "\<exists>s'. lazy_gauge fnv g s = Some s' \<and> metrics_inv fnv s' \<and> ms_registry s' = ms_registry s \<and>
    ms_gauges s' g \<noteq> None \<and> (\<forall>g'. gauge_value_of s' g' = gauge_value_of s g')"
proof (cases "ms_gauges s g")
  case None
  obtain v where v: "GenericGauge_new fnv number_i64 atomic_i64 (gauge_name g) (gauge_help g) = Inr v"
    "gauge_ok fnv g v" "Value_get atomic_i64 v = 0" by (rule gauge_new)
  let ?s = "s\<lparr>ms_gauges := (ms_gauges s)(g \<mapsto> v)\<rparr>"
  have "metrics_inv fnv ?s"
  proof (rule metrics_inv_gauges [OF assms])
    show "gauge_ok fnv g' v'" if "((ms_gauges s)(g \<mapsto> v)) g' = Some v'" for g' v'
      using that assms v(2) by (auto simp: metrics_inv_def split: if_splits)
  qed (use None in auto)
  then show ?thesis
    using None v by (simp add: lazy_gauge_def gauge_value_of_def)
qed (use assms in \<open>simp add: lazy_gauge_def\<close>)

lemma ensure_ok:
  assumes "metrics_inv fnv s"
  shows "\<exists>s'. ensure_registered fnv dbg g s = Some s' \<and> metrics_inv fnv s' \<and>
    registry_contains (gauge_ops s') g (ms_registry s') \<and> (\<forall>g'. gauge_value_of s' g' = gauge_value_of s g') \<and>
    set (registered s) \<subseteq> set (registered s')"
proof -
  obtain s1 where s1: "lazy_gauge fnv g s = Some s1" "metrics_inv fnv s1" "ms_gauges s1 g \<noteq> None"
    "\<forall>g'. gauge_value_of s1 g' = gauge_value_of s g'" "ms_registry s1 = ms_registry s"
    using lazy_gauge_ok [OF assms] by blast
  then obtain v where v: "ms_gauges s1 g = Some v" by blast
  let ?ops = "gauge_ops s1" and ?r = "ms_registry s1"
  show ?thesis
  proof (cases "registry_contains ?ops g ?r")
    case True
    then show ?thesis using s1 by (simp add: ensure_registered_def registered_def)
  next
    case False
    have desc: "co_desc ?ops g = [v_desc v]" by (rule gauge_ops_simps [OF v])
    then have new: "d_id (v_desc v) \<notin> set (rg_desc_ids ?r)" using False by (simp add: registry_contains_def)
    have cons: "h = d_dim_hash (v_desc v)" if "hm_get (rg_dim_hashes_by_name ?r) (d_fq_name (v_desc v)) = Some h" for h
    proof -
      from s1(2) that obtain g' v' where "ms_gauges s1 g' = Some v'" "d_fq_name (v_desc v') = d_fq_name (v_desc v)"
        "d_dim_hash (v_desc v') = h" unfolding metrics_inv_def by blast
      moreover from this v have "gauge_name g' = gauge_name g"
        using metrics_inv_ok [OF s1(2)] by (metis gauge_ok_def)
      then have "g' = g" by simp
      ultimately show ?thesis using v by simp
    qed
    let ?dims = "hm_insert (d_fq_name (v_desc v)) (d_dim_hash (v_desc v)) (rg_dim_hashes_by_name ?r)"
    have loop: "register_loop dbg (rg_desc_ids ?r) (co_desc ?ops g) (rg_dim_hashes_by_name ?r) [] 0 =
        (Inr ([d_id (v_desc v)], d_id (v_desc v)), ?dims)"
      using new cons by (auto simp: desc Let_def)
    have wf: "registry_wf ?ops ?r" using s1(2) by (simp add: metrics_inv_def)
    have none: "hm_get (rg_collectors_by_id ?r) (d_id (v_desc v)) = None"
    proof -
      have "i \<noteq> d_id (v_desc v)" if mem: "(i, g') \<in> set (rg_collectors_by_id ?r)" for i g'
      proof -
        obtain v' where v': "ms_gauges s1 g' = Some v'" using mem s1(2) by (fastforce simp: metrics_inv_def)
        then have ids: "ids_of ?ops g' = [d_id (v_desc v')]" by (simp add: ids_of_def gauge_ops_simps)
        then have "i = d_id (v_desc v')" using mem wf by (fastforce simp: registry_wf_def)
        moreover have "d_id (v_desc v') \<in> set (rg_desc_ids ?r)"
          unfolding registry_wf_ids [OF wf] using mem ids by (force simp: set_all_ids)
        ultimately show ?thesis using new by auto
      qed
      then show ?thesis unfolding hm_get_None by fastforce
    qed
    let ?r' = "?r\<lparr>rg_dim_hashes_by_name := ?dims, rg_desc_ids := rg_desc_ids ?r @ [d_id (v_desc v)],
      rg_collectors_by_id := rg_collectors_by_id ?r @ [(d_id (v_desc v), g)]\<rparr>"
    let ?s = "s1\<lparr>ms_registry := ?r'\<rparr>"
    have reg: "registry_register ?ops dbg g ?r = (Inr (), ?r')"
      by (simp add: registry_register_def loop none hm_insert_new [OF none])
    have wf': "registry_wf ?ops ?r'" using register_wf [OF wf reg] by (rule conjunct1)
    have ops: "gauge_ops ?s = ?ops" by (simp add: gauge_ops_def)
    have "metrics_inv fnv ?s"
      using wf' s1(2) v unfolding metrics_inv_def ops
      by (auto simp: hm_get_insert split: if_splits)
    moreover have "ensure_registered fnv dbg g s = Some ?s"
      using False by (simp add: ensure_registered_def s1(1) reg)
    moreover have "registry_contains (gauge_ops ?s) g (ms_registry ?s)"
      by (simp add: ops registry_contains_def desc)
    ultimately show ?thesis
      using s1(4,5) by (auto simp: gauge_value_of_def registered_def)
  qed
qed

lemma set_gauge_ok:
  assumes "metrics_inv fnv s"
  shows "\<exists>s'. set_gauge fnv g x s = Some s' \<and> metrics_inv fnv s' \<and> ms_registry s' = ms_registry s \<and>
    (\<forall>g'. gauge_value_of s' g' = (if g' = g then x else gauge_value_of s g'))"
proof -
  obtain s1 where s1: "lazy_gauge fnv g s = Some s1" "metrics_inv fnv s1" "ms_registry s1 = ms_registry s"
    "ms_gauges s1 g \<noteq> None" "\<forall>g'. gauge_value_of s1 g' = gauge_value_of s g'"
    using lazy_gauge_ok [OF assms] by blast
  then obtain v where v: "ms_gauges s1 g = Some v" by blast
  let ?v = "GenericGauge_set atomic_i64 x v"
  have k: "v_desc ?v = v_desc v" "v_val_type ?v = v_val_type v" "v_label_pairs ?v = v_label_pairs v"
    "Value_get atomic_i64 ?v = x"
    by (simp_all add: GenericGauge_set_def ai64.Value_get_set) (simp_all add: Value_set_def)
  have "metrics_inv fnv (s1\<lparr>ms_gauges := (ms_gauges s1)(g \<mapsto> ?v)\<rparr>)"
  proof (rule metrics_inv_gauges [OF s1(2)])
    show "gauge_ok fnv g' v'" if "((ms_gauges s1)(g \<mapsto> ?v)) g' = Some v'" for g' v'
      using that s1(2) v k by (auto simp: metrics_inv_def gauge_ok_def split: if_splits)
  qed (use v k in auto)
  then show ?thesis
    using s1 v k by (simp add: set_gauge_def gauge_value_of_def)
qed

lemma metrics_start_inv: "metrics_inv fnv metrics_start"
  by (simp add: metrics_inv_def metrics_start_def registry_wf_default)
    (simp add: Registry_default_def hm_get_def)

lemma metrics_exec_ok: "metrics_inv fnv s \<Longrightarrow> \<exists>s'. metrics_exec fnv dbg a s = Some s' \<and> metrics_inv fnv s'"
  using ensure_ok set_gauge_ok by (cases a) (simp; metis)+

lemma metrics_run_ok: "metrics_inv fnv s \<Longrightarrow> \<exists>s'. metrics_run fnv dbg as s = Some s' \<and> metrics_inv fnv s'"
proof (induction as arbitrary: s)
  case (Cons a as)
  from metrics_exec_ok [OF Cons(2)] obtain s1 where "metrics_exec fnv dbg a s = Some s1" "metrics_inv fnv s1"
    by blast
  with Cons(1) show ?case by simp
qed simp

section \<open>What a scrape shows\<close>

definition shown :: "metrics_state \<Rightarrow> gauge \<Rightarrow> sample" where
  "shown s g = (gauge_name g, [], nm_into_f64 number_i64 (gauge_value_of s g), 0)"

lemma gauge_samples: "mf_field_type f = GAUGE \<Longrightarrow>
    family_samples f = map (\<lambda>(n, m). (n, labels_of m, gauge_value (m_gauge m), sint (m_timestamp_ms m))) (samples [f])"
proof -
  have "metric_samples n GAUGE = (\<lambda>m. [(n, labels_of m, gauge_value (m_gauge m), sint (m_timestamp_ms m))])" for n
    by (simp add: fun_eq_iff metric_samples_def Let_def)
  then show "mf_field_type f = GAUGE \<Longrightarrow> ?thesis" by (simp add: family_samples_def comp_def)
qed

definition gauge_family :: "metrics_state \<Rightarrow> gauge \<Rightarrow> MetricFamily" where
  "gauge_family s g = Value_collect number_i64 atomic_i64 (the (ms_gauges s g))"

definition gauge_metric :: "metrics_state \<Rightarrow> gauge \<Rightarrow> Metric" where
  "gauge_metric s g = Metric_default\<lparr>m_gauge := \<lparr>gauge_value = nm_into_f64 number_i64 (gauge_value_of s g)\<rparr>\<rparr>"

lemma gauge_family_simps:
  assumes "metrics_inv fnv s" and "g \<in> set (registered s)"
  shows "mf_name (gauge_family s g) = gauge_name g" "mf_field_type (gauge_family s g) = GAUGE"
    "mf_metric (gauge_family s g) = [gauge_metric s g]"
proof -
  obtain v where v: "ms_gauges s g = Some v" "gauge_ok fnv g v"
    using assms by (fastforce simp: metrics_inv_def registered_def)
  then show "mf_name (gauge_family s g) = gauge_name g" "mf_field_type (gauge_family s g) = GAUGE"
    "mf_metric (gauge_family s g) = [gauge_metric s g]"
    by (simp_all add: gauge_family_def Value_collect_def gauge_ok_def Value_metric_def gauge_metric_def
        gauge_value_of_def Metric_default_def Let_def)
qed

lemma collected_gauges:
  assumes "metrics_inv fnv s"
  shows "collected (gauge_ops s) (ms_registry s) = map (gauge_family s) (registered s)"
proof -
  have "co_collect (gauge_ops s) g = [gauge_family s g]" if "(i, g) \<in> set (rg_collectors_by_id (ms_registry s))" for i g
    using assms that by (fastforce simp: metrics_inv_def gauge_ops_simps gauge_family_def)
  then have "map (\<lambda>(_, c). co_collect (gauge_ops s) c) (rg_collectors_by_id (ms_registry s)) =
      map (\<lambda>(_, c). [gauge_family s c]) (rg_collectors_by_id (ms_registry s))"
    by (intro map_cong) auto
  then have "collected (gauge_ops s) (ms_registry s) = concat (map (\<lambda>(_, c). [gauge_family s c]) (rg_collectors_by_id (ms_registry s)))"
    by (simp only: collected_def)
  also have "\<dots> = map (gauge_family s) (registered s)"
    unfolding registered_def by (induction "rg_collectors_by_id (ms_registry s)" arbitrary: s) (auto simp: split_def)
  finally show ?thesis .
qed

lemma gauge_sample_list:
  assumes "metrics_inv fnv s"
  shows "mset (samples (registry_gather (gauge_ops s) (ms_registry s))) =
    mset (map (\<lambda>g. (gauge_name g, gauge_metric s g)) (registered s))"
proof -
  have n: "rg_prefix (ms_registry s) = None" "rg_labels (ms_registry s) = None"
    using assms by (simp_all add: metrics_inv_def)
  have i: "map_prod (prefix_name None) (label_metric None) = id"
    by (auto simp: fun_eq_iff prefix_name_def label_metric_def)
  have "samples (map (gauge_family s) gs) = map (\<lambda>g. (gauge_name g, gauge_metric s g)) gs"
    if "set gs \<subseteq> set (registered s)" for gs
    using that gauge_family_simps [OF assms] by (induction gs) auto
  then show ?thesis
    by (simp add: gather_complete n i collected_gauges [OF assms])
qed

lemma gather_gauges:
  assumes inv: "metrics_inv fnv s" and f: "f \<in> set (registry_gather (gauge_ops s) (ms_registry s))"
  shows "printable f \<and> mf_field_type f = GAUGE"
proof -
  let ?fs = "registry_gather (gauge_ops s) (ms_registry s)"
  obtain g where g: "g \<in> set (registered s)" "mf_name f = gauge_name g" "mf_field_type f = GAUGE"
    using gather_source [OF f] gauge_family_simps [OF inv] inv
    by (auto simp: collected_gauges [OF inv] metrics_inv_def prefix_name_def)
  have "\<exists>g'. m = gauge_metric s g'" if "m \<in> set (mf_metric f)" for m
  proof -
    have "(mf_name f, m) \<in> set (samples ?fs)" using f that by (auto simp: samples_def)
    then have "(mf_name f, m) \<in># mset (samples ?fs)" by simp
    then show ?thesis unfolding gauge_sample_list [OF inv] by auto
  qed
  then show ?thesis
    using g gather_sorted [OF f] representable_rnd valid_metric_name_nonempty [OF gauge_name_valid]
    by (fastforce simp: printable_def well_formed_def gauge_metric_def Metric_default_def
        representable_def [of "Fin 0"] number_i64_def f64_of_int_def)
qed

lemma sorted_samples:
  "sorted_wrt (<) (map mf_name fs) \<Longrightarrow> sorted (map fst (samples fs))"
proof (induction fs)
  case (Cons f fs)
  have "mf_name f \<le> n" if "(n, m) \<in> set (samples fs)" for n m
    using that Cons(2) by (auto simp: samples_def less_imp_le)
  moreover have "map (fst \<circ> Pair (mf_name f)) ms = replicate (length ms) (mf_name f)" for ms :: "Metric list"
    by (induction ms) simp_all
  ultimately show ?case using Cons by (auto simp: sorted_append)
qed simp

theorem scrape_shows:
  assumes inv: "metrics_inv fnv s"
  shows "\<exists>buf xs. prometheus_serve_req dbg s =
      Some \<lparr>hr_status = 200, hr_headers = [(''content-type'', as_bytes TEXT_FORMAT)], hr_body = as_bytes buf\<rparr> \<and>
    read_document (length buf) buf = Some xs \<and> mset xs = mset (map (shown s) (registered s)) \<and>
    sorted (map fst xs)"
proof -
  let ?fs = "registry_gather (gauge_ops s) (ms_registry s)"
  let ?h = "\<lambda>(n :: string, m). (n, labels_of m, gauge_value (m_gauge m), sint (m_timestamp_ms m))"
  obtain buf where buf: "encode_to_string dbg ?fs = (Done, buf)"
    "read_document (length buf) buf = Some (concat (map family_samples ?fs))"
    using encode_reads_back [of ?fs dbg] gather_gauges [OF inv] by blast
  have xs: "concat (map family_samples ?fs) = map ?h (samples ?fs)"
  proof -
    have "concat (map family_samples fs) = map ?h (samples fs)" if "\<forall>f \<in> set fs. mf_field_type f = GAUGE" for fs
      using that by (induction fs) (simp_all add: gauge_samples)
    then show ?thesis using gather_gauges [OF inv] by blast
  qed
  have "mset (map ?h (samples ?fs)) = image_mset ?h (mset (samples ?fs))" by simp
  also have "\<dots> = mset (map (shown s) (registered s))"
    unfolding gauge_sample_list [OF inv]
    by (simp add: image_mset.compositionality comp_def shown_def [abs_def] gauge_metric_def Metric_default_def labels_of_def)
  finally have "mset (map ?h (samples ?fs)) = mset (map (shown s) (registered s))" .
  moreover have "sorted (map fst (map ?h (samples ?fs)))"
    using sorted_samples [OF gather_names] by (simp add: comp_def split_def)
  moreover have "prometheus_serve_req dbg s =
      Some \<lparr>hr_status = 200, hr_headers = [(''content-type'', as_bytes TEXT_FORMAT)], hr_body = as_bytes buf\<rparr>"
    using buf(1) by (simp add: prometheus_serve_req_def encode_to_string_def split: prod.splits outcome.splits)
  ultimately show ?thesis using buf(2) by (simp only: xs) blast
qed

section \<open>A whole turn\<close>

definition gauge_ids_distinct :: "(bytes \<Rightarrow> u64) \<Rightarrow> bool" where
  "gauge_ids_distinct fnv \<longleftrightarrow> distinct (map (\<lambda>g. fnv (hash_input [gauge_name g])) [APP_NUM, APP_LAST_TIME, READY_INSTANCE])"

lemma gauge_ids_inj:
  "gauge_ids_distinct fnv \<Longrightarrow>
     fnv (hash_input [gauge_name g]) = fnv (hash_input [gauge_name g']) \<longleftrightarrow> g = g'"
  by (cases g; cases g') (auto simp: gauge_ids_distinct_def)

lemma gauge_ids_of:
  assumes "metrics_inv fnv s" and "ms_gauges s g \<noteq> None"
  shows "ids_of (gauge_ops s) g = [fnv (hash_input [gauge_name g])]"
  using assms by (auto simp: ids_of_def gauge_ops_simps dest!: metrics_inv_ok) (simp add: gauge_ok_def)

lemma registered_gauge: "metrics_inv fnv s \<Longrightarrow> g \<in> set (registered s) \<Longrightarrow> ms_gauges s g \<noteq> None"
  by (fastforce simp: metrics_inv_def registered_def)

lemma contains_gauge:
  assumes inv: "metrics_inv fnv s" and c: "registry_contains (gauge_ops s) g (ms_registry s)"
    and d: "gauge_ids_distinct fnv"
  shows "g \<in> set (registered s)"
proof -
  have wf: "registry_wf (gauge_ops s) (ms_registry s)" using inv by (simp add: metrics_inv_def)
  from c have g: "ms_gauges s g \<noteq> None"
    by (cases "ms_gauges s g") (auto simp: registry_contains_def gauge_ops_def)
  from c [unfolded contains_registered [OF wf]] obtain i g' where
    g': "(i, g') \<in> set (rg_collectors_by_id (ms_registry s))"
    "set (ids_of (gauge_ops s) g) \<inter> set (ids_of (gauge_ops s) g') \<noteq> {}" by auto
  then have r: "g' \<in> set (registered s)" by (force simp: registered_def)
  with g' gauge_ids_of [OF inv g] gauge_ids_of [OF inv registered_gauge [OF inv r]] have "g = g'"
    using gauge_ids_inj [OF d] by auto
  with r show ?thesis by simp
qed

lemma registered_distinct:
  assumes inv: "metrics_inv fnv s"
  shows "distinct (registered s)"
proof -
  have "distinct (map snd cs)" if "distinct (all_ids ops cs)" "\<And>i c. (i, c) \<in> set cs \<Longrightarrow> ids_of ops c \<noteq> []"
    for cs :: "(u64 \<times> gauge) list" and ops
    using that
  proof (induction cs)
    case (Cons x cs)
    obtain i c where x: "x = (i, c)" by (cases x)
    have a: "all_ids ops (x # cs) = ids_of ops c @ all_ids ops cs" by (simp add: x all_ids_def)
    have ne: "ids_of ops c \<noteq> []" using Cons(3) [of i c] by (simp add: x)
    have "c \<notin> snd ` set cs"
    proof
      assume "c \<in> snd ` set cs"
      then have "set (ids_of ops c) \<subseteq> set (all_ids ops cs)" by (force simp: set_all_ids)
      with Cons(2) ne show False unfolding a by (auto simp: neq_Nil_conv)
    qed
    moreover have "distinct (map snd cs)" using Cons.IH Cons(2,3) unfolding a by auto
    ultimately show ?case by (simp add: x)
  qed simp
  moreover have "distinct (all_ids (gauge_ops s) (rg_collectors_by_id (ms_registry s)))"
    using inv by (simp add: metrics_inv_def registry_wf_def)
  moreover have "ids_of (gauge_ops s) c \<noteq> []" if "(i, c) \<in> set (rg_collectors_by_id (ms_registry s))" for i c
    using gauge_ids_of [OF inv registered_gauge [OF inv]] that by (force simp: registered_def)
  ultimately show ?thesis unfolding registered_def by blast
qed

fun assigned :: "gauge \<Rightarrow> metrics_step \<Rightarrow> i64 \<Rightarrow> i64" where
  "assigned g (Assign g' y) x = (if g' = g then y else x)"
| "assigned g (Ensure g') x = x"

lemma metrics_run_values:
  assumes "metrics_inv fnv s" and "metrics_run fnv dbg as s = Some s'"
  shows "metrics_inv fnv s' \<and> gauge_value_of s' g = fold (assigned g) as (gauge_value_of s g) \<and>
    set (registered s) \<subseteq> set (registered s') \<and>
    (gauge_ids_distinct fnv \<longrightarrow> (\<forall>g'. Ensure g' \<in> set as \<longrightarrow> g' \<in> set (registered s')))"
  using assms
proof (induction as arbitrary: s)
  case (Cons a as)
  from Cons(3) obtain s1 where e: "metrics_exec fnv dbg a s = Some s1" and r: "metrics_run fnv dbg as s1 = Some s'"
    by (auto split: Option.bind_splits)
  have step: "metrics_inv fnv s1 \<and> gauge_value_of s1 g = assigned g a (gauge_value_of s g) \<and>
      set (registered s) \<subseteq> set (registered s1) \<and>
      (gauge_ids_distinct fnv \<longrightarrow> (\<forall>g'. a = Ensure g' \<longrightarrow> g' \<in> set (registered s1)))"
  proof (cases a)
    case (Ensure h)
    then show ?thesis using ensure_ok [OF Cons(2), of dbg h] e contains_gauge by auto
  next
    case (Assign h x)
    then show ?thesis using set_gauge_ok [OF Cons(2), of h x] e by (auto simp: registered_def)
  qed
  from Cons(1) [OF conjunct1 [OF step] r] step show ?case by auto
qed simp

lemma sorted_unique:
  assumes "mset xs = mset ys" and "sorted (map f xs)" and "sorted_wrt (<) (map f ys)"
  shows "xs = ys"
proof -
  have "distinct (map f ys)" "sorted (map f ys)"
    using assms(3) by (simp_all add: strict_sorted_iff)
  moreover from this have "distinct (map f xs)"
    using assms(1) distinct_perm [of "map f xs" "map f ys"] by simp
  moreover have "set xs = set ys" using assms(1) by (rule mset_eq_setD)
  moreover have "inj_on f (set xs \<union> set ys)"
    using calculation by (simp add: distinct_map)
  ultimately show ?thesis using assms(2) by (intro map_sorted_distinct_set_unique)
qed

lemma fold_assigned_app_num: "fold (assigned APP_NUM) (concat (map (\<lambda>i. app_steps (now i) (app i)) is)) x = x"
  by (induction "is") (simp_all add: app_steps_def)

text \<open>After a turn that saw some application, a scrape shows the last one's values.\<close>

lemma scrape_after_turn:
  assumes inv: "metrics_inv fnv s" and ids: "gauge_ids_distinct fnv"
    and run: "metrics_run fnv dbg (fst (metrics_turn ops now sc sc')) s = Some s'"
    and last: "fst (lru_iter (fst ops) (sc_apps sc')) = es @ [(i, a)]"
  shows "\<exists>buf. prometheus_serve_req dbg' s' =
      Some \<lparr>hr_status = 200, hr_headers = [(''content-type'', as_bytes TEXT_FORMAT)], hr_body = as_bytes buf\<rparr> \<and>
    read_document (length buf) buf = Some
      [(''APP_LAST_TIME'', [],
          f64_of_int (sint (word_of_nat ((now (length es) - as_start_time (sc_app_heap sc' ! a)) div 1000000000) :: i64)), 0),
       (''APP_NUM'', [], f64_of_int (sint (word_of_nat (length (lru_entries (fst ops) (sc_apps sc))) :: i64)), 0),
       (''READY_INSTANCE'', [],
          f64_of_int (sint (word_of_nat (length (ready_instances (sc_app_heap sc' ! a))) :: i64)), 0)]"
proof -
  let ?steps = "fst (metrics_turn ops now sc sc')"
  let ?n = "word_of_nat (length (lru_entries (fst ops) (sc_apps sc))) :: i64"
  obtain ac where ac: "lru_iter (fst ops) (sc_apps sc') = (es @ [(i, a)], ac)"
    using last by (cases "lru_iter (fst ops) (sc_apps sc')") auto
  have steps: "?steps = [Ensure APP_NUM, Assign APP_NUM ?n] @
      concat (map (\<lambda>j. app_steps (now j) (sc_app_heap sc' ! snd ((es @ [(i, a)]) ! j))) [0..<length es]) @
      app_steps (now (length es)) (sc_app_heap sc' ! a)"
    by (simp add: metrics_turn_def ac)
  have v: "metrics_inv fnv s'" "gauge_value_of s' APP_NUM = ?n"
    "gauge_value_of s' APP_LAST_TIME =
       word_of_nat ((now (length es) - as_start_time (sc_app_heap sc' ! a)) div 1000000000)"
    "gauge_value_of s' READY_INSTANCE = word_of_nat (length (ready_instances (sc_app_heap sc' ! a)))"
    using metrics_run_values [OF inv run] unfolding steps
    by (simp_all add: fold_assigned_app_num) (simp_all add: app_steps_def)
  have "g \<in> set (registered s')" for g
    using metrics_run_values [OF inv run, of g] ids unfolding steps
    by (cases g) (auto simp: app_steps_def)
  then have "mset (registered s') = mset [APP_LAST_TIME, APP_NUM, READY_INSTANCE]"
    using registered_distinct [OF v(1)]
    by (intro set_eq_iff_mset_eq_distinct [THEN iffD1]) (auto intro: gauge.exhaust)
  then have m: "mset (map (shown s') (registered s')) = mset (map (shown s') [APP_LAST_TIME, APP_NUM, READY_INSTANCE])"
    by (metis mset_map)
  obtain buf xs where b: "prometheus_serve_req dbg' s' =
      Some \<lparr>hr_status = 200, hr_headers = [(''content-type'', as_bytes TEXT_FORMAT)], hr_body = as_bytes buf\<rparr>"
    "read_document (length buf) buf = Some xs" "mset xs = mset (map (shown s') (registered s'))" "sorted (map fst xs)"
    using scrape_shows [OF v(1)] by blast
  have "xs = map (shown s') [APP_LAST_TIME, APP_NUM, READY_INSTANCE]"
    by (rule sorted_unique [OF b(3) [unfolded m] b(4)]) (simp add: shown_def)
  with b(2) have "read_document (length buf) buf = Some (map (shown s') [APP_LAST_TIME, APP_NUM, READY_INSTANCE])"
    by simp
  then show ?thesis
    by (intro exI [of _ buf] conjI b(1)) (simp add: shown_def v number_i64_def)
qed

end
