(* ===== verification/Fetchd.thy ===== *)
theory Fetchd
  imports Types
begin

text \<open>
  The fetch daemon (\<open>src/rusty-workers-fetchd/src/server.rs\<close>): the RPC that fetches a remote URL
  for a worker. \<open>reqwest\<close> and the conversions of the \<open>http\<close> crate are parameters; a failing one
  gives the text of its error. \<open>anyhow::Error\<close> is its \<open>Debug\<close> text.
\<close>

section \<open>Interfaces\<close>

type_synonym HeaderList = "(string \<times> bytes) list"

record 'u target_request =
  tq_method :: string
  tq_url :: 'u
  tq_headers :: HeaderList
  tq_body :: bytes

record remote_response =
  rr_status :: u16
  rr_headers :: HeaderList
  rr_chunks :: "(string + bytes) list" \<comment> \<open>what the calls of \<open>chunk\<close> give\<close>

record 'u fetch_ops =
  fo_url_parse :: "string \<Rightarrow> string + 'u"
  fo_method_from_bytes :: "bytes \<Rightarrow> string + string"
  fo_header_name :: "bytes \<Rightarrow> string + string"
  fo_header_value :: "string \<Rightarrow> string + bytes"
  fo_to_str :: "bytes \<Rightarrow> string + string"
  fo_execute :: "'u target_request \<Rightarrow> string + remote_response"

section \<open>run_fetch\<close>

definition FETCHD_MAX_RESPONSE_BODY_SIZE :: nat where
  "FETCHD_MAX_RESPONSE_BODY_SIZE = 1048576 * 8"

definition ResponseBodyTooLarge :: string where
  "ResponseBodyTooLarge = ''response body too large''"

fun append_items ::
  "'u fetch_ops \<Rightarrow> string \<Rightarrow> string list \<Rightarrow> HeaderList \<Rightarrow> string + HeaderList" where
  "append_items ops k [] headers = Inr headers"
| "append_items ops k (item # v) headers =
     bind_res (fo_header_name ops (as_bytes k)) (\<lambda>name.
     bind_res (fo_header_value ops item) (\<lambda>val.
     append_items ops k v (headers @ [(name, val)])))"

fun append_request_headers ::
  "'u fetch_ops \<Rightarrow> (string, string list) BTreeMap \<Rightarrow> HeaderList \<Rightarrow> string + HeaderList" where
  "append_request_headers ops [] headers = Inr headers"
| "append_request_headers ops ((k, v) # rest) headers =
     bind_res (append_items ops k v headers) (append_request_headers ops rest)"

text \<open>The request sent to the remote server.\<close>

definition build_target :: "'u fetch_ops \<Rightarrow> RequestObject \<Rightarrow> string + 'u target_request" where
  "build_target ops req =
     bind_res (fo_url_parse ops (req_url req)) (\<lambda>url.
     bind_res (fo_method_from_bytes ops (as_bytes (req_method req))) (\<lambda>method.
     bind_res (append_request_headers ops (req_headers req) []) (\<lambda>headers.
     bind_res (fo_header_name ops (as_bytes ''host'')) (\<lambda>host.
     Inr \<lparr>tq_method = method, tq_url = url, tq_headers = filter (\<lambda>h. fst h \<noteq> host) headers,
          tq_body = (case req_body req of Binary b \<Rightarrow> b)\<rparr>))))"

fun read_chunks :: "(string + bytes) list \<Rightarrow> bytes \<Rightarrow> string + bytes" where
  "read_chunks [] body = Inr body"
| "read_chunks (Inl e # chunks) body = Inl e"
| "read_chunks (Inr chunk # chunks) body =
     (let body = body @ chunk in
      if length body > FETCHD_MAX_RESPONSE_BODY_SIZE then Inl ResponseBodyTooLarge
      else read_chunks chunks body)"

fun response_headers ::
  "'u fetch_ops \<Rightarrow> HeaderList \<Rightarrow> (string, string list) BTreeMap \<Rightarrow> string + (string, string list) BTreeMap" where
  "response_headers ops [] headers = Inr headers"
| "response_headers ops ((k, v) # rest) headers =
     bind_res (fo_to_str ops v) (\<lambda>s.
     response_headers ops rest
       (bt_insert k ((case bt_get headers k of None \<Rightarrow> [] | Some vs \<Rightarrow> vs) @ [s]) headers))"

definition run_fetch :: "'u fetch_ops \<Rightarrow> RequestObject \<Rightarrow> string + ResponseObject" where
  "run_fetch ops req =
     bind_res (build_target ops req) (\<lambda>target_req.
     bind_res (fo_execute ops target_req) (\<lambda>res.
     bind_res (read_chunks (rr_chunks res) []) (\<lambda>body.
     bind_res (response_headers ops (rr_headers res) []) (\<lambda>headers.
     Inr \<lparr>res_headers = headers, res_status = rr_status res, res_body = Binary body\<rparr>))))"

text \<open>The RPC: every error of the fetch is a value for the caller.\<close>

definition FetchServer_fetch :: "'u fetch_ops \<Rightarrow> RequestObject \<Rightarrow> (string + ResponseObject) GenericResult" where
  "FetchServer_fetch ops req =
     (case run_fetch ops req of
        Inr x \<Rightarrow> Inr (Inr x)
      | Inl e \<Rightarrow> Inr (Inl (''fetch error: '' @ e)))"

section \<open>Lemmas\<close>

lemma append_items_Inr:
  "append_items ops k v headers = Inr out \<Longrightarrow>
     \<exists>names. out = headers @ names \<and> length names = length v"
proof (induction ops k v headers rule: append_items.induct)
  case (2 ops k item v headers)
  from 2(2) obtain name val where n: "fo_header_name ops (as_bytes k) = Inr name"
    "fo_header_value ops item = Inr val" "append_items ops k v (headers @ [(name, val)]) = Inr out"
    by (auto simp: bind_res_Inr_iff)
  from 2(1) [OF n(3)] obtain names where "out = (headers @ [(name, val)]) @ names" "length names = length v"
    by blast
  then show ?case by (intro exI [of _ "(name, val) # names"]) simp
qed simp

lemma read_chunks_Inr:
  "length body \<le> FETCHD_MAX_RESPONSE_BODY_SIZE \<Longrightarrow>
     read_chunks chunks body = Inr out \<longleftrightarrow>
       (\<exists>parts. chunks = map Inr parts \<and> out = body @ concat parts \<and> length out \<le> FETCHD_MAX_RESPONSE_BODY_SIZE)"
proof (induction chunks body rule: read_chunks.induct)
  case (3 chunk chunks body)
  show ?case
  proof (cases "length (body @ chunk) \<le> FETCHD_MAX_RESPONSE_BODY_SIZE")
    case True
    with 3(1) [OF refl] have ih: "read_chunks chunks (body @ chunk) = Inr out \<longleftrightarrow>
        (\<exists>parts. chunks = map Inr parts \<and> out = (body @ chunk) @ concat parts \<and> length out \<le> FETCHD_MAX_RESPONSE_BODY_SIZE)"
      by simp
    have "(\<exists>parts. Inr chunk # chunks = map Inr parts \<and> out = body @ concat parts \<and> length out \<le> FETCHD_MAX_RESPONSE_BODY_SIZE) \<longleftrightarrow>
        (\<exists>parts. chunks = map Inr parts \<and> out = (body @ chunk) @ concat parts \<and> length out \<le> FETCHD_MAX_RESPONSE_BODY_SIZE)"
      by (rule iffI; elim exE conjE) (auto simp: map_eq_Cons_conv Cons_eq_map_conv intro: exI [of _ "chunk # parts" for parts])
    with ih True show ?thesis by (simp add: Let_def)
  next
    case False
    then show ?thesis by (auto simp: Let_def Cons_eq_map_conv)
  qed
qed auto

text \<open>The headers of the response, grouped by name in the order received.\<close>

lemma response_headers_get:
  "response_headers ops hs acc = Inr out \<Longrightarrow>
     (\<exists>vals. map (\<lambda>h. fo_to_str ops (snd h)) (filter (\<lambda>h. fst h = k) hs) = map Inr vals \<and>
        (case bt_get out k of None \<Rightarrow> [] | Some vs \<Rightarrow> vs) =
        (case bt_get acc k of None \<Rightarrow> [] | Some vs \<Rightarrow> vs) @ vals)"
proof (induction ops hs acc rule: response_headers.induct)
  case (2 ops k' v rest headers)
  from 2(2) obtain s where s: "fo_to_str ops v = Inr s"
    and r: "response_headers ops rest
       (bt_insert k' ((case bt_get headers k' of None \<Rightarrow> [] | Some vs \<Rightarrow> vs) @ [s]) headers) = Inr out"
    by (auto simp: bind_res_Inr_iff)
  from 2(1) [OF r] obtain vals where vals: "map (\<lambda>h. fo_to_str ops (snd h)) (filter (\<lambda>h. fst h = k) rest) = map Inr vals"
    "(case bt_get out k of None \<Rightarrow> [] | Some vs \<Rightarrow> vs) =
      (case bt_get (bt_insert k' ((case bt_get headers k' of None \<Rightarrow> [] | Some vs \<Rightarrow> vs) @ [s]) headers) k of
         None \<Rightarrow> [] | Some vs \<Rightarrow> vs) @ vals" by blast
  show ?case
  proof (cases "k' = k")
    case True
    with vals s show ?thesis by (intro exI [of _ "s # vals"]) (simp add: bt_get_insert)
  next
    case False
    with vals show ?thesis by (intro exI [of _ vals]) (simp add: bt_get_insert)
  qed
qed simp

lemma build_target_Inr:
  assumes "build_target ops req = Inr t"
  shows "fo_url_parse ops (req_url req) = Inr (tq_url t)"
    and "fo_method_from_bytes ops (as_bytes (req_method req)) = Inr (tq_method t)"
    and "req_body req = Binary (tq_body t)"
    and "\<exists>host. fo_header_name ops (as_bytes ''host'') = Inr host \<and> host \<notin> fst ` set (tq_headers t)"
  using assms by (auto simp: build_target_def bind_res_Inr_iff split: HttpBody.split)

lemma run_fetch_Inr:
  assumes "run_fetch ops req = Inr x"
  shows "\<exists>t res parts. build_target ops req = Inr t \<and> fo_execute ops t = Inr res \<and>
    rr_chunks res = map Inr parts \<and> res_body x = Binary (concat parts) \<and>
    length (concat parts) \<le> FETCHD_MAX_RESPONSE_BODY_SIZE \<and> res_status x = rr_status res \<and>
    response_headers ops (rr_headers res) [] = Inr (res_headers x)"
  using assms
  by (auto simp: run_fetch_def bind_res_Inr_iff read_chunks_Inr FETCHD_MAX_RESPONSE_BODY_SIZE_def)

lemma run_fetch_oversize:
  assumes "build_target ops req = Inr t" and "fo_execute ops t = Inr res"
    and "rr_chunks res = map Inr parts" and "length (concat parts) > FETCHD_MAX_RESPONSE_BODY_SIZE"
  shows "run_fetch ops req = Inl ResponseBodyTooLarge"
proof -
  have "read_chunks (map Inr parts) body = Inl ResponseBodyTooLarge"
    if "length body \<le> FETCHD_MAX_RESPONSE_BODY_SIZE" "length (body @ concat parts) > FETCHD_MAX_RESPONSE_BODY_SIZE" for body
    using that
  proof (induction parts arbitrary: body)
    case (Cons p parts)
    then show ?case by (cases "length (body @ p) \<le> FETCHD_MAX_RESPONSE_BODY_SIZE") (simp_all add: Let_def)
  qed simp
  from this [of "[]"] show ?thesis
    using assms by (simp add: run_fetch_def)
qed

end
