(* ===== verification/Cli.thy ===== *)
theory Cli
  imports Db
begin

text \<open>
  The command line tool (\<open>src/rusty-workers-cli/src/main.rs\<close>): each command is a function of the
  environment (files, clock, random numbers, codecs) on the database or on a runtime. A command
  prints a text or ends with an error; a panic is an error of its own. \<open>toml\<close>, \<open>serde_json\<close>,
  \<open>base64\<close> and \<open>tar\<close> are parameters.
\<close>

section \<open>Environment\<close>

datatype json =
    JNull
  | JStr string
  | JArr "json list"
  | JObj "(string \<times> json) list"

record cli_env =
  ce_read_file :: "string \<Rightarrow> string + string"
  ce_read_file_raw :: "string \<Rightarrow> string + bytes"
  ce_toml_from_str :: "string \<Rightarrow> string + AppConfig"
  ce_worker_config_from_str :: "string \<Rightarrow> string + WorkerConfiguration"
  ce_tar_file :: "string \<Rightarrow> string \<Rightarrow> string + bytes" \<comment> \<open>the name in the archive, the file\<close>
  ce_base64_encode :: "bytes \<Rightarrow> string"
  ce_base64_decode :: "string \<Rightarrow> string + bytes"
  ce_from_utf8 :: "bytes \<Rightarrow> string + string"
  ce_to_string :: "json \<Rightarrow> string + string" \<comment> \<open>\<open>serde_json::to_string\<close>\<close>
  ce_json_ops :: json_ops
  ce_random :: "nat \<Rightarrow> u8"
  ce_now :: u64
  ce_now2 :: u64

datatype cli_error = CGeneric GenericError | COther string | CPanic string

type_synonym 'a climm = "db \<Rightarrow> (cli_error + 'a) \<times> db"

definition cli_db :: "'a dbm \<Rightarrow> 'a climm" where
  "cli_db m d = (case m d of (Inl e, d') \<Rightarrow> (Inl (CGeneric e), d') | (Inr x, d') \<Rightarrow> (Inr x, d'))"

definition cli_try :: "string + 'a \<Rightarrow> 'a climm" where
  "cli_try r d = ((case r of Inl e \<Rightarrow> Inl (COther e) | Inr x \<Rightarrow> Inr x), d)"

definition cli_unwrap :: "string + 'a \<Rightarrow> 'a climm" where
  "cli_unwrap r d = ((case r of Inl e \<Rightarrow> Inl (CPanic e) | Inr x \<Rightarrow> Inr x), d)"

definition cli_bind :: "'a climm \<Rightarrow> ('a \<Rightarrow> 'b climm) \<Rightarrow> 'b climm" where
  "cli_bind m f d = (case m d of (Inl e, d') \<Rightarrow> (Inl e, d') | (Inr x, d') \<Rightarrow> f x d')"

definition cli_println :: "string \<Rightarrow> string climm" where
  "cli_println s d = (Inr s, d)"

section \<open>What is printed\<close>

definition json_map :: "(string, string) BTreeMap \<Rightarrow> json" where
  "json_map m = JObj (map (\<lambda>(k, v). (k, JStr v)) m)"

definition json_option :: "('a \<Rightarrow> json) \<Rightarrow> 'a option \<Rightarrow> json" where
  "json_option f x = (case x of None \<Rightarrow> JNull | Some y \<Rightarrow> f y)"

definition json_kv_namespace :: "KvNamespaceConfig \<Rightarrow> json" where
  "json_kv_namespace c = JObj [(''name'', JStr (kvn_name c)), (''id'', JStr (kvn_id c))]"

definition json_app_config :: "AppConfig \<Rightarrow> json" where
  "json_app_config c =
     JObj [(''id'', JStr (appid_str (ac_id c))), (''bundle_id'', JStr (ac_bundle_id c)),
           (''env'', json_map (ac_env c)),
           (''kv_namespaces'', JArr (map json_kv_namespace (ac_kv_namespaces c)))]"

section \<open>Application commands\<close>

datatype AppCmd =
    ListRoutes string
  | AddRoute string string string
  | DeleteDomain string
  | DeleteRoute string string
  | LookupRoute string string
  | AddApp string string
  | AddSingleFileApp string string
  | DeleteApp string
  | GetApp string
  | GetBundle string
  | ListWorkerData string string u32 bool
  | GetWorkerData string string bool bool
  | PutWorkerData string string string bool bool
  | DeleteWorkerData string string bool

definition decode_arg :: "cli_env \<Rightarrow> bool \<Rightarrow> string \<Rightarrow> bytes climm" where
  "decode_arg env base64 s =
     (if \<not> base64 then cli_try (Inr (as_bytes s)) else cli_try (ce_base64_decode env s))"

definition do_add_app :: "cli_env \<Rightarrow> AppConfig \<Rightarrow> bytes \<Rightarrow> unit climm" where
  "do_add_app env config bundle =
     (let bundle_id = ce_base64_encode env (rand_bytes (ce_random env) 16) in
      cli_bind (cli_db (app_bundle_put (ce_now env) bundle_id bundle)) (\<lambda>_.
      cli_db (app_metadata_put (ce_json_ops env) (ce_now2 env) (config\<lparr>ac_bundle_id := bundle_id\<rparr>))))"

fun app_cmd :: "cli_env \<Rightarrow> AppCmd \<Rightarrow> string climm" where
  "app_cmd env (ListRoutes domain) =
     cli_bind (cli_db (route_mapping_list_for_domain domain)) (\<lambda>routes.
     cli_bind (cli_try (ce_to_string env (json_map routes))) cli_println)"
| "app_cmd env (AddRoute domain path appid) =
     cli_bind (cli_db (route_mapping_insert (ce_now env) domain path appid)) (\<lambda>_. cli_println ''OK'')"
| "app_cmd env (DeleteDomain domain) =
     cli_bind (cli_db (route_mapping_delete_domain domain)) (\<lambda>_. cli_println ''OK'')"
| "app_cmd env (DeleteRoute domain path) =
     cli_bind (cli_db (route_mapping_delete domain path)) (\<lambda>_. cli_println ''OK'')"
| "app_cmd env (LookupRoute domain path) =
     cli_bind (cli_db (route_mapping_lookup domain path)) (\<lambda>result.
     cli_bind (cli_try (ce_to_string env (json_option JStr result))) cli_println)"
| "app_cmd env (AddApp config_file bundle_file) =
     cli_bind (cli_try (ce_read_file env config_file)) (\<lambda>text.
     cli_bind (cli_try (ce_toml_from_str env text)) (\<lambda>config.
     cli_bind (cli_try (ce_read_file_raw env bundle_file)) (\<lambda>bundle.
     cli_bind (do_add_app env config bundle) (\<lambda>_. cli_println ''OK''))))"
| "app_cmd env (AddSingleFileApp config_file js) =
     cli_bind (cli_try (ce_read_file env config_file)) (\<lambda>text.
     cli_bind (cli_try (ce_toml_from_str env text)) (\<lambda>config.
     cli_bind (cli_try (ce_tar_file env ''./index.js'' js)) (\<lambda>archive.
     cli_bind (do_add_app env config archive) (\<lambda>_. cli_println ''OK''))))"
| "app_cmd env (DeleteApp appid) =
     cli_bind (cli_db (app_metadata_delete appid)) (\<lambda>_. cli_println ''OK'')"
| "app_cmd env (GetApp appid) =
     cli_bind (cli_db (app_metadata_get (ce_json_ops env) appid)) (\<lambda>result.
     cli_bind (cli_try (ce_to_string env (json_option json_app_config result))) cli_println)"
| "app_cmd env (GetBundle bundle_id) =
     cli_bind (cli_db (app_bundle_get bundle_id)) (\<lambda>bundle.
     cli_bind (cli_try (ce_to_string env (json_option (JStr \<circ> ce_base64_encode env) bundle))) cli_println)"
| "app_cmd env (ListWorkerData namespace start limit base64_key) =
     cli_bind (decode_arg env base64_key start) (\<lambda>from_key.
     cli_bind (cli_db (worker_data_scan_keys (ce_now env) namespace from_key None limit)) (\<lambda>keys.
     cli_bind (cli_try (ce_to_string env (JArr (map (\<lambda>k.
         if \<not> base64_key
         then (case ce_from_utf8 env k of Inl _ \<Rightarrow> JNull | Inr s \<Rightarrow> JStr s)
         else JStr (ce_base64_encode env k)) keys)))) cli_println))"
| "app_cmd env (GetWorkerData namespace key base64_key base64_value) =
     cli_bind (decode_arg env base64_key key) (\<lambda>key.
     cli_bind (cli_db (worker_data_get (ce_now env) namespace key)) (\<lambda>v.
     (case v of
        Some v \<Rightarrow>
          if \<not> base64_value
          then cli_bind (cli_try (ce_from_utf8 env v)) (\<lambda>s.
               cli_bind (cli_unwrap (ce_to_string env (JStr s))) cli_println)
          else cli_bind (cli_unwrap (ce_to_string env (JStr (ce_base64_encode env v)))) cli_println
      | None \<Rightarrow> cli_println ''null'')))"
| "app_cmd env (PutWorkerData namespace key v base64_key base64_value) =
     cli_bind (decode_arg env base64_key key) (\<lambda>key.
     cli_bind (decode_arg env base64_value v) (\<lambda>v.
     cli_bind (cli_db (worker_data_put (ce_now env) (ce_now2 env) namespace key v False 0)) (\<lambda>_.
     cli_println ''OK'')))"
| "app_cmd env (DeleteWorkerData namespace key base64_key) =
     cli_bind (decode_arg env base64_key key) (\<lambda>key.
     cli_bind (cli_db (worker_data_delete namespace key)) (\<lambda>_. cli_println ''OK''))"

section \<open>Runtime commands\<close>

text \<open>A call to a runtime fails with the text of the transport's error, or gives its answer.\<close>

record runtime_client =
  rc_spawn_worker :: "string \<Rightarrow> WorkerConfiguration \<Rightarrow> bytes \<Rightarrow> string + WorkerHandle GenericResult"
  rc_terminate_worker :: "WorkerHandle \<Rightarrow> string + bool"
  rc_list_workers :: "string + WorkerHandle list GenericResult"
  rc_fetch :: "WorkerHandle \<Rightarrow> RequestObject \<Rightarrow> string + ResponseObject ExecutionResult"

datatype RuntimeCmd =
    Spawn string "string option" SocketAddr string
  | Terminate string
  | List
  | Fetch string

datatype cli_output =
    OSpawn "WorkerHandle GenericResult"
  | OTerminate bool
  | OList "WorkerHandle list GenericResult"
  | OFetch "ResponseObject ExecutionResult"

definition default_worker_config :: "SocketAddr \<Rightarrow> WorkerConfiguration" where
  "default_worker_config fetch =
     \<lparr>executor = \<lparr>max_ab_memory_mb = 32, max_time_ms = 50, max_io_concurrency = 10, max_io_per_request = 50\<rparr>,
      fetch_service = fetch, wc_env = [], wc_kv_namespaces = []\<rparr>"

fun runtime_cmd :: "cli_env \<Rightarrow> runtime_client \<Rightarrow> RuntimeCmd \<Rightarrow> string + cli_output" where
  "runtime_cmd env client (Spawn appid config_file fetch script) =
     bind_res
       (case config_file of
          Some file \<Rightarrow> bind_res (ce_read_file env file) (ce_worker_config_from_str env)
        | None \<Rightarrow> Inr (default_worker_config fetch)) (\<lambda>config.
     bind_res (ce_read_file_raw env script) (\<lambda>script.
     bind_res (rc_spawn_worker client appid config script) (\<lambda>result. Inr (OSpawn result))))"
| "runtime_cmd env client (Terminate handle) =
     bind_res (rc_terminate_worker client (WorkerHandle handle)) (\<lambda>result. Inr (OTerminate result))"
| "runtime_cmd env client List =
     bind_res (rc_list_workers client) (\<lambda>result. Inr (OList result))"
| "runtime_cmd env client (Fetch handle) =
     bind_res (rc_fetch client (WorkerHandle handle) RequestObject_default) (\<lambda>result. Inr (OFetch result))"

end
