(* ===== verification/Cli_Spec.thy ===== *)
theory Cli_Spec
  imports Cli Db_Spec
begin

text \<open>
  What the command line tool guarantees of the database (\<open>src/rusty-workers-cli/src/main.rs\<close>): no
  command leaves an application without its bundle, wherever a call to the server fails, and a
  command that ends in an error leaves at most an unused bundle behind.
\<close>

section \<open>A calculus for the commands\<close>

definition cli_keeps :: "(tables \<Rightarrow> bool) \<Rightarrow> 'a climm \<Rightarrow> bool" where
  "cli_keeps P m \<longleftrightarrow> (\<forall>d. P (tbl d) \<longrightarrow> P (tbl (snd (m d))))"

named_theorems cli_intros

lemma cli_keeps_db [cli_intros]: "db_keeps P m \<Longrightarrow> cli_keeps P (cli_db m)"
  by (auto simp: cli_keeps_def db_keeps_def cli_db_def split: prod.splits sum.splits)

lemma cli_keeps_pure [cli_intros]:
  "cli_keeps P (cli_try r)" "cli_keeps P (cli_unwrap r)" "cli_keeps P (cli_println s)" "cli_keeps P (decode_arg env b x)"
  by (simp_all add: cli_keeps_def cli_try_def cli_unwrap_def cli_println_def decode_arg_def)

lemma cli_keeps_bind [cli_intros]:
  assumes "cli_keeps P m" and "\<And>x. cli_keeps P (f x)"
  shows "cli_keeps P (cli_bind m f)"
  unfolding cli_keeps_def
proof (intro allI impI)
  fix d :: db
  assume "P (tbl d)"
  with assms(1) have "P (tbl (snd (m d)))" by (simp add: cli_keeps_def)
  with assms(2) show "P (tbl (snd (cli_bind m f d)))"
    by (auto simp: cli_bind_def cli_keeps_def split: prod.splits sum.splits)
qed

section \<open>Applications and their bundles\<close>

definition apps_have_bundles :: "tables \<Rightarrow> bool" where
  "apps_have_bundles t \<longleftrightarrow> (\<forall>r \<in> set (apps_tbl t). ap_bundle_id r \<in> bu_id ` set (bundles t))"

lemma keeps_bundles_other:
  "db_keeps apps_have_bundles (worker_data_put n n2 ns k v ine ttl)"
  "db_keeps apps_have_bundles (worker_data_delete ns k)"
  "db_keeps apps_have_bundles (route_mapping_insert now dm p a)"
  "db_keeps apps_have_bundles (route_mapping_delete dm p)"
  "db_keeps apps_have_bundles (route_mapping_delete_domain dm)"
  unfolding worker_data_put_def worker_data_delete_def route_mapping_insert_def route_mapping_delete_def
    route_mapping_delete_domain_def
  by (intro keeps_intros; auto split: sum.split intro!: keeps_intros
      simp: apps_have_bundles_def kv_upsert_def)+

lemma keeps_bundles_delete: "db_keeps apps_have_bundles (app_metadata_delete a)"
  unfolding app_metadata_delete_def
  by (intro keeps_intros) (auto simp: apps_have_bundles_def tbl_delete_def)

lemma keeps_bundles_put: "db_keeps apps_have_bundles (app_bundle_put now i v)"
  unfolding app_bundle_put_def
  by (intro keeps_intros) (auto simp: apps_have_bundles_def tbl_insert_def split: option.splits if_splits)

lemma app_bundle_put_result:
  assumes "app_bundle_put now i v d = (r, d')"
  shows "apps_tbl (tbl d') = apps_tbl (tbl d) \<and> routes (tbl d') = routes (tbl d) \<and> appkv (tbl d') = appkv (tbl d) \<and>
    set (bundles (tbl d)) \<subseteq> set (bundles (tbl d')) \<and>
    (r = Inr () \<longrightarrow> i \<in> bu_id ` set (bundles (tbl d')))"
proof (cases r)
  case (Inl e)
  have "db_atomic (app_bundle_put now i v)"
    unfolding app_bundle_put_def by (intro atomic_intros readonly_intros)
  from db_atomic_err [OF this] assms Inl show ?thesis by simp
next
  case (Inr u)
  from app_bundle_put_Inr [OF assms [unfolded Inr]] show ?thesis by auto
qed

lemma app_metadata_put_result:
  assumes "app_metadata_put js now c d = (r, d')"
  shows "bundles (tbl d') = bundles (tbl d) \<and> routes (tbl d') = routes (tbl d) \<and> appkv (tbl d') = appkv (tbl d) \<and>
    (if is_err r then apps_tbl (tbl d') = apps_tbl (tbl d)
     else ap_bundle_id ` set (apps_tbl (tbl d')) \<subseteq> insert (ac_bundle_id c) (ap_bundle_id ` set (apps_tbl (tbl d))))"
proof (cases r)
  case (Inl e)
  have "db_atomic (app_metadata_put js now c)"
    unfolding app_metadata_put_def by (intro atomic_intros readonly_intros)
  from db_atomic_err [OF this] assms Inl show ?thesis by simp
next
  case (Inr u)
  from assms [unfolded Inr] obtain env kvns where
    "tbl d' = (tbl d)\<lparr>apps_tbl := tbl_upsert ap_id
         (\<lambda>r. r\<lparr>ap_bundle_id := ac_bundle_id c, ap_env := env, ap_kv_namespaces := kvns\<rparr>)
         \<lparr>ap_id = appid_str (ac_id c), ap_bundle_id = ac_bundle_id c, ap_env = env,
          ap_kv_namespaces = kvns, ap_createtime = now\<rparr> (apps_tbl (tbl d))\<rparr>"
    by (rule app_metadata_put_Inr)
  then show ?thesis by (auto simp: Inr tbl_upsert_def)
qed

lemma keeps_bundles_add: "cli_keeps apps_have_bundles (do_add_app env config bundle)"
  unfolding cli_keeps_def
proof (intro allI impI)
  fix d :: db
  assume inv: "apps_have_bundles (tbl d)"
  let ?i = "ce_base64_encode env (rand_bytes (ce_random env) 16)"
  obtain r1 d1 where p1: "app_bundle_put (ce_now env) ?i bundle d = (r1, d1)" by (rule prod.exhaust)
  obtain r2 d2 where p2: "app_metadata_put (ce_json_ops env) (ce_now2 env) (config\<lparr>ac_bundle_id := ?i\<rparr>) d1 = (r2, d2)"
    by (rule prod.exhaust)
  note b = app_bundle_put_result [OF p1] and m = app_metadata_put_result [OF p2]
  from inv b have k: "apps_have_bundles (tbl d1)" by (auto simp: apps_have_bundles_def)
  show "apps_have_bundles (tbl (snd (do_add_app env config bundle d)))"
  proof (cases r1)
    case (Inl e)
    then show ?thesis using k by (simp add: do_add_app_def Let_def cli_bind_def cli_db_def p1)
  next
    case (Inr u)
    have "apps_have_bundles (tbl d2)"
      using k b m Inr unfolding apps_have_bundles_def by (auto split: if_splits)
    then show ?thesis
      using Inr by (cases r2) (simp_all add: do_add_app_def Let_def cli_bind_def cli_db_def p1 p2)
  qed
qed

lemmas keeps_bundles = keeps_bundles_other keeps_bundles_delete keeps_bundles_put
  select_ops_readonly [THEN db_keeps_readonly] worker_data_readonly [THEN db_keeps_readonly]
  app_metadata_get_readonly [THEN db_keeps_readonly]

lemma app_cmd_keeps_bundles: "cli_keeps apps_have_bundles (app_cmd env c)"
  by (cases c) (auto intro!: cli_intros keeps_bundles keeps_bundles_add split: option.split)

section \<open>Errors\<close>

definition data_tables :: "tables \<Rightarrow> app_row list \<times> route_row list \<times> appkv_row list" where
  "data_tables t = (apps_tbl t, routes t, appkv t)"

definition cli_clean :: "'a climm \<Rightarrow> bool" where
  "cli_clean m \<longleftrightarrow> (\<forall>d e d'. m d = (Inl e, d') \<longrightarrow>
     data_tables (tbl d') = data_tables (tbl d) \<and> set (bundles (tbl d)) \<subseteq> set (bundles (tbl d')))"

definition cli_pure :: "'a climm \<Rightarrow> bool" where
  "cli_pure m \<longleftrightarrow> (\<forall>d. tbl (snd (m d)) = tbl d)"

definition cli_total :: "'a climm \<Rightarrow> bool" where
  "cli_total m \<longleftrightarrow> (\<forall>d. \<exists>x d'. m d = (Inr x, d'))"

named_theorems clean_intros

lemma cli_pure_basic [clean_intros]:
  "cli_pure (cli_try r)" "cli_pure (cli_unwrap r)" "cli_pure (cli_println s)" "cli_pure (decode_arg env b x)"
  "cli_total (cli_println s)"
  by (simp_all add: cli_pure_def cli_total_def cli_try_def cli_unwrap_def cli_println_def decode_arg_def)

lemma cli_pure_db [clean_intros]: "db_readonly m \<Longrightarrow> cli_pure (cli_db m)"
  by (auto simp: cli_pure_def db_readonly_def cli_db_def split: prod.splits sum.splits) (metis snd_conv)+

lemma cli_pure_bind [clean_intros]:
  assumes "cli_pure m" and "\<And>x. cli_pure (f x)"
  shows "cli_pure (cli_bind m f)"
  unfolding cli_pure_def
proof
  fix d :: db
  obtain r d' where m: "m d = (r, d')" by (rule prod.exhaust)
  with assms(1) have "tbl d' = tbl d" by (metis cli_pure_def snd_conv)
  with m assms(2) show "tbl (snd (cli_bind m f d)) = tbl d"
    by (cases r) (simp_all add: cli_bind_def cli_pure_def)
qed

lemma cli_clean_pure: "cli_pure m \<Longrightarrow> cli_clean m"
  unfolding cli_pure_def cli_clean_def by (metis order_refl snd_conv)

lemma cli_clean_db: "db_atomic m \<Longrightarrow> cli_clean (cli_db m)"
  by (auto simp: cli_clean_def cli_db_def dest: db_atomic_err split: prod.splits sum.splits)

lemma cli_clean_bind:
  assumes "cli_pure m" and "\<And>x. cli_clean (f x)"
  shows "cli_clean (cli_bind m f)"
  unfolding cli_clean_def
proof (intro allI impI)
  fix d e d'
  assume run: "cli_bind m f d = (Inl e, d')"
  obtain r d1 where m: "m d = (r, d1)" by (rule prod.exhaust)
  with assms(1) have "tbl d1 = tbl d" by (metis cli_pure_def snd_conv)
  show "data_tables (tbl d') = data_tables (tbl d) \<and> set (bundles (tbl d)) \<subseteq> set (bundles (tbl d'))"
  proof (cases r)
    case (Inl e')
    with run m \<open>tbl d1 = tbl d\<close> show ?thesis by (simp add: cli_bind_def)
  next
    case (Inr x)
    with run m have "f x d1 = (Inl e, d')" by (simp add: cli_bind_def)
    with assms(2) [of x] \<open>tbl d1 = tbl d\<close> show ?thesis unfolding cli_clean_def by metis
  qed
qed

lemma cli_clean_last:
  assumes "cli_clean m" and "\<And>x. cli_total (f x)"
  shows "cli_clean (cli_bind m f)"
  unfolding cli_clean_def
proof (intro allI impI)
  fix d e d'
  assume run: "cli_bind m f d = (Inl e, d')"
  obtain r d1 where m: "m d = (r, d1)" by (rule prod.exhaust)
  show "data_tables (tbl d') = data_tables (tbl d) \<and> set (bundles (tbl d)) \<subseteq> set (bundles (tbl d'))"
  proof (cases r)
    case (Inl e')
    with m run assms(1) show ?thesis by (auto simp: cli_bind_def cli_clean_def)
  next
    case (Inr x)
    from assms(2) [of x] obtain y d2 where "f x d1 = (Inr y, d2)" unfolding cli_total_def by blast
    with m run Inr show ?thesis by (simp add: cli_bind_def)
  qed
qed

lemma cli_clean_add: "cli_clean (do_add_app env config bundle)"
  unfolding cli_clean_def
proof (intro allI impI)
  fix d e d'
  assume run: "do_add_app env config bundle d = (Inl e, d')"
  let ?i = "ce_base64_encode env (rand_bytes (ce_random env) 16)"
  obtain r1 d1 where p1: "app_bundle_put (ce_now env) ?i bundle d = (r1, d1)" by (rule prod.exhaust)
  obtain r2 d2 where p2: "app_metadata_put (ce_json_ops env) (ce_now2 env) (config\<lparr>ac_bundle_id := ?i\<rparr>) d1 = (r2, d2)"
    by (rule prod.exhaust)
  from run app_bundle_put_result [OF p1] app_metadata_put_result [OF p2]
  show "data_tables (tbl d') = data_tables (tbl d) \<and> set (bundles (tbl d)) \<subseteq> set (bundles (tbl d'))"
    by (cases r1; cases r2)
      (auto simp: do_add_app_def Let_def cli_bind_def cli_db_def p1 p2 data_tables_def)
qed

lemma data_ops_atomic:
  "db_atomic (route_mapping_insert now dm p a)" "db_atomic (route_mapping_delete dm p)"
  "db_atomic (route_mapping_delete_domain dm)" "db_atomic (app_metadata_delete x)"
  unfolding route_mapping_insert_def route_mapping_delete_def route_mapping_delete_domain_def app_metadata_delete_def
  by (intro atomic_intros readonly_intros)+

fun changes_data :: "AppCmd \<Rightarrow> bool" where
  "changes_data (ListRoutes _) = False"
| "changes_data (LookupRoute _ _) = False"
| "changes_data (GetApp _) = False"
| "changes_data (GetBundle _) = False"
| "changes_data (ListWorkerData _ _ _ _) = False"
| "changes_data (GetWorkerData _ _ _ _) = False"
| "changes_data _ = True"

lemma app_cmd_pure: "\<not> changes_data c \<Longrightarrow> cli_pure (app_cmd env c)"
  by (cases c) (auto intro!: clean_intros readonly_intros split: option.split)

lemma app_cmd_clean: "cli_clean (app_cmd env c)"
proof (cases "changes_data c")
  case False
  then show ?thesis by (intro cli_clean_pure app_cmd_pure)
next
  case True
  then show ?thesis
    by (cases c)
      (auto intro!: cli_clean_last [OF cli_clean_db] cli_clean_last [OF cli_clean_add]
         data_ops_atomic worker_data_atomic cli_pure_basic
         cli_clean_bind [of "cli_try r" for r] cli_clean_bind [of "decode_arg env b x" for b x])
qed

section \<open>Deployment\<close>

lemma do_add_app_deploys:
  assumes js: "json_roundtrip (ce_json_ops env)"
    and add: "do_add_app env config bundle d = (Inr (), d1)"
    and get: "app_metadata_get (ce_json_ops env) (appid_str (ac_id config)) d1 = (Inr r, d2)"
    and fetch: "app_bundle_get (ce_base64_encode env (rand_bytes (ce_random env) 16)) d2 = (Inr b, d3)"
  shows "r = Some (config\<lparr>ac_bundle_id := ce_base64_encode env (rand_bytes (ce_random env) 16)\<rparr>) \<and> b = Some bundle"
proof -
  let ?i = "ce_base64_encode env (rand_bytes (ce_random env) 16)"
  let ?c = "config\<lparr>ac_bundle_id := ?i\<rparr>"
  from add obtain d0 where put: "app_bundle_put (ce_now env) ?i bundle d = (Inr (), d0)"
    and md: "app_metadata_put (ce_json_ops env) (ce_now2 env) ?c d0 = (Inr (), d1)"
    by (auto simp: do_add_app_def Let_def cli_bind_def cli_db_def split: prod.splits sum.splits)
  have "r = Some ?c"
    using app_metadata_roundtrip_aux [OF js md, of r d2] get by simp
  moreover have "tbl d2 = tbl d1" by (rule db_readonly_tbl [OF app_metadata_get_readonly get])
  then have "bundles (tbl d2) = bundles (tbl d0)" using app_metadata_put_result [OF md] by simp
  then have "b = Some bundle"
    using app_bundle_get_Inr [OF fetch] app_bundle_put_Inr [OF put] by (simp add: tbl_find_append)
  ultimately show ?thesis by simp
qed

end
