(* ===== verification/Cp.thy ===== *)
theory Cp
  imports Proxy
begin

text \<open>
  The control plane (\<open>src/rusty-workers-cp/src/main.rs\<close>, \<open>types.rs\<close>): an HTTP service over the
  route table. \<open>serde_json\<close> is a parameter; \<open>anyhow::Error\<close> is its \<open>Debug\<close> text. Its printing
  to the standard output is not modelled. (\<open>main\<close> passes \<open>DataClient::new\<close> two arguments where
  \<open>db.rs\<close> declares one, so that this program does not build; the model is of its handler.)
\<close>

record ListRoutesOpt =
  lro_domain :: string

record AddRouteOpt =
  aro_domain :: string
  aro_path :: string
  aro_appid :: string

record DeleteDomainOpt =
  ddo_domain :: string

record DeleteRouteOpt =
  dro_domain :: string
  dro_path :: string

record cp_json =
  cj_list_routes :: "bytes \<Rightarrow> string + ListRoutesOpt"
  cj_add_route :: "bytes \<Rightarrow> string + AddRouteOpt"
  cj_delete_domain :: "bytes \<Rightarrow> string + DeleteDomainOpt"
  cj_delete_route :: "bytes \<Rightarrow> string + DeleteRouteOpt"
  cj_routes_to_string :: "(string, string) BTreeMap \<Rightarrow> string + string"
  cj_unit_to_string :: "string + string"
  cj_debug :: "GenericError \<Rightarrow> string"

definition CP_MAX_REQUEST_BODY_SIZE :: nat where
  "CP_MAX_REQUEST_BODY_SIZE = 8 * 1024 * 1024"

fun cp_read_body :: "(string + bytes) list \<Rightarrow> bytes \<Rightarrow> string option \<Rightarrow> string + bytes" where
  "cp_read_body [] full_body body_error =
     (case body_error of None \<Rightarrow> Inr full_body | Some e \<Rightarrow> Inl e)"
| "cp_read_body (Inr x # chunks) full_body body_error =
     (if length full_body + length x > CP_MAX_REQUEST_BODY_SIZE
      then cp_read_body chunks full_body (Some ''request body too large'')
      else cp_read_body chunks (full_body @ x) body_error)"
| "cp_read_body (Inl e # chunks) full_body body_error = cp_read_body chunks full_body (Some e)"

definition mk_json_response :: "string + string \<Rightarrow> string + Response" where
  "mk_json_response v =
     bind_res v (\<lambda>body.
     Inr ((Response_new (as_bytes body))\<lparr>hr_headers := [(''content-type'', as_bytes ''application/json'')]\<rparr>))"

text \<open>A call to the database inside the handler.\<close>

definition cp_db :: "cp_json \<Rightarrow> 'a dbm \<Rightarrow> ('a \<Rightarrow> string + Response) \<Rightarrow> db \<Rightarrow> (string + Response) \<times> db" where
  "cp_db js m k d =
     (case m d of
        (Inl e, d') \<Rightarrow> (Inl (cj_debug js e), d')
      | (Inr x, d') \<Rightarrow> (k x, d'))"

definition cp_handle :: "cp_json \<Rightarrow> u64 \<Rightarrow> Request \<Rightarrow> db \<Rightarrow> (string + Response) \<times> db" where
  "cp_handle js now request d =
     (case cp_read_body (hq_body request) [] None of
        Inl e \<Rightarrow> (Inl e, d)
      | Inr full_body \<Rightarrow>
          if hq_path request = ''/v1/list_routes'' then
            (case cj_list_routes js full_body of
               Inl e \<Rightarrow> (Inl e, d)
             | Inr opt \<Rightarrow>
                 cp_db js (route_mapping_list_for_domain (lro_domain opt))
                   (\<lambda>routes. bind_res (cj_routes_to_string js routes)
                      (\<lambda>_. mk_json_response (cj_routes_to_string js routes))) d)
          else if hq_path request = ''/v1/add_route'' then
            (case cj_add_route js full_body of
               Inl e \<Rightarrow> (Inl e, d)
             | Inr opt \<Rightarrow>
                 cp_db js (route_mapping_insert now (aro_domain opt) (aro_path opt) (aro_appid opt))
                   (\<lambda>_. mk_json_response (cj_unit_to_string js)) d)
          else if hq_path request = ''/v1/delete_domain'' then
            (case cj_delete_domain js full_body of
               Inl e \<Rightarrow> (Inl e, d)
             | Inr opt \<Rightarrow>
                 cp_db js (route_mapping_delete_domain (ddo_domain opt))
                   (\<lambda>_. mk_json_response (cj_unit_to_string js)) d)
          else if hq_path request = ''/v1/delete_route'' then
            (case cj_delete_route js full_body of
               Inl e \<Rightarrow> (Inl e, d)
             | Inr opt \<Rightarrow>
                 cp_db js (route_mapping_delete (dro_domain opt) (dro_path opt))
                   (\<lambda>_. mk_json_response (cj_unit_to_string js)) d)
          else (Inr ((Response_new (as_bytes ''not found''))\<lparr>hr_status := 404\<rparr>), d))"

text \<open>The closure that serves: an error is a response of its own.\<close>

definition cp_serve :: "cp_json \<Rightarrow> u64 \<Rightarrow> Request \<Rightarrow> db \<Rightarrow> Response \<times> db" where
  "cp_serve js now req d =
     (case cp_handle js now req d of
        (Inr res, d') \<Rightarrow> (res, d')
      | (Inl e, d') \<Rightarrow> ((Response_new (as_bytes e))\<lparr>hr_status := 500\<rparr>, d'))"

section \<open>Lemmas\<close>

lemma cp_read_body_Inr:
  "cp_read_body chunks body err = Inr out \<Longrightarrow>
     err = None \<and> (\<exists>parts. chunks = map Inr parts \<and> out = body @ concat parts)"
proof (induction chunks body err rule: cp_read_body.induct)
  case (2 x chunks body err)
  then show ?case
  proof (cases "length body + length x > CP_MAX_REQUEST_BODY_SIZE")
    case False
    with 2 obtain parts where "err = None" "chunks = map Inr parts" "out = (body @ x) @ concat parts"
      by auto
    then show ?thesis by (intro conjI exI [of _ "x # parts"]) simp_all
  qed simp
qed (auto split: option.splits)

lemma cp_read_body_length:
  "cp_read_body chunks body err = Inr out \<Longrightarrow> length body \<le> CP_MAX_REQUEST_BODY_SIZE \<Longrightarrow>
     length out \<le> CP_MAX_REQUEST_BODY_SIZE"
  by (induction chunks body err rule: cp_read_body.induct) (auto split: option.splits if_splits)

lemma cp_read_body_bound:
  assumes "length (concat parts) \<le> CP_MAX_REQUEST_BODY_SIZE"
  shows "cp_read_body (map Inr parts) [] None = Inr (concat parts)"
proof -
  have "length (body @ concat parts) \<le> CP_MAX_REQUEST_BODY_SIZE \<Longrightarrow>
      cp_read_body (map Inr parts) body None = Inr (body @ concat parts)" for body
    by (induction parts arbitrary: body) auto
  from this [of "[]"] assms show ?thesis by simp
qed

text \<open>The route table as a map.\<close>

definition route_map :: "tables \<Rightarrow> string \<times> string \<Rightarrow> string option" where
  "route_map t dp = map_option rt_appid (tbl_find rt_key dp (routes t))"

lemma route_map_insert:
  "route_map (t\<lparr>routes := tbl_replace rt_key \<lparr>rt_domain = dm, rt_path = p, rt_appid = a, rt_createtime = now\<rparr>
       (routes t)\<rparr>) = (route_map t)((dm, p) \<mapsto> a)"
  by (auto simp: fun_eq_iff route_map_def tbl_find_replace rt_key_def)

lemma tbl_find_delete:
  "tbl_find key k (tbl_delete (\<lambda>r. Q (key r)) rows) = (if Q k then None else tbl_find key k rows)"
  by (induction rows) (auto simp: tbl_delete_def)

lemma route_map_delete:
  "route_map (t\<lparr>routes := tbl_delete (\<lambda>r. rt_key r = (dm, p)) (routes t)\<rparr>) = (route_map t)((dm, p) := None)"
  using tbl_find_delete [of rt_key _ "\<lambda>k. k = (dm, p)" "routes t"] by (auto simp: fun_eq_iff route_map_def)

lemma route_map_delete_domain:
  "route_map (t\<lparr>routes := tbl_delete (\<lambda>r. rt_domain r = dm) (routes t)\<rparr>) =
     (\<lambda>(d, p). if d = dm then None else route_map t (d, p))"
proof -
  have "tbl_find rt_key k (tbl_delete (\<lambda>r. rt_domain r = dm) (routes t)) =
      (if fst k = dm then None else tbl_find rt_key k (routes t))" for k
    using tbl_find_delete [of rt_key k "\<lambda>k. fst k = dm" "routes t"] by (simp add: rt_key_def)
  then show ?thesis by (auto simp: fun_eq_iff route_map_def)
qed

text \<open>
  What a request means for the routes: the specification of the service, a step on the map.
\<close>

definition cp_effect :: "cp_json \<Rightarrow> string \<Rightarrow> bytes \<Rightarrow> (string \<times> string \<Rightarrow> string option)
    \<Rightarrow> string \<times> string \<Rightarrow> string option" where
  "cp_effect js path body m =
     (if path = ''/v1/add_route'' then
        (case cj_add_route js body of Inr opt \<Rightarrow> m((aro_domain opt, aro_path opt) \<mapsto> aro_appid opt) | Inl _ \<Rightarrow> m)
      else if path = ''/v1/delete_domain'' then
        (case cj_delete_domain js body of
           Inr opt \<Rightarrow> (\<lambda>(d, p). if d = ddo_domain opt then None else m (d, p)) | Inl _ \<Rightarrow> m)
      else if path = ''/v1/delete_route'' then
        (case cj_delete_route js body of Inr opt \<Rightarrow> m((dro_domain opt, dro_path opt) := None) | Inl _ \<Rightarrow> m)
      else m)"

lemma route_calls:
  "route_mapping_insert now dm p a d = (r, d') \<Longrightarrow>
     route_map (tbl d') = (if is_err r then route_map (tbl d) else (route_map (tbl d))((dm, p) \<mapsto> a))"
  "route_mapping_delete dm p d = (r, d') \<Longrightarrow>
     route_map (tbl d') = (if is_err r then route_map (tbl d) else (route_map (tbl d))((dm, p) := None))"
  "route_mapping_delete_domain dm d = (r, d') \<Longrightarrow>
     route_map (tbl d') = (if is_err r then route_map (tbl d)
       else (\<lambda>(dm', p'). if dm' = dm then None else route_map (tbl d) (dm', p')))"
  unfolding route_mapping_insert_def route_mapping_delete_def route_mapping_delete_domain_def
  by (auto simp: db_bind_def get_conn_def db_exec_def db_call_def route_map_insert route_map_delete
      route_map_delete_domain split: list.splits option.splits sum.splits)

lemma mk_json_status: "mk_json_response (Inr s) = Inr res \<Longrightarrow> hr_status res = 200"
  by (auto simp: mk_json_response_def Response_new_def)

lemma cp_write:
  assumes "cp_db js m (\<lambda>_. mk_json_response (cj_unit_to_string js)) d = (r, d')"
    and "cj_unit_to_string js = Inr unit"
  shows "\<exists>r0. m d = (r0, d') \<and> (if is_err r0 then \<exists>e. r = Inl e else \<exists>res. r = Inr res \<and> hr_status res = 200)"
  using assms by (auto simp: cp_db_def mk_json_response_def Response_new_def split: prod.splits sum.splits)

text \<open>
  The service implements the specification: a request that is answered with success has made
  its step, any other has changed no route.
\<close>

definition body_of :: "Request \<Rightarrow> bytes" where
  "body_of req = concat (map (\<lambda>c. case c of Inr b \<Rightarrow> b | Inl _ \<Rightarrow> []) (hq_body req))"

lemma cp_handle_effect:
  assumes h: "cp_handle js now req d = (r, d')" and unit: "cj_unit_to_string js = Inr unit"
  shows "case r of
      Inl e \<Rightarrow> route_map (tbl d') = route_map (tbl d)
    | Inr res \<Rightarrow> hr_status res = 200 \<and> route_map (tbl d') = cp_effect js (hq_path req) (body_of req) (route_map (tbl d)) \<or>
        hr_status res = 404 \<and> d' = d"
proof (cases "cp_read_body (hq_body req) [] None")
  case (Inl e)
  with h show ?thesis by (auto simp: cp_handle_def)
next
  case (Inr body)
  from cp_read_body_Inr [OF Inr] obtain parts where p: "hq_body req = map Inr parts" "body = concat parts"
    by auto
  have b: "body_of req = body" unfolding body_of_def p by (simp add: comp_def)
  consider (list) "hq_path req = ''/v1/list_routes''" | (add) "hq_path req = ''/v1/add_route''"
    | (domain) "hq_path req = ''/v1/delete_domain''" | (delete) "hq_path req = ''/v1/delete_route''"
    | (other) "hq_path req \<notin> {''/v1/list_routes'', ''/v1/add_route'', ''/v1/delete_domain'', ''/v1/delete_route''}"
    by blast
  then show ?thesis
  proof cases
    case list
    have ro: "tbl d1 = tbl d" if "route_mapping_list_for_domain dm d = (x, d1)" for dm x d1
      using db_readonly_tbl [OF select_ops_readonly(1) that] .
    show ?thesis
      using h list ro
      by (auto simp: cp_handle_def Inr cp_db_def cp_effect_def bind_res_Inr_iff mk_json_response_def Response_new_def
          split: sum.splits prod.splits)
  next
    case add
    show ?thesis
    proof (cases "cj_add_route js body")
      case (Inr opt)
      with h add \<open>cp_read_body _ _ _ = _\<close> have w: "cp_db js (route_mapping_insert now (aro_domain opt) (aro_path opt) (aro_appid opt))
          (\<lambda>_. mk_json_response (cj_unit_to_string js)) d = (r, d')" by (simp add: cp_handle_def)
      from cp_write [OF w unit] obtain r0 where "route_mapping_insert now (aro_domain opt) (aro_path opt) (aro_appid opt) d = (r0, d')"
        "if is_err r0 then \<exists>e. r = Inl e else \<exists>res. r = Inr res \<and> hr_status res = 200" by blast
      with route_calls(1) [OF this(1)] Inr add show ?thesis by (auto simp: cp_effect_def b split: if_splits)
    qed (use h add Inr in \<open>auto simp: cp_handle_def\<close>)
  next
    case domain
    show ?thesis
    proof (cases "cj_delete_domain js body")
      case (Inr opt)
      with h domain \<open>cp_read_body _ _ _ = _\<close> have w: "cp_db js (route_mapping_delete_domain (ddo_domain opt))
          (\<lambda>_. mk_json_response (cj_unit_to_string js)) d = (r, d')" by (simp add: cp_handle_def)
      from cp_write [OF w unit] obtain r0 where "route_mapping_delete_domain (ddo_domain opt) d = (r0, d')"
        "if is_err r0 then \<exists>e. r = Inl e else \<exists>res. r = Inr res \<and> hr_status res = 200" by blast
      with route_calls(3) [OF this(1)] Inr domain show ?thesis by (auto simp: cp_effect_def b split: if_splits)
    qed (use h domain Inr in \<open>auto simp: cp_handle_def\<close>)
  next
    case delete
    show ?thesis
    proof (cases "cj_delete_route js body")
      case (Inr opt)
      with h delete \<open>cp_read_body _ _ _ = _\<close> have w: "cp_db js (route_mapping_delete (dro_domain opt) (dro_path opt))
          (\<lambda>_. mk_json_response (cj_unit_to_string js)) d = (r, d')" by (simp add: cp_handle_def)
      from cp_write [OF w unit] obtain r0 where "route_mapping_delete (dro_domain opt) (dro_path opt) d = (r0, d')"
        "if is_err r0 then \<exists>e. r = Inl e else \<exists>res. r = Inr res \<and> hr_status res = 200" by blast
      with route_calls(2) [OF this(1)] Inr delete show ?thesis by (auto simp: cp_effect_def b split: if_splits)
    qed (use h delete Inr in \<open>auto simp: cp_handle_def\<close>)
  next
    case other
    with h show ?thesis by (auto simp: cp_handle_def Inr Response_new_def)
  qed
qed

lemma cp_serve_effect:
  assumes "cp_serve js now req d = (res, d')" and "cj_unit_to_string js = Inr unit"
  shows "hr_status res \<in> {200, 404, 500} \<and>
    route_map (tbl d') =
      (if hr_status res = 200 then cp_effect js (hq_path req) (body_of req) (route_map (tbl d)) else route_map (tbl d))"
proof -
  obtain r d1 where h: "cp_handle js now req d = (r, d1)" by (rule prod.exhaust)
  show ?thesis
  proof (cases r)
    case (Inl e)
    with h assms(1) have "d' = d1" "hr_status res = 500" by (auto simp: cp_serve_def Response_new_def)
    with cp_handle_effect [OF h assms(2)] Inl show ?thesis by simp
  next
    case (Inr x)
    with h assms(1) have "d' = d1" "res = x" by (auto simp: cp_serve_def)
    with cp_handle_effect [OF h assms(2)] Inr show ?thesis by auto
  qed
qed

end
