(* ===== verification/Playground.thy ===== *)
theory Playground
  imports Cp
begin

text \<open>
  The playground API (\<open>src/rusty-workers-playground-api/src/main.rs\<close>, \<open>types.rs\<close>): the control
  plane's service with an authentication token, the life cycle of applications, the deletion of
  a namespace and the log. The program calls a data client that the repository no longer has
  (\<open>app_bundle_delete\<close> and \<open>log_range\<close> are missing from \<open>db.rs\<close>, and other calls have other
  types there), so the client is a parameter over a state of any type; \<open>db_client\<close> below gives
  it the functions of \<open>db.rs\<close> where they exist. The option types of the four route requests are
  those of the control plane, declared with the same fields. \<open>serde_json\<close>, \<open>base64\<close> and
  the random numbers are parameters. A panic ends the task of the connection, which the result
  \<open>None\<close> stands for.
\<close>

section \<open>Requests and the client\<close>

record AddAppOpt =
  aao_config :: AppConfig
  aao_bundle_b64 :: string

record DeleteAppOpt =
  dao_appid :: string

record LogsOpt =
  lo_appid :: string
  lo_since_secs :: u64
  lo_limit :: u32

record DeleteNamespaceOpt =
  dno_nsid :: string
  dno_batch_size :: u32

record LogItem =
  li_time :: string
  li_text :: string

text \<open>\<open>CpError\<close>, with its messages.\<close>

datatype PgError = PgRequestBodyTooLarge | PgBadId128 | PgBadAuthToken

fun pg_error :: "PgError \<Rightarrow> string" where
  "pg_error PgRequestBodyTooLarge = ''request body too large''"
| "pg_error PgBadId128 = ''bad 128-bit identifier''"
| "pg_error PgBadAuthToken = ''bad auth token''"

type_synonym ('s, 'a) pg_call = "'s \<Rightarrow> (GenericError + 'a) \<times> 's"

text \<open>
  \<open>log_range\<close> hands each entry to the closure of its caller and stops when the closure says so;
  the closure's items are threaded through it.
\<close>

type_synonym log_closure = "LogItem \<Rightarrow> LogItem list \<Rightarrow> bool \<times> LogItem list"

record 's pg_client =
  pc_route_mapping_list_for_domain :: "string \<Rightarrow> ('s, (string, string) BTreeMap) pg_call"
  pc_route_mapping_insert :: "string \<Rightarrow> string \<Rightarrow> string \<Rightarrow> ('s, unit) pg_call"
  pc_route_mapping_delete_domain :: "string \<Rightarrow> ('s, unit) pg_call"
  pc_route_mapping_delete :: "string \<Rightarrow> string \<Rightarrow> ('s, unit) pg_call"
  pc_app_metadata_get :: "string \<Rightarrow> ('s, bytes option) pg_call"
  pc_app_metadata_put :: "AppConfig \<Rightarrow> ('s, unit) pg_call"
  pc_app_metadata_delete :: "string \<Rightarrow> ('s, unit) pg_call"
  pc_app_bundle_put :: "bytes \<Rightarrow> bytes \<Rightarrow> ('s, unit) pg_call"
  pc_app_bundle_delete :: "bytes \<Rightarrow> ('s, unit) pg_call"
  pc_worker_data_scan_keys :: "bytes \<Rightarrow> bytes \<Rightarrow> bytes option \<Rightarrow> u32 \<Rightarrow> ('s, bytes list) pg_call"
  pc_worker_data_delete :: "bytes \<Rightarrow> bytes \<Rightarrow> ('s, unit) pg_call"
  pc_log_range :: "string \<Rightarrow> int \<Rightarrow> int \<Rightarrow> log_closure \<Rightarrow> LogItem list \<Rightarrow> ('s, LogItem list) pg_call"

record pg_env =
  pe_cp :: cp_json \<comment> \<open>the four route requests and the answers they share\<close>
  pe_add_app :: "bytes \<Rightarrow> string + AddAppOpt"
  pe_delete_app :: "bytes \<Rightarrow> string + DeleteAppOpt"
  pe_delete_namespace :: "bytes \<Rightarrow> string + DeleteNamespaceOpt"
  pe_logs :: "bytes \<Rightarrow> string + LogsOpt"
  pe_app_config :: "bytes \<Rightarrow> string + AppConfig"
  pe_len_to_string :: "nat \<Rightarrow> string + string"
  pe_items_to_string :: "LogItem list \<Rightarrow> string + string"
  pe_base64_decode :: "string \<Rightarrow> string + bytes"
  pe_base64_encode :: "bytes \<Rightarrow> string"
  pe_to_str :: "bytes \<Rightarrow> string + string" \<comment> \<open>\<open>HeaderValue::to_str\<close>\<close>
  pe_random :: "nat \<Rightarrow> u8"
  pe_now :: int \<comment> \<open>\<open>SystemTime::now\<close>, nanoseconds of the Unix clock\<close>

definition pg_decode_id128 :: "pg_env \<Rightarrow> string \<Rightarrow> bytes option" where
  "pg_decode_id128 env = decode_id128 (\<lambda>s. case pe_base64_decode env s of Inl _ \<Rightarrow> None | Inr b \<Rightarrow> Some b)"

section \<open>Steps of a handler\<close>

type_synonym ('s, 'a) pgm = "'s \<Rightarrow> (string + 'a) option \<times> 's"

definition pg_return :: "'a \<Rightarrow> ('s, 'a) pgm" where
  "pg_return x s = (Some (Inr x), s)"

definition pg_try :: "string + 'a \<Rightarrow> ('s, 'a) pgm" where
  "pg_try r s = (Some r, s)"

definition pg_panic :: "('s, 'a) pgm" where
  "pg_panic s = (None, s)"

definition pg_client_call :: "pg_env \<Rightarrow> ('s, 'a) pg_call \<Rightarrow> ('s, 'a) pgm" where
  "pg_client_call env m s =
     (case m s of
        (Inl e, s') \<Rightarrow> (Some (Inl (cj_debug (pe_cp env) e)), s')
      | (Inr x, s') \<Rightarrow> (Some (Inr x), s'))"

definition pg_bind :: "('s, 'a) pgm \<Rightarrow> ('a \<Rightarrow> ('s, 'b) pgm) \<Rightarrow> ('s, 'b) pgm" where
  "pg_bind m f s =
     (case m s of
        (None, s') \<Rightarrow> (None, s')
      | (Some (Inl e), s') \<Rightarrow> (Some (Inl e), s')
      | (Some (Inr x), s') \<Rightarrow> f x s')"

section \<open>The service\<close>

definition PG_MAX_REQUEST_BODY_SIZE :: nat where
  "PG_MAX_REQUEST_BODY_SIZE = 8 * 1024 * 1024"

fun pg_read_body :: "(string + bytes) list \<Rightarrow> bytes \<Rightarrow> string option \<Rightarrow> string + bytes" where
  "pg_read_body [] full_body body_error =
     (case body_error of None \<Rightarrow> Inr full_body | Some e \<Rightarrow> Inl e)"
| "pg_read_body (Inr x # chunks) full_body body_error =
     (if length full_body + length x > PG_MAX_REQUEST_BODY_SIZE
      then pg_read_body chunks full_body (Some (pg_error PgRequestBodyTooLarge))
      else pg_read_body chunks (full_body @ x) body_error)"
| "pg_read_body (Inl e # chunks) full_body body_error = pg_read_body chunks full_body (Some e)"

definition pg_json_response :: "string + string \<Rightarrow> string + Response" where
  "pg_json_response v =
     bind_res v (\<lambda>body.
     Inr ((Response_new (as_bytes body))\<lparr>hr_headers := [(''content-type'', as_bytes ''application/json'')]\<rparr>))"

definition cleanup_previous_app :: "pg_env \<Rightarrow> 's pg_client \<Rightarrow> AppId \<Rightarrow> ('s, unit) pgm" where
  "cleanup_previous_app env client appid =
     pg_bind (pg_client_call env (pc_app_metadata_get client (appid_str appid))) (\<lambda>md.
     (case md of
        None \<Rightarrow> pg_return ()
      | Some prev_md \<Rightarrow>
          (case pe_app_config env prev_md of
             Inr prev_config \<Rightarrow>
               pg_bind (pg_try (ok_or (pg_error PgBadId128)
                   (pg_decode_id128 env (ac_bundle_id prev_config)))) (\<lambda>i.
               pg_client_call env (pc_app_bundle_delete client i))
           | Inl _ \<Rightarrow> pg_return ())))"

fun pg_delete_keys :: "pg_env \<Rightarrow> 's pg_client \<Rightarrow> bytes \<Rightarrow> bytes list \<Rightarrow> ('s, unit) pgm" where
  "pg_delete_keys env client ns [] = pg_return ()"
| "pg_delete_keys env client ns (k # ks) =
     pg_bind (pg_client_call env (pc_worker_data_delete client ns k)) (\<lambda>_. pg_delete_keys env client ns ks)"

text \<open>\<open>SystemTime - Duration\<close>: seconds are an \<open>i64\<close>, and the subtraction panics outside.\<close>

definition system_time_minus_secs :: "int \<Rightarrow> nat \<Rightarrow> int option" where
  "system_time_minus_secs t secs =
     (let r = t - int secs * 1000000000
      in if - (2 ^ 63) \<le> r div 1000000000 then Some r else None)"

definition logs_closure :: "u32 \<Rightarrow> log_closure" where
  "logs_closure limit entry items =
     (let items = items @ [entry] in (if length items \<ge> unat limit then False else True, items))"

definition pg_authenticate :: "pg_env \<Rightarrow> bytes \<Rightarrow> Request \<Rightarrow> string + unit" where
  "pg_authenticate env auth_token request =
     bind_res (ok_or (pg_error PgBadAuthToken) (header_get (hq_headers request) ''x-token'')) (\<lambda>h.
     bind_res (pe_to_str env h) (\<lambda>t.
     bind_res (ok_or (pg_error PgBadId128) (pg_decode_id128 env t)) (\<lambda>token.
     if token \<noteq> auth_token then Inl (pg_error PgBadAuthToken) else Inr ())))"

definition pg_handle :: "pg_env \<Rightarrow> bytes \<Rightarrow> 's pg_client \<Rightarrow> Request \<Rightarrow> ('s, Response) pgm" where
  "pg_handle env auth_token kv request =
     pg_bind (pg_try (pg_authenticate env auth_token request)) (\<lambda>_.
     pg_bind (pg_try (pg_read_body (hq_body request) [] None)) (\<lambda>req_body.
     if hq_path request = ''/v1/list_routes'' then
       pg_bind (pg_try (cj_list_routes (pe_cp env) req_body)) (\<lambda>opt.
       pg_bind (pg_client_call env (pc_route_mapping_list_for_domain kv (lro_domain opt))) (\<lambda>routes.
       pg_bind (pg_try (cj_routes_to_string (pe_cp env) routes)) (\<lambda>_.
       pg_try (pg_json_response (cj_routes_to_string (pe_cp env) routes)))))
     else if hq_path request = ''/v1/add_route'' then
       pg_bind (pg_try (cj_add_route (pe_cp env) req_body)) (\<lambda>opt.
       pg_bind (pg_client_call env (pc_route_mapping_insert kv (aro_domain opt) (aro_path opt) (aro_appid opt))) (\<lambda>_.
       pg_try (pg_json_response (cj_unit_to_string (pe_cp env)))))
     else if hq_path request = ''/v1/delete_domain'' then
       pg_bind (pg_try (cj_delete_domain (pe_cp env) req_body)) (\<lambda>opt.
       pg_bind (pg_client_call env (pc_route_mapping_delete_domain kv (ddo_domain opt))) (\<lambda>_.
       pg_try (pg_json_response (cj_unit_to_string (pe_cp env)))))
     else if hq_path request = ''/v1/delete_route'' then
       pg_bind (pg_try (cj_delete_route (pe_cp env) req_body)) (\<lambda>opt.
       pg_bind (pg_client_call env (pc_route_mapping_delete kv (dro_domain opt) (dro_path opt))) (\<lambda>_.
       pg_try (pg_json_response (cj_unit_to_string (pe_cp env)))))
     else if hq_path request = ''/v1/add_app'' then
       pg_bind (pg_try (pe_add_app env req_body)) (\<lambda>opt.
       pg_bind (pg_try (pe_base64_decode env (aao_bundle_b64 opt))) (\<lambda>bundle.
       pg_bind (cleanup_previous_app env kv (ac_id (aao_config opt))) (\<lambda>_.
       let bundle_id = rand_bytes (pe_random env) 16 in
       pg_bind (pg_client_call env (pc_app_bundle_put kv bundle_id bundle)) (\<lambda>_.
       pg_bind (pg_client_call env (pc_app_metadata_put kv
           ((aao_config opt)\<lparr>ac_bundle_id := encode_id128 (pe_base64_encode env) bundle_id\<rparr>))) (\<lambda>_.
       pg_try (pg_json_response (cj_unit_to_string (pe_cp env))))))))
     else if hq_path request = ''/v1/delete_app'' then
       pg_bind (pg_try (pe_delete_app env req_body)) (\<lambda>opt.
       let appid = AppId (dao_appid opt) in
       pg_bind (cleanup_previous_app env kv appid) (\<lambda>_.
       pg_bind (pg_client_call env (pc_app_metadata_delete kv (appid_str appid))) (\<lambda>_.
       pg_try (pg_json_response (cj_unit_to_string (pe_cp env))))))
     else if hq_path request = ''/v1/delete_namespace'' then
       pg_bind (pg_try (pe_delete_namespace env req_body)) (\<lambda>opt.
       pg_bind (pg_try (ok_or (pg_error PgBadId128) (pg_decode_id128 env (dno_nsid opt)))) (\<lambda>namespace.
       pg_bind (pg_client_call env (pc_worker_data_scan_keys kv namespace [] None (dno_batch_size opt))) (\<lambda>keys.
       pg_bind (pg_delete_keys env kv namespace keys) (\<lambda>_.
       pg_try (pg_json_response (pe_len_to_string env (length keys)))))))
     else if hq_path request = ''/v1/logs'' then
       pg_bind (pg_try (pe_logs env req_body)) (\<lambda>opt.
       (case system_time_minus_secs (pe_now env) (unat (lo_since_secs opt)) of
          None \<Rightarrow> pg_panic
        | Some since \<Rightarrow>
            pg_bind (pg_client_call env (pc_log_range kv (''app-'' @ lo_appid opt) since (pe_now env)
                (logs_closure (lo_limit opt)) [])) (\<lambda>items.
            pg_try (pg_json_response (pe_items_to_string env items)))))
     else pg_return ((Response_new (as_bytes ''not found''))\<lparr>hr_status := 404\<rparr>)))"

text \<open>The closure that serves: an error is a response of its own.\<close>

definition pg_serve :: "pg_env \<Rightarrow> bytes \<Rightarrow> 's pg_client \<Rightarrow> Request \<Rightarrow> 's \<Rightarrow> Response option \<times> 's" where
  "pg_serve env auth_token kv req s =
     (case pg_handle env auth_token kv req s of
        (None, s') \<Rightarrow> (None, s')
      | (Some (Inr res), s') \<Rightarrow> (Some res, s')
      | (Some (Inl e), s') \<Rightarrow> (Some ((Response_new (as_bytes e))\<lparr>hr_status := 500\<rparr>), s'))"

text \<open>\<open>main\<close>: the token of the command line, decoded once.\<close>

definition pg_auth_token :: "pg_env \<Rightarrow> string \<Rightarrow> string + bytes" where
  "pg_auth_token env opt_auth_token = ok_or (pg_error PgBadId128) (pg_decode_id128 env opt_auth_token)"

section \<open>Lemmas\<close>

lemma pg_bind_simps [simp]:
  "pg_bind (pg_try (Inl e)) f s = (Some (Inl e), s)"
  "pg_bind (pg_try (Inr x)) f s = f x s"
  "pg_bind (pg_return x) f s = f x s"
  "pg_bind pg_panic f s = (None, s)"
  by (simp_all add: pg_bind_def pg_try_def pg_return_def pg_panic_def)

lemma pg_call_bind:
  "pg_bind (pg_client_call env m) f s =
     (case m s of (Inl e, s') \<Rightarrow> (Some (Inl (cj_debug (pe_cp env) e)), s') | (Inr x, s') \<Rightarrow> f x s')"
  by (simp add: pg_bind_def pg_client_call_def split: prod.splits sum.splits)

lemma pg_try_bind: "pg_bind (pg_try r) f s = (case r of Inl e \<Rightarrow> (Some (Inl e), s) | Inr x \<Rightarrow> f x s)"
  by (simp split: sum.splits)

lemma pg_read_body_eq_cp: "pg_read_body chunks body err = cp_read_body chunks body err"
  by (induction chunks body err rule: pg_read_body.induct)
     (simp_all add: PG_MAX_REQUEST_BODY_SIZE_def CP_MAX_REQUEST_BODY_SIZE_def)

lemma pg_json_response_eq_cp: "pg_json_response = mk_json_response"
  by (simp add: fun_eq_iff pg_json_response_def mk_json_response_def)

text \<open>A request gets past the token exactly with the header that decodes to it.\<close>

lemma pg_authenticate_iff:
  "pg_authenticate env auth_token req = Inr () \<longleftrightarrow>
     (\<exists>h t. header_get (hq_headers req) ''x-token'' = Some h \<and> pe_to_str env h = Inr t \<and>
        pg_decode_id128 env t = Some auth_token)"
  by (auto simp: pg_authenticate_def bind_res_Inr_iff ok_or_Inr_iff split: if_splits)

lemma pg_unauthenticated:
  "pg_authenticate env auth_token req = Inl e \<Longrightarrow>
     pg_serve env auth_token kv req s = (Some ((Response_new (as_bytes e))\<lparr>hr_status := 500\<rparr>), s)"
  by (simp add: pg_serve_def pg_handle_def)

text \<open>
  The client on the database of \<open>db.rs\<close>: identifiers are stored in their base64 form. What
  \<open>db.rs\<close> lacks stays a parameter.
\<close>

definition db_client ::
  "pg_env \<Rightarrow> u64 \<Rightarrow> json_ops \<Rightarrow> (AppConfig \<Rightarrow> bytes) \<Rightarrow> (bytes \<Rightarrow> (db, unit) pg_call)
    \<Rightarrow> (string \<Rightarrow> int \<Rightarrow> int \<Rightarrow> log_closure \<Rightarrow> LogItem list \<Rightarrow> (db, LogItem list) pg_call) \<Rightarrow> db pg_client" where
  "db_client env now js to_vec bundle_delete log_range =
     \<lparr>pc_route_mapping_list_for_domain = route_mapping_list_for_domain,
      pc_route_mapping_insert = route_mapping_insert now,
      pc_route_mapping_delete_domain = route_mapping_delete_domain,
      pc_route_mapping_delete = route_mapping_delete,
      pc_app_metadata_get = (\<lambda>i. db_bind (app_metadata_get js i) (\<lambda>md. db_return (map_option to_vec md))),
      pc_app_metadata_put = app_metadata_put js now,
      pc_app_metadata_delete = app_metadata_delete,
      pc_app_bundle_put = (\<lambda>i. app_bundle_put now (encode_id128 (pe_base64_encode env) i)),
      pc_app_bundle_delete = bundle_delete,
      pc_worker_data_scan_keys = (\<lambda>ns. worker_data_scan_keys now (encode_id128 (pe_base64_encode env) ns)),
      pc_worker_data_delete = (\<lambda>ns. worker_data_delete (encode_id128 (pe_base64_encode env) ns)),
      pc_log_range = log_range\<rparr>"

definition pg_app_paths :: "string list" where
  "pg_app_paths = [''/v1/add_app'', ''/v1/delete_app'', ''/v1/delete_namespace'', ''/v1/logs'']"

lemma pg_serve_routes:
  assumes "pg_authenticate env auth_token req = Inr ()" and "hq_path req \<notin> set pg_app_paths"
  shows "pg_serve env auth_token (db_client env now js to_vec bd lr) req d =
    map_prod Some id (cp_serve (pe_cp env) now req d)"
proof (cases "cp_read_body (hq_body req) [] None")
  case (Inl e)
  with assms show ?thesis by (simp add: pg_serve_def pg_handle_def cp_serve_def cp_handle_def pg_read_body_eq_cp)
next
  case (Inr body)
  note start = pg_handle_def cp_handle_def pg_read_body_eq_cp Inr assms(1) pg_call_bind cp_db_def
    db_client_def pg_json_response_eq_cp
  have "pg_handle env auth_token (db_client env now js to_vec bd lr) req d =
      map_prod Some id (cp_handle (pe_cp env) now req d)"
  proof -
    consider (list) "hq_path req = ''/v1/list_routes''" | (add) "hq_path req = ''/v1/add_route''"
      | (domain) "hq_path req = ''/v1/delete_domain''" | (delete) "hq_path req = ''/v1/delete_route''"
      | (other) "hq_path req \<notin> {''/v1/list_routes'', ''/v1/add_route'', ''/v1/delete_domain'', ''/v1/delete_route''}"
      by blast
    then show ?thesis
    proof cases
      case list
      then show ?thesis
        by (cases "cj_list_routes (pe_cp env) body")
           (auto simp: start pg_try_bind bind_res_def pg_try_def [of "mk_json_response _"] split: prod.splits sum.splits)
    next
      case add
      then show ?thesis
        by (cases "cj_add_route (pe_cp env) body") (auto simp: start pg_try_def split: prod.splits sum.splits)
    next
      case domain
      then show ?thesis
        by (cases "cj_delete_domain (pe_cp env) body") (auto simp: start pg_try_def split: prod.splits sum.splits)
    next
      case delete
      then show ?thesis
        by (cases "cj_delete_route (pe_cp env) body") (auto simp: start pg_try_def split: prod.splits sum.splits)
    next
      case other
      with assms(2) show ?thesis by (simp add: start pg_return_def pg_app_paths_def)
    qed
  qed
  then show ?thesis by (auto simp: pg_serve_def cp_serve_def split: prod.splits sum.splits)
qed

text \<open>The deletion of a namespace removes the keys of one scan, and no other row.\<close>

lemma pg_delete_keys_rows:
  "pg_delete_keys env (db_client env now js to_vec bd lr) ns keys d = (Some (Inr ()), d') \<Longrightarrow>
     tbl d' = (tbl d)\<lparr>appkv := filter (\<lambda>r. kv_key r \<notin> (\<lambda>k. (encode_id128 (pe_base64_encode env) ns, k)) ` set keys)
       (appkv (tbl d))\<rparr>"
proof (induction keys arbitrary: d)
  case Nil
  then show ?case by (simp add: pg_return_def)
next
  case (Cons k ks)
  let ?ns = "encode_id128 (pe_base64_encode env) ns"
  obtain r d1 where w: "worker_data_delete ?ns k d = (r, d1)" by (rule prod.exhaust)
  from Cons.prems w have r: "r = Inr ()"
    and tl: "pg_delete_keys env (db_client env now js to_vec bd lr) ns ks d1 = (Some (Inr ()), d')"
    by (auto simp: pg_call_bind db_client_def split: sum.splits)
  from w r have "tbl d1 = (tbl d)\<lparr>appkv := tbl_delete (\<lambda>r. kv_key r = (?ns, k)) (appkv (tbl d))\<rparr>"
    by (auto simp: worker_data_delete_def db_bind_def get_conn_def db_exec_def db_call_def
        split: list.splits option.splits sum.splits)
  with Cons.IH [OF tl] show ?case by (simp add: tbl_delete_def conj_commute)
qed

text \<open>
  An application is replaced in three steps: when the second fails, the first one stays, so that
  the application has lost the bundle its metadata names.
\<close>

lemma add_app_failure_keeps_cleanup:
  assumes "pg_authenticate env auth_token req = Inr ()" and "hq_path req = ''/v1/add_app''"
    and "pg_read_body (hq_body req) [] None = Inr body" and "pe_add_app env body = Inr opt"
    and "pe_base64_decode env (aao_bundle_b64 opt) = Inr bundle"
    and "cleanup_previous_app env kv (ac_id (aao_config opt)) s = (Some (Inr ()), s1)"
    and "pc_app_bundle_put kv (rand_bytes (pe_random env) 16) bundle s1 = (Inl e, s2)"
  shows "pg_serve env auth_token kv req s =
    (Some ((Response_new (as_bytes (cj_debug (pe_cp env) e)))\<lparr>hr_status := 500\<rparr>), s2)"
proof -
  have "pg_bind (cleanup_previous_app env kv (ac_id (aao_config opt))) f s = f () s1" for f :: "unit \<Rightarrow> ('a, Response) pgm"
    using assms(6) by (simp add: pg_bind_def)
  with assms show ?thesis by (simp add: pg_serve_def pg_handle_def pg_call_bind Let_def)
qed

text \<open>A span longer than the clock can represent makes the subtraction panic.\<close>

lemma logs_panics:
  assumes "pg_authenticate env auth_token req = Inr ()" and "hq_path req = ''/v1/logs''"
    and "pg_read_body (hq_body req) [] None = Inr body" and "pe_logs env body = Inr opt"
    and "pe_now env < (int (unat (lo_since_secs opt)) - 2 ^ 63) * 1000000000"
  shows "pg_serve env auth_token kv req s = (None, s)"
proof -
  have "(pe_now env - int (unat (lo_since_secs opt)) * 1000000000) div 1000000000 < - (2 ^ 63)"
    using assms(5) by (simp add: div_less_iff_less_mult algebra_simps)
  with assms(1-4) show ?thesis
    by (simp add: pg_serve_def pg_handle_def system_time_minus_secs_def Let_def pg_panic_def)
qed

end
