(* ===== verification/Tools_Props.thy ===== *)
theory Tools_Props
  imports Proxy_Metrics Fetchd Cli_Spec Playground Proxy_Props Db_Props
begin

text \<open>
  The properties of the proxy's metrics, the command line tool, the control plane and the fetch
  daemon.
\<close>

section \<open>Metrics of the proxy\<close>

text \<open>
  From the start of the process, whatever steps the task that sets the gauges makes, none
  of its \<open>unwrap\<close>s fails, and a scrape between any two of them is answered: with status 200,
  and a document whose samples are exactly the registered gauges with the values last assigned,
  each once.
\<close>

theorem metrics_endpoint_answers:
  "\<exists>s. metrics_run fnv dbg steps metrics_start = Some s \<and>
     (\<exists>buf xs. prometheus_serve_req dbg' s =
        Some \<lparr>hr_status = 200, hr_headers = [(''content-type'', as_bytes TEXT_FORMAT)], hr_body = as_bytes buf\<rparr> \<and>
        read_document (length buf) buf = Some xs \<and>
        mset xs = mset (map (\<lambda>g. (gauge_name g, [], f64_of_int (sint (fold (assigned g) steps 0)), 0)) (registered s)) \<and>
        distinct (registered s))"
proof -
  obtain s where s: "metrics_run fnv dbg steps metrics_start = Some s"
    using metrics_run_ok [OF metrics_start_inv] by blast
  have v: "metrics_inv fnv s" "gauge_value_of s g = fold (assigned g) steps 0" for g
    using metrics_run_values [OF metrics_start_inv s, of g]
    by (simp_all add: gauge_value_of_def metrics_start_def)
  have sh: "shown s = (\<lambda>g. (gauge_name g, [], f64_of_int (sint (fold (assigned g) steps 0)), 0))"
    by (simp add: fun_eq_iff shown_def v(2) number_i64_def)
  from scrape_shows [OF v(1), of dbg'] obtain buf xs where x: "prometheus_serve_req dbg' s =
      Some \<lparr>hr_status = 200, hr_headers = [(''content-type'', as_bytes TEXT_FORMAT)], hr_body = as_bytes buf\<rparr>"
    "read_document (length buf) buf = Some xs" "mset xs = mset (map (shown s) (registered s))" by blast
  show ?thesis
    by (intro exI [of _ s] exI [of _ buf] exI [of _ xs] conjI s x(1,2) x(3) [unfolded sh] registered_distinct [OF v(1)])
qed

lemma metrics_run_append:
  "metrics_run fnv dbg (as @ bs) s = Option.bind (metrics_run fnv dbg as s) (metrics_run fnv dbg bs)"
  by (induction as arbitrary: s) (auto split: Option.bind_splits)

text \<open>
  The gauges are shared by all applications, so that after a turn of the task that saw some
  applications a scrape shows the running time and the ready instances of the last one in the
  cache's order, and nothing of the others.
\<close>

theorem scrape_shows_last_app_only:
  assumes "metrics_run fnv dbg (before @ fst (metrics_turn ops now sc sc')) metrics_start = Some s"
    and "gauge_ids_distinct fnv"
    and "fst (lru_iter (fst ops) (sc_apps sc')) = es @ [(i, a)]"
  shows "\<exists>buf. prometheus_serve_req dbg' s =
      Some \<lparr>hr_status = 200, hr_headers = [(''content-type'', as_bytes TEXT_FORMAT)], hr_body = as_bytes buf\<rparr> \<and>
    read_document (length buf) buf = Some
      [(''APP_LAST_TIME'', [],
          f64_of_int (sint (word_of_nat ((now (length es) - as_start_time (sc_app_heap sc' ! a)) div 1000000000) :: i64)), 0),
       (''APP_NUM'', [], f64_of_int (sint (word_of_nat (length (lru_entries (fst ops) (sc_apps sc))) :: i64)), 0),
       (''READY_INSTANCE'', [],
          f64_of_int (sint (word_of_nat (length (ready_instances (sc_app_heap sc' ! a))) :: i64)), 0)]"
proof -
  obtain s0 where s0: "metrics_run fnv dbg before metrics_start = Some s0" "metrics_inv fnv s0"
    using metrics_run_ok [OF metrics_start_inv] by blast
  have "metrics_run fnv dbg (fst (metrics_turn ops now sc sc')) s0 = Some s"
    using assms(1) s0(1) by (simp add: metrics_run_append)
  from scrape_after_turn [OF s0(2) assms(2) this assms(3)] show ?thesis .
qed

theorem scrape_shows_last_app_only_witness:
  "\<exists>s buf. prometheus_serve_req (\<lambda>_. []) s =
      Some \<lparr>hr_status = 200, hr_headers = [(''content-type'', as_bytes TEXT_FORMAT)], hr_body = as_bytes buf\<rparr> \<and>
    read_document (length buf) buf = Some [(''APP_LAST_TIME'', [], Fin 3, 0), (''APP_NUM'', [], Fin 2, 0),
      (''READY_INSTANCE'', [], Fin 1, 0)]"
proof -
  let ?ops = "(list_lru :: ((AppId \<times> nat) list, AppId, nat) lru_ops,
     list_lru :: ((string \<times> (string, AppId) BTreeMap) list, string, (string, AppId) BTreeMap) lru_ops)"
  let ?sc = "example_sched\<lparr>sc_apps := [(AppId ''api'', 0), (AppId ''b'', 1)],
    sc_app_heap := [example_app, example_app\<lparr>ready_instances := [example_instance 1]\<rparr>]\<rparr>"
  let ?fnv = "\<lambda>bs. of_nat (length bs)"
  let ?steps = "fst (metrics_turn ?ops (\<lambda>_. 3000000000) ?sc ?sc)"
  obtain s where s: "metrics_run ?fnv (\<lambda>_. [], \<lambda>_. []) ([] @ ?steps) metrics_start = Some s"
    using metrics_run_ok [OF metrics_start_inv] by blast
  have ids: "gauge_ids_distinct ?fnv"
    by (simp add: gauge_ids_distinct_def hash_input_def as_bytes_def)
  have l: "fst (lru_iter (fst ?ops) (sc_apps ?sc)) = [(AppId ''api'', 0)] @ [(AppId ''b'', 1)]"
    by (simp add: list_lru_def)
  from scrape_shows_last_app_only [OF s ids l, of "\<lambda>_. []"] show ?thesis
    by (auto simp: list_lru_def example_app_def f64_of_int_def rnd_numeral)
qed

section \<open>Command line tool\<close>

text \<open>A sequence of commands, each with its environment, whatever they end with.\<close>

definition app_cmds :: "(cli_env \<times> AppCmd) list \<Rightarrow> db \<Rightarrow> db" where
  "app_cmds cmds d = fold (\<lambda>(env, c) d. snd (app_cmd env c d)) cmds d"

text \<open>
  C24. Whatever commands are given, and wherever the server fails, no application is left
  without its bundle; and a command that ends in an error has changed no application, route or
  value: at most it leaves a bundle that nothing refers to.
\<close>

theorem cli_keeps_applications_runnable:
  assumes "apps_have_bundles (tbl d)"
  shows "apps_have_bundles (tbl (app_cmds cmds d)) \<and>
    (\<forall>e d'. app_cmd env c (app_cmds cmds d) = (Inl e, d') \<longrightarrow>
       data_tables (tbl d') = data_tables (tbl (app_cmds cmds d)) \<and>
       set (bundles (tbl (app_cmds cmds d))) \<subseteq> set (bundles (tbl d')))"
proof
  show "apps_have_bundles (tbl (app_cmds cmds d))"
    using assms
  proof (induction cmds arbitrary: d)
    case (Cons x cmds)
    obtain env c where x: "x = (env, c)" by (cases x)
    have "apps_have_bundles (tbl (snd (app_cmd env c d)))"
      using app_cmd_keeps_bundles Cons.prems by (simp add: cli_keeps_def)
    from Cons.IH [OF this] show ?case by (simp add: app_cmds_def x)
  qed (simp add: app_cmds_def)
  show "\<forall>e d'. app_cmd env c (app_cmds cmds d) = (Inl e, d') \<longrightarrow>
      data_tables (tbl d') = data_tables (tbl (app_cmds cmds d)) \<and>
      set (bundles (tbl (app_cmds cmds d))) \<subseteq> set (bundles (tbl d'))"
    using app_cmd_clean by (simp add: cli_clean_def)
qed

definition example_cli :: cli_env where
  "example_cli =
     \<lparr>ce_read_file = Inr, ce_read_file_raw = Inr \<circ> as_bytes,
      ce_toml_from_str = (\<lambda>s. Inr \<lparr>ac_id = AppId s, ac_bundle_id = [], ac_env = [], ac_kv_namespaces = []\<rparr>),
      ce_worker_config_from_str = (\<lambda>_. Inl ''syntax''), ce_tar_file = (\<lambda>name f. Inr (as_bytes f)),
      ce_base64_encode = (\<lambda>_. ''b1''), ce_base64_decode = (\<lambda>_. Inl ''base64''), ce_from_utf8 = (\<lambda>_. Inl ''utf8''),
      ce_to_string = (\<lambda>_. Inr ''json''), ce_json_ops = example_json, ce_random = (\<lambda>_. 0),
      ce_now = 5, ce_now2 = 6\<rparr>"

theorem cli_keeps_applications_runnable_witness:
  "let d = app_cmds [(example_cli, AddSingleFileApp ''x'' ''js'')] (example_db\<lparr>outcomes := [None, None, None, None, None, Some ''gone'']\<rparr>)
   in map ap_bundle_id (apps_tbl (tbl d)) = [''b1''] \<and> apps_have_bundles (tbl d) \<and>
     (\<exists>e d'. app_cmd example_cli (DeleteApp ''x'') d = (Inl e, d') \<and> data_tables (tbl d') = data_tables (tbl d))"
proof -
  let ?start = "example_db\<lparr>outcomes := [None, None, None, None, None, Some ''gone'']\<rparr>"
  let ?d = "app_cmds [(example_cli, AddSingleFileApp ''x'' ''js'')] ?start"
  have "apps_have_bundles (tbl ?start)" by (simp add: apps_have_bundles_def example_db_simps)
  from cli_keeps_applications_runnable [OF this, of "[(example_cli, AddSingleFileApp ''x'' ''js'')]" example_cli "DeleteApp ''x''"]
  have p: "apps_have_bundles (tbl ?d)"
    "\<And>e d'. app_cmd example_cli (DeleteApp ''x'') ?d = (Inl e, d') \<Longrightarrow> data_tables (tbl d') = data_tables (tbl ?d)"
    by blast+
  have "\<exists>e d'. app_cmd example_cli (DeleteApp ''x'') ?d = (Inl e, d')" "map ap_bundle_id (apps_tbl (tbl ?d)) = [''b1'']"
    by (simp_all add: app_cmds_def example_cli_def cli_bind_def cli_try_def cli_db_def cli_println_def
        do_add_app_def Let_def app_bundle_put_def app_metadata_put_def app_metadata_delete_def json_res_def
        db_lift_def example_json_def tbl_upsert_def tbl_insert_def example_db_simps)
  with p show ?thesis unfolding Let_def by blast
qed

section \<open>Control plane\<close>

text \<open>
  The control plane's service implements the steps on the map of routes that its requests
  mean: a request answered with status 200 has made its step, and one answered with another
  status has changed no route, whatever the server does. (Serialising the unit value succeeds.)
\<close>

theorem control_plane_refines_route_map:
  assumes "cp_serve js now req d = (res, d')" and "cj_unit_to_string js = Inr unit"
  shows "hr_status res \<in> {200, 404, 500} \<and>
    route_map (tbl d') =
      (if hr_status res = 200 then cp_effect js (hq_path req) (body_of req) (route_map (tbl d))
       else route_map (tbl d))"
  by (rule cp_serve_effect [OF assms])

definition example_cp :: cp_json where
  "example_cp =
     \<lparr>cj_list_routes = (\<lambda>_. Inl ''syntax''),
      cj_add_route = (\<lambda>_. Inr \<lparr>aro_domain = ''a.com'', aro_path = ''/'', aro_appid = ''x''\<rparr>),
      cj_delete_domain = (\<lambda>_. Inl ''syntax''), cj_delete_route = (\<lambda>_. Inl ''syntax''),
      cj_routes_to_string = (\<lambda>_. Inr ''[]''), cj_unit_to_string = Inr ''null'', cj_debug = (\<lambda>_. ''error'')\<rparr>"

theorem control_plane_refines_route_map_witness:
  "\<exists>res d'. cp_serve example_cp 5 (example_request ''/v1/add_route'') example_db = (res, d') \<and>
     hr_status res = 200 \<and> route_map (tbl d') (''a.com'', ''/'') = Some ''x''"
proof -
  let ?req = "example_request ''/v1/add_route''"
  obtain res d' where run: "cp_serve example_cp 5 ?req example_db = (res, d')" by (rule prod.exhaust)
  then have "hr_status res = 200"
    by (auto simp: cp_serve_def cp_handle_def cp_db_def example_cp_def example_request_def mk_json_response_def
        Response_new_def route_mapping_insert_def bind_res_def example_db_simps split: prod.splits sum.splits)
  moreover have "cj_unit_to_string example_cp = Inr ''null''" by (simp add: example_cp_def)
  moreover note control_plane_refines_route_map [OF run this]
  ultimately show ?thesis
    using run by (simp add: cp_effect_def example_request_def example_cp_def)
qed

text \<open>From the control plane to the proxy: a series of requests, and the routes it publishes.\<close>

fun cp_run :: "cp_json \<Rightarrow> (u64 \<times> Request) list \<Rightarrow> db \<Rightarrow> Response list \<times> db" where
  "cp_run js [] d = ([], d)"
| "cp_run js ((now, req) # reqs) d =
     (case cp_serve js now req d of
        (res, d') \<Rightarrow> (case cp_run js reqs d' of (ress, d'') \<Rightarrow> (res # ress, d'')))"

fun published :: "cp_json \<Rightarrow> (u64 \<times> Request) list \<Rightarrow> Response list \<Rightarrow> (string \<times> string \<Rightarrow> string option)
    \<Rightarrow> string \<times> string \<Rightarrow> string option" where
  "published js ((now, req) # reqs) (res # ress) m =
     published js reqs ress (if hr_status res = 200 then cp_effect js (hq_path req) (body_of req) m else m)"
| "published js _ _ m = m"

lemma cp_serve_wf:
  assumes "tables_wf (tbl d)"
  shows "tables_wf (tbl (snd (cp_serve js now req d)))"
proof -
  have call: "tables_wf (tbl (snd (cp_db js m k d)))" if "db_keeps tables_wf m" for m :: "'x dbm" and k
    using that assms by (auto simp: cp_db_def db_keeps_def split: prod.splits sum.splits)
  have "tables_wf (tbl (snd (cp_handle js now req d)))"
    using assms
    by (auto simp: cp_handle_def intro!: call db_keeps_readonly select_ops_readonly routes_keeps split: sum.splits)
  then show ?thesis by (auto simp: cp_serve_def split: prod.splits sum.splits)
qed

lemma cp_run_published:
  assumes "tables_wf (tbl d)" and "cj_unit_to_string js = Inr unit" and "cp_run js reqs d = (ress, d')"
  shows "tables_wf (tbl d') \<and> route_map (tbl d') = published js reqs ress (route_map (tbl d))"
  using assms
proof (induction js reqs d arbitrary: ress rule: cp_run.induct)
  case (2 js now req reqs d)
  obtain res d1 where one: "cp_serve js now req d = (res, d1)" by fastforce
  obtain ress1 where rest: "cp_run js reqs d1 = (ress1, d')" "ress = res # ress1"
    using "2.prems"(3) one by (auto split: prod.splits)
  have wf: "tables_wf (tbl d1)" using cp_serve_wf [OF "2.prems"(1), of js now req] one by simp
  from "2.IH" [OF one [symmetric] wf "2.prems"(2) rest(1)] cp_serve_effect [OF one "2.prems"(2)] rest(2)
  show ?case by simp
qed simp

lemma route_map_rows:
  assumes "tables_wf t"
  shows "route_map t (host, p) = Some a \<longleftrightarrow> (\<exists>r \<in> set (routes t). rt_domain r = host \<and> rt_path r = p \<and> rt_appid r = a)"
proof -
  note kwf = tables_wf_dests(2) [OF assms]
  have "tbl_find rt_key (host, p) (routes t) = Some r \<longleftrightarrow> r \<in> set (routes t) \<and> rt_domain r = host \<and> rt_path r = p" for r
    using tbl_find_mem [OF kwf, of r] by (auto simp: rt_key_def dest!: tbl_find_Some)
  then show ?thesis by (auto simp: route_map_def)
qed

text \<open>
  C25. What the control plane has acknowledged is what the proxy serves: after any series of its
  requests, with any failures of the server, a request for a domain that the proxy has not
  cached goes to the application that is published for the longest prefix of its path, where
  published is what the requests answered with status 200 have made of the routes, in their
  order.
\<close>

theorem published_routes_are_served:
  assumes "cp_run js reqs d = (ress, d')" and "tables_wf (tbl d)" and "cj_unit_to_string js = Inr unit"
    and "tbl (sc_kv_client s) = tbl d'" and "db_up (sc_kv_client s)" and "lru_laws (snd ops)"
    and "\<forall>m. (host, m) \<notin> set (lru_entries (snd ops) (sc_route_cache s))"
  shows "let m = published js reqs ress (route_map (tbl d)) in
    fst (resolve_route ops True host path s) = Some (AppId v) \<longleftrightarrow>
      (\<exists>k. m (host, k) = Some v \<and> starts_with path k \<and>
         (\<forall>k' v'. m (host, k') = Some v' \<longrightarrow> starts_with path k' \<longrightarrow> length k' \<le> length k))"
proof -
  from cp_run_published [OF assms(2,3,1)] have wf: "tables_wf (tbl (sc_kv_client s))"
    and m: "route_map (tbl (sc_kv_client s)) = published js reqs ress (route_map (tbl d))"
    using assms(4) by simp_all
  show ?thesis
    unfolding Let_def m [symmetric] cold_route_is_database_route [OF assms(6,5,7) wf] route_map_rows [OF wf]
    by blast
qed

theorem published_routes_are_served_witness:
  "\<exists>res d'. cp_run example_cp [(5, example_request ''/v1/add_route'')] example_db = ([res], d') \<and>
     hr_status res = 200 \<and>
     fst (resolve_route (list_lru, list_lru) True ''a.com'' ''/api/v1'' (example_sched\<lparr>sc_kv_client := d'\<rparr>)) =
       Some (AppId ''api'') \<and>
     fst (resolve_route (list_lru, list_lru) True ''a.com'' ''/x'' (example_sched\<lparr>sc_kv_client := d'\<rparr>)) =
       Some (AppId ''x'')"
proof -
  let ?req = "example_request ''/v1/add_route''"
  obtain res d' where run: "cp_serve example_cp 5 ?req example_db = (res, d')" by (rule prod.exhaust)
  then have ok: "hr_status res = 200" and up: "db_up d'"
    by (auto simp: cp_serve_def cp_handle_def cp_db_def example_cp_def example_request_def mk_json_response_def
        Response_new_def route_mapping_insert_def bind_res_def example_db_simps db_up_def split: prod.splits sum.splits)
  let ?s = "example_sched\<lparr>sc_kv_client := d'\<rparr>"
  have cr: "cp_run example_cp [(5, ?req)] example_db = ([res], d')" by (simp add: run)
  have unit: "cj_unit_to_string example_cp = Inr ''null''" by (simp add: example_cp_def)
  have wf: "tables_wf (tbl example_db)" by (simp add: example_db_simps)
  have client: "tbl (sc_kv_client ?s) = tbl d'" "db_up (sc_kv_client ?s)" by (simp_all add: up)
  have l: "lru_laws (snd (list_lru :: ((AppId \<times> nat) list, AppId, nat) lru_ops,
      list_lru :: ((string \<times> (string, AppId) BTreeMap) list, string, (string, AppId) BTreeMap) lru_ops))"
    by (simp add: list_lru_laws)
  have cold: "\<forall>m. (''a.com'', m) \<notin> set (lru_entries (snd (list_lru :: ((AppId \<times> nat) list, AppId, nat) lru_ops,
      list_lru)) (sc_route_cache ?s))"
    by (simp add: example_sched_def list_lru_def)
  have rows: "route_map (tbl example_db) (''a.com'', k) = Some v \<longleftrightarrow>
      (k, v) \<in> {(''/'', ''root''), (''/api'', ''api''), (''/api/v2'', ''v2'')}" for k v
    unfolding route_map_rows [OF wf] by (auto simp: example_db_def example_tables_def)
  have m: "published example_cp [(5, ?req)] [res] (route_map (tbl example_db)) (''a.com'', k) = Some v \<longleftrightarrow>
      (k, v) \<in> {(''/'', ''x''), (''/api'', ''api''), (''/api/v2'', ''v2'')}" for k v
    by (auto simp: ok cp_effect_def example_request_def example_cp_def rows split: if_splits)
  note served = published_routes_are_served [OF cr wf unit client l cold, unfolded Let_def m]
  have "fst (resolve_route (list_lru, list_lru) True ''a.com'' ''/api/v1'' ?s) = Some (AppId ''api'')"
    "fst (resolve_route (list_lru, list_lru) True ''a.com'' ''/x'' ?s) = Some (AppId ''x'')"
    by (subst served; auto)+
  with cr ok show ?thesis by blast
qed

section \<open>Playground API\<close>

text \<open>
  C26. The playground API guards the control plane with a token: a request whose header does not
  decode to the token of the command line is answered with status 500 whatever it asks, and the
  data client is not called; with the token, the requests that the control plane knows are
  answered as the control plane answers them, with the same effect on the database.
\<close>

theorem playground_is_guarded_control_plane:
  assumes "pg_auth_token env opt_token = Inr auth_token"
  shows "(\<not> (\<exists>h t. header_get (hq_headers req) ''x-token'' = Some h \<and> pe_to_str env h = Inr t \<and>
        pg_decode_id128 env t = pg_decode_id128 env opt_token) \<longrightarrow>
      (\<exists>res. pg_serve env auth_token kv req s = (Some res, s) \<and> hr_status res = 500)) \<and>
    (pg_authenticate env auth_token req = Inr () \<longrightarrow> hq_path req \<notin> set pg_app_paths \<longrightarrow>
      pg_serve env auth_token (db_client env now js to_vec bundle_delete log_range) req d =
        map_prod Some id (cp_serve (pe_cp env) now req d))"
proof -
  from assms have token: "pg_decode_id128 env opt_token = Some auth_token"
    by (simp add: pg_auth_token_def ok_or_Inr_iff)
  show ?thesis
  proof (intro conjI impI)
    assume "\<not> (\<exists>h t. header_get (hq_headers req) ''x-token'' = Some h \<and> pe_to_str env h = Inr t \<and>
        pg_decode_id128 env t = pg_decode_id128 env opt_token)"
    then have "pg_authenticate env auth_token req \<noteq> Inr ()" by (simp add: pg_authenticate_iff token)
    then obtain e where "pg_authenticate env auth_token req = Inl e"
      by (cases "pg_authenticate env auth_token req") auto
    from pg_unauthenticated [OF this, of kv s]
    show "\<exists>res. pg_serve env auth_token kv req s = (Some res, s) \<and> hr_status res = 500"
      by (simp add: Response_new_def)
  qed (rule pg_serve_routes)
qed

definition example_playground :: pg_env where
  "example_playground =
     \<lparr>pe_cp = example_cp, pe_add_app = (\<lambda>_. Inl ''syntax''), pe_delete_app = (\<lambda>_. Inl ''syntax''),
      pe_delete_namespace = (\<lambda>_. Inl ''syntax''), pe_logs = (\<lambda>_. Inl ''syntax''),
      pe_app_config = (\<lambda>_. Inl ''syntax''), pe_len_to_string = (\<lambda>_. Inr ''0''), pe_items_to_string = (\<lambda>_. Inr ''[]''),
      pe_base64_decode = (\<lambda>t. Inr (replicate 16 (if t = ''YQ=='' then 97 else 98))), pe_base64_encode = (\<lambda>_. []),
      pe_to_str = (\<lambda>h. Inr (if h = [1] then ''YQ=='' else ''Yg=='')),
      pe_random = (\<lambda>_. 0), pe_now = 0\<rparr>"

theorem playground_is_guarded_control_plane_witness:
  "\<exists>res. pg_serve example_playground (replicate 16 97)
      (db_client example_playground 5 example_json (\<lambda>_. []) (\<lambda>_ d. (Inr (), d)) (\<lambda>_ _ _ _ xs d. (Inr xs, d)))
      ((example_request ''/v1/add_route'')\<lparr>hq_headers := [(''x-token'', [2])]\<rparr>) example_db
    = (Some res, example_db) \<and> hr_status res = 500"
proof -
  let ?req = "(example_request ''/v1/add_route'')\<lparr>hq_headers := [(''x-token'', [2])]\<rparr>"
  have token: "pg_auth_token example_playground ''YQ=='' = Inr (replicate 16 97)"
    by (simp add: pg_auth_token_def pg_decode_id128_def decode_id128_def example_playground_def as_bytes_def)
  have "\<not> (\<exists>h t. header_get (hq_headers ?req) ''x-token'' = Some h \<and> pe_to_str example_playground h = Inr t \<and>
      pg_decode_id128 example_playground t = pg_decode_id128 example_playground ''YQ=='')"
    by (simp add: header_get_def pg_decode_id128_def decode_id128_def example_playground_def as_bytes_def)
  then show ?thesis by (rule playground_is_guarded_control_plane [OF token, THEN conjunct1, THEN mp])
qed

section \<open>Fetch daemon\<close>

text \<open>
  C40. The RPC never fails itself. A fetch that succeeds was sent without a \<open>Host\<close> header from
  the worker, and returns the status, the headers in the order received under each name, and the
  whole body, of at most 8 MiB; a longer body is an error.
\<close>

theorem fetch_is_bounded:
  assumes "FetchServer_fetch ops req = res"
  shows "(\<forall>x. res = Inr (Inr x) \<longrightarrow>
      (\<exists>t r parts. build_target ops req = Inr t \<and> fo_execute ops t = Inr r \<and>
         (\<exists>host. fo_header_name ops (as_bytes ''host'') = Inr host \<and> host \<notin> fst ` set (tq_headers t)) \<and>
         rr_chunks r = map Inr parts \<and> res_body x = Binary (concat parts) \<and>
         length (concat parts) \<le> 8 * 2 ^ 20 \<and> res_status x = rr_status r \<and>
         (\<forall>k. \<exists>vals. map (\<lambda>h. fo_to_str ops (snd h)) (filter (\<lambda>h. fst h = k) (rr_headers r)) = map Inr vals \<and>
            (case bt_get (res_headers x) k of None \<Rightarrow> [] | Some vs \<Rightarrow> vs) = vals))) \<and>
    (\<forall>t r parts. build_target ops req = Inr t \<and> fo_execute ops t = Inr r \<and> rr_chunks r = map Inr parts \<and>
       length (concat parts) > 8 * 2 ^ 20 \<longrightarrow> res = Inr (Inl (''fetch error: '' @ ResponseBodyTooLarge))) \<and>
    (\<exists>y. res = Inr y)"
proof (intro conjI allI impI)
  fix x
  assume "res = Inr (Inr x)"
  with assms have "run_fetch ops req = Inr x" by (simp add: FetchServer_fetch_def split: sum.splits)
  from run_fetch_Inr [OF this] obtain t r parts where f: "build_target ops req = Inr t" "fo_execute ops t = Inr r"
    "rr_chunks r = map Inr parts" "res_body x = Binary (concat parts)"
    "length (concat parts) \<le> FETCHD_MAX_RESPONSE_BODY_SIZE" "res_status x = rr_status r"
    "response_headers ops (rr_headers r) [] = Inr (res_headers x)" by blast
  have "\<forall>k. \<exists>vals. map (\<lambda>h. fo_to_str ops (snd h)) (filter (\<lambda>h. fst h = k) (rr_headers r)) = map Inr vals \<and>
      (case bt_get (res_headers x) k of None \<Rightarrow> [] | Some vs \<Rightarrow> vs) = vals"
    using response_headers_get [OF f(7)] by (simp add: bt_get_def)
  with f build_target_Inr(4) [OF f(1)]
  show "\<exists>t r parts. build_target ops req = Inr t \<and> fo_execute ops t = Inr r \<and>
         (\<exists>host. fo_header_name ops (as_bytes ''host'') = Inr host \<and> host \<notin> fst ` set (tq_headers t)) \<and>
         rr_chunks r = map Inr parts \<and> res_body x = Binary (concat parts) \<and>
         length (concat parts) \<le> 8 * 2 ^ 20 \<and> res_status x = rr_status r \<and>
         (\<forall>k. \<exists>vals. map (\<lambda>h. fo_to_str ops (snd h)) (filter (\<lambda>h. fst h = k) (rr_headers r)) = map Inr vals \<and>
            (case bt_get (res_headers x) k of None \<Rightarrow> [] | Some vs \<Rightarrow> vs) = vals)"
    by (intro exI [of _ t] exI [of _ r] exI [of _ parts] conjI) (simp_all add: FETCHD_MAX_RESPONSE_BODY_SIZE_def)
next
  fix t r parts
  assume "build_target ops req = Inr t \<and> fo_execute ops t = Inr r \<and> rr_chunks r = map Inr parts \<and>
    length (concat parts) > 8 * 2 ^ 20"
  then have "run_fetch ops req = Inl ResponseBodyTooLarge"
    by (intro run_fetch_oversize) (auto simp: FETCHD_MAX_RESPONSE_BODY_SIZE_def)
  with assms show "res = Inr (Inl (''fetch error: '' @ ResponseBodyTooLarge))" by (simp add: FetchServer_fetch_def)
next
  show "\<exists>y. res = Inr y" using assms by (auto simp: FetchServer_fetch_def split: sum.splits)
qed

definition example_fetch :: "nat \<Rightarrow> string fetch_ops" where
  "example_fetch n =
     \<lparr>fo_url_parse = Inr, fo_method_from_bytes = (\<lambda>_. Inr ''GET''),
      fo_header_name = (\<lambda>b. Inr (if b = as_bytes ''host'' then ''host'' else ''accept'')),
      fo_header_value = Inr \<circ> as_bytes, fo_to_str = (\<lambda>_. Inr ''v''),
      fo_execute = (\<lambda>_. Inr \<lparr>rr_status = 200, rr_headers = [], rr_chunks = map Inr [replicate n 0]\<rparr>)\<rparr>"

theorem fetch_is_bounded_witness:
  "FetchServer_fetch (example_fetch (8 * 2 ^ 20 + 1)) RequestObject_default =
     Inr (Inl ''fetch error: response body too large'')"
proof -
  let ?ops = "example_fetch (8 * 2 ^ 20 + 1)"
  obtain t where t: "build_target ?ops RequestObject_default = Inr t"
    by (simp add: build_target_def example_fetch_def RequestObject_default_def bind_res_def)
  have e: "fo_execute ?ops t =
      Inr \<lparr>rr_status = 200, rr_headers = [], rr_chunks = map Inr [replicate (8 * 2 ^ 20 + 1) 0]\<rparr>"
    by (simp add: example_fetch_def)
  have l: "length (concat [replicate (8 * 2 ^ 20 + 1) (0 :: u8)]) > 8 * 2 ^ 20" by simp
  from fetch_is_bounded [OF refl, of ?ops RequestObject_default, THEN conjunct2, THEN conjunct1]
  have "FetchServer_fetch ?ops RequestObject_default = Inr (Inl (''fetch error: '' @ ResponseBodyTooLarge))"
    using t e l by (metis remote_response.select_convs(3))
  then show ?thesis by (simp add: ResponseBodyTooLarge_def)
qed

end
