(* ===== verification/Spec2Isabelle.thy ===== *)
theory Spec2Isabelle
  imports Proxy_Props Worker_Props Metric_Props Metric_Api Metric_Macros Pb_Props Tools_Props
begin

text \<open>
  Verification of rusty-workers, a platform that runs JavaScript workers (sources under
  \<open>src/\<close>; all file names below are relative to it).

  The program. A frontend proxy (\<open>rusty-workers-proxy\<close>) takes HTTP requests, finds the
  application by its routes, gets or spawns a ready instance of it on one of the runtimes, and
  forwards the request to it. A runtime process (\<open>rusty-workers-runtime\<close>) runs the instances,
  each on a thread with a V8 isolate, under limits on memory, time and I/O. A fetch daemon
  (\<open>rusty-workers-fetchd\<close>) makes outgoing requests for workers. Routes, applications, bundles,
  the workers' key-value data and logs are rows of a MySQL database, reached through one client
  (\<open>rusty-workers/src/db.rs\<close>) by the proxy, the runtime, the command line tool
  (\<open>rusty-workers-cli\<close>), the control plane (\<open>rusty-workers-cp\<close>) and the playground API
  (\<open>rusty-workers-playground-api\<close>). The proxy reports metrics through a metrics library kept in
  the repository (\<open>prometheus\<close>).

  The theories.

  \<^item> Foundations. \<open>Prelude\<close>: Rust integers as words, results as sums (the error on the left),
    \<open>BTreeMap\<close> as the sorted list of its entries with the locale \<open>ordered_map\<close>. \<open>Hash_Map\<close>:
    \<open>HashMap\<close> as the list of its entries in an unknown order, with the locale \<open>keyed_map\<close>, of
    which every ordered map is an instance. \<open>F64\<close>: \<open>f64\<close> as exact rationals with rounding to
    nearest even, infinities and NaN; the sign of zero is not represented. \<open>Types\<close>: the shared
    data, errors and identifiers (\<open>rusty-workers/src/types.rs\<close>, \<open>app.rs\<close>, \<open>util.rs\<close>).

  \<^item> Database. \<open>Db\<close>: every call of \<open>DataClient\<close> over the tables, one function per SQL statement;
    each call to the server can fail (the list \<open>outcomes\<close>), and a transaction that is not
    committed is rolled back. \<open>Db_Spec\<close>: a calculus of calls that are read-only, atomic, or keep
    an invariant. \<open>Db_Props\<close>: properties. \<open>Routing\<close>: the proxy's choice of a route
    (\<open>lookup_submappings\<close>) against the database's query.

  \<^item> Proxy. \<open>Sched\<close>, \<open>Proxy\<close>: \<open>sched.rs\<close> and \<open>main.rs\<close>, the request path with every answer that
    runtimes, database and client can give as an input. \<open>Sched_Spec\<close>, \<open>Proxy_Spec\<close>: lemmas.
    \<open>Proxy_Fidelity\<close>: what passes through unchanged. \<open>Proxy_Concurrent\<close>: the attempts of many
    requests as a step relation that interleaves them at locks, calls of runtimes and uses of the
    termination queue, with the tasks beside them and clients that hang up;
    \<open>Proxy_Concurrent_Spec\<close>: where instances are, who holds locks, that requests end, and that the
    sequential model is one of the executions.
    \<open>Proxy_Props\<close>: properties. \<open>Proxy_Metrics\<close>: the metrics task and the answer to a scrape.

  \<^item> Runtime. \<open>Memory\<close>: semaphore, memory budget, buffers. \<open>Isolate\<close>: the pool of isolate threads
    (a step relation) and the reuse of isolates. \<open>Runtime\<close>: the RPC service, the time monitor.
    \<open>Io\<close>, \<open>Io_Spec\<close>: asynchronous operations (a step relation over the pipeline) and what they can
    do to the database. \<open>Executor\<close>, \<open>Executor_Spec\<close>: the life of an instance. \<open>Engine\<close>: the
    global object of a script, callbacks, and the cleanup between two instances.
    \<open>Worker_Props\<close>: properties.

  \<^item> Metrics library. \<open>Metric_Model\<close>: samples and families (\<open>plain_model.rs\<close>), errors. \<open>Metric_Desc\<close>,
    \<open>Metric_Desc_Spec\<close>: options, descriptors and their hashes. \<open>Metric_Atomic\<close>, \<open>Metric_Value\<close>:
    atomic numbers, counters, gauges, local counters. \<open>Metric_Vec\<close>, \<open>Metric_LocalVec\<close>: vectors.
    \<open>Metric_Histogram\<close>: histograms as threads that interleave single atomic accesses;
    \<open>Metric_Histogram_Spec\<close>: the invariant of the two shards in every phase of a collect;
    \<open>Metric_Histogram_Local\<close>: what operations stand for. \<open>Metric_Registry\<close>, \<open>Metric_Gather\<close>: the
    registry and what it returns. \<open>Metric_Text\<close>, \<open>Metric_Text_Spec\<close>: the text encoder, a reader of
    the format, and their round trip. \<open>Metric_Timer\<close>: the coarse clock (a step relation) and
    self-flushing metrics. \<open>Metric_Push\<close>: the push client. \<open>Metric_Api\<close>: the remaining calls.
    \<open>Metric_Macros\<close>: the macros and the functions of the default registry. \<open>Metric_Process\<close>: the
    collector of process metrics, with \<open>F64_Round\<close> on sums that grow under rounding.
    \<open>Metric_Props\<close>: properties.

  \<^item> Protobuf. \<open>Pb_Model\<close>, \<open>Pb_Codec\<close>: the messages of the generated model
    (\<open>prometheus/proto/proto_model.rs\<close>), their accessors, and the size, the writer and the reader of
    each, over a parameter record \<open>protobuf\<close> for the runtime library; the protobuf encoder.
    \<open>Pb_Wire\<close>: the wire format, and the laws of the runtime as the locales \<open>protobuf_runtime\<close>
    (what it writes it reads back) and \<open>protobuf_progress\<close> (readers move forward). \<open>Pb_Spec\<close>: the
    encoding that the schema prescribes for each message, that the writers produce it and that
    the readers accept it. \<open>Pb_Runtime\<close>: a runtime on lists of bytes, on which both locales are
    interpreted. \<open>Pb_Plain\<close>: read through its getters the generated model is the plain one, and the
    accessors do the same to both. \<open>Pb_Reflect\<close>: the field accessors and descriptors of the
    messages and the description of the schema that the file embeds. \<open>Pb_Schema\<close>: the schema of
    \<open>proto_model.proto\<close> as a value, its serialisation, and the encoding it prescribes for a value
    seen by reflection. \<open>Pb_Props\<close>: properties.

  \<^item> Tools. \<open>Cli\<close>, \<open>Cli_Spec\<close>: the command line tool. \<open>Cp\<close>: the control plane.
    \<open>Playground\<close>: the playground API. \<open>Fetchd\<close>: the fetch daemon. \<open>Tools_Props\<close>: properties of
    these, of the proxy's metrics, and of the routes from the control plane to the proxy.

  What the theorems show. Requests: each is answered, with the application that the routes
  published through the control plane give, from an
  instance that is usable, what the worker answers to the request as it came is what the client
  gets, and with any number of requests at a time no instance is used by two of them or terminated
  in use, and none of them waits for ever.
  Workers: each task is answered once; time and memory budgets hold; a stale handle stops
  nothing; a script reaches no other namespace, and finds the host functions. Data: primary
  keys, atomicity of every call under failures, compare-and-set and expiry as a map promises. Metrics: a collected histogram is a
  consistent snapshot under every interleaving, collecting ends, what is registered is gathered
  and printed exactly once, and the printed text reads back to the same samples; a family written
  as protobuf reads back as it was, reading ends on every input, and the generated code, its
  descriptors and the embedded description agree with the schema; the process collector's CPU
  counter never goes back. Tools: no command leaves an application without its bundle, the control
  plane is a map of routes, the playground API guards it with its token, a fetch is bounded. Some
  plain theorems beside the properties state a defect: label values that collide, a registration
  that fails and keeps its names, gauges that show the last application only, an application
  that loses its bundle when its replacement fails, a wrapping count in \<open>KvCmpUpdate\<close>, a reset of the memory
  pool that over-credits it,
  an unused I/O limit, and the metacharacters of \<open>LIKE\<close> in stored paths.

  Bounds and fuel. \<open>attempts\<close> makes the source's three attempts; the measure of a request in steps
  counts 20 for an attempt left, more than the steps of one. \<open>proto\<close> runs a collect without
  interference with fuel \<open>2 n + 7\<close> for \<open>n\<close> buckets: five accesses, two for each bucket, and the
  end of the loop. \<open>drive\<close> of an instance consumes the list of turns that the JavaScript engine
  takes; loops over a queue recur on it. The weights of the runtimes cannot overflow below 56860
  runtimes, a histogram's count below \<open>2 ^ 63\<close> observations: both are hypotheses where they
  matter. \<open>read_document\<close> reads a text with its length as fuel. The
  readers of protobuf messages (\<open>merge_loop\<close>) are partial functions; that they return is a
  property.

  Parameters and what is relied on. Third-party code is an argument of the definitions: JSON and
  TOML codecs, HTTP types and clients, URL parsing, \<open>fnv\<close>, digests, base64, tar, the LRU caches
  (with the laws \<open>lru_laws\<close>), random numbers, clocks, the protobuf runtime (with the laws
  \<open>protobuf_runtime\<close>), procfs, V8 and what JavaScript does. Threads
  interleave at atomic accesses, and memory is sequentially consistent. Locks make the section
  they guard one step. Strings are lists of bytes; where it matters they have no byte that UTF-8
  does not have.

  Not modelled: start-up code that parses options, opens sockets and starts loggers; the RPC
  transport (\<open>tarpc\<close>) and its declarations, whose calls are \<open>rpc_call\<close> of the runtime service;
  the casts of protobuf messages to \<open>Any\<close>; derived \<open>Debug\<close> and \<open>Clone\<close> implementations and
  methods of handles that only call the method of the same name of what they share; the
  JavaScript runtime library (\<open>librt\<close>) and deployment files.
\<close>

end
